(* ===== verification/Prelude.thy ===== *)
theory Prelude
  imports Main "HOL-Library.Char_ord" "HOL-Library.List_Lexorder" "HOL-Library.Sublist"
begin

text \<open>
  Shared vocabulary of the development: the exceptions of the program as values, the result
  type of every fallible operation, the combinators that sequence checks the way a chain of
  \<open>if ... : raise\<close> statements does, and the list facts the components share.

  A Python exception is a value \<open>Exn cls code detail\<close>: the class, the text the program passes
  as the stable code, and the optional informative detail of the policy errors. An operation
  that may raise returns \<open>exn + 'a\<close>: \<open>Inl\<close> is the exception, \<open>Inr\<close> the value.
\<close>

named_theorems res_simps \<open>equations and inversions of the result combinators\<close>
named_theorems py_eval \<open>equations that evaluate the Python value operations on literals\<close>
named_theorems wf_rules \<open>well-formedness of the values the program builds\<close>

section \<open>Exceptions as values\<close>

datatype exn_class =
    WritePolicyError | CheckpointPolicyError | RefutePolicyError
  | TransactionError | StoreError | ConcurrentUpdateError | IntegrityError | LockBusyError
  | CustodyError | IdentityError | TemporalError | SubjectRefError | RevisionWalkError | RelocationReceiptError
  | CompactionError | ReaderGateError | RecursionError | OSError
  | DatabaseError | ResumeBudgetError | ContextViewError
  | StopIteration | TypeError | KeyError | ValueError | AttributeError | UnicodeDecodeError | JSONDecodeError

datatype exn = Exn (exn_class: exn_class) (exn_code: string) (exn_detail: "string option")

type_synonym 'a res = "exn + 'a"

abbreviation raise :: "exn_class \<Rightarrow> string \<Rightarrow> 'a res" where
  "raise cls code \<equiv> Inl (Exn cls code None)"

abbreviation raise_at :: "exn_class \<Rightarrow> string \<Rightarrow> string \<Rightarrow> 'a res" where
  "raise_at cls code detail \<equiv> Inl (Exn cls code (Some detail))"

text \<open>The subclasses of \<open>ValueError\<close> among the classes above, for \<open>except ValueError\<close>.\<close>

definition is_value_error :: "exn \<Rightarrow> bool" where
  "is_value_error e \<longleftrightarrow> exn_class e \<in>
     {ValueError, UnicodeDecodeError, JSONDecodeError, WritePolicyError,
      CheckpointPolicyError, RefutePolicyError, TemporalError, SubjectRefError, RevisionWalkError,
      RelocationReceiptError}"

section \<open>Sequencing of fallible steps\<close>

text \<open>\<open>andthen m k\<close>: run \<open>m\<close>; an exception propagates, a value goes to \<open>k\<close>.\<close>

fun andthen :: "'a res \<Rightarrow> ('a \<Rightarrow> 'b res) \<Rightarrow> 'b res" where
  "andthen (Inl e) k = Inl e"
| "andthen (Inr a) k = k a"

text \<open>\<open>checks cs\<close>: the statements of a validator in their order; the first that raises wins.\<close>

fun checks :: "unit res list \<Rightarrow> unit res" where
  "checks [] = Inr ()"
| "checks (c # cs) = andthen c (\<lambda>_. checks cs)"

text \<open>\<open>ensure b e\<close>: \<open>if not b: raise e\<close>.\<close>

definition ensure :: "bool \<Rightarrow> exn \<Rightarrow> unit res" where
  "ensure b e = (if b then Inr () else Inl e)"

text \<open>\<open>when_ok b m\<close>: the statement \<open>if b: m\<close> with nothing in the other branch.\<close>

definition when_ok :: "bool \<Rightarrow> unit res \<Rightarrow> unit res" where
  "when_ok b m = (if b then m else Inr ())"

text \<open>\<open>each f xs\<close>: \<open>for x in xs: f(x)\<close>, stopping at the first exception.\<close>

definition each :: "('a \<Rightarrow> unit res) \<Rightarrow> 'a list \<Rightarrow> unit res" where
  "each f xs = checks (map f xs)"

fun traverse :: "('a \<Rightarrow> 'b res) \<Rightarrow> 'a list \<Rightarrow> 'b list res" where
  "traverse f [] = Inr []"
| "traverse f (x # xs) =
     andthen (f x) (\<lambda>y. andthen (traverse f xs) (\<lambda>ys. Inr (y # ys)))"

text \<open>\<open>except_as p e m\<close>: \<open>try: m except <classes of p>: raise e\<close>.\<close>

definition except_as :: "(exn \<Rightarrow> bool) \<Rightarrow> exn \<Rightarrow> 'a res \<Rightarrow> 'a res" where
  "except_as p e m = (case m of Inl x \<Rightarrow> if p x then Inl e else Inl x | Inr a \<Rightarrow> Inr a)"

definition succeeds :: "'a res \<Rightarrow> bool" where
  "succeeds m = (case m of Inl _ \<Rightarrow> False | Inr _ \<Rightarrow> True)"

subsection \<open>Inversion: what a success says\<close>

lemma andthen_Inr_iff [simp, res_simps]:
  "andthen m k = Inr b \<longleftrightarrow> (\<exists>a. m = Inr a \<and> k a = Inr b)"
  by (cases m) auto

lemma andthen_Inl_iff [res_simps]:
  "andthen m k = Inl e \<longleftrightarrow> m = Inl e \<or> (\<exists>a. m = Inr a \<and> k a = Inl e)"
  by (cases m) auto

lemma andthen_assoc: "andthen (andthen m f) g = andthen m (\<lambda>x. andthen (f x) g)"
  by (cases m) auto

lemma andthen_Inr_right [simp]: "andthen m Inr = m"
  by (cases m) auto

lemma checks_Cons_Inr_iff [simp, res_simps]:
  "checks (c # cs) = Inr u \<longleftrightarrow> c = Inr () \<and> checks cs = Inr ()"
  by (cases c) auto

lemma checks_Inr_iff: "checks cs = Inr u \<longleftrightarrow> (\<forall>c\<in>set cs. c = Inr ())"
  by (induction cs) (auto simp del: checks.simps(2))

lemma checks_append [simp]: "checks (cs @ ds) = andthen (checks cs) (\<lambda>_. checks ds)"
  by (induction cs) (auto simp: andthen_assoc checks.simps(2))

declare checks.simps(2) [simp del]

lemma ensure_Inr_iff [simp, res_simps]: "ensure b e = Inr u \<longleftrightarrow> b"
  by (simp add: ensure_def)

lemma ensure_Inl_iff [simp, res_simps]: "ensure b e = Inl e' \<longleftrightarrow> \<not> b \<and> e' = e"
  by (auto simp: ensure_def)

lemma ensure_True [simp, py_eval]: "ensure True e = Inr ()"
  by (simp add: ensure_def)

lemma ensure_False [simp, py_eval]: "ensure False e = Inl e"
  by (simp add: ensure_def)

lemma when_ok_Inr_iff [simp, res_simps]: "when_ok b m = Inr u \<longleftrightarrow> (b \<longrightarrow> m = Inr ())"
  by (simp add: when_ok_def)

lemma when_ok_simps [simp, py_eval]: "when_ok True m = m" "when_ok False m = Inr ()"
  by (simp_all add: when_ok_def)

lemma each_Inr_iff [simp, res_simps]: "each f xs = Inr u \<longleftrightarrow> (\<forall>x\<in>set xs. f x = Inr ())"
  by (auto simp: each_def checks_Inr_iff)

lemma each_simps [simp, py_eval]:
  "each f [] = Inr ()"
  "each f (x # xs) = andthen (f x) (\<lambda>_. each f xs)"
  by (simp_all add: each_def checks.simps(2))

lemma except_as_Inr_iff [simp, res_simps]: "except_as p e m = Inr a \<longleftrightarrow> m = Inr a"
  by (auto simp: except_as_def split: sum.splits if_splits)

lemma except_as_Inr [simp, py_eval]: "except_as p e (Inr a) = Inr a"
  by (simp add: except_as_def)

lemma succeeds_iff [res_simps]: "succeeds m \<longleftrightarrow> (\<exists>a. m = Inr a)"
  by (cases m) (auto simp: succeeds_def)

lemma succeeds_simps [simp, py_eval]: "succeeds (Inr a)" "\<not> succeeds (Inl e)"
  by (simp_all add: succeeds_def)

lemma traverse_Inr_length: "traverse f xs = Inr ys \<Longrightarrow> length ys = length xs"
  by (induction xs arbitrary: ys) auto

lemma traverse_Inr_all2: "traverse f xs = Inr ys \<longleftrightarrow> list_all2 (\<lambda>x y. f x = Inr y) xs ys"
proof (induction xs arbitrary: ys)
  case (Cons x xs)
  then show ?case by (cases ys) auto
qed (auto simp: list_all2_Nil)

lemma traverse_Inr_map: "(\<And>x. x \<in> set xs \<Longrightarrow> f x = Inr (g x)) \<Longrightarrow> traverse f xs = Inr (map g xs)"
  by (induction xs) auto

section \<open>Lists standing for Python sets\<close>

text \<open>
  A Python set of strings that ends in \<open>sorted(...)\<close> is the sorted list without repetitions.
\<close>

definition sorted_set :: "'a::linorder list \<Rightarrow> 'a list" where
  "sorted_set xs = sort (remdups xs)"

lemma set_sorted_set [simp]: "set (sorted_set xs) = set xs"
  by (simp add: sorted_set_def)

lemma sorted_sorted_set [simp]: "sorted (sorted_set xs)" "distinct (sorted_set xs)"
  by (simp_all add: sorted_set_def)

lemma sorted_set_idem [simp]: "sorted_set (sorted_set xs) = sorted_set xs"
  by (metis distinct_remdups_id sorted_set_def sorted_sorted_set sorted_sort_id)

lemma sorted_set_eqI: "set xs = set ys \<Longrightarrow> sorted_set xs = sorted_set ys"
  by (rule sorted_distinct_set_unique) simp_all

lemma sorted_set_Nil_iff [simp]: "sorted_set xs = [] \<longleftrightarrow> xs = []"
  by (metis set_empty set_sorted_set)

lemma map_of_filter_key:
  "map_of (filter (\<lambda>kv. fst kv \<noteq> q) m) p = (if p = q then None else map_of m p)"
  by (induction m) auto

section \<open>Text\<close>

text \<open>
  A Python \<open>str\<close> is represented by its UTF-8 bytes, one \<open>char\<close> per byte. Equality, the order by
  code points, concatenation, prefixes and searches for ASCII separators agree between the two
  views. Where the program counts characters rather than bytes, \<open>code_points\<close> counts the bytes
  that are not continuation bytes, which is the number of code points of valid UTF-8.
\<close>

definition code_points :: "string \<Rightarrow> nat" where
  "code_points s = length (filter (\<lambda>c. (of_char c :: nat) div 64 \<noteq> 2) s)"

fun join :: "string \<Rightarrow> string list \<Rightarrow> string" where
  "join sep [] = []"
| "join sep [s] = s"
| "join sep (s # t # ts) = s @ sep @ join sep (t # ts)"

fun split_on :: "char \<Rightarrow> string \<Rightarrow> string list" where
  "split_on c [] = [[]]"
| "split_on c (x # xs) =
     (if x = c then [] # split_on c xs
      else case split_on c xs of [] \<Rightarrow> [[x]] | p # ps \<Rightarrow> (x # p) # ps)"

definition is_digit :: "char \<Rightarrow> bool" where
  "is_digit c \<longleftrightarrow> 48 \<le> (of_char c :: nat) \<and> (of_char c :: nat) \<le> 57"

definition is_lower_hex :: "char \<Rightarrow> bool" where
  "is_lower_hex c \<longleftrightarrow> is_digit c \<or> (97 \<le> (of_char c :: nat) \<and> (of_char c :: nat) \<le> 102)"

definition is_lower :: "char \<Rightarrow> bool" where
  "is_lower c \<longleftrightarrow> 97 \<le> (of_char c :: nat) \<and> (of_char c :: nat) \<le> 122"

definition is_upper :: "char \<Rightarrow> bool" where
  "is_upper c \<longleftrightarrow> 65 \<le> (of_char c :: nat) \<and> (of_char c :: nat) \<le> 90"

lemma split_on_not_Nil [simp]: "split_on c s \<noteq> []"
  by (cases s) (auto split: list.splits)

lemma join_split_on: "join [c] (split_on c s) = s"
proof (induction s)
  case (Cons x xs)
  obtain p ps where eq: "split_on c xs = p # ps" by (cases "split_on c xs") auto
  with Cons show ?case by (cases ps) auto
qed simp

lemma is_digit_hex [simp]: "is_digit c \<Longrightarrow> is_lower_hex c"
  by (simp add: is_lower_hex_def)

definition digit_char :: "nat \<Rightarrow> char" where
  "digit_char d = char_of (48 + d)"

definition digit_val :: "char \<Rightarrow> nat" where
  "digit_val c = (of_char c :: nat) - 48"

lemma digit_char_val [simp]: "d < 10 \<Longrightarrow> digit_val (digit_char d) = d"
  by (simp add: digit_val_def digit_char_def)

lemma digit_char_is_digit [simp]: "d < 10 \<Longrightarrow> is_digit (digit_char d)"
  by (simp add: is_digit_def digit_char_def)

lemma digit_val_less [simp]: "is_digit c \<Longrightarrow> digit_val c < 10"
  unfolding is_digit_def digit_val_def by linarith

lemma digit_val_char [simp]: "is_digit c \<Longrightarrow> digit_char (digit_val c) = c"
  by (simp add: is_digit_def digit_val_def digit_char_def)

end
