(* ===== verification/PyValue.thy ===== *)
theory PyValue
  imports Prelude
begin

text \<open>
  The Python values the program stores and passes around: what \<open>json.loads\<close> returns. A dict is
  the list of its items in increasing key order, which makes HOL equality the order-insensitive
  equality of Python dicts; every operation that builds a dict goes through \<open>put\<close>, which keeps
  that order. A float is its \<open>repr\<close>, the text \<open>json.dumps\<close> prints for it (\<open>NaN\<close>, \<open>Infinity\<close> and
  \<open>-Infinity\<close> included). \<open>bool\<close>, \<open>int\<close> and \<open>float\<close> are kept apart, where Python's \<open>==\<close>
  identifies \<open>True\<close>, \<open>1\<close> and \<open>1.0\<close>: the program guards the places where that would matter with
  \<open>isinstance\<close> tests.
\<close>

datatype json =
    JNull
  | JBool bool
  | JInt int
  | JFloat string
  | JStr string
  | JArr "json list"
  | JObj "(string \<times> json) list"

section \<open>Dictionaries\<close>

fun put :: "string \<Rightarrow> 'a \<Rightarrow> (string \<times> 'a) list \<Rightarrow> (string \<times> 'a) list" where
  "put k v [] = [(k, v)]"
| "put k v ((k', v') # r) =
     (if k = k' then (k, v) # r
      else if k < k' then (k, v) # (k', v') # r
      else (k', v') # put k v r)"

text \<open>A dict display \<open>{k1: v1, ...}\<close>; a later key overrides an earlier one.\<close>

fun puts :: "(string \<times> 'a) list \<Rightarrow> (string \<times> 'a) list \<Rightarrow> (string \<times> 'a) list" where
  "puts [] m = m"
| "puts ((k, v) # kvs) m = puts kvs (put k v m)"

definition mk_obj :: "(string \<times> json) list \<Rightarrow> json" where
  "mk_obj kvs = JObj (puts kvs [])"

text \<open>\<open>update_obj v kvs\<close>: \<open>{**v, **kvs}\<close>, also \<open>v.update(kvs)\<close>.\<close>

fun update_obj :: "json \<Rightarrow> (string \<times> json) list \<Rightarrow> json" where
  "update_obj (JObj m) kvs = JObj (puts kvs m)"
| "update_obj v kvs = v"

fun dict_items :: "json \<Rightarrow> (string \<times> json) list" where
  "dict_items (JObj m) = m"
| "dict_items _ = []"

definition dict_keys :: "json \<Rightarrow> string list" where
  "dict_keys v = map fst (dict_items v)"

definition has_key :: "string \<Rightarrow> json \<Rightarrow> bool" where
  "has_key k v \<longleftrightarrow> k \<in> set (dict_keys v)"

text \<open>
  \<open>get k v\<close> is \<open>v.get(k)\<close>: the value, or \<open>None\<close> for a missing key. It also models the
  subscript \<open>v[k]\<close> at the places where the code has checked before that the key is there;
  \<open>subscript\<close> is \<open>v[k]\<close> where a missing key raises.
\<close>

definition get :: "string \<Rightarrow> json \<Rightarrow> json" where
  "get k v = (case map_of (dict_items v) k of Some x \<Rightarrow> x | None \<Rightarrow> JNull)"

definition subscript :: "string \<Rightarrow> json \<Rightarrow> json res" where
  "subscript k v =
     (case v of
        JObj m \<Rightarrow> (case map_of m k of Some x \<Rightarrow> Inr x | None \<Rightarrow> raise KeyError k)
      | _ \<Rightarrow> raise TypeError ''subscript'')"

section \<open>Type tests\<close>

fun is_obj :: "json \<Rightarrow> bool" where
  "is_obj (JObj _) = True"
| "is_obj _ = False"

fun is_arr :: "json \<Rightarrow> bool" where
  "is_arr (JArr _) = True"
| "is_arr _ = False"

fun is_str :: "json \<Rightarrow> bool" where
  "is_str (JStr _) = True"
| "is_str _ = False"

fun is_bool :: "json \<Rightarrow> bool" where
  "is_bool (JBool _) = True"
| "is_bool _ = False"

text \<open>\<open>isinstance(v, int)\<close>, true of the booleans too, and the proper integers.\<close>

fun is_int :: "json \<Rightarrow> bool" where
  "is_int (JInt _) = True"
| "is_int (JBool _) = True"
| "is_int _ = False"

fun is_proper_int :: "json \<Rightarrow> bool" where
  "is_proper_int (JInt _) = True"
| "is_proper_int _ = False"

fun is_float :: "json \<Rightarrow> bool" where
  "is_float (JFloat _) = True"
| "is_float _ = False"

text \<open>\<open>isinstance(v, str) and v\<close>: a string that is not empty.\<close>

fun nonempty_str :: "json \<Rightarrow> bool" where
  "nonempty_str (JStr s) = (s \<noteq> [])"
| "nonempty_str _ = False"

fun nonempty_obj :: "json \<Rightarrow> bool" where
  "nonempty_obj (JObj m) = (m \<noteq> [])"
| "nonempty_obj _ = False"

fun list_items :: "json \<Rightarrow> json list" where
  "list_items (JArr xs) = xs"
| "list_items _ = []"

fun str_of :: "json \<Rightarrow> string" where
  "str_of (JStr s) = s"
| "str_of _ = []"

fun int_of :: "json \<Rightarrow> int" where
  "int_of (JInt i) = i"
| "int_of (JBool b) = (if b then 1 else 0)"
| "int_of _ = 0"

text \<open>Lists and dicts cannot be hashed: looking one up in a set raises \<open>TypeError\<close>.\<close>

fun hashable :: "json \<Rightarrow> bool" where
  "hashable (JArr _) = False"
| "hashable (JObj _) = False"
| "hashable _ = True"

definition str_in :: "json \<Rightarrow> string list \<Rightarrow> bool" where
  "str_in v xs \<longleftrightarrow> (case v of JStr s \<Rightarrow> s \<in> set xs | _ \<Rightarrow> False)"

text \<open>
  \<open>ensure_in v xs e\<close>: \<open>if v not in {xs}: raise e\<close> for a set or frozenset of strings; the tuple
  version compares element by element and never raises \<open>TypeError\<close>.
\<close>

definition ensure_in :: "json \<Rightarrow> string list \<Rightarrow> exn \<Rightarrow> unit res" where
  "ensure_in v xs e =
     (if hashable v then ensure (str_in v xs) e else raise TypeError ''unhashable type'')"

section \<open>Python equality\<close>

text \<open>
  \<open>==\<close> identifies \<open>True\<close>, \<open>1\<close> and \<open>1.0\<close>. A float with an integral value below 10^16 prints as
  that integer followed by \<open>.0\<close>; two floats are equal when they print the same text, except for
  the two zeros. An integer is not compared with a float of 10^16 or more.
\<close>

definition float_int :: "string \<Rightarrow> int option" where
  "float_int f =
     (let neg = prefix ''-'' f; body = (if neg then drop 1 f else f);
          digits = takeWhile is_digit body
      in if digits \<noteq> [] \<and> body = digits @ ''.0''
         then Some ((if neg then -1 else 1) * int (foldl (\<lambda>n c. 10 * n + digit_val c) 0 digits))
         else None)"

fun number_of :: "json \<Rightarrow> int option" where
  "number_of (JInt i) = Some i"
| "number_of (JBool b) = Some (if b then 1 else 0)"
| "number_of (JFloat f) = float_int f"
| "number_of _ = None"

fun py_eq :: "json \<Rightarrow> json \<Rightarrow> bool"
  and py_eq_list :: "json list \<Rightarrow> json list \<Rightarrow> bool"
  and py_eq_items :: "(string \<times> json) list \<Rightarrow> (string \<times> json) list \<Rightarrow> bool" where
  "py_eq v w =
     (case (v, w) of
        (JArr xs, JArr ys) \<Rightarrow> py_eq_list xs ys
      | (JObj m, JObj n) \<Rightarrow> py_eq_items m n
      | _ \<Rightarrow> if number_of v \<noteq> None then number_of v = number_of w else v = w)"
| "py_eq_list (x # xs) (y # ys) = (py_eq x y \<and> py_eq_list xs ys)"
| "py_eq_list xs ys = (xs = ys)"
| "py_eq_items ((k, x) # m) ((l, y) # n) = (k = l \<and> py_eq x y \<and> py_eq_items m n)"
| "py_eq_items m n = (m = n)"

declare py_eq.simps [simp del]

section \<open>Facts\<close>

lemma py_eq_simps [simp]:
  "py_eq (JArr xs) (JArr ys) = py_eq_list xs ys"
  "py_eq (JObj m) (JObj n) = py_eq_items m n"
  "py_eq JNull w = (w = JNull)"
  "py_eq (JStr s) w = (w = JStr s)"
  "py_eq (JInt i) w = (number_of w = Some i)"
  "py_eq (JBool b) w = (number_of w = Some (if b then 1 else 0))"
  by (cases w; auto simp: py_eq.simps)+

lemma py_eq_list_refl: "(\<And>x. x \<in> set xs \<Longrightarrow> py_eq x x) \<Longrightarrow> py_eq_list xs xs"
  by (induction xs) auto

lemma py_eq_items_refl: "\<forall>kv\<in>set m. py_eq (snd kv) (snd kv) \<Longrightarrow> py_eq_items m m"
  by (induction m) auto

lemma py_eq_refl [simp]: "py_eq v v"
proof (induction v)
  case (JArr xs)
  then show ?case by (simp add: py_eq_list_refl)
next
  case (JObj m)
  then show ?case by (intro py_eq_simps(2)[THEN iffD2] py_eq_items_refl) auto
qed (auto simp: py_eq.simps)

lemma py_eq_items_get: "py_eq_items m n \<Longrightarrow> rel_option py_eq (map_of m k) (map_of n k)"
  by (induction "m" "n" rule: list_induct2') (auto split: if_splits)

lemma py_eq_get:
  assumes "py_eq v w"
  shows "py_eq (get k v) (get k w)"
proof (cases "\<exists>m n. v = JObj m \<and> w = JObj n")
  case True
  then obtain m n where vw: "v = JObj m" "w = JObj n" by blast
  then have "rel_option py_eq (map_of m k) (map_of n k)" using assms by (simp add: py_eq_items_get)
  then show ?thesis by (cases rule: option.rel_cases) (auto simp: get_def vw)
next
  case False
  then have "dict_items v = []" "dict_items w = []"
    using assms by (cases v; cases w; force simp: py_eq.simps split: if_splits)+
  then show ?thesis by (simp add: get_def)
qed

lemma py_eq_JStr: "py_eq v (JStr t) \<longleftrightarrow> v = JStr t"
  by (cases v) (auto simp: py_eq.simps)

text \<open>Values without numbers are equal in Python only when they are equal.\<close>

fun number_free :: "json \<Rightarrow> bool" where
  "number_free (JArr xs) = list_all number_free xs"
| "number_free (JObj m) = list_all (\<lambda>kv. number_free (snd kv)) m"
| "number_free v = (number_of v = None)"

lemma py_eq_number_free:
  "number_free v \<Longrightarrow> py_eq v w \<longleftrightarrow> v = w"
  and "list_all number_free xs \<Longrightarrow> py_eq_list xs ys \<longleftrightarrow> xs = ys"
  and "list_all (\<lambda>kv. number_free (snd kv)) m \<Longrightarrow> py_eq_items m n \<longleftrightarrow> m = n"
proof (induction v w and xs ys and m n rule: py_eq_py_eq_list_py_eq_items.induct)
  case (1 v w)
  then show ?case by (cases v; cases w) (auto simp: py_eq.simps)
qed auto

lemma map_of_put [simp]: "map_of (put k v m) k' = (if k' = k then Some v else map_of m k')"
  by (induction k v m rule: put.induct) auto

lemma map_of_puts: "map_of (puts kvs m) k =
    (case map_of (rev kvs) k of Some v \<Rightarrow> Some v | None \<Rightarrow> map_of m k)"
  by (induction kvs m rule: puts.induct) (auto simp: map_add_def split: option.splits)

lemma set_keys_put [simp]: "set (map fst (put k v m)) = insert k (set (map fst m))"
  by (induction k v m rule: put.induct) auto

lemma set_keys_puts: "set (map fst (puts kvs m)) = set (map fst kvs) \<union> set (map fst m)"
proof (induction kvs m rule: puts.induct)
  case (2 k v kvs m)
  then show ?case by (simp only: puts.simps set_keys_put list.map list.set fst_conv) blast
qed simp

lemma put_not_Nil [simp]: "put k v m \<noteq> []"
  by (cases "(k, v, m)" rule: put.cases) auto

lemma puts_Nil_iff [simp]: "puts kvs m = [] \<longleftrightarrow> kvs = [] \<and> m = []"
  by (induction kvs m rule: puts.induct) auto

lemma nonempty_obj_mk_obj [simp, py_eval]: "nonempty_obj (mk_obj kvs) \<longleftrightarrow> kvs \<noteq> []"
  by (simp add: mk_obj_def)

lemma dict_items_mk_obj [simp, py_eval]: "dict_items (mk_obj kvs) = puts kvs []"
  by (simp add: mk_obj_def)

lemma is_obj_mk_obj [simp, py_eval]: "is_obj (mk_obj kvs)"
  by (simp add: mk_obj_def)

lemma is_obj_iff: "is_obj v \<longleftrightarrow> (\<exists>m. v = JObj m)"
  by (cases v) auto

lemma is_arr_iff: "is_arr v \<longleftrightarrow> (\<exists>xs. v = JArr xs)"
  by (cases v) auto

lemma is_str_iff: "is_str v \<longleftrightarrow> (\<exists>s. v = JStr s)"
  by (cases v) auto

lemma is_bool_iff: "is_bool v \<longleftrightarrow> (\<exists>b. v = JBool b)"
  by (cases v) auto

lemma nonempty_str_iff: "nonempty_str v \<longleftrightarrow> (\<exists>s. v = JStr s \<and> s \<noteq> [])"
  by (cases v) auto

lemma is_proper_int_iff: "is_proper_int v \<longleftrightarrow> (\<exists>i. v = JInt i)"
  by (cases v) auto

lemma is_proper_int_alt: "is_int v \<and> \<not> is_bool v \<longleftrightarrow> is_proper_int v"
  by (cases v) auto

lemma str_in_JStr [simp, py_eval]: "str_in (JStr s) xs \<longleftrightarrow> s \<in> set xs"
  by (simp add: str_in_def)

lemma str_in_iff: "str_in v xs \<longleftrightarrow> (\<exists>s. v = JStr s \<and> s \<in> set xs)"
  by (cases v) (auto simp: str_in_def)

lemma ensure_in_Inr_iff [simp, res_simps]: "ensure_in v xs e = Inr u \<longleftrightarrow> str_in v xs"
  by (cases v) (auto simp: ensure_in_def str_in_def)

lemma ensure_in_JStr [simp, py_eval]: "ensure_in (JStr s) xs e = ensure (s \<in> set xs) e"
  by (simp add: ensure_in_def)

lemma get_mk_obj [simp, py_eval]:
  "get k (mk_obj kvs) = (case map_of (rev kvs) k of Some v \<Rightarrow> v | None \<Rightarrow> JNull)"
  by (simp add: get_def map_of_puts split: option.splits)

lemma get_JObj: "get k (JObj m) = (case map_of m k of Some v \<Rightarrow> v | None \<Rightarrow> JNull)"
  by (simp add: get_def)

lemma has_key_mk_obj [simp, py_eval]: "has_key k (mk_obj kvs) \<longleftrightarrow> k \<in> set (map fst kvs)"
  unfolding has_key_def dict_keys_def dict_items_mk_obj set_keys_puts by simp

lemma set_dict_keys_mk_obj [simp, py_eval]: "set (dict_keys (mk_obj kvs)) = set (map fst kvs)"
  unfolding dict_keys_def dict_items_mk_obj set_keys_puts by simp

lemma get_update_obj [simp]:
  "is_obj v \<Longrightarrow>
   get k (update_obj v kvs) = (case map_of (rev kvs) k of Some x \<Rightarrow> x | None \<Rightarrow> get k v)"
  by (cases v) (auto simp: get_def map_of_puts split: option.splits)

lemma is_obj_update_obj [simp]: "is_obj (update_obj v kvs) = is_obj v"
  by (cases v) auto

lemma set_dict_keys_update_obj [simp]:
  "is_obj v \<Longrightarrow> set (dict_keys (update_obj v kvs)) = set (map fst kvs) \<union> set (dict_keys v)"
  by (cases v) (simp_all add: dict_keys_def set_keys_puts del: set_map)

lemma has_key_map_of: "has_key k v \<longleftrightarrow> map_of (dict_items v) k \<noteq> None"
  by (simp add: has_key_def dict_keys_def map_of_eq_None_iff)

lemma not_has_key_get [simp]: "\<not> has_key k v \<Longrightarrow> get k v = JNull"
  by (simp add: has_key_map_of get_def)

lemma get_not_obj [simp]: "\<not> is_obj v \<Longrightarrow> get k v = JNull"
  by (cases v) (auto simp: get_def)

lemma subscript_Inr_iff [res_simps]:
  "subscript k v = Inr x \<longleftrightarrow> is_obj v \<and> has_key k v \<and> x = get k v"
  by (cases v) (auto simp: subscript_def has_key_map_of get_def split: option.splits)

lemma map_of_dict_items: "has_key k v \<Longrightarrow> (k, get k v) \<in> set (dict_items v)"
  by (auto simp: has_key_map_of get_def split: option.splits intro: map_of_SomeD)

section \<open>The normal form of values\<close>

text \<open>
  \<open>wf_json\<close>: the keys of every dict are strictly increasing. This is the representation
  invariant of the model: \<open>put\<close> keeps it and \<open>json_loads\<close> establishes it.
\<close>

definition sorted_keys :: "(string \<times> 'a) list \<Rightarrow> bool" where
  "sorted_keys m \<longleftrightarrow> sorted_wrt (<) (map fst m)"

fun wf_json :: "json \<Rightarrow> bool" where
  "wf_json (JArr xs) = list_all wf_json xs"
| "wf_json (JObj m) = (sorted_keys m \<and> list_all (\<lambda>kv. wf_json (snd kv)) m)"
| "wf_json _ = True"

lemma sorted_keys_put: "sorted_keys m \<Longrightarrow> sorted_keys (put k v m)"
proof (induction k v m rule: put.induct)
  case (2 k v k' v' r)
  from "2.prems" have r: "sorted_keys r" and gt: "\<forall>x\<in>set (map fst r). k' < x"
    by (auto simp: sorted_keys_def)
  consider "k = k'" | "k < k'" | "k' < k" by (rule linorder_cases)
  then show ?case
  proof cases
    case 1 with "2.prems" show ?thesis by (simp add: sorted_keys_def)
  next
    case 2
    with gt have "\<forall>x\<in>set (map fst r). k < x" by (auto intro: less_trans)
    with 2 r gt show ?thesis by (auto simp: sorted_keys_def)
  next
    case 3
    with "2.IH" r have "sorted_keys (put k v r)" by auto
    moreover have "\<forall>x\<in>set (map fst (put k v r)). k' < x"
      unfolding set_keys_put using 3 gt by blast
    ultimately show ?thesis using 3 by (auto simp: sorted_keys_def)
  qed
qed (simp add: sorted_keys_def)

lemma set_put_subset: "set (put k v m) \<subseteq> insert (k, v) (set m)"
  by (induction k v m rule: put.induct) auto

lemma wf_json_puts:
  "\<lbrakk>wf_json (JObj m); \<forall>(k, v)\<in>set kvs. wf_json v\<rbrakk> \<Longrightarrow> wf_json (JObj (puts kvs m))"
proof (induction kvs m rule: puts.induct)
  case (2 k v kvs m)
  have "wf_json (JObj (put k v m))"
    using "2.prems" set_put_subset[of k v m] by (auto simp: sorted_keys_put list_all_iff)
  with 2 show ?case by auto
qed simp

lemma wf_json_mk_obj [intro, wf_rules]: "\<forall>(k, v)\<in>set kvs. wf_json v \<Longrightarrow> wf_json (mk_obj kvs)"
  using wf_json_puts[of "[]" kvs] by (simp add: mk_obj_def sorted_keys_def)

lemma wf_json_update_obj [intro, wf_rules]:
  "\<lbrakk>wf_json v; \<forall>(k, x)\<in>set kvs. wf_json x\<rbrakk> \<Longrightarrow> wf_json (update_obj v kvs)"
  by (cases v) (auto intro: wf_json_puts simp del: wf_json.simps)

lemma wf_json_get [intro, wf_rules]: "wf_json v \<Longrightarrow> wf_json (get k v)"
  by (cases v) (fastforce simp: get_def list_all_iff split: option.splits dest: map_of_SomeD)+

lemma wf_json_list_items [wf_rules]: "\<lbrakk>wf_json v; x \<in> set (list_items v)\<rbrakk> \<Longrightarrow> wf_json x"
  by (cases v) (auto simp: list_all_iff)

lemma wf_json_JArr [intro, wf_rules]: "(\<And>x. x \<in> set xs \<Longrightarrow> wf_json x) \<Longrightarrow> wf_json (JArr xs)"
  by (simp add: list_all_iff)

end
