(* ===== verification/Sha256.thy ===== *)
theory Sha256
  imports Prelude "HOL-Library.Word"
begin

text \<open>
  The SHA-256 function of FIPS 180-4, which the program reaches as
  \<open>hashlib.sha256(payload).hexdigest()\<close>: 32-bit words with wrap-around addition, the padding of
  the message to 512-bit blocks, the 64-round compression, and the digest as 64 lower-case
  hexadecimal digits. The rest of the development uses it as an opaque function of which only
  the shape of the result is known: no proof assumes that it has no collisions.
\<close>

unbundle bit_operations_syntax

type_synonym u32 = "32 word"

definition rotr :: "nat \<Rightarrow> u32 \<Rightarrow> u32" where
  "rotr n x = word_rotr n x"

definition sha_ch :: "u32 \<Rightarrow> u32 \<Rightarrow> u32 \<Rightarrow> u32" where
  "sha_ch x y z = (x AND y) XOR (NOT x AND z)"

definition sha_maj :: "u32 \<Rightarrow> u32 \<Rightarrow> u32 \<Rightarrow> u32" where
  "sha_maj x y z = (x AND y) XOR (x AND z) XOR (y AND z)"

definition big_sigma0 :: "u32 \<Rightarrow> u32" where
  "big_sigma0 x = rotr 2 x XOR rotr 13 x XOR rotr 22 x"

definition big_sigma1 :: "u32 \<Rightarrow> u32" where
  "big_sigma1 x = rotr 6 x XOR rotr 11 x XOR rotr 25 x"

definition small_sigma0 :: "u32 \<Rightarrow> u32" where
  "small_sigma0 x = rotr 7 x XOR rotr 18 x XOR drop_bit 3 x"

definition small_sigma1 :: "u32 \<Rightarrow> u32" where
  "small_sigma1 x = rotr 17 x XOR rotr 19 x XOR drop_bit 10 x"

text \<open>The 64 round constants, two to a 64-bit word.\<close>

definition sha_k :: "u32 list" where
  "sha_k = concat (map (\<lambda>w :: 64 word. [ucast (drop_bit 32 w), ucast w])
    [0x428a2f9871374491, 0xb5c0fbcfe9b5dba5, 0x3956c25b59f111f1, 0x923f82a4ab1c5ed5,
     0xd807aa9812835b01, 0x243185be550c7dc3, 0x72be5d7480deb1fe, 0x9bdc06a7c19bf174,
     0xe49b69c1efbe4786, 0x0fc19dc6240ca1cc, 0x2de92c6f4a7484aa, 0x5cb0a9dc76f988da,
     0x983e5152a831c66d, 0xb00327c8bf597fc7, 0xc6e00bf3d5a79147, 0x06ca635114292967,
     0x27b70a852e1b2138, 0x4d2c6dfc53380d13, 0x650a7354766a0abb, 0x81c2c92e92722c85,
     0xa2bfe8a1a81a664b, 0xc24b8b70c76c51a3, 0xd192e819d6990624, 0xf40e3585106aa070,
     0x19a4c1161e376c08, 0x2748774c34b0bcb5, 0x391c0cb34ed8aa4a, 0x5b9cca4f682e6ff3,
     0x748f82ee78a5636f, 0x84c878148cc70208, 0x90befffaa4506ceb, 0xbef9a3f7c67178f2])"

datatype sha_state = ShaState u32 u32 u32 u32 u32 u32 u32 u32

definition sha_init :: sha_state where
  "sha_init = ShaState 0x6a09e667 0xbb67ae85 0x3c6ef372 0xa54ff53a
                       0x510e527f 0x9b05688c 0x1f83d9ab 0x5be0cd19"

text \<open>
  The message schedule is kept as a sliding window of the last 16 words: the head is the word
  of this round, and the word 16 rounds later is appended.
\<close>

definition sha_next_word :: "u32 list \<Rightarrow> u32" where
  "sha_next_word w = small_sigma1 (w ! 14) + w ! 9 + small_sigma0 (w ! 1) + w ! 0"

fun sha_rounds :: "u32 list \<Rightarrow> u32 list \<Rightarrow> sha_state \<Rightarrow> sha_state" where
  "sha_rounds [] w st = st"
| "sha_rounds (k # ks) w (ShaState a b c d e f g h) =
     (let t1 = h + big_sigma1 e + sha_ch e f g + k + w ! 0;
          t2 = big_sigma0 a + sha_maj a b c
      in sha_rounds ks (tl w @ [sha_next_word w]) (ShaState (t1 + t2) a b c (d + t1) e f g))"

fun sha_add :: "sha_state \<Rightarrow> sha_state \<Rightarrow> sha_state" where
  "sha_add (ShaState a b c d e f g h) (ShaState a' b' c' d' e' f' g' h') =
     ShaState (a + a') (b + b') (c + c') (d + d') (e + e') (f + f') (g + g') (h + h')"

definition sha_compress :: "sha_state \<Rightarrow> u32 list \<Rightarrow> sha_state" where
  "sha_compress st w = sha_add st (sha_rounds sha_k w st)"

text \<open>Bytes to big-endian words, the padding, and the blocks of 16 words.\<close>

fun bytes_to_words :: "u32 list \<Rightarrow> u32 list" where
  "bytes_to_words (a # b # c # d # r) =
     (push_bit 24 a OR push_bit 16 b OR push_bit 8 c OR d) # bytes_to_words r"
| "bytes_to_words _ = []"

definition be64 :: "64 word \<Rightarrow> u32 list" where
  "be64 n = map (\<lambda>i. ucast (drop_bit (8 * i) n AND 255)) [7, 6, 5, 4, 3, 2, 1, 0]"

definition sha_pad :: "u32 list \<Rightarrow> u32 list" where
  "sha_pad bs =
     bs @ [128] @ replicate ((119 - length bs mod 64) mod 64) 0 @ be64 (8 * of_nat (length bs))"

function sha_blocks :: "u32 list \<Rightarrow> sha_state \<Rightarrow> sha_state" where
  "sha_blocks ws st =
     (if ws = [] then st else sha_blocks (drop 16 ws) (sha_compress st (take 16 ws)))"
  by pat_completeness auto
termination by (relation "measure (\<lambda>(ws, st). length ws)") auto

declare sha_blocks.simps [simp del]

definition hex_char :: "nat \<Rightarrow> char" where
  "hex_char d = (if d < 10 then char_of (48 + d) else char_of (87 + d))"

definition hex_word :: "u32 \<Rightarrow> string" where
  "hex_word w = map (\<lambda>i. hex_char (unat (drop_bit (4 * i) w AND 15))) [7, 6, 5, 4, 3, 2, 1, 0]"

fun hex_state :: "sha_state \<Rightarrow> string" where
  "hex_state (ShaState a b c d e f g h) =
     hex_word a @ hex_word b @ hex_word c @ hex_word d @
     hex_word e @ hex_word f @ hex_word g @ hex_word h"

definition sha256_hex :: "string \<Rightarrow> string" where
  "sha256_hex payload =
     hex_state (sha_blocks (bytes_to_words (sha_pad (map of_char payload))) sha_init)"

section \<open>The shape of a digest\<close>

lemma hex_char_hex: "d < 16 \<Longrightarrow> is_lower_hex (hex_char d)"
  by (auto simp: hex_char_def is_lower_hex_def is_digit_def)

lemma unat_nibble: "unat (v AND (15 :: u32)) < 16"
proof -
  have "unat (v AND 15) \<le> unat (15 :: u32)"
    by (rule word_and_le1 [THEN word_le_nat_alt [THEN iffD1]])
  then show ?thesis by simp
qed

lemma hex_word_shape: "length (hex_word w) = 8 \<and> list_all is_lower_hex (hex_word w)"
  by (simp add: hex_word_def hex_char_hex unat_nibble)

lemma hex_state_shape: "length (hex_state st) = 64 \<and> list_all is_lower_hex (hex_state st)"
  by (cases st) (simp add: hex_word_shape)

lemma length_sha256_hex [simp]: "length (sha256_hex p) = 64"
  by (simp add: sha256_hex_def hex_state_shape)

lemma sha256_hex_lower_hex [simp]: "list_all is_lower_hex (sha256_hex p)"
  by (simp add: sha256_hex_def hex_state_shape)

text \<open>
  The padded message fills whole blocks: 64 bytes each, so every call of the compression sees
  its 16 words.
\<close>

lemma length_sha_pad: "length (sha_pad bs) mod 64 = 0"
proof -
  define r where "r = length bs mod 64"
  have r: "r < 64" by (simp add: r_def)
  have "length (sha_pad bs) = length bs + (9 + (119 - r) mod 64)"
    unfolding sha_pad_def be64_def r_def
    by (simp only: length_append length_replicate length_map list.size)
  then have "length (sha_pad bs) mod 64 = (r + (9 + (119 - r) mod 64)) mod 64"
    by (simp only: r_def mod_add_left_eq)
  also have "\<dots> = 0"
  proof (cases "r \<le> 55")
    case True
    then have e: "119 - r = (55 - r) + 64" by linarith
    have "(119 - r) mod 64 = 55 - r"
      unfolding e mod_add_self2 by (rule mod_less) linarith
    then have "r + (9 + (119 - r) mod 64) = 64" using True by linarith
    then show ?thesis by (simp only: mod_self)
  next
    case False
    then have "(119 - r) mod 64 = 119 - r" by (intro mod_less) linarith
    then have "r + (9 + (119 - r) mod 64) = 128" using False r by linarith
    then have "(r + (9 + (119 - r) mod 64)) mod 64 = 128 mod 64" by (simp only:)
    then show ?thesis by simp
  qed
  finally show ?thesis .
qed

end
