(* ===== verification/Storage.thy ===== *)
theory Storage
  imports PyValue Sha256
begin

text \<open>
  The filesystem below the store and the primitives of \<open>storage_primitives.py\<close>, translated call
  by call. The state is the files (path to bytes) below the memory root, in path order, and an
  oracle that decides the fate of each operating-system call to come: it succeeds, it raises
  \<open>OSError\<close>, \<open>os.write\<close> accepts only some bytes, or another process creates the file just before
  an exclusive open. When the oracle is exhausted every call succeeds. Directories are not kept:
  \<open>mkdir\<close> and the flush of a directory are calls that may fail and change no file. \<open>diverted\<close> is
  what \<open>custody_pointer_present\<close> of \<open>store.py\<close> answers: the custody pointer names another root.
  \<open>is_nfc\<close> is the test of the interpreter's Unicode tables whether a text is in normal form C.
\<close>

named_theorems io_simps \<open>equations of the state-passing combinators\<close>
named_theorems keeps_rules \<open>what the steps leave unchanged\<close>

section \<open>The state and its calls\<close>

datatype fate = Succeeds | Fails | Accepts nat | Intruder string

record os =
  files :: "(string \<times> string) list"
  fates :: "fate list"
  posix :: bool
  uuids :: "nat \<Rightarrow> 128 word"
  drawn :: nat
  diverted :: bool
  is_nfc :: "string \<Rightarrow> bool"

type_synonym 'a io = "os \<Rightarrow> 'a res \<times> os"

definition bytes_at :: "string \<Rightarrow> os \<Rightarrow> string option" where
  "bytes_at p s = map_of (files s) p"

definition store_file :: "string \<Rightarrow> string \<Rightarrow> os \<Rightarrow> os" where
  "store_file p bytes s = s\<lparr>files := put p bytes (files s)\<rparr>"

definition remove_file :: "string \<Rightarrow> os \<Rightarrow> os" where
  "remove_file p s = s\<lparr>files := filter (\<lambda>kv. fst kv \<noteq> p) (files s)\<rparr>"

definition pop :: "os \<Rightarrow> fate \<times> os" where
  "pop s = (case fates s of [] \<Rightarrow> (Succeeds, s) | f # fs \<Rightarrow> (f, s\<lparr>fates := fs\<rparr>))"

text \<open>\<open>uuid.uuid4().hex\<close>: 32 hexadecimal digits of the next random number.\<close>

definition hex32 :: "128 word \<Rightarrow> string" where
  "hex32 w = map (\<lambda>i. hex_char (unat (drop_bit (4 * (31 - i)) w AND 15))) [0..<32]"

definition next_uuid :: "os \<Rightarrow> string" where
  "next_uuid s = hex32 (uuids s (drawn s))"

definition advance :: "os \<Rightarrow> os" where
  "advance s = s\<lparr>drawn := Suc (drawn s)\<rparr>"

section \<open>Sequencing\<close>

definition ret :: "'a \<Rightarrow> 'a io" where
  "ret a s = (Inr a, s)"

definition lift :: "'a res \<Rightarrow> 'a io" where
  "lift r s = (r, s)"

text \<open>\<open>asks f\<close>: a computation that only reads the state.\<close>

definition asks :: "(os \<Rightarrow> 'a res) \<Rightarrow> 'a io" where
  "asks f s = (f s, s)"

definition bind_io :: "'a io \<Rightarrow> ('a \<Rightarrow> 'b io) \<Rightarrow> 'b io" where
  "bind_io m k s = (case m s of (Inl e, t) \<Rightarrow> (Inl e, t) | (Inr a, t) \<Rightarrow> k a t)"

text \<open>\<open>catch_io m h\<close>: \<open>try: m except ...: h\<close>; \<open>h\<close> returns \<open>None\<close> where the exception is not
  one of those the clause names.\<close>

definition catch_io :: "'a io \<Rightarrow> (exn \<Rightarrow> 'a io option) \<Rightarrow> 'a io" where
  "catch_io m h s =
     (case m s of
        (Inl e, t) \<Rightarrow> (case h e of None \<Rightarrow> (Inl e, t) | Some k \<Rightarrow> k t)
      | (Inr a, t) \<Rightarrow> (Inr a, t))"

text \<open>\<open>finally_io m f\<close>: the cleanup \<open>f\<close> is told the result of \<open>m\<close> and gives the final one.\<close>

definition finally_io :: "'a io \<Rightarrow> ('a res \<Rightarrow> 'a io) \<Rightarrow> 'a io" where
  "finally_io m f s = (case m s of (r, t) \<Rightarrow> f r t)"

fun each_io :: "('a \<Rightarrow> unit io) \<Rightarrow> 'a list \<Rightarrow> unit io" where
  "each_io f [] = ret ()"
| "each_io f (x # xs) = bind_io (f x) (\<lambda>_. each_io f xs)"

text \<open>A call that may fail with \<open>e\<close> and otherwise does \<open>f\<close>.\<close>

definition call :: "exn \<Rightarrow> (os \<Rightarrow> 'a \<times> os) \<Rightarrow> 'a io" where
  "call e f s = (case pop s of
     (Fails, t) \<Rightarrow> (Inl e, t)
   | (_, t) \<Rightarrow> (case f t of (a, u) \<Rightarrow> (Inr a, u)))"

definition effect :: "exn \<Rightarrow> (os \<Rightarrow> os) \<Rightarrow> unit io" where
  "effect e f = call e (\<lambda>s. ((), f s))"

definition draw_uuid :: "string io" where
  "draw_uuid s = (Inr (next_uuid s), advance s)"

section \<open>Storage errors\<close>

text \<open>
  A \<open>StorageOperationError\<close> is an \<open>OSError\<close> with its stable code; its two flags are the words
  the detail lists. An \<open>OSError\<close> the code does not wrap has no code, and the program reports it
  as \<open>storage_io_failed\<close>.
\<close>

abbreviation storage_error :: "string \<Rightarrow> exn" where
  "storage_error code \<equiv> Exn OSError code None"

definition raw_os_error :: exn where
  "raw_os_error = Exn OSError ''storage_io_failed'' None"

fun flag :: "string \<Rightarrow> exn \<Rightarrow> exn" where
  "flag word (Exn cls code d) =
     Exn cls code (Some (case d of None \<Rightarrow> word | Some t \<Rightarrow> t @ '','' @ word))"

definition flagged :: "string \<Rightarrow> exn \<Rightarrow> bool" where
  "flagged word e = (case exn_detail e of
     None \<Rightarrow> False | Some t \<Rightarrow> word \<in> set (split_on (CHR '','') t))"

text \<open>\<open>_close\<close>: a failure to close is an error of its own, or a flag of the earlier error.\<close>

definition close_after :: "string \<Rightarrow> 'a res \<Rightarrow> 'a io" where
  "close_after code r s = (case pop s of
     (Fails, t) \<Rightarrow> (case r of
        Inr _ \<Rightarrow> (Inl (storage_error code), t)
      | Inl e \<Rightarrow> (Inl (flag ''close_incomplete'' e), t))
   | (_, t) \<Rightarrow> (r, t))"

section \<open>Flushing\<close>

definition fsync_directory :: "string \<Rightarrow> unit io" where
  "fsync_directory path =
     bind_io (asks (\<lambda>s. Inr (posix s)))
       (\<lambda>flushes. if \<not> flushes then ret () else
        bind_io (effect (storage_error ''directory_open_failed'') id)
          (\<lambda>_. finally_io (effect (storage_error ''directory_fsync_failed'') id)
                 (close_after ''directory_close_failed'')))"

definition fsync_file :: "string \<Rightarrow> unit io" where
  "fsync_file path =
     bind_io (asks (\<lambda>s. if bytes_at path s = None then Inl (storage_error ''file_open_failed'') else Inr ()))
       (\<lambda>_. bind_io (effect (storage_error ''file_open_failed'') id)
         (\<lambda>_. finally_io (effect (storage_error ''file_fsync_failed'') id)
                (close_after ''file_close_failed'')))"

section \<open>Writing bytes\<close>

text \<open>The loop \<open>while view:\<close> around \<open>os.write\<close>, which may accept fewer bytes than offered.\<close>

definition accepted :: "fate \<Rightarrow> string \<Rightarrow> nat" where
  "accepted f view = (case f of Accepts n \<Rightarrow> min n (length view) | _ \<Rightarrow> length view)"

definition append_file :: "string \<Rightarrow> string \<Rightarrow> os \<Rightarrow> os" where
  "append_file p bytes s = store_file p (case bytes_at p s of None \<Rightarrow> bytes | Some old \<Rightarrow> old @ bytes) s"

function write_loop :: "string \<Rightarrow> exn \<Rightarrow> string \<Rightarrow> unit io" where
  "write_loop p e view s =
     (if view = [] then (Inr (), s)
      else case pop s of (f, t) \<Rightarrow>
        if f = Fails \<or> accepted f view = 0 then (Inl e, t)
        else write_loop p e (drop (accepted f view) view)
               (append_file p (take (accepted f view) view) t))"
  by pat_completeness auto
termination by (relation "measure (\<lambda>(p, e, view, s). length view)") auto

declare write_loop.simps [simp del]

lemma write_loop_Nil [simp]: "write_loop p e [] s = (Inr (), s)"
  by (simp add: write_loop.simps)

section \<open>Atomic replacement\<close>

text \<open>\<open>path.name\<close>, and the text before it; \<open>with_name\<close> changes the last component.\<close>

definition base_name :: "string \<Rightarrow> string" where
  "base_name p = rev (takeWhile (\<lambda>c. c \<noteq> CHR ''/'') (rev p))"

definition dir_prefix :: "string \<Rightarrow> string" where
  "dir_prefix p = rev (dropWhile (\<lambda>c. c \<noteq> CHR ''/'') (rev p))"

definition parent_dir :: "string \<Rightarrow> string" where
  "parent_dir p = butlast (dir_prefix p)"

definition with_name :: "string \<Rightarrow> string \<Rightarrow> string" where
  "with_name p name = dir_prefix p @ name"

definition temporary_name :: "string \<Rightarrow> string \<Rightarrow> string" where
  "temporary_name target unique =
     with_name target (''.'' @ base_name target @ ''.'' @ unique @ ''.tmp'')"

text \<open>\<open>os.open(..., O_CREAT | O_EXCL)\<close>: \<open>True\<close> when the file was created, \<open>False\<close> for
  \<open>FileExistsError\<close>.\<close>

definition open_exclusive :: "string \<Rightarrow> exn \<Rightarrow> bool io" where
  "open_exclusive p e s = (case pop s of
     (Fails, t) \<Rightarrow> (Inl e, t)
   | (f, t) \<Rightarrow>
       (let t' = (case (f, bytes_at p t) of (Intruder bytes, None) \<Rightarrow> store_file p bytes t | _ \<Rightarrow> t)
        in if bytes_at p t' = None then (Inr True, store_file p [] t') else (Inr False, t')))"

text \<open>Writing the payload to the temporary file, renaming it over the target, flushing.\<close>

definition write_temporary :: "string \<Rightarrow> string \<Rightarrow> unit io" where
  "write_temporary temporary payload =
     finally_io
       (bind_io (write_loop temporary (storage_error ''temporary_write_failed'') payload)
          (\<lambda>_. effect (storage_error ''temporary_fsync_failed'') id))
       (close_after ''temporary_close_failed'')"

definition replace_file :: "string \<Rightarrow> string \<Rightarrow> os \<Rightarrow> os" where
  "replace_file source target s = (case bytes_at source s of
     None \<Rightarrow> s | Some bytes \<Rightarrow> store_file target bytes (remove_file source s))"

definition atomic_body :: "string \<Rightarrow> string \<Rightarrow> string \<Rightarrow> unit io" where
  "atomic_body target temporary payload =
     bind_io (open_exclusive temporary (storage_error ''temporary_open_failed''))
       (\<lambda>created. if \<not> created then lift (Inl (storage_error ''temporary_open_failed'')) else
        bind_io (write_temporary temporary payload)
          (\<lambda>_. bind_io (effect (storage_error ''replace_failed'') (replace_file temporary target))
            (\<lambda>_. fsync_directory (parent_dir target))))"

text \<open>The \<open>finally\<close> clause: the temporary file is removed when it is still there.\<close>

definition atomic_cleanup :: "string \<Rightarrow> 'a res \<Rightarrow> 'a io" where
  "atomic_cleanup temporary r s = (case pop s of
     (Fails, t) \<Rightarrow> (case r of
        Inr _ \<Rightarrow> (Inl (storage_error ''cleanup_stat_failed''), t)
      | Inl e \<Rightarrow> (Inl (flag ''cleanup_incomplete'' e), t))
   | (_, t) \<Rightarrow>
       if bytes_at temporary t = None then (r, t)
       else (case pop t of
          (Fails, u) \<Rightarrow> (case r of
             Inr _ \<Rightarrow> (Inl (storage_error ''cleanup_unlink_failed''), u)
           | Inl e \<Rightarrow> (Inl (flag ''cleanup_incomplete'' e), u))
        | (_, u) \<Rightarrow> (r, remove_file temporary u)))"

definition atomic_write :: "string \<Rightarrow> string \<Rightarrow> unit io" where
  "atomic_write target payload =
     bind_io (effect (storage_error ''parent_mkdir_failed'') id)
       (\<lambda>_. bind_io draw_uuid
         (\<lambda>unique. let temporary = temporary_name target unique
            in finally_io (atomic_body target temporary payload) (atomic_cleanup temporary)))"

section \<open>Immutable objects\<close>

text \<open>
  \<open>_quarantine_conflict\<close> of \<open>store.py\<close>: a file with other bytes at the path of an object is
  moved to the quarantine directory, within 128 files and 64 MiB. Its \<open>mkdir\<close> and \<open>os.replace\<close>
  are not wrapped.
\<close>

definition under :: "string \<Rightarrow> string \<Rightarrow> bool" where
  "under dir p \<longleftrightarrow> prefix (dir @ ''/'') p"

definition quarantined :: "os \<Rightarrow> (string \<times> string) list" where
  "quarantined s = filter (\<lambda>kv. under ''quarantine'' (fst kv)) (files s)"

definition quarantine_full :: "string \<Rightarrow> os \<Rightarrow> bool" where
  "quarantine_full target s \<longleftrightarrow>
     length (quarantined s) \<ge> 128 \<or>
     sum_list (map (\<lambda>kv. length (snd kv)) (quarantined s)) +
       (case bytes_at target s of None \<Rightarrow> 0 | Some bytes \<Rightarrow> length bytes) > 64 * 1024 * 1024"

definition quarantine_conflict :: "string \<Rightarrow> unit io" where
  "quarantine_conflict target =
     bind_io (effect raw_os_error id)
       (\<lambda>_. bind_io (asks (\<lambda>s. if quarantine_full target s
                               then raise StoreError ''quarantine_quota_exceeded'' else Inr ()))
         (\<lambda>_. bind_io draw_uuid
           (\<lambda>unique. bind_io (effect raw_os_error
                (replace_file target (''quarantine/'' @ unique @ ''-'' @ base_name target)))
              (\<lambda>_. fsync_directory ''quarantine''))))"

text \<open>Comparing what is there: \<open>True\<close> when the object is already stored; a conflicting file is
  quarantined first, and then the object is still to be written.\<close>

definition settle_existing :: "string \<Rightarrow> string \<Rightarrow> bool io" where
  "settle_existing target payload =
     bind_io (call (storage_error ''immutable_read_failed'') (\<lambda>s. (bytes_at target s, s)))
       (\<lambda>existing. if existing = Some payload then ret True
         else bind_io (quarantine_conflict target) (\<lambda>_. ret False))"

definition immutable_prepare :: "string \<Rightarrow> string \<Rightarrow> bool io" where
  "immutable_prepare target payload =
     bind_io (effect (storage_error ''immutable_parent_or_stat_failed'') id)
       (\<lambda>_. bind_io (call (storage_error ''immutable_parent_or_stat_failed'')
                        (\<lambda>s. (bytes_at target s \<noteq> None, s)))
         (\<lambda>exists. if exists then settle_existing target payload else ret False))"

definition immutable_fill :: "string \<Rightarrow> string \<Rightarrow> unit io" where
  "immutable_fill target payload =
     bind_io
       (finally_io
         (bind_io (write_loop target (storage_error ''immutable_write_failed'') payload)
            (\<lambda>_. effect (storage_error ''immutable_fsync_failed'') id))
         (close_after ''immutable_close_failed''))
       (\<lambda>_. fsync_directory (parent_dir target))"

section \<open>State facts\<close>

lemma bytes_at_simps [simp]:
  "bytes_at p (store_file q b s) = (if p = q then Some b else bytes_at p s)"
  "bytes_at p (remove_file q s) = (if p = q then None else bytes_at p s)"
  "bytes_at p (snd (pop s)) = bytes_at p s"
  "bytes_at p (advance s) = bytes_at p s"
  "bytes_at p (append_file q b s) =
     (if p = q then Some (case bytes_at q s of None \<Rightarrow> b | Some old \<Rightarrow> old @ b) else bytes_at p s)"
      apply (simp_all add: bytes_at_def store_file_def remove_file_def pop_def advance_def
        append_file_def map_of_filter_key split: list.splits)
  done

text \<open>What no step changes: the platform, the random numbers and the custody pointer; the oracle is only consumed.\<close>

definition onward :: "os \<Rightarrow> os \<Rightarrow> bool" where
  "onward s t \<longleftrightarrow> posix t = posix s \<and> uuids t = uuids s \<and> diverted t = diverted s \<and> is_nfc t = is_nfc s \<and> drawn s \<le> drawn t \<and>
     length (fates t) \<le> length (fates s)"

definition same_on :: "(string \<Rightarrow> bool) \<Rightarrow> os \<Rightarrow> os \<Rightarrow> bool" where
  "same_on P s t \<longleftrightarrow> (\<forall>p. P p \<longrightarrow> bytes_at p t = bytes_at p s)"

lemma same_on_step: "(\<And>p. P p \<Longrightarrow> bytes_at p t = bytes_at p s) \<Longrightarrow> same_on P s t"
  by (simp add: same_on_def)

lemma onward_steps [simp]:
  "onward s s" "onward s (snd (pop s))" "onward s (advance s)"
  "onward s (store_file p b s)" "onward s (remove_file p s)" "onward s (append_file p b s)"
  by (simp_all add: onward_def pop_def advance_def store_file_def remove_file_def append_file_def
      split: list.splits)

section \<open>Relations that every step respects\<close>

text \<open>
  A relation between the states before and after that is a preorder, and that the consumption of
  the oracle and of the random numbers respects: what must be shown of an operation is then only
  what its file changes do.
\<close>

locale step_relation =
  fixes R :: "os \<Rightarrow> os \<Rightarrow> bool"
  assumes stays: "R s s"
    and chains: "R s t \<Longrightarrow> R t u \<Longrightarrow> R s u"
    and popped: "R s (snd (pop s))"
    and named: "R s (advance s)"
begin

definition keeps :: "'a io \<Rightarrow> bool" where
  "keeps m \<longleftrightarrow> (\<forall>s. R s (snd (m s)))"

lemma keepsD: "keeps m \<Longrightarrow> m s = (r, t) \<Longrightarrow> R s t"
  by (metis keeps_def snd_conv)

lemma keepsI: "(\<And>s r t. m s = (r, t) \<Longrightarrow> R s t) \<Longrightarrow> keeps m"
  by (metis keeps_def prod.collapse)

lemma popped_to: "pop s = (f, t) \<Longrightarrow> R s t"
  using popped[of s] by simp

lemma keeps_readers [keeps_rules]:
  "keeps (ret a)" "keeps (lift r)" "keeps (asks f)" "keeps draw_uuid"
  by (simp_all add: keeps_def ret_def lift_def asks_def draw_uuid_def stays named)

lemma keeps_bind [keeps_rules]: "keeps m \<Longrightarrow> (\<And>a. keeps (k a)) \<Longrightarrow> keeps (bind_io m k)"
  by (rule keepsI) (auto simp: bind_io_def split: prod.splits sum.splits dest!: keepsD intro: chains)

lemma keeps_if [keeps_rules]: "(b \<Longrightarrow> keeps m) \<Longrightarrow> (\<not> b \<Longrightarrow> keeps k) \<Longrightarrow> keeps (if b then m else k)"
  by simp

lemma keeps_catch [keeps_rules]:
  "keeps m \<Longrightarrow> (\<And>e k. h e = Some k \<Longrightarrow> keeps k) \<Longrightarrow> keeps (catch_io m h)"
  by (rule keepsI)
    (auto simp: catch_io_def split: prod.splits sum.splits option.splits dest!: keepsD intro: chains)

lemma keeps_finally [keeps_rules]:
  "keeps m \<Longrightarrow> (\<And>r. keeps (f r)) \<Longrightarrow> keeps (finally_io m f)"
  by (rule keepsI) (auto simp: finally_io_def split: prod.splits dest!: keepsD intro: chains)

lemma keeps_each [keeps_rules]: "(\<And>x. keeps (f x)) \<Longrightarrow> keeps (each_io f xs)"
  by (induction xs) (auto intro: keeps_bind keeps_readers)

lemma keeps_call: "(\<And>s. R s (snd (f s))) \<Longrightarrow> keeps (call e f)"
proof (rule keepsI)
  fix s r t assume f: "\<And>s. R s (snd (f s))" and run: "call e f s = (r, t)"
  obtain o' s' where p: "pop s = (o', s')" by fastforce
  have "t = s' \<or> t = snd (f s')"
    using run p by (auto simp: call_def split: fate.splits prod.splits)
  then show "R s t" using popped_to[OF p] f chains by blast
qed

lemma keeps_effect: "(\<And>s. R s (f s)) \<Longrightarrow> keeps (effect e f)"
  by (simp add: effect_def keeps_call)

lemma keeps_attempt [keeps_rules]: "keeps (effect e id)" "keeps (call e (\<lambda>s. (g s, s)))"
  by (simp_all add: keeps_effect keeps_call stays)

lemma keeps_close_after [keeps_rules]: "keeps (close_after code r)"
  by (rule keepsI)
    (auto simp: close_after_def split: prod.splits fate.splits sum.splits dest!: popped_to)

lemma keeps_fsync_directory [keeps_rules]: "keeps (fsync_directory p)"
  unfolding fsync_directory_def by (intro keeps_rules)

lemma keeps_fsync_file [keeps_rules]: "keeps (fsync_file p)"
  unfolding fsync_file_def by (intro keeps_rules)

lemma keeps_write_loop:
  assumes "\<And>s b. R s (append_file p b s)"
  shows "keeps (write_loop p e view)"
proof (rule keepsI)
  fix s r t show "write_loop p e view s = (r, t) \<Longrightarrow> R s t"
    using assms
  proof (induction p e view s arbitrary: r t rule: write_loop.induct)
    case (1 p e view s)
    obtain f s' where p: "pop s = (f, s')" by fastforce
    consider "view = []" | "view \<noteq> []" "f = Fails \<or> accepted f view = 0"
      | "view \<noteq> []" "\<not> (f = Fails \<or> accepted f view = 0)" by metis
    then show ?case
    proof cases
      case 1
      then show ?thesis using "1.prems" by (simp add: stays)
    next
      case 2
      then show ?thesis
        using "1.prems" p popped_to[OF p] by (simp add: write_loop.simps[of p e view s])
    next
      case 3
      then have "write_loop p e (drop (accepted f view) view)
          (append_file p (take (accepted f view) view) s') = (r, t)"
        using "1.prems" p by (simp add: write_loop.simps[of p e view s])
      from "1.IH"[OF 3(1) p[symmetric] 3(2) this "1.prems"(2)] show ?thesis
        by (rule chains[OF popped_to[OF p] chains[OF "1.prems"(2)]])
    qed
  qed
qed

lemma keeps_open_exclusive:
  assumes "\<And>s b. R s (store_file p b s)"
  shows "keeps (open_exclusive p e)"
proof (rule keepsI)
  fix s r t assume run: "open_exclusive p e s = (r, t)"
  obtain f s' where p: "pop s = (f, s')" by fastforce
  have "R s' t"
    using run p assms stays
    by (auto simp: open_exclusive_def Let_def split: fate.splits option.splits if_splits
        intro: chains)
  then show "R s t" using popped_to[OF p] chains by blast
qed

text \<open>The writing operations, for a relation that allows the changes they make.\<close>

lemma keeps_atomic_cleanup:
  assumes "\<And>s. R s (remove_file p s)"
  shows "keeps (atomic_cleanup p r)"
proof (rule keepsI)
  fix s r' t assume run: "atomic_cleanup p r s = (r', t)"
  obtain f s' where p: "pop s = (f, s')" by fastforce
  obtain g u where q: "pop s' = (g, u)" by fastforce
  have "t = s' \<or> t = u \<or> t = remove_file p u"
    using run p q by (auto simp: atomic_cleanup_def split: fate.splits sum.splits if_splits)
  then show "R s t" using popped_to[OF p] popped_to[OF q] assms chains by blast
qed

lemma keeps_replace_file:
  assumes "\<And>s b. R s (store_file q b s)" and "\<And>s. R s (remove_file p s)"
  shows "R s (replace_file p q s)"
  using stays chains[OF assms(2,1)] by (auto simp: replace_file_def split: option.splits)

lemma keeps_append_file: "(\<And>s b. R s (store_file q b s)) \<Longrightarrow> R s (append_file q b s)"
  by (simp add: append_file_def)

lemma keeps_atomic_write:
  assumes target: "\<And>s b. R s (store_file target b s)"
    and temporary: "\<And>s b u. R s (store_file (temporary_name target u) b s)"
      "\<And>s u. R s (remove_file (temporary_name target u) s)"
  shows "keeps (atomic_write target payload)"
  unfolding atomic_write_def atomic_body_def write_temporary_def Let_def
  by (intro keeps_rules keeps_effect keeps_atomic_cleanup keeps_open_exclusive keeps_write_loop
      keeps_replace_file keeps_append_file assms)

end

text \<open>The two relations of the development: \<open>onward\<close>, and the files of a set of paths unchanged.\<close>

interpretation onward: step_relation onward
  by unfold_locales (auto simp: onward_def pop_def advance_def split: list.splits)

interpretation same: step_relation "same_on P" for P
  by unfold_locales (simp_all add: same_on_def)

section \<open>Paths\<close>

lemma base_name_no_slash: "CHR ''/'' \<notin> set (base_name p)"
  by (auto simp: base_name_def dest: set_takeWhileD)

lemma dir_base: "dir_prefix p @ base_name p = p"
  unfolding dir_prefix_def base_name_def by (metis rev_append rev_rev_ident takeWhile_dropWhile_id)

lemma dir_prefix_Nil_or_slash: "dir_prefix p = [] \<or> (\<exists>d. dir_prefix p = d @ ''/'')"
proof (cases "dropWhile (\<lambda>c. c \<noteq> CHR ''/'') (rev p)")
  case (Cons c r)
  then have "c = CHR ''/''"
    using hd_dropWhile[of "\<lambda>c. c \<noteq> CHR ''/''" "rev p"] by force
  with Cons show ?thesis by (simp add: dir_prefix_def)
qed (simp add: dir_prefix_def)

lemma takeWhile_no_slash:
  "CHR ''/'' \<notin> set n \<Longrightarrow> takeWhile (\<lambda>c. c \<noteq> CHR ''/'') (rev n) = rev n"
  by (rule takeWhile_eq_all_conv[THEN iffD2]) auto

lemma base_name_append:
  assumes "CHR ''/'' \<notin> set n"
  shows "base_name (d @ ''/'' @ n) = n"
proof -
  have "takeWhile (\<lambda>c. c \<noteq> CHR ''/'') (rev n @ CHR ''/'' # rev d) =
      rev n @ takeWhile (\<lambda>c. c \<noteq> CHR ''/'') (CHR ''/'' # rev d)"
    by (rule takeWhile_append2) (use assms in auto)
  then show ?thesis by (simp add: base_name_def)
qed

lemma hex_char_no_slash: "d < 16 \<Longrightarrow> hex_char d \<noteq> CHR ''/''"
  using hex_char_hex[of d] by (auto simp: is_lower_hex_def is_digit_def)

lemma hex32_no_slash: "CHR ''/'' \<notin> set (hex32 w)"
proof -
  have "unat (x AND 15) < 16" for x :: "128 word"
  proof -
    have "x AND 15 = x AND mask 4" by (simp add: mask_eq_exp_minus_1)
    then have "x AND 15 = take_bit 4 x" by (simp add: take_bit_eq_mask)
    then show ?thesis using take_bit_nat_less_exp[of 4 "unat x"] by (simp add: unsigned_take_bit_eq)
  qed
  then have "hex_char (unat (x AND 15)) \<noteq> CHR ''/''" for x :: "128 word"
    using hex_char_no_slash by blast
  then have "CHR ''/'' \<noteq> hex_char (unat (x AND 15))" for x :: "128 word"
    by metis
  then show ?thesis by (auto simp: hex32_def)
qed

lemma length_hex32 [simp]: "length (hex32 w) = 32"
  by (simp add: hex32_def)

lemma temporary_not_target: "temporary_name t u \<noteq> t"
proof
  assume "temporary_name t u = t"
  then have "length (temporary_name t u) = length (dir_prefix t @ base_name t)" by (simp add: dir_base)
  then show False by (simp add: temporary_name_def with_name_def)
qed

text \<open>A path whose last component starts with a dot is that of a temporary file.\<close>

definition hidden :: "string \<Rightarrow> bool" where
  "hidden p \<longleftrightarrow> prefix ''.'' (base_name p)"

lemma hidden_temporary: "CHR ''/'' \<notin> set u \<Longrightarrow> hidden (temporary_name t u)"
proof -
  assume u: "CHR ''/'' \<notin> set u"
  let ?n = "''.'' @ base_name t @ ''.'' @ u @ ''.tmp''"
  have n: "CHR ''/'' \<notin> set ?n" using u base_name_no_slash[of t] by simp
  have "base_name (dir_prefix t @ ?n) = ?n"
  proof -
    consider "dir_prefix t = []" | d where "dir_prefix t = d @ ''/''"
      using dir_prefix_Nil_or_slash[of t] by blast
    then show ?thesis
    proof cases
      case 1
      then show ?thesis using takeWhile_no_slash[OF n] by (simp only: base_name_def append_Nil rev_rev_ident)
    next
      case 2
      then show ?thesis using base_name_append[OF n, of d] by simp
    qed
  qed
  then show ?thesis by (simp add: hidden_def temporary_name_def with_name_def)
qed

lemma quarantine_not_target:
  assumes "CHR ''/'' \<notin> set u"
  shows "''quarantine/'' @ u @ ''-'' @ base_name t \<noteq> t"
proof
  assume eq: "''quarantine/'' @ u @ ''-'' @ base_name t = t"
  have "base_name (''quarantine'' @ ''/'' @ u @ ''-'' @ base_name t) = u @ ''-'' @ base_name t"
    by (rule base_name_append) (simp add: assms base_name_no_slash)
  with eq have "base_name t = u @ ''-'' @ base_name t" by simp
  then have "length (base_name t) = length (u @ ''-'' @ base_name t)" by simp
  then show False by simp
qed

section \<open>What the primitives do\<close>

lemma pop_bytes [simp]: "pop s = (f, t) \<Longrightarrow> bytes_at p t = bytes_at p s"
  using bytes_at_simps(3)[of p s] by simp

lemma write_loop_spec:
  "write_loop p e view s = (r, t) \<Longrightarrow> bytes_at p s = Some old \<Longrightarrow>
   (case r of Inr _ \<Rightarrow> bytes_at p t = Some (old @ view)
    | Inl e' \<Rightarrow> e' = e \<and> (\<exists>k. bytes_at p t = Some (old @ take k view)))"
proof (induction p e view s arbitrary: old r t rule: write_loop.induct)
  case (1 p e view s)
  obtain f s' where p: "pop s = (f, s')" by fastforce
  let ?n = "accepted f view"
  consider "view = []" | "view \<noteq> []" "f = Fails \<or> ?n = 0"
    | "view \<noteq> []" "\<not> (f = Fails \<or> ?n = 0)" by metis
  then show ?case
  proof cases
    case 1
    then show ?thesis using "1.prems" by auto
  next
    case 2
    then have "r = Inl e" "t = s'" using "1.prems" p by (simp_all add: write_loop.simps[of p e view s])
    then show ?thesis using p "1.prems"(2) by (auto intro: exI[of _ 0])
  next
    case 3
    then have run: "write_loop p e (drop ?n view) (append_file p (take ?n view) s') = (r, t)"
      using "1.prems" p by (simp add: write_loop.simps[of p e view s])
    have "bytes_at p (append_file p (take ?n view) s') = Some (old @ take ?n view)"
      using p "1.prems"(2) by simp
    from "1.IH"[OF 3(1) p[symmetric] 3(2) run this]
    show ?thesis
      by (auto split: sum.splits) (metis append_assoc take_add)
  qed
qed

lemma same_onD: "same_on P s t \<Longrightarrow> P p \<Longrightarrow> bytes_at p t = bytes_at p s"
  by (simp add: same_on_def)

lemma write_loop_same: "write_loop p e view s = (r, t) \<Longrightarrow> same_on (\<lambda>q. q \<noteq> p) s t"
  by (rule same.keepsD[OF same.keeps_write_loop]) (simp_all add: same_on_def)

lemma write_temporary_same: "write_temporary p b s = (r, t) \<Longrightarrow> same_on (\<lambda>q. q \<noteq> p) s t"
  by (rule same.keepsD[of _ "write_temporary p b"], unfold write_temporary_def)
    (intro same.keeps_finally same.keeps_bind same.keeps_write_loop same.keeps_attempt
      same.keeps_close_after, simp_all add: same_on_def)

lemma close_after_cases:
  "close_after code r s = (r', t) \<Longrightarrow>
   (\<forall>p. bytes_at p t = bytes_at p s) \<and>
   (r' = r \<or> (\<exists>e. r = Inl e \<and> r' = Inl (flag ''close_incomplete'' e)) \<or>
    ((\<exists>a. r = Inr a) \<and> r' = Inl (storage_error code)))"
  by (auto simp: close_after_def split: prod.splits fate.splits sum.splits)

lemma effect_cases:
  "effect e f s = (r, t) \<Longrightarrow> \<exists>s'. (\<forall>p. bytes_at p s' = bytes_at p s) \<and>
     (r = Inl e \<and> t = s' \<or> r = Inr () \<and> t = f s')"
  by (rule exI[of _ "snd (pop s)"])
    (auto simp: effect_def call_def split: fate.splits prod.splits)

lemma exn_code_flag [simp]: "exn_code (flag w e) = exn_code e" "exn_class (flag w e) = exn_class e"
  by (cases e; simp)+

definition directory_codes :: "string list" where
  "directory_codes = [''directory_open_failed'', ''directory_fsync_failed'', ''directory_close_failed'']"

lemma fsync_directory_spec:
  assumes "fsync_directory d s = (r, t)"
  shows "(\<forall>p. bytes_at p t = bytes_at p s) \<and>
    (case r of Inr _ \<Rightarrow> True | Inl e \<Rightarrow> exn_class e = OSError \<and> exn_code e \<in> set directory_codes)"
proof -
  have "same_on (\<lambda>_. True) s t"
    by (rule same.keepsD[OF same.keeps_fsync_directory assms])
  moreover have "case r of Inr _ \<Rightarrow> True | Inl e \<Rightarrow> exn_class e = OSError \<and> exn_code e \<in> set directory_codes"
    using assms
    by (auto simp: fsync_directory_def bind_io_def asks_def ret_def finally_io_def directory_codes_def
        split: prod.splits sum.splits if_splits dest!: effect_cases close_after_cases)
  ultimately show ?thesis by (simp add: same_on_def)
qed

definition unreplaced_codes :: "string list" where
  "unreplaced_codes = [''parent_mkdir_failed'', ''temporary_open_failed'', ''temporary_write_failed'',
     ''temporary_fsync_failed'', ''temporary_close_failed'', ''replace_failed'']"

lemma write_temporary_spec:
  assumes run: "write_temporary p payload s = (r, t)" and empty: "bytes_at p s = Some []"
  shows "case r of Inr _ \<Rightarrow> bytes_at p t = Some payload
    | Inl e \<Rightarrow> exn_class e = OSError \<and> exn_code e \<in> set unreplaced_codes"
proof -
  obtain r1 s1 where w: "write_loop p (storage_error ''temporary_write_failed'') payload s = (r1, s1)"
    by fastforce
  show ?thesis
    using run w write_loop_spec[OF w empty]
    by (auto simp: write_temporary_def finally_io_def bind_io_def unreplaced_codes_def
        split: prod.splits sum.splits dest!: close_after_cases effect_cases)
qed

lemma open_exclusive_spec:
  "open_exclusive p e s = (r, t) \<Longrightarrow> same_on (\<lambda>q. q \<noteq> p) s t \<and>
   (case r of Inl e' \<Rightarrow> e' = e
    | Inr created \<Rightarrow> if created then bytes_at p t = Some [] else bytes_at p t \<noteq> None)"
  by (cases "pop s")
    (auto simp: open_exclusive_def Let_def same_on_def split: fate.splits option.splits if_splits)

lemma replace_file_bytes:
  "bytes_at q (replace_file p t s) =
     (case bytes_at p s of None \<Rightarrow> bytes_at q s
      | Some b \<Rightarrow> if q = t then Some b else if q = p then None else bytes_at q s)"
  by (simp add: replace_file_def split: option.splits)

lemma atomic_body_spec:
  assumes run: "atomic_body target temporary payload s = (r, t)" and ne: "temporary \<noteq> target"
  shows "same_on (\<lambda>q. q \<noteq> target \<and> q \<noteq> temporary) s t \<and>
    (case r of Inr _ \<Rightarrow> bytes_at target t = Some payload \<and> bytes_at temporary t = None
     | Inl e \<Rightarrow> exn_class e = OSError \<and>
        (if exn_code e \<in> set directory_codes
         then bytes_at target t = Some payload \<and> bytes_at temporary t = None
         else exn_code e \<in> set unreplaced_codes \<and> bytes_at target t = bytes_at target s))"
proof -
  obtain r1 s1 where o: "open_exclusive temporary (storage_error ''temporary_open_failed'') s = (r1, s1)"
    by fastforce
  note o1 = open_exclusive_spec[OF o]
  have t1: "bytes_at q s1 = bytes_at q s" if "q \<noteq> temporary" for q
    using o1 that by (simp add: same_on_def)
  show ?thesis
  proof (cases "r1 = Inr True")
    case False
    then show ?thesis
      using run o o1 ne
      by (cases r1) (auto simp: atomic_body_def bind_io_def lift_def unreplaced_codes_def
          directory_codes_def same_on_def)
  next
    case True
    obtain r2 s2 where w: "write_temporary temporary payload s1 = (r2, s2)" by fastforce
    have w2: "case r2 of Inr _ \<Rightarrow> bytes_at temporary s2 = Some payload
        | Inl e \<Rightarrow> exn_class e = OSError \<and> exn_code e \<in> set unreplaced_codes"
      using write_temporary_spec[OF w] o1 True by simp
    have t2: "bytes_at q s2 = bytes_at q s" if "q \<noteq> temporary" for q
      using write_temporary_same[OF w] t1 that by (simp add: same_on_def)
    have disj: "c \<in> set unreplaced_codes \<Longrightarrow> c \<notin> set directory_codes" for c
      by (auto simp: unreplaced_codes_def directory_codes_def)
    show ?thesis
    proof (cases r2)
      case (Inl e)
      then show ?thesis
        using run o True w w2 t2 ne disj by (auto simp: atomic_body_def bind_io_def same_on_def)
    next
      case (Inr u)
      obtain r3 s3 where m: "effect (storage_error ''replace_failed'') (replace_file temporary target) s2 = (r3, s3)"
        by fastforce
      obtain s2' where s2': "\<forall>p. bytes_at p s2' = bytes_at p s2"
        and alt: "r3 = Inl (storage_error ''replace_failed'') \<and> s3 = s2' \<or>
          r3 = Inr () \<and> s3 = replace_file temporary target s2'"
        using effect_cases[OF m] by blast
      from alt show ?thesis
      proof (elim disjE conjE)
        assume "r3 = Inl (storage_error ''replace_failed'')" "s3 = s2'"
        then show ?thesis
          using run o True w Inr m s2' t2 ne
          by (auto simp: atomic_body_def bind_io_def same_on_def unreplaced_codes_def directory_codes_def)
      next
        assume r3: "r3 = Inr ()" and s3: "s3 = replace_file temporary target s2'"
        have replaced: "bytes_at q s3 = (if q = target then Some payload else if q = temporary then None
            else bytes_at q s)" for q
          using s3 s2' w2 Inr t2 by (simp add: replace_file_bytes)
        have "fsync_directory (parent_dir target) s3 = (r, t)"
          using run o True w Inr m r3 by (simp add: atomic_body_def bind_io_def)
        from fsync_directory_spec[OF this] show ?thesis
          using replaced ne by (auto simp: same_on_def split: sum.splits)
      qed
    qed
  qed
qed

lemma atomic_cleanup_spec:
  "atomic_cleanup p r s = (r', t) \<Longrightarrow> same_on (\<lambda>q. q \<noteq> p) s t \<and>
    (r' = r \<and> bytes_at p t = None \<or>
     (\<exists>e. r = Inl e \<and> r' = Inl (flag ''cleanup_incomplete'' e)) \<or>
     (\<exists>a. r = Inr a) \<and> r' \<in> {Inl (storage_error ''cleanup_stat_failed''),
                             Inl (storage_error ''cleanup_unlink_failed'')})"
  by (cases "pop s"; cases "pop (snd (pop s))")
    (auto simp: atomic_cleanup_def same_on_def split: fate.splits sum.splits if_splits)

definition cleanup_codes :: "string list" where
  "cleanup_codes = [''cleanup_stat_failed'', ''cleanup_unlink_failed'']"

lemma split_on_sep: "split_on c (a @ c # b) = split_on c a @ split_on c b"
  by (induction a) (auto split: list.splits)

lemma mem_split_on_free: "c \<notin> set w \<Longrightarrow> split_on c w = [w]"
  by (induction w) auto

lemma flagged_flag [simp]: "CHR '','' \<notin> set w \<Longrightarrow> flagged w (flag w e)"
  by (cases e) (auto simp: flagged_def split_on_sep mem_split_on_free split: option.splits)

lemma atomic_write_spec:
  assumes run: "atomic_write target payload s = (r, t)"
  defines "temporary \<equiv> temporary_name target (next_uuid s)"
  shows "same_on (\<lambda>q. q \<noteq> target \<and> q \<noteq> temporary) s t \<and>
    (case r of Inr _ \<Rightarrow> bytes_at target t = Some payload \<and> bytes_at temporary t = None
     | Inl e \<Rightarrow> exn_class e = OSError \<and>
        (if exn_code e \<in> set unreplaced_codes then bytes_at target t = bytes_at target s
         else exn_code e \<in> set (directory_codes @ cleanup_codes) \<and> bytes_at target t = Some payload) \<and>
        (bytes_at temporary t = None \<or> exn_code e \<in> set (''parent_mkdir_failed'' # cleanup_codes) \<or>
         flagged ''cleanup_incomplete'' e))"
proof -
  have ne: "temporary \<noteq> target" unfolding temporary_def by (rule temporary_not_target)
  obtain r1 s1 where mk: "effect (storage_error ''parent_mkdir_failed'') id s = (r1, s1)" by fastforce
  from effect_cases[OF mk] have s1: "bytes_at q s1 = bytes_at q s" for q by auto
  have uuid: "next_uuid s1 = next_uuid s"
    using mk by (auto simp: effect_def call_def pop_def next_uuid_def split: list.splits fate.splits)
  show ?thesis
  proof (cases r1)
    case (Inl e)
    then have "r = Inl (storage_error ''parent_mkdir_failed'')" "t = s1"
      using run mk effect_cases[OF mk] by (auto simp: atomic_write_def bind_io_def)
    then show ?thesis using s1 by (simp add: same_on_def unreplaced_codes_def)
  next
    case (Inr u)
    obtain r2 s2 where body: "atomic_body target temporary payload (advance s1) = (r2, s2)" by fastforce
    have clean: "atomic_cleanup temporary r2 s2 = (r, t)"
      using run mk Inr body uuid
      by (simp add: atomic_write_def bind_io_def draw_uuid_def finally_io_def temporary_def Let_def)
    have code: "c \<in> set directory_codes \<Longrightarrow> c \<notin> set unreplaced_codes"
      "c \<in> set cleanup_codes \<Longrightarrow> c \<notin> set unreplaced_codes" for c
      by (auto simp: directory_codes_def cleanup_codes_def unreplaced_codes_def)
    have keep: "bytes_at q t = bytes_at q s2" if "q \<noteq> temporary" for q
      using atomic_cleanup_spec[OF clean] that by (simp add: same_on_def)
    have before: "bytes_at target (advance s1) = bytes_at target s" using s1 by simp
    note b = atomic_body_spec[OF body ne]
    have frame: "same_on (\<lambda>q. q \<noteq> target \<and> q \<noteq> temporary) s t"
      using b keep s1 by (simp add: same_on_def)
    show ?thesis
    proof (cases r2)
      case (Inr v)
      then show ?thesis
        using b keep[of target] ne frame atomic_cleanup_spec[OF clean] code
        by (auto simp: cleanup_codes_def)
    next
      case (Inl e)
      then show ?thesis
        using b keep[of target] ne frame atomic_cleanup_spec[OF clean] code before
        by (auto split: if_splits)
    qed
  qed
qed

text \<open>C10: \<open>atomic_write\<close> is atomic whatever calls fail: afterwards the target has either its old
  bytes or the whole payload, the error code tells which, no file other than the target and the
  temporary file has changed, and a temporary file is left behind only when the error says so
  (or was there before and the parent directory could not be made).\<close>

theorem atomic_write_atomic:
  "case atomic_write target payload s of (r, t) \<Rightarrow>
    (let temporary = temporary_name target (next_uuid s) in
     same_on (\<lambda>q. q \<noteq> target \<and> q \<noteq> temporary) s t \<and>
     (case r of Inr _ \<Rightarrow> bytes_at target t = Some payload \<and> bytes_at temporary t = None
      | Inl e \<Rightarrow> exn_class e = OSError \<and>
         (if exn_code e \<in> set unreplaced_codes then bytes_at target t = bytes_at target s
          else exn_code e \<in> set (directory_codes @ cleanup_codes) \<and> bytes_at target t = Some payload) \<and>
         (bytes_at temporary t = None \<or> exn_code e \<in> set (''parent_mkdir_failed'' # cleanup_codes) \<or>
          flagged ''cleanup_incomplete'' e)))"
proof (cases "atomic_write target payload s")
  case (Pair r t)
  then show ?thesis using atomic_write_spec[OF Pair] by (simp only: Let_def split_conv case_prod_conv)
qed

end
