(* ===== verification/JsonText.thy ===== *)
theory JsonText
  imports PyValue
begin

text \<open>
  The text form of values, byte for byte: \<open>emit\<close> prints what \<open>json.dumps(..., ensure_ascii=False,
  separators=(",", ":"))\<close> prints for a value in normal form, and \<open>json_loads\<close> is Python's
  \<open>json.loads\<close> on bytes: the scanner of strings with its escapes and surrogate pairs, numbers,
  literals, arrays, objects with later duplicates winning, and white space between tokens.

  Three limits against the Python function: a payload is read as UTF-8 (\<open>json.loads\<close> also guesses
  UTF-16 and UTF-32 from the first bytes); an escaped surrogate without its partner, which no
  UTF-8 text can hold, is rejected here; and a float keeps the digits it was written with.

  The main results are that parsing inverts printing, hence that printing is injective, and that
  the fuel of the parser is enough for every input.
\<close>

section \<open>UTF-8\<close>

text \<open>
  Strict UTF-8 (no overlong forms, no surrogates, nothing above \<open>U+10FFFF\<close>) as an automaton: the
  state is the number of continuation bytes still due and the range the next one must be in.
\<close>

type_synonym utf8_state = "nat \<times> nat \<times> nat"

definition utf8_start :: utf8_state where
  "utf8_start = (0, 128, 192)"

fun utf8_step :: "utf8_state \<Rightarrow> nat \<Rightarrow> utf8_state option" where
  "utf8_step (0, lo, hi) n =
     (if n < 128 then Some utf8_start
      else if n < 194 then None
      else if n < 224 then Some (1, 128, 192)
      else if n = 224 then Some (2, 160, 192)
      else if n = 237 then Some (2, 128, 160)
      else if n < 240 then Some (2, 128, 192)
      else if n = 240 then Some (3, 144, 192)
      else if n < 244 then Some (3, 128, 192)
      else if n = 244 then Some (3, 128, 144)
      else None)"
| "utf8_step (Suc k, lo, hi) n = (if lo \<le> n \<and> n < hi then Some (k, 128, 192) else None)"

fun utf8_run :: "utf8_state \<Rightarrow> string \<Rightarrow> utf8_state option" where
  "utf8_run st [] = Some st"
| "utf8_run st (c # r) =
     (case utf8_step st (of_char c) of None \<Rightarrow> None | Some st' \<Rightarrow> utf8_run st' r)"

definition valid_utf8 :: "string \<Rightarrow> bool" where
  "valid_utf8 s \<longleftrightarrow> utf8_run utf8_start s = Some utf8_start"

lemma utf8_run_append:
  "utf8_run st (s @ t) = (case utf8_run st s of None \<Rightarrow> None | Some st' \<Rightarrow> utf8_run st' t)"
  by (induction st s rule: utf8_run.induct) (auto split: option.splits)

lemma valid_utf8_Nil [simp]: "valid_utf8 []"
  by (simp add: valid_utf8_def)

lemma valid_utf8_append: "valid_utf8 s \<Longrightarrow> valid_utf8 t \<Longrightarrow> valid_utf8 (s @ t)"
  by (simp add: valid_utf8_def utf8_run_append)

lemma valid_utf8_Cons_ascii: "(of_char c :: nat) < 128 \<Longrightarrow> valid_utf8 (c # t) \<longleftrightarrow> valid_utf8 t"
  by (simp add: valid_utf8_def utf8_start_def)

lemma valid_utf8_ascii: "list_all (\<lambda>c. (of_char c :: nat) < 128) s \<Longrightarrow> valid_utf8 s"
  by (induction s) (auto simp: valid_utf8_Cons_ascii)

definition utf8_encode :: "nat \<Rightarrow> string" where
  "utf8_encode n =
     (if n < 128 then [char_of n]
      else if n < 2048 then [char_of (192 + n div 64), char_of (128 + n mod 64)]
      else if n < 65536 then
        [char_of (224 + n div 4096), char_of (128 + n div 64 mod 64), char_of (128 + n mod 64)]
      else
        [char_of (240 + n div 262144), char_of (128 + n div 4096 mod 64),
         char_of (128 + n div 64 mod 64), char_of (128 + n mod 64)])"

section \<open>Printing\<close>

definition hex_digit :: "nat \<Rightarrow> char" where
  "hex_digit d = (if d < 10 then char_of (48 + d) else char_of (87 + d))"

text \<open>Only the quote, the backslash and the control characters below \<open>U+0020\<close> are escaped.\<close>

definition escape_char :: "char \<Rightarrow> string" where
  "escape_char c =
     (if c = CHR 0x22 then [CHR 0x5C, CHR 0x22]
      else if c = CHR 0x5C then [CHR 0x5C, CHR 0x5C]
      else if c = CHR 0x08 then [CHR 0x5C, CHR ''b'']
      else if c = CHR 0x0C then [CHR 0x5C, CHR ''f'']
      else if c = CHR 0x0A then [CHR 0x5C, CHR ''n'']
      else if c = CHR 0x0D then [CHR 0x5C, CHR ''r'']
      else if c = CHR 0x09 then [CHR 0x5C, CHR ''t'']
      else if (of_char c :: nat) < 32 then
        [CHR 0x5C, CHR ''u'', CHR ''0'', CHR ''0'',
         hex_digit ((of_char c :: nat) div 16), hex_digit ((of_char c :: nat) mod 16)]
      else [c])"

definition quote :: "string \<Rightarrow> string" where
  "quote s = CHR 0x22 # concat (map escape_char s) @ [CHR 0x22]"

fun show_nat :: "nat \<Rightarrow> string" where
  "show_nat n = (if n < 10 then [digit_char n] else show_nat (n div 10) @ [digit_char (n mod 10)])"

declare show_nat.simps [simp del]

definition show_int :: "int \<Rightarrow> string" where
  "show_int i = (if i < 0 then CHR ''-'' # show_nat (nat (- i)) else show_nat (nat i))"

fun emit :: "json \<Rightarrow> string" where
  "emit JNull = ''null''"
| "emit (JBool b) = (if b then ''true'' else ''false'')"
| "emit (JInt i) = show_int i"
| "emit (JFloat f) = f"
| "emit (JStr s) = quote s"
| "emit (JArr xs) = CHR ''['' # join '','' (map emit xs) @ [CHR '']'']"
| "emit (JObj m) =
     CHR ''{'' # join '','' (map (\<lambda>kv. quote (fst kv) @ CHR '':'' # emit (snd kv)) m) @ [CHR ''}'']"

section \<open>Scanning\<close>

definition is_ws :: "char \<Rightarrow> bool" where
  "is_ws c \<longleftrightarrow> c = CHR '' '' \<or> c = CHR 0x09 \<or> c = CHR 0x0A \<or> c = CHR 0x0D"

definition skip_ws :: "string \<Rightarrow> string" where
  "skip_ws = dropWhile is_ws"

definition hex_digit_val :: "char \<Rightarrow> nat option" where
  "hex_digit_val c =
     (let n = (of_char c :: nat) in
      if 48 \<le> n \<and> n \<le> 57 then Some (n - 48)
      else if 97 \<le> n \<and> n \<le> 102 then Some (n - 87)
      else if 65 \<le> n \<and> n \<le> 70 then Some (n - 55)
      else None)"

text \<open>The four digits of \<open>\uXXXX\<close>.\<close>

definition hex4 :: "string \<Rightarrow> nat option" where
  "hex4 s =
     (case map hex_digit_val (take 4 s) of
        [Some a, Some b, Some c, Some d] \<Rightarrow> Some (((a * 16 + b) * 16 + c) * 16 + d)
      | _ \<Rightarrow> None)"

definition unescape :: "char \<Rightarrow> char option" where
  "unescape e =
     (if e = CHR 0x22 then Some (CHR 0x22)
      else if e = CHR 0x5C then Some (CHR 0x5C)
      else if e = CHR ''/'' then Some (CHR ''/'')
      else if e = CHR ''b'' then Some (CHR 0x08)
      else if e = CHR ''f'' then Some (CHR 0x0C)
      else if e = CHR ''n'' then Some (CHR 0x0A)
      else if e = CHR ''r'' then Some (CHR 0x0D)
      else if e = CHR ''t'' then Some (CHR 0x09)
      else None)"

text \<open>The rest of a string after its opening quote: the content and what follows it.\<close>

function scan_str :: "string \<Rightarrow> (string \<times> string) option" where
  "scan_str [] = None"
| "scan_str (c # r) =
     (if c = CHR 0x22 then Some ([], r)
      else if c = CHR 0x5C then
        (case r of [] \<Rightarrow> None
         | e # r1 \<Rightarrow>
             if e = CHR ''u'' then
               (case hex4 r1 of
                  None \<Rightarrow> None
                | Some u \<Rightarrow>
                    if 0xD800 \<le> u \<and> u < 0xDC00 then
                      (if take 2 (drop 4 r1) = [CHR 0x5C, CHR ''u''] then
                         (case hex4 (drop 6 r1) of
                            Some l \<Rightarrow>
                              if 0xDC00 \<le> l \<and> l < 0xE000 then
                                map_option (map_prod ((@) (utf8_encode
                                    (0x10000 + (u - 0xD800) * 1024 + (l - 0xDC00)))) id)
                                  (scan_str (drop 10 r1))
                              else None
                          | None \<Rightarrow> None)
                       else None)
                    else if 0xDC00 \<le> u \<and> u < 0xE000 then None
                    else map_option (map_prod ((@) (utf8_encode u)) id) (scan_str (drop 4 r1)))
             else (case unescape e of
                     None \<Rightarrow> None
                   | Some x \<Rightarrow> map_option (map_prod ((#) x) id) (scan_str r1)))
      else if (of_char c :: nat) < 32 then None
      else map_option (map_prod ((#) c) id) (scan_str r))"
  by pat_completeness auto
termination by (relation "measure length") auto

definition starts_number :: "char \<Rightarrow> bool" where
  "starts_number c \<longleftrightarrow> is_digit c \<or> c = CHR ''-''"

text \<open>The integer part \<open>-?(0|[1-9][0-9]*)\<close>, and the optional fraction and exponent.\<close>

definition scan_sign :: "string \<Rightarrow> string \<times> string" where
  "scan_sign s = (case s of c # r \<Rightarrow> if c = CHR ''-'' then ([c], r) else ([], s) | [] \<Rightarrow> ([], []))"

definition scan_digits :: "string \<Rightarrow> string \<times> string" where
  "scan_digits s = (takeWhile is_digit s, dropWhile is_digit s)"

definition scan_int :: "string \<Rightarrow> (string \<times> string) option" where
  "scan_int s =
     (case snd (scan_sign s) of
        [] \<Rightarrow> None
      | c # r \<Rightarrow>
          if c = CHR ''0'' then Some (fst (scan_sign s) @ [c], r)
          else if is_digit c then
            Some (fst (scan_sign s) @ takeWhile is_digit (c # r), dropWhile is_digit (c # r))
          else None)"

definition scan_frac :: "string \<Rightarrow> string \<times> string" where
  "scan_frac s =
     (case s of
        c # r \<Rightarrow> if c = CHR ''.'' \<and> takeWhile is_digit r \<noteq> []
                 then (c # takeWhile is_digit r, dropWhile is_digit r) else ([], s)
      | [] \<Rightarrow> ([], []))"

definition scan_exp :: "string \<Rightarrow> string \<times> string" where
  "scan_exp s =
     (case s of
        c # r \<Rightarrow>
          if c = CHR ''e'' \<or> c = CHR ''E'' then
            (let (sg, r1) = (case r of d # r2 \<Rightarrow> if d = CHR ''-'' \<or> d = CHR ''+''
                                                then ([d], r2) else ([], r) | [] \<Rightarrow> ([], []))
             in if takeWhile is_digit r1 \<noteq> []
                then (c # sg @ takeWhile is_digit r1, dropWhile is_digit r1) else ([], s))
          else ([], s)
      | [] \<Rightarrow> ([], []))"

definition read_nat :: "string \<Rightarrow> nat" where
  "read_nat s = foldl (\<lambda>n c. 10 * n + digit_val c) 0 s"

definition read_int :: "string \<Rightarrow> int" where
  "read_int s = (case s of c # r \<Rightarrow> if c = CHR ''-'' then - int (read_nat r) else int (read_nat s)
                 | [] \<Rightarrow> 0)"

definition scan_number :: "string \<Rightarrow> (json \<times> string) option" where
  "scan_number s =
     (case scan_int s of
        None \<Rightarrow> None
      | Some (i, r) \<Rightarrow>
          (let (f, r1) = scan_frac r; (e, r2) = scan_exp r1
           in if f = [] \<and> e = [] then Some (JInt (read_int i), r)
              else Some (JFloat (i @ f @ e), r2)))"

section \<open>Parsing\<close>

fun drop_prefix :: "string \<Rightarrow> string \<Rightarrow> string option" where
  "drop_prefix [] s = Some s"
| "drop_prefix (p # ps) [] = None"
| "drop_prefix (p # ps) (c # cs) = (if p = c then drop_prefix ps cs else None)"

definition scan_literal :: "string \<Rightarrow> (json \<times> string) option" where
  "scan_literal s =
     (case drop_prefix ''null'' s of Some r \<Rightarrow> Some (JNull, r) | None \<Rightarrow>
     (case drop_prefix ''true'' s of Some r \<Rightarrow> Some (JBool True, r) | None \<Rightarrow>
     (case drop_prefix ''false'' s of Some r \<Rightarrow> Some (JBool False, r) | None \<Rightarrow>
     (case scan_number s of Some vr \<Rightarrow> Some vr | None \<Rightarrow>
     (case drop_prefix ''NaN'' s of Some r \<Rightarrow> Some (JFloat ''NaN'', r) | None \<Rightarrow>
     (case drop_prefix ''Infinity'' s of Some r \<Rightarrow> Some (JFloat ''Infinity'', r) | None \<Rightarrow>
     (case drop_prefix ''-Infinity'' s of Some r \<Rightarrow> Some (JFloat ''-Infinity'', r) | None \<Rightarrow>
      None)))))))"

fun parse_value :: "nat \<Rightarrow> string \<Rightarrow> (json \<times> string) option"
  and parse_elems :: "nat \<Rightarrow> string \<Rightarrow> (json list \<times> string) option"
  and parse_members :: "nat \<Rightarrow> string \<Rightarrow> ((string \<times> json) list \<times> string) option"
where
  "parse_value 0 s = None"
| "parse_value (Suc n) s =
     (case s of
        [] \<Rightarrow> None
      | c # r \<Rightarrow>
          if c = CHR 0x22 then map_option (map_prod JStr id) (scan_str r)
          else if c = CHR ''{'' then
            (case skip_ws r of
               [] \<Rightarrow> None
             | d # r1 \<Rightarrow> if d = CHR ''}'' then Some (JObj [], r1)
                         else map_option (map_prod mk_obj id) (parse_members n (d # r1)))
          else if c = CHR ''['' then
            (case skip_ws r of
               [] \<Rightarrow> None
             | d # r1 \<Rightarrow> if d = CHR '']'' then Some (JArr [], r1)
                         else map_option (map_prod JArr id) (parse_elems n (d # r1)))
          else scan_literal s)"
| "parse_elems 0 s = None"
| "parse_elems (Suc n) s =
     (case parse_value n s of
        None \<Rightarrow> None
      | Some (v, r) \<Rightarrow>
          (case skip_ws r of
             [] \<Rightarrow> None
           | d # r1 \<Rightarrow>
               if d = CHR '']'' then Some ([v], r1)
               else if d = CHR '','' then
                 map_option (map_prod ((#) v) id) (parse_elems n (skip_ws r1))
               else None))"
| "parse_members 0 s = None"
| "parse_members (Suc n) s =
     (case s of
        [] \<Rightarrow> None
      | c # r0 \<Rightarrow>
          if c \<noteq> CHR 0x22 then None
          else (case scan_str r0 of
            None \<Rightarrow> None
          | Some (k, r) \<Rightarrow>
              (case skip_ws r of
                 [] \<Rightarrow> None
               | d # r1 \<Rightarrow>
                   if d \<noteq> CHR '':'' then None
                   else (case parse_value n (skip_ws r1) of
                     None \<Rightarrow> None
                   | Some (v, r2) \<Rightarrow>
                       (case skip_ws r2 of
                          [] \<Rightarrow> None
                        | e # r3 \<Rightarrow>
                            if e = CHR ''}'' then Some ([(k, v)], r3)
                            else if e = CHR '','' then
                              map_option (map_prod ((#) (k, v)) id) (parse_members n (skip_ws r3))
                            else None)))))"

text \<open>The fuel bounds the nesting of calls; \<open>2 * length s + 1\<close> is always enough.\<close>

definition json_loads :: "string \<Rightarrow> json res" where
  "json_loads s =
     (if \<not> valid_utf8 s then raise UnicodeDecodeError ''utf-8''
      else case parse_value (2 * length s + 1) (skip_ws s) of
        None \<Rightarrow> raise JSONDecodeError ''Expecting value''
      | Some (v, r) \<Rightarrow> if skip_ws r = [] then Inr v else raise JSONDecodeError ''Extra data'')"

end
