(* ===== verification/JsonRoundtrip.thy ===== *)
theory JsonRoundtrip
  imports JsonText
begin

text \<open>
  Parsing inverts printing: \<open>json_loads (emit v) = Inr v\<close> for every value in normal form whose
  strings are UTF-8 and whose floats are finite literals. The lemmas go up the grammar: escapes,
  strings, digits, numbers, then values with any continuation of the text.
\<close>

section \<open>Strings\<close>

lemma of_char_less [simp]: "(of_char c :: nat) < 256"
  by (rule nat_of_char_less_256)

lemma hex_digit_val_hex_digit [simp]: "d < 16 \<Longrightarrow> hex_digit_val (hex_digit d) = Some d"
  by (auto simp: hex_digit_val_def hex_digit_def)

lemma char_eqI: "(of_char c :: nat) = of_char d \<Longrightarrow> c = d"
  by (metis char_of_char)

lemma scan_str_control:
  assumes "(of_char c :: nat) < 32"
  shows "scan_str ([CHR 0x5C, CHR ''u'', CHR ''0'', CHR ''0'',
           hex_digit ((of_char c :: nat) div 16), hex_digit ((of_char c :: nat) mod 16)] @ t) =
         map_option (map_prod ((#) c) id) (scan_str t)"
proof -
  define n where "n = (of_char c :: nat)"
  have n: "n < 32" "n div 16 < 16" "n mod 16 < 16" using assms by (auto simp: n_def)
  have z: "hex_digit_val (CHR ''0'') = Some 0" by (simp add: hex_digit_val_def)
  have h: "hex4 ([CHR ''0'', CHR ''0'', hex_digit (n div 16), hex_digit (n mod 16)] @ t) = Some n"
    using n by (simp add: hex4_def z)
  have "utf8_encode n = [c]"
    using n by (simp add: utf8_encode_def n_def)
  then show ?thesis
    using n h by (simp add: n_def [symmetric] map_prod_def)
qed

lemma scan_str_escape:
  "scan_str (escape_char c @ t) = map_option (map_prod ((#) c) id) (scan_str t)"
proof (cases "c \<in> {CHR 0x22, CHR 0x5C, CHR 0x08, CHR 0x0C, CHR 0x0A, CHR 0x0D, CHR 0x09}")
  case True
  then show ?thesis by (auto simp: escape_char_def unescape_def)
next
  case special: False
  show ?thesis
  proof (cases "(of_char c :: nat) < 32")
    case True
    then have "escape_char c = [CHR 0x5C, CHR ''u'', CHR ''0'', CHR ''0'',
         hex_digit ((of_char c :: nat) div 16), hex_digit ((of_char c :: nat) mod 16)]"
      using special by (simp add: escape_char_def)
    then show ?thesis by (simp only: scan_str_control [OF True])
  next
    case False
    then show ?thesis using special by (simp add: escape_char_def)
  qed
qed

lemma scan_str_quoted: "scan_str (concat (map escape_char s) @ CHR 0x22 # t) = Some (s, t)"
  by (induction s) (simp_all add: scan_str_escape del: scan_str.simps(2), simp)

lemma quote_Cons: "quote s @ t = CHR 0x22 # (concat (map escape_char s) @ CHR 0x22 # t)"
  by (simp add: quote_def)

section \<open>Numbers\<close>

lemma show_nat_digits: "list_all is_digit (show_nat n)"
  by (induction n rule: show_nat.induct) (subst show_nat.simps, auto)

lemma show_nat_not_Nil [simp]: "show_nat n \<noteq> []"
  by (subst show_nat.simps) simp

lemma read_nat_snoc: "read_nat (s @ [c]) = 10 * read_nat s + digit_val c"
  by (simp add: read_nat_def)

lemma read_nat_show_nat [simp]: "read_nat (show_nat n) = n"
proof (induction n rule: show_nat.induct)
  case (1 n)
  show ?case
  proof (cases "n < 10")
    case True
    then show ?thesis by (subst show_nat.simps) (simp add: read_nat_def)
  next
    case False
    with 1 show ?thesis by (subst show_nat.simps) (simp add: read_nat_snoc)
  qed
qed

lemma digit_char_zero: "d < 10 \<Longrightarrow> digit_char d = CHR ''0'' \<longleftrightarrow> d = 0"
proof
  assume d: "d < 10" and eq: "digit_char d = CHR ''0''"
  have "digit_val (CHR ''0'') = 0" by (simp add: digit_val_def)
  with digit_char_val[OF d] show "d = 0" unfolding eq by simp
next
  assume "d = 0"
  then show "digit_char d = CHR ''0''" by (intro char_eqI) (simp add: digit_char_def)
qed

lemma hd_show_nat: "hd (show_nat n) = CHR ''0'' \<longleftrightarrow> n = 0"
proof (induction n rule: show_nat.induct)
  case (1 n)
  show ?case
  proof (cases "n < 10")
    case True
    then show ?thesis by (subst show_nat.simps) (simp add: digit_char_zero)
  next
    case False
    with 1 show ?thesis by (subst show_nat.simps) (simp add: hd_append)
  qed
qed

definition delim :: "string \<Rightarrow> bool" where
  "delim s \<longleftrightarrow> (case s of [] \<Rightarrow> True
     | c # _ \<Rightarrow> \<not> is_digit c \<and> c \<notin> {CHR ''.'', CHR ''e'', CHR ''E'', CHR ''+'', CHR ''-''})"

lemma delim_simps [simp]: "delim []"
  "delim (c # s) \<longleftrightarrow>
     \<not> is_digit c \<and> c \<notin> {CHR ''.'', CHR ''e'', CHR ''E'', CHR ''+'', CHR ''-''}"
  by (simp_all add: delim_def)

lemma takeWhile_digits: "list_all is_digit ds \<Longrightarrow> delim r \<Longrightarrow> takeWhile is_digit (ds @ r) = ds"
  by (induction ds) (auto simp: delim_def split: list.splits)

lemma dropWhile_digits: "list_all is_digit ds \<Longrightarrow> delim r \<Longrightarrow> dropWhile is_digit (ds @ r) = r"
  by (induction ds) (auto simp: delim_def split: list.splits)

lemma is_digit_not_minus: "is_digit c \<Longrightarrow> c \<noteq> CHR ''-''"
  by (auto simp: is_digit_def)

lemma scan_int_show_nat:
  assumes "delim r"
  shows "scan_int (show_nat n @ r) = Some (show_nat n, r)"
    and "scan_int (CHR ''-'' # show_nat n @ r) = Some (CHR ''-'' # show_nat n, r)"
proof -
  obtain c ds where eq: "show_nat n = c # ds" by (cases "show_nat n") auto
  have dig: "is_digit c" "list_all is_digit ds" using show_nat_digits[of n] eq by auto
  have ds0: "ds = []" if "c = CHR ''0''"
  proof -
    have "n = 0" using hd_show_nat[of n] eq that by simp
    with eq show ?thesis by (simp add: show_nat.simps[of 0])
  qed
  have tw: "takeWhile is_digit (ds @ r) = ds" "dropWhile is_digit (ds @ r) = r"
    using dig assms by (simp_all add: takeWhile_digits dropWhile_digits)
  show "scan_int (show_nat n @ r) = Some (show_nat n, r)"
    using dig ds0 tw is_digit_not_minus[OF dig(1)] by (auto simp: scan_int_def scan_sign_def eq)
  show "scan_int (CHR ''-'' # show_nat n @ r) = Some (CHR ''-'' # show_nat n, r)"
    using dig ds0 tw by (auto simp: scan_int_def scan_sign_def eq)
qed

lemma scan_int_show_int: "delim r \<Longrightarrow> scan_int (show_int i @ r) = Some (show_int i, r)"
  by (simp add: show_int_def scan_int_show_nat)

lemma read_int_show_int [simp]: "read_int (show_int i) = i"
proof (cases "i < 0")
  case True
  then show ?thesis by (simp add: show_int_def read_int_def)
next
  case False
  obtain c ds where eq: "show_nat (nat i) = c # ds" by (cases "show_nat (nat i)") auto
  moreover have "c \<noteq> CHR ''-''"
    using show_nat_digits[of "nat i"] eq is_digit_not_minus by auto
  moreover have "read_nat (c # ds) = nat i"
    by (metis eq read_nat_show_nat)
  ultimately show ?thesis using False by (simp add: show_int_def read_int_def)
qed

lemma scan_frac_delim: "delim r \<Longrightarrow> scan_frac r = ([], r)"
  by (cases r) (auto simp: scan_frac_def)

lemma scan_exp_delim: "delim r \<Longrightarrow> scan_exp r = ([], r)"
  by (cases r) (auto simp: scan_exp_def)

lemma scan_number_show_int: "delim r \<Longrightarrow> scan_number (show_int i @ r) = Some (JInt i, r)"
  by (simp add: scan_number_def scan_int_show_int scan_frac_delim scan_exp_delim)

text \<open>Finite float literals, and their independence of what follows.\<close>

definition float_text :: "string \<Rightarrow> bool" where
  "float_text f \<longleftrightarrow>
     list_all (\<lambda>c. (of_char c :: nat) < 128) f \<and> scan_number f = Some (JFloat f, [])"

lemma takeWhile_append_delim:
  "delim r \<Longrightarrow> takeWhile is_digit (s @ r) = takeWhile is_digit s"
  "delim r \<Longrightarrow> dropWhile is_digit (s @ r) = dropWhile is_digit s @ r"
  by (induction s) (auto simp: delim_def split: list.splits)

lemma delim_no_digits: "delim r \<Longrightarrow> takeWhile is_digit r = []" "delim r \<Longrightarrow> dropWhile is_digit r = r"
  by (cases r; auto)+

lemma scan_int_append:
  "scan_int s = Some (i, t) \<Longrightarrow> delim r \<Longrightarrow> scan_int (s @ r) = Some (i, t @ r)"
  by (cases s; cases "tl s")
     (auto simp: scan_int_def scan_sign_def takeWhile_append_delim delim_no_digits
        split: if_splits list.splits)

lemma scan_frac_append: "delim r \<Longrightarrow> scan_frac (s @ r) = (fst (scan_frac s), snd (scan_frac s) @ r)"
  by (cases s) (auto simp: scan_frac_def takeWhile_append_delim split: list.splits)

lemma scan_exp_append:
  assumes "delim r"
  shows "scan_exp (s @ r) = (fst (scan_exp s), snd (scan_exp s) @ r)"
proof (cases s)
  case Nil
  with assms show ?thesis by (cases r) (auto simp: scan_exp_def)
next
  case (Cons c s')
  have "takeWhile is_digit r = []" using assms by (cases r) auto
  then show ?thesis
    using assms Cons
    by (cases s'; cases r)
       (auto simp: scan_exp_def takeWhile_append_delim Let_def split: list.splits)
qed

lemma scan_number_float:
  assumes "float_text f" and r: "delim r"
  shows "scan_number (f @ r) = Some (JFloat f, r)"
proof -
  obtain i t where i: "scan_int f = Some (i, t)"
    and num: "(let (fr, r1) = scan_frac t; (ex, r2) = scan_exp r1
       in if fr = [] \<and> ex = [] then Some (JInt (read_int i), t)
          else Some (JFloat (i @ fr @ ex), r2)) = Some (JFloat f, [])"
    using assms(1) by (auto simp: float_text_def scan_number_def split: option.splits)
  then show ?thesis
    using scan_int_append[OF i r] scan_frac_append[OF r, of t]
      scan_exp_append[OF r, of "snd (scan_frac t)"]
    by (auto simp: scan_number_def Let_def split: prod.splits if_splits)
qed

lemma float_text_hd: "float_text f \<Longrightarrow> \<exists>c s. f = c # s \<and> starts_number c"
  by (cases f)
     (auto simp: float_text_def scan_number_def scan_int_def scan_sign_def starts_number_def
        is_digit_def split: list.splits if_splits option.splits)

lemma show_int_hd: "\<exists>c s. show_int i = c # s \<and> starts_number c"
proof -
  obtain c ds where eq: "show_nat (nat i) = c # ds" by (cases "show_nat (nat i)") auto
  moreover have "is_digit c" using show_nat_digits[of "nat i"] eq by auto
  ultimately show ?thesis by (simp add: show_int_def starts_number_def)
qed

section \<open>Values\<close>

text \<open>The strings of a value are UTF-8 and its floats finite literals.\<close>

fun text_json :: "json \<Rightarrow> bool" where
  "text_json (JFloat f) = float_text f"
| "text_json (JStr s) = valid_utf8 s"
| "text_json (JArr xs) = list_all text_json xs"
| "text_json (JObj m) = list_all (\<lambda>kv. valid_utf8 (fst kv) \<and> text_json (snd kv)) m"
| "text_json _ = True"

lemma emit_hd: "text_json v \<Longrightarrow> \<exists>c s. emit v = c # s \<and> \<not> is_ws c \<and> c \<noteq> CHR '']''"
proof (cases v)
  case (JInt i)
  with show_int_hd[of i] show ?thesis by (auto simp: is_ws_def starts_number_def is_digit_def)
next
  case (JFloat f)
  moreover assume "text_json v"
  ultimately show ?thesis
    using float_text_hd[of f] by (auto simp: is_ws_def starts_number_def is_digit_def)
qed (auto simp: is_ws_def quote_def)

lemma skip_ws_Cons: "\<not> is_ws c \<Longrightarrow> skip_ws (c # s) = c # s"
  by (simp add: skip_ws_def)

lemma skip_ws_emit: "text_json v \<Longrightarrow> skip_ws (emit v @ r) = emit v @ r"
  using emit_hd[of v] by (auto simp: skip_ws_Cons)

lemma drop_prefix_append: "drop_prefix p (p @ t) = Some t"
  by (induction p) auto

lemma scan_literal_number:
  assumes "starts_number c" "scan_number (c # s) = Some vr"
  shows "scan_literal (c # s) = Some vr"
  using assms by (auto simp: scan_literal_def starts_number_def is_digit_def)

lemma parse_atom:
  assumes "text_json v" "delim r" "\<not> is_obj v" "\<not> is_arr v"
  shows "parse_value (Suc n) (emit v @ r) = Some (v, r)"
proof (cases v)
  case (JInt i)
  obtain c s where eq: "show_int i = c # s" and c: "starts_number c"
    using show_int_hd by blast
  have "scan_literal (c # s @ r) = Some (JInt i, r)"
    using scan_number_show_int[OF assms(2), of i] eq by (intro scan_literal_number[OF c]) simp
  with c show ?thesis by (auto simp: JInt eq starts_number_def is_digit_def)
next
  case (JFloat f)
  then have f: "float_text f" using assms(1) by simp
  obtain c s where eq: "f = c # s" and c: "starts_number c"
    using float_text_hd[OF f] by blast
  have "scan_literal (c # s @ r) = Some (JFloat f, r)"
    using scan_number_float[OF f assms(2)] eq by (intro scan_literal_number[OF c]) simp
  with c show ?thesis by (auto simp: JFloat eq starts_number_def is_digit_def)
qed (use assms in \<open>auto simp: scan_literal_def quote_Cons scan_str_quoted\<close>)

text \<open>Reading back the members of a dict in normal form puts every key last.\<close>

lemma put_last: "\<forall>x\<in>set (map fst m). x < k \<Longrightarrow> put k v m = m @ [(k, v)]"
  by (induction k v m rule: put.induct) auto

lemma puts_sorted:
  "sorted_keys (acc @ kvs) \<Longrightarrow> puts kvs acc = acc @ kvs"
proof (induction kvs arbitrary: acc)
  case (Cons kv kvs)
  obtain k v where kv: "kv = (k, v)" by (cases kv)
  have "\<forall>x\<in>set (map fst acc). x < k"
    using Cons.prems by (auto simp: sorted_keys_def kv sorted_wrt_append)
  then have "put k v acc = acc @ [(k, v)]" by (rule put_last)
  with Cons show ?case by (simp add: kv)
qed simp

lemma mk_obj_sorted: "sorted_keys m \<Longrightarrow> mk_obj m = JObj m"
  using puts_sorted[of "[]" m] by (simp add: mk_obj_def)

text \<open>Elements and members, given the statement for each value inside.\<close>

definition reads_back :: "json \<Rightarrow> bool" where
  "reads_back v \<longleftrightarrow>
     (\<forall>n r. length (emit v) \<le> n \<longrightarrow> delim r \<longrightarrow> parse_value n (emit v @ r) = Some (v, r))"

lemma join_Cons2: "join sep (s # t # ts) = s @ sep @ join sep (t # ts)"
  by simp

lemma parse_elems_join:
  assumes "xs \<noteq> []" "\<forall>x\<in>set xs. reads_back x \<and> text_json x"
    and "length (join '','' (map emit xs)) < n"
  shows "parse_elems n (join '','' (map emit xs) @ CHR '']'' # r) = Some (xs, r)"
  using assms
proof (induction xs arbitrary: n)
  case (Cons x xs)
  obtain m where n: "n = Suc m" using Cons.prems(3) by (cases n) auto
  show ?case
  proof (cases xs)
    case Nil
    have "parse_value m (emit x @ CHR '']'' # r) = Some (x, CHR '']'' # r)"
      using Cons.prems Nil n by (auto simp: reads_back_def is_digit_def)
    then show ?thesis by (simp add: n Nil skip_ws_Cons is_ws_def)
  next
    case (Cons y ys)
    let ?j = "join '','' (map emit (y # ys)) @ CHR '']'' # r"
    have len: "length (emit x) \<le> m" "length (join '','' (map emit (y # ys))) < m"
      using Cons.prems(3) n Cons by auto
    have "parse_value m (emit x @ CHR '','' # ?j) = Some (x, CHR '','' # ?j)"
      using Cons.prems(2) len(1) by (auto simp: reads_back_def is_digit_def)
    moreover have "skip_ws ?j = ?j"
    proof -
      have "text_json y" using Cons.prems(2) Cons by simp
      then obtain c s where "emit y = c # s" "\<not> is_ws c" using emit_hd by blast
      then show ?thesis by (cases ys) (auto simp: skip_ws_Cons)
    qed
    moreover have "parse_elems m ?j = Some (y # ys, r)"
      using Cons.IH[of m] Cons.prems(2) Cons len(2) by simp
    ultimately show ?thesis
      by (simp add: n Cons skip_ws_Cons is_ws_def del: parse_elems.simps) (simp add: skip_ws_Cons is_ws_def)
  qed
qed simp

abbreviation emit_member :: "string \<times> json \<Rightarrow> string" where
  "emit_member kv \<equiv> quote (fst kv) @ CHR '':'' # emit (snd kv)"

lemma parse_members_join:
  assumes "m \<noteq> []" "\<forall>kv\<in>set m. reads_back (snd kv) \<and> text_json (snd kv)"
    and "length (join '','' (map emit_member m)) < n"
  shows "parse_members n (join '','' (map emit_member m) @ CHR ''}'' # r) = Some (m, r)"
  using assms
proof (induction m arbitrary: n)
  case (Cons kv m)
  obtain k v where kv: "kv = (k, v)" by (cases kv)
  obtain n' where n: "n = Suc n'" using Cons.prems(3) by (cases n) auto
  have v: "reads_back v" "text_json v" using Cons.prems(2) by (auto simp: kv)
  have pv: "parse_value n' (skip_ws (emit v @ d # t)) = Some (v, d # t)"
    if "d = CHR ''}'' \<or> d = CHR '',''" "length (emit v) \<le> n'" for d t
    using v that by (auto simp: skip_ws_emit reads_back_def is_digit_def)
  have colon: "skip_ws (CHR '':'' # t) = CHR '':'' # t" for t by (simp add: skip_ws_Cons is_ws_def)
  have brace: "skip_ws (CHR ''}'' # t) = CHR ''}'' # t" for t by (simp add: skip_ws_Cons is_ws_def)
  have comma: "skip_ws (CHR '','' # t) = CHR '','' # t" for t by (simp add: skip_ws_Cons is_ws_def)
  show ?case
  proof (cases m)
    case Nil
    then have "length (emit v) \<le> n'" using Cons.prems(3) by (simp add: n kv)
    then show ?thesis
      using Nil pv[of "CHR ''}''" r] by (simp add: n kv quote_Cons scan_str_quoted colon brace)
  next
    case (Cons kv' m')
    let ?j = "join '','' (map emit_member (kv' # m')) @ CHR ''}'' # r"
    have len: "length (emit v) \<le> n'" "length (join '','' (map emit_member (kv' # m'))) < n'"
      using Cons.prems(3) by (auto simp: n kv Cons)
    have "skip_ws ?j = ?j" by (cases m') (auto simp: quote_def skip_ws_Cons is_ws_def)
    moreover have "parse_members n' ?j = Some (kv' # m', r)"
      using Cons.IH[of n'] Cons.prems(2) Cons len(2) by simp
    ultimately show ?thesis
      using pv[of "CHR '',''" ?j] len(1)
      by (simp add: n kv Cons quote_Cons scan_str_quoted colon comma del: parse_members.simps)
         (simp add: colon comma scan_str_quoted)
  qed
qed simp

lemma atom_reads_back:
  "\<lbrakk>text_json v; \<not> is_obj v; \<not> is_arr v\<rbrakk> \<Longrightarrow> reads_back v"
  unfolding reads_back_def
proof (intro allI impI)
  fix n r assume v: "text_json v" "\<not> is_obj v" "\<not> is_arr v" and len: "length (emit v) \<le> n" "delim r"
  from v(1) emit_hd obtain c s where "emit v = c # s" by blast
  with len obtain m where "n = Suc m" by (cases n) auto
  then show "parse_value n (emit v @ r) = Some (v, r)"
    using parse_atom[OF v(1) len(2) v(2,3)] by simp
qed

theorem emit_reads_back: "wf_json v \<Longrightarrow> text_json v \<Longrightarrow> reads_back v"
proof (induction v rule: wf_json.induct)
  case (1 xs)
  have sub: "\<forall>x\<in>set xs. reads_back x \<and> text_json x" using 1 by (auto simp: list_all_iff)
  show ?case
    unfolding reads_back_def
  proof (intro allI impI)
    fix n r assume len: "length (emit (JArr xs)) \<le> n" and "delim r"
    then obtain m where n: "n = Suc m" by (cases n) auto
    show "parse_value n (emit (JArr xs) @ r) = Some (JArr xs, r)"
    proof (cases xs)
      case Nil
      then show ?thesis by (simp add: n skip_ws_Cons is_ws_def)
    next
      case (Cons y ys)
      then obtain c s where c: "emit y = c # s" "\<not> is_ws c" "c \<noteq> CHR '']''"
        using sub emit_hd[of y] by auto
      obtain j where j: "join '','' (map emit xs) @ CHR '']'' # r = c # j"
        using Cons c by (cases ys) auto
      have "parse_elems m (c # j) = Some (xs, r)"
        unfolding j [symmetric] by (intro parse_elems_join) (use sub Cons len n in auto)
      then show ?thesis using j c by (simp add: n skip_ws_Cons)
    qed
  qed
next
  case (2 m)
  have sub: "\<forall>kv\<in>set m. reads_back (snd kv) \<and> text_json (snd kv)"
    using 2 by (auto simp: list_all_iff)
  show ?case
    unfolding reads_back_def
  proof (intro allI impI)
    fix n r assume len: "length (emit (JObj m)) \<le> n" and "delim r"
    then obtain n' where n: "n = Suc n'" by (cases n) auto
    show "parse_value n (emit (JObj m) @ r) = Some (JObj m, r)"
    proof (cases m)
      case Nil
      then show ?thesis by (simp add: n skip_ws_Cons is_ws_def)
    next
      case (Cons kv m')
      obtain j where j: "join '','' (map emit_member m) @ CHR ''}'' # r = CHR 0x22 # j"
        using Cons by (cases m') (auto simp: quote_def)
      have "parse_members n' (CHR 0x22 # j) = Some (m, r)"
        unfolding j [symmetric] by (intro parse_members_join) (use sub Cons len n in auto)
      then show ?thesis
        using j mk_obj_sorted[of m] 2 by (simp add: n skip_ws_Cons is_ws_def)
    qed
  qed
qed (auto intro!: atom_reads_back)

section \<open>The fuel is enough\<close>

text \<open>
  Every parser consumes at least one byte, and a successful parse does not depend on the fuel as
  soon as the fuel is at least twice the length of the input: \<open>json_loads\<close> never fails for lack
  of it.
\<close>

lemma length_skip_ws [simp]: "length (skip_ws s) \<le> length s"
  by (simp add: skip_ws_def length_dropWhile_le)

lemma scan_str_shorter: "scan_str s = Some (t, r) \<Longrightarrow> length r < length s"
proof (induction s arbitrary: t r rule: length_induct)
  case (1 s)
  show ?case
  proof (cases s)
    case Nil
    with "1.prems" show ?thesis by simp
  next
    case (Cons c s')
    have IH: "length r' < length x"
      if "scan_str x = Some (t', r')" "length x \<le> length s'" for x t' r'
      using "1.IH" that Cons by auto
    from "1.prems" Cons show ?thesis
      by (auto split: if_splits list.splits option.splits dest!: IH)
  qed
qed

lemma drop_prefix_shorter: "drop_prefix p s = Some r \<Longrightarrow> length r + length p = length s"
  by (induction p s rule: drop_prefix.induct) (auto split: if_splits)

lemma scan_int_shorter: "scan_int s = Some (i, r) \<Longrightarrow> length r < length s"
  by (auto simp: scan_int_def scan_sign_def less_Suc_eq_le
      intro: le_SucI length_dropWhile_le
      split: list.splits if_splits)

lemma scan_frac_le: "length (snd (scan_frac s)) \<le> length s"
  by (auto simp: scan_frac_def intro: le_SucI length_dropWhile_le split: list.splits)

lemma scan_exp_le: "length (snd (scan_exp s)) \<le> length s"
  by (auto simp: scan_exp_def Let_def intro: le_SucI length_dropWhile_le split: list.splits prod.splits)

lemma scan_number_shorter: "scan_number s = Some (v, r) \<Longrightarrow> length r < length s"
  using scan_int_shorter[of s] scan_frac_le scan_exp_le
  by (fastforce simp: scan_number_def Let_def split: option.splits prod.splits if_splits
      dest: le_less_trans)

lemma scan_literal_shorter: "scan_literal s = Some (v, r) \<Longrightarrow> length r < length s"
  using scan_number_shorter[of s]
  by (auto simp: scan_literal_def split: option.splits dest!: drop_prefix_shorter)

lemma skip_ws_Cons_le: "skip_ws s = d # r \<Longrightarrow> length r < length s"
  using length_skip_ws[of s] by simp

lemma parse_shorter_all:
  "(\<forall>s v r. parse_value n s = Some (v, r) \<longrightarrow> length r < length s) \<and>
   (\<forall>s v r. parse_elems n s = Some (v, r) \<longrightarrow> length r < length s) \<and>
   (\<forall>s v r. parse_members n s = Some (v, r) \<longrightarrow> length r < length s)"
proof (induction n)
  case (Suc n)
  have V: "length r < length s" if "parse_value n s = Some (v, r)" for s v r
    using Suc that by blast
  have E: "length r < length s" if "parse_elems n s = Some (v, r)" for s v r
    using Suc that by blast
  have M: "length r < length s" if "parse_members n s = Some (v, r)" for s v r
    using Suc that by blast
  have V': "length r < length s" if "parse_value n (skip_ws s) = Some (v, r)" for s v r
    using V[OF that] length_skip_ws[of s] by linarith
  have E': "length r < length s" if "parse_elems n (skip_ws s) = Some (v, r)" for s v r
    using E[OF that] length_skip_ws[of s] by linarith
  have M': "length r < length s" if "parse_members n (skip_ws s) = Some (v, r)" for s v r
    using M[OF that] length_skip_ws[of s] by linarith
  have "length r < length s" if "parse_value (Suc n) s = Some (v, r)" for s v r
    using that
    by (auto split: list.splits if_splits
        dest!: scan_str_shorter scan_literal_shorter skip_ws_Cons_le E M)
  moreover have "length r < length s" if "parse_elems (Suc n) s = Some (v, r)" for s v r
    using that by (auto split: list.splits if_splits option.splits dest!: V skip_ws_Cons_le E')
  moreover have "length r < length s" if "parse_members (Suc n) s = Some (v, r)" for s v r
    using that
    by (auto split: list.splits if_splits option.splits
        dest!: scan_str_shorter V' skip_ws_Cons_le M')
  ultimately show ?case by blast
qed simp

lemma parse_value_shorter: "parse_value n s = Some (v, r) \<Longrightarrow> length r < length s"
  using parse_shorter_all by blast

lemma parse_stable_all:
  "(\<forall>s v m. parse_value n s = Some v \<longrightarrow> 2 * length s \<le> m \<longrightarrow> parse_value m s = Some v) \<and>
   (\<forall>s v m. parse_elems n s = Some v \<longrightarrow> 2 * length s < m \<longrightarrow> parse_elems m s = Some v) \<and>
   (\<forall>s v m. parse_members n s = Some v \<longrightarrow> 2 * length s < m \<longrightarrow> parse_members m s = Some v)"
proof (induction n)
  case (Suc n)
  have V: "parse_value m s = Some v" if "parse_value n s = Some v" "2 * length s \<le> m" for s v m
    using Suc that by blast
  have E: "parse_elems m s = Some v" if "parse_elems n s = Some v" "2 * length s < m" for s v m
    using Suc that by blast
  have M: "parse_members m s = Some v" if "parse_members n s = Some v" "2 * length s < m" for s v m
    using Suc that by blast
  have "parse_value m s = Some v"
    if p: "parse_value (Suc n) s = Some v" and len: "2 * length s \<le> m" for s v m
  proof (cases s)
    case (Cons c r)
    then obtain m' where m: "m = Suc m'" "2 * length r < m'" using len by (cases m) auto
    have le: "2 * length (d # r1) < m'" if "skip_ws r = d # r1" for d r1
      unfolding that [symmetric] using length_skip_ws[of r] m(2) by linarith
    have EE: "parse_elems m' (d # r1) = Some x"
      if "parse_elems n (d # r1) = Some x" "skip_ws r = d # r1" for d r1 x
      using E[OF that(1)] le[OF that(2)] by blast
    have MM: "parse_members m' (d # r1) = Some x"
      if "parse_members n (d # r1) = Some x" "skip_ws r = d # r1" for d r1 x
      using M[OF that(1)] le[OF that(2)] by blast
    show ?thesis
      using p by (auto simp: Cons m(1) split: list.splits if_splits dest: EE MM)
  qed (use p in simp_all)
  moreover have "parse_elems m s = Some v"
    if p: "parse_elems (Suc n) s = Some v" and len: "2 * length s < m" for s v m
  proof -
    obtain m' where m: "m = Suc m'" "2 * length s \<le> m'" using len by (cases m) auto
    obtain x r where x: "parse_value n s = Some (x, r)" using p by (auto split: option.splits)
    have x': "parse_value m' s = Some (x, r)" using V[OF x m(2)] .
    have le: "2 * length (skip_ws r1) < m'" if "skip_ws r = d # r1" for d r1
      using parse_value_shorter[OF x] skip_ws_Cons_le[OF that] length_skip_ws[of r1] m(2)
      by linarith
    show ?thesis
      using p x x' le by (auto simp: m(1) split: list.splits if_splits intro: E)
  qed
  moreover have "parse_members m s = Some v"
    if p: "parse_members (Suc n) s = Some v" and len: "2 * length s < m" for s v m
  proof -
    obtain m' where m: "m = Suc m'" "2 * length s \<le> m'" using len by (cases m) auto
    obtain r0 k r d r1 x r2 where s: "s = CHR 0x22 # r0" and k: "scan_str r0 = Some (k, r)"
      and d: "skip_ws r = CHR '':'' # r1" and x: "parse_value n (skip_ws r1) = Some (x, r2)"
      using p by (auto split: list.splits option.splits if_splits)
    have l1: "length r1 < length s"
      using scan_str_shorter[OF k] skip_ws_Cons_le[OF d] s by simp
    have l2: "length r2 < length r1"
      using parse_value_shorter[OF x] length_skip_ws[of r1] by linarith
    have x': "parse_value m' (skip_ws r1) = Some (x, r2)"
      using l1 m(2) length_skip_ws[of r1] by (intro V[OF x]) linarith
    have le: "2 * length (skip_ws r3) < m'" if "skip_ws r2 = e # r3" for e r3
      using l1 l2 skip_ws_Cons_le[OF that] length_skip_ws[of r3] m(2) by linarith
    show ?thesis
      using p k d x x' le by (auto simp: s m(1) split: list.splits if_splits intro: M)
  qed
  ultimately show ?case by blast
qed simp

lemma parse_value_stable:
  "parse_value n s = Some v \<Longrightarrow> 2 * length s \<le> m \<Longrightarrow> parse_value m s = Some v"
  using parse_stable_all by blast

section \<open>Loading what was printed\<close>

fun utf8_state_ok :: "utf8_state \<Rightarrow> bool" where
  "utf8_state_ok (k, lo, hi) \<longleftrightarrow> k = 0 \<or> 128 \<le> lo"

lemma utf8_step_ok: "utf8_step st n = Some st' \<Longrightarrow> utf8_state_ok st'"
  by (cases "(st, n)" rule: utf8_step.cases) (auto simp: utf8_start_def split: if_splits)

lemma of_char_char_of_less: "n < 256 \<Longrightarrow> (of_char (char_of n :: char) :: nat) = n"
  by simp

lemma hex_digit_ascii: "d < 16 \<Longrightarrow> (of_char (hex_digit d) :: nat) < 128"
  unfolding hex_digit_def by (cases "d < 10") (simp_all only: if_True if_False of_char_char_of_less)

lemma escape_char_ascii:
  assumes "(of_char c :: nat) < 128"
  shows "list_all (\<lambda>c. (of_char c :: nat) < 128) (escape_char c)"
proof (cases "(of_char c :: nat) < 32")
  case True
  then have "(of_char c :: nat) div 16 < 16" "(of_char c :: nat) mod 16 < 16" by linarith+
  with assms show ?thesis unfolding escape_char_def by (simp add: hex_digit_ascii)
next
  case False
  with assms show ?thesis by (simp add: escape_char_def)
qed

lemma escape_char_high: "128 \<le> (of_char c :: nat) \<Longrightarrow> escape_char c = [c]"
proof -
  assume h: "128 \<le> (of_char c :: nat)"
  then have "c \<notin> {CHR 0x22, CHR 0x5C, CHR 0x08, CHR 0x0C, CHR 0x0A, CHR 0x0D, CHR 0x09}"
    by auto
  moreover have "\<not> (of_char c :: nat) < 32" using h by linarith
  ultimately show ?thesis by (simp add: escape_char_def)
qed

lemma utf8_step_start_ascii: "n < 128 \<Longrightarrow> utf8_step (0, lo, hi) n = Some utf8_start"
  by simp

lemma utf8_run_start_ascii:
  "list_all (\<lambda>c. (of_char c :: nat) < 128) s \<Longrightarrow> utf8_run utf8_start (s @ t) = utf8_run utf8_start t"
proof (induction s)
  case (Cons c s)
  have "utf8_step utf8_start (of_char c) = Some utf8_start"
    unfolding utf8_start_def using Cons.prems
    by (subst utf8_step_start_ascii) (simp_all add: utf8_start_def)
  with Cons show ?case by (simp del: utf8_step.simps)
qed simp

lemma utf8_run_ascii:
  assumes "list_all (\<lambda>c. (of_char c :: nat) < 128) s" "s \<noteq> []"
  shows "utf8_run (0, lo, hi) (s @ t) = utf8_run utf8_start t"
proof -
  obtain c s' where s: "s = c # s'" using assms(2) by (cases s) auto
  with assms(1) show ?thesis
    using utf8_run_start_ascii[of s' t] by (simp add: utf8_step_start_ascii del: utf8_step.simps)
qed

lemma escape_char_not_Nil [simp]: "escape_char c \<noteq> []"
  unfolding escape_char_def by (simp only: split: if_split) simp

lemma utf8_run_escape:
  assumes "utf8_state_ok st"
  shows "utf8_run st (escape_char c @ t) = utf8_run st (c # t)"
proof (cases "(of_char c :: nat) < 128")
  case True
  obtain k lo hi where st: "st = (k, lo, hi)" by (cases st)
  show ?thesis
  proof (cases k)
    case 0
    with True show ?thesis
      using utf8_run_ascii[OF escape_char_ascii[OF True], of lo hi t] by (simp add: st)
  next
    case (Suc k')
    obtain d s where e: "escape_char c = d # s" "(of_char d :: nat) < 128"
      using escape_char_ascii[OF True] by (cases "escape_char c") auto
    with True Suc assms show ?thesis by (simp add: st)
  qed
next
  case False
  then show ?thesis by (simp add: escape_char_high)
qed

lemma utf8_run_escapes:
  "utf8_state_ok st \<Longrightarrow> utf8_run st (concat (map escape_char s)) = utf8_run st s"
proof (induction s arbitrary: st)
  case (Cons c s)
  then show ?case
    by (auto simp: utf8_run_escape split: option.splits dest: utf8_step_ok)
qed simp

lemma valid_utf8_quote: "valid_utf8 s \<Longrightarrow> valid_utf8 (quote s)"
proof -
  assume "valid_utf8 s"
  then have "valid_utf8 (concat (map escape_char s))"
    by (simp add: valid_utf8_def utf8_run_escapes utf8_start_def)
  then show ?thesis
    by (auto simp: quote_def valid_utf8_Cons_ascii intro!: valid_utf8_append)
qed

lemma show_int_ascii: "list_all (\<lambda>c. (of_char c :: nat) < 128) (show_int i)"
proof -
  have "list_all (\<lambda>c. (of_char c :: nat) < 128) (show_nat n)" for n
    using show_nat_digits[of n] by (auto simp: list_all_iff is_digit_def)
  then show ?thesis by (simp add: show_int_def)
qed

lemma valid_utf8_join:
  "valid_utf8 sep \<Longrightarrow> \<forall>s\<in>set ss. valid_utf8 s \<Longrightarrow> valid_utf8 (join sep ss)"
  by (induction sep ss rule: join.induct) (auto intro: valid_utf8_append)

lemma valid_utf8_emit: "text_json v \<Longrightarrow> valid_utf8 (emit v)"
proof (induction v rule: wf_json.induct)
  case (1 xs)
  then show ?case
    by (auto simp: valid_utf8_Cons_ascii list_all_iff intro!: valid_utf8_append valid_utf8_join)
next
  case (2 m)
  then show ?case
    by (auto simp: valid_utf8_Cons_ascii list_all_iff
        intro!: valid_utf8_append valid_utf8_join valid_utf8_quote)
qed (auto intro: valid_utf8_ascii show_int_ascii valid_utf8_quote simp: float_text_def)

theorem json_loads_emit:
  assumes "wf_json v" "text_json v"
  shows "json_loads (emit v) = Inr v"
    and "json_loads (emit v @ [CHR 0x0A]) = Inr v"
proof -
  have nl: "delim [CHR 0x0A]" "skip_ws [CHR 0x0A] = []"
    by (simp_all add: is_digit_def skip_ws_def is_ws_def)
  have nil: "skip_ws [] = []" by (simp add: skip_ws_def)
  have p: "parse_value (2 * length (emit v @ r) + 1) (skip_ws (emit v @ r)) = Some (v, r)"
    if "delim r" for r
  proof -
    have "parse_value (length (emit v)) (emit v @ r) = Some (v, r)"
      using emit_reads_back[OF assms] that by (simp add: reads_back_def)
    then show ?thesis
      unfolding skip_ws_emit[OF assms(2)] by (rule parse_value_stable) simp
  qed
  have u: "valid_utf8 (emit v)" using assms(2) by (rule valid_utf8_emit)
  moreover have "valid_utf8 (emit v @ [CHR 0x0A])"
    using u by (rule valid_utf8_append) (simp add: valid_utf8_Cons_ascii)
  ultimately show "json_loads (emit v) = Inr v" "json_loads (emit v @ [CHR 0x0A]) = Inr v"
    using p[of "[]"] p[of "[CHR 0x0A]"] nl nil
    by (simp_all add: json_loads_def del: parse_value.simps)
qed

corollary emit_inject:
  "\<lbrakk>wf_json v; text_json v; wf_json w; text_json w; emit v = emit w\<rbrakk> \<Longrightarrow> v = w"
  by (metis json_loads_emit(1) sum.inject(2))

end
