(* ===== verification/Canonical.thy ===== *)
theory Canonical
  imports JsonRoundtrip Sha256
begin

text \<open>
  \<open>an_kla/canonical.py\<close>: canonical JSON and content addressing. \<open>canonical_json\<close> prints a value
  with sorted keys, \<open>digest_json\<close> names it by the SHA-256 of that text, \<open>bare_digest\<close> checks an
  identifier, and \<open>exact_sized_payload\<close> looks for a payload that states its own size.

  The locale \<open>content_address\<close> is what the rest of the program relies on: an encoding that is
  injective on the values stored, and identifiers of one fixed shape. Equal identifiers then
  mean equal values or an explicit SHA-256 collision; nothing assumes that there is none.
\<close>

section \<open>Canonical text\<close>

fun sort_keys :: "json \<Rightarrow> json" where
  "sort_keys (JArr xs) = JArr (map sort_keys xs)"
| "sort_keys (JObj m) = JObj (sort_key fst (map (\<lambda>kv. (fst kv, sort_keys (snd kv))) m))"
| "sort_keys v = v"

definition canonical_json :: "json \<Rightarrow> string" where
  "canonical_json v = emit (sort_keys v)"

text \<open>\<open>allow_nan=False\<close>: printing a value that holds a non-finite float raises \<open>ValueError\<close>.\<close>

definition finite_float :: "string \<Rightarrow> bool" where
  "finite_float f \<longleftrightarrow> f \<notin> {''NaN'', ''Infinity'', ''-Infinity''}"

fun dumpable :: "json \<Rightarrow> bool" where
  "dumpable (JFloat f) = finite_float f"
| "dumpable (JArr xs) = list_all dumpable xs"
| "dumpable (JObj m) = list_all (\<lambda>kv. dumpable (snd kv)) m"
| "dumpable _ = True"

definition digest_bytes :: "string \<Rightarrow> string" where
  "digest_bytes payload = ''sha256:'' @ sha256_hex payload"

definition digest_json :: "json \<Rightarrow> string" where
  "digest_json v = digest_bytes (canonical_json v)"

definition bare_digest :: "string \<Rightarrow> string res" where
  "bare_digest identifier =
     (if \<not> prefix ''sha256:'' identifier \<or> code_points identifier \<noteq> 71
      then raise ValueError ''invalid_sha256_identifier''
      else let value = drop 7 identifier in
        if list_ex (\<lambda>c. \<not> is_lower_hex c) value
        then raise ValueError ''invalid_sha256_identifier''
        else Inr value)"

text \<open>\<open>used\<close> is the size written into the payload, \<open>observed\<close> the sizes seen before.\<close>

fun exact_sized_loop :: "(nat \<Rightarrow> json) \<Rightarrow> nat \<Rightarrow> nat \<Rightarrow> nat list \<Rightarrow> (json \<times> nat) res" where
  "exact_sized_loop build 0 used observed = raise ValueError ''payload_size_not_converged''"
| "exact_sized_loop build (Suc n) used observed =
     (let payload = build used; measured = length (canonical_json payload) in
      if measured = used then Inr (payload, measured)
      else if measured \<in> set observed then raise ValueError ''payload_size_not_converged''
      else exact_sized_loop build n measured (measured # observed))"

definition exact_sized_payload :: "(nat \<Rightarrow> json) \<Rightarrow> nat \<Rightarrow> (json \<times> nat) res" where
  "exact_sized_payload build max_iterations = exact_sized_loop build max_iterations 0 []"

section \<open>Canonical text of values in normal form\<close>

text \<open>What the program stores: values in normal form, UTF-8 strings, finite floats.\<close>

definition storable :: "json \<Rightarrow> bool" where
  "storable v \<longleftrightarrow> wf_json v \<and> text_json v"

lemma sort_keys_wf: "wf_json v \<Longrightarrow> sort_keys v = v"
proof (induction v rule: sort_keys.induct)
  case (1 xs)
  then show ?case by (auto simp: list_all_iff map_idI)
next
  case (2 m)
  have "map (\<lambda>kv. (fst kv, sort_keys (snd kv))) m = m"
    using 2 by (auto simp: list_all_iff intro!: map_idI)
  moreover have "sorted (map fst m)"
    using "2.prems" by (simp add: sorted_keys_def strict_sorted_iff)
  ultimately show ?case by (simp add: sorted_sort_id sort_key_id_if_sorted)
qed auto

lemma canonical_json_wf: "wf_json v \<Longrightarrow> canonical_json v = emit v"
  by (simp add: canonical_json_def sort_keys_wf)

lemma text_json_dumpable: "text_json v \<Longrightarrow> dumpable v"
proof (induction v rule: dumpable.induct)
  case (1 f)
  then show ?case
    using float_text_hd[of f]
    by (auto simp: finite_float_def float_text_def starts_number_def is_digit_def
        scan_number_def scan_int_def scan_sign_def)
qed (auto simp: list_all_iff)

lemma canonical_json_loads: "storable v \<Longrightarrow> json_loads (canonical_json v) = Inr v"
  by (simp add: storable_def canonical_json_wf json_loads_emit)

lemma canonical_json_line_loads: "storable v \<Longrightarrow> json_loads (canonical_json v @ [CHR 0x0A]) = Inr v"
  by (simp add: storable_def canonical_json_wf json_loads_emit)

lemma canonical_json_inject:
  "\<lbrakk>storable v; storable w; canonical_json v = canonical_json w\<rbrakk> \<Longrightarrow> v = w"
  by (metis canonical_json_loads sum.inject(2))

section \<open>Identifiers\<close>

definition digest_shape :: "string \<Rightarrow> bool" where
  "digest_shape s \<longleftrightarrow> prefix ''sha256:'' s \<and> length s = 71 \<and> list_all is_lower_hex (drop 7 s)"

lemma lower_hex_code_points: "list_all is_lower_hex s \<Longrightarrow> code_points s = length s"
proof (induction s)
  case (Cons c s)
  then have "(of_char c :: nat) div 64 \<noteq> 2"
    by (auto simp: is_lower_hex_def is_digit_def)
  with Cons show ?case by (simp add: code_points_def)
qed (simp add: code_points_def)

lemma code_points_append: "code_points (s @ t) = code_points s + code_points t"
  by (simp add: code_points_def)

lemma digest_shape_digest_bytes [simp]: "digest_shape (digest_bytes p)"
  by (simp add: digest_shape_def digest_bytes_def)

lemma digest_shape_digest_json [simp]: "digest_shape (digest_json v)"
  by (simp add: digest_json_def)

lemma bare_digest_Inr_iff: "bare_digest s = Inr v \<longleftrightarrow> digest_shape s \<and> v = drop 7 s"
proof (cases "prefix ''sha256:'' s \<and> list_all is_lower_hex (drop 7 s)")
  case True
  then obtain t where s: "s = ''sha256:'' @ t" and t: "list_all is_lower_hex t"
    by (auto simp: prefix_def)
  then have "code_points s = 7 + length t"
    by (simp only: code_points_append lower_hex_code_points) (simp add: code_points_def)
  moreover have "\<not> list_ex (\<lambda>c. \<not> is_lower_hex c) t"
    using t by (simp add: list_all_iff list_ex_iff)
  ultimately show ?thesis
    using True s by (auto simp: bare_digest_def digest_shape_def)
next
  case False
  then show ?thesis
    by (auto simp: bare_digest_def digest_shape_def Let_def list_all_iff list_ex_iff
        split: if_splits)
qed

lemma bare_digest_Inl: "\<not> digest_shape s \<Longrightarrow> bare_digest s = raise ValueError ''invalid_sha256_identifier''"
proof (cases "bare_digest s")
  case (Inl e)
  then show ?thesis by (auto simp: bare_digest_def Let_def split: if_splits)
qed (simp add: bare_digest_Inr_iff)

lemma bare_digest_digest_json [simp]: "bare_digest (digest_json v) = Inr (drop 7 (digest_json v))"
  by (simp add: bare_digest_Inr_iff)

lemma bare_digest_digest_bytes [simp]: "bare_digest (digest_bytes p) = Inr (sha256_hex p)"
  by (simp add: bare_digest_Inr_iff) (simp add: digest_bytes_def)

lemma digest_shape_split: "digest_shape s \<Longrightarrow> ''sha256:'' @ drop 7 s = s"
  by (auto simp: digest_shape_def prefix_def)

lemma storable_mk_obj [intro]:
  assumes "\<forall>(k, v)\<in>set kvs. valid_utf8 k \<and> storable v"
  shows "storable (mk_obj kvs)"
proof -
  have "set (puts kvs m) \<subseteq> set kvs \<union> set m" for kvs and m :: "(string \<times> json) list"
  proof (induction kvs m rule: puts.induct)
    case (2 k v kvs m)
    then show ?case using set_put_subset[of k v m] by auto
  qed simp
  then have sub: "set (puts kvs []) \<subseteq> set kvs" by force
  have "wf_json (mk_obj kvs)" using assms by (intro wf_json_mk_obj) (auto simp: storable_def)
  moreover have "text_json (mk_obj kvs)"
    using assms sub unfolding mk_obj_def by (fastforce simp: list_all_iff storable_def)
  ultimately show ?thesis by (simp add: storable_def)
qed

lemma storable_simps [simp]:
  "storable JNull" "storable (JBool b)" "storable (JInt i)"
  "storable (JStr s) \<longleftrightarrow> valid_utf8 s"
  "storable (JArr xs) \<longleftrightarrow> (\<forall>x\<in>set xs. storable x)"
  by (auto simp: storable_def list_all_iff)

lemma valid_utf8_lower_hex: "list_all is_lower_hex s \<Longrightarrow> valid_utf8 s"
  by (rule valid_utf8_ascii) (auto simp: list_all_iff is_lower_hex_def is_digit_def)

lemma valid_utf8_digest [simp]: "digest_shape s \<Longrightarrow> valid_utf8 s"
  using digest_shape_split[of s] valid_utf8_append[of "''sha256:''" "drop 7 s"]
  by (auto simp: digest_shape_def valid_utf8_lower_hex valid_utf8_ascii)

lemma storable_get [intro]: "storable v \<Longrightarrow> storable (get k v)"
proof (cases v)
  case (JObj m)
  assume "storable v"
  then have "\<forall>(k, x)\<in>set m. storable x" using JObj by (auto simp: storable_def list_all_iff)
  then show ?thesis using JObj
    by (auto simp: get_def split: option.splits dest!: map_of_SomeD)
qed (simp_all add: get_def)

definition collision :: "string \<Rightarrow> string \<Rightarrow> bool" where
  "collision x y \<longleftrightarrow> x \<noteq> y \<and> sha256_hex x = sha256_hex y"

lemma digest_bytes_eq: "digest_bytes x = digest_bytes y \<longleftrightarrow> x = y \<or> collision x y"
  by (auto simp: digest_bytes_def collision_def)

section \<open>Content addressing as an interface\<close>

locale content_address =
  fixes encode :: "'v \<Rightarrow> string" and decode :: "string \<Rightarrow> 'v res" and good :: "'v \<Rightarrow> bool"
  assumes decode_encode: "good v \<Longrightarrow> decode (encode v) = Inr v"
begin

definition address :: "'v \<Rightarrow> string" where
  "address v = digest_bytes (encode v)"

lemma encode_inject: "\<lbrakk>good v; good w; encode v = encode w\<rbrakk> \<Longrightarrow> v = w"
  by (metis decode_encode sum.inject(2))

lemma address_inject:
  "\<lbrakk>good v; good w; address v = address w\<rbrakk> \<Longrightarrow> v = w \<or> collision (encode v) (encode w)"
  using encode_inject by (auto simp: address_def digest_bytes_eq)

lemma address_shape: "digest_shape (address v)"
  by (simp add: address_def)

lemma tampering_collides:
  "\<lbrakk>digest_bytes payload = address v; payload \<noteq> encode v\<rbrakk> \<Longrightarrow> collision payload (encode v)"
  by (auto simp: address_def digest_bytes_eq)

end

interpretation json_address: content_address canonical_json json_loads storable
  by unfold_locales (rule canonical_json_loads)

lemma digest_json_address: "digest_json v = json_address.address v"
  by (simp add: digest_json_def json_address.address_def)

lemma digest_json_inject:
  "\<lbrakk>storable v; storable w; digest_json v = digest_json w\<rbrakk>
   \<Longrightarrow> v = w \<or> collision (canonical_json v) (canonical_json w)"
  unfolding digest_json_address by (rule json_address.address_inject)

section \<open>A payload that states its own size\<close>

lemma exact_sized_loop_correct:
  "exact_sized_loop build n used observed = Inr (payload, measured) \<Longrightarrow>
   payload = build measured \<and> measured = length (canonical_json payload)"
proof (induction build n used observed rule: exact_sized_loop.induct)
  case (2 build n used observed)
  let ?m = "length (canonical_json (build used))"
  show ?case
  proof (cases "?m = used")
    case True
    with "2.prems" have eqs: "payload = build used" "measured = used"
      by (auto simp: Let_def)
    show ?thesis unfolding eqs using True by simp
  next
    case False
    with "2.prems" have "?m \<notin> set observed"
      and "exact_sized_loop build n ?m (?m # observed) = Inr (payload, measured)"
      by (simp_all add: Let_def split: if_splits)
    with "2.IH"[OF refl refl False] show ?thesis by blast
  qed
qed simp

end
