(* ===== verification/Immutable.thy ===== *)
theory Immutable
  imports Storage Canonical
begin

text \<open>
  The write-once files of the store: \<open>write_immutable\<close> of \<open>storage_primitives.py\<close>, which creates
  the file of an object, leaves it alone when it is already there and quarantines a file with
  other bytes; and \<open>sync_protected\<close>, which flushes and checks the files a receipt names.
\<close>

section \<open>Steps of the quarantine\<close>

context step_relation
begin

lemma keeps_quarantine_conflict:
  assumes "\<And>s. R s (remove_file target s)"
    and "\<And>s b u. R s (store_file (''quarantine/'' @ u) b s)"
  shows "keeps (quarantine_conflict target)"
  unfolding quarantine_conflict_def
  by (intro keeps_rules keeps_effect keeps_replace_file assms)

lemma keeps_settle_existing:
  assumes "\<And>s. R s (remove_file target s)"
    and "\<And>s b u. R s (store_file (''quarantine/'' @ u) b s)"
  shows "keeps (settle_existing target payload)"
  unfolding settle_existing_def
  by (intro keeps_rules keeps_quarantine_conflict assms)

lemma keeps_immutable_prepare:
  assumes "\<And>s. R s (remove_file target s)"
    and "\<And>s b u. R s (store_file (''quarantine/'' @ u) b s)"
  shows "keeps (immutable_prepare target payload)"
  unfolding immutable_prepare_def
  by (intro keeps_rules keeps_settle_existing assms)

lemma keeps_immutable_fill:
  assumes "\<And>s b. R s (store_file target b s)"
  shows "keeps (immutable_fill target payload)"
  unfolding immutable_fill_def
  by (intro keeps_rules keeps_write_loop keeps_append_file assms)

end

lemma under_quarantine [simp]: "under ''quarantine'' (''quarantine/'' @ n)"
  by (simp add: under_def)

lemma call_cases:
  "call e (\<lambda>s. (g s, s)) s = (r, t) \<Longrightarrow>
   \<exists>s'. (\<forall>p. bytes_at p s' = bytes_at p s) \<and> (r = Inl e \<and> t = s' \<or> r = Inr (g s') \<and> t = s')"
  by (rule exI[of _ "snd (pop s)"])
    (auto simp: call_def split: fate.splits prod.splits)

lemma next_uuid_no_slash: "CHR ''/'' \<notin> set (next_uuid s)"
  by (simp add: next_uuid_def hex32_no_slash)

lemma quarantine_conflict_moves:
  assumes run: "quarantine_conflict target s = (Inr u, t)"
  shows "bytes_at target t = None"
proof -
  obtain r1 s1 where a: "effect raw_os_error id s = (r1, s1)" by fastforce
  with run have r1: "r1 = Inr ()" by (auto simp: quarantine_conflict_def bind_io_def split: sum.splits)
  let ?n = "''quarantine/'' @ next_uuid s1 @ ''-'' @ base_name target"
  obtain r2 s2 where b: "effect raw_os_error (replace_file target ?n) (advance s1) = (r2, s2)" by fastforce
  have r2: "r2 = Inr ()" and f: "fsync_directory ''quarantine'' s2 = (Inr u, t)"
    using run a r1 b
    by (auto simp: quarantine_conflict_def bind_io_def asks_def draw_uuid_def
        split: sum.splits if_splits prod.splits)
  obtain s3 where s3: "s2 = replace_file target ?n s3" using effect_cases[OF b] r2 by blast
  have "?n \<noteq> target" using quarantine_not_target[OF next_uuid_no_slash] by blast
  then have "bytes_at target s2 = None"
    using s3 by (auto simp: replace_file_bytes split: option.splits)
  then show ?thesis using fsync_directory_spec[OF f] by simp
qed

lemma settle_existing_spec:
  assumes run: "settle_existing target payload s = (Inr found, t)"
  shows "bytes_at target t = (if found then Some payload else None)"
proof -
  obtain r1 s1 where a: "call (storage_error ''immutable_read_failed'') (\<lambda>s. (bytes_at target s, s)) s = (r1, s1)"
    by fastforce
  then show ?thesis
    using run call_cases[OF a]
    by (auto simp: settle_existing_def bind_io_def ret_def split: sum.splits prod.splits if_splits
        dest: quarantine_conflict_moves)
qed

lemma immutable_prepare_spec:
  assumes run: "immutable_prepare target payload s = (Inr found, t)"
  shows "bytes_at target t = (if found then Some payload else None)"
proof -
  obtain r1 s1 where a: "effect (storage_error ''immutable_parent_or_stat_failed'') id s = (r1, s1)"
    by fastforce
  obtain r2 s2 where b: "call (storage_error ''immutable_parent_or_stat_failed'')
      (\<lambda>s. (bytes_at target s \<noteq> None, s)) s1 = (r2, s2)" by fastforce
  show ?thesis
    using run a b call_cases[OF b]
    by (auto simp: immutable_prepare_def bind_io_def ret_def split: sum.splits prod.splits if_splits
        dest: settle_existing_spec)
qed

lemma onward_prepare: "immutable_prepare target payload s = (r, t) \<Longrightarrow> onward s t"
  by (rule onward.keepsD[OF onward.keeps_immutable_prepare]) simp_all

lemma onward_settle: "settle_existing target payload s = (r, t) \<Longrightarrow> onward s t"
  by (rule onward.keepsD[OF onward.keeps_settle_existing]) simp_all

text \<open>An exclusive open of a missing file finds it there only when an intruder created it.\<close>

lemma open_exclusive_raced:
  "open_exclusive p e s = (Inr False, t) \<Longrightarrow> bytes_at p s = None \<Longrightarrow> length (fates t) < length (fates s)"
  by (auto simp: open_exclusive_def pop_def Let_def bytes_at_def store_file_def
      split: list.splits fate.splits option.splits if_splits)

section \<open>write_immutable\<close>

text \<open>
  The recursion after a lost race ends: the file that won was created by an intruder, which
  consumes an entry of the oracle, because the preparation leaves no file at the target.
\<close>

lemma race_consumes:
  assumes "immutable_prepare target payload s = (Inr False, t)"
    and "open_exclusive target e t = (Inr False, u)"
    and "settle_existing target payload u = (r, v)"
  shows "length (fates v) < length (fates s)"
  using onward_prepare[OF assms(1)] onward_settle[OF assms(3)]
    open_exclusive_raced[OF assms(2)] immutable_prepare_spec[OF assms(1)]
  by (simp add: onward_def)

function write_immutable :: "string \<Rightarrow> string \<Rightarrow> unit io" where
  "write_immutable target payload s =
     (case immutable_prepare target payload s of
        (Inl e, t) \<Rightarrow> (Inl e, t)
      | (Inr True, t) \<Rightarrow> (Inr (), t)
      | (Inr False, t) \<Rightarrow>
          (case open_exclusive target (storage_error ''immutable_open_failed'') t of
             (Inl e, u) \<Rightarrow> (Inl e, u)
           | (Inr True, u) \<Rightarrow> immutable_fill target payload u
           | (Inr False, u) \<Rightarrow>
               (case settle_existing target payload u of
                  (Inl e, v) \<Rightarrow> (Inl e, v)
                | (Inr True, v) \<Rightarrow> (Inr (), v)
                | (Inr False, v) \<Rightarrow> write_immutable target payload v)))"
  by pat_completeness auto
termination
  by (relation "measure (\<lambda>(_, _, s). length (fates s))") (auto dest!: race_consumes[OF sym sym sym])

declare write_immutable.simps [simp del]

lemma immutable_fill_spec:
  assumes run: "immutable_fill target payload s = (Inr u, t)" and empty: "bytes_at target s = Some []"
  shows "bytes_at target t = Some payload"
proof -
  obtain r1 s1 where w: "write_loop target (storage_error ''immutable_write_failed'') payload s = (r1, s1)"
    by fastforce
  show ?thesis
    using run w write_loop_spec[OF w empty]
    by (auto simp: immutable_fill_def finally_io_def bind_io_def
        split: prod.splits sum.splits dest!: close_after_cases effect_cases fsync_directory_spec)
qed

lemma write_immutable_written:
  "write_immutable target payload s = (Inr v, t) \<Longrightarrow> bytes_at target t = Some payload"
proof (induction target payload s arbitrary: t rule: write_immutable.induct)
  case (1 target payload s)
  obtain r1 s1 where a: "immutable_prepare target payload s = (r1, s1)" by fastforce
  obtain r2 s2 where b: "open_exclusive target (storage_error ''immutable_open_failed'') s1 = (r2, s2)"
    by fastforce
  obtain r3 s3 where c: "settle_existing target payload s2 = (r3, s3)" by fastforce
  have run: "write_immutable target payload s = (Inr v, t)" by (rule "1.prems")
  consider "r1 = Inr True" | "r1 = Inr False" "r2 = Inr True"
    | "r1 = Inr False" "r2 = Inr False" "r3 = Inr True"
    | "r1 = Inr False" "r2 = Inr False" "r3 = Inr False"
    using run a b c by (auto simp: write_immutable.simps[of target payload s] split: sum.splits bool.splits)
  then show ?case
  proof cases
    case 1
    then show ?thesis
      using run a immutable_prepare_spec[of target payload s True s1]
      by (simp add: write_immutable.simps[of target payload s])
  next
    case 2
    then have "immutable_fill target payload s2 = (Inr v, t)"
      using run a b by (simp add: write_immutable.simps[of target payload s])
    then show ?thesis using immutable_fill_spec open_exclusive_spec[OF b] 2 by auto
  next
    case 3
    then show ?thesis
      using run a b c settle_existing_spec[of target payload s2 True s3]
      by (simp add: write_immutable.simps[of target payload s])
  next
    case 4
    then have "write_immutable target payload s3 = (Inr v, t)"
      using run a b c by (simp add: write_immutable.simps[of target payload s])
    then show ?thesis using "1.IH" a b c 4 by metis
  qed
qed

lemma write_immutable_settled:
  assumes run: "write_immutable target payload s = (r, t)" and there: "bytes_at target s = Some payload"
  shows "\<forall>p. bytes_at p t = bytes_at p s"
proof -
  obtain r1 s1 where a: "effect (storage_error ''immutable_parent_or_stat_failed'') id s = (r1, s1)"
    by fastforce
  obtain r2 s2 where b: "call (storage_error ''immutable_parent_or_stat_failed'')
      (\<lambda>s. (bytes_at target s \<noteq> None, s)) s1 = (r2, s2)" by fastforce
  obtain r3 s3 where c: "call (storage_error ''immutable_read_failed'') (\<lambda>s. (bytes_at target s, s)) s2 = (r3, s3)"
    by fastforce
  from effect_cases[OF a] call_cases[OF b] call_cases[OF c] there show ?thesis
    using run a b c
    by (auto simp: write_immutable.simps[of target payload s] immutable_prepare_def settle_existing_def
        bind_io_def ret_def)
qed

context step_relation
begin

lemma keeps_write_immutable:
  assumes allow: "\<And>s b. R s (store_file target b s)" "\<And>s. R s (remove_file target s)"
    "\<And>s b u. R s (store_file (''quarantine/'' @ u) b s)"
  shows "keeps (write_immutable target payload)"
proof (rule keepsI)
  fix s r t show "write_immutable target payload s = (r, t) \<Longrightarrow> R s t"
    using allow
  proof (induction target payload s arbitrary: r t rule: write_immutable.induct)
    case (1 target payload s)
    note allow = "1.prems"(2-4)
    obtain r1 s1 where a: "immutable_prepare target payload s = (r1, s1)" by fastforce
    obtain r2 s2 where b: "open_exclusive target (storage_error ''immutable_open_failed'') s1 = (r2, s2)"
      by fastforce
    obtain r3 s3 where c: "settle_existing target payload s2 = (r3, s3)" by fastforce
    obtain r4 s4 where d: "immutable_fill target payload s2 = (r4, s4)" by fastforce
    have s1: "R s s1" using a by (rule keepsD[OF keeps_immutable_prepare, rotated -1]) (rule allow)+
    have "R s1 s2" using b by (rule keepsD[OF keeps_open_exclusive, rotated -1]) (rule allow)
    with s1 have s2: "R s s2" by (rule chains)
    have "R s2 s3" using c by (rule keepsD[OF keeps_settle_existing, rotated -1]) (rule allow)+
    with s2 have s3: "R s s3" by (rule chains)
    have "R s2 s4" using d by (rule keepsD[OF keeps_immutable_fill, rotated -1]) (rule allow)
    with s2 have s4: "R s s4" by (rule chains)
    consider "t = s1" | "t = s2" | "t = s3" | "t = s4"
      | "r1 = Inr False" "r2 = Inr False" "r3 = Inr False" "write_immutable target payload s3 = (r, t)"
      using "1.prems"(1) a b c d
      by (auto simp: write_immutable.simps[of target payload s] split: sum.splits bool.splits)
    then show ?case
    proof cases
      case 5
      then have "R s3 t" using "1.IH" a b c allow by metis
      with s3 show ?thesis by (rule chains)
    qed (use s1 s2 s3 s4 in simp_all)
  qed
qed

end

text \<open>C11: An immutable write that reports success has stored exactly its payload, whatever calls
  failed or raced before; it never touches a file other than its target and the quarantine; and
  when the target already holds the payload, no file changes at all.\<close>

theorem write_immutable_once:
  "case write_immutable target payload s of (r, t) \<Rightarrow>
    same_on (\<lambda>q. q \<noteq> target \<and> \<not> under ''quarantine'' q) s t \<and>
    (case r of Inr _ \<Rightarrow> bytes_at target t = Some payload | Inl _ \<Rightarrow> True) \<and>
    (if bytes_at target s = Some payload then same_on (\<lambda>_. True) s t else True)"
proof (cases "write_immutable target payload s")
  case (Pair r t)
  have "same_on (\<lambda>q. q \<noteq> target \<and> \<not> under ''quarantine'' q) s t"
    by (rule same.keepsD[OF same.keeps_write_immutable Pair]) (auto simp: same_on_def under_def)
  then show ?thesis
    using write_immutable_settled[OF Pair] write_immutable_written[of target payload s _ t] Pair
    by (auto simp: same_on_def split: sum.splits)
qed

section \<open>sync_protected\<close>

text \<open>One entry of the protected list of a receipt; its path is relative to the memory root and
  has been checked to be normal.\<close>

definition sync_item :: "json \<Rightarrow> unit io" where
  "sync_item item =
     (let target = str_of (get ''path'' item) in
      if get ''operation'' item = JStr ''file_fsync'' then
        bind_io (fsync_file target)
          (\<lambda>_. bind_io (call (storage_error ''receipt_protected_read_failed'') (\<lambda>s. (bytes_at target s, s)))
            (\<lambda>content. lift (case content of
                None \<Rightarrow> Inl (storage_error ''receipt_protected_read_failed'')
              | Some bytes \<Rightarrow>
                  ensure (JStr (digest_bytes bytes) = get ''content_sha256'' item)
                    (storage_error ''receipt_protected_hash_mismatch''))))
      else fsync_directory target)"

definition sync_protected :: "json list \<Rightarrow> unit io" where
  "sync_protected protected = each_io sync_item protected"

context step_relation
begin

lemma keeps_sync_protected [keeps_rules]: "keeps (sync_protected items)"
  unfolding sync_protected_def sync_item_def Let_def by (intro keeps_rules)

end

definition protects :: "os \<Rightarrow> json \<Rightarrow> bool" where
  "protects s item \<longleftrightarrow>
     (case bytes_at (str_of (get ''path'' item)) s of
        Some bytes \<Rightarrow> get ''content_sha256'' item = JStr (digest_bytes bytes) | None \<Rightarrow> False)"

definition is_protected_file :: "json \<Rightarrow> bool" where
  "is_protected_file item \<longleftrightarrow> get ''operation'' item = JStr ''file_fsync''"

lemma sync_item_spec:
  assumes run: "sync_item item s = (Inr u, t)" and item: "is_protected_file item"
  shows "protects t item"
proof -
  let ?p = "str_of (get ''path'' item)"
  obtain r1 s1 where a: "fsync_file ?p s = (r1, s1)" by fastforce
  obtain r2 s2 where b: "call (storage_error ''receipt_protected_read_failed'')
      (\<lambda>s. (bytes_at ?p s, s)) s1 = (r2, s2)" by fastforce
  show ?thesis
    using run item a b call_cases[OF b]
    by (auto simp: sync_item_def is_protected_file_def bind_io_def lift_def protects_def Let_def
        split: sum.splits option.splits)
qed

lemma sync_item_same: "sync_item item s = (r, t) \<Longrightarrow> same_on (\<lambda>_. True) s t"
  by (rule same.keepsD[of _ "sync_item item"], unfold sync_item_def Let_def)
    (intro same.keeps_bind same.keeps_if same.keeps_fsync_file same.keeps_fsync_directory
      same.keeps_attempt same.keeps_readers)

lemma sync_protected_spec:
  "sync_protected items s = (Inr u, t) \<Longrightarrow>
   same_on (\<lambda>_. True) s t \<and> list_all (protects t) (filter is_protected_file items)"
proof (induction items arbitrary: s)
  case Nil
  then show ?case by (simp add: sync_protected_def ret_def same_on_def)
next
  case (Cons item items)
  obtain r1 s1 where a: "sync_item item s = (r1, s1)" by fastforce
  have r1: "r1 = Inr ()" and rest: "sync_protected items s1 = (Inr u, t)"
    using Cons.prems a by (auto simp: sync_protected_def bind_io_def split: sum.splits)
  note step = sync_item_same[OF a] and tail = Cons.IH[OF rest]
  have "protects t item" if "is_protected_file item"
    using sync_item_spec[of item s "()" s1] a r1 that tail by (simp add: protects_def same_on_def)
  with step tail show ?case by (simp add: same_on_def)
qed

text \<open>The flush before a receipt writes nothing, and when it succeeds every protected file
  exists and its bytes have the digest the receipt is about to state.\<close>

theorem sync_protected_checks:
  "case sync_protected items s of (r, t) \<Rightarrow>
    same_on (\<lambda>_. True) s t \<and>
    (case r of Inr _ \<Rightarrow> list_all (protects t) (filter is_protected_file items) | Inl _ \<Rightarrow> True)"
proof (cases "sync_protected items s")
  case (Pair r t)
  have "same_on (\<lambda>_. True) s t" by (rule same.keepsD[OF same.keeps_sync_protected Pair])
  with Pair show ?thesis
    using sync_protected_spec[of items s _ t] by (auto split: sum.splits)
qed

section \<open>Calm runs\<close>

text \<open>With nothing left in the oracle every call succeeds, and the writes can be computed.\<close>

definition calm :: "os \<Rightarrow> bool" where
  "calm s \<longleftrightarrow> fates s = []"

lemma calm_pop: "calm s \<Longrightarrow> pop s = (Succeeds, s)"
  by (simp add: calm_def pop_def)

lemma calm_steps [simp]:
  "calm (store_file p b s) = calm s" "calm (remove_file p s) = calm s" "calm (advance s) = calm s"
  "calm (append_file p b s) = calm s" "calm (replace_file p q s) = calm s"
  by (auto simp: calm_def store_file_def remove_file_def advance_def append_file_def replace_file_def
      split: option.splits)

lemma calm_calls [io_simps]:
  "calm s \<Longrightarrow> effect e f s = (Inr (), f s)"
  "calm s \<Longrightarrow> call e g s = (Inr (fst (g s)), snd (g s))"
  "calm s \<Longrightarrow> close_after code r s = (r, s)"
  by (simp_all add: effect_def call_def close_after_def calm_pop case_prod_beta)

lemma calm_fsync_directory [io_simps]: "calm s \<Longrightarrow> fsync_directory d s = (Inr (), s)"
  by (simp add: fsync_directory_def bind_io_def asks_def ret_def finally_io_def io_simps)

lemma calm_write_loop [io_simps]:
  "calm s \<Longrightarrow> write_loop p e view s = (Inr (), if view = [] then s else append_file p view s)"
  by (simp add: write_loop.simps[of p e view] calm_pop accepted_def)

lemma calm_open_exclusive [io_simps]:
  "calm s \<Longrightarrow> bytes_at p s = None \<Longrightarrow> open_exclusive p e s = (Inr True, store_file p [] s)"
  by (simp add: open_exclusive_def calm_pop)

lemma calm_write_immutable:
  assumes "calm s" and "bytes_at target s = None \<or> bytes_at target s = Some payload"
  shows "\<exists>t. write_immutable target payload s = (Inr (), t) \<and> calm t"
  using assms
  by (auto simp: write_immutable.simps[of target payload s] immutable_prepare_def settle_existing_def
      immutable_fill_def bind_io_def ret_def finally_io_def io_simps)

text \<open>A calm atomic write succeeds unless the name of its temporary file is taken.\<close>

lemma calm_atomic_write:
  assumes "calm s" and "bytes_at (temporary_name target (next_uuid s)) s = None"
  shows "\<exists>t. atomic_write target payload s = (Inr (), t) \<and> calm t \<and> bytes_at target t = Some payload"
proof -
  let ?p = "temporary_name target (next_uuid s)"
  have ne: "?p \<noteq> target" by (rule temporary_not_target)
  show ?thesis
    using assms ne
    by (auto simp: atomic_write_def atomic_body_def atomic_cleanup_def write_temporary_def Let_def
        bind_io_def ret_def draw_uuid_def finally_io_def lift_def io_simps calm_pop replace_file_bytes)
qed

definition blank :: "bool \<Rightarrow> os" where
  "blank flushes = \<lparr>files = [], fates = [], posix = flushes, uuids = (\<lambda>n. word_of_nat n), drawn = 0, diverted = False,
     is_nfc = (\<lambda>_. True)\<rparr>"

lemma blank_simps [simp]: "calm (blank b)" "bytes_at p (blank b) = None"
  by (simp_all add: calm_def blank_def bytes_at_def)

end
