(* ===== verification/ObjectStore.thy ===== *)
theory ObjectStore
  imports Immutable
begin

text \<open>
  The object operations of \<open>store.py\<close> on the files below the memory root: \<open>CURRENT\<close>, the
  content-addressed JSON objects, the JSONL segments, the transaction journal. A read does not
  fail except for a missing file; the operations that wrap a read error with a code of their own
  model it (see Storage).

  The locale \<open>content_store\<close> is the interface the rest of the store relies on: bytes put under
  their digest read back, and no later write changes what an identifier holds, unless the two
  byte strings are an explicit SHA-256 collision.
\<close>

section \<open>CURRENT\<close>

definition current_path :: string where
  "current_path = ''refs/CURRENT''"

definition newline :: char where
  "newline = CHR 0x0A"

definition is_ascii :: "char \<Rightarrow> bool" where
  "is_ascii c \<longleftrightarrow> (of_char c :: nat) < 128"

definition read_current :: "os \<Rightarrow> string res" where
  "read_current s =
     (if diverted s then raise CustodyError ''store_root_divergence''
      else case bytes_at current_path s of
        None \<Rightarrow> raise IntegrityError ''current_missing''
      | Some raw \<Rightarrow>
          if length raw \<noteq> 72 \<or> last raw \<noteq> newline then raise IntegrityError ''current_invalid_length''
          else if list_all is_ascii (butlast raw) \<and> succeeds (bare_digest (butlast raw))
            then Inr (butlast raw)
            else raise IntegrityError ''current_invalid_syntax'')"

definition replace_current :: "string \<Rightarrow> unit io" where
  "replace_current identifier =
     bind_io (lift (bare_digest identifier))
       (\<lambda>_. atomic_write current_path (identifier @ [newline]))"

section \<open>Content-addressed objects\<close>

definition path_for :: "string \<Rightarrow> string \<Rightarrow> string \<Rightarrow> string res" where
  "path_for kind identifier ext =
     andthen (bare_digest identifier) (\<lambda>bare. Inr (kind @ ''/sha256/'' @ bare @ ext))"

text \<open>Writing bytes under their digest: what \<open>_write_json_object\<close> and \<open>_write_segment\<close> share.\<close>

definition put_bytes :: "string \<Rightarrow> string \<Rightarrow> string \<Rightarrow> string io" where
  "put_bytes kind ext payload =
     bind_io (lift (path_for kind (digest_bytes payload) ext))
       (\<lambda>path. bind_io (write_immutable path payload) (\<lambda>_. ret (digest_bytes payload)))"

definition get_bytes :: "string \<Rightarrow> string \<Rightarrow> string \<Rightarrow> os \<Rightarrow> string option res" where
  "get_bytes kind ext identifier s =
     andthen (path_for kind identifier ext) (\<lambda>path. Inr (bytes_at path s))"

text \<open>\<open>canonical_json\<close> raises \<open>ValueError\<close> for a non-finite float.\<close>

definition dump :: "json \<Rightarrow> string res" where
  "dump v = (if dumpable v then Inr (canonical_json v)
             else raise ValueError ''Out of range float values are not JSON compliant'')"

definition write_json_object :: "string \<Rightarrow> json \<Rightarrow> string io" where
  "write_json_object kind value =
     bind_io (lift (dump value)) (\<lambda>payload. put_bytes kind ''.json'' payload)"

definition read_json_object :: "string \<Rightarrow> string \<Rightarrow> os \<Rightarrow> json res" where
  "read_json_object kind identifier s =
     andthen (get_bytes kind ''.json'' identifier s) (\<lambda>found.
       case found of
         None \<Rightarrow> raise IntegrityError (''object_missing:'' @ kind)
       | Some payload \<Rightarrow>
           if digest_bytes payload \<noteq> identifier
           then raise IntegrityError (''object_hash_mismatch:'' @ kind)
           else
             andthen (except_as (\<lambda>e. exn_class e = JSONDecodeError)
                 (Exn IntegrityError (''object_json_invalid:'' @ kind) None) (json_loads payload))
               (\<lambda>value. andthen (dump value) (\<lambda>text.
                  if text \<noteq> payload then raise IntegrityError (''object_not_canonical:'' @ kind)
                  else Inr value)))"

section \<open>Segments\<close>

text \<open>
  \<open>str.splitlines\<close> on the UTF-8 bytes: besides the newline it breaks at carriage return (and
  the pair), vertical tab, form feed, the separators 0x1C to 0x1E, U+0085, U+2028 and U+2029.
  \<open>line_break s\<close> is the length of the boundary at the start of \<open>s\<close>.
\<close>

definition line_breaks :: "string list" where
  "line_breaks =
     [[CHR 0x0D, CHR 0x0A], [CHR 0x0D], [CHR 0x0A], [CHR 0x0B], [CHR 0x0C], [CHR 0x1C], [CHR 0x1D],
      [CHR 0x1E], [CHR 0xC2, CHR 0x85], [CHR 0xE2, CHR 0x80, CHR 0xA8], [CHR 0xE2, CHR 0x80, CHR 0xA9]]"

definition line_break :: "string \<Rightarrow> nat" where
  "line_break s = (case find (\<lambda>b. prefix b s) line_breaks of None \<Rightarrow> 0 | Some b \<Rightarrow> length b)"

function split_lines :: "string \<Rightarrow> string \<Rightarrow> string list" where
  "split_lines line [] = (if line = [] then [] else [rev line])"
| "split_lines line (c # r) =
     (if line_break (c # r) = 0 then split_lines (c # line) r
      else rev line # split_lines [] (drop (line_break (c # r)) (c # r)))"
  by pat_completeness auto
termination
  by (relation "measure (\<lambda>(line, r). length r)") (auto simp: diff_less_Suc)

definition segment_kind :: "string \<Rightarrow> string" where
  "segment_kind stream = ''segments/'' @ stream"

definition segment_text :: "json list \<Rightarrow> string" where
  "segment_text rows = concat (map (\<lambda>row. canonical_json row @ [newline]) rows)"

definition write_segment :: "string \<Rightarrow> json list \<Rightarrow> string io" where
  "write_segment stream rows =
     bind_io (lift (each (\<lambda>row. andthen (dump row) (\<lambda>_. Inr ())) rows))
       (\<lambda>_. put_bytes (segment_kind stream) ''.jsonl'' (segment_text rows))"

definition read_segment :: "string \<Rightarrow> string \<Rightarrow> os \<Rightarrow> json list res" where
  "read_segment stream identifier s =
     andthen (get_bytes (segment_kind stream) ''.jsonl'' identifier s) (\<lambda>found.
       case found of
         None \<Rightarrow> raise IntegrityError (''segment_missing:'' @ stream)
       | Some payload \<Rightarrow>
           if digest_bytes payload \<noteq> identifier \<or> payload = [] \<or> last payload \<noteq> newline
           then raise IntegrityError (''segment_hash_or_framing_invalid:'' @ stream)
           else if \<not> valid_utf8 payload then raise UnicodeDecodeError ''utf-8''
           else traverse json_loads (split_lines [] payload))"

section \<open>Journal, log and layout\<close>

definition write_ref_log :: "json \<Rightarrow> string io" where
  "write_ref_log entry = write_json_object ''refs/ref-log'' entry"

definition journal_path :: "string \<Rightarrow> string" where
  "journal_path txid = ''transactions/'' @ txid @ ''.json''"

definition write_transaction :: "string \<Rightarrow> json \<Rightarrow> unit io" where
  "write_transaction txid body =
     bind_io (lift (dump body)) (\<lambda>payload. atomic_write (journal_path txid) payload)"

definition layout :: "string list" where
  "layout =
     [''refs/ref-log/sha256'', ''revisions/sha256'', ''checkpoints/sha256'', ''segments/facts/sha256'',
      ''segments/events/sha256'', ''segments/episodes/sha256'', ''transactions'', ''indexes'',
      ''leases'', ''quarantine'', ''identities/sha256'', ''authority-claims/sha256'',
      ''authority-attestations/sha256'', ''refutations/sha256'']"

definition make_layout :: "unit io" where
  "make_layout = each_io (\<lambda>dir. effect raw_os_error id) layout"

text \<open>\<open>sorted(directory.glob("*.json"))\<close>, and \<open>path.stem\<close> of each.\<close>

definition json_stems :: "string \<Rightarrow> os \<Rightarrow> string list" where
  "json_stems dir s =
     map (\<lambda>name. if name = ''.json'' then name else take (length name - 5) name)
       (filter (\<lambda>name. CHR ''/'' \<notin> set name \<and> suffix ''.json'' name)
         (map (\<lambda>kv. drop (length dir + 1) (fst kv)) (filter (\<lambda>kv. under dir (fst kv)) (files s))))"

section \<open>Records of a commit\<close>

definition STREAMS :: "string list" where
  "STREAMS = [''facts'', ''events'', ''episodes'']"

text \<open>
  \<open>str(v)\<close>. For a list or a dict, where Python prints its \<open>repr\<close>, the text here is the JSON
  text: such a text is only tested for being empty and compared with others of its kind.
\<close>

fun py_str :: "json \<Rightarrow> string" where
  "py_str JNull = ''None''"
| "py_str (JBool b) = (if b then ''True'' else ''False'')"
| "py_str (JInt i) = show_int i"
| "py_str (JFloat f) = f"
| "py_str (JStr t) = t"
| "py_str v = emit v"

text \<open>The rows of each stream, in the order of \<open>STREAMS\<close> where they are listed.\<close>

type_synonym rows = "string \<Rightarrow> json list"

fun assign_rows :: "string \<Rightarrow> string list \<Rightarrow> json list \<Rightarrow> unit res" where
  "assign_rows stream existing [] = Inr ()"
| "assign_rows stream existing (row # rest) =
     (case get ''id'' row of
        JStr value \<Rightarrow>
          if value = [] then raise StoreError (''missing_'' @ stream @ ''_id'')
          else if value \<in> set existing then raise StoreError (''duplicate_'' @ stream @ ''_id'')
          else assign_rows stream (value # existing) rest
      | _ \<Rightarrow> raise StoreError (''missing_'' @ stream @ ''_id''))"

definition assign_records :: "rows \<Rightarrow> rows \<Rightarrow> unit res" where
  "assign_records base pending =
     each (\<lambda>stream. assign_rows stream (map (\<lambda>row. py_str (get ''id'' row)) (base stream)) (pending stream))
       STREAMS"

section \<open>The interface of the object store\<close>

text \<open>
  \<open>held i s\<close> is what the store holds under an identifier, \<open>deposit\<close> puts a payload. The laws: a
  write that succeeds returns the digest of its payload and the payload is held; whatever a write
  does, what was held under its own digest stays, or the two payloads are a collision.
\<close>

locale content_store =
  fixes held :: "string \<Rightarrow> os \<Rightarrow> string option" and deposit :: "string \<Rightarrow> string io"
  assumes deposit_held: "deposit p s = (Inr i, t) \<Longrightarrow> i = digest_bytes p \<and> held i t = Some p"
    and held_stays: "deposit p s = (r, t) \<Longrightarrow> held i s = Some q \<Longrightarrow> digest_bytes q = i \<Longrightarrow>
      held i t = Some q \<or> collision q p"
begin

fun write_all :: "string list \<Rightarrow> string list io" where
  "write_all [] = ret []"
| "write_all (p # ps) = bind_io (deposit p) (\<lambda>i. bind_io (write_all ps) (\<lambda>ids. ret (i # ids)))"

lemma held_stays_all:
  "write_all ps s = (r, t) \<Longrightarrow> held i s = Some q \<Longrightarrow> digest_bytes q = i \<Longrightarrow>
   held i t = Some q \<or> (\<exists>p\<in>set ps. collision q p)"
proof (induction ps arbitrary: s r t)
  case (Cons p ps)
  obtain r1 s1 where a: "deposit p s = (r1, s1)" by fastforce
  obtain r2 s2 where b: "write_all ps s1 = (r2, s2)" by fastforce
  have t: "t = s1 \<or> t = s2"
    using Cons.prems(1) a b by (auto simp: bind_io_def ret_def split: sum.splits)
  from held_stays[OF a Cons.prems(2,3)] show ?case
    using Cons.IH[OF b _ Cons.prems(3)] t by auto
qed (simp add: ret_def)

text \<open>A sequence of writes: every identifier returned holds its payload at the end.\<close>

lemma write_all_held:
  "write_all ps s = (Inr ids, t) \<Longrightarrow>
   ids = map digest_bytes ps \<and>
   (\<forall>p\<in>set ps. held (digest_bytes p) t = Some p \<or> (\<exists>q\<in>set ps. collision p q))"
proof (induction ps arbitrary: s ids)
  case (Cons p ps)
  obtain r1 s1 where a: "deposit p s = (r1, s1)" by fastforce
  obtain r2 s2 where b: "write_all ps s1 = (r2, s2)" by fastforce
  obtain i js where ij: "r1 = Inr i" "r2 = Inr js" "ids = i # js" "t = s2"
    using Cons.prems a b by (auto simp: bind_io_def ret_def split: sum.splits)
  note w = deposit_held[of p s i s1] and rest = Cons.IH[of s1 js]
  have i: "i = digest_bytes p" and h: "held (digest_bytes p) s1 = Some p" using w a ij by auto
  have "held (digest_bytes p) t = Some p \<or> (\<exists>q\<in>set ps. collision p q)"
    using held_stays_all[OF b h refl] ij by simp
  with rest b ij i show ?case by auto
qed (simp add: ret_def)

end

text \<open>Any directory of objects outside the quarantine is such a store.\<close>

definition bytes_under :: "string \<Rightarrow> string \<Rightarrow> string \<Rightarrow> os \<Rightarrow> string option" where
  "bytes_under kind ext identifier s =
     (case get_bytes kind ext identifier s of Inr found \<Rightarrow> found | Inl _ \<Rightarrow> None)"

lemma put_bytes_cases:
  assumes "put_bytes kind ext payload s = (r, t)"
  obtains r' where
    "write_immutable (kind @ ''/sha256/'' @ sha256_hex payload @ ext) payload s = (r', t)"
    "r = (case r' of Inl e \<Rightarrow> Inl e | Inr _ \<Rightarrow> Inr (digest_bytes payload))"
  using assms
  by (auto simp: put_bytes_def bind_io_def lift_def ret_def path_for_def split: sum.splits prod.splits)

lemma under_kind: "\<not> prefix ''quarantine'' kind \<Longrightarrow> \<not> under ''quarantine'' (kind @ ''/sha256/'' @ x)"
  by (auto simp: under_def prefix_def append_eq_append_conv2 Cons_eq_append_conv append_eq_Cons_conv)

lemma bytes_under_digest:
  "bytes_under kind ext i s = Some q \<Longrightarrow> bytes_at (kind @ ''/sha256/'' @ drop 7 i @ ext) s = Some q"
  "digest_shape i \<Longrightarrow> bytes_under kind ext i s = bytes_at (kind @ ''/sha256/'' @ drop 7 i @ ext) s"
  "bytes_under kind ext (digest_bytes p) s = bytes_at (kind @ ''/sha256/'' @ sha256_hex p @ ext) s"
    apply (auto simp: bytes_under_def get_bytes_def path_for_def bare_digest_Inr_iff andthen_Inl_iff
      split: sum.splits)
  using bare_digest_Inr_iff[of i "drop 7 i"] apply simp
  done

lemma content_store_kind:
  assumes "\<not> prefix ''quarantine'' kind"
  shows "content_store (bytes_under kind ext) (put_bytes kind ext)"
proof
  fix p s i t assume "put_bytes kind ext p s = (Inr i, t)"
  then show "i = digest_bytes p \<and> bytes_under kind ext i t = Some p"
    by (elim put_bytes_cases)
      (auto simp: bytes_under_digest dest: write_immutable_written split: sum.splits)
next
  fix p s r t i q
  assume run: "put_bytes kind ext p s = (r, t)" and h: "bytes_under kind ext i s = Some q"
    and i: "digest_bytes q = i"
  let ?path = "\<lambda>i. kind @ ''/sha256/'' @ drop 7 i @ ext"
  have at: "bytes_at (?path i) s = Some q" using h by (rule bytes_under_digest)
  from run obtain r' where w: "write_immutable (?path (digest_bytes p)) p s = (r', t)"
    by (elim put_bytes_cases) (simp add: digest_bytes_def)
  note once = write_immutable_settled[OF w] and frame = same.keepsD[OF same.keeps_write_immutable w]
  show "bytes_under kind ext i t = Some q \<or> collision q p"
  proof (cases "i = digest_bytes p")
    case True
    then have "q = p \<or> collision q p" using i digest_bytes_eq by metis
    then show ?thesis using once at True i by (auto simp: bytes_under_digest(2))
  next
    case False
    have "?path i \<noteq> ?path (digest_bytes p)"
      using False i by (auto simp: digest_bytes_def)
    moreover have "same_on (\<lambda>x. x \<noteq> ?path (digest_bytes p) \<and> \<not> under ''quarantine'' x) s t"
      by (rule frame) (auto simp: same_on_def under_def)
    ultimately have "bytes_at (?path i) t = bytes_at (?path i) s"
      using under_kind[OF assms] by (simp add: same_on_def)
    then show ?thesis using at i by (auto simp: bytes_under_digest(2))
  qed
qed

interpretation revision_objects: content_store "bytes_under ''revisions'' ''.json''" "put_bytes ''revisions'' ''.json''"
  by (rule content_store_kind) simp

interpretation segments: content_store "bytes_under (segment_kind stream) ''.jsonl''"
    "put_bytes (segment_kind stream) ''.jsonl''" for stream
  by (rule content_store_kind) (simp add: segment_kind_def)

section \<open>Objects read back\<close>

lemma read_json_object_held:
  "read_json_object kind i s = Inr v \<longleftrightarrow>
   (\<exists>p. bytes_under kind ''.json'' i s = Some p \<and> digest_bytes p = i \<and> json_loads p = Inr v \<and>
        dumpable v \<and> canonical_json v = p)"
  by (cases "get_bytes kind ''.json'' i s")
    (auto simp: read_json_object_def bytes_under_def dump_def split: option.splits if_splits)

lemma write_json_object_put:
  "write_json_object kind v s =
     (if dumpable v then put_bytes kind ''.json'' (canonical_json v) s
      else (Inl (Exn ValueError ''Out of range float values are not JSON compliant'' None), s))"
  by (simp add: write_json_object_def dump_def bind_io_def lift_def)

lemma storable_read_back:
  "storable v \<Longrightarrow> bytes_under kind ''.json'' (digest_json v) s = Some (canonical_json v) \<Longrightarrow>
   read_json_object kind (digest_json v) s = Inr v"
  by (auto simp: read_json_object_held canonical_json_loads storable_def text_json_dumpable digest_json_def)

section \<open>Segments read back\<close>

fun has_break :: "string \<Rightarrow> bool" where
  "has_break [] = False"
| "has_break (c # r) = (line_break (c # r) \<noteq> 0 \<or> has_break r)"

lemma prefix_before_newline: "newline \<notin> set p \<Longrightarrow> prefix p (x @ newline # r) = prefix p x"
proof (induction p arbitrary: x)
  case (Cons a p)
  then show ?case by (cases x) auto
qed simp

lemma prefix_long: "length p \<le> length x \<Longrightarrow> prefix p (x @ z) = prefix p x"
proof (induction p arbitrary: x)
  case (Cons a p)
  then show ?case by (cases x) auto
qed simp

lemma find_prefix_cong:
  "(\<And>b. b \<in> set bs \<Longrightarrow> prefix b x = prefix b y) \<Longrightarrow> find (\<lambda>b. prefix b x) bs = find (\<lambda>b. prefix b y) bs"
  by (induction bs) auto

lemma line_break_append:
  assumes "x \<noteq> []" and "last x \<noteq> CHR 0x0D"
  shows "line_break (x @ newline # r) = line_break x"
proof -
  have "prefix b (x @ newline # r) = prefix b x" if b: "b \<in> set line_breaks" for b
  proof (cases "length b \<le> length x \<or> newline \<notin> set b")
    case True
    then show ?thesis using prefix_long[of b x] prefix_before_newline[of b x r] by blast
  next
    case False
    then have long: "length x < length b" and nl: "newline \<in> set b" by simp_all
    from b nl have "b = [CHR 0x0D, CHR 0x0A] \<or> b = [CHR 0x0A]"
      by (auto simp: line_breaks_def newline_def)
    with long assms(1) obtain c where "b = [CHR 0x0D, CHR 0x0A]" "x = [c]"
      by (cases x; cases "tl x") auto
    then show ?thesis using assms(2) by simp
  qed
  then have "find (\<lambda>b. prefix b (x @ newline # r)) line_breaks = find (\<lambda>b. prefix b x) line_breaks"
    by (rule find_prefix_cong)
  then show ?thesis by (simp only: line_break_def)
qed

lemma line_break_le: "line_break x \<le> length x"
  by (auto simp: line_break_def find_Some_iff split: option.splits dest: prefix_length_le)

lemma line_break_return: "0 < line_break (CHR 0x0D # r)"
  by (simp add: line_break_def line_breaks_def)

lemma line_break_newline [simp]: "line_break (newline # r) = 1"
  by (simp add: line_break_def line_breaks_def newline_def)

lemma has_break_return: "CHR 0x0D \<in> set l \<Longrightarrow> has_break l"
  by (induction l) (auto simp: line_break_return)

lemma split_unbroken:
  "\<not> has_break l \<Longrightarrow> split_lines cur (l @ newline # r) = (rev cur @ l) # split_lines [] r"
proof (induction l arbitrary: cur)
  case (Cons c l)
  have "last (c # l) \<noteq> CHR 0x0D"
    using Cons.prems has_break_return[of "c # l"] last_in_set[of "c # l"] by force
  then have "line_break (c # l @ newline # r) = 0"
    using line_break_append[of "c # l" r] Cons.prems by simp
  then show ?case using Cons by simp
qed simp

lemma split_broken:
  "l = [] \<or> last l \<noteq> CHR 0x0D \<Longrightarrow>
   length (split_lines cur (l @ newline # r)) \<ge>
     length (split_lines [] r) + (if has_break l then 2 else 1)"
proof (induction l arbitrary: cur rule: length_induct)
  case (1 l)
  show ?case
  proof (cases l)
    case Nil
    then show ?thesis by simp
  next
    case (Cons c l')
    let ?n = "line_break (c # l')"
    have n: "line_break (c # l' @ newline # r) = ?n"
      using line_break_append[of l r] 1(2) Cons by simp
    show ?thesis
    proof (cases "?n = 0")
      case True
      have "l' = [] \<or> last l' \<noteq> CHR 0x0D" using 1(2) Cons by auto
      then have "length (split_lines (c # cur) (l' @ newline # r)) \<ge>
          length (split_lines [] r) + (if has_break l' then 2 else 1)"
        using 1(1)[rule_format, of l' "c # cur"] Cons by simp
      then show ?thesis using Cons n True by simp
    next
      case False
      have le: "?n \<le> length l" using line_break_le[of "c # l'"] Cons by simp
      then have d: "drop ?n (c # l' @ newline # r) = drop ?n l @ newline # r"
        unfolding append_Cons[symmetric] Cons[symmetric] drop_append by simp
      have "drop ?n l = [] \<or> last (drop ?n l) \<noteq> CHR 0x0D"
        using 1(2) by (cases "?n < length l") auto
      moreover have "length (drop ?n l) < length l" using False le by simp
      ultimately have "length (split_lines [] (drop ?n l @ newline # r)) \<ge> length (split_lines [] r) + 1"
        using 1(1)[rule_format, of "drop ?n l" "[]"] by (simp split: if_splits)
      then show ?thesis using n False d Cons by simp
    qed
  qed
qed

lemma split_segment_unbroken:
  "list_all (\<lambda>l. \<not> has_break l) ls \<Longrightarrow> split_lines [] (concat (map (\<lambda>l. l @ [newline]) ls)) = ls"
  by (induction ls) (simp_all add: split_unbroken)

lemma split_segment_broken:
  assumes "list_all (\<lambda>l. l = [] \<or> last l \<noteq> CHR 0x0D) ls"
  shows "length (split_lines [] (concat (map (\<lambda>l. l @ [newline]) ls))) \<ge>
    length ls + length (filter has_break ls)"
  using assms
proof (induction ls)
  case (Cons l ls)
  let ?r = "concat (map (\<lambda>l. l @ [newline]) ls)"
  have "length (split_lines [] (l @ newline # ?r)) \<ge>
      length (split_lines [] ?r) + (if has_break l then 2 else 1)"
    using Cons.prems by (intro split_broken) simp
  moreover have "length (split_lines [] ?r) \<ge> length ls + length (filter has_break ls)"
    using Cons by simp
  ultimately show ?case by (simp split: if_splits)
qed simp

lemma json_end: "is_obj v \<Longrightarrow> wf_json v \<Longrightarrow> canonical_json v \<noteq> [] \<and> last (canonical_json v) = CHR ''}''"
  by (auto simp: canonical_json_wf is_obj_iff)

lemma segment_text_valid: "list_all storable rows \<Longrightarrow> valid_utf8 (segment_text rows)"
proof (induction rows)
  case (Cons v rows)
  have "valid_utf8 (canonical_json v)" "valid_utf8 [newline]"
    using Cons.prems by (auto simp: storable_def canonical_json_wf valid_utf8_emit newline_def valid_utf8_ascii)
  then show ?case using Cons by (simp add: segment_text_def valid_utf8_append del: append_assoc
      add: append_assoc[symmetric])
qed (simp add: segment_text_def)

lemma segment_text_framed: "rows \<noteq> [] \<Longrightarrow> segment_text rows \<noteq> [] \<and> last (segment_text rows) = newline"
  by (induction rows rule: rev_induct) (auto simp: segment_text_def)

lemma segment_text_lines:
  "segment_text rows = concat (map (\<lambda>l. l @ [newline]) (map canonical_json rows))"
  by (simp add: segment_text_def comp_def)

lemma read_segment_text:
  assumes "bytes_under (segment_kind stream) ''.jsonl'' (digest_bytes (segment_text rows)) s = Some (segment_text rows)"
    and "rows \<noteq> []" and "list_all storable rows"
  shows "read_segment stream (digest_bytes (segment_text rows)) s =
    traverse json_loads (split_lines [] (segment_text rows))"
  using assms segment_text_valid[OF assms(3)] segment_text_framed[OF assms(2)]
  by (simp add: read_segment_def bytes_under_def split: sum.splits)

lemma read_back_iff:
  assumes "list_all (\<lambda>row. storable row \<and> is_obj row) rows"
  shows "traverse json_loads (split_lines [] (segment_text rows)) = Inr rows \<longleftrightarrow>
    list_all (\<lambda>row. \<not> has_break (canonical_json row)) rows"
proof (cases "list_all (\<lambda>row. \<not> has_break (canonical_json row)) rows")
  case True
  then have "split_lines [] (segment_text rows) = map canonical_json rows"
    unfolding segment_text_lines by (intro split_segment_unbroken) (simp add: list_all_iff)
  moreover have "traverse json_loads (map canonical_json rows) = Inr rows"
    using assms by (induction rows) (auto simp: canonical_json_loads)
  ultimately show ?thesis using True by simp
next
  case False
  let ?ls = "map canonical_json rows"
  have "list_all (\<lambda>l. l = [] \<or> last l \<noteq> CHR 0x0D) ?ls"
    using assms by (auto simp: list_all_iff storable_def json_end)
  then have "length (split_lines [] (segment_text rows)) \<ge> length ?ls + length (filter has_break ?ls)"
    unfolding segment_text_lines by (rule split_segment_broken)
  moreover have "filter has_break ?ls \<noteq> []"
    using False by (auto simp: list_all_iff filter_empty_conv)
  ultimately have "length (split_lines [] (segment_text rows)) > length rows" by (cases "filter has_break ?ls") auto
  then show ?thesis using False traverse_Inr_length[of json_loads "split_lines [] (segment_text rows)" rows] by auto
qed

lemma write_segment_held:
  assumes "write_segment stream rows s = (Inr i, t)"
  shows "i = digest_bytes (segment_text rows) \<and>
    bytes_under (segment_kind stream) ''.jsonl'' i t = Some (segment_text rows)"
  using assms segments.deposit_held[of stream "segment_text rows" s i t]
  by (auto simp: write_segment_def bind_io_def lift_def split: sum.splits)

text \<open>C12: A segment of records reads back as it was written exactly when no canonical text of a
  record contains one of the line boundaries of \<open>str.splitlines\<close>: a string with U+0085, U+2028
  or U+2029, which canonical JSON leaves as it is, breaks its segment for good.\<close>

theorem segment_roundtrip:
  assumes "write_segment stream rows s = (Inr i, t)" and "rows \<noteq> []"
    and "list_all (\<lambda>row. storable row \<and> is_obj row) rows"
  shows "read_segment stream i t = Inr rows \<longleftrightarrow>
    list_all (\<lambda>row. \<not> has_break (canonical_json row)) rows"
proof -
  have st: "list_all storable rows" using assms(3) by (simp add: list_all_iff)
  from write_segment_held[OF assms(1)] have i: "i = digest_bytes (segment_text rows)"
    and h: "bytes_under (segment_kind stream) ''.jsonl'' (digest_bytes (segment_text rows)) t = Some (segment_text rows)"
    by auto
  show ?thesis unfolding i read_segment_text[OF h assms(2) st] by (rule read_back_iff[OF assms(3)])
qed

text \<open>A stored object reads back as the value written, under the digest of the value, and a
  write never changes what another identifier of the same kind reads as, unless the two canonical
  texts are an explicit SHA-256 collision.\<close>

theorem object_reads_back:
  assumes "storable v" and "\<not> prefix ''quarantine'' kind"
  shows "case write_json_object kind v s of (r, t) \<Rightarrow>
    (case r of Inr i \<Rightarrow> i = digest_json v \<and> read_json_object kind i t = Inr v | Inl _ \<Rightarrow> True) \<and>
    (\<forall>j w. read_json_object kind j s = Inr w \<longrightarrow>
       read_json_object kind j t = Inr w \<or> collision (canonical_json w) (canonical_json v))"
proof (cases "write_json_object kind v s")
  case (Pair r t)
  then have run: "put_bytes kind ''.json'' (canonical_json v) s = (r, t)"
    using assms(1) by (simp add: write_json_object_put storable_def text_json_dumpable)
  note store = content_store_kind[OF assms(2), of "''.json''"]
  have "r = Inr i \<Longrightarrow> i = digest_json v \<and> read_json_object kind i t = Inr v" for i
    using content_store.deposit_held[OF store, of "canonical_json v" s i t] run
      storable_read_back[OF assms(1), of kind t]
    by (auto simp: digest_json_def)
  moreover have "read_json_object kind j t = Inr w \<or> collision (canonical_json w) (canonical_json v)"
    if "read_json_object kind j s = Inr w" for j w
    using content_store.held_stays[OF store run, of j] that
    by (auto simp: read_json_object_held)
  ultimately show ?thesis using Pair by (auto split: sum.splits)
qed

section \<open>Examples\<close>

lemma calm_put_bytes:
  assumes "calm s" and "bytes_under kind ext (digest_bytes p) s = None"
  shows "\<exists>t. put_bytes kind ext p s = (Inr (digest_bytes p), t) \<and> calm t"
proof -
  let ?path = "kind @ ''/sha256/'' @ sha256_hex p @ ext"
  have "bytes_at ?path s = None" using assms(2) bytes_under_digest(3)[of kind ext p s] by simp
  then obtain t where "write_immutable ?path p s = (Inr (), t)" "calm t"
    using calm_write_immutable[OF assms(1)] by metis
  then show ?thesis by (simp add: put_bytes_def bind_io_def lift_def ret_def path_for_def)
qed

text \<open>Two records of one text each: in the second the text holds U+2028, E2 80 A8 in UTF-8.\<close>

definition plain_row :: json where
  "plain_row = mk_obj [(''id'', JStr ''e-1''), (''text'', JStr ''a b'')]"

definition separator_row :: json where
  "separator_row = mk_obj [(''id'', JStr ''e-2''), (''text'', JStr (''a'' @ [CHR 0xE2, CHR 0x80, CHR 0xA8] @ ''b''))]"

lemma sample_rows:
  "storable plain_row" "is_obj plain_row" "storable separator_row" "is_obj separator_row"
  "\<not> has_break (canonical_json plain_row)" "has_break (canonical_json separator_row)"
  by (auto simp: plain_row_def separator_row_def intro!: storable_mk_obj, code_simp+)

lemma blank_holds_nothing: "bytes_under kind ext (digest_bytes p) (blank b) = None"
  by (simp add: bytes_under_digest(3))

lemma write_segment_blank:
  assumes "storable row"
  shows "\<exists>t. write_segment stream [row] (blank b) = (Inr (digest_bytes (segment_text [row])), t)"
proof -
  have "dump row = Inr (canonical_json row)"
    using assms by (simp add: dump_def storable_def text_json_dumpable)
  moreover obtain t where
    "put_bytes (segment_kind stream) ''.jsonl'' (segment_text [row]) (blank b) =
      (Inr (digest_bytes (segment_text [row])), t)"
    using calm_put_bytes[OF blank_simps(1) blank_holds_nothing] by blast
  ultimately show ?thesis by (simp add: write_segment_def bind_io_def lift_def)
qed

lemma segment_roundtrip_witness:
  "(case write_segment ''events'' [plain_row] (blank True) of (r, t) \<Rightarrow>
      (case r of Inr i \<Rightarrow> read_segment ''events'' i t = Inr [plain_row] | Inl _ \<Rightarrow> False)) \<and>
   (case write_segment ''events'' [separator_row] (blank True) of (r, t) \<Rightarrow>
      (case r of Inr i \<Rightarrow> read_segment ''events'' i t \<noteq> Inr [separator_row] | Inl _ \<Rightarrow> False))"
proof -
  obtain i t where p: "write_segment ''events'' [plain_row] (blank True) = (Inr i, t)"
    using write_segment_blank[OF sample_rows(1)] by metis
  obtain j u where q: "write_segment ''events'' [separator_row] (blank True) = (Inr j, u)"
    using write_segment_blank[OF sample_rows(3)] by metis
  show ?thesis
    using segment_roundtrip[OF p] segment_roundtrip[OF q] p q by (simp add: sample_rows)
qed

lemma object_reads_back_witness:
  "case write_json_object ''revisions'' plain_row (blank True) of (r, t) \<Rightarrow>
     (case r of Inr i \<Rightarrow> i = digest_json plain_row \<and> read_json_object ''revisions'' i t = Inr plain_row
      | Inl _ \<Rightarrow> False)"
proof -
  have "dumpable plain_row" using sample_rows(1) by (simp add: storable_def text_json_dumpable)
  moreover obtain t where "put_bytes ''revisions'' ''.json'' (canonical_json plain_row) (blank True) =
      (Inr (digest_bytes (canonical_json plain_row)), t)"
    using calm_put_bytes[OF blank_simps(1) blank_holds_nothing] by blast
  ultimately have w: "write_json_object ''revisions'' plain_row (blank True) =
      (Inr (digest_bytes (canonical_json plain_row)), t)"
    by (simp add: write_json_object_put)
  have "\<not> prefix ''quarantine'' ''revisions''" by simp
  from object_reads_back[OF sample_rows(1) this, of "blank True"] w show ?thesis
    by (simp add: digest_json_def)
qed

end
