(* ===== verification/Attempts.thy ===== *)
theory Attempts
  imports ObjectStore
begin

text \<open>
  Transaction attempts and outcomes: \<open>transaction_attempts.py\<close>, which builds and validates the
  description of one attempt and binds it with a fingerprint, and \<open>make_outcome\<close> of
  \<open>transactions.py\<close>, which classifies what became of it.
\<close>

section \<open>Transaction identifiers\<close>

text \<open>
  \<open>uuid.UUID\<close> reads more than one spelling, but the code compares \<open>str\<close> of the result with the
  text: what remains is the canonical form, lower-case hexadecimal in groups of 8, 4, 4, 4 and
  12, with version 1 to 5 and the RFC 4122 variant. A value that is not a string is refused
  (\<open>uuid.UUID\<close> raises \<open>AttributeError\<close> or \<open>TypeError\<close>).
\<close>

definition uuid_shape :: "string \<Rightarrow> bool" where
  "uuid_shape t \<longleftrightarrow>
     length t = 36 \<and>
     list_all (\<lambda>i. if i \<in> {8, 13, 18, 23} then t ! i = CHR ''-'' else is_lower_hex (t ! i)) [0..<36] \<and>
     t ! 14 \<in> set ''12345'' \<and> t ! 19 \<in> set ''89ab''"

definition is_canonical_uuid :: "json \<Rightarrow> bool" where
  "is_canonical_uuid v \<longleftrightarrow> (case v of JStr t \<Rightarrow> uuid_shape t | _ \<Rightarrow> False)"

definition canonical_uuid :: "json \<Rightarrow> string res" where
  "canonical_uuid v =
     (if is_canonical_uuid v then Inr (str_of v)
      else raise TransactionError ''invalid_transaction_id'')"

section \<open>Attempts\<close>

text \<open>\<open>bare_digest\<close> of a value that need not be a string (\<open>v.startswith\<close> fails on the others).\<close>

definition bare_digest_value :: "json \<Rightarrow> unit res" where
  "bare_digest_value v =
     (case v of JStr t \<Rightarrow> andthen (bare_digest t) (\<lambda>_. Inr ())
      | _ \<Rightarrow> raise AttributeError ''startswith'')"

text \<open>Python truth of a value, for \<open>transaction_id or str(uuid.uuid4())\<close>.\<close>

fun truthy :: "json \<Rightarrow> bool" where
  "truthy JNull = False"
| "truthy (JBool b) = b"
| "truthy (JInt i) = (i \<noteq> 0)"
| "truthy (JFloat f) = (f \<noteq> ''0.0'' \<and> f \<noteq> ''-0.0'')"
| "truthy (JStr t) = (t \<noteq> [])"
| "truthy (JArr xs) = (xs \<noteq> [])"
| "truthy (JObj m) = (m \<noteq> [])"

record binding =
  base_revision :: json
  plan_fingerprint :: json
  initialization_fingerprint :: json
  mutation_fingerprint :: json

definition require_binding :: "json list \<Rightarrow> unit res" where
  "require_binding vs =
     checks (ensure (list_all (\<lambda>v. v \<noteq> JNull) vs) (Exn TransactionError ''invalid_transaction_binding'' None)
             # map bare_digest_value vs)"

definition plan_operations :: "string list" where
  "plan_operations = [''write'', ''checkpoint'', ''refute'', ''compact'']"

definition operation_binding :: "string \<Rightarrow> binding \<Rightarrow> (string \<times> json) list res" where
  "operation_binding operation b =
     (if operation \<in> set plan_operations then
        andthen (require_binding [base_revision b, plan_fingerprint b]) (\<lambda>_.
          Inr [(''base_revision'', base_revision b), (''plan_fingerprint'', plan_fingerprint b)])
      else if operation = ''initialize'' then
        andthen (require_binding [initialization_fingerprint b]) (\<lambda>_.
          Inr [(''expected_current'', JNull), (''initialization_fingerprint'', initialization_fingerprint b)])
      else if operation = ''internal_commit'' then
        andthen (require_binding [base_revision b, mutation_fingerprint b]) (\<lambda>_.
          Inr [(''base_revision'', base_revision b), (''mutation_fingerprint'', mutation_fingerprint b)])
      else raise TransactionError ''invalid_transaction_operation'')"

definition attempt_core :: "string \<Rightarrow> string \<Rightarrow> (string \<times> json) list \<Rightarrow> json" where
  "attempt_core operation txid bound =
     mk_obj ([(''schema'', JStr ''an-kla/transaction-attempt-v1''), (''operation'', JStr operation)] @
             bound @ [(''transaction_id'', JStr txid)])"

definition attempt_of :: "json \<Rightarrow> json" where
  "attempt_of core = update_obj core [(''execution_fingerprint'', JStr (digest_json core))]"

text \<open>\<open>fresh\<close> is the text of \<open>uuid.uuid4()\<close>, drawn when no transaction identifier is given.\<close>

definition begin_transaction :: "string \<Rightarrow> string \<Rightarrow> json \<Rightarrow> binding \<Rightarrow> json res" where
  "begin_transaction fresh operation transaction_id b =
     andthen (canonical_uuid (if truthy transaction_id then transaction_id else JStr fresh)) (\<lambda>txid.
     andthen (operation_binding operation b) (\<lambda>bound.
       Inr (attempt_of (attempt_core operation txid bound))))"

definition binding_of :: "json \<Rightarrow> binding" where
  "binding_of attempt =
     \<lparr>base_revision = get ''base_revision'' attempt, plan_fingerprint = get ''plan_fingerprint'' attempt,
      initialization_fingerprint = get ''initialization_fingerprint'' attempt,
      mutation_fingerprint = get ''mutation_fingerprint'' attempt\<rparr>"

text \<open>
  The rebuilt attempt holds strings and \<open>None\<close> only, so that the Python comparison with it is
  equality. Without a transaction identifier a new one is drawn and the comparison fails: any
  canonical text stands for it.
\<close>

definition some_uuid :: string where
  "some_uuid = ''00000000-0000-4000-8000-000000000000''"

definition validate_attempt :: "json \<Rightarrow> json res" where
  "validate_attempt attempt =
     (if \<not> is_obj attempt then raise TransactionError ''invalid_transaction_attempt''
      else andthen (begin_transaction some_uuid (py_str (get ''operation'' attempt))
                      (get ''transaction_id'' attempt) (binding_of attempt)) (\<lambda>rebuilt.
        if rebuilt \<noteq> attempt then raise TransactionError ''invalid_transaction_attempt''
        else Inr rebuilt))"

section \<open>Outcomes\<close>

fun opt_str :: "string option \<Rightarrow> json" where
  "opt_str None = JNull"
| "opt_str (Some t) = JStr t"

fun opt_bool :: "bool option \<Rightarrow> json" where
  "opt_bool None = JNull"
| "opt_bool (Some b) = JBool b"

text \<open>The authority the store grants the candidate, and whether it is committed.\<close>

definition outcome_authority :: "string option \<Rightarrow> string option \<Rightarrow> string \<Rightarrow> string \<times> bool option" where
  "outcome_authority parent current relation =
     (if relation \<in> {''current'', ''ancestor''} then (''candidate_authoritative'', Some True)
      else if current = parent \<and> relation \<in> {''orphan'', ''unknown''}
        then (''parent_lineage_authoritative'', Some False)
      else (''unknown'', None))"

definition outcome_state :: "string \<Rightarrow> bool option \<Rightarrow> string \<Rightarrow> string \<Rightarrow> string" where
  "outcome_state authority committed audit durability =
     (if authority = ''unknown'' then ''outcome_unknown''
      else if durability = ''incomplete'' then ''durability_incomplete''
      else if committed = Some True \<and> audit \<noteq> ''complete'' then ''committed_audit_incomplete''
      else if committed = Some True then ''committed''
      else ''not_committed'')"

record evidence =
  parent_revision :: "string option"
  candidate_revision :: "string option"
  current_observed :: "string option"
  relation :: string
  recorded :: "bool option"
  audit_state :: string
  durability_state :: string
  operation_error :: "string option"
  warnings :: "string list"

definition outcome_object :: "json \<Rightarrow> evidence \<Rightarrow> json" where
  "outcome_object txid e =
     (let (authority, committed) = outcome_authority (parent_revision e) (current_observed e) (relation e)
      in mk_obj
        [(''schema'', JStr ''an-kla/commit-outcome-v2''), (''transaction_id'', txid),
         (''parent_revision'', opt_str (parent_revision e)),
         (''candidate_revision'', opt_str (candidate_revision e)),
         (''current_observed'', opt_str (current_observed e)),
         (''candidate_relation'', JStr (relation e)),
         (''state'', JStr (outcome_state authority committed (audit_state e) (durability_state e))),
         (''committed'', opt_bool committed), (''recorded'', opt_bool (recorded e)),
         (''authority_state'', JStr authority), (''audit_state'', JStr (audit_state e)),
         (''durability_state'', JStr (durability_state e)),
         (''operation_error_code'', opt_str (operation_error e)),
         (''warnings'', JArr (map JStr (sorted_set (warnings e))))])"

definition make_outcome :: "json \<Rightarrow> evidence \<Rightarrow> json res" where
  "make_outcome attempt e =
     andthen (validate_attempt attempt) (\<lambda>checked.
       Inr (outcome_object (get ''transaction_id'' checked) e))"

section \<open>Facts\<close>

lemma bare_digest_value_Inr_iff [simp]:
  "bare_digest_value v = Inr u \<longleftrightarrow> (\<exists>t. v = JStr t \<and> digest_shape t)"
  by (cases v) (auto simp: bare_digest_value_def bare_digest_Inr_iff)

lemma canonical_uuid_Inr_iff [simp]:
  "canonical_uuid v = Inr t \<longleftrightarrow> v = JStr t \<and> uuid_shape t"
  by (cases v) (auto simp: canonical_uuid_def is_canonical_uuid_def)

lemma require_binding_Inr_iff [simp]:
  "require_binding vs = Inr u \<longleftrightarrow> list_all (\<lambda>v. \<exists>t. v = JStr t \<and> digest_shape t) vs"
  by (auto simp: require_binding_def checks_Inr_iff list_all_iff)

lemma uuid_shape_ne [simp]: "uuid_shape t \<Longrightarrow> t \<noteq> []"
  by (auto simp: uuid_shape_def)

lemma valid_utf8_uuid: "uuid_shape t \<Longrightarrow> valid_utf8 t"
proof (rule valid_utf8_ascii)
  assume t: "uuid_shape t"
  have "(of_char (t ! i) :: nat) < 128" if "i < 36" for i
  proof -
    have "if i \<in> {8, 13, 18, 23} then t ! i = CHR ''-'' else is_lower_hex (t ! i)"
      using t that by (auto simp: uuid_shape_def list_all_iff)
    then show ?thesis by (auto simp: is_lower_hex_def is_digit_def split: if_splits)
  qed
  then show "list_all (\<lambda>c. (of_char c :: nat) < 128) t"
    using t by (auto simp: list_all_length uuid_shape_def)
qed

text \<open>The shape of what \<open>begin_transaction\<close> returns.\<close>

definition operation_fields :: "string \<Rightarrow> (string \<times> json) list \<Rightarrow> bool" where
  "operation_fields operation bound \<longleftrightarrow>
     (\<exists>x y. digest_shape x \<and> digest_shape y \<and>
       (operation \<in> set plan_operations \<and>
          bound = [(''base_revision'', JStr x), (''plan_fingerprint'', JStr y)] \<or>
        operation = ''initialize'' \<and>
          bound = [(''expected_current'', JNull), (''initialization_fingerprint'', JStr x)] \<or>
        operation = ''internal_commit'' \<and>
          bound = [(''base_revision'', JStr x), (''mutation_fingerprint'', JStr y)]))"

lemma not_plan_operations [simp]:
  "''initialize'' \<notin> set plan_operations" "''internal_commit'' \<notin> set plan_operations"
  by (simp_all add: plan_operations_def)

lemma operation_fieldsE:
  assumes "operation_fields operation bound"
  obtains (planned) x y where "digest_shape x" "digest_shape y" "operation \<in> set plan_operations"
      "bound = [(''base_revision'', JStr x), (''plan_fingerprint'', JStr y)]"
  | (initialize) x where "digest_shape x" "operation = ''initialize''"
      "bound = [(''expected_current'', JNull), (''initialization_fingerprint'', JStr x)]"
  | (internal) x y where "digest_shape x" "digest_shape y" "operation = ''internal_commit''"
      "bound = [(''base_revision'', JStr x), (''mutation_fingerprint'', JStr y)]"
  using assms unfolding operation_fields_def by metis

lemma operation_bindingD:
  assumes "operation_binding operation b = Inr bound"
  shows "operation_fields operation bound"
proof -
  consider "operation \<in> set plan_operations" | "operation = ''initialize''"
    | "operation = ''internal_commit''"
    using assms by (simp add: operation_binding_def split: if_split_asm)
  then show ?thesis
  proof cases
    case 1
    with assms obtain x y where "base_revision b = JStr x" "plan_fingerprint b = JStr y"
      "digest_shape x" "digest_shape y" "bound = [(''base_revision'', JStr x), (''plan_fingerprint'', JStr y)]"
      by (simp add: operation_binding_def) metis
    with 1 show ?thesis unfolding operation_fields_def by metis
  next
    case 2
    with assms show ?thesis by (simp add: operation_binding_def operation_fields_def) metis
  next
    case 3
    with assms show ?thesis by (simp add: operation_binding_def operation_fields_def) metis
  qed
qed

lemma begin_transactionD:
  "begin_transaction fresh operation tx b = Inr a \<Longrightarrow>
   \<exists>txid bound. uuid_shape txid \<and> operation_fields operation bound \<and>
     operation_binding operation b = Inr bound \<and> a = attempt_of (attempt_core operation txid bound)"
  by (auto simp: begin_transaction_def dest: operation_bindingD split: if_splits)

lemma get_attempt:
  assumes "operation_fields operation bound"
  shows "get ''operation'' (attempt_of (attempt_core operation txid bound)) = JStr operation"
    and "get ''transaction_id'' (attempt_of (attempt_core operation txid bound)) = JStr txid"
  using assms by (cases rule: operation_fieldsE; simp add: attempt_of_def attempt_core_def)+

lemma rebinding:
  assumes "operation_fields operation bound"
  shows "operation_binding operation (binding_of (attempt_of (attempt_core operation txid bound))) = Inr bound"
  using assms
  by (cases rule: operation_fieldsE)
    (simp_all add: operation_binding_def binding_of_def attempt_of_def attempt_core_def)

lemma validate_attempt_iff:
  "validate_attempt a = Inr b \<longleftrightarrow>
   b = a \<and> (\<exists>operation txid bound. uuid_shape txid \<and> operation_fields operation bound \<and>
              a = attempt_of (attempt_core operation txid bound))"
proof
  assume v: "validate_attempt a = Inr b"
  then have "b = a" and
    "begin_transaction some_uuid (py_str (get ''operation'' a)) (get ''transaction_id'' a) (binding_of a) = Inr a"
    by (auto simp: validate_attempt_def split: if_splits)
  with begin_transactionD show "b = a \<and> (\<exists>operation txid bound. uuid_shape txid \<and>
      operation_fields operation bound \<and> a = attempt_of (attempt_core operation txid bound))"
    by blast
next
  assume "b = a \<and> (\<exists>operation txid bound. uuid_shape txid \<and> operation_fields operation bound \<and>
              a = attempt_of (attempt_core operation txid bound))"
  then obtain operation txid bound where t: "uuid_shape txid" and f: "operation_fields operation bound"
    and a: "b = a" "a = attempt_of (attempt_core operation txid bound)" by blast
  have "is_obj a" using a by (simp add: attempt_of_def attempt_core_def)
  then show "validate_attempt a = Inr b"
    using t f a by (simp add: validate_attempt_def begin_transaction_def get_attempt rebinding)
qed

text \<open>Every attempt \<open>begin_transaction\<close> builds is accepted by \<open>validate_attempt\<close>, unchanged, and
  names the operation and the given transaction identifier.\<close>

theorem begun_attempt_validates:
  "case begin_transaction fresh operation (JStr txid) b of
     Inr a \<Rightarrow> validate_attempt a = Inr a \<and> get ''operation'' a = JStr operation \<and>
       get ''transaction_id'' a = JStr (if txid = [] then fresh else txid)
   | Inl _ \<Rightarrow> True"
proof (cases "begin_transaction fresh operation (JStr txid) b")
  case (Inr a)
  then obtain bound where f: "operation_fields operation bound"
    and shape: "uuid_shape (if txid = [] then fresh else txid)"
    and a: "a = attempt_of (attempt_core operation (if txid = [] then fresh else txid) bound)"
    by (auto simp: begin_transaction_def dest: operation_bindingD split: if_splits)
  then have "validate_attempt a = Inr a" by (subst validate_attempt_iff) blast
  with Inr f a show ?thesis by (simp add: get_attempt)
qed simp

text \<open>The attempt without its fingerprint.\<close>

definition unbound :: "json \<Rightarrow> json" where
  "unbound a = JObj (filter (\<lambda>kv. fst kv \<noteq> ''execution_fingerprint'') (dict_items a))"

lemma filter_put_new:
  "k \<notin> fst ` set m \<Longrightarrow> filter (\<lambda>kv. fst kv \<noteq> k) (put k v m) = m"
  by (induction k v m rule: put.induct) (auto simp: filter_id_conv)

lemma unbound_attempt:
  assumes "operation_fields operation bound"
  shows "unbound (attempt_of (attempt_core operation txid bound)) = attempt_core operation txid bound"
proof -
  let ?kvs = "[(''schema'', JStr ''an-kla/transaction-attempt-v1''), (''operation'', JStr operation)] @
             bound @ [(''transaction_id'', JStr txid)]"
  have "''execution_fingerprint'' \<notin> set (map fst ?kvs)"
    using assms by (cases rule: operation_fieldsE) simp_all
  then have "''execution_fingerprint'' \<notin> fst ` set (puts ?kvs [])"
    using set_keys_puts[of ?kvs "[]"] by simp
  then show ?thesis
    by (simp add: unbound_def attempt_of_def attempt_core_def mk_obj_def filter_put_new)
qed

lemma operation_fields_ascii: "operation_fields operation bound \<Longrightarrow> valid_utf8 operation"
  by (erule operation_fieldsE) (auto simp: plan_operations_def valid_utf8_ascii)

lemma attempt_core_storable:
  assumes "uuid_shape txid" and "operation_fields operation bound"
  shows "storable (attempt_core operation txid bound)"
proof -
  have "\<forall>(k, v)\<in>set bound. valid_utf8 k \<and> storable v"
    using assms(2) by (cases rule: operation_fieldsE) (simp_all add: valid_utf8_ascii)
  then show ?thesis
    unfolding attempt_core_def using operation_fields_ascii[OF assms(2)] valid_utf8_uuid[OF assms(1)]
    by (intro storable_mk_obj) (auto simp: valid_utf8_ascii)
qed

text \<open>The execution fingerprint binds the whole attempt: two valid attempts with the same
  fingerprint are the same attempt, or the texts of the two are an explicit SHA-256 collision.\<close>

theorem attempt_fingerprint_binds:
  assumes "validate_attempt a = Inr a'" and "validate_attempt b = Inr b'"
    and "get ''execution_fingerprint'' a = get ''execution_fingerprint'' b"
  shows "a = b \<or> collision (canonical_json (unbound a)) (canonical_json (unbound b))"
proof -
  from assms(1,2) obtain o1 t1 f1 o2 t2 f2 where
    1: "uuid_shape t1" "operation_fields o1 f1" and a: "a = attempt_of (attempt_core o1 t1 f1)"
    and 2: "uuid_shape t2" "operation_fields o2 f2" and b: "b = attempt_of (attempt_core o2 t2 f2)"
    unfolding validate_attempt_iff by blast
  have "digest_json (attempt_core o1 t1 f1) = digest_json (attempt_core o2 t2 f2)"
    using assms(3) unfolding a b by (simp add: attempt_of_def attempt_core_def)
  from digest_json_inject[OF attempt_core_storable[OF 1] attempt_core_storable[OF 2] this]
  show ?thesis unfolding a b by (auto simp: unbound_attempt[OF 1(2)] unbound_attempt[OF 2(2)])
qed

definition candidate_wins :: "evidence \<Rightarrow> bool" where
  "candidate_wins e \<longleftrightarrow> relation e \<in> {''current'', ''ancestor''}"

definition parent_stands :: "evidence \<Rightarrow> bool" where
  "parent_stands e \<longleftrightarrow>
     current_observed e = parent_revision e \<and> relation e \<in> {''orphan'', ''unknown''}"

lemma outcome_authority_cases:
  "outcome_authority (parent_revision e) (current_observed e) (relation e) =
     (if candidate_wins e then (''candidate_authoritative'', Some True)
      else if parent_stands e then (''parent_lineage_authoritative'', Some False) else (''unknown'', None))"
  by (simp add: outcome_authority_def candidate_wins_def parent_stands_def)

text \<open>What an outcome claims follows from the evidence alone: \<open>committed\<close> is true exactly when
  the candidate is \<open>CURRENT\<close> or an ancestor of it, false exactly when it is not and the observed
  revision is still the parent, and unknown otherwise; the state \<open>committed\<close> also needs the
  complete audit and durability evidence, and \<open>not_committed\<close> durability evidence.\<close>

theorem outcome_classification:
  assumes "make_outcome attempt e = Inr out"
  shows "(get ''committed'' out = JBool True) = candidate_wins e \<and>
    (get ''committed'' out = JBool False) = (\<not> candidate_wins e \<and> parent_stands e) \<and>
    (get ''state'' out = JStr ''committed'') =
      (candidate_wins e \<and> audit_state e = ''complete'' \<and> durability_state e \<noteq> ''incomplete'') \<and>
    (get ''state'' out = JStr ''not_committed'') =
      (\<not> candidate_wins e \<and> parent_stands e \<and> durability_state e \<noteq> ''incomplete'') \<and>
    (get ''state'' out = JStr ''outcome_unknown'') = (get ''committed'' out = JNull) \<and>
    get ''transaction_id'' out = get ''transaction_id'' attempt"
proof -
  have out: "out = outcome_object (get ''transaction_id'' attempt) e"
    using assms by (auto simp: make_outcome_def validate_attempt_iff)
  show ?thesis
    by (cases "candidate_wins e"; cases "parent_stands e")
      (simp_all add: out outcome_object_def outcome_authority_cases outcome_state_def)
qed

section \<open>Examples\<close>

definition sample_attempt :: json where
  "sample_attempt = attempt_of (attempt_core ''initialize'' some_uuid
     [(''expected_current'', JNull), (''initialization_fingerprint'', JStr (digest_json JNull))])"

lemma some_uuid_shape [simp]: "uuid_shape some_uuid"
  by code_simp

lemma sample_attempt_valid: "validate_attempt sample_attempt = Inr sample_attempt"
  unfolding validate_attempt_iff sample_attempt_def operation_fields_def
  using some_uuid_shape digest_shape_digest_json by blast

lemma attempt_fingerprint_binds_witness:
  "validate_attempt sample_attempt = Inr sample_attempt \<and>
   (sample_attempt = sample_attempt \<or>
    collision (canonical_json (unbound sample_attempt)) (canonical_json (unbound sample_attempt)))"
  using attempt_fingerprint_binds[OF sample_attempt_valid sample_attempt_valid refl] sample_attempt_valid
  by blast

definition sample_evidence :: evidence where
  "sample_evidence = \<lparr>parent_revision = Some ''p'', candidate_revision = Some ''c'',
     current_observed = Some ''c'', relation = ''current'', recorded = Some True,
     audit_state = ''complete'', durability_state = ''complete'', operation_error = None, warnings = []\<rparr>"

lemma outcome_classification_witness:
  "case make_outcome sample_attempt sample_evidence of
     Inr out \<Rightarrow> get ''committed'' out = JBool True \<and> get ''state'' out = JStr ''committed''
   | Inl _ \<Rightarrow> False"
proof -
  obtain out where o: "make_outcome sample_attempt sample_evidence = Inr out"
    by (simp add: make_outcome_def sample_attempt_valid)
  show ?thesis
    using outcome_classification[OF o] o by (simp add: sample_evidence_def candidate_wins_def)
qed

end
