(* ===== verification/Records.thy ===== *)
theory Records
  imports Canonical
begin

text \<open>
  The pure readers of a record: \<open>an_kla/vigency.py\<close> (is a record in force), \<open>an_kla/record_text.py\<close>
  (the text the index sees), \<open>an_kla/subject_ref.py\<close> (the grammar of subject references and the
  namespace derived from the project identity) and \<open>an_kla/subject_binding.py\<close> (the guard that
  every reference of a plan belongs to the bound project).
\<close>

section \<open>Vigency\<close>

text \<open>\<open>record.get("status", record.get("nu", "vigente"))\<close>: a key that holds \<open>None\<close> is present.\<close>

definition vigency_value :: "json \<Rightarrow> json" where
  "vigency_value record =
     (if has_key ''status'' record then get ''status'' record
      else if has_key ''nu'' record then get ''nu'' record
      else JStr ''vigente'')"

text \<open>The \<open>TypeError\<close> of an unhashable value is caught and means \<open>False\<close>.\<close>

definition is_active :: "json \<Rightarrow> bool" where
  "is_active record =
     (let v = vigency_value record in
      if hashable v then str_in v [''vigente'', ''active''] \<or> v = JNull else False)"

definition is_canonical_vigency :: "json \<Rightarrow> bool" where
  "is_canonical_vigency record =
     (if \<not> has_key ''status'' record \<and> \<not> has_key ''nu'' record then True
      else let v = get (if has_key ''status'' record then ''status'' else ''nu'') record
           in v = JNull \<or> nonempty_str v)"

lemma is_active_iff:
  "is_active record \<longleftrightarrow>
     vigency_value record \<in> {JNull, JStr ''vigente'', JStr ''active''}"
  by (cases "vigency_value record") (auto simp: is_active_def str_in_def)

lemma is_active_canonical: "is_active record \<Longrightarrow> is_canonical_vigency record"
  by (auto simp: is_active_iff is_canonical_vigency_def vigency_value_def split: if_splits)

section \<open>The text of a record\<close>

text \<open>\<open>str.strip()\<close>: the characters for which \<open>str.isspace\<close> holds, by their UTF-8 encodings.\<close>

definition ws_encodings :: "string list" where
  "ws_encodings =
     map (\<lambda>n. [char_of (n :: nat)]) [9, 10, 11, 12, 13, 28, 29, 30, 31, 32]
     @ map (map (char_of :: nat \<Rightarrow> char))
         ([[0xC2, 0x85], [0xC2, 0xA0], [0xE1, 0x9A, 0x80]]
          @ map (\<lambda>n. [0xE2, 0x80, n]) [0x80 ..< 0x8B]
          @ [[0xE2, 0x80, 0xA8], [0xE2, 0x80, 0xA9], [0xE2, 0x80, 0xAF],
             [0xE2, 0x81, 0x9F], [0xE3, 0x80, 0x80]])"

function strip_left :: "string list \<Rightarrow> string \<Rightarrow> string" where
  "strip_left ws s =
     (case find (\<lambda>w. w \<noteq> [] \<and> prefix w s) ws of
        None \<Rightarrow> s
      | Some w \<Rightarrow> strip_left ws (drop (length w) s))"
  by pat_completeness auto

termination
  by (relation "measure (\<lambda>(ws, s). length s)")
     (auto simp: find_Some_iff prefix_def)

declare strip_left.simps [simp del]

definition strip :: "string \<Rightarrow> string" where
  "strip s = rev (strip_left (map rev ws_encodings) (rev (strip_left ws_encodings s)))"

text \<open>The first non-blank string, field by field and, for each field, payload before record.\<close>

definition text_fields :: "string list" where
  "text_fields = [''indexable_text'', ''text'', ''render'', ''summary'', ''p'']"

definition blank_free :: "json \<Rightarrow> bool" where
  "blank_free v \<longleftrightarrow> is_str v \<and> strip (str_of v) \<noteq> []"

definition record_text :: "json \<Rightarrow> string" where
  "record_text record =
     (let payload = get ''payload'' record;
          containers = (if is_obj payload then [payload, record] else [record]);
          candidates = concat (map (\<lambda>field. map (get field) containers) text_fields)
      in case find blank_free candidates of
           Some v \<Rightarrow> strip (str_of v)
         | None \<Rightarrow> if blank_free payload then strip (str_of payload) else [])"

lemma record_text_priority:
  assumes "blank_free (get ''indexable_text'' record)" "\<not> is_obj (get ''payload'' record)"
  shows "record_text record = strip (str_of (get ''indexable_text'' record))"
  using assms by (simp add: record_text_def text_fields_def Let_def)

section \<open>Subject references\<close>

definition subject_kinds :: "string list" where
  "subject_kinds =
     [''actor'', ''api'', ''decision'', ''dependency'', ''doc'', ''environment'', ''integration'',
      ''issue'', ''project'', ''service'', ''system'']"

definition is_namespace :: "string \<Rightarrow> bool" where
  "is_namespace s \<longleftrightarrow> prefix ''p-'' s \<and> length s = 34 \<and> list_all is_lower_hex (drop 2 s)"

definition subject_id_char :: "char \<Rightarrow> bool" where
  "subject_id_char c \<longleftrightarrow> is_lower c \<or> is_digit c \<or> c \<in> {CHR ''.'', CHR ''_'', CHR ''-''}"

definition is_subject_id :: "string \<Rightarrow> bool" where
  "is_subject_id s \<longleftrightarrow> 1 \<le> length s \<and> length s \<le> 64 \<and> list_all subject_id_char s"

record subject =
  subject_kind :: string
  subject_namespace :: string
  subject_id :: string

text \<open>
  \<open>SUBJECT_REF_PATTERN\<close> with \<open>fullmatch\<close>: none of the alternatives holds a colon, so a text
  matches exactly when its six parts between colons do.
\<close>

definition parse_subject_ref :: "json \<Rightarrow> subject res" where
  "parse_subject_ref value =
     (case value of
        JStr s \<Rightarrow>
          (case split_on (CHR '':'') s of
             [a, b, c, kind, namespace, sid] \<Rightarrow>
               if a = ''an-kla'' \<and> b = ''subject'' \<and> c = ''v1'' \<and> kind \<in> set subject_kinds
                  \<and> is_namespace namespace \<and> is_subject_id sid
               then Inr \<lparr>subject_kind = kind, subject_namespace = namespace, subject_id = sid\<rparr>
               else raise SubjectRefError ''invalid_subject_ref''
           | _ \<Rightarrow> raise SubjectRefError ''invalid_subject_ref'')
      | _ \<Rightarrow> raise SubjectRefError ''invalid_subject_ref'')"

text \<open>\<open>"p-" + digest_bytes(project_bytes)[7:39]\<close>\<close>

definition derive_namespace :: "string \<Rightarrow> string" where
  "derive_namespace project_bytes = ''p-'' @ take 32 (drop 7 (digest_bytes project_bytes))"

definition print_subject :: "subject \<Rightarrow> string" where
  "print_subject s =
     join '':'' [''an-kla'', ''subject'', ''v1'', subject_kind s, subject_namespace s, subject_id s]"

definition valid_subject :: "subject \<Rightarrow> bool" where
  "valid_subject s \<longleftrightarrow>
     subject_kind s \<in> set subject_kinds \<and> is_namespace (subject_namespace s)
     \<and> is_subject_id (subject_id s)"

section \<open>The namespace guard of a plan\<close>

text \<open>\<open>check_subject_ref_binding\<close>; \<open>project_bytes\<close> is the entry of the captured binding.\<close>

definition check_record_binding :: "string \<Rightarrow> json \<Rightarrow> unit res" where
  "check_record_binding project_bytes record =
     (if \<not> has_key ''subject_ref'' record then Inr ()
      else andthen
        (except_as (\<lambda>e. exn_class e = SubjectRefError)
           (Exn WritePolicyError ''invalid_write_proposal'' (Some ''record.subject_ref''))
           (parse_subject_ref (get ''subject_ref'' record)))
        (\<lambda>parsed. ensure (subject_namespace parsed = derive_namespace project_bytes)
           (Exn WritePolicyError ''subject_ref_namespace_mismatch'' None)))"

definition check_subject_ref_binding :: "json \<Rightarrow> string \<Rightarrow> unit res" where
  "check_subject_ref_binding checked_plan project_bytes =
     each (\<lambda>item. check_record_binding project_bytes (get ''record'' item))
       (list_items (get ''records'' checked_plan))"

section \<open>Facts\<close>

lemma split_on_free: "c \<notin> set p \<Longrightarrow> split_on c p = [p]"
  by (induction p) auto

lemma split_on_append: "c \<notin> set p \<Longrightarrow> split_on c (p @ c # r) = p # split_on c r"
  by (induction p) auto

lemma namespace_no_colon: "is_namespace s \<Longrightarrow> CHR '':'' \<notin> set s"
proof -
  assume "is_namespace s"
  then obtain t where "s = ''p-'' @ t" "list_all is_lower_hex t"
    by (auto simp: is_namespace_def prefix_def)
  then show ?thesis by (auto simp: list_all_iff is_lower_hex_def is_digit_def)
qed

lemma subject_id_no_colon: "is_subject_id s \<Longrightarrow> CHR '':'' \<notin> set s"
  by (auto simp: is_subject_id_def list_all_iff subject_id_char_def is_lower_def is_digit_def)

lemma kind_no_colon: "k \<in> set subject_kinds \<Longrightarrow> CHR '':'' \<notin> set k"
  by (auto simp: subject_kinds_def)

lemma split_print_subject:
  assumes "valid_subject s"
  shows "split_on (CHR '':'') (print_subject s)
    = [''an-kla'', ''subject'', ''v1'', subject_kind s, subject_namespace s, subject_id s]"
proof -
  have free: "CHR '':'' \<notin> set (subject_kind s)" "CHR '':'' \<notin> set (subject_namespace s)"
    "CHR '':'' \<notin> set (subject_id s)"
    using assms by (simp_all add: valid_subject_def kind_no_colon namespace_no_colon
        subject_id_no_colon)
  show ?thesis
    using free by (simp add: print_subject_def split_on_append split_on_free)
qed

lemma parse_print_subject:
  "valid_subject s \<Longrightarrow> parse_subject_ref (JStr (print_subject s)) = Inr s"
  by (simp add: parse_subject_ref_def split_print_subject) (simp add: valid_subject_def)

lemma parse_subject_ref_sound:
  "parse_subject_ref v = Inr s \<Longrightarrow> v = JStr (print_subject s) \<and> valid_subject s"
proof -
  assume p: "parse_subject_ref v = Inr s"
  then obtain t where v: "v = JStr t" by (cases v) (auto simp: parse_subject_ref_def)
  with p have sp: "split_on (CHR '':'') t
      = [''an-kla'', ''subject'', ''v1'', subject_kind s, subject_namespace s, subject_id s]"
    and ok: "valid_subject s"
    by (auto simp: parse_subject_ref_def valid_subject_def split: list.splits if_splits)
  have "t = print_subject s"
    using join_split_on[of "CHR '':''" t] unfolding sp print_subject_def by (rule sym)
  with v ok show ?thesis by simp
qed

lemma is_namespace_derive [simp]: "is_namespace (derive_namespace b)"
proof -
  have "list_all is_lower_hex (take 32 (sha256_hex b))"
    using sha256_hex_lower_hex[of b] by (auto simp: list_all_iff dest: in_set_takeD)
  then show ?thesis by (simp add: is_namespace_def derive_namespace_def digest_bytes_def)
qed

lemma strip_left_no_ws: "find (\<lambda>w. w \<noteq> [] \<and> prefix w (strip_left ws s)) ws = None"
proof (induction ws s rule: strip_left.induct)
  case (1 ws s)
  show ?case
  proof (cases "find (\<lambda>w. w \<noteq> [] \<and> prefix w s) ws")
    case None
    then show ?thesis by (simp add: strip_left.simps[of ws s])
  next
    case (Some w)
    then show ?thesis using "1.IH"[OF Some] by (simp add: strip_left.simps[of ws s])
  qed
qed

lemma ex_subject:
  "(\<exists>s. P s) \<longleftrightarrow> (\<exists>k n i. P \<lparr>subject_kind = k, subject_namespace = n, subject_id = i\<rparr>)"
  by (metis subject.cases)

section \<open>Properties\<close>

text \<open>The grammar of subject references is unambiguous: \<open>parse_subject_ref\<close> accepts exactly
  the texts \<open>an-kla:subject:v1:kind:namespace:id\<close> with a known kind, a well-formed namespace and
  an identifier of 1 to 64 permitted characters, and returns those three components.\<close>

theorem parse_subject_ref_exact:
  "parse_subject_ref v = Inr s \<longleftrightarrow> valid_subject s \<and> v = JStr (print_subject s)"
  using parse_print_subject parse_subject_ref_sound by blast

text \<open>The namespace guard admits a plan exactly when every record of it that carries a
  \<open>subject_ref\<close> carries a well-formed one whose namespace is the one derived from the bound
  project identity; a derived namespace is always well formed.\<close>

theorem check_subject_ref_binding_exact:
  "(check_subject_ref_binding plan bytes = Inr ()) =
     list_all (\<lambda>item. if has_key ''subject_ref'' (get ''record'' item) then
        (\<exists>k i. get ''subject_ref'' (get ''record'' item)
             = JStr (print_subject \<lparr>subject_kind = k, subject_namespace = derive_namespace bytes, subject_id = i\<rparr>)
           \<and> k \<in> set subject_kinds \<and> is_subject_id i) else True)
       (list_items (get ''records'' plan)) \<and> is_namespace (derive_namespace bytes)"
proof -
  have one: "check_record_binding bytes r = Inr () \<longleftrightarrow> \<not> has_key ''subject_ref'' r \<or>
      (\<exists>k i. get ''subject_ref'' r
         = JStr (print_subject \<lparr>subject_kind = k, subject_namespace = derive_namespace bytes, subject_id = i\<rparr>)
       \<and> k \<in> set subject_kinds \<and> is_subject_id i)" for r
  proof (cases "has_key ''subject_ref'' r")
    case True
    have "check_record_binding bytes r = Inr () \<longleftrightarrow>
        (\<exists>s. parse_subject_ref (get ''subject_ref'' r) = Inr s \<and> subject_namespace s = derive_namespace bytes)"
      using True by (simp add: check_record_binding_def)
    also have "\<dots> \<longleftrightarrow> (\<exists>s. valid_subject s \<and> get ''subject_ref'' r = JStr (print_subject s)
        \<and> subject_namespace s = derive_namespace bytes)"
      using parse_print_subject parse_subject_ref_sound by metis
    also have "\<dots> \<longleftrightarrow> (\<exists>k i. get ''subject_ref'' r
         = JStr (print_subject \<lparr>subject_kind = k, subject_namespace = derive_namespace bytes, subject_id = i\<rparr>)
       \<and> k \<in> set subject_kinds \<and> is_subject_id i)"
      unfolding ex_subject
      by (auto simp: valid_subject_def) (use is_namespace_derive in blast)
    finally show ?thesis using True by simp
  qed (simp add: check_record_binding_def)
  show ?thesis by (simp add: check_subject_ref_binding_def one list_all_iff)
qed

end
