(* ===== verification/Temporal.thy ===== *)
theory Temporal
  imports Canonical
begin

text \<open>
  \<open>an_kla/temporal.py\<close>: the closed grammar of \<open>verified_at\<close> timestamps, their normalisation to
  UTC, the canonical output format and the freshness projection. A \<open>datetime\<close> is the record of
  its fields; its offset is in minutes, and \<open>None\<close> for a naive value. The offsets the program
  can meet are at most 14 hours, so normalising moves a date by at most one day.
\<close>

record datetime =
  dt_year :: int
  dt_month :: int
  dt_day :: int
  dt_hour :: int
  dt_minute :: int
  dt_second :: int
  dt_micro :: int

definition is_leap :: "int \<Rightarrow> bool" where
  "is_leap y \<longleftrightarrow> y mod 4 = 0 \<and> (y mod 100 \<noteq> 0 \<or> y mod 400 = 0)"

definition days_in_month :: "int \<Rightarrow> int \<Rightarrow> int" where
  "days_in_month y m =
     (if m = 2 then (if is_leap y then 29 else 28)
      else if m \<in> {4, 6, 9, 11} then 30 else 31)"

text \<open>What the \<open>datetime\<close> constructor accepts.\<close>

definition valid_datetime :: "datetime \<Rightarrow> bool" where
  "valid_datetime d \<longleftrightarrow>
     1 \<le> dt_year d \<and> dt_year d \<le> 9999 \<and> 1 \<le> dt_month d \<and> dt_month d \<le> 12
     \<and> 1 \<le> dt_day d \<and> dt_day d \<le> days_in_month (dt_year d) (dt_month d)
     \<and> 0 \<le> dt_hour d \<and> dt_hour d < 24 \<and> 0 \<le> dt_minute d \<and> dt_minute d < 60
     \<and> 0 \<le> dt_second d \<and> dt_second d < 60 \<and> 0 \<le> dt_micro d \<and> dt_micro d < 1000000"

text \<open>One calendar day forward and back; \<open>None\<close> is the \<open>OverflowError\<close> outside years 1 to 9999.\<close>

definition next_day :: "datetime \<Rightarrow> datetime option" where
  "next_day d =
     (if dt_day d < days_in_month (dt_year d) (dt_month d) then Some (d\<lparr>dt_day := dt_day d + 1\<rparr>)
      else if dt_month d < 12 then Some (d\<lparr>dt_month := dt_month d + 1, dt_day := 1\<rparr>)
      else if dt_year d < 9999 then Some (d\<lparr>dt_year := dt_year d + 1, dt_month := 1, dt_day := 1\<rparr>)
      else None)"

definition prev_day :: "datetime \<Rightarrow> datetime option" where
  "prev_day d =
     (if 1 < dt_day d then Some (d\<lparr>dt_day := dt_day d - 1\<rparr>)
      else if 1 < dt_month d then
        Some (d\<lparr>dt_month := dt_month d - 1,
                dt_day := days_in_month (dt_year d) (dt_month d - 1)\<rparr>)
      else if 1 < dt_year d then
        Some (d\<lparr>dt_year := dt_year d - 1, dt_month := 12, dt_day := 31\<rparr>)
      else None)"

text \<open>\<open>astimezone(timezone.utc)\<close> of a value \<open>offset\<close> minutes ahead of UTC.\<close>

definition to_utc :: "datetime \<Rightarrow> int \<Rightarrow> datetime option" where
  "to_utc d offset =
     (let minutes = dt_hour d * 60 + dt_minute d - offset;
          within = (\<lambda>d m. d\<lparr>dt_hour := m div 60, dt_minute := m mod 60\<rparr>)
      in if minutes < 0 then map_option (\<lambda>d. within d (minutes + 1440)) (prev_day d)
         else if minutes < 1440 then Some (within d minutes)
         else map_option (\<lambda>d. within d (minutes - 1440)) (next_day d))"

section \<open>The grammar of verified_at\<close>

text \<open>A shape is a text in which \<open>d\<close> stands for a digit and any other character for itself.\<close>

fun matches_shape :: "string \<Rightarrow> string \<Rightarrow> bool" where
  "matches_shape [] s = (s = [])"
| "matches_shape (p # ps) [] = False"
| "matches_shape (p # ps) (c # cs) =
     ((if p = CHR ''d'' then is_digit c else c = p) \<and> matches_shape ps cs)"

definition digits_val :: "string \<Rightarrow> int" where
  "digits_val s = int (read_nat s)"

text \<open>The zone: \<open>Z\<close>, or a signed offset up to 14:00 that is not \<open>-00:00\<close>.\<close>

definition zone_ok :: "string \<Rightarrow> bool" where
  "zone_ok z \<longleftrightarrow>
     z = ''Z'' \<or>
     (case z of [] \<Rightarrow> False
      | sg # hm \<Rightarrow>
          (sg = CHR ''+'' \<or> sg = CHR ''-'') \<and> matches_shape ''dd:dd'' hm \<and>
          (let h = digits_val (take 2 hm); m = digits_val (drop 3 hm) in
             m < 60 \<and> (h \<le> 13 \<or> (h = 14 \<and> m = 0)) \<and> (sg = CHR ''-'' \<longrightarrow> h \<noteq> 0 \<or> m \<noteq> 0)))"

definition zone_minutes :: "string \<Rightarrow> int" where
  "zone_minutes z =
     (case z of [] \<Rightarrow> 0
      | sg # hm \<Rightarrow>
          if z = ''Z'' then 0
          else (let n = 60 * digits_val (take 2 hm) + digits_val (drop 3 hm)
                in if sg = CHR ''-'' then - n else n))"

text \<open>
  \<open>VERIFIED_AT_PATTERN\<close>: 19 characters of date and time, an optional fraction of one to six
  digits, and the zone.
\<close>

definition fraction_of :: "string \<Rightarrow> string" where
  "fraction_of rest = (case rest of c # r \<Rightarrow> if c = CHR ''.'' then takeWhile is_digit r else [] | [] \<Rightarrow> [])"

definition zone_of :: "string \<Rightarrow> string" where
  "zone_of rest = (case rest of c # r \<Rightarrow> if c = CHR ''.'' then dropWhile is_digit r else rest | [] \<Rightarrow> [])"

definition verified_at_matches :: "string \<Rightarrow> bool" where
  "verified_at_matches s \<longleftrightarrow>
     matches_shape ''dddd-dd-ddTdd:dd:dd'' (take 19 s) \<and>
     (let rest = drop 19 s in
        (prefix ''.'' rest \<longrightarrow> 1 \<le> length (fraction_of rest) \<and> length (fraction_of rest) \<le> 6)
        \<and> zone_ok (zone_of rest))"

definition read_datetime :: "string \<Rightarrow> datetime" where
  "read_datetime s =
     (let fraction = fraction_of (drop 19 s) in
      \<lparr>dt_year = digits_val (take 4 s), dt_month = digits_val (take 2 (drop 5 s)),
       dt_day = digits_val (take 2 (drop 8 s)), dt_hour = digits_val (take 2 (drop 11 s)),
       dt_minute = digits_val (take 2 (drop 14 s)), dt_second = digits_val (take 2 (drop 17 s)),
       dt_micro = digits_val (fraction @ replicate (6 - length fraction) (CHR ''0''))\<rparr>)"

definition parse_verified_at :: "json \<Rightarrow> datetime res" where
  "parse_verified_at v =
     (case v of
        JStr text \<Rightarrow>
          if \<not> verified_at_matches text then raise TemporalError ''unparseable_verified_at''
          else if \<not> valid_datetime (read_datetime text)
          then raise TemporalError ''unparseable_verified_at''
          else (case to_utc (read_datetime text) (zone_minutes (zone_of (drop 19 text))) of
                  None \<Rightarrow> raise TemporalError ''unrepresentable_verified_at''
                | Some d \<Rightarrow> Inr d)
      | _ \<Rightarrow> raise TemporalError ''unparseable_verified_at'')"

section \<open>Clock values and the output format\<close>

text \<open>An injected clock value: the fields and the offset, \<open>None\<close> when the value is naive.\<close>

type_synonym clock = "datetime \<times> int option"

definition normalize_freshness_now :: "clock \<Rightarrow> datetime res" where
  "normalize_freshness_now value =
     (case snd value of
        None \<Rightarrow> raise TemporalError ''invalid_freshness_now''
      | Some offset \<Rightarrow>
          (case to_utc (fst value) offset of
             None \<Rightarrow> raise TemporalError ''invalid_freshness_now''
           | Some d \<Rightarrow> Inr d))"

definition parse_freshness_now :: "json \<Rightarrow> datetime res" where
  "parse_freshness_now text =
     (if \<not> is_str text then raise TemporalError ''invalid_freshness_now''
      else except_as (\<lambda>e. exn_class e = TemporalError)
             (Exn TemporalError ''invalid_freshness_now'' None) (parse_verified_at text))"

fun pad_digits :: "nat \<Rightarrow> nat \<Rightarrow> string" where
  "pad_digits 0 n = []"
| "pad_digits (Suc w) n = pad_digits w (n div 10) @ [digit_char (n mod 10)]"

definition format_fields :: "datetime \<Rightarrow> string" where
  "format_fields d =
     pad_digits 4 (nat (dt_year d)) @ ''-'' @ pad_digits 2 (nat (dt_month d)) @ ''-'' @
     pad_digits 2 (nat (dt_day d)) @ ''T'' @ pad_digits 2 (nat (dt_hour d)) @ '':'' @
     pad_digits 2 (nat (dt_minute d)) @ '':'' @ pad_digits 2 (nat (dt_second d)) @ ''.'' @
     pad_digits 6 (nat (dt_micro d)) @ ''Z''"

definition format_utc :: "clock \<Rightarrow> string res" where
  "format_utc value = andthen (normalize_freshness_now value) (\<lambda>d. Inr (format_fields d))"

definition validate_stale_after_days :: "json \<Rightarrow> int option res" where
  "validate_stale_after_days value =
     (case value of
        JNull \<Rightarrow> Inr None
      | JInt n \<Rightarrow> if n < 0 then raise TemporalError ''invalid_stale_after_days'' else Inr (Some n)
      | _ \<Rightarrow> raise TemporalError ''invalid_stale_after_days'')"

section \<open>Freshness\<close>

text \<open>The proleptic Gregorian ordinal, and the microseconds since the start of year 1.\<close>

definition days_before_year :: "int \<Rightarrow> int" where
  "days_before_year y = (let p = y - 1 in p * 365 + p div 4 - p div 100 + p div 400)"

definition days_before_month :: "int \<Rightarrow> int \<Rightarrow> int" where
  "days_before_month y m = sum_list (map (days_in_month y) [1..m - 1])"

definition timestamp_micros :: "datetime \<Rightarrow> int" where
  "timestamp_micros d =
     ((((days_before_year (dt_year d) + days_before_month (dt_year d) (dt_month d) + dt_day d) * 24
        + dt_hour d) * 60 + dt_minute d) * 60 + dt_second d) * 1000000 + dt_micro d"

definition MICROSECONDS_PER_DAY :: int where
  "MICROSECONDS_PER_DAY = 86400000000"

text \<open>Complete days between two instants, truncated towards zero.\<close>

definition days_between :: "int \<Rightarrow> int" where
  "days_between micros =
     (let complete_days = \<bar>micros\<bar> div MICROSECONDS_PER_DAY
      in if micros < 0 then - complete_days else complete_days)"

definition compute_freshness :: "json \<Rightarrow> clock \<Rightarrow> json \<Rightarrow> json res" where
  "compute_freshness verified_at now stale_after_days =
     andthen (normalize_freshness_now now) (\<lambda>computed_at.
     andthen (validate_stale_after_days stale_after_days) (\<lambda>threshold.
       if \<not> is_str verified_at then Inr (mk_obj [])
       else case parse_verified_at verified_at of
         Inl e \<Rightarrow> Inr (mk_obj [(''verified_at'', verified_at), (''freshness_error'', JStr (exn_code e))])
       | Inr verified \<Rightarrow>
           let days = days_between (timestamp_micros computed_at - timestamp_micros verified)
           in Inr (mk_obj
             ([(''verified_at'', verified_at), (''days_since_verified'', JInt days)]
              @ (case threshold of
                   Some n \<Rightarrow> if days > n then [(''stale'', JBool True)] else []
                 | None \<Rightarrow> [])))))"

definition project_record_freshness :: "json \<Rightarrow> clock \<Rightarrow> json \<Rightarrow> json res" where
  "project_record_freshness record now stale_after_days =
     compute_freshness (get ''verified_at'' record) now stale_after_days"

record freshness_counts =
  evaluated :: nat
  not_evaluable :: nat
  unparseable :: nat
  stale :: nat

definition count_freshness :: "json \<Rightarrow> freshness_counts \<Rightarrow> freshness_counts" where
  "count_freshness item c =
     (if get ''freshness_error'' item \<noteq> JNull then c\<lparr>unparseable := unparseable c + 1\<rparr>
      else if has_key ''days_since_verified'' item
      then c\<lparr>evaluated := evaluated c + 1,
              stale := (if get ''stale'' item = JBool True then stale c + 1 else stale c)\<rparr>
      else c\<lparr>not_evaluable := not_evaluable c + 1\<rparr>)"

definition summarize_freshness :: "json list \<Rightarrow> freshness_counts" where
  "summarize_freshness items =
     fold count_freshness items \<lparr>evaluated = 0, not_evaluable = 0, unparseable = 0, stale = 0\<rparr>"

section \<open>Facts\<close>

lemma days_in_month_bounds: "28 \<le> days_in_month y m" "days_in_month y m \<le> 31"
  by (auto simp: days_in_month_def)

lemma days_in_month_pos [simp]: "1 \<le> days_in_month y m" "days_in_month y 12 = 31"
  by (simp_all add: days_in_month_def)

lemma valid_next_day: "valid_datetime d \<Longrightarrow> next_day d = Some d' \<Longrightarrow> valid_datetime d'"
  by (simp add: next_day_def valid_datetime_def split: if_splits) (hypsubst, simp)+

lemma valid_prev_day: "valid_datetime d \<Longrightarrow> prev_day d = Some d' \<Longrightarrow> valid_datetime d'"
  by (simp add: prev_day_def valid_datetime_def split: if_splits) (hypsubst, simp)+

lemma days_between_neg: "days_between (- x) = - days_between x"
  by (auto simp: days_between_def Let_def)

lemma days_between_sign: "0 \<le> x \<Longrightarrow> 0 \<le> days_between x" "x \<le> 0 \<Longrightarrow> days_between x \<le> 0"
proof -
  show p: "0 \<le> days_between x" if "0 \<le> x" for x
    using that by (simp add: days_between_def MICROSECONDS_PER_DAY_def pos_imp_zdiv_nonneg_iff)
  show "x \<le> 0 \<Longrightarrow> days_between x \<le> 0" using p[of "- x"] by (simp add: days_between_neg)
qed

lemma quotient_bounds:
  "\<lbrakk>q * b + r = a; 0 \<le> r; r < b\<rbrakk> \<Longrightarrow> q * b \<le> a \<and> a < (q + 1) * (b :: int)"
  by (auto simp: distrib_right)

lemma days_between_bounds:
  "\<bar>days_between x\<bar> * MICROSECONDS_PER_DAY \<le> \<bar>x\<bar>
   \<and> \<bar>x\<bar> < (\<bar>days_between x\<bar> + 1) * MICROSECONDS_PER_DAY"
proof -
  have e: "\<bar>days_between x\<bar> = \<bar>x\<bar> div 86400000000"
    by (simp add: days_between_def Let_def MICROSECONDS_PER_DAY_def)
  show ?thesis unfolding e MICROSECONDS_PER_DAY_def
    by (rule quotient_bounds[OF div_mult_mod_eq]) simp_all
qed

lemma fold_count_freshness:
  "evaluated (fold count_freshness xs c) + not_evaluable (fold count_freshness xs c)
     + unparseable (fold count_freshness xs c)
   = evaluated c + not_evaluable c + unparseable c + length xs"
  by (induction xs arbitrary: c) (auto simp: count_freshness_def)

lemma fold_count_stale:
  "stale c \<le> evaluated c \<Longrightarrow> stale (fold count_freshness xs c) \<le> evaluated (fold count_freshness xs c)"
  by (induction xs arbitrary: c) (auto simp: count_freshness_def)

text \<open>Reading back the canonical format.\<close>

lemma length_pad_digits [simp]: "length (pad_digits w n) = w"
  by (induction w n rule: pad_digits.induct) auto

lemma pad_digits_digits: "list_all is_digit (pad_digits w n)"
  by (induction w n rule: pad_digits.induct) auto

lemma read_pad_digits: "n < 10 ^ w \<Longrightarrow> read_nat (pad_digits w n) = n"
proof (induction w n rule: pad_digits.induct)
  case (2 w n)
  then have "n div 10 < 10 ^ w" by (simp add: less_mult_imp_div_less mult.commute)
  with 2 show ?case by (simp add: read_nat_snoc)
qed (simp add: read_nat_def)


lemma matches_shape_digits:
  "list_all is_digit ds \<Longrightarrow>
   matches_shape (replicate (length ds) (CHR ''d'') @ ps) (ds @ r) = matches_shape ps r"
  by (induction ds) auto

lemma replicate_2_4: "replicate 2 x = [x, x]" "replicate 4 x = [x, x, x, x]"
  by (simp_all add: numeral_eq_Suc)

lemma matches_shape_pad [simp]:
  "matches_shape (CHR ''d'' # CHR ''d'' # ps) (pad_digits 2 n @ r) = matches_shape ps r"
  "matches_shape (CHR ''d'' # CHR ''d'' # CHR ''d'' # CHR ''d'' # ps) (pad_digits 4 n @ r)
   = matches_shape ps r"
  using matches_shape_digits[OF pad_digits_digits[of 2 n], of ps r]
    matches_shape_digits[OF pad_digits_digits[of 4 n], of ps r]
  unfolding length_pad_digits replicate_2_4 append_Cons append_Nil by blast+

lemma digits_val_pad: "\<lbrakk>0 \<le> i; i < 10 ^ w\<rbrakk> \<Longrightarrow> digits_val (pad_digits w (nat i)) = i"
proof -
  assume "0 \<le> i" "i < 10 ^ w"
  then have "nat i < 10 ^ w" by (simp add: nat_less_iff)
  then show ?thesis using \<open>0 \<le> i\<close> by (simp add: digits_val_def read_pad_digits)
qed

definition date_time_text :: "datetime \<Rightarrow> string" where
  "date_time_text d =
     pad_digits 4 (nat (dt_year d)) @ ''-'' @ pad_digits 2 (nat (dt_month d)) @ ''-'' @
     pad_digits 2 (nat (dt_day d)) @ ''T'' @ pad_digits 2 (nat (dt_hour d)) @ '':'' @
     pad_digits 2 (nat (dt_minute d)) @ '':'' @ pad_digits 2 (nat (dt_second d))"

lemma format_fields_split:
  "format_fields d = date_time_text d @ CHR ''.'' # pad_digits 6 (nat (dt_micro d)) @ ''Z''"
  by (simp add: format_fields_def date_time_text_def)

lemma length_date_time_text [simp]: "length (date_time_text d) = 19"
  by (simp add: date_time_text_def)

lemma date_time_text_shape: "matches_shape ''dddd-dd-ddTdd:dd:dd'' (date_time_text d)"
  using matches_shape_pad(1)[of "[]" "nat (dt_second d)" "[]"] by (simp add: date_time_text_def)

lemma fraction_of_pad:
  "fraction_of (CHR ''.'' # pad_digits w n @ ''Z'') = pad_digits w n"
  "zone_of (CHR ''.'' # pad_digits w n @ ''Z'') = ''Z''"
  using pad_digits_digits[of w n]
  by (simp_all add: fraction_of_def zone_of_def list_all_iff is_digit_def)

lemma format_fields_matches: "verified_at_matches (format_fields d)"
  unfolding verified_at_matches_def format_fields_split
  by (simp add: date_time_text_shape fraction_of_pad zone_ok_def)

lemma read_date_time_text:
  assumes "valid_datetime d"
  shows "read_datetime (format_fields d) = d"
proof -
  have parts:
    "take 4 (format_fields d) = pad_digits 4 (nat (dt_year d))"
    "take 2 (drop 5 (format_fields d)) = pad_digits 2 (nat (dt_month d))"
    "take 2 (drop 8 (format_fields d)) = pad_digits 2 (nat (dt_day d))"
    "take 2 (drop 11 (format_fields d)) = pad_digits 2 (nat (dt_hour d))"
    "take 2 (drop 14 (format_fields d)) = pad_digits 2 (nat (dt_minute d))"
    "take 2 (drop 17 (format_fields d)) = pad_digits 2 (nat (dt_second d))"
    "fraction_of (drop 19 (format_fields d)) = pad_digits 6 (nat (dt_micro d))"
    by (simp_all add: format_fields_split fraction_of_pad) (simp_all add: date_time_text_def)
  have "dt_day d \<le> 31"
    using assms days_in_month_bounds(2)[of "dt_year d" "dt_month d"] by (simp add: valid_datetime_def)
  with assms show ?thesis
    by (simp add: read_datetime_def parts digits_val_pad valid_datetime_def)
qed

lemma to_utc_zero:
  assumes "valid_datetime d"
  shows "to_utc d 0 = Some d"
proof -
  have "0 \<le> dt_hour d * 60 + dt_minute d" "dt_hour d * 60 + dt_minute d < 1440"
    "(dt_hour d * 60 + dt_minute d) div 60 = dt_hour d"
    "(dt_hour d * 60 + dt_minute d) mod 60 = dt_minute d"
    using assms by (simp_all add: valid_datetime_def div_add1_eq)
  then show ?thesis by (simp add: to_utc_def)
qed

section \<open>Normalising to UTC keeps the instant\<close>

definition ordinal :: "datetime \<Rightarrow> int" where
  "ordinal d = days_before_year (dt_year d) + days_before_month (dt_year d) (dt_month d) + dt_day d"

lemma days_before_month_succ:
  "1 \<le> m \<Longrightarrow> days_before_month y (m + 1) = days_before_month y m + days_in_month y m"
  using upto_rec2[of 1 m] by (simp add: days_before_month_def)

lemma year_length: "days_before_month y 12 + 31 = (if is_leap y then 366 else 365)"
proof -
  have "[1..(12::int) - 1] = [1, 2, 3, 4, 5, 6, 7, 8, 9, 10, 11]" by code_simp
  then show ?thesis by (simp add: days_before_month_def days_in_month_def)
qed

lemma div_step: "0 < n \<Longrightarrow> (y :: int) div n = (y - 1) div n + (if y mod n = 0 then 1 else 0)"
proof -
  assume n: "0 < n"
  have y: "y = n * (y div n) + y mod n" by simp
  have r: "0 \<le> y mod n" "y mod n < n" using n by simp_all
  have "(y - 1) div n = (n * (y div n) + (y mod n - 1)) div n" using y by (metis add_diff_eq)
  also have "\<dots> = y div n + (y mod n - 1) div n"
    using n by (simp add: div_mult_self3)
  finally have e: "(y - 1) div n = y div n + (y mod n - 1) div n" .
  show ?thesis
  proof (cases "y mod n = 0")
    case True
    have "(- 1) div n = - 1" using n by (simp add: div_eq_minus1)
    with True e show ?thesis by simp
  next
    case False
    with r have "(y mod n - 1) div n = 0" by (intro div_pos_pos_trivial) linarith+
    with False e show ?thesis by simp
  qed
qed

lemma multiple_mod: "(y :: int) mod (a * b) = 0 \<Longrightarrow> y mod a = 0"
  by (metis dvd_eq_mod_eq_0 dvd_mult_left)

lemma days_before_year_succ:
  "days_before_year (y + 1) = days_before_year y + (if is_leap y then 366 else 365)"
proof -
  have s: "y div 4 = (y - 1) div 4 + (if y mod 4 = 0 then 1 else 0)"
    "y div 100 = (y - 1) div 100 + (if y mod 100 = 0 then 1 else 0)"
    "y div 400 = (y - 1) div 400 + (if y mod 400 = 0 then 1 else 0)"
    by (rule div_step; simp)+
  have m: "y mod 400 = 0 \<Longrightarrow> y mod 100 = 0" "y mod 100 = 0 \<Longrightarrow> y mod 4 = 0"
    using multiple_mod[of y 100 4] multiple_mod[of y 4 25] by simp_all
  have l: "(if is_leap y then 366 else 365 :: int)
    = 365 + (if y mod 4 = 0 then 1 else 0) - (if y mod 100 = 0 then 1 else 0)
      + (if y mod 400 = 0 then 1 else 0)"
    using m by (cases "y mod 4 = 0"; cases "y mod 100 = 0"; cases "y mod 400 = 0")
      (simp_all add: is_leap_def)
  have d: "days_before_year y = (y - 1) * 365 + (y - 1) div 4 - (y - 1) div 100 + (y - 1) div 400"
    by (simp only: days_before_year_def Let_def)
  have "days_before_year (y + 1) = y * 365 + y div 4 - y div 100 + y div 400"
    by (simp only: days_before_year_def Let_def add_diff_cancel_right')
  then show ?thesis unfolding s d l by (simp only: left_diff_distrib)
qed

lemma ordinal_next_day:
  "\<lbrakk>valid_datetime d; next_day d = Some u\<rbrakk> \<Longrightarrow>
   ordinal u = ordinal d + 1 \<and> dt_second u = dt_second d \<and> dt_micro u = dt_micro d"
  using days_before_month_succ[of "dt_month d" "dt_year d"] year_length[of "dt_year d"]
    days_before_year_succ[of "dt_year d"]
  by (auto simp: next_day_def valid_datetime_def ordinal_def days_before_month_def[of _ 1]
      simp del: One_nat_def split: if_splits)

lemma ordinal_prev_day:
  "\<lbrakk>valid_datetime d; prev_day d = Some u\<rbrakk> \<Longrightarrow>
   ordinal u = ordinal d - 1 \<and> dt_second u = dt_second d \<and> dt_micro u = dt_micro d"
  using days_before_month_succ[of "dt_month d - 1" "dt_year d"] year_length[of "dt_year d - 1"]
    days_before_year_succ[of "dt_year d - 1"]
  by (auto simp: prev_day_def valid_datetime_def ordinal_def days_before_month_def[of _ 1]
      split: if_splits)

lemma to_utc_ordinal:
  assumes d: "valid_datetime d" and off: "\<bar>offset\<bar> \<le> 1440" and u: "to_utc d offset = Some u"
  shows "valid_datetime u \<and> dt_second u = dt_second d \<and> dt_micro u = dt_micro d \<and>
    (ordinal u * 24 + dt_hour u) * 60 + dt_minute u
      = (ordinal d * 24 + dt_hour d) * 60 + dt_minute d - offset"
proof -
  let ?m = "dt_hour d * 60 + dt_minute d - offset"
  define set_time where "set_time = (\<lambda>(e :: datetime) m. e\<lparr>dt_hour := m div 60, dt_minute := m mod 60\<rparr>)"
  have m: "- 1440 \<le> ?m" "?m < 2880" using d off by (auto simp: valid_datetime_def)
  have time: "valid_datetime (set_time e n) \<and> dt_second (set_time e n) = dt_second e
      \<and> dt_micro (set_time e n) = dt_micro e
      \<and> (ordinal (set_time e n) * 24 + dt_hour (set_time e n)) * 60 + dt_minute (set_time e n)
        = ordinal e * 1440 + n"
    if "valid_datetime e" "0 \<le> n" "n < 1440" for e n
    using that by (auto simp: valid_datetime_def ordinal_def set_time_def days_before_month_def)
  consider e where "?m < 0" "prev_day d = Some e" "u = set_time e (?m + 1440)"
    | "0 \<le> ?m" "?m < 1440" "u = set_time d ?m"
    | e where "1440 \<le> ?m" "next_day d = Some e" "u = set_time e (?m - 1440)"
    using u by (auto simp: to_utc_def Let_def set_time_def split: if_splits)
  then show ?thesis
  proof cases
    case 1
    with time[of e "?m + 1440"] ordinal_prev_day[OF d] valid_prev_day[OF d] m show ?thesis by auto
  next
    case 2
    with time[of d ?m] d show ?thesis by auto
  next
    case 3
    with time[of e "?m - 1440"] ordinal_next_day[OF d] valid_next_day[OF d] m show ?thesis by auto
  qed
qed

lemma timestamp_micros_ordinal:
  "timestamp_micros d =
     (((ordinal d * 24 + dt_hour d) * 60 + dt_minute d) * 60 + dt_second d) * 1000000 + dt_micro d"
  by (simp only: timestamp_micros_def ordinal_def)

lemma to_utc_instant:
  assumes "valid_datetime d" "\<bar>offset\<bar> \<le> 1440" "to_utc d offset = Some u"
  shows "valid_datetime u \<and> timestamp_micros u = timestamp_micros d - offset * 60000000"
proof -
  note o = to_utc_ordinal[OF assms]
  have "timestamp_micros u = (((ordinal d * 24 + dt_hour d) * 60 + dt_minute d - offset) * 60
      + dt_second d) * 1000000 + dt_micro d"
    unfolding timestamp_micros_ordinal using o by simp
  also have "\<dots> = timestamp_micros d - offset * 60000000"
    unfolding timestamp_micros_ordinal by (simp only: left_diff_distrib distrib_right)
  finally show ?thesis using o by blast
qed

lemma digits_val_less:
  assumes "list_all is_digit s"
  shows "0 \<le> digits_val s" "digits_val s < 10 ^ length s"
proof -
  show "0 \<le> digits_val s" by (simp add: digits_val_def)
  have "read_nat s < 10 ^ length s"
    using assms
  proof (induction s rule: rev_induct)
    case (snoc c s)
    then have "digit_val c < 10" "read_nat s < 10 ^ length s" by simp_all
    then show ?case by (simp add: read_nat_snoc)
  qed (simp add: read_nat_def)
  then show "digits_val s < 10 ^ length s" by (simp add: digits_val_def)
qed

lemma zone_minutes_bound: "zone_ok z \<Longrightarrow> \<bar>zone_minutes z\<bar> \<le> 840"
proof -
  assume z: "zone_ok z"
  show ?thesis
  proof (cases "z = ''Z''")
    case True
    then show ?thesis by (simp add: zone_minutes_def)
  next
    case False
    with z obtain sg hm where zz: "z = sg # hm" by (auto simp: zone_ok_def split: list.splits)
    define h m where "h = digits_val (take 2 hm)" and "m = digits_val (drop 3 hm)"
    have "m < 60" "h \<le> 13 \<or> h = 14 \<and> m = 0"
      using z False unfolding zz zone_ok_def h_def m_def by (auto simp: Let_def)
    moreover have "0 \<le> h" "0 \<le> m" by (simp_all add: h_def m_def digits_val_def)
    ultimately show ?thesis using False unfolding zz zone_minutes_def
      by (auto simp: Let_def h_def[symmetric] m_def[symmetric])
  qed
qed

section \<open>Properties\<close>

text \<open>The canonical timestamp format is read back exactly: for every date and time that a
  \<open>datetime\<close> can hold, \<open>parse_verified_at\<close> accepts what \<open>format_utc\<close> prints for it and returns
  the same fields.\<close>

theorem parse_verified_at_format_utc:
  "valid_datetime d \<Longrightarrow>
   format_utc (d, Some 0) = Inr (format_fields d) \<and>
   parse_verified_at (JStr (format_fields d)) = Inr d"
proof -
  assume v: "valid_datetime d"
  have "zone_of (drop 19 (format_fields d)) = ''Z''"
    by (simp add: format_fields_split fraction_of_pad)
  then show ?thesis
    using v by (simp add: parse_verified_at_def format_fields_matches read_date_time_text
        to_utc_zero zone_minutes_def format_utc_def normalize_freshness_now_def)
qed

definition sample_datetime :: datetime where
  "sample_datetime = \<lparr>dt_year = 2024, dt_month = 2, dt_day = 29, dt_hour = 23, dt_minute = 59,
     dt_second = 58, dt_micro = 1\<rparr>"

lemma parse_verified_at_format_utc_witness:
  "valid_datetime sample_datetime \<and>
   parse_verified_at (JStr ''2024-02-29T23:59:58.000001Z'') = Inr sample_datetime"
proof -
  have v: "valid_datetime sample_datetime" by code_simp
  have f: "format_fields sample_datetime = ''2024-02-29T23:59:58.000001Z''" by code_simp
  show ?thesis using v parse_verified_at_format_utc[OF v] by (simp add: f)
qed

text \<open>An accepted \<open>verified_at\<close> denotes one instant whatever zone it is written in: the parsed
  value is a valid UTC date and time, and its distance in microseconds from the written date and
  time is exactly the written offset, which is at most 14 hours.\<close>

theorem parse_verified_at_instant:
  "parse_verified_at (JStr s) = Inr u \<Longrightarrow>
   valid_datetime u \<and> valid_datetime (read_datetime s) \<and>
   \<bar>zone_minutes (zone_of (drop 19 s))\<bar> \<le> 840 \<and>
   timestamp_micros u
     = timestamp_micros (read_datetime s) - zone_minutes (zone_of (drop 19 s)) * 60000000"
proof -
  assume u: "parse_verified_at (JStr s) = Inr u"
  then have m: "verified_at_matches s" and v: "valid_datetime (read_datetime s)"
    and t: "to_utc (read_datetime s) (zone_minutes (zone_of (drop 19 s))) = Some u"
    by (auto simp: parse_verified_at_def split: if_splits option.splits)
  then have b: "\<bar>zone_minutes (zone_of (drop 19 s))\<bar> \<le> 840"
    by (intro zone_minutes_bound) (simp add: verified_at_matches_def Let_def)
  have "\<bar>zone_minutes (zone_of (drop 19 s))\<bar> \<le> 1440" using b by linarith
  from to_utc_instant[OF v this t] show ?thesis using v b by blast
qed

lemma parse_verified_at_instant_witness:
  "\<exists>u. parse_verified_at (JStr ''2023-12-31T23:30:00-01:00'') = Inr u \<and>
     valid_datetime u \<and> format_fields u = ''2024-01-01T00:30:00.000000Z''"
proof -
  define u where "u = \<lparr>dt_year = 2024, dt_month = 1, dt_day = 1, dt_hour = 0, dt_minute = 30,
     dt_second = 0, dt_micro = 0\<rparr>"
  have p: "parse_verified_at (JStr ''2023-12-31T23:30:00-01:00'') = Inr u"
    unfolding u_def by code_simp
  have f: "format_fields u = ''2024-01-01T00:30:00.000000Z''" unfolding u_def by code_simp
  show ?thesis using p f parse_verified_at_instant[OF p] by blast
qed

text \<open>The freshness of a record with a readable timestamp is the number of complete days
  between the two instants, truncated towards zero and signed, and the record is flagged stale
  exactly when a threshold is given and that number exceeds it.\<close>

theorem compute_freshness_days:
  assumes "normalize_freshness_now now = Inr n" "validate_stale_after_days limit = Inr threshold"
    "parse_verified_at (JStr s) = Inr v"
  shows "\<exists>p days. compute_freshness (JStr s) now limit = Inr p \<and>
     get ''days_since_verified'' p = JInt days \<and>
     \<bar>days\<bar> * MICROSECONDS_PER_DAY \<le> \<bar>timestamp_micros n - timestamp_micros v\<bar> \<and>
     \<bar>timestamp_micros n - timestamp_micros v\<bar> < (\<bar>days\<bar> + 1) * MICROSECONDS_PER_DAY \<and>
     (timestamp_micros v \<le> timestamp_micros n \<longrightarrow> 0 \<le> days) \<and>
     (timestamp_micros n \<le> timestamp_micros v \<longrightarrow> days \<le> 0) \<and>
     (get ''stale'' p = JBool True \<longleftrightarrow> (\<exists>t. threshold = Some t \<and> t < days)) \<and>
     \<not> has_key ''freshness_error'' p"
proof -
  let ?x = "timestamp_micros n - timestamp_micros v"
  have "(0 \<le> ?x \<longrightarrow> 0 \<le> days_between ?x) \<and> (?x \<le> 0 \<longrightarrow> days_between ?x \<le> 0)"
    using days_between_sign by blast
  with days_between_bounds[of ?x] assms show ?thesis
    by (cases threshold) (auto simp: compute_freshness_def Let_def)
qed

lemma compute_freshness_days_witness:
  "\<exists>p days. compute_freshness (JStr ''2024-02-20T00:00:00Z'') (sample_datetime, Some 0) (JInt 3) = Inr p
     \<and> get ''days_since_verified'' p = JInt days
     \<and> (get ''stale'' p = JBool True \<longleftrightarrow> (\<exists>t. Some 3 = Some t \<and> t < days))"
proof -
  define v where "v = \<lparr>dt_year = 2024, dt_month = 2, dt_day = 20, dt_hour = 0, dt_minute = 0,
     dt_second = 0, dt_micro = 0\<rparr>"
  have n: "normalize_freshness_now (sample_datetime, Some 0) = Inr sample_datetime" by code_simp
  have l: "validate_stale_after_days (JInt 3) = Inr (Some 3)" by code_simp
  have p: "parse_verified_at (JStr ''2024-02-20T00:00:00Z'') = Inr v" unfolding v_def by code_simp
  show ?thesis using compute_freshness_days[OF n l p] by blast
qed

end
