(* ===== verification/WritePolicy.thy ===== *)
theory WritePolicy
  imports Records Temporal
begin

text \<open>
  \<open>an_kla/write_policy.py\<close>, the v1 half: the closed shapes of proposals, authorities, decisions
  and plans, the decision ladder and the plan builder. A validator is the list of its statements
  in source order; each one names the code and the informative detail it raises. The entry points
  that also dispatch to batches are in the theory of \<open>write_batch.py\<close>.
\<close>

section \<open>Configuration\<close>

definition write_streams :: "string list" where
  "write_streams = [''facts'', ''events'', ''episodes'']"

definition write_operations :: "string list" where
  "write_operations = [''add'', ''supersede'', ''refute'', ''decay'']"

definition write_representations :: "string list" where
  "write_representations = [''full'', ''summary'']"

definition authority_classes :: "string list" where
  "authority_classes =
     [''tool_observed'', ''channel_confirmed'', ''model_derived'', ''derived_from_retrieval'',
      ''unresolved'']"

definition self_asserted_authority_keys :: "string list" where
  "self_asserted_authority_keys =
     [''authority'', ''authority_class'', ''candidate_risk'', ''confidence'', ''human_confirmed'',
      ''risk'', ''trusted'', ''verified'']"

definition MAX_JSON_DEPTH :: nat where "MAX_JSON_DEPTH = 64"

definition MAX_JSON_NODES :: nat where "MAX_JSON_NODES = 10000"

abbreviation strs :: "string list \<Rightarrow> json" where
  "strs xs \<equiv> JArr (map JStr xs)"

definition evidence_kinds :: "string \<Rightarrow> string list" where
  "evidence_kinds schema =
     (if schema = ''an-kla/write-authority-v1'' then [''artifact'', ''event'', ''external'', ''revision'']
      else [''artifact'', ''attestation_receipt'', ''event'', ''external'', ''revision''])"

definition authority_schemas :: "string list" where
  "authority_schemas = [''an-kla/write-authority-v1'', ''an-kla/write-authority-v2'']"

definition policy_configuration :: json where
  "policy_configuration = mk_obj
    [(''schema'', JStr ''an-kla/write-policy-config-v1''),
     (''profile'', JStr ''write-policy/v1''),
     (''supported_operations'', strs [''add'', ''supersede'']),
     (''authority_schemas'', strs [''an-kla/write-authority-v1'', ''an-kla/write-authority-v2'']),
     (''evidence_kinds'', mk_obj
        [(''an-kla/write-authority-v1'', strs [''artifact'', ''event'', ''external'', ''revision'']),
         (''an-kla/write-authority-v2'',
            strs [''artifact'', ''attestation_receipt'', ''event'', ''external'', ''revision''])]),
     (''attestation'', mk_obj
        [(''decision'', JStr ''ADR-0046''),
         (''receipt_schema'', JStr ''an-kla/attest-receipt-v1''),
         (''signature'', JStr ''hmac-sha256/local-key''),
         (''verification_points'', strs [''plan-write'', ''commit-write-plan'']),
         (''terminal_error_codes'', strs
            [''attest_command_not_allowed'', ''attest_not_initialized'', ''attest_timeout'',
             ''receipt_identity_mismatch'', ''receipt_invalid'', ''receipt_replayed'',
             ''receipt_whitelist_changed''])]),
     (''reason_codes'', strs
        [''authority_scope_mismatch'', ''channel_confirmation_resolved'',
         ''channel_confirmed_requires_adapter'', ''derived_authority_capped'',
         ''derived_from_retrieval'', ''operation_not_supported'', ''record_without_indexable_text'',
         ''representation_accepted'', ''self_asserted_authority_ignored'',
         ''summary_required_for_authority_ceiling'', ''supersede_requires_non_derived_authority'',
         ''tool_evidence_verified'', ''unresolved_authority'']),
     (''terminal_error_codes'', strs
        [''channel_confirmed_requires_adapter'', ''invalid_supersede_target'',
         ''invalid_write_authority'', ''invalid_write_decision'', ''invalid_write_plan'',
         ''invalid_write_proposal'', ''subject_ref_namespace_mismatch'',
         ''write_content_hash_mismatch'', ''write_plan_base_changed'', ''write_plan_hash_mismatch'',
         ''write_policy_fingerprint_mismatch'']),
     (''derived_authority'', mk_obj
        [(''allowed_operations'', strs [''add'', ''supersede'']),
         (''maximum_representation'', JStr ''summary'')]),
     (''require_verified_tool_evidence'', JBool True),
     (''channel_confirmed_adapter'', JBool False),
     (''max_batch_records'', JInt 1000),
     (''record_validators'', mk_obj
        [(''subject_ref'', JStr ''an-kla-subject-ref/v1''),
         (''verified_at'', JStr ''an-kla-verified-at/v1'')]),
     (''self_asserted_authority_keys'', strs self_asserted_authority_keys)]"

definition policy_fingerprint :: string where
  "policy_fingerprint = digest_json policy_configuration"

definition supported_operations :: "json list" where
  "supported_operations = list_items (get ''supported_operations'' policy_configuration)"

definition channel_confirmed_adapter :: bool where
  "channel_confirmed_adapter = (get ''channel_confirmed_adapter'' policy_configuration = JBool True)"

definition derived_allowed_operations :: "json list" where
  "derived_allowed_operations =
     list_items (get ''allowed_operations'' (get ''derived_authority'' policy_configuration))"

section \<open>Shared checks\<close>

text \<open>\<open>_require_exact_keys\<close> names the missing and the extra keys in its detail.\<close>

definition key_report :: "string list \<Rightarrow> string list \<Rightarrow> string" where
  "key_report missing extra =
     join '';'' ((if missing = [] then [] else [''missing='' @ join '','' missing])
                 @ (if extra = [] then [] else [''extra='' @ join '','' extra]))"

definition missing_keys :: "json \<Rightarrow> string list \<Rightarrow> string list" where
  "missing_keys value required = sorted_set (filter (\<lambda>k. \<not> has_key k value) required)"

definition extra_keys :: "json \<Rightarrow> string list \<Rightarrow> string list" where
  "extra_keys value known = sorted_set (filter (\<lambda>k. k \<notin> set known) (dict_keys value))"

definition exact_keys ::
  "exn_class \<Rightarrow> json \<Rightarrow> string list \<Rightarrow> string list \<Rightarrow> string \<Rightarrow> string \<Rightarrow> unit res" where
  "exact_keys cls value required optional code detail =
     (let missing = missing_keys value required; extra = extra_keys value (required @ optional)
      in ensure (missing = [] \<and> extra = [])
           (Exn cls code (Some (detail @ '':'' @ key_report missing extra))))"

text \<open>\<open>_DIGEST.fullmatch\<close>\<close>

definition is_digest :: "json \<Rightarrow> bool" where
  "is_digest v \<longleftrightarrow> (case v of JStr s \<Rightarrow> digest_shape s | _ \<Rightarrow> False)"

text \<open>
  The walk of \<open>_validate_json_value\<close>: \<open>nodes\<close> counts the values met so far, \<open>None\<close> is the
  exception. The limits are tested at every node before anything else.
\<close>

fun visit :: "nat \<Rightarrow> nat \<Rightarrow> json \<Rightarrow> nat \<Rightarrow> nat option"
  and visit_list :: "nat \<Rightarrow> nat \<Rightarrow> json list \<Rightarrow> nat \<Rightarrow> nat option"
  and visit_members :: "nat \<Rightarrow> nat \<Rightarrow> (string \<times> json) list \<Rightarrow> nat \<Rightarrow> nat option" where
  "visit limit depth item nodes =
     (if limit < nodes + 1 \<or> MAX_JSON_DEPTH < depth then None
      else case item of
        JFloat f \<Rightarrow> if finite_float f then Some (nodes + 1) else None
      | JArr xs \<Rightarrow> visit_list limit (depth + 1) xs (nodes + 1)
      | JObj m \<Rightarrow> visit_members limit (depth + 1) m (nodes + 1)
      | _ \<Rightarrow> Some (nodes + 1))"
| "visit_list limit depth [] nodes = Some nodes"
| "visit_list limit depth (x # xs) nodes =
     (case visit limit depth x nodes of None \<Rightarrow> None | Some n \<Rightarrow> visit_list limit depth xs n)"
| "visit_members limit depth [] nodes = Some nodes"
| "visit_members limit depth ((k, x) # m) nodes =
     (case visit limit depth x nodes of None \<Rightarrow> None | Some n \<Rightarrow> visit_members limit depth m n)"

text \<open>The text can be encoded: \<open>canonical_json\<close> raises on lone surrogates and non-finite floats.\<close>

fun encodable :: "json \<Rightarrow> bool" where
  "encodable (JFloat f) = finite_float f"
| "encodable (JStr s) = valid_utf8 s"
| "encodable (JArr xs) = list_all encodable xs"
| "encodable (JObj m) = list_all (\<lambda>kv. valid_utf8 (fst kv) \<and> encodable (snd kv)) m"
| "encodable _ = True"

definition json_value_ok :: "json \<Rightarrow> bool" where
  "json_value_ok v \<longleftrightarrow> visit MAX_JSON_NODES 0 v 0 \<noteq> None \<and> encodable v"

abbreviation wpe :: "string \<Rightarrow> string \<Rightarrow> exn" where
  "wpe code detail \<equiv> Exn WritePolicyError code (Some detail)"

definition validate_json_value :: "json \<Rightarrow> string \<Rightarrow> string \<Rightarrow> unit res" where
  "validate_json_value v code detail = ensure (json_value_ok v) (wpe code detail)"

definition validate_reference :: "json \<Rightarrow> string \<Rightarrow> string \<Rightarrow> unit res" where
  "validate_reference value code detail = checks
     [ensure (is_obj value) (wpe code detail),
      exact_keys WritePolicyError value [''kind'', ''id''] [''sha256''] code detail,
      ensure_in (get ''kind'' value)
        [''artifact'', ''event'', ''fact'', ''episode'', ''revision'', ''external''] (wpe code detail),
      ensure (nonempty_str (get ''id'' value)) (wpe code detail),
      ensure (has_key ''sha256'' value \<longrightarrow> is_digest (get ''sha256'' value)) (wpe code detail)]"

section \<open>Proposals\<close>

definition validate_record_fields :: "json \<Rightarrow> string \<Rightarrow> string \<Rightarrow> unit res" where
  "validate_record_fields record code pre = checks
     ([ensure (nonempty_obj record) (wpe code (pre @ '':not_object'')),
       ensure (nonempty_str (get ''id'' record)) (wpe code (pre @ ''.id'')),
       when_ok (has_key ''verified_at'' record)
         (except_as (\<lambda>e. exn_class e = TemporalError) (wpe code (pre @ ''.verified_at''))
            (andthen (parse_verified_at (get ''verified_at'' record)) (\<lambda>_. Inr ())))]
      @ map (\<lambda>field. ensure
               (has_key field record \<longrightarrow> get field record = JNull \<or> is_str (get field record))
               (wpe code (pre @ ''.'' @ field)))
          [''status'', ''nu'']
      @ [when_ok (has_key ''subject_ref'' record)
           (except_as (\<lambda>e. exn_class e = SubjectRefError) (wpe code (pre @ ''.subject_ref''))
              (andthen (parse_subject_ref (get ''subject_ref'' record)) (\<lambda>_. Inr ())))])"

definition validate_supersedes_v1 :: "json \<Rightarrow> string \<Rightarrow> unit res" where
  "validate_supersedes_v1 proposal code =
     (if get ''operation'' proposal = JStr ''supersede''
      then checks
        [ensure (nonempty_str (get ''supersedes'' proposal)) (wpe code ''supersedes:missing_for_supersede''),
         ensure (get ''supersedes'' proposal \<noteq> get ''id'' (get ''record'' proposal))
           (wpe code ''supersedes:self_reference_forbidden'')]
      else ensure (\<not> has_key ''supersedes'' proposal)
             (wpe code ''supersedes:present_without_supersede''))"

definition validate_lineage :: "json \<Rightarrow> string \<Rightarrow> unit res" where
  "validate_lineage lineage code = checks
     [ensure (is_obj lineage) (wpe code ''lineage:not_object''),
      exact_keys WritePolicyError lineage [''derived_from_retrieval'', ''refs''] [] code ''lineage:keys'',
      ensure (is_bool (get ''derived_from_retrieval'' lineage))
        (wpe code ''lineage.derived_from_retrieval:not_bool''),
      ensure (is_arr (get ''refs'' lineage)) (wpe code ''lineage.refs:not_list''),
      each (\<lambda>r. validate_reference r code ''lineage.refs[]:invalid'') (list_items (get ''refs'' lineage))]"

definition validate_proposal_v1 :: "json \<Rightarrow> unit res" where
  "validate_proposal_v1 proposal =
     (let code = ''invalid_write_proposal'' in checks
      [ensure (is_obj proposal) (wpe code ''proposal:not_object''),
       exact_keys WritePolicyError proposal
         [''schema'', ''base_revision'', ''stream'', ''operation'', ''requested_representation'',
          ''record'', ''lineage''] [''supersedes''] code ''proposal:keys'',
       ensure (get ''schema'' proposal = JStr ''an-kla/write-proposal-v1'') (wpe code ''proposal:schema''),
       ensure (is_digest (get ''base_revision'' proposal)) (wpe code ''base_revision:not_digest''),
       ensure_in (get ''stream'' proposal) write_streams (wpe code ''stream''),
       ensure_in (get ''operation'' proposal) write_operations (wpe code ''operation''),
       ensure_in (get ''requested_representation'' proposal) write_representations
         (wpe code ''requested_representation''),
       validate_record_fields (get ''record'' proposal) code ''record'',
       validate_supersedes_v1 proposal code,
       validate_lineage (get ''lineage'' proposal) code,
       validate_json_value proposal code ''proposal:invalid_json''])"

section \<open>Authorities\<close>

definition validate_evidence :: "json \<Rightarrow> string \<Rightarrow> string \<Rightarrow> string list \<Rightarrow> unit res" where
  "validate_evidence value code detail allowed = checks
     [ensure (is_obj value) (wpe code detail),
      exact_keys WritePolicyError value [''kind'', ''id'', ''resolution''] [''sha256''] code detail,
      ensure_in (get ''kind'' value) allowed (wpe code detail),
      ensure (nonempty_str (get ''id'' value)) (wpe code detail),
      ensure_in (get ''resolution'' value) [''verified'', ''unresolved'', ''invalid''] (wpe code detail),
      ensure (has_key ''sha256'' value \<longrightarrow> is_digest (get ''sha256'' value)) (wpe code detail),
      ensure (get ''resolution'' value = JStr ''verified'' \<longrightarrow> has_key ''sha256'' value) (wpe code detail)]"

definition validate_scope_list :: "json \<Rightarrow> string list \<Rightarrow> string \<Rightarrow> string \<Rightarrow> unit res" where
  "validate_scope_list value allowed code detail = checks
     [ensure (is_arr value \<and> list_items value \<noteq> []) (wpe code detail),
      ensure (list_all (\<lambda>item. str_in item allowed) (list_items value)) (wpe code detail),
      ensure (distinct (list_items value)) (wpe code detail)]"

definition allowed_issuer_kinds :: "string \<Rightarrow> string list" where
  "allowed_issuer_kinds cls =
     (if cls = ''tool_observed'' then [''tool'']
      else if cls = ''channel_confirmed'' then [''channel'']
      else if cls = ''model_derived'' then [''model'']
      else if cls = ''derived_from_retrieval'' then [''model'', ''resolver'']
      else if cls = ''unresolved'' then [''unknown'', ''resolver'']
      else [])"

definition validate_issuer :: "json \<Rightarrow> json \<Rightarrow> string \<Rightarrow> unit res" where
  "validate_issuer issuer authority_class code = checks
     [ensure (is_obj issuer) (wpe code ''issuer:not_object''),
      exact_keys WritePolicyError issuer [''kind'', ''id'', ''configuration_fingerprint''] [] code
        ''issuer:keys'',
      ensure_in (get ''kind'' issuer) [''tool'', ''channel'', ''model'', ''resolver'', ''unknown'']
        (wpe code ''issuer.kind''),
      ensure (nonempty_str (get ''id'' issuer)) (wpe code ''issuer.id''),
      ensure (is_digest (get ''configuration_fingerprint'' issuer))
        (wpe code ''issuer.configuration_fingerprint:not_digest''),
      ensure (str_in (get ''kind'' issuer) (allowed_issuer_kinds (str_of authority_class)))
        (wpe code ''issuer.kind:authority_class_mismatch'')]"

definition validate_scope :: "json \<Rightarrow> string \<Rightarrow> unit res" where
  "validate_scope scope code = checks
     [ensure (is_obj scope) (wpe code ''scope:not_object''),
      exact_keys WritePolicyError scope [''streams'', ''representations'', ''operations''] [] code
        ''scope:keys'',
      validate_scope_list (get ''streams'' scope) write_streams code ''scope.streams'',
      validate_scope_list (get ''representations'' scope) write_representations code
        ''scope.representations'',
      validate_scope_list (get ''operations'' scope) write_operations code ''scope.operations'']"

definition validate_write_authority :: "json \<Rightarrow> unit res" where
  "validate_write_authority authority =
     (let code = ''invalid_write_authority'' in checks
      [ensure (is_obj authority) (wpe code ''authority:not_object''),
       exact_keys WritePolicyError authority
         [''schema'', ''proposal_sha256'', ''base_revision'', ''authority_class'', ''issuer'',
          ''evidence'', ''scope''] [] code ''authority:keys'',
       ensure_in (get ''schema'' authority) authority_schemas (wpe code ''authority:schema''),
       ensure (is_digest (get ''proposal_sha256'' authority) \<and> is_digest (get ''base_revision'' authority))
         (wpe code ''proposal_sha256|base_revision:not_digest''),
       ensure_in (get ''authority_class'' authority) authority_classes (wpe code ''authority_class''),
       validate_issuer (get ''issuer'' authority) (get ''authority_class'' authority) code,
       ensure (\<not> (get ''authority_class'' authority = JStr ''channel_confirmed''
                  \<and> \<not> channel_confirmed_adapter))
         (wpe ''channel_confirmed_requires_adapter'' ''authority_class''),
       ensure (is_arr (get ''evidence'' authority)) (wpe code ''evidence:not_list''),
       each (\<lambda>item. validate_evidence item code ''evidence[]:invalid''
               (evidence_kinds (str_of (get ''schema'' authority))))
         (list_items (get ''evidence'' authority)),
       validate_scope (get ''scope'' authority) code,
       validate_json_value authority code ''authority:invalid_json''])"

section \<open>The decision ladder\<close>

text \<open>
  \<open>str.casefold\<close>, as far as membership in a set of ASCII keys can tell: the characters whose
  folding is ASCII are folded, and a text that holds any other character beyond ASCII is in no
  such set before or after folding.
\<close>

definition upper_folds :: "(string \<times> string) list" where
  "upper_folds = map (\<lambda>n. ([char_of (n :: nat)], [char_of (n + 32)])) [65 ..< 91]"

definition special_folds :: "(string \<times> string) list" where
  "special_folds = map (\<lambda>(bs, t). (map (char_of :: nat \<Rightarrow> char) bs, t))
     [([0xC5, 0xBF], ''s''), ([0xE2, 0x84, 0xAA], ''k''), ([0xC3, 0x9F], ''ss''),
      ([0xE1, 0xBA, 0x9E], ''ss''), ([0xEF, 0xAC, 0x80], ''ff''), ([0xEF, 0xAC, 0x81], ''fi''),
      ([0xEF, 0xAC, 0x82], ''fl''), ([0xEF, 0xAC, 0x83], ''ffi''), ([0xEF, 0xAC, 0x84], ''ffl''),
      ([0xEF, 0xAC, 0x85], ''st''), ([0xEF, 0xAC, 0x86], ''st'')]"

function ascii_casefold :: "string \<Rightarrow> string" where
  "ascii_casefold [] = []"
| "ascii_casefold (c # s) =
     (case find (\<lambda>f. fst f \<noteq> [] \<and> prefix (fst f) (c # s)) (upper_folds @ special_folds) of
        Some f \<Rightarrow> snd f @ ascii_casefold (drop (length (fst f)) (c # s))
      | None \<Rightarrow> c # ascii_casefold s)"
  by pat_completeness auto

termination
  by (relation "measure length") (auto simp: find_Some_iff prefix_def)

fun contains_self_asserted_authority :: "json \<Rightarrow> bool" where
  "contains_self_asserted_authority (JObj m) =
     (list_ex (\<lambda>kv. ascii_casefold (fst kv) \<in> set self_asserted_authority_keys) m
      \<or> list_ex (\<lambda>kv. contains_self_asserted_authority (snd kv)) m)"
| "contains_self_asserted_authority (JArr xs) = list_ex contains_self_asserted_authority xs"
| "contains_self_asserted_authority _ = False"

definition decision_object :: "string \<Rightarrow> string \<Rightarrow> string \<Rightarrow> string list \<Rightarrow> json" where
  "decision_object proposal_sha256 authority_sha256 decision reasons = mk_obj
     [(''schema'', JStr ''an-kla/write-decision-v1''),
      (''proposal_sha256'', JStr proposal_sha256),
      (''authority_sha256'', JStr authority_sha256),
      (''policy_profile'', JStr ''write-policy/v1''),
      (''policy_fingerprint'', JStr policy_fingerprint),
      (''decision'', JStr decision),
      (''reason_codes'', strs (sorted_set reasons))]"

definition write_decision :: "string \<Rightarrow> string \<Rightarrow> string \<Rightarrow> string list \<Rightarrow> json" where
  "write_decision proposal_sha256 authority_sha256 decision reasons =
     decision_object proposal_sha256 authority_sha256 decision
       (if decision \<noteq> ''skip'' then ''representation_accepted'' # reasons else reasons)"

text \<open>
  The ladder of \<open>evaluate_write\<close> on validated inputs: the decision and the reasons collected on
  the way to it, in the order of the code's tests.
\<close>

definition scope_mismatch :: "json \<Rightarrow> json \<Rightarrow> bool" where
  "scope_mismatch proposal authority \<longleftrightarrow>
     (let scope = get ''scope'' authority in
      get ''proposal_sha256'' authority \<noteq> JStr (digest_json proposal)
      \<or> get ''base_revision'' authority \<noteq> get ''base_revision'' proposal
      \<or> get ''stream'' proposal \<notin> set (list_items (get ''streams'' scope))
      \<or> get ''requested_representation'' proposal \<notin> set (list_items (get ''representations'' scope))
      \<or> get ''operation'' proposal \<notin> set (list_items (get ''operations'' scope)))"

definition accept_write :: "json \<Rightarrow> string list \<Rightarrow> string \<times> string list" where
  "accept_write proposal reasons =
     (if get ''requested_representation'' proposal = JStr ''full'' then ''write-full'' else ''write-summary'',
      if record_text (get ''record'' proposal) = [] then reasons @ [''record_without_indexable_text'']
      else reasons)"

definition authority_ladder :: "json \<Rightarrow> json \<Rightarrow> string list \<Rightarrow> string \<times> string list" where
  "authority_ladder proposal authority reasons =
     (let operation = get ''operation'' proposal;
          authority_class = get ''authority_class'' authority
      in if authority_class = JStr ''unresolved'' then (''skip'', reasons @ [''unresolved_authority''])
         else if authority_class = JStr ''tool_observed'' then
           (if \<not> list_ex (\<lambda>item. get ''resolution'' item = JStr ''verified'')
                   (list_items (get ''evidence'' authority))
            then (''skip'', reasons @ [''unresolved_authority''])
            else accept_write proposal (reasons @ [''tool_evidence_verified'']))
         else if authority_class = JStr ''channel_confirmed'' then
           (if \<not> channel_confirmed_adapter
            then (''skip'', reasons @ [''channel_confirmed_requires_adapter''])
            else accept_write proposal (reasons @ [''channel_confirmation_resolved'']))
         else
           let reasons = reasons @ [''derived_authority_capped'']
           in if operation = JStr ''supersede'' \<and> authority_class = JStr ''derived_from_retrieval''
              then (''skip'', reasons @ [''supersede_requires_non_derived_authority''])
              else if operation \<notin> set derived_allowed_operations then (''skip'', reasons)
              else if get ''requested_representation'' proposal = JStr ''full''
              then (''skip'', reasons @ [''summary_required_for_authority_ceiling''])
              else accept_write proposal reasons)"

definition decide_write :: "json \<Rightarrow> json \<Rightarrow> string \<times> string list" where
  "decide_write proposal authority =
     (let reasons = (if contains_self_asserted_authority (get ''record'' proposal)
                     then [''self_asserted_authority_ignored''] else [])
      in if scope_mismatch proposal authority then (''skip'', reasons @ [''authority_scope_mismatch''])
         else if get ''operation'' proposal \<notin> set supported_operations
         then (''skip'', reasons @ [''operation_not_supported''])
         else authority_ladder proposal authority
           (if get ''derived_from_retrieval'' (get ''lineage'' proposal) = JBool True
            then reasons @ [''derived_from_retrieval''] else reasons))"

definition evaluate_write_v1 :: "json \<Rightarrow> json \<Rightarrow> json res" where
  "evaluate_write_v1 proposal authority =
     andthen (validate_proposal_v1 proposal) (\<lambda>_.
     andthen (validate_write_authority authority) (\<lambda>_.
       case decide_write proposal authority of
         (decision, reasons) \<Rightarrow>
           Inr (write_decision (digest_json proposal) (digest_json authority) decision reasons)))"

section \<open>Decisions\<close>

text \<open>\<open>_REASON_CODE.fullmatch\<close>\<close>

definition is_reason_code :: "json \<Rightarrow> bool" where
  "is_reason_code v \<longleftrightarrow>
     (case v of JStr (c # s) \<Rightarrow> is_lower c \<and> list_all (\<lambda>c. is_lower c \<or> is_digit c \<or> c = CHR ''_'') s
      | _ \<Rightarrow> False)"

definition validate_write_decision :: "json \<Rightarrow> unit res" where
  "validate_write_decision decision =
     (let code = ''invalid_write_decision'';
          reasons = list_items (get ''reason_codes'' decision)
      in checks
      [ensure (is_obj decision) (wpe code ''decision:not_object''),
       exact_keys WritePolicyError decision
         [''schema'', ''proposal_sha256'', ''authority_sha256'', ''policy_profile'',
          ''policy_fingerprint'', ''decision'', ''reason_codes''] [] code ''decision:keys'',
       ensure (get ''schema'' decision = JStr ''an-kla/write-decision-v1'') (wpe code ''decision:schema''),
       ensure (is_digest (get ''proposal_sha256'' decision) \<and> is_digest (get ''authority_sha256'' decision))
         (wpe code ''proposal_sha256|authority_sha256:not_digest''),
       ensure (get ''policy_profile'' decision = JStr ''write-policy/v1''
               \<and> is_digest (get ''policy_fingerprint'' decision))
         (wpe code ''policy_profile|policy_fingerprint''),
       ensure_in (get ''decision'' decision) [''skip'', ''write-full'', ''write-summary'']
         (wpe code ''decision''),
       ensure (is_arr (get ''reason_codes'' decision) \<and> reasons \<noteq> [] \<and> list_all is_reason_code reasons
               \<and> map str_of reasons = sorted_set (map str_of reasons)) (wpe code ''reason_codes''),
       validate_json_value decision code ''decision:invalid_json''])"

text \<open>\<open>_verified_decision\<close> against an expected decision; \<open>None\<close> is \<open>JNull\<close>.\<close>

definition verified_decision :: "json \<Rightarrow> json \<Rightarrow> json res" where
  "verified_decision expected decision =
     (if decision = JNull then Inr expected
      else andthen (checks
        [validate_write_decision decision,
         ensure (get ''policy_fingerprint'' decision = get ''policy_fingerprint'' expected)
           (Exn WritePolicyError ''write_policy_fingerprint_mismatch'' None),
         ensure (get ''proposal_sha256'' decision = get ''proposal_sha256'' expected
                 \<and> get ''authority_sha256'' decision = get ''authority_sha256'' expected)
           (Exn WritePolicyError ''write_content_hash_mismatch'' None),
         ensure (canonical_json decision = canonical_json expected)
           (Exn WritePolicyError ''invalid_write_decision'' None)])
        (\<lambda>_. Inr decision))"

section \<open>Plans\<close>

definition planned_item :: "json \<Rightarrow> json \<Rightarrow> json" where
  "planned_item proposal record = mk_obj
     ([(''stream'', get ''stream'' proposal), (''operation'', get ''operation'' proposal),
       (''representation'', get ''requested_representation'' proposal), (''record'', record)]
      @ (if get ''operation'' proposal = JStr ''supersede''
         then [(''supersedes'', get ''supersedes'' proposal)] else []))"

definition policy_event :: "json \<Rightarrow> json \<Rightarrow> json" where
  "policy_event decision authority_class = mk_obj
     [(''stream'', JStr ''events''), (''operation'', JStr ''add''), (''representation'', JStr ''summary''),
      (''record'', mk_obj
        [(''schema'', JStr ''an-kla/event-v1''),
         (''id'', JStr (''e-write-policy-'' @ drop 7 (str_of (get ''proposal_sha256'' decision)))),
         (''type'', JStr ''write_policy_decision''),
         (''payload'', mk_obj
           [(''authority_class'', authority_class),
            (''authority_sha256'', get ''authority_sha256'' decision),
            (''decision'', get ''decision'' decision),
            (''policy_fingerprint'', get ''policy_fingerprint'' decision),
            (''policy_profile'', get ''policy_profile'' decision),
            (''proposal_sha256'', get ''proposal_sha256'' decision),
            (''reason_codes'', get ''reason_codes'' decision)])])]"

definition plan_core :: "json \<Rightarrow> json \<Rightarrow> json list \<Rightarrow> json" where
  "plan_core base_revision decision records = mk_obj
     [(''base_revision'', base_revision),
      (''proposal_sha256'', get ''proposal_sha256'' decision),
      (''authority_sha256'', get ''authority_sha256'' decision),
      (''policy_fingerprint'', get ''policy_fingerprint'' decision),
      (''decision'', get ''decision'' decision),
      (''decision_sha256'', JStr (digest_json decision)),
      (''planned_records_sha256'', JStr (digest_json (JArr records)))]"

definition assemble_plan :: "json \<Rightarrow> json list \<Rightarrow> json" where
  "assemble_plan core records = mk_obj
     [(''schema'', JStr ''an-kla/write-plan-v1''), (''core'', core), (''records'', JArr records),
      (''plan_fingerprint'', JStr (digest_json core))]"

definition planned_records_v1 :: "json \<Rightarrow> json \<Rightarrow> json \<Rightarrow> json list" where
  "planned_records_v1 proposal authority decision =
     (if get ''decision'' decision \<noteq> JStr ''skip''
      then [planned_item proposal (get ''record'' proposal),
            policy_event decision (get ''authority_class'' authority)]
      else [])"

definition build_plan_v1 :: "json \<Rightarrow> json \<Rightarrow> json \<Rightarrow> json res" where
  "build_plan_v1 proposal authority decision =
     andthen (evaluate_write_v1 proposal authority) (\<lambda>expected.
     andthen (verified_decision expected decision) (\<lambda>checked.
       let records = planned_records_v1 proposal authority checked
       in Inr (assemble_plan (plan_core (get ''base_revision'' proposal) checked records) records)))"

definition core_digest_fields :: "string list" where
  "core_digest_fields =
     [''base_revision'', ''proposal_sha256'', ''authority_sha256'', ''policy_fingerprint'',
      ''decision_sha256'', ''planned_records_sha256'']"

definition validate_plan_item :: "json \<Rightarrow> string \<Rightarrow> unit res" where
  "validate_plan_item item code = checks
     [ensure (is_obj item) (wpe code ''records[]:not_object''),
      exact_keys WritePolicyError item [''stream'', ''operation'', ''representation'', ''record'']
        [''supersedes''] code ''records[]:keys'',
      ensure_in (get ''stream'' item) write_streams (wpe code ''records[]:stream|operation''),
      ensure_in (get ''operation'' item) write_operations (wpe code ''records[]:stream|operation''),
      ensure_in (get ''representation'' item) write_representations (wpe code ''records[]:representation''),
      ensure (nonempty_obj (get ''record'' item)) (wpe code ''records[].record:not_object''),
      (if get ''operation'' item = JStr ''supersede''
       then checks
         [ensure (nonempty_str (get ''supersedes'' item))
            (wpe code ''records[]:supersedes:missing_for_supersede''),
          ensure (get ''supersedes'' item \<noteq> get ''id'' (get ''record'' item))
            (wpe code ''records[]:supersedes:self_reference_forbidden'')]
       else ensure (\<not> has_key ''supersedes'' item)
              (wpe code ''records[]:supersedes:present_without_supersede''))]"

definition validate_plan_core :: "json \<Rightarrow> string \<Rightarrow> unit res" where
  "validate_plan_core core code = checks
     [ensure (is_obj core) (wpe code ''core:not_object''),
      exact_keys WritePolicyError core
        [''base_revision'', ''proposal_sha256'', ''authority_sha256'', ''policy_fingerprint'',
         ''decision'', ''decision_sha256'', ''planned_records_sha256''] [] code ''core:keys'',
      each (\<lambda>field. ensure (is_digest (get field core)) (wpe code (''core.'' @ field @ '':not_digest'')))
        core_digest_fields,
      ensure_in (get ''decision'' core) [''skip'', ''write-full'', ''write-summary'']
        (wpe code ''core.decision'')]"

definition validate_write_plan :: "json \<Rightarrow> unit res" where
  "validate_write_plan plan =
     (let code = ''invalid_write_plan'' in checks
      [ensure (is_obj plan) (wpe code ''plan:not_object''),
       exact_keys WritePolicyError plan [''schema'', ''core'', ''records'', ''plan_fingerprint''] []
         code ''plan:keys'',
       ensure (get ''schema'' plan = JStr ''an-kla/write-plan-v1'' \<and> is_digest (get ''plan_fingerprint'' plan))
         (wpe code ''plan:schema|plan_fingerprint''),
       validate_plan_core (get ''core'' plan) code,
       ensure (is_arr (get ''records'' plan)) (wpe code ''records:not_list''),
       each (\<lambda>item. validate_plan_item item code) (list_items (get ''records'' plan)),
       validate_json_value plan code ''plan:invalid_json''])"

section \<open>Facts\<close>

lemma policy_config_simps [simp]:
  "supported_operations = [JStr ''add'', JStr ''supersede'']"
  "derived_allowed_operations = [JStr ''add'', JStr ''supersede'']"
  "\<not> channel_confirmed_adapter"
  by (simp_all add: supported_operations_def derived_allowed_operations_def
      channel_confirmed_adapter_def policy_configuration_def)

lemma digest_shape_policy_fingerprint [simp]: "digest_shape policy_fingerprint"
  by (simp add: policy_fingerprint_def)

lemma is_digest_JStr [simp]: "is_digest (JStr s) = digest_shape s"
  by (simp add: is_digest_def)

text \<open>What a decision other than \<open>skip\<close> says of its proposal and authority.\<close>

definition authorised :: "json \<Rightarrow> json \<Rightarrow> bool" where
  "authorised proposal authority \<longleftrightarrow>
     get ''stream'' proposal \<in> set (list_items (get ''streams'' (get ''scope'' authority)))
     \<and> get ''requested_representation'' proposal
         \<in> set (list_items (get ''representations'' (get ''scope'' authority)))
     \<and> get ''operation'' proposal \<in> set (list_items (get ''operations'' (get ''scope'' authority)))
     \<and> get ''operation'' proposal \<in> {JStr ''add'', JStr ''supersede''}
     \<and> (get ''authority_class'' authority = JStr ''tool_observed''
          \<and> (\<exists>e \<in> set (list_items (get ''evidence'' authority)).
               get ''resolution'' e = JStr ''verified'' \<and> is_digest (get ''sha256'' e))
        \<or> get ''requested_representation'' proposal = JStr ''summary''
          \<and> (get ''authority_class'' authority = JStr ''model_derived''
             \<or> get ''authority_class'' authority = JStr ''derived_from_retrieval''
               \<and> get ''operation'' proposal = JStr ''add''))"

lemma validate_write_authorityD:
  assumes "validate_write_authority a = Inr ()"
  shows "get ''authority_class'' a \<noteq> JStr ''channel_confirmed''"
    "\<exists>s \<in> set authority_classes. get ''authority_class'' a = JStr s"
    "\<And>e. \<lbrakk>e \<in> set (list_items (get ''evidence'' a)); get ''resolution'' e = JStr ''verified''\<rbrakk>
       \<Longrightarrow> is_digest (get ''sha256'' e)"
    "is_obj a" "wf_json a \<Longrightarrow> json_value_ok a"
proof -
  note checked = assms[unfolded validate_write_authority_def Let_def checks_Cons_Inr_iff]
  from checked show "get ''authority_class'' a \<noteq> JStr ''channel_confirmed''" by simp
  from checked show "\<exists>s \<in> set authority_classes. get ''authority_class'' a = JStr s"
    by (auto simp: str_in_iff)
  from checked show "is_obj a" "json_value_ok a" by (simp_all add: validate_json_value_def)
  fix e assume e: "e \<in> set (list_items (get ''evidence'' a))" "get ''resolution'' e = JStr ''verified''"
  with checked have "validate_evidence e ''invalid_write_authority'' ''evidence[]:invalid''
      (evidence_kinds (str_of (get ''schema'' a))) = Inr ()" by simp
  with e show "is_digest (get ''sha256'' e)" by (simp add: validate_evidence_def)
qed

lemma decide_writeD:
  assumes "decide_write p a = (decision, reasons)" "decision \<noteq> ''skip''"
  shows "\<not> scope_mismatch p a" "get ''operation'' p \<in> {JStr ''add'', JStr ''supersede''}"
    "\<exists>rs. authority_ladder p a rs = (decision, reasons)"
  using assms by (auto simp: decide_write_def Let_def split: if_split_asm)

lemma authority_ladderD:
  assumes l: "authority_ladder p a rs = (decision, reasons)" and skip: "decision \<noteq> ''skip''"
  shows "get ''authority_class'' a \<noteq> JStr ''unresolved''"
    "get ''authority_class'' a = JStr ''tool_observed'' \<Longrightarrow>
       \<exists>e \<in> set (list_items (get ''evidence'' a)). get ''resolution'' e = JStr ''verified''"
    "\<lbrakk>get ''authority_class'' a \<noteq> JStr ''tool_observed'';
       get ''authority_class'' a \<noteq> JStr ''channel_confirmed''\<rbrakk> \<Longrightarrow>
       get ''requested_representation'' p \<noteq> JStr ''full''
       \<and> \<not> (get ''operation'' p = JStr ''supersede''
            \<and> get ''authority_class'' a = JStr ''derived_from_retrieval'')"
    "decision = (if get ''requested_representation'' p = JStr ''full'' then ''write-full''
                 else ''write-summary'')"
proof -
  let ?c = "get ''authority_class'' a"
  show u: "?c \<noteq> JStr ''unresolved''" using l skip by (auto simp: authority_ladder_def)
  show "?c = JStr ''tool_observed'' \<Longrightarrow>
       \<exists>e \<in> set (list_items (get ''evidence'' a)). get ''resolution'' e = JStr ''verified''"
    using l skip by (auto simp: authority_ladder_def list_ex_iff split: if_split_asm)
  show "\<lbrakk>?c \<noteq> JStr ''tool_observed''; ?c \<noteq> JStr ''channel_confirmed''\<rbrakk> \<Longrightarrow>
       get ''requested_representation'' p \<noteq> JStr ''full''
       \<and> \<not> (get ''operation'' p = JStr ''supersede'' \<and> ?c = JStr ''derived_from_retrieval'')"
    using l skip u by (auto simp: authority_ladder_def Let_def split: if_split_asm)
  have "decision = ''skip'' \<or> (\<exists>rs. accept_write p rs = (decision, reasons))"
    using l by (auto simp: authority_ladder_def Let_def split: if_split_asm)
  with skip show "decision = (if get ''requested_representation'' p = JStr ''full''
      then ''write-full'' else ''write-summary'')"
    by (auto simp: accept_write_def)
qed

lemma decide_write_authorised:
  assumes d: "decide_write p a = (decision, reasons)" and skip: "decision \<noteq> ''skip''"
    and a: "validate_write_authority a = Inr ()"
    and rep: "str_in (get ''requested_representation'' p) write_representations"
  shows "authorised p a \<and> get ''proposal_sha256'' a = JStr (digest_json p)
     \<and> get ''base_revision'' a = get ''base_revision'' p
     \<and> decision = (if get ''requested_representation'' p = JStr ''full'' then ''write-full''
                   else ''write-summary'')"
proof -
  note dec = decide_writeD[OF d skip]
  obtain rs where l: "authority_ladder p a rs = (decision, reasons)" using dec(3) by blast
  note lad = authority_ladderD[OF l skip]
  note ev = validate_write_authorityD(3)[OF a]
  obtain cls where cls: "get ''authority_class'' a = JStr cls" "cls \<in> set authority_classes"
    using validate_write_authorityD(2)[OF a] by blast
  have cases: "get ''authority_class'' a = JStr ''tool_observed''
      \<or> get ''authority_class'' a = JStr ''model_derived''
      \<or> get ''authority_class'' a = JStr ''derived_from_retrieval''"
    using cls validate_write_authorityD(1)[OF a] lad(1) unfolding authority_classes_def
    by (simp only: list.set insert_iff empty_iff) (elim disjE; simp)
  have r: "get ''requested_representation'' p \<noteq> JStr ''full''
      \<Longrightarrow> get ''requested_representation'' p = JStr ''summary''"
    using rep by (auto simp: str_in_iff write_representations_def)
  have "authorised p a"
    using dec(1,2) cases lad(2,3) r ev unfolding authorised_def scope_mismatch_def Let_def
    by (elim disjE) auto
  then show ?thesis using dec(1) lad(4) by (simp add: scope_mismatch_def Let_def)
qed

text \<open>Evaluation of the checks on values built with \<open>mk_obj\<close>.\<close>

lemma exact_keys_Inr_iff [simp, res_simps]:
  "exact_keys cls v required optional code detail = Inr u \<longleftrightarrow>
     (\<forall>k\<in>set required. has_key k v) \<and> (\<forall>k\<in>set (dict_keys v). k \<in> set required \<union> set optional)"
  by (simp add: exact_keys_def missing_keys_def extra_keys_def Let_def filter_empty_conv)

lemma storable_encodable: "storable v \<Longrightarrow> encodable v"
proof -
  have "text_json v \<Longrightarrow> encodable v"
    by (induction v rule: encodable.induct)
      (auto simp: list_all_iff dest: text_json_dumpable[of "JFloat _", simplified])
  then show "storable v \<Longrightarrow> encodable v" by (simp add: storable_def)
qed

text \<open>The walk of \<open>_validate_json_value\<close> against its specification: height and number of nodes.\<close>

fun node_count :: "json \<Rightarrow> nat" where
  "node_count (JArr xs) = 1 + sum_list (map node_count xs)"
| "node_count (JObj m) = 1 + sum_list (map (\<lambda>kv. node_count (snd kv)) m)"
| "node_count _ = 1"

fun height :: "json \<Rightarrow> nat" where
  "height (JArr xs) = foldr (\<lambda>x h. max (Suc (height x)) h) xs 0"
| "height (JObj m) = foldr (\<lambda>kv h. max (Suc (height (snd kv))) h) m 0"
| "height _ = 0"

lemma foldr_max_le:
  "d + foldr (\<lambda>x h. max (Suc (f x)) h) xs 0 \<le> k \<longleftrightarrow> d \<le> k \<and> (\<forall>x\<in>set xs. Suc d + f x \<le> k)"
  by (induction xs) auto

declare visit.simps [simp del]

lemma visit_spec:
  shows "(visit L d v n = Some m) = (dumpable v \<and> d + height v \<le> MAX_JSON_DEPTH
           \<and> n + node_count v \<le> L \<and> m = n + node_count v)"
    and "(visit_list L d xs n = Some m) = (list_all dumpable xs
           \<and> (\<forall>x\<in>set xs. d + height x \<le> MAX_JSON_DEPTH)
           \<and> (xs = [] \<or> n + sum_list (map node_count xs) \<le> L) \<and> m = n + sum_list (map node_count xs))"
    and "(visit_members L d kvs n = Some m) = (list_all (\<lambda>kv. dumpable (snd kv)) kvs
           \<and> (\<forall>kv\<in>set kvs. d + height (snd kv) \<le> MAX_JSON_DEPTH)
           \<and> (kvs = [] \<or> n + sum_list (map (\<lambda>kv. node_count (snd kv)) kvs) \<le> L)
           \<and> m = n + sum_list (map (\<lambda>kv. node_count (snd kv)) kvs))"
proof (induction L d v n and L d xs n and L d kvs n arbitrary: m and m and m
    rule: visit_visit_list_visit_members.induct)
  case (1 L d v n)
  show ?case
  proof (cases v)
    case (JArr xs)
    show ?thesis
    proof (cases "L < n + 1 \<or> MAX_JSON_DEPTH < d")
      case False
      with "1.IH"(1)[OF False JArr] JArr show ?thesis
        by (auto simp: visit.simps[of L d _ n] foldr_max_le list_all_iff)
    qed (use JArr in \<open>auto simp: visit.simps[of L d _ n] foldr_max_le\<close>)
  next
    case (JObj kvs)
    show ?thesis
    proof (cases "L < n + 1 \<or> MAX_JSON_DEPTH < d")
      case False
      with "1.IH"(2)[OF False JObj] JObj show ?thesis
        by (auto simp: visit.simps[of L d _ n] foldr_max_le list_all_iff)
    qed (use JObj in \<open>auto simp: visit.simps[of L d _ n] foldr_max_le\<close>)
  qed (auto simp: visit.simps[of L d _ n])
next
  case (3 L d x xs n)
  show ?case
  proof (cases "visit L d x n")
    case None
    then show ?thesis using "3.IH"(1)[of "n + node_count x"] by auto
  next
    case (Some k)
    then show ?thesis using "3.IH"(1)[of k] "3.IH"(2)[OF Some] by auto
  qed
next
  case (5 L d k x m' n)
  show ?case
  proof (cases "visit L d x n")
    case None
    then show ?thesis using "5.IH"(1)[of "n + node_count x"] by auto
  next
    case (Some k)
    then show ?thesis using "5.IH"(1)[of k] "5.IH"(2)[OF Some] by auto
  qed
qed auto

lemma encodable_dumpable: "encodable v \<Longrightarrow> dumpable v"
  by (induction v rule: encodable.induct) (auto simp: list_all_iff)

lemma json_value_ok_iff:
  "json_value_ok v \<longleftrightarrow> height v \<le> MAX_JSON_DEPTH \<and> node_count v \<le> MAX_JSON_NODES \<and> encodable v"
  unfolding json_value_ok_def using encodable_dumpable[of v] visit_spec(1)[of MAX_JSON_NODES 0 v 0]
  by (cases "visit MAX_JSON_NODES 0 v 0") auto

lemma json_value_okI:
  "\<lbrakk>storable v; height v \<le> MAX_JSON_DEPTH; node_count v \<le> MAX_JSON_NODES\<rbrakk> \<Longrightarrow> json_value_ok v"
  by (simp add: json_value_ok_iff storable_encodable)

text \<open>The size of a dict display is bounded by its items, whatever overrides what.\<close>

lemma sum_put_le:
  "sum_list (map (\<lambda>kv. node_count (snd kv)) (put k v m))
     \<le> node_count v + sum_list (map (\<lambda>kv. node_count (snd kv)) m)"
  by (induction k v m rule: put.induct) auto

lemma sum_puts_le:
  "sum_list (map (\<lambda>kv. node_count (snd kv)) (puts kvs m))
     \<le> sum_list (map (\<lambda>kv. node_count (snd kv)) kvs) + sum_list (map (\<lambda>kv. node_count (snd kv)) m)"
proof (induction kvs m rule: puts.induct)
  case (2 k v kvs m)
  then show ?case using sum_put_le[of k v m] by simp
qed simp

lemma node_count_mk_obj: "node_count (mk_obj kvs) \<le> 1 + sum_list (map (\<lambda>kv. node_count (snd kv)) kvs)"
  using sum_puts_le[of kvs "[]"] by (simp add: mk_obj_def)

lemma set_puts_subset: "set (puts kvs m) \<subseteq> set kvs \<union> set m"
proof (induction kvs m rule: puts.induct)
  case (2 k v kvs m)
  then show ?case using set_put_subset[of k v m] by auto
qed simp

lemma height_mk_obj_le:
  "\<lbrakk>\<forall>(k, v)\<in>set kvs. Suc (height v) \<le> n\<rbrakk> \<Longrightarrow> height (mk_obj kvs) \<le> n"
  using set_puts_subset[of kvs "[]"] foldr_max_le[of 0 "\<lambda>kv. height (snd kv)" "puts kvs []" n]
  by (fastforce simp: mk_obj_def)

lemma height_JArr_le: "\<lbrakk>\<forall>v\<in>set vs. Suc (height v) \<le> n\<rbrakk> \<Longrightarrow> height (JArr vs) \<le> n"
  using foldr_max_le[of 0 height vs n] by simp

lemmas limits_defs = MAX_JSON_DEPTH_def MAX_JSON_NODES_def

section \<open>Decisions the ladder can produce\<close>

definition known_reason_codes :: "string list" where
  "known_reason_codes =
     [''authority_scope_mismatch'', ''channel_confirmation_resolved'',
      ''channel_confirmed_requires_adapter'', ''derived_authority_capped'',
      ''derived_from_retrieval'', ''operation_not_supported'', ''record_without_indexable_text'',
      ''representation_accepted'', ''self_asserted_authority_ignored'',
      ''summary_required_for_authority_ceiling'', ''supersede_requires_non_derived_authority'',
      ''tool_evidence_verified'', ''unresolved_authority'']"

definition decision_ok :: "string \<Rightarrow> string list \<Rightarrow> bool" where
  "decision_ok decision reasons \<longleftrightarrow>
     decision \<in> {''skip'', ''write-full'', ''write-summary''}
     \<and> set reasons \<subseteq> set known_reason_codes \<and> reasons \<noteq> []"

lemma accept_write_ok:
  "\<lbrakk>set rs \<subseteq> set known_reason_codes; rs \<noteq> []\<rbrakk> \<Longrightarrow>
   decision_ok (fst (accept_write p rs)) (snd (accept_write p rs))"
  by (simp add: accept_write_def decision_ok_def known_reason_codes_def)

lemma skip_ok:
  "set rs \<subseteq> set known_reason_codes \<Longrightarrow> r \<in> set known_reason_codes \<Longrightarrow>
   decision_ok ''skip'' (rs @ [r])"
  by (simp add: decision_ok_def)

lemma authority_ladder_ok:
  assumes rs: "set rs \<subseteq> set known_reason_codes"
  shows "decision_ok (fst (authority_ladder p a rs)) (snd (authority_ladder p a rs))"
proof -
  have app: "set (rs @ [r]) \<subseteq> set known_reason_codes" "rs @ [r] \<noteq> []"
    if "r \<in> set known_reason_codes" for r
    using rs that by auto
  have k: "''derived_authority_capped'' \<in> set known_reason_codes"
    "''tool_evidence_verified'' \<in> set known_reason_codes"
    "''unresolved_authority'' \<in> set known_reason_codes"
    "''channel_confirmed_requires_adapter'' \<in> set known_reason_codes"
    "''channel_confirmation_resolved'' \<in> set known_reason_codes"
    "''supersede_requires_non_derived_authority'' \<in> set known_reason_codes"
    "''summary_required_for_authority_ceiling'' \<in> set known_reason_codes"
    by (simp_all add: known_reason_codes_def)
  have s: "decision_ok ''skip'' (rs @ [''derived_authority_capped''])"
    using skip_ok[OF rs k(1)] .
  show ?thesis
    unfolding authority_ladder_def Let_def
    using s skip_ok[OF rs k(3)] skip_ok[OF rs k(4)] skip_ok[OF app(1)[OF k(1)] k(6)]
      skip_ok[OF app(1)[OF k(1)] k(7)] accept_write_ok[OF app[OF k(1)]]
      accept_write_ok[OF app[OF k(2)]] accept_write_ok[OF app[OF k(5)]]
    by (simp split: if_split)
qed

lemma decide_write_ok: "decision_ok (fst (decide_write p a)) (snd (decide_write p a))"
proof -
  let ?r0 = "if contains_self_asserted_authority (get ''record'' p)
             then [''self_asserted_authority_ignored''] else []"
  let ?r1 = "if get ''derived_from_retrieval'' (get ''lineage'' p) = JBool True
             then ?r0 @ [''derived_from_retrieval''] else ?r0"
  have r: "set ?r0 \<subseteq> set known_reason_codes" "set ?r1 \<subseteq> set known_reason_codes"
    by (cases "contains_self_asserted_authority (get ''record'' p)";
        simp add: known_reason_codes_def)+
  have k: "''authority_scope_mismatch'' \<in> set known_reason_codes"
    "''operation_not_supported'' \<in> set known_reason_codes"
    by (simp_all add: known_reason_codes_def)
  show ?thesis
    using skip_ok[OF r(1) k(1)] skip_ok[OF r(1) k(2)] authority_ladder_ok[OF r(2), of p a]
    by (simp add: decide_write_def Let_def)
qed

lemma known_reason_code_shape: "r \<in> set known_reason_codes \<Longrightarrow> is_reason_code (JStr r) \<and> valid_utf8 r"
proof -
  have "list_all (\<lambda>r. is_reason_code (JStr r) \<and> valid_utf8 r) known_reason_codes" by code_simp
  then show "r \<in> set known_reason_codes \<Longrightarrow> is_reason_code (JStr r) \<and> valid_utf8 r"
    by (simp only: list_all_iff)
qed

lemma sorted_set_length_le: "set xs \<subseteq> set ys \<Longrightarrow> length (sorted_set xs) \<le> length ys"
proof -
  assume "set xs \<subseteq> set ys"
  then have "card (set (sorted_set xs)) \<le> card (set ys)" by (intro card_mono) auto
  also have "\<dots> \<le> length ys" by (rule card_length)
  finally show ?thesis using distinct_card[of "sorted_set xs"] by simp
qed

lemma validate_decision_object:
  assumes ok: "decision_ok decision reasons"
    and ds: "digest_shape ps" "digest_shape as"
  shows "validate_write_decision (decision_object ps as decision reasons) = Inr ()
    \<and> storable (decision_object ps as decision reasons)"
proof -
  let ?d = "decision_object ps as decision reasons" and ?rs = "sorted_set reasons"
  have rs: "set ?rs \<subseteq> set known_reason_codes" "?rs \<noteq> []" "length ?rs \<le> 13"
    using ok sorted_set_length_le[of reasons known_reason_codes]
    by (auto simp: decision_ok_def known_reason_codes_def)
  have shape: "list_all is_reason_code (map JStr ?rs)" "\<forall>r\<in>set ?rs. valid_utf8 r"
    using rs(1) known_reason_code_shape by (auto simp: list_all_iff)
  have dec: "decision \<in> {''skip'', ''write-full'', ''write-summary''}"
    using ok by (simp add: decision_ok_def)
  then have dec8: "valid_utf8 decision" by (auto simp: valid_utf8_ascii)
  have st: "storable ?d"
    unfolding decision_object_def
    by (intro storable_mk_obj) (use ds dec8 shape in \<open>auto simp: valid_utf8_ascii\<close>)
  have h: "height (JArr (map JStr ?rs)) \<le> 1" by (rule height_JArr_le) auto
  then have "height ?d \<le> MAX_JSON_DEPTH"
    unfolding decision_object_def by (intro height_mk_obj_le) (simp add: limits_defs)
  moreover have "node_count ?d \<le> MAX_JSON_NODES"
  proof -
    have c: "sum_list (map (node_count \<circ> JStr) xs) = length xs" for xs by (induction xs) auto
    have "node_count ?d \<le> 8 + length ?rs"
      unfolding decision_object_def by (rule node_count_mk_obj[THEN order_trans]) (simp add: c)
    with rs(3) show ?thesis by (simp add: limits_defs)
  qed
  ultimately have jv: "json_value_ok ?d" using st json_value_okI by blast
  have m: "map (str_of \<circ> JStr) xs = xs" for xs by (simp add: map_idI)
  have "validate_write_decision ?d = Inr ()"
    unfolding validate_write_decision_def Let_def validate_json_value_def
    using jv rs(2) shape(1) ds dec by (simp add: decision_object_def m)
  with st show ?thesis by blast
qed

end
