(* ===== verification/CheckpointPolicy.thy ===== *)
theory CheckpointPolicy
  imports WritePolicy
begin

text \<open>
  \<open>an_kla/checkpoint_policy.py\<close>: the closed shape of a working state, of checkpoint proposals and
  authorities, the decision and the plan of a governed checkpoint. Plans are compared with
  Python's \<open>==\<close>, modelled by \<open>py_eq\<close>.
\<close>

definition FIELDS :: "string list" where
  "FIELDS = [''objective'', ''phase'', ''next_step'', ''decisions'', ''blockers'', ''evidence'',
             ''source_state'', ''captured_at'']"

definition PROVENANCE :: "string list" where
  "PROVENANCE = [''caller_asserted'', ''unavailable'']"

definition is_git_object_id :: "json \<Rightarrow> bool" where
  "is_git_object_id v \<longleftrightarrow>
     (case v of JStr s \<Rightarrow> (length s = 40 \<or> length s = 64) \<and> list_all is_lower_hex s | _ \<Rightarrow> False)"

definition checkpoint_config :: json where
  "checkpoint_config = mk_obj
     [(''schema'', JStr ''an-kla/checkpoint-policy-config-v1''),
      (''profile'', JStr ''checkpoint-policy/v1''),
      (''fields'', strs FIELDS),
      (''accepted_provenance'', strs (sorted_set PROVENANCE)),
      (''source_profiles'', strs [''none/v1'', ''git/v1'']),
      (''maximum_items_per_list'', JInt 50),
      (''maximum_item_bytes'', JInt 8192),
      (''maximum_working_state_bytes'', JInt 65536),
      (''tool_observed_adapter'', JBool False),
      (''channel_confirmed_adapter'', JBool False)]"

definition checkpoint_policy_fingerprint :: string where
  "checkpoint_policy_fingerprint = digest_json checkpoint_config"

abbreviation cpe :: "string \<Rightarrow> string \<Rightarrow> exn" where
  "cpe code detail \<equiv> Exn CheckpointPolicyError code (Some detail)"

section \<open>Details that name keys\<close>

definition detail_key_char :: "char \<Rightarrow> bool" where
  "detail_key_char c \<longleftrightarrow> is_upper c \<or> is_lower c \<or> is_digit c \<or> c \<in> {CHR ''_'', CHR ''.'', CHR ''-''}"

definition key_names :: "string list \<Rightarrow> string list" where
  "key_names values = sorted_set (map (\<lambda>v.
     if 1 \<le> length v \<and> length v \<le> 64 \<and> list_all detail_key_char v then v else ''[unnamed]'') values)"

text \<open>Every text that reaches \<open>_cap\<close> is ASCII, so characters are bytes.\<close>

definition cap_detail :: "string \<Rightarrow> string" where
  "cap_detail detail = take 256 detail"

definition key_detail :: "string \<Rightarrow> json \<Rightarrow> string list \<Rightarrow> string" where
  "key_detail path value keys =
     cap_detail (path @ '':keys:'' @
       key_report (missing_keys value keys) (key_names (extra_keys value keys)))"

definition same_keys :: "json \<Rightarrow> string list \<Rightarrow> bool" where
  "same_keys value keys \<longleftrightarrow> missing_keys value keys = [] \<and> extra_keys value keys = []"

definition exact_object :: "json \<Rightarrow> string list \<Rightarrow> string \<Rightarrow> string \<Rightarrow> unit res" where
  "exact_object value keys code path = checks
     [ensure (is_obj value) (cpe code (path @ '':not_object'')),
      ensure (same_keys value keys) (cpe code (key_detail path value keys))]"

definition check_digest :: "json \<Rightarrow> string \<Rightarrow> string \<Rightarrow> unit res" where
  "check_digest value code detail = ensure (is_str value \<and> succeeds (bare_digest (str_of value))) (cpe code detail)"

section \<open>Working states\<close>

definition check_provenance :: "json \<Rightarrow> string \<Rightarrow> unit res" where
  "check_provenance provenance path =
     (if \<not> hashable provenance then raise TypeError ''unhashable type''
      else if str_in provenance PROVENANCE then Inr ()
      else if provenance = JStr ''tool_observed''
      then Inl (cpe ''tool_observed_requires_adapter'' path)
      else Inl (cpe ''invalid_checkpoint_provenance'' path))"

definition check_timestamp :: "json \<Rightarrow> string \<Rightarrow> unit res" where
  "check_timestamp value path =
     andthen (except_as (\<lambda>e. exn_class e = TemporalError)
                (cpe ''invalid_working_state'' (path @ ''.value:not_timestamp'')) (parse_verified_at value))
       (\<lambda>parsed. andthen (format_utc (parsed, Some 0))
         (\<lambda>text. ensure (JStr text = value)
            (cpe ''invalid_working_state'' (path @ ''.value:not_canonical_utc''))))"

definition check_field :: "json \<Rightarrow> bool \<Rightarrow> string \<Rightarrow> unit res" where
  "check_field value timestamp path = checks
     [exact_object value [''value'', ''provenance''] ''invalid_working_state'' path,
      check_provenance (get ''provenance'' value) (path @ ''.provenance''),
      (if get ''provenance'' value = JStr ''unavailable''
       then ensure (get ''value'' value = JNull) (cpe ''invalid_checkpoint_provenance'' (path @ ''.value''))
       else if get ''value'' value = JNull then Inr ()
       else checks
         [ensure (is_str (get ''value'' value)) (cpe ''invalid_working_state'' (path @ ''.value:not_string'')),
          when_ok timestamp (check_timestamp (get ''value'' value) path)])]"

definition check_item :: "json \<Rightarrow> string list \<Rightarrow> string \<Rightarrow> unit res" where
  "check_item item seen path = checks
     [exact_object item [''id'', ''value'', ''provenance''] ''invalid_working_state'' (path @ ''[]''),
      ensure (nonempty_str (get ''id'' item)) (cpe ''invalid_working_state'' (path @ ''[].id'')),
      ensure (\<not> str_in (get ''id'' item) seen) (cpe ''invalid_working_state'' (path @ ''[].id:duplicate'')),
      check_provenance (get ''provenance'' item) (path @ ''[].provenance''),
      ensure (get ''provenance'' item = JStr ''unavailable'' \<longrightarrow> get ''value'' item = JNull)
        (cpe ''invalid_checkpoint_provenance'' (path @ ''[].value'')),
      ensure (encodable (get ''value'' item))
        (cpe ''invalid_working_state'' (path @ ''[].value:not_canonical_json'')),
      ensure (length (canonical_json (get ''value'' item)) \<le> 8192)
        (cpe ''invalid_working_state'' (path @ ''[].value:too_large''))]"

fun check_item_list :: "json list \<Rightarrow> string list \<Rightarrow> string \<Rightarrow> unit res" where
  "check_item_list [] seen path = Inr ()"
| "check_item_list (item # items) seen path =
     andthen (check_item item seen path)
       (\<lambda>_. check_item_list items (str_of (get ''id'' item) # seen) path)"

definition check_items :: "json \<Rightarrow> string \<Rightarrow> unit res" where
  "check_items value path = checks
     [ensure (is_arr value) (cpe ''invalid_working_state'' (path @ '':not_list'')),
      ensure (length (list_items value) \<le> 50) (cpe ''invalid_working_state'' (path @ '':too_many_items'')),
      check_item_list (list_items value) [] path]"

definition check_git_field :: "json \<Rightarrow> bool \<Rightarrow> string \<Rightarrow> unit res" where
  "check_git_field value object_id path = checks
     [exact_object value [''value'', ''provenance''] ''invalid_working_state'' path,
      ensure (get ''provenance'' value \<noteq> JStr ''tool_observed'')
        (cpe ''tool_observed_requires_adapter'' (path @ ''.provenance'')),
      ensure (get ''provenance'' value = JStr ''caller_asserted'')
        (cpe ''invalid_checkpoint_provenance'' (path @ ''.provenance'')),
      (if object_id
       then ensure (is_git_object_id (get ''value'' value))
              (cpe ''invalid_working_state'' (path @ ''.value:not_object_id''))
       else ensure (get ''value'' value = JNull \<or> is_str (get ''value'' value))
              (cpe ''invalid_working_state'' (path @ ''.value:not_string'')))]"

definition unavailable_field :: json where
  "unavailable_field = mk_obj [(''value'', JNull), (''provenance'', JStr ''unavailable'')]"

definition check_source :: "json \<Rightarrow> unit res" where
  "check_source source = checks
     [exact_object source [''profile'', ''head'', ''branch'', ''dirty_digest''] ''invalid_working_state''
        ''source_state'',
      (if get ''profile'' source = JStr ''none/v1''
       then each (\<lambda>name. checks
              [check_field (get name source) False (''source_state.'' @ name),
               ensure (get name source = unavailable_field)
                 (cpe ''invalid_checkpoint_provenance'' (''source_state.'' @ name @ '':not_unavailable''))])
            [''head'', ''branch'', ''dirty_digest'']
       else if get ''profile'' source = JStr ''git/v1''
       then checks
         [check_git_field (get ''head'' source) True ''source_state.head'',
          check_git_field (get ''branch'' source) False ''source_state.branch'',
          check_git_field (get ''dirty_digest'' source) False ''source_state.dirty_digest'']
       else Inl (cpe ''invalid_working_state'' ''source_state.profile:unknown''))]"

definition working_state_keys :: "string list" where
  "working_state_keys =
     [''schema'', ''objective'', ''phase'', ''next_step'', ''decisions'', ''blockers'', ''evidence'',
      ''source_state'', ''captured_at'', ''supersedes_checkpoint'']"

definition validate_working_state :: "json \<Rightarrow> unit res" where
  "validate_working_state value = checks
     [exact_object value working_state_keys ''invalid_working_state'' ''working_state'',
      ensure (get ''schema'' value = JStr ''an-kla/working-state-v2'')
        (cpe ''invalid_working_state'' ''working_state.schema''),
      each (\<lambda>name. check_field (get name value) False name) [''objective'', ''phase'', ''next_step''],
      each (\<lambda>name. check_items (get name value) name) [''decisions'', ''blockers'', ''evidence''],
      check_source (get ''source_state'' value),
      check_field (get ''captured_at'' value) True ''captured_at'',
      check_digest (get ''supersedes_checkpoint'' value) ''invalid_working_state''
        ''supersedes_checkpoint:not_digest'',
      ensure (encodable value) (cpe ''invalid_working_state'' ''working_state:not_canonical_json''),
      ensure (length (canonical_json value) \<le> 65536) (cpe ''invalid_working_state'' ''working_state:too_large'')]"

section \<open>Proposals and authorities\<close>

definition validate_checkpoint_proposal :: "json \<Rightarrow> unit res" where
  "validate_checkpoint_proposal value = checks
     [exact_object value [''schema'', ''base_revision'', ''parent_checkpoint'', ''working_state'']
        ''invalid_working_state'' ''proposal'',
      ensure (get ''schema'' value = JStr ''an-kla/checkpoint-proposal-v1'')
        (cpe ''invalid_working_state'' ''proposal.schema''),
      check_digest (get ''base_revision'' value) ''invalid_working_state'' ''base_revision:not_digest'',
      check_digest (get ''parent_checkpoint'' value) ''invalid_working_state'' ''parent_checkpoint:not_digest'',
      validate_working_state (get ''working_state'' value),
      ensure (get ''supersedes_checkpoint'' (get ''working_state'' value) = get ''parent_checkpoint'' value)
        (cpe ''checkpoint_parent_mismatch'' ''supersedes_checkpoint:not_current'')]"

definition validate_checkpoint_evidence :: "json \<Rightarrow> unit res" where
  "validate_checkpoint_evidence value =
     (let code = ''invalid_checkpoint_authority''; path = ''evidence[]'';
          missing = missing_keys value [''kind'', ''id'', ''resolution''];
          extra = key_names (extra_keys value [''kind'', ''id'', ''resolution'', ''sha256''])
      in checks
       [ensure (is_obj value) (cpe code (path @ '':not_object'')),
        ensure (missing = []) (cpe code (cap_detail (path @ '':keys:missing='' @ join '','' missing))),
        ensure (extra = []) (cpe code (cap_detail (path @ '':keys:extra='' @ join '','' extra))),
        ensure_in (get ''kind'' value) [''artifact'', ''event'', ''revision'', ''external'']
          (cpe code (path @ ''.kind'')),
        ensure (nonempty_str (get ''id'' value)) (cpe code (path @ ''.id'')),
        ensure_in (get ''resolution'' value) [''verified'', ''unresolved'', ''invalid'']
          (cpe code (path @ ''.resolution'')),
        ensure (get ''resolution'' value = JStr ''verified'' \<longrightarrow> has_key ''sha256'' value)
          (cpe code (path @ ''.sha256:required_for_verified'')),
        when_ok (has_key ''sha256'' value)
          (check_digest (get ''sha256'' value) code (path @ ''.sha256:not_digest''))])"

definition checkpoint_issuer_kind :: "string \<Rightarrow> string" where
  "checkpoint_issuer_kind cls = (if cls = ''model_derived'' then ''model'' else ''unknown'')"

definition validate_checkpoint_scope :: "json \<Rightarrow> unit res" where
  "validate_checkpoint_scope scope =
     (let code = ''invalid_checkpoint_authority'';
          fields = list_items (get ''fields'' scope); names = map str_of fields
      in checks
       [exact_object scope [''operation'', ''fields''] code ''scope'',
        ensure (get ''operation'' scope = JStr ''checkpoint'') (cpe code ''scope.operation''),
        ensure (is_arr (get ''fields'' scope)) (cpe code ''scope.fields:not_list''),
        ensure (list_all is_str fields) (cpe code ''scope.fields:not_string''),
        ensure (fields \<noteq> []) (cpe code ''scope.fields:empty''),
        ensure (names = sort names) (cpe code ''scope.fields:order''),
        ensure (distinct names) (cpe code ''scope.fields:duplicate''),
        ensure (list_all (\<lambda>n. n \<in> set FIELDS) names) (cpe code ''scope.fields:unknown'')])"

definition validate_checkpoint_authority :: "json \<Rightarrow> unit res" where
  "validate_checkpoint_authority value =
     (let code = ''invalid_checkpoint_authority''; cls = get ''authority_class'' value;
          issuer = get ''issuer'' value
      in checks
       [exact_object value
          [''schema'', ''proposal_sha256'', ''base_revision'', ''authority_class'', ''issuer'',
           ''evidence'', ''scope''] code ''authority'',
        ensure (get ''schema'' value = JStr ''an-kla/checkpoint-authority-v1'') (cpe code ''authority.schema''),
        check_digest (get ''proposal_sha256'' value) code ''proposal_sha256:not_digest'',
        check_digest (get ''base_revision'' value) code ''base_revision:not_digest'',
        ensure (cls \<noteq> JStr ''tool_observed'') (cpe ''tool_observed_requires_adapter'' ''authority_class''),
        ensure (cls \<noteq> JStr ''channel_confirmed'')
          (cpe ''channel_confirmed_requires_adapter'' ''authority_class''),
        ensure_in cls [''tool_observed'', ''channel_confirmed'', ''model_derived'', ''unresolved'']
          (cpe code ''authority_class:unknown''),
        exact_object issuer [''kind'', ''id'', ''configuration_fingerprint''] code ''issuer'',
        ensure (get ''kind'' issuer = JStr (checkpoint_issuer_kind (str_of cls)))
          (cpe code ''issuer.kind:authority_class_mismatch''),
        ensure (nonempty_str (get ''id'' issuer)) (cpe code ''issuer.id''),
        check_digest (get ''configuration_fingerprint'' issuer) code
          ''issuer.configuration_fingerprint:not_digest'',
        ensure (is_arr (get ''evidence'' value)) (cpe code ''evidence:not_list''),
        each validate_checkpoint_evidence (list_items (get ''evidence'' value)),
        validate_checkpoint_scope (get ''scope'' value)])"

section \<open>Decision and plan\<close>

definition checkpoint_decision :: "json \<Rightarrow> json \<Rightarrow> string \<Rightarrow> string list \<Rightarrow> json" where
  "checkpoint_decision proposal authority decision reasons = mk_obj
     [(''schema'', JStr ''an-kla/checkpoint-decision-v1''),
      (''proposal_sha256'', JStr (digest_json proposal)),
      (''authority_sha256'', JStr (digest_json authority)),
      (''decision'', JStr decision),
      (''reasons'', strs (sorted_set reasons))]"

definition checkpoint_reasons :: "json \<Rightarrow> json \<Rightarrow> string list" where
  "checkpoint_reasons proposal authority =
     (if get ''proposal_sha256'' authority \<noteq> JStr (digest_json proposal)
         \<or> get ''base_revision'' authority \<noteq> get ''base_revision'' proposal
      then [''authority_binding_mismatch''] else [])
     @ (if sorted_set (map str_of (list_items (get ''fields'' (get ''scope'' authority)))) \<noteq> sorted_set FIELDS
        then [''authority_scope_mismatch''] else [])
     @ (if get ''authority_class'' authority = JStr ''unresolved'' then [''unresolved_authority''] else [])"

definition evaluate_checkpoint :: "json \<Rightarrow> json \<Rightarrow> json res" where
  "evaluate_checkpoint proposal authority =
     andthen (validate_checkpoint_proposal proposal) (\<lambda>_.
     andthen (validate_checkpoint_authority authority) (\<lambda>_.
       let reasons = checkpoint_reasons proposal authority
       in Inr (checkpoint_decision proposal authority (if reasons \<noteq> [] then ''skip'' else ''write'') reasons)))"

definition unchanged_decision :: "json \<Rightarrow> json" where
  "unchanged_decision expected =
     update_obj expected [(''decision'', JStr ''skip''), (''reasons'', strs [''checkpoint_unchanged''])]"

definition checkpoint_object :: "json \<Rightarrow> int \<Rightarrow> json" where
  "checkpoint_object working_state revision = mk_obj
     [(''schema'', JStr ''an-kla/checkpoint-v2''), (''revision'', JInt revision),
      (''working_state'', working_state)]"

definition checkpoint_core :: "json \<Rightarrow> json \<Rightarrow> json \<Rightarrow> json \<Rightarrow> json" where
  "checkpoint_core proposal authority decision checkpoint = mk_obj
     [(''base_revision'', get ''base_revision'' proposal),
      (''parent_checkpoint'', get ''parent_checkpoint'' proposal),
      (''proposal_sha256'', JStr (digest_json proposal)),
      (''authority_sha256'', JStr (digest_json authority)),
      (''policy_fingerprint'', JStr checkpoint_policy_fingerprint),
      (''decision_sha256'', JStr (digest_json decision)),
      (''checkpoint_sha256'', JStr (digest_json checkpoint))]"

definition checkpoint_plan :: "json \<Rightarrow> json \<Rightarrow> json" where
  "checkpoint_plan core checkpoint = mk_obj
     [(''schema'', JStr ''an-kla/checkpoint-plan-v1''), (''core'', core), (''checkpoint'', checkpoint),
      (''plan_fingerprint'', JStr (digest_json core))]"

definition build_checkpoint_plan :: "json \<Rightarrow> json \<Rightarrow> json \<Rightarrow> int \<Rightarrow> json res" where
  "build_checkpoint_plan proposal authority decision revision =
     andthen (evaluate_checkpoint proposal authority) (\<lambda>expected.
       let unchanged_skip =
             get ''decision'' expected = JStr ''write'' \<and> py_eq decision (unchanged_decision expected)
       in if \<not> py_eq decision expected \<and> \<not> unchanged_skip
          then Inl (cpe ''invalid_checkpoint_plan'' ''decision:mismatch'')
          else if revision < 1 then Inl (cpe ''invalid_checkpoint_plan'' ''revision'')
          else
            let checkpoint = checkpoint_object (get ''working_state'' proposal) revision
            in Inr (checkpoint_plan (checkpoint_core proposal authority decision checkpoint) checkpoint))"

definition verify_checkpoint_plan :: "json \<Rightarrow> json \<Rightarrow> json \<Rightarrow> json \<Rightarrow> int \<Rightarrow> unit res" where
  "verify_checkpoint_plan plan proposal authority decision revision =
     andthen (build_checkpoint_plan proposal authority decision revision) (\<lambda>expected.
       ensure (py_eq plan expected) (cpe ''invalid_checkpoint_plan'' ''plan:mismatch''))"

section \<open>Facts\<close>

lemma same_keys_iff:
  "same_keys v keys \<longleftrightarrow> set (dict_keys v) = set keys"
  by (auto simp: same_keys_def missing_keys_def extra_keys_def filter_empty_conv has_key_def)

lemma exact_object_Inr_iff [simp, res_simps]:
  "exact_object v keys code path = Inr u \<longleftrightarrow> is_obj v \<and> set (dict_keys v) = set keys"
  by (simp add: exact_object_def same_keys_iff)

lemma check_digest_Inr_iff [simp, res_simps]: "check_digest v code detail = Inr u \<longleftrightarrow> is_digest v"
  by (cases v) (auto simp: check_digest_def succeeds_iff bare_digest_Inr_iff is_digest_def)

lemma check_provenance_Inr_iff [simp, res_simps]: "check_provenance v path = Inr u \<longleftrightarrow> str_in v PROVENANCE"
  by (cases v) (auto simp: check_provenance_def str_in_def)

lemma evaluate_checkpoint_Inr_iff:
  "evaluate_checkpoint p a = Inr d \<longleftrightarrow>
     validate_checkpoint_proposal p = Inr () \<and> validate_checkpoint_authority a = Inr () \<and>
     d = checkpoint_decision p a (if checkpoint_reasons p a \<noteq> [] then ''skip'' else ''write'')
           (checkpoint_reasons p a)"
  by (auto simp: evaluate_checkpoint_def Let_def)

lemma get_checkpoint_decision [simp]:
  "get ''decision'' (checkpoint_decision p a d rs) = JStr d"
  "get ''reasons'' (checkpoint_decision p a d rs) = strs (sorted_set rs)"
  by (simp_all add: checkpoint_decision_def)

text \<open>The items of a list with their identifiers.\<close>

lemma check_item_list_facts:
  "check_item_list items seen path = Inr () \<Longrightarrow>
   (\<forall>item\<in>set items. nonempty_str (get ''id'' item) \<and> set (dict_keys item) = {''id'', ''value'', ''provenance''}
      \<and> length (canonical_json (get ''value'' item)) \<le> 8192)
   \<and> distinct (map (\<lambda>item. str_of (get ''id'' item)) items)
   \<and> set (map (\<lambda>item. str_of (get ''id'' item)) items) \<inter> set seen = {}"
proof (induction items arbitrary: seen)
  case (Cons item items)
  from Cons.prems have i: "check_item item seen path = Inr ()"
    and r: "check_item_list items (str_of (get ''id'' item) # seen) path = Inr ()" by simp_all
  from i have f: "nonempty_str (get ''id'' item)" "set (dict_keys item) = {''id'', ''value'', ''provenance''}"
    "length (canonical_json (get ''value'' item)) \<le> 8192" "\<not> str_in (get ''id'' item) seen"
    by (simp_all add: check_item_def)
  then have "str_of (get ''id'' item) \<notin> set seen" by (elim nonempty_str.elims(2)) simp
  with f Cons.IH[OF r] show ?case unfolding list.map list.set distinct.simps by blast
qed simp

lemma py_eq_mk_obj: "py_eq (mk_obj kvs) (mk_obj kvs')  \<longleftrightarrow> py_eq_items (puts kvs []) (puts kvs' [])"
  by (simp add: mk_obj_def)

section \<open>Properties\<close>

text \<open>A working state that passes validation is closed and bounded: it has exactly the ten fields
  of the schema, each list of items has at most 50 entries with distinct non-empty identifiers and
  values of at most 8,192 canonical bytes, the previous checkpoint is named by a digest and the
  whole state prints to at most 65,536 bytes of canonical JSON.\<close>

theorem working_state_closed:
  assumes "validate_working_state w = Inr ()"
  shows "set (dict_keys w) = set working_state_keys
    \<and> list_all (\<lambda>name. is_arr (get name w) \<and> length (list_items (get name w)) \<le> 50
          \<and> distinct (map (\<lambda>i. str_of (get ''id'' i)) (list_items (get name w)))
          \<and> list_all (\<lambda>i. nonempty_str (get ''id'' i) \<and> length (canonical_json (get ''value'' i)) \<le> 8192)
              (list_items (get name w)))
        [''decisions'', ''blockers'', ''evidence'']
    \<and> is_digest (get ''supersedes_checkpoint'' w) \<and> encodable w \<and> length (canonical_json w) \<le> 65536"
proof -
  have items: "is_arr v \<and> length (list_items v) \<le> 50
          \<and> distinct (map (\<lambda>i. str_of (get ''id'' i)) (list_items v))
          \<and> list_all (\<lambda>i. nonempty_str (get ''id'' i) \<and> length (canonical_json (get ''value'' i)) \<le> 8192)
              (list_items v)" if "check_items v path = Inr ()" for v path
    using that check_item_list_facts[of "list_items v" "[]" path] by (simp add: check_items_def list_all_iff)
  from assms have i: "check_items (get name w) name = Inr ()"
    if "name \<in> {''decisions'', ''blockers'', ''evidence''}" for name
    using that by (auto simp: validate_working_state_def)
  from assms have r: "set (dict_keys w) = set working_state_keys" "is_digest (get ''supersedes_checkpoint'' w)"
    "encodable w" "length (canonical_json w) \<le> 65536"
    by (simp_all add: validate_working_state_def)
  show ?thesis
    unfolding list.pred_inject using r items[OF i[of "''decisions''"]] items[OF i[of "''blockers''"]]
      items[OF i[of "''evidence''"]] by simp
qed

text \<open>A checkpoint is written exactly when its authority is bound to this proposal and its base
  revision, its scope names all eight fields, and its class is \<open>model_derived\<close>: every other class
  the validation admits leads to \<open>skip\<close>, and the two classes that need an adapter are rejected.\<close>

theorem evaluate_checkpoint_writes:
  assumes "evaluate_checkpoint p a = Inr d"
  shows "(get ''decision'' d = JStr ''write'') =
     (get ''proposal_sha256'' a = JStr (digest_json p) \<and> get ''base_revision'' a = get ''base_revision'' p
      \<and> get ''authority_class'' a = JStr ''model_derived''
      \<and> set (map str_of (list_items (get ''fields'' (get ''scope'' a)))) = set FIELDS)
    \<and> (get ''decision'' d = JStr ''write'' \<or> get ''decision'' d = JStr ''skip'')
    \<and> get ''supersedes_checkpoint'' (get ''working_state'' p) = get ''parent_checkpoint'' p"
proof -
  from assms have p: "validate_checkpoint_proposal p = Inr ()" and a: "validate_checkpoint_authority a = Inr ()"
    and d: "d = checkpoint_decision p a (if checkpoint_reasons p a \<noteq> [] then ''skip'' else ''write'')
           (checkpoint_reasons p a)" by (simp_all add: evaluate_checkpoint_Inr_iff)
  from a have cls: "get ''authority_class'' a = JStr ''model_derived'' \<or> get ''authority_class'' a = JStr ''unresolved''"
    by (auto simp: validate_checkpoint_authority_def Let_def str_in_iff)
  have fs: "sorted_set xs = sorted_set ys \<longleftrightarrow> set xs = set ys" for xs ys :: "string list"
    using sorted_set_eqI[of xs ys] by (metis set_sorted_set)
  have "(checkpoint_reasons p a = []) =
     (get ''proposal_sha256'' a = JStr (digest_json p) \<and> get ''base_revision'' a = get ''base_revision'' p
      \<and> get ''authority_class'' a = JStr ''model_derived''
      \<and> set (map str_of (list_items (get ''fields'' (get ''scope'' a)))) = set FIELDS)"
    using cls by (auto simp: checkpoint_reasons_def fs)
  moreover have "get ''supersedes_checkpoint'' (get ''working_state'' p) = get ''parent_checkpoint'' p"
    using p by (simp add: validate_checkpoint_proposal_def)
  ultimately show ?thesis by (simp add: d)
qed

text \<open>The comparison of checkpoint plans is weaker than the digests it should protect: it uses
  Python's \<open>==\<close>, so a plan whose checkpoint holds a working state that is only \<open>==\<close> to the proposed
  one (\<open>true\<close> in place of \<open>1\<close>) is accepted with the unchanged core, although its checkpoint is not
  the one \<open>checkpoint_sha256\<close> names, unless the two canonical texts collide.\<close>

theorem verify_checkpoint_plan_numeric:
  assumes b: "build_checkpoint_plan p a d r = Inr plan"
    and eq: "py_eq w (get ''working_state'' p)" and ne: "w \<noteq> get ''working_state'' p"
    and st: "storable w" "storable p"
  shows "verify_checkpoint_plan (checkpoint_plan (get ''core'' plan) (checkpoint_object w r)) p a d r = Inr ()
    \<and> (get ''checkpoint_sha256'' (get ''core'' plan) \<noteq> JStr (digest_json (checkpoint_object w r))
       \<or> collision (canonical_json (checkpoint_object w r))
           (canonical_json (checkpoint_object (get ''working_state'' p) r)))"
proof -
  let ?cp = "checkpoint_object (get ''working_state'' p) r" and ?cw = "checkpoint_object w r"
  from b have plan: "plan = checkpoint_plan (checkpoint_core p a d ?cp) ?cp"
    by (auto simp: build_checkpoint_plan_def Let_def split: if_split_asm)
  have core: "get ''core'' plan = checkpoint_core p a d ?cp" by (simp add: plan checkpoint_plan_def)
  have "py_eq ?cw ?cp" using eq by (simp add: checkpoint_object_def py_eq_mk_obj)
  then have "py_eq (checkpoint_plan (get ''core'' plan) ?cw) plan"
    unfolding core plan checkpoint_plan_def by (simp add: py_eq_mk_obj)
  with b have v: "verify_checkpoint_plan (checkpoint_plan (get ''core'' plan) ?cw) p a d r = Inr ()"
    by (simp add: verify_checkpoint_plan_def)
  have "storable ?cw" "storable ?cp"
    unfolding checkpoint_object_def using st
    by (intro storable_mk_obj; auto simp: valid_utf8_ascii)+
  moreover have "get ''working_state'' ?cw \<noteq> get ''working_state'' ?cp"
    using ne by (simp add: checkpoint_object_def)
  then have "?cw \<noteq> ?cp" by metis
  ultimately have "digest_json ?cp \<noteq> digest_json ?cw \<or> collision (canonical_json ?cw) (canonical_json ?cp)"
    using digest_json_inject[of ?cw ?cp] by metis
  moreover have "get ''checkpoint_sha256'' (get ''core'' plan) = JStr (digest_json ?cp)"
    by (simp add: core checkpoint_core_def)
  ultimately show ?thesis using v by simp
qed

text \<open>Concrete values at which the properties apply.\<close>

definition sample_digest :: string where
  "sample_digest = ''sha256:'' @ replicate 64 (CHR ''0'')"

definition sample_working_state :: "json \<Rightarrow> json" where
  "sample_working_state v = mk_obj
     [(''schema'', JStr ''an-kla/working-state-v2''), (''objective'', unavailable_field),
      (''phase'', unavailable_field), (''next_step'', unavailable_field),
      (''decisions'', JArr [mk_obj [(''id'', JStr ''d''), (''value'', v),
                                   (''provenance'', JStr ''caller_asserted'')]]),
      (''blockers'', JArr []), (''evidence'', JArr []),
      (''source_state'', mk_obj [(''profile'', JStr ''none/v1''), (''head'', unavailable_field),
                                (''branch'', unavailable_field), (''dirty_digest'', unavailable_field)]),
      (''captured_at'', unavailable_field), (''supersedes_checkpoint'', JStr sample_digest)]"

definition sample_checkpoint_proposal :: json where
  "sample_checkpoint_proposal = mk_obj
     [(''schema'', JStr ''an-kla/checkpoint-proposal-v1''), (''base_revision'', JStr sample_digest),
      (''parent_checkpoint'', JStr sample_digest),
      (''working_state'', sample_working_state (JInt 1))]"

definition sample_checkpoint_authority :: "json \<Rightarrow> json" where
  "sample_checkpoint_authority p = mk_obj
     [(''schema'', JStr ''an-kla/checkpoint-authority-v1''), (''proposal_sha256'', JStr (digest_json p)),
      (''base_revision'', JStr sample_digest), (''authority_class'', JStr ''model_derived''),
      (''issuer'', mk_obj [(''kind'', JStr ''model''), (''id'', JStr ''m''),
                          (''configuration_fingerprint'', JStr sample_digest)]),
      (''evidence'', JArr []),
      (''scope'', mk_obj [(''operation'', JStr ''checkpoint''), (''fields'', strs (sort FIELDS))])]"

lemma sample_digest_shape [simp]: "digest_shape sample_digest"
  by code_simp

lemma unavailable_field_ok [simp]: "check_field unavailable_field t path = Inr ()"
  by (simp add: check_field_def unavailable_field_def PROVENANCE_def insert_commute)

lemma sample_working_state_size:
  "encodable (sample_working_state (JInt 1)) \<and> length (canonical_json (sample_working_state (JInt 1))) \<le> 65536"
proof -
  have "length (canonical_json (sample_working_state (JInt 1))) \<le> 1500" by code_simp
  moreover have "encodable (sample_working_state (JInt 1))" by code_simp
  ultimately show ?thesis by simp
qed

lemma sample_working_state_valid: "validate_working_state (sample_working_state (JInt 1)) = Inr ()"
proof -
  have d: "check_items (JArr [mk_obj [(''id'', JStr ''d''), (''value'', JInt 1),
      (''provenance'', JStr ''caller_asserted'')]]) path = Inr ()" for path
  proof -
    have "length (canonical_json (JInt 1)) \<le> 10" by code_simp
    then show ?thesis by (simp add: check_items_def check_item_def PROVENANCE_def insert_commute)
  qed
  have e: "check_items (JArr []) path = Inr ()" for path by (simp add: check_items_def)
  have s: "check_source (mk_obj [(''profile'', JStr ''none/v1''), (''head'', unavailable_field),
      (''branch'', unavailable_field), (''dirty_digest'', unavailable_field)]) = Inr ()"
    by (simp add: check_source_def insert_commute)
  show ?thesis
    unfolding validate_working_state_def checks_Cons_Inr_iff
    using sample_working_state_size
    by (simp only: ensure_Inr_iff) (simp add: sample_working_state_def d e s working_state_keys_def insert_commute)
qed

lemma sample_checkpoint_proposal_valid: "validate_checkpoint_proposal sample_checkpoint_proposal = Inr ()"
proof -
  have "get ''supersedes_checkpoint'' (sample_working_state (JInt 1)) = JStr sample_digest"
    by (simp add: sample_working_state_def)
  then show ?thesis
    by (simp add: validate_checkpoint_proposal_def sample_checkpoint_proposal_def
        sample_working_state_valid insert_commute)
qed

lemma sample_checkpoint_authority_valid: "validate_checkpoint_authority (sample_checkpoint_authority p) = Inr ()"
proof -
  have s: "validate_checkpoint_scope (mk_obj [(''operation'', JStr ''checkpoint''), (''fields'', strs (sort FIELDS))])
      = Inr ()" by code_simp
  show ?thesis
    by (simp add: validate_checkpoint_authority_def sample_checkpoint_authority_def Let_def s
        checkpoint_issuer_kind_def insert_commute)
qed

lemma sample_checkpoint_reasons:
  "checkpoint_reasons sample_checkpoint_proposal (sample_checkpoint_authority sample_checkpoint_proposal) = []"
proof -
  have "get ''base_revision'' sample_checkpoint_proposal = JStr sample_digest" by code_simp
  moreover have "sorted_set (map str_of (map JStr (sort FIELDS))) = sorted_set FIELDS" by code_simp
  ultimately show ?thesis by (simp add: checkpoint_reasons_def sample_checkpoint_authority_def)
qed

lemma sample_checkpoint_evaluates:
  "evaluate_checkpoint sample_checkpoint_proposal (sample_checkpoint_authority sample_checkpoint_proposal)
   = Inr (checkpoint_decision sample_checkpoint_proposal
       (sample_checkpoint_authority sample_checkpoint_proposal) ''write'' [])"
  by (simp add: evaluate_checkpoint_Inr_iff sample_checkpoint_proposal_valid sample_checkpoint_authority_valid
      sample_checkpoint_reasons)

lemma working_state_closed_witness:
  "set (dict_keys (sample_working_state (JInt 1))) = set working_state_keys
   \<and> length (canonical_json (sample_working_state (JInt 1))) \<le> 65536"
  using working_state_closed[OF sample_working_state_valid] by blast

lemma evaluate_checkpoint_writes_witness:
  "\<exists>d. evaluate_checkpoint sample_checkpoint_proposal
        (sample_checkpoint_authority sample_checkpoint_proposal) = Inr d
     \<and> get ''decision'' d = JStr ''write''
     \<and> get ''authority_class'' (sample_checkpoint_authority sample_checkpoint_proposal) = JStr ''model_derived''"
proof -
  have "get ''decision'' (checkpoint_decision sample_checkpoint_proposal
       (sample_checkpoint_authority sample_checkpoint_proposal) ''write'' []) = JStr ''write''" by simp
  with evaluate_checkpoint_writes[OF sample_checkpoint_evaluates] sample_checkpoint_evaluates
  show ?thesis by blast
qed

lemma verify_checkpoint_plan_numeric_witness:
  "\<exists>d plan. build_checkpoint_plan sample_checkpoint_proposal
        (sample_checkpoint_authority sample_checkpoint_proposal) d 1 = Inr plan
     \<and> verify_checkpoint_plan
         (checkpoint_plan (get ''core'' plan) (checkpoint_object (sample_working_state (JBool True)) 1))
         sample_checkpoint_proposal (sample_checkpoint_authority sample_checkpoint_proposal) d 1 = Inr ()"
proof -
  let ?p = sample_checkpoint_proposal and ?a = "sample_checkpoint_authority sample_checkpoint_proposal"
  let ?d = "checkpoint_decision ?p ?a ''write'' []"
  obtain plan where b: "build_checkpoint_plan ?p ?a ?d 1 = Inr plan"
    by (simp add: build_checkpoint_plan_def sample_checkpoint_evaluates Let_def)
  have ws: "get ''working_state'' ?p = sample_working_state (JInt 1)" by code_simp
  have eq: "py_eq (sample_working_state (JBool True)) (get ''working_state'' ?p)"
    unfolding ws by code_simp
  have ne: "sample_working_state (JBool True) \<noteq> get ''working_state'' ?p"
    unfolding ws by code_simp
  have st: "storable (sample_working_state (JBool True))" "storable ?p"
    unfolding storable_def by code_simp+
  show ?thesis using verify_checkpoint_plan_numeric[OF b eq ne st] b by blast
qed

end
