(* ===== verification/Manifest.thy ===== *)
theory Manifest
  imports Attempts CheckpointPolicy
begin

text \<open>
  Revision manifests: \<open>validate_manifest\<close> of \<open>revision_validation.py\<close> for the three generations
  of manifests, and \<open>build_child_manifest\<close> of \<open>revision_builder.py\<close>. The validator is called
  with the class of the errors it raises; identifiers that are no digests raise \<open>ValueError\<close>.
\<close>

section \<open>Validation\<close>

definition rev1 :: json where "rev1 = JStr ''an-kla/revision-v1''"
definition rev2 :: json where "rev2 = JStr ''an-kla/revision-v2''"
definition rev3 :: json where "rev3 = JStr ''an-kla/revision-v3''"

definition segments_key :: "string \<Rightarrow> string" where
  "segments_key stream = stream @ ''_segments''"

definition manifest_required :: "json \<Rightarrow> string list" where
  "manifest_required schema =
     [''schema'', ''revision'', ''parent'', ''facts_segments'', ''events_segments'', ''episodes_segments'',
      ''checkpoint'', ''transaction_id'', ''canonicalization'', ''integrity_claim''] @
     (if schema = rev2 then [''store_identity'', ''features'', ''refutations_map'']
      else if schema = rev3
        then [''store_identity'', ''features'', ''refutations_map'', ''supersedes_map'', ''compaction_epoch'']
      else [])"

definition manifest_shape :: "json \<Rightarrow> bool" where
  "manifest_shape m \<longleftrightarrow>
     (let required = manifest_required (get ''schema'' m) in
      list_all (\<lambda>k. has_key k m) required \<and>
      list_all (\<lambda>k. k \<in> set (required @ [''store_identity'', ''supersedes_map''])) (dict_keys m))"

definition is_natural :: "json \<Rightarrow> bool" where
  "is_natural v \<longleftrightarrow> is_proper_int v \<and> int_of v \<ge> 0"

text \<open>\<open>digest_text v\<close>: \<open>bare_digest(str(v))\<close>.\<close>

definition digest_text :: "json \<Rightarrow> unit res" where
  "digest_text v = andthen (bare_digest (py_str v)) (\<lambda>_. Inr ())"

definition check_identifier :: "exn_class \<Rightarrow> json \<Rightarrow> unit res" where
  "check_identifier error v =
     (case v of JStr t \<Rightarrow> andthen (bare_digest t) (\<lambda>_. Inr ())
      | _ \<Rightarrow> raise error ''manifest_identifier_missing'')"

definition check_root_parent :: "exn_class \<Rightarrow> json \<Rightarrow> unit res" where
  "check_root_parent error m =
     (let rootless = get ''parent'' m = JNull; first = int_of (get ''revision'' m) = 0 in
      ensure (if get ''schema'' m = rev3
              then \<not> (first \<or> (rootless \<and> \<not> is_obj (get ''compaction_epoch'' m)))
              else first = rootless)
        (Exn error ''manifest_parent_invalid'' None))"

definition check_manifest_transaction :: "exn_class \<Rightarrow> json \<Rightarrow> unit res" where
  "check_manifest_transaction error m =
     ensure (if get ''transaction_id'' m = JStr ''root''
             then int_of (get ''revision'' m) = 0 \<and> get ''parent'' m = JNull \<and> get ''schema'' m = rev1
             else is_canonical_uuid (get ''transaction_id'' m))
       (Exn error ''manifest_transaction_id_invalid'' None)"

definition check_segment_list :: "exn_class \<Rightarrow> json \<Rightarrow> unit res" where
  "check_segment_list error v =
     checks
       [ensure (is_arr v \<and> list_all is_str (list_items v)) (Exn error ''manifest_segments_invalid'' None),
        ensure (distinct (list_items v)) (Exn error ''manifest_segments_invalid'' None),
        each bare_digest_value (list_items v)]"

definition check_supersedes_entry :: "exn_class \<Rightarrow> json \<Rightarrow> unit res" where
  "check_supersedes_entry error entry =
     ensure (is_obj entry \<and> same_keys entry [''stream'', ''target_id'', ''sustituida_por''] \<and>
             str_in (get ''stream'' entry) STREAMS \<and> nonempty_str (get ''target_id'' entry) \<and>
             nonempty_str (get ''sustituida_por'' entry))
       (Exn error ''manifest_supersedes_map_invalid'' None)"

definition check_supersedes_map :: "exn_class \<Rightarrow> json \<Rightarrow> unit res" where
  "check_supersedes_map error v =
     when_ok (v \<noteq> JNull)
       (checks [ensure (is_arr v) (Exn error ''manifest_supersedes_map_invalid'' None),
                each (check_supersedes_entry error) (list_items v)])"

text \<open>
  The entries of the refutation map, in order: \<open>seen\<close> holds the pairs of stream and target. The
  membership test hashes the target, so that a list or a dict raises \<open>TypeError\<close>.
\<close>

fun check_refutation_entries :: "exn_class \<Rightarrow> (json \<times> json) list \<Rightarrow> json list \<Rightarrow> unit res" where
  "check_refutation_entries error seen [] = Inr ()"
| "check_refutation_entries error seen (entry # rest) =
     (let stream = get ''stream'' entry; target = get ''target_record_sha256'' entry;
          bad = Exn error ''manifest_refutations_map_invalid'' None
      in andthen
       (checks
         [ensure (is_obj entry \<and> same_keys entry [''stream'', ''target_record_sha256'', ''refutation_id'']) bad,
          ensure (str_in stream STREAMS) bad,
          ensure (hashable target) (Exn TypeError ''unhashable type'' None),
          ensure ((stream, target) \<notin> set seen) bad,
          except_as is_value_error bad
            (checks [digest_text target, digest_text (get ''refutation_id'' entry)])])
       (\<lambda>_. check_refutation_entries error ((stream, target) # seen) rest))"

definition check_refutations :: "exn_class \<Rightarrow> json \<Rightarrow> unit res" where
  "check_refutations error m =
     (let schema = get ''schema'' m; entries = get ''refutations_map'' m in
      checks
       [ensure (get ''features'' m = JArr (if schema = rev2 then [JStr ''refutations/v1'']
                                         else [JStr ''refutations/v1'', JStr ''compaction/v1'']))
          (Exn error ''manifest_features_invalid'' None),
        ensure (is_arr entries \<and> \<not> (schema = rev2 \<and> list_items entries = []))
          (Exn error ''manifest_refutations_map_invalid'' None),
        check_refutation_entries error [] (list_items entries)])"

definition epoch_keys :: "string list" where
  "epoch_keys = [''source_revision'', ''export_manifest_sha256'', ''tombstone_catalog'', ''epoch_manifest'']"

definition check_epoch :: "exn_class \<Rightarrow> json \<Rightarrow> unit res" where
  "check_epoch error epoch =
     (let bad = Exn error ''manifest_compaction_epoch_invalid'' None in
      checks
       [ensure (is_obj epoch \<and> same_keys epoch (''epoch_id'' # epoch_keys)) bad,
        ensure (is_canonical_uuid (get ''epoch_id'' epoch)) bad,
        except_as is_value_error bad (each (\<lambda>k. digest_text (get k epoch)) epoch_keys)])"

definition validate_manifest :: "exn_class \<Rightarrow> json \<Rightarrow> unit res" where
  "validate_manifest error m =
     (let schema = get ''schema'' m; parent = get ''parent'' m in
      checks
       [ensure (is_obj m) (Exn AttributeError ''get'' None),
        ensure (schema \<in> {rev1, rev2, rev3}) (Exn error ''manifest_schema_invalid'' None),
        ensure (manifest_shape m) (Exn error ''manifest_shape_invalid'' None),
        ensure (is_natural (get ''revision'' m)) (Exn error ''manifest_revision_invalid'' None),
        check_identifier error (get ''checkpoint'' m),
        when_ok (\<not> (parent = JNull \<and> (int_of (get ''revision'' m) = 0 \<or> schema = rev3)))
          (check_identifier error parent),
        check_root_parent error m,
        ensure (get ''canonicalization'' m = JStr ''canonical-json/v1'' \<and>
                get ''integrity_claim'' m = JStr ''content_identity_not_truth_or_authorship'')
          (Exn error ''manifest_constants_invalid'' None),
        check_manifest_transaction error m,
        each (\<lambda>stream. check_segment_list error (get (segments_key stream) m)) STREAMS,
        when_ok (get ''store_identity'' m \<noteq> JNull) (digest_text (get ''store_identity'' m)),
        check_supersedes_map error (get ''supersedes_map'' m),
        when_ok (schema \<in> {rev2, rev3}) (check_refutations error m),
        when_ok (schema = rev3) (check_epoch error (get ''compaction_epoch'' m))])"

section \<open>Child manifests\<close>

record child =
  child_revision :: int
  child_parent :: string
  child_segments :: "string \<Rightarrow> string list"
  child_checkpoint :: string
  child_transaction :: string
  child_operation :: string
  child_identity :: "string option"
  child_supersedes :: "json list"
  child_refutations :: "json list"

definition child_schema :: "json \<Rightarrow> string \<Rightarrow> json" where
  "child_schema base operation =
     (if get ''schema'' base = rev3 then rev3
      else if get ''schema'' base = rev2 \<or> operation = ''refute'' then rev2
      else rev1)"

definition child_core :: "json \<Rightarrow> child \<Rightarrow> (string \<times> json) list" where
  "child_core schema c =
     [(''schema'', schema), (''revision'', JInt (child_revision c)), (''parent'', JStr (child_parent c)),
      (''facts_segments'', JArr (map JStr (child_segments c ''facts''))),
      (''events_segments'', JArr (map JStr (child_segments c ''events''))),
      (''episodes_segments'', JArr (map JStr (child_segments c ''episodes''))),
      (''checkpoint'', JStr (child_checkpoint c)), (''transaction_id'', JStr (child_transaction c)),
      (''canonicalization'', JStr ''canonical-json/v1''),
      (''integrity_claim'', JStr ''content_identity_not_truth_or_authorship'')]"

definition child_extras :: "json \<Rightarrow> json \<Rightarrow> child \<Rightarrow> (string \<times> json) list" where
  "child_extras base schema c =
     (case child_identity c of None \<Rightarrow> [] | Some i \<Rightarrow> [(''store_identity'', JStr i)]) @
     (if child_supersedes c \<noteq> [] \<or> schema = rev3 then [(''supersedes_map'', JArr (child_supersedes c))] else []) @
     (if schema \<noteq> rev1 then
        [(''features'', JArr (if schema = rev3 then [JStr ''refutations/v1'', JStr ''compaction/v1'']
                            else [JStr ''refutations/v1''])),
         (''refutations_map'', JArr (child_refutations c))] else []) @
     (if schema = rev3 then [(''compaction_epoch'', get ''compaction_epoch'' base)] else [])"

definition build_child_manifest :: "json \<Rightarrow> child \<Rightarrow> json res" where
  "build_child_manifest base c =
     (let schema = child_schema base (child_operation c) in
      andthen
       (checks
         [case child_identity c of None \<Rightarrow> Inr () | Some i \<Rightarrow> andthen (bare_digest i) (\<lambda>_. Inr ()),
          ensure (\<not> (schema \<noteq> rev1 \<and>
                     (child_identity c = None \<or> (schema = rev2 \<and> child_refutations c = []))))
            (Exn TransactionError ''revision_transition_invalid'' None)])
       (\<lambda>_. Inr (mk_obj (child_core schema c @ child_extras base schema c))))"

section \<open>Children of valid manifests\<close>

lemma digest_text_JStr [simp]: "digest_text (JStr t) = Inr u \<longleftrightarrow> digest_shape t"
  by (auto simp: digest_text_def bare_digest_Inr_iff)

lemma check_identifier_JStr [simp]: "check_identifier error (JStr t) = Inr u \<longleftrightarrow> digest_shape t"
  by (auto simp: check_identifier_def bare_digest_Inr_iff)

lemma schema_distinct [simp]: "rev1 \<noteq> rev2" "rev1 \<noteq> rev3" "rev2 \<noteq> rev3" "rev2 \<noteq> rev1" "rev3 \<noteq> rev1" "rev3 \<noteq> rev2"
  by (simp_all add: rev1_def rev2_def rev3_def)

lemma check_segment_list_strs [simp]:
  "check_segment_list error (JArr (map JStr ids)) = Inr u \<longleftrightarrow> distinct ids \<and> list_all digest_shape ids"
  by (auto simp: check_segment_list_def list_all_iff distinct_map inj_on_def)

text \<open>The arguments the commit passes for a child of \<open>base\<close>.\<close>

definition child_ok :: "json \<Rightarrow> child \<Rightarrow> bool" where
  "child_ok base c \<longleftrightarrow>
     child_revision c = int_of (get ''revision'' base) + 1 \<and> digest_shape (child_parent c) \<and>
     digest_shape (child_checkpoint c) \<and> uuid_shape (child_transaction c) \<and>
     list_all (\<lambda>stream. distinct (child_segments c stream) \<and>
       list_all digest_shape (child_segments c stream)) STREAMS \<and>
     list_all (\<lambda>entry. check_supersedes_entry IntegrityError entry = Inr ()) (child_supersedes c) \<and>
     check_refutation_entries IntegrityError [] (child_refutations c) = Inr ()"

lemma child_schema_cases: "child_schema base operation \<in> {rev1, rev2, rev3}"
  by (simp add: child_schema_def)

text \<open>The child manifest of a valid base and arguments in order is valid: every field the validator
  checks, for each generation of manifests, follows from the arguments.\<close>

lemma child_manifest_valid:
  assumes base: "validate_manifest IntegrityError base = Inr ()"
    and ok: "child_ok base c" and build: "build_child_manifest base c = Inr m"
  shows "validate_manifest IntegrityError m = Inr () \<and>
    get ''parent'' m = JStr (child_parent c) \<and>
    get ''revision'' m = JInt (int_of (get ''revision'' base) + 1)"
proof -
  let ?schema = "child_schema base (child_operation c)"
  have m: "m = mk_obj (child_core ?schema c @ child_extras base ?schema c)"
    and ident: "case child_identity c of None \<Rightarrow> ?schema = rev1 | Some i \<Rightarrow> digest_shape i"
    and refs: "?schema = rev2 \<Longrightarrow> child_refutations c \<noteq> []"
    using build child_schema_cases[of base "child_operation c"]
    by (auto simp: build_child_manifest_def Let_def bare_digest_Inr_iff split: option.splits)
  have rev: "int_of (get ''revision'' base) \<ge> 0"
    using base by (auto simp: validate_manifest_def Let_def is_natural_def)
  have epoch: "?schema = rev3 \<Longrightarrow> check_epoch IntegrityError (get ''compaction_epoch'' base) = Inr ()"
    using base by (auto simp: validate_manifest_def Let_def child_schema_def split: if_splits)
  have uuid: "child_transaction c \<noteq> ''root''"
    using ok by (auto simp: child_ok_def uuid_shape_def)
  have txid: "is_canonical_uuid (JStr (child_transaction c))"
    using ok by (simp add: child_ok_def is_canonical_uuid_def)
  note facts = ok[unfolded child_ok_def]
  from child_schema_cases[of base "child_operation c"] consider "?schema = rev1" | "?schema = rev2" | "?schema = rev3"
    by blast
  then show ?thesis
  proof cases
    case 1
    show ?thesis
      using ident facts rev uuid txid 1
      by (cases "child_identity c"; cases "child_supersedes c = []")
        (auto simp: m validate_manifest_def child_core_def child_extras_def manifest_shape_def
          manifest_required_def is_natural_def check_root_parent_def check_manifest_transaction_def
          STREAMS_def segments_key_def check_supersedes_map_def list_all_iff Let_def)
  next
    case 2
    show ?thesis
      using ident facts rev uuid txid 2 refs[OF 2]
      by (cases "child_identity c"; cases "child_supersedes c = []")
        (auto simp: m validate_manifest_def child_core_def child_extras_def manifest_shape_def
          manifest_required_def is_natural_def check_root_parent_def check_manifest_transaction_def
          STREAMS_def segments_key_def check_supersedes_map_def check_refutations_def list_all_iff Let_def)
  next
    case 3
    show ?thesis
      using ident facts rev uuid txid 3 epoch[OF 3]
      by (cases "child_identity c")
        (auto simp: m validate_manifest_def child_core_def child_extras_def manifest_shape_def
          manifest_required_def is_natural_def check_root_parent_def check_manifest_transaction_def
          STREAMS_def segments_key_def check_supersedes_map_def check_refutations_def list_all_iff Let_def)
  qed
qed

lemma child_manifest_parent:
  "build_child_manifest base c = Inr m \<Longrightarrow> get ''parent'' m = JStr (child_parent c)"
  by (auto simp: build_child_manifest_def child_core_def child_extras_def Let_def split: option.splits)

section \<open>Examples\<close>

text \<open>The root revision of a new store, and a first child with one segment of events.\<close>

definition sample_root :: json where
  "sample_root = mk_obj
     [(''schema'', rev1), (''revision'', JInt 0), (''parent'', JNull), (''facts_segments'', JArr []),
      (''events_segments'', JArr []), (''episodes_segments'', JArr []),
      (''checkpoint'', JStr (digest_json JNull)), (''transaction_id'', JStr ''root''),
      (''canonicalization'', JStr ''canonical-json/v1''),
      (''integrity_claim'', JStr ''content_identity_not_truth_or_authorship'')]"

definition sample_child :: child where
  "sample_child = \<lparr>child_revision = 1, child_parent = digest_json sample_root,
     child_segments = (\<lambda>stream. if stream = ''events'' then [digest_bytes ''x''] else []),
     child_checkpoint = digest_json JNull, child_transaction = some_uuid, child_operation = ''write'',
     child_identity = None, child_supersedes = [], child_refutations = []\<rparr>"

lemma sample_root_valid: "validate_manifest IntegrityError sample_root = Inr ()"
  by (simp add: sample_root_def validate_manifest_def manifest_shape_def manifest_required_def
      is_natural_def check_root_parent_def check_manifest_transaction_def STREAMS_def segments_key_def
      check_supersedes_map_def check_segment_list_def list_all_iff Let_def)

lemma sample_child_ok: "child_ok sample_root sample_child"
  by (simp add: child_ok_def sample_child_def sample_root_def STREAMS_def)

lemma sample_child_schema: "child_schema sample_root ''write'' = rev1"
  by (simp add: child_schema_def sample_root_def)

lemma child_manifest_valid_witness:
  "case build_child_manifest sample_root sample_child of
     Inr m \<Rightarrow> validate_manifest IntegrityError m = Inr () \<and> get ''revision'' m = JInt 1
   | Inl _ \<Rightarrow> False"
proof -
  obtain m where m: "build_child_manifest sample_root sample_child = Inr m"
    by (simp add: build_child_manifest_def sample_child_def sample_child_schema checks.simps(2))
  have "int_of (get ''revision'' sample_root) = 0" by (simp add: sample_root_def)
  with child_manifest_valid[OF sample_root_valid sample_child_ok m] m show ?thesis by simp
qed

end
