(* ===== verification/RevisionWalk.thy ===== *)
theory RevisionWalk
  imports Manifest
begin

text \<open>
  \<open>revision_walk.py\<close>: the traversal of the parents of a revision, the lineage summary and the
  projections it remembers for one operation; \<open>_manifest_candidates\<close> of \<open>transactions.py\<close>, which
  may use them; and \<open>watermark.py\<close>. For the consumers that exhaust the generator \<open>walk_revisions\<close>, or
  drop what they have when it raises, it is the list of what it yields; \<open>visit\<close> is a loop over it
  that may stop early, and then never sees an error further down.
\<close>

section \<open>The traversal\<close>

definition schemas :: "string list" where
  "schemas = [''an-kla/revision-v1'', ''an-kla/revision-v2'', ''an-kla/revision-v3'']"

abbreviation transition_error :: exn where
  "transition_error \<equiv> Exn RevisionWalkError ''revision_transition_invalid'' None"

text \<open>One step: the manifest of \<open>cursor\<close>, checked against the revision number of its child.\<close>

definition walk_node :: "os \<Rightarrow> string list \<Rightarrow> int option \<Rightarrow> string \<Rightarrow> json res" where
  "walk_node s seen child cursor =
     andthen (bare_digest cursor) (\<lambda>_.
     andthen (ensure (cursor \<notin> set seen) transition_error) (\<lambda>_.
     andthen (read_json_object ''revisions'' cursor s) (\<lambda>m.
     let revision = get ''revision'' m; parent = get ''parent'' m; schema = get ''schema'' m in
     andthen (checks
       [ensure (is_obj m) transition_error,
        ensure (is_natural revision \<and> str_in schema schemas \<and>
                (case child of None \<Rightarrow> True | Some c \<Rightarrow> int_of revision = c - 1)) transition_error,
        if parent = JNull
        then ensure (schema = rev1 \<and> int_of revision = 0 \<or> schema = rev3 \<and> int_of revision > 0)
               transition_error
        else andthen (ensure (is_str parent \<and> int_of revision \<noteq> 0) transition_error)
               (\<lambda>_. digest_text parent)])
     (\<lambda>_. Inr m))))"

lemma walk_nodeD:
  "walk_node s seen child cursor = Inr m \<Longrightarrow>
   read_json_object ''revisions'' cursor s = Inr m \<and> cursor \<notin> set seen \<and> is_obj m \<and>
   is_natural (get ''revision'' m) \<and> str_in (get ''schema'' m) schemas \<and>
   (child = None \<or> child = Some (int_of (get ''revision'' m) + 1)) \<and>
   (if get ''parent'' m = JNull
    then get ''schema'' m = rev1 \<and> int_of (get ''revision'' m) = 0 \<or>
         get ''schema'' m = rev3 \<and> int_of (get ''revision'' m) > 0
    else is_str (get ''parent'' m) \<and> digest_shape (str_of (get ''parent'' m)))"
  by (auto simp: walk_node_def Let_def is_str_iff split: if_splits option.splits)

text \<open>The recursion ends because the revision number of the child, once known, decreases.\<close>

function walk :: "os \<Rightarrow> string list \<Rightarrow> int option \<Rightarrow> string \<Rightarrow> (string \<times> json) list res" where
  "walk s seen child cursor =
     (case walk_node s seen child cursor of
        Inl e \<Rightarrow> Inl e
      | Inr m \<Rightarrow>
          if get ''parent'' m = JNull then Inr [(cursor, m)]
          else andthen (walk s (cursor # seen) (Some (int_of (get ''revision'' m)))
                         (str_of (get ''parent'' m)))
                 (\<lambda>rest. Inr ((cursor, m) # rest)))"
  by pat_completeness auto
termination
proof (relation "measures [\<lambda>(s, seen, child, cursor). if child = None then 1 else 0,
                           \<lambda>(s, seen, child, cursor). nat (the child)]", goal_cases)
  case (2 s seen child cursor m)
  then have "walk_node s seen child cursor = Inr m" by simp
  from walk_nodeD[OF this] show ?case
    by (cases child) (auto simp: is_natural_def)
qed simp

declare walk.simps [simp del]

text \<open>A loop over the generator: \<open>decide\<close> answers when to stop, and with what.\<close>

function visit :: "(string \<Rightarrow> json \<Rightarrow> 'a option) \<Rightarrow> os \<Rightarrow> string list \<Rightarrow> int option \<Rightarrow> string \<Rightarrow> 'a option res" where
  "visit decide s seen child cursor =
     (case walk_node s seen child cursor of
        Inl e \<Rightarrow> Inl e
      | Inr m \<Rightarrow>
          (case decide cursor m of
             Some answer \<Rightarrow> Inr (Some answer)
           | None \<Rightarrow>
               if get ''parent'' m = JNull then Inr None
               else visit decide s (cursor # seen) (Some (int_of (get ''revision'' m))) (str_of (get ''parent'' m))))"
  by pat_completeness auto
termination
proof (relation "measures [\<lambda>(decide, s, seen, child, cursor). if child = None then 1 else 0,
                           \<lambda>(decide, s, seen, child, cursor). nat (the child)]", goal_cases)
  case (2 decide s seen child cursor m)
  then have "walk_node s seen child cursor = Inr m" by simp
  from walk_nodeD[OF this] show ?case
    by (cases child) (auto simp: is_natural_def)
qed simp

declare visit.simps [simp del]

text \<open>On a chain without errors the loop answers for the first node that stops it.\<close>

lemma visit_walk:
  "walk s seen child cursor = Inr nodes \<Longrightarrow>
   visit decide s seen child cursor = Inr (case List.map_filter (\<lambda>(i, m). decide i m) nodes of [] \<Rightarrow> None | a # _ \<Rightarrow> Some a)"
proof (induction s seen child cursor arbitrary: nodes rule: walk.induct)
  case (1 s seen child cursor)
  obtain m where m: "walk_node s seen child cursor = Inr m"
    using "1.prems" by (cases "walk_node s seen child cursor") (auto simp: walk.simps[of s seen child cursor])
  show ?case
  proof (cases "get ''parent'' m = JNull")
    case True
    then have "nodes = [(cursor, m)]" using "1.prems" m by (simp add: walk.simps[of s seen child cursor])
    then show ?thesis using True m
      by (simp add: visit.simps[of decide s seen child cursor] List.map_filter_def split: option.split)
  next
    case False
    then obtain rest where rest: "walk s (cursor # seen) (Some (int_of (get ''revision'' m))) (str_of (get ''parent'' m)) = Inr rest"
      and nodes: "nodes = (cursor, m) # rest" using "1.prems" m by (auto simp: walk.simps[of s seen child cursor])
    from "1.IH"[OF m False rest] show ?thesis using False m nodes
      by (simp add: visit.simps[of decide s seen child cursor] List.map_filter_def split: option.split)
  qed
qed

definition walk_revisions :: "os \<Rightarrow> string \<Rightarrow> (string \<times> json) list res" where
  "walk_revisions s current = walk s [] None current"

section \<open>Projections\<close>

text \<open>\<open>_OperationContext\<close>: schema and transaction identifier by revision identifier.\<close>

type_synonym context_map = "(string \<times> string \<times> string) list"

definition remember :: "string \<Rightarrow> json \<Rightarrow> context_map \<Rightarrow> context_map" where
  "remember identifier m ctx =
     (if is_obj m \<and> str_in (get ''schema'' m) schemas \<and> is_canonical_uuid (get ''transaction_id'' m)
      then put identifier (str_of (get ''schema'' m), str_of (get ''transaction_id'' m)) ctx
      else ctx)"

definition projection :: "context_map \<Rightarrow> string \<Rightarrow> (string \<times> string) option" where
  "projection ctx identifier = map_of ctx identifier"

text \<open>What a walk leaves in the context.\<close>

definition remember_all :: "(string \<times> json) list \<Rightarrow> context_map \<Rightarrow> context_map" where
  "remember_all nodes ctx = foldl (\<lambda>c (identifier, m). remember identifier m c) ctx nodes"

section \<open>Lineage\<close>

text \<open>\<open>_LineageSummary\<close>: for each revision of the chain whether it and all the younger ones are
  linked to the identity, and whether it is the first without a link.\<close>

fun lineage_points :: "string \<Rightarrow> bool \<Rightarrow> (string \<times> json) list \<Rightarrow> (string \<times> bool \<times> bool) list" where
  "lineage_points identity prefix_ok [] = []"
| "lineage_points identity prefix_ok ((identifier, m) # rest) =
     (let linked = get ''store_identity'' m;
          strict = prefix_ok \<and> linked = JStr identity;
          legacy = prefix_ok \<and> linked = JNull
      in (identifier, strict, legacy) # lineage_points identity strict rest)"

record lineage =
  points :: "(string \<times> bool \<times> bool) list"
  root_schema :: json

definition lineage_summary :: "os \<Rightarrow> string \<Rightarrow> string \<Rightarrow> lineage res" where
  "lineage_summary s current identity =
     andthen (walk_revisions s current) (\<lambda>nodes.
       Inr \<lparr>points = lineage_points identity True nodes,
            root_schema = get ''schema'' (snd (last nodes))\<rparr>)"

definition lineage_contains :: "lineage \<Rightarrow> string \<Rightarrow> bool" where
  "lineage_contains l identifier \<longleftrightarrow> map_of (points l) identifier \<noteq> None"

definition lineage_bound :: "lineage \<Rightarrow> bool \<Rightarrow> string \<Rightarrow> bool" where
  "lineage_bound l allow_legacy identifier =
     (case map_of (points l) identifier of
        None \<Rightarrow> False
      | Some (strict, legacy) \<Rightarrow> strict \<or> (allow_legacy \<and> legacy))"

section \<open>Candidates of a transaction\<close>

text \<open>The files of the revision directory, in name order: identifier and bytes.\<close>

definition revision_files :: "os \<Rightarrow> (string \<times> string) list" where
  "revision_files s =
     map (\<lambda>stem. (''sha256:'' @ stem,
                  case bytes_at (''revisions/sha256/'' @ stem @ ''.json'') s of None \<Rightarrow> [] | Some b \<Rightarrow> b))
       (json_stems ''revisions/sha256'' s)"

text \<open>Schema and transaction of a file, when it holds a canonical JSON object. A non-finite float
  makes \<open>canonical_json\<close> raise, which the caller does not catch.\<close>

definition read_projection :: "string \<Rightarrow> (json \<times> json) option res" where
  "read_projection payload =
     (case json_loads payload of
        Inl e \<Rightarrow> Inr None
      | Inr value \<Rightarrow>
          andthen (dump value) (\<lambda>text.
            if text \<noteq> payload \<or> \<not> is_obj value then Inr None
            else Inr (Some (get ''schema'' value, get ''transaction_id'' value))))"

definition candidate_projection :: "context_map option \<Rightarrow> string \<Rightarrow> string \<Rightarrow> (json \<times> json) option res" where
  "candidate_projection ctx identifier payload =
     (case (case ctx of None \<Rightarrow> None | Some c \<Rightarrow> projection c identifier) of
        Some (schema, txid) \<Rightarrow> Inr (Some (JStr schema, JStr txid))
      | None \<Rightarrow> read_projection payload)"

fun select_candidates :: "context_map option \<Rightarrow> string \<Rightarrow> (string \<times> string) list \<Rightarrow> string list res" where
  "select_candidates ctx txid [] = Inr []"
| "select_candidates ctx txid ((identifier, payload) # rest) =
     (if digest_bytes payload \<noteq> identifier then select_candidates ctx txid rest
      else andthen (candidate_projection ctx identifier payload) (\<lambda>found.
        case found of
          None \<Rightarrow> select_candidates ctx txid rest
        | Some (schema, owner) \<Rightarrow>
            andthen (ensure (hashable schema) (Exn TypeError ''unhashable type'' None)) (\<lambda>_.
            andthen (select_candidates ctx txid rest) (\<lambda>others.
              Inr (if str_in schema schemas \<and> owner = JStr txid then identifier # others else others)))))"

definition manifest_candidates :: "context_map option \<Rightarrow> string \<Rightarrow> os \<Rightarrow> string list res" where
  "manifest_candidates ctx txid s = select_candidates ctx txid (revision_files s)"

section \<open>The watermark\<close>

definition watermark_path :: string where
  "watermark_path = ''watermarks/CURRENT''"

definition epoch_of :: "json \<Rightarrow> json" where
  "epoch_of m =
     (let value = get ''epoch_id'' (get ''compaction_epoch'' m) in if is_str value then value else JNull)"

definition watermark_object :: "string \<Rightarrow> json \<Rightarrow> json" where
  "watermark_object revision m =
     mk_obj [(''schema'', JStr ''an-kla/watermark-v1''), (''revision'', JStr revision),
             (''parent'', get ''parent'' m), (''epoch_id'', epoch_of m)]"

definition write_watermark :: "string \<Rightarrow> json \<Rightarrow> unit io" where
  "write_watermark revision m =
     bind_io (lift (dump (watermark_object revision m)))
       (\<lambda>payload. bind_io (effect raw_os_error id) (\<lambda>_. atomic_write watermark_path payload))"

record watermark =
  mark_revision :: string
  mark_parent :: json
  mark_epoch :: json

definition digest_prefixed :: "json \<Rightarrow> bool" where
  "digest_prefixed v \<longleftrightarrow> (case v of JStr t \<Rightarrow> prefix ''sha256:'' t | _ \<Rightarrow> False)"

definition parse_watermark :: "json \<Rightarrow> watermark option" where
  "parse_watermark v =
     (let revision = get ''revision'' v; parent = get ''parent'' v; epoch = get ''epoch_id'' v in
      if is_obj v \<and> get ''schema'' v = JStr ''an-kla/watermark-v1'' \<and> digest_prefixed revision \<and>
         (parent = JNull \<or> digest_prefixed parent) \<and> (epoch = JNull \<or> is_str epoch)
      then Some \<lparr>mark_revision = str_of revision, mark_parent = parent, mark_epoch = epoch\<rparr>
      else None)"

definition usable_watermark :: "os \<Rightarrow> watermark option" where
  "usable_watermark s =
     (case bytes_at watermark_path s of
        None \<Rightarrow> None
      | Some raw \<Rightarrow> (case json_loads raw of Inl _ \<Rightarrow> None | Inr v \<Rightarrow> parse_watermark v))"

definition binding_matches :: "watermark option \<Rightarrow> string \<Rightarrow> json \<Rightarrow> bool" where
  "binding_matches stop child_id child =
     (case stop of
        None \<Rightarrow> False
      | Some w \<Rightarrow> child_id = mark_revision w \<and> get ''parent'' child = mark_parent w \<and>
                  epoch_of child = mark_epoch w)"

section \<open>What a walk returns\<close>

text \<open>Each revision names the next one as its parent, one number below; the last has no parent.\<close>

fun linked :: "(string \<times> json) list \<Rightarrow> bool" where
  "linked [] = False"
| "linked [(i, m)] = (get ''parent'' m = JNull)"
| "linked ((i, m) # (j, n) # rest) =
     (get ''parent'' m = JStr j \<and> int_of (get ''revision'' m) = int_of (get ''revision'' n) + 1 \<and>
      linked ((j, n) # rest))"

definition stored_revision :: "os \<Rightarrow> string \<times> json \<Rightarrow> bool" where
  "stored_revision s = (\<lambda>(i, m). read_json_object ''revisions'' i s = Inr m)"

definition revision_number :: "string \<times> json \<Rightarrow> int" where
  "revision_number node = int_of (get ''revision'' (snd node))"

lemma walk_spec:
  "walk s seen child cursor = Inr nodes \<Longrightarrow>
   linked nodes \<and> fst (hd nodes) = cursor \<and> list_all (stored_revision s) nodes \<and>
   distinct (map fst nodes) \<and> set (map fst nodes) \<inter> set seen = {} \<and>
   (child = None \<or> child = Some (revision_number (hd nodes) + 1)) \<and>
   int (length nodes) = revision_number (hd nodes) - revision_number (last nodes) + 1 \<and>
   revision_number (last nodes) \<ge> 0"
proof (induction s seen child cursor arbitrary: nodes rule: walk.induct)
  case (1 s seen child cursor)
  obtain m where n: "walk_node s seen child cursor = Inr m"
    using "1.prems" by (auto simp: walk.simps[of s seen child cursor] split: sum.splits)
  note node = walk_nodeD[OF n]
  show ?case
  proof (cases "get ''parent'' m = JNull")
    case True
    then have "nodes = [(cursor, m)]"
      using "1.prems" n by (simp add: walk.simps[of s seen child cursor])
    then show ?thesis using node True by (auto simp: stored_revision_def revision_number_def is_natural_def)
  next
    case False
    then obtain rest where r: "walk s (cursor # seen) (Some (int_of (get ''revision'' m)))
        (str_of (get ''parent'' m)) = Inr rest" and nodes: "nodes = (cursor, m) # rest"
      using "1.prems" n by (auto simp: walk.simps[of s seen child cursor])
    note ih = "1.IH"[OF n False r]
    then obtain j k rs where rest: "rest = (j, k) # rs" by (cases rest) auto
    have "get ''parent'' m = JStr j" using ih rest node False by (auto simp: is_str_iff)
    then show ?thesis using ih rest node nodes by (auto simp: stored_revision_def revision_number_def)
  qed
qed

text \<open>C14: The traversal always ends, and what it returns is the chain from the revision asked for to
  its root: stored manifests, each naming the next as its parent with the next lower revision
  number, no identifier twice, as many as the revision numbers from first to last.\<close>

theorem walk_revisions_chain:
  assumes "walk_revisions s current = Inr nodes"
  shows "linked nodes \<and> fst (hd nodes) = current \<and> list_all (stored_revision s) nodes \<and>
    distinct (map fst nodes) \<and>
    int (length nodes) = revision_number (hd nodes) - revision_number (last nodes) + 1 \<and>
    revision_number (last nodes) \<ge> 0"
  using walk_spec[OF assms[unfolded walk_revisions_def]] by blast

section \<open>The projections agree with the files\<close>

definition remembers :: "os \<Rightarrow> context_map \<Rightarrow> bool" where
  "remembers s ctx \<longleftrightarrow>
     (\<forall>i schema txid. map_of ctx i = Some (schema, txid) \<longrightarrow>
        (\<exists>m. read_json_object ''revisions'' i s = Inr m \<and> is_obj m \<and>
             get ''schema'' m = JStr schema \<and> get ''transaction_id'' m = JStr txid))"

lemma remembers_remember:
  "remembers s ctx \<Longrightarrow> read_json_object ''revisions'' i s = Inr m \<Longrightarrow> remembers s (remember i m ctx)"
  by (auto simp: remembers_def remember_def str_in_iff is_canonical_uuid_def split: json.splits if_splits)

lemma remembers_all:
  "remembers s ctx \<Longrightarrow> list_all (stored_revision s) nodes \<Longrightarrow> remembers s (remember_all nodes ctx)"
proof (induction nodes arbitrary: ctx)
  case (Cons node nodes)
  obtain i m where n: "node = (i, m)" by fastforce
  have "remembers s (remember i m ctx)"
    using Cons.prems n by (intro remembers_remember) (simp_all add: stored_revision_def)
  from Cons.IH[OF this] Cons.prems(2) show ?case by (simp add: remember_all_def n)
qed (simp add: remember_all_def)

definition clash :: "os \<Rightarrow> (string \<times> string) list \<Rightarrow> bool" where
  "clash s fs \<longleftrightarrow> (\<exists>(i, q)\<in>set fs. \<exists>p. bytes_under ''revisions'' ''.json'' i s = Some p \<and> collision p q)"

lemma projection_read:
  assumes "remembers s ctx" and "map_of ctx i = Some (schema, txid)" and "digest_bytes q = i"
  shows "read_projection q = Inr (Some (JStr schema, JStr txid)) \<or>
    (\<exists>p. bytes_under ''revisions'' ''.json'' i s = Some p \<and> collision p q)"
proof -
  obtain m where "read_json_object ''revisions'' i s = Inr m" and o: "is_obj m"
    and "get ''schema'' m = JStr schema" "get ''transaction_id'' m = JStr txid"
    using assms(1,2) unfolding remembers_def by blast
  then obtain p where p: "bytes_under ''revisions'' ''.json'' i s = Some p" "digest_bytes p = i"
      "json_loads p = Inr m" "dumpable m" "canonical_json m = p"
      "get ''schema'' m = JStr schema" "get ''transaction_id'' m = JStr txid"
    by (auto simp: read_json_object_held)
  then show ?thesis using assms(3) digest_bytes_eq[of p q] o by (auto simp: read_projection_def dump_def)
qed

lemma select_candidates_context:
  "remembers s ctx \<Longrightarrow> clash s fs \<or> select_candidates (Some ctx) txid fs = select_candidates None txid fs"
proof (induction fs)
  case (Cons f fs)
  obtain i q where f: "f = (i, q)" by fastforce
  have "clash s fs \<Longrightarrow> clash s (f # fs)" by (auto simp: clash_def)
  moreover have "clash s (f # fs) \<or>
      candidate_projection (Some ctx) i q = candidate_projection None i q" if d: "digest_bytes q = i"
  proof (cases "map_of ctx i")
    case None
    then show ?thesis by (simp add: candidate_projection_def projection_def)
  next
    case (Some st)
    obtain schema owner where st: "st = (schema, owner)" by fastforce
    from projection_read[OF Cons.prems Some[unfolded st] d] Some st f show ?thesis
      by (auto simp: candidate_projection_def projection_def clash_def)
  qed
  ultimately show ?case
    using Cons by (cases "digest_bytes q = i") (auto simp: f)
qed simp

text \<open>Looking candidates up with the projections remembered from a walk gives the same answer as
  reading every manifest again, also when other files were written in between; otherwise a file
  now there and a file read by the walk are an explicit SHA-256 collision.\<close>

theorem candidates_with_context:
  assumes "walk_revisions s current = Inr nodes"
  shows "clash s (revision_files t) \<or>
    manifest_candidates (Some (remember_all nodes [])) txid t = manifest_candidates None txid t"
  unfolding manifest_candidates_def
  using walk_spec[OF assms[unfolded walk_revisions_def]]
  by (intro select_candidates_context remembers_all) (simp_all add: remembers_def)

section \<open>Examples\<close>

text \<open>A store that holds one root revision.\<close>

definition root_store :: os where
  "root_store = store_file (''revisions/sha256/'' @ sha256_hex (canonical_json sample_root) @ ''.json'')
     (canonical_json sample_root) (blank True)"

lemma sample_root_storable: "storable sample_root"
  unfolding sample_root_def rev1_def by (intro storable_mk_obj) (auto simp: valid_utf8_ascii)

lemma root_store_reads: "read_json_object ''revisions'' (digest_json sample_root) root_store = Inr sample_root"
  by (rule storable_read_back[OF sample_root_storable])
    (simp add: digest_json_def bytes_under_digest(3) root_store_def)

lemma root_store_walk: "walk_revisions root_store (digest_json sample_root) = Inr [(digest_json sample_root, sample_root)]"
proof -
  have "walk_node root_store [] None (digest_json sample_root) = Inr sample_root"
    by (simp add: walk_node_def root_store_reads Let_def)
      (simp add: sample_root_def is_natural_def rev1_def schemas_def checks.simps(2))
  then show ?thesis
    by (simp add: walk_revisions_def walk.simps[of root_store]) (simp add: sample_root_def)
qed

lemma walk_revisions_chain_witness:
  "walk_revisions root_store (digest_json sample_root) = Inr [(digest_json sample_root, sample_root)] \<and>
   linked [(digest_json sample_root, sample_root)]"
  using walk_revisions_chain[OF root_store_walk] root_store_walk by blast

lemma candidates_with_context_witness:
  "walk_revisions root_store (digest_json sample_root) = Inr [(digest_json sample_root, sample_root)] \<and>
   (clash root_store (revision_files root_store) \<or>
    manifest_candidates (Some (remember_all [(digest_json sample_root, sample_root)] [])) some_uuid root_store =
    manifest_candidates None some_uuid root_store)"
  using candidates_with_context[OF root_store_walk] root_store_walk by blast

end
