(* ===== verification/CompactionContracts.thy ===== *)
theory CompactionContracts
  imports Attempts CheckpointPolicy
begin

text \<open>
  \<open>compaction_contracts.py\<close>: the closed contracts of governed compaction, and the breadth-first
  walk over the retained catalogs. The validators return copies of their argument; here they
  return whether they accept it.
\<close>

abbreviation compaction_error :: "string \<Rightarrow> exn" where
  "compaction_error code \<equiv> Exn CompactionError code None"

section \<open>Fields\<close>

definition compaction_digest :: "string \<Rightarrow> json \<Rightarrow> unit res" where
  "compaction_digest code value = ensure (is_digest value) (compaction_error code)"

definition compaction_uuid :: "string \<Rightarrow> json \<Rightarrow> unit res" where
  "compaction_uuid code value = ensure (is_canonical_uuid value) (compaction_error code)"

definition transaction_uuid :: "json \<Rightarrow> unit res" where
  "transaction_uuid value = andthen (canonical_uuid value) (\<lambda>_. Inr ())"

definition has_fields :: "json \<Rightarrow> string list \<Rightarrow> bool" where
  "has_fields value keys \<longleftrightarrow> is_obj value \<and> same_keys value keys"

definition compaction_policy :: json where
  "compaction_policy = mk_obj
     [(''schema'', JStr ''an-kla/compaction-policy-config-v1''), (''profile'', JStr ''compaction-policy/v1''),
      (''platform'', JStr ''posix''), (''export_profile'', JStr ''export/v1''),
      (''revision_schema'', JStr ''an-kla/revision-v3''),
      (''projection_precedence'', strs [''refuted'', ''superseded'', ''physical'']),
      (''segmenting'', JStr ''one-canonical-jsonl-per-nonempty-stream''),
      (''result_states'', strs [''not_committed'', ''committed_cleanup_incomplete'', ''committed'', ''outcome_unknown''])]"

definition compaction_policy_fingerprint :: string where
  "compaction_policy_fingerprint = digest_json compaction_policy"

text \<open>The historical policy holds strings only: Python's \<open>!=\<close> with it is inequality.\<close>

definition validate_policy_config :: "json \<Rightarrow> unit res" where
  "validate_policy_config value = ensure (value = compaction_policy) (compaction_error ''compaction_policy_invalid'')"

definition validate_compaction_proposal :: "json \<Rightarrow> unit res" where
  "validate_compaction_proposal value =
     (let code = ''compaction_proposal_invalid'' in
      checks
       [ensure (has_fields value [''schema'', ''base_revision'', ''epoch_id'', ''transaction_id'', ''export_manifest_sha256''])
          (compaction_error code),
        ensure (get ''schema'' value = JStr ''an-kla/compaction-proposal-v1'') (compaction_error code),
        compaction_digest code (get ''base_revision'' value),
        compaction_digest code (get ''export_manifest_sha256'' value),
        compaction_uuid code (get ''epoch_id'' value),
        transaction_uuid (get ''transaction_id'' value)])"

definition proof_digests :: "string list" where
  "proof_digests =
     [''manifest_sha256'', ''inventory_sha256'', ''current_revision'', ''project_identity_sha256'',
      ''store_identity_sha256'', ''transaction_outcomes_sha256'', ''restore_result_sha256'']"

definition validate_restore_proof :: "json \<Rightarrow> unit res" where
  "validate_restore_proof value =
     (let code = ''compaction_restore_proof_invalid'' in
      checks
       [ensure (has_fields value (''schema'' # proof_digests) \<and>
                get ''schema'' value = JStr ''an-kla/compaction-restore-proof-v1'') (compaction_error code),
        each (\<lambda>k. compaction_digest code (get k value)) proof_digests])"

definition epoch_digests :: "string list" where
  "epoch_digests =
     [''base_revision'', ''proposal_sha256'', ''export_manifest_sha256'', ''restore_proof'',
      ''tombstone_catalog'', ''delete_set_sha256'', ''compaction_policy'']"

definition validate_epoch_manifest :: "json \<Rightarrow> unit res" where
  "validate_epoch_manifest value =
     (let code = ''compaction_epoch_invalid'' in
      checks
       [ensure (has_fields value (''schema'' # ''epoch_id'' # ''transaction_id'' # epoch_digests) \<and>
                get ''schema'' value = JStr ''an-kla/compaction-epoch-v1'') (compaction_error code),
        compaction_uuid code (get ''epoch_id'' value),
        transaction_uuid (get ''transaction_id'' value),
        each (\<lambda>k. compaction_digest code (get k value)) epoch_digests])"

section \<open>Tombstone catalogs\<close>

definition catalog_bad :: exn where
  "catalog_bad = compaction_error ''compaction_catalog_invalid''"

text \<open>The four lists of a catalog are strictly increasing in the key of their entries.\<close>

fun check_archived :: "string \<Rightarrow> json list \<Rightarrow> unit res" where
  "check_archived prior [] = Inr ()"
| "check_archived prior (item # rest) =
     andthen (checks
       [ensure (has_fields item [''revision'', ''epoch_id'', ''export_manifest_sha256'']) catalog_bad,
        compaction_digest ''compaction_catalog_invalid'' (get ''revision'' item),
        compaction_uuid ''compaction_catalog_invalid'' (get ''epoch_id'' item),
        compaction_digest ''compaction_catalog_invalid'' (get ''export_manifest_sha256'' item),
        ensure (prior < str_of (get ''revision'' item)) catalog_bad])
     (\<lambda>_. check_archived (str_of (get ''revision'' item)) rest)"

definition stream_index :: "string \<Rightarrow> nat" where
  "stream_index stream = length (takeWhile (\<lambda>x. x \<noteq> stream) STREAMS)"

definition record_key :: "json \<Rightarrow> nat \<times> string" where
  "record_key item = (stream_index (str_of (get ''stream'' item)), str_of (get ''record_sha256'' item))"

definition key_less :: "nat \<times> string \<Rightarrow> nat \<times> string \<Rightarrow> bool" where
  "key_less a b \<longleftrightarrow> fst a < fst b \<or> fst a = fst b \<and> snd a < snd b"

fun check_record_tombstones :: "(nat \<times> string) option \<Rightarrow> json list \<Rightarrow> unit res" where
  "check_record_tombstones prior [] = Inr ()"
| "check_record_tombstones prior (item # rest) =
     andthen (checks
       [ensure (has_fields item [''stream'', ''record_sha256'', ''state'']) catalog_bad,
        ensure (str_in (get ''stream'' item) STREAMS) catalog_bad,
        ensure_in (get ''state'' item) [''superseded'', ''refuted'', ''inactive''] catalog_bad,
        compaction_digest ''compaction_catalog_invalid'' (get ''record_sha256'' item),
        ensure (case prior of None \<Rightarrow> True | Some k \<Rightarrow> key_less k (record_key item)) catalog_bad])
     (\<lambda>_. check_record_tombstones (Some (record_key item)) rest)"

definition object_kinds :: "string list" where
  "object_kinds =
     [''revision'', ''checkpoint'', ''segment'', ''ref-log'', ''transaction'', ''stage'', ''receipt'',
      ''refutation'', ''authority-claim'', ''authority-attestation'', ''index'']"

fun check_object_tombstones :: "string \<Rightarrow> json list \<Rightarrow> unit res" where
  "check_object_tombstones prior [] = Inr ()"
| "check_object_tombstones prior (item # rest) =
     andthen (checks
       [ensure (has_fields item [''path'', ''content_sha256'', ''kind'']) catalog_bad,
        ensure (nonempty_str (get ''path'' item) \<and> prior < str_of (get ''path'' item)) catalog_bad,
        ensure_in (get ''kind'' item) object_kinds catalog_bad,
        compaction_digest ''compaction_catalog_invalid'' (get ''content_sha256'' item)])
     (\<lambda>_. check_object_tombstones (str_of (get ''path'' item)) rest)"

fun check_previous :: "string \<Rightarrow> json list \<Rightarrow> unit res" where
  "check_previous prior [] = Inr ()"
| "check_previous prior (item # rest) =
     andthen (checks
       [ensure (has_fields item [''epoch_id'', ''catalog_sha256'', ''export_manifest_sha256'']) catalog_bad,
        compaction_uuid ''compaction_catalog_invalid'' (get ''epoch_id'' item),
        compaction_digest ''compaction_catalog_invalid'' (get ''catalog_sha256'' item),
        compaction_digest ''compaction_catalog_invalid'' (get ''export_manifest_sha256'' item),
        ensure (prior < str_of (get ''epoch_id'' item)) catalog_bad])
     (\<lambda>_. check_previous (str_of (get ''epoch_id'' item)) rest)"

definition validate_catalog :: "json \<Rightarrow> unit res" where
  "validate_catalog value =
     checks
       [ensure (has_fields value [''schema'', ''epoch_id'', ''source_revision'', ''export_manifest_sha256'',
                  ''delete_set_sha256'', ''archived_revisions'', ''record_tombstones'', ''object_tombstones'',
                  ''previous_catalogs''] \<and>
                get ''schema'' value = JStr ''an-kla/compaction-tombstone-catalog-v1'') catalog_bad,
        compaction_uuid ''compaction_catalog_invalid'' (get ''epoch_id'' value),
        each (\<lambda>k. compaction_digest ''compaction_catalog_invalid'' (get k value))
          [''source_revision'', ''export_manifest_sha256'', ''delete_set_sha256''],
        ensure (is_arr (get ''archived_revisions'' value)) catalog_bad,
        check_archived [] (list_items (get ''archived_revisions'' value)),
        ensure (is_arr (get ''record_tombstones'' value)) catalog_bad,
        check_record_tombstones None (list_items (get ''record_tombstones'' value)),
        ensure (is_arr (get ''object_tombstones'' value)) catalog_bad,
        check_object_tombstones [] (list_items (get ''object_tombstones'' value)),
        ensure (is_arr (get ''previous_catalogs'' value)) catalog_bad,
        check_previous [] (list_items (get ''previous_catalogs'' value)),
        ensure (JStr (digest_json (get ''object_tombstones'' value)) = get ''delete_set_sha256'' value) catalog_bad]"

section \<open>The chain of catalogs\<close>

text \<open>
  A queue entry: the identifier, the epoch and the export its parent expects, the identifiers on
  the path to it. \<open>by_id\<close> holds the catalogs visited; at most 1024 are visited.
\<close>

type_synonym catalog_task = "string \<times> string option \<times> string option \<times> string list"

definition catalog_fits :: "string option \<Rightarrow> string option \<Rightarrow> json \<Rightarrow> bool" where
  "catalog_fits epoch export catalog \<longleftrightarrow>
     (case epoch of None \<Rightarrow> True | Some e \<Rightarrow> get ''epoch_id'' catalog = JStr e) \<and>
     (case export of None \<Rightarrow> True | Some e \<Rightarrow> get ''export_manifest_sha256'' catalog = JStr e)"

definition chain_bad :: exn where
  "chain_bad = compaction_error ''compaction_catalog_chain_invalid''"

definition read_catalog :: "os \<Rightarrow> string \<Rightarrow> json res" where
  "read_catalog s identifier =
     except_as (\<lambda>_. True) chain_bad
       (andthen (read_json_object ''compaction/catalogs'' identifier s) (\<lambda>catalog.
        andthen (validate_catalog catalog) (\<lambda>_. Inr catalog)))"

definition previous_tasks :: "string list \<Rightarrow> json \<Rightarrow> catalog_task list" where
  "previous_tasks ancestors catalog =
     map (\<lambda>item. (str_of (get ''catalog_sha256'' item), Some (str_of (get ''epoch_id'' item)),
                  Some (str_of (get ''export_manifest_sha256'' item)), ancestors))
       (list_items (get ''previous_catalogs'' catalog))"

function catalog_loop :: "os \<Rightarrow> (string \<times> string \<times> json) list \<Rightarrow> (string \<times> json) list \<Rightarrow>
    catalog_task list \<Rightarrow> (string \<times> string \<times> json) list res" where
  "catalog_loop s by_epoch by_id [] = Inr by_epoch"
| "catalog_loop s by_epoch by_id ((identifier, epoch, export, ancestors) # queue) =
     (if length by_id \<ge> 1024 \<or> identifier \<in> set ancestors then Inl chain_bad
      else case map_of by_id identifier of
        Some existing \<Rightarrow>
          if catalog_fits epoch export existing then catalog_loop s by_epoch by_id queue else Inl chain_bad
      | None \<Rightarrow>
          (case read_catalog s identifier of
             Inl e \<Rightarrow> Inl e
           | Inr catalog \<Rightarrow>
               let key = str_of (get ''epoch_id'' catalog) in
               if \<not> catalog_fits epoch export catalog \<or>
                  (case map_of by_epoch key of None \<Rightarrow> False | Some (i, _) \<Rightarrow> i \<noteq> identifier)
               then Inl chain_bad
               else catalog_loop s (put key (identifier, catalog) by_epoch) ((identifier, catalog) # by_id)
                      (queue @ previous_tasks (identifier # ancestors) catalog)))"
  by pat_completeness auto
termination
  by (relation "measures [\<lambda>(s, e, i, q). 1024 - length i, \<lambda>(s, e, i, q). length q]") auto

definition validate_catalog_chain :: "os \<Rightarrow> string \<Rightarrow> (string \<times> string \<times> json) list res" where
  "validate_catalog_chain s catalog_id =
     andthen (compaction_digest ''compaction_catalog_invalid'' (JStr catalog_id))
       (\<lambda>_. catalog_loop s [] [] [(catalog_id, None, None, [])])"

section \<open>What the walk guarantees\<close>

definition retained :: "os \<Rightarrow> string \<times> string \<times> json \<Rightarrow> bool" where
  "retained s = (\<lambda>(epoch, identifier, catalog).
     read_json_object ''compaction/catalogs'' identifier s = Inr catalog \<and>
     validate_catalog catalog = Inr () \<and> get ''epoch_id'' catalog = JStr epoch)"

lemma read_catalogD:
  "read_catalog s i = Inr c \<Longrightarrow> read_json_object ''compaction/catalogs'' i s = Inr c \<and> validate_catalog c = Inr ()"
  by (auto simp: read_catalog_def)

lemma validate_catalog_epoch: "validate_catalog c = Inr () \<Longrightarrow> \<exists>e. get ''epoch_id'' c = JStr e"
  by (auto simp: validate_catalog_def compaction_uuid_def is_canonical_uuid_def split: json.splits)

lemma length_put_le: "length (put k v m) \<le> Suc (length m)"
  by (induction k v m rule: put.induct) auto

lemma put_keeps_image:
  "(case map_of m k of None \<Rightarrow> True | Some w \<Rightarrow> f w = f v) \<Longrightarrow>
   f ` snd ` set m \<subseteq> f ` snd ` set (put k v m)"
  by (induction k v m rule: put.induct) (auto split: if_splits)

lemma catalog_loop_spec:
  "catalog_loop s by_epoch by_id queue = Inr result \<Longrightarrow>
   list_all (retained s) by_epoch \<Longrightarrow> length by_epoch \<le> length by_id \<Longrightarrow> length by_id \<le> 1024 \<Longrightarrow>
   sorted_keys by_epoch \<Longrightarrow>
   list_all (retained s) result \<and> length result \<le> 1024 \<and> sorted_keys result \<and>
   set (map (fst \<circ> snd) by_epoch) \<subseteq> set (map (fst \<circ> snd) result)"
proof (induction s by_epoch by_id queue rule: catalog_loop.induct)
  case (2 s by_epoch by_id ident epoch export ancestors queue)
  have small: "\<not> (length by_id \<ge> 1024 \<or> ident \<in> set ancestors)"
    using "2.prems"(1) by (auto split: if_splits)
  show ?case
  proof (cases "map_of by_id ident")
    case (Some existing)
    then show ?thesis using "2.prems" "2.IH"(2)[OF small Some] small by (auto split: if_splits)
  next
    case None
    then obtain catalog where r: "read_catalog s ident = Inr catalog"
      using "2.prems"(1) small by (auto split: sum.splits)
    let ?key = "str_of (get ''epoch_id'' catalog)"
    have fits: "\<not> (\<not> catalog_fits epoch export catalog \<or>
        (case map_of by_epoch ?key of None \<Rightarrow> False | Some (i, _) \<Rightarrow> i \<noteq> ident))"
      and run: "catalog_loop s (put ?key (ident, catalog) by_epoch) ((ident, catalog) # by_id)
        (queue @ previous_tasks (ident # ancestors) catalog) = Inr result"
      using "2.prems"(1) small None r by (auto simp: Let_def split: if_split_asm)
    have kept: "list_all (retained s) (put ?key (ident, catalog) by_epoch)"
      using "2.prems"(2) read_catalogD[OF r] validate_catalog_epoch[of catalog]
        set_put_subset[of ?key "(ident, catalog)" by_epoch]
      by (auto simp: list_all_iff retained_def)
    have "fst ` snd ` set by_epoch \<subseteq> fst ` snd ` set (put ?key (ident, catalog) by_epoch)"
      using fits by (intro put_keeps_image) (auto split: option.splits)
    moreover have "length (put ?key (ident, catalog) by_epoch) \<le> length ((ident, catalog) # by_id)"
      using length_put_le[of ?key "(ident, catalog)" by_epoch] "2.prems"(3) by simp
    moreover have "length ((ident, catalog) # by_id) \<le> 1024" using small by simp
    moreover have "sorted_keys (put ?key (ident, catalog) by_epoch)"
      using "2.prems"(5) by (rule sorted_keys_put)
    ultimately show ?thesis
      using "2.IH"(1)[OF small None r refl fits run kept] by (simp add: image_comp) blast
  qed
qed auto

text \<open>The walk over the retained catalogs ends and visits at most 1024 of them: what it returns
  are stored and valid catalogs, each under its own epoch, one per epoch, the one asked for among
  them.\<close>

theorem catalog_chain_bounded:
  assumes "validate_catalog_chain s catalog_id = Inr result"
  shows "list_all (retained s) result \<and> length result \<le> 1024 \<and> distinct (map fst result) \<and>
    catalog_id \<in> set (map (fst \<circ> snd) result)"
proof -
  have run: "catalog_loop s [] [] [(catalog_id, None, None, [])] = Inr result"
    using assms by (auto simp: validate_catalog_chain_def)
  then obtain catalog where r: "read_catalog s catalog_id = Inr catalog"
    and rest: "catalog_loop s [(str_of (get ''epoch_id'' catalog), catalog_id, catalog)] [(catalog_id, catalog)]
      (previous_tasks [catalog_id] catalog) = Inr result"
    by (auto simp: catalog_fits_def Let_def split: sum.splits)
  have "list_all (retained s) [(str_of (get ''epoch_id'' catalog), catalog_id, catalog)]"
    using read_catalogD[OF r] validate_catalog_epoch[of catalog] by (auto simp: retained_def)
  from catalog_loop_spec[OF rest this] show ?thesis
    by (auto simp: sorted_keys_def strict_sorted_iff)
qed

section \<open>Examples\<close>

definition sample_catalog :: json where
  "sample_catalog = mk_obj
     [(''schema'', JStr ''an-kla/compaction-tombstone-catalog-v1''), (''epoch_id'', JStr some_uuid),
      (''source_revision'', JStr (digest_bytes ''revision'')),
      (''export_manifest_sha256'', JStr (digest_bytes ''export'')),
      (''delete_set_sha256'', JStr (digest_json (JArr []))), (''archived_revisions'', JArr []),
      (''record_tombstones'', JArr []), (''object_tombstones'', JArr []), (''previous_catalogs'', JArr [])]"

definition catalog_store :: os where
  "catalog_store = store_file (''compaction/catalogs/sha256/'' @ sha256_hex (canonical_json sample_catalog) @ ''.json'')
     (canonical_json sample_catalog) (blank True)"

lemma sample_catalog_storable: "storable sample_catalog"
  unfolding sample_catalog_def
  by (intro storable_mk_obj) (auto simp: valid_utf8_ascii valid_utf8_uuid)

lemma sample_catalog_valid: "validate_catalog sample_catalog = Inr ()"
  by (simp add: validate_catalog_def sample_catalog_def has_fields_def same_keys_iff compaction_uuid_def
      compaction_digest_def is_canonical_uuid_def is_digest_def)

lemma catalog_chain_bounded_witness:
  "validate_catalog_chain catalog_store (digest_json sample_catalog) =
     Inr [(some_uuid, digest_json sample_catalog, sample_catalog)] \<and>
   retained catalog_store (some_uuid, digest_json sample_catalog, sample_catalog)"
proof -
  have "read_json_object ''compaction/catalogs'' (digest_json sample_catalog) catalog_store = Inr sample_catalog"
    by (rule storable_read_back[OF sample_catalog_storable])
      (simp add: digest_json_def bytes_under_digest(3) catalog_store_def)
  then have "read_catalog catalog_store (digest_json sample_catalog) = Inr sample_catalog"
    by (simp add: read_catalog_def sample_catalog_valid)
  moreover have "get ''epoch_id'' sample_catalog = JStr some_uuid" "get ''previous_catalogs'' sample_catalog = JArr []"
    by (simp_all add: sample_catalog_def)
  ultimately have run: "validate_catalog_chain catalog_store (digest_json sample_catalog) =
      Inr [(some_uuid, digest_json sample_catalog, sample_catalog)]"
    by (simp add: validate_catalog_chain_def compaction_digest_def is_digest_def catalog_fits_def
        previous_tasks_def Let_def)
  from catalog_chain_bounded[OF run] run show ?thesis by simp
qed

end
