(* ===== verification/Evidence.thy ===== *)
theory Evidence
  imports RevisionWalk CompactionContracts
begin

text \<open>
  The evidence a transaction leaves behind and how it is checked: the journal and the immutable
  stages of \<open>transactions.py\<close>, the durability receipts of \<open>receipt_validation.py\<close> and
  \<open>write_receipt\<close>, and the audit log of \<open>audit_validation.py\<close>. All checks are reads. The files are
  regular files, not links; a directory is there when a file is below it.
\<close>

section \<open>Reading fields\<close>

text \<open>\<open>v.get(k)\<close> where \<open>v\<close> need not be a dict, and iterating \<open>v.get(k, [])\<close>; a string or a dict,
  over which Python would iterate too, is refused here. Identifiers that the code collects in sets are
  strings in every manifest the validator accepts; a list among them, on which \<open>set\<close> raises, is
  compared like any other value.\<close>

definition get_of :: "string \<Rightarrow> json \<Rightarrow> json res" where
  "get_of k v = (if is_obj v then Inr (get k v) else raise AttributeError ''get'')"

definition items_of :: "string \<Rightarrow> json \<Rightarrow> json list res" where
  "items_of k v =
     (if \<not> is_obj v then raise AttributeError ''get'' else if \<not> has_key k v then Inr [] else
      case get k v of JArr xs \<Rightarrow> Inr xs | _ \<Rightarrow> raise TypeError ''iteration'')"

definition bare_text :: "string \<Rightarrow> string" where
  "bare_text identifier = (if prefix ''sha256:'' identifier then drop 7 identifier else identifier)"

definition object_path :: "string \<Rightarrow> string \<Rightarrow> string \<Rightarrow> string" where
  "object_path kind ext identifier = kind @ ''/sha256/'' @ bare_text identifier @ ext"

section \<open>Journal and stages\<close>

definition corrupt_journal :: json where
  "corrupt_journal = mk_obj [(''corrupt'', JBool True)]"

definition journal :: "string \<Rightarrow> os \<Rightarrow> json option res" where
  "journal txid s =
     andthen (canonical_uuid (JStr txid)) (\<lambda>_.
       case bytes_at (journal_path txid) s of
         None \<Rightarrow> Inr None
       | Some raw \<Rightarrow> Inr (Some (case json_loads raw of
             Inl _ \<Rightarrow> corrupt_journal | Inr v \<Rightarrow> if is_obj v then v else corrupt_journal)))"

definition is_corrupt :: "json \<Rightarrow> bool" where
  "is_corrupt j \<longleftrightarrow> truthy (get ''corrupt'' j)"

definition stages_kind :: "string \<Rightarrow> string" where
  "stages_kind txid = ''transactions/'' @ txid @ ''/stages''"

definition receipts_kind :: "string \<Rightarrow> string" where
  "receipts_kind txid = ''transactions/'' @ txid @ ''/receipts''"

definition identifiers :: "string \<Rightarrow> os \<Rightarrow> string list" where
  "identifiers kind s = map (\<lambda>stem. ''sha256:'' @ stem) (json_stems (kind @ ''/sha256'') s)"

definition receipt_ids :: "string \<Rightarrow> os \<Rightarrow> string list" where
  "receipt_ids txid s = identifiers (receipts_kind txid) s"

text \<open>The stages of a transaction that describe a candidate; a stage that cannot be read or whose
  attempt is not valid is passed over.\<close>

definition stage_of :: "string \<Rightarrow> string \<Rightarrow> os \<Rightarrow> string \<Rightarrow> json option" where
  "stage_of txid candidate s identifier =
     (case read_json_object (stages_kind txid) identifier s of
        Inl _ \<Rightarrow> None
      | Inr value \<Rightarrow>
          if is_obj value \<and> get ''schema'' value = JStr ''an-kla/transaction-stage-v1'' \<and>
             get ''candidate'' value = JStr candidate
          then (case validate_attempt (get ''attempt'' value) of
              Inl _ \<Rightarrow> None
            | Inr attempt \<Rightarrow> if get ''transaction_id'' attempt = JStr txid then Some value else None)
          else None)"

definition stage_evidence :: "string \<Rightarrow> string \<Rightarrow> os \<Rightarrow> json option" where
  "stage_evidence txid candidate s =
     (case List.map_filter (stage_of txid candidate s) (identifiers (stages_kind txid) s) of
        [value] \<Rightarrow> Some value | _ \<Rightarrow> None)"

definition evidence_invalid :: exn where
  "evidence_invalid = Exn TransactionError ''transaction_evidence_missing_or_invalid'' None"

definition is_transaction_error :: "exn \<Rightarrow> bool" where
  "is_transaction_error e \<longleftrightarrow> exn_class e = TransactionError"

definition stage_attempt :: "string \<Rightarrow> os \<Rightarrow> string \<Rightarrow> json res" where
  "stage_attempt txid s identifier =
     except_as (\<lambda>e. \<not> is_transaction_error e) evidence_invalid
       (andthen (read_json_object (stages_kind txid) identifier s) (\<lambda>value.
        andthen (get_of ''attempt'' value) (\<lambda>raw.
        andthen (validate_attempt raw) (\<lambda>attempt.
          if get ''transaction_id'' attempt \<noteq> JStr txid
          then raise TransactionError ''transaction_binding_conflict'' else Inr attempt))))"

definition stage_attempts :: "string \<Rightarrow> os \<Rightarrow> json list res" where
  "stage_attempts txid s = traverse (stage_attempt txid s) (identifiers (stages_kind txid) s)"

section \<open>The files a candidate needs\<close>

definition stage_matches :: "string \<Rightarrow> json \<Rightarrow> json \<Rightarrow> bool" where
  "stage_matches candidate attempt value \<longleftrightarrow>
     get ''schema'' value = JStr ''an-kla/transaction-stage-v1'' \<and>
     get ''stage'' value = JStr ''candidate_prepared'' \<and>
     get ''candidate'' value = JStr candidate \<and> get ''attempt'' value = attempt"

text \<open>The identifiers whose objects satisfy a test; an object that cannot be read is passed over, one
  that is no dict raises.\<close>

fun matching :: "string \<Rightarrow> os \<Rightarrow> (json \<Rightarrow> bool) \<Rightarrow> string list \<Rightarrow> string list res" where
  "matching kind s p [] = Inr []"
| "matching kind s p (identifier # rest) =
     (case read_json_object kind identifier s of
        Inl _ \<Rightarrow> matching kind s p rest
      | Inr value \<Rightarrow>
          andthen (ensure (is_obj value) (Exn AttributeError ''get'' None)) (\<lambda>_.
          andthen (matching kind s p rest) (\<lambda>others.
            Inr (if p value then identifier # others else others))))"

definition only_match :: "string \<Rightarrow> string list \<Rightarrow> string res" where
  "only_match code matches = (case matches of [m] \<Rightarrow> Inr m | _ \<Rightarrow> raise ValueError code)"

definition journal_stage :: "string \<Rightarrow> os \<Rightarrow> string option" where
  "journal_stage txid s =
     (case bytes_at (journal_path txid) s of
        None \<Rightarrow> None
      | Some raw \<Rightarrow>
          (case json_loads raw of
             Inl _ \<Rightarrow> None
           | Inr v \<Rightarrow> (case get ''stage_object'' v of JStr t \<Rightarrow> Some t | _ \<Rightarrow> None)))"

definition exact_stage :: "string \<Rightarrow> string \<Rightarrow> json \<Rightarrow> os \<Rightarrow> string res" where
  "exact_stage txid candidate attempt s =
     andthen (matching (stages_kind txid) s (stage_matches candidate attempt)
                (case journal_stage txid s of Some i \<Rightarrow> [i] | None \<Rightarrow> identifiers (stages_kind txid) s))
       (only_match ''candidate_stage_missing_or_ambiguous'')"

definition is_intent :: "string \<Rightarrow> string \<Rightarrow> json \<Rightarrow> json \<Rightarrow> bool" where
  "is_intent txid candidate parent value \<longleftrightarrow>
     get ''schema'' value = JStr ''an-kla/ref-log-v1'' \<and> get ''kind'' value = JStr ''intent'' \<and>
     get ''transaction_id'' value = JStr txid \<and> get ''candidate'' value = JStr candidate \<and>
     get ''parent'' value = parent"

definition exact_intent_path :: "string \<Rightarrow> string \<Rightarrow> json \<Rightarrow> os \<Rightarrow> string res" where
  "exact_intent_path txid candidate parent s =
     andthen (matching ''refs/ref-log'' s (is_intent txid candidate parent) (identifiers ''refs/ref-log'' s))
       (\<lambda>found. andthen (only_match ''transaction_intent_missing_or_ambiguous'' found)
         (\<lambda>i. Inr (object_path ''refs/ref-log'' ''.json'' i)))"

definition new_segment_paths :: "json \<Rightarrow> json \<Rightarrow> string \<Rightarrow> string list res" where
  "new_segment_paths m parent_manifest stream =
     andthen (items_of (segments_key stream) parent_manifest) (\<lambda>inherited.
     andthen (items_of (segments_key stream) m) (\<lambda>own.
       Inr (map (\<lambda>i. object_path (segment_kind stream) ''.jsonl'' (py_str i))
             (filter (\<lambda>i. i \<notin> set inherited) own))))"

text \<open>The refutations this revision adds, and the three objects of each.\<close>

definition new_refutation_entries :: "json \<Rightarrow> json \<Rightarrow> json list res" where
  "new_refutation_entries m parent_manifest =
     andthen (items_of ''refutations_map'' parent_manifest) (\<lambda>inherited.
     andthen (items_of ''refutations_map'' m) (\<lambda>own.
       Inr (filter (\<lambda>entry. is_obj entry \<and>
              get ''refutation_id'' entry \<notin> set (map (get ''refutation_id'') (filter is_obj inherited))) own)))"

definition refutation_paths :: "os \<Rightarrow> json \<Rightarrow> string list res" where
  "refutation_paths s entry =
     andthen (subscript ''refutation_id'' entry) (\<lambda>identifier.
     andthen (read_json_object ''refutations'' (py_str identifier) s) (\<lambda>refutation.
     andthen (subscript ''authority_claim_sha256'' refutation) (\<lambda>claim.
     andthen (subscript ''authority_attestation_id'' refutation) (\<lambda>attestation.
       Inr [object_path ''refutations'' ''.json'' (py_str identifier),
            object_path ''authority-claims'' ''.json'' (py_str claim),
            object_path ''authority-attestations'' ''.json'' (py_str attestation)]))))"

definition binding_invalid :: "string \<Rightarrow> exn" where
  "binding_invalid operation = Exn ValueError (operation @ ''_transaction_binding_invalid'') None"

definition compact_files :: "json \<Rightarrow> json \<Rightarrow> json \<Rightarrow> string \<Rightarrow> os \<Rightarrow> string list res" where
  "compact_files m stage attempt txid s =
     andthen (ensure (get ''schema'' m = rev3 \<and> get ''parent'' m = JNull) (binding_invalid ''compaction'')) (\<lambda>_.
     andthen (subscript ''compaction_epoch'' m) (\<lambda>link.
     andthen (subscript ''epoch_manifest'' link) (\<lambda>epoch_id.
     andthen (read_json_object ''compaction/epochs'' (py_str epoch_id) s) (\<lambda>epoch.
     andthen (validate_epoch_manifest epoch) (\<lambda>_.
     andthen (except_as (\<lambda>_. True) (binding_invalid ''compaction'')
                (validate_policy_config (get ''compaction_policy'' stage))) (\<lambda>_.
     andthen (ensure (get ''compaction_policy'' epoch = JStr (digest_json (get ''compaction_policy'' stage)) \<and>
                      get ''transaction_id'' epoch = JStr txid \<and>
                      get ''base_revision'' epoch = get ''base_revision'' attempt) (binding_invalid ''compaction''))
       (\<lambda>_. Inr [object_path ''compaction/restore-proofs'' ''.json'' (py_str (get ''restore_proof'' epoch)),
                  object_path ''compaction/catalogs'' ''.json'' (py_str (get ''tombstone_catalog'' epoch)),
                  object_path ''compaction/epochs'' ''.json'' (py_str epoch_id)])))))))"

text \<open>The metadata a refutation stage must carry; the refutation object is subscripted field by field.\<close>

definition refutation_fields :: "string list" where
  "refutation_fields =
     [''proposal_sha256'', ''authority_claim_sha256'', ''authority_attestation_id'', ''policy_fingerprint'',
      ''decision_sha256'', ''evidence_sha256'', ''plan_fingerprint'']"

definition refute_metadata :: "json \<Rightarrow> json \<Rightarrow> json" where
  "refute_metadata refutation refutation_id = mk_obj
     ([(''schema'', JStr ''an-kla/refute-policy-transaction-v1'')] @
      map (\<lambda>k. (k, get k refutation)) refutation_fields @
      [(''decision'', JStr ''refute''), (''reason'', get ''reason'' refutation),
       (''target'', mk_obj [(''stream'', get ''stream'' refutation),
                            (''record_sha256'', get ''target_record_sha256'' refutation)]),
       (''refutation_id'', refutation_id)])"

definition check_refute_stage :: "json \<Rightarrow> json \<Rightarrow> json list \<Rightarrow> json \<Rightarrow> os \<Rightarrow> unit res" where
  "check_refute_stage stage attempt entries parent s =
     (case entries of
        [entry] \<Rightarrow>
          andthen (subscript ''refutation_id'' entry) (\<lambda>identifier.
          andthen (read_json_object ''refutations'' (py_str identifier) s) (\<lambda>refutation.
          andthen (each (\<lambda>k. andthen (subscript k refutation) (\<lambda>_. Inr ()))
                     (refutation_fields @ [''reason'', ''stream'', ''target_record_sha256''])) (\<lambda>_.
            ensure (py_eq (get ''refute_policy'' stage) (refute_metadata refutation identifier) \<and>
                    get ''plan_fingerprint'' attempt = get ''plan_fingerprint'' refutation \<and>
                    get ''target_revision'' refutation = parent) (binding_invalid ''refute''))))
      | _ \<Rightarrow> raise ValueError ''refute_manifest_delta_invalid'')"

definition operation_files :: "json \<Rightarrow> json \<Rightarrow> json \<Rightarrow> json list \<Rightarrow> string \<Rightarrow> os \<Rightarrow> string list res" where
  "operation_files m stage attempt entries txid s =
     (let operation = get ''operation'' attempt in
      if operation = JStr ''compact'' then compact_files m stage attempt txid s
      else if operation = JStr ''refute'' then
        andthen (check_refute_stage stage attempt entries (get ''parent'' m) s) (\<lambda>_. Inr [])
      else andthen (ensure (entries = [] \<and> \<not> has_key ''refute_policy'' stage \<and>
                            \<not> has_key ''compaction_policy'' stage) (binding_invalid ''refute''))
             (\<lambda>_. Inr []))"

definition intent_files :: "json \<Rightarrow> json \<Rightarrow> string \<Rightarrow> string \<Rightarrow> os \<Rightarrow> string list res" where
  "intent_files m attempt txid candidate s =
     (if get ''operation'' attempt = JStr ''initialize'' then Inr []
      else andthen (exact_intent_path txid candidate
               (if get ''operation'' attempt = JStr ''compact'' then get ''base_revision'' attempt
                else get ''parent'' m) s) (\<lambda>path. Inr [path]))"

definition parent_manifest :: "json \<Rightarrow> os \<Rightarrow> json res" where
  "parent_manifest m s =
     (case get ''parent'' m of JStr p \<Rightarrow> read_json_object ''revisions'' p s | _ \<Rightarrow> Inr (JObj []))"

definition required_candidate_files :: "string \<Rightarrow> string \<Rightarrow> json \<Rightarrow> os \<Rightarrow> string list res" where
  "required_candidate_files txid candidate attempt s =
     andthen (read_json_object ''revisions'' candidate s) (\<lambda>m.
     andthen (subscript ''checkpoint'' m) (\<lambda>checkpoint.
     andthen (parent_manifest m s) (\<lambda>parent.
     andthen (traverse (new_segment_paths m parent) STREAMS) (\<lambda>segment_paths.
     andthen (new_refutation_entries m parent) (\<lambda>entries.
     andthen (traverse (refutation_paths s) entries) (\<lambda>refuted.
     andthen (exact_stage txid candidate attempt s) (\<lambda>stage_id.
     andthen (read_json_object (stages_kind txid) stage_id s) (\<lambda>stage.
     andthen (operation_files m stage attempt entries txid s) (\<lambda>extra.
     andthen (intent_files m attempt txid candidate s) (\<lambda>intent.
       Inr ([object_path ''revisions'' ''.json'' candidate,
             object_path ''checkpoints'' ''.json'' (py_str checkpoint)] @
            concat segment_paths @ concat refuted @
            [object_path (stages_kind txid) ''.json'' stage_id] @ extra @ intent)))))))))))"

end
