(* ===== verification/Chain.thy ===== *)
theory Chain
  imports Evidence
begin

text \<open>
  The audit of the ancestry of a revision: \<open>validate_revision_chain\<close> and
  \<open>_validate_compaction_root\<close> of \<open>revision_validation.py\<close>, and \<open>verify_manifest_link\<close> of
  \<open>identity.py\<close>. The audit of a chain is related to the plain walk of RevisionWalk, and a watermark
  to the full audit it replaces.
\<close>

section \<open>The identity link\<close>

definition identity_error :: "string \<Rightarrow> exn" where
  "identity_error code = Exn IdentityError code None"

text \<open>\<open>uuid.UUID(None)\<close> raises \<open>TypeError\<close>, which the function does not catch.\<close>

definition identity_uuid :: "json \<Rightarrow> unit res" where
  "identity_uuid value =
     (if value = JNull then raise TypeError ''uuid''
      else ensure (is_canonical_uuid value) (identity_error ''identity_uuid_invalid''))"

definition validate_store_identity :: "json \<Rightarrow> unit res" where
  "validate_store_identity value =
     checks
       [ensure (is_obj value) (Exn TypeError ''set'' None),
        ensure (same_keys value [''schema'', ''store_uuid'', ''project_uuid'', ''project_identity'',
                  ''canonical_project_root_at_init'', ''created_by_version''])
          (identity_error ''store_identity_invalid''),
        ensure (get ''schema'' value = JStr ''an-kla/store-identity-v1'' \<and>
                is_str (get ''canonical_project_root_at_init'' value) \<and>
                is_str (get ''created_by_version'' value)) (identity_error ''store_identity_invalid''),
        identity_uuid (get ''store_uuid'' value),
        identity_uuid (get ''project_uuid'' value),
        except_as (\<lambda>e. exn_class e = TypeError \<or> is_value_error e) (identity_error ''store_identity_invalid'')
          (bare_digest_value (get ''project_identity'' value))]"

definition verify_manifest_link :: "json \<Rightarrow> os \<Rightarrow> unit res" where
  "verify_manifest_link m s =
     (let linked = get ''store_identity'' m in
      if linked = JNull then Inr ()
      else except_as (\<lambda>e. exn_class e \<noteq> IdentityError) (identity_error ''store_identity_invalid'')
        (andthen (bare_digest_value linked) (\<lambda>_.
         andthen (read_json_object ''identities'' (str_of linked) s) validate_store_identity)))"

section \<open>The root of a compacted chain\<close>

definition read_validated :: "string \<Rightarrow> (json \<Rightarrow> unit res) \<Rightarrow> json \<Rightarrow> os \<Rightarrow> json res" where
  "read_validated kind check identifier s =
     andthen (read_json_object kind (py_str identifier) s) (\<lambda>v. andthen (check v) (\<lambda>_. Inr v))"

definition archives_source :: "json \<Rightarrow> json \<Rightarrow> bool" where
  "archives_source catalog link \<longleftrightarrow>
     list_ex (\<lambda>item. get ''revision'' item = get ''source_revision'' link \<and>
                     get ''epoch_id'' item = get ''epoch_id'' link \<and>
                     get ''export_manifest_sha256'' item = get ''export_manifest_sha256'' link)
       (list_items (get ''archived_revisions'' catalog))"

definition root_consistent :: "json \<Rightarrow> json \<Rightarrow> json \<Rightarrow> json \<Rightarrow> json \<Rightarrow> json \<Rightarrow> bool" where
  "root_consistent m link catalog epoch proof_object stage \<longleftrightarrow>
     get ''epoch_id'' catalog = get ''epoch_id'' link \<and>
     get ''source_revision'' catalog = get ''source_revision'' link \<and>
     get ''export_manifest_sha256'' catalog = get ''export_manifest_sha256'' link \<and>
     get ''epoch_id'' epoch = get ''epoch_id'' link \<and>
     get ''transaction_id'' epoch = get ''transaction_id'' m \<and>
     get ''base_revision'' epoch = get ''source_revision'' link \<and>
     get ''export_manifest_sha256'' epoch = get ''export_manifest_sha256'' link \<and>
     get ''tombstone_catalog'' epoch = get ''tombstone_catalog'' link \<and>
     get ''delete_set_sha256'' epoch = get ''delete_set_sha256'' catalog \<and>
     get ''compaction_policy'' epoch = JStr (digest_json (get ''compaction_policy'' stage)) \<and>
     get ''manifest_sha256'' proof_object = get ''export_manifest_sha256'' link \<and>
     get ''current_revision'' proof_object = get ''source_revision'' link \<and>
     get ''store_identity_sha256'' proof_object = get ''store_identity'' m \<and>
     archives_source catalog link"

text \<open>The errors the \<open>try\<close> of \<open>_validate_compaction_root\<close> turns into its own; \<open>IntegrityError\<close>,
  which a missing or broken object raises, is not among them.\<close>

definition root_caught :: "exn \<Rightarrow> bool" where
  "root_caught e \<longleftrightarrow> exn_class e \<in> {CompactionError, KeyError, OSError} \<or> is_value_error e"

definition validate_compaction_root :: "exn_class \<Rightarrow> json \<Rightarrow> os \<Rightarrow> unit res" where
  "validate_compaction_root error m s =
     (let bad = Exn error ''manifest_compaction_epoch_invalid'' None; link = get ''compaction_epoch'' m in
      andthen (except_as root_caught bad
        (andthen (read_validated ''compaction/catalogs'' validate_catalog (get ''tombstone_catalog'' link) s) (\<lambda>catalog.
         andthen (read_validated ''compaction/epochs'' validate_epoch_manifest (get ''epoch_manifest'' link) s) (\<lambda>epoch.
         andthen (read_validated ''compaction/restore-proofs'' validate_restore_proof (get ''restore_proof'' epoch) s) (\<lambda>proof_object.
         andthen (validate_catalog_chain s (py_str (get ''tombstone_catalog'' link))) (\<lambda>_.
         case stage_evidence (py_str (get ''transaction_id'' m)) (digest_json m) s of
           None \<Rightarrow> raise CompactionError ''compaction_stage_invalid''
         | Some stage \<Rightarrow>
             andthen (validate_policy_config (get ''compaction_policy'' stage)) (\<lambda>_.
               Inr (root_consistent m link catalog epoch proof_object stage))))))))
      (\<lambda>consistent. ensure consistent bad))"

section \<open>One step of the chain\<close>

definition chain_error :: "exn_class \<Rightarrow> exn" where
  "chain_error error = Exn error ''revision_transition_invalid'' None"

text \<open>The entries the child adds to the refutation map, when the transition allows them.\<close>

definition refutation_delta :: "exn_class \<Rightarrow> json \<Rightarrow> json \<Rightarrow> json list res" where
  "refutation_delta error child parent =
     (if get ''schema'' parent \<in> {rev2, rev3} then
        andthen (checks
          [ensure (get ''schema'' child = get ''schema'' parent) (Exn error ''revision_schema_downgrade'' None),
           ensure (get ''features'' child = get ''features'' parent) (chain_error error),
           ensure (get ''schema'' parent \<noteq> rev3 \<or>
                   py_eq (get ''compaction_epoch'' child) (get ''compaction_epoch'' parent)) (chain_error error)])
        (\<lambda>_. andthen (items_of ''refutations_map'' parent) (\<lambda>prior.
              andthen (items_of ''refutations_map'' child) (\<lambda>own.
                if take (length prior) own = prior \<and> length own \<le> length prior + 1 \<and> length prior \<le> length own
                then Inr (drop (length prior) own) else Inl (chain_error error))))
      else if get ''schema'' child = rev2 then
        andthen (items_of ''refutations_map'' child) (\<lambda>own.
          if length own = 1 then Inr own else Inl (chain_error error))
      else Inr [])"

definition check_new_refutation :: "exn_class \<Rightarrow> string \<Rightarrow> os \<Rightarrow> json \<Rightarrow> unit res" where
  "check_new_refutation error parent_id s entry =
     andthen (read_json_object ''refutations'' (py_str (get ''refutation_id'' entry)) s) (\<lambda>refutation.
     andthen (ensure (is_obj refutation) (Exn AttributeError ''get'' None)) (\<lambda>_.
       ensure (get ''target_revision'' refutation = JStr parent_id \<and>
               get ''stream'' refutation = get ''stream'' entry \<and>
               get ''target_record_sha256'' refutation = get ''target_record_sha256'' entry) (chain_error error)))"

definition check_stage :: "exn_class \<Rightarrow> string \<Rightarrow> json \<Rightarrow> nat \<Rightarrow> os \<Rightarrow> unit res" where
  "check_stage error child_id child added s =
     when_ok (get ''schema'' child \<in> {rev2, rev3})
       (let txid = py_str (get ''transaction_id'' child) in
        case stage_evidence txid child_id s of
          None \<Rightarrow> Inl (chain_error error)
        | Some stage \<Rightarrow>
            checks
              [ensure ((get ''operation'' (get ''attempt'' stage) = JStr ''refute'') = (added = 1)) (chain_error error),
               except_as (\<lambda>_. True) (chain_error error)
                 (andthen (required_candidate_files txid child_id (get ''attempt'' stage) s) (\<lambda>_. Inr ()))])"

definition check_transition :: "exn_class \<Rightarrow> string \<Rightarrow> json \<Rightarrow> string \<Rightarrow> json \<Rightarrow> os \<Rightarrow> unit res" where
  "check_transition error child_id child parent_id parent s =
     andthen (checks
       [ensure (digest_json parent = parent_id) (Exn error ''revision_hash_mismatch'' None),
        validate_manifest error parent,
        verify_manifest_link parent s,
        ensure (int_of (get ''revision'' child) = int_of (get ''revision'' parent) + 1) (chain_error error),
        ensure (get ''store_identity'' parent = JNull \<or>
                get ''store_identity'' child = get ''store_identity'' parent) (chain_error error),
        andthen (items_of ''supersedes_map'' parent) (\<lambda>prior.
        andthen (items_of ''supersedes_map'' child) (\<lambda>own.
          ensure (take (length prior) own = prior) (chain_error error)))])
     (\<lambda>_. andthen (refutation_delta error child parent) (\<lambda>added.
           checks [each (check_new_refutation error parent_id s) added,
                   check_stage error child_id child (length added) s]))"

section \<open>The chain\<close>

text \<open>The loop runs at most the revision number plus two times; \<open>n\<close> counts the rounds left.\<close>

fun chain_loop :: "exn_class \<Rightarrow> watermark option \<Rightarrow> os \<Rightarrow> nat \<Rightarrow> string list \<Rightarrow> string \<Rightarrow> json \<Rightarrow> unit res" where
  "chain_loop error stop s 0 seen child_id child = Inl (chain_error error)"
| "chain_loop error stop s (Suc n) seen child_id child =
     (if child_id \<in> set seen then Inl (chain_error error)
      else if binding_matches stop child_id child then Inr ()
      else if get ''parent'' child = JNull then
        (if get ''schema'' child = rev3 then validate_compaction_root error child s
         else ensure (int_of (get ''revision'' child) = 0 \<and> get ''schema'' child = rev1) (chain_error error))
      else
        let parent_id = py_str (get ''parent'' child) in
        andthen (read_json_object ''revisions'' parent_id s) (\<lambda>parent.
        andthen (check_transition error child_id child parent_id parent s) (\<lambda>_.
          chain_loop error stop s n (child_id # seen) parent_id parent)))"

definition validate_revision_chain ::
    "exn_class \<Rightarrow> watermark option \<Rightarrow> string \<Rightarrow> json \<Rightarrow> os \<Rightarrow> unit res" where
  "validate_revision_chain error stop revision_id m s =
     chain_loop error stop s (nat (int_of (get ''revision'' m)) + 2) [] revision_id m"

section \<open>An audited chain is a walk along which the history grows\<close>

definition map_items :: "string \<Rightarrow> json \<Rightarrow> json list" where
  "map_items k m = list_items (get k m)"

text \<open>What the parent records the child records too, in the same order; the identity stays.\<close>

definition extends :: "json \<Rightarrow> json \<Rightarrow> bool" where
  "extends child parent \<longleftrightarrow>
     prefix (map_items ''supersedes_map'' parent) (map_items ''supersedes_map'' child) \<and>
     prefix (map_items ''refutations_map'' parent) (map_items ''refutations_map'' child) \<and>
     (get ''store_identity'' parent = JNull \<or> get ''store_identity'' child = get ''store_identity'' parent)"

fun grown :: "(string \<times> json) list \<Rightarrow> bool" where
  "grown (a # b # rest) = (extends (snd a) (snd b) \<and> grown (b # rest))"
| "grown _ = True"

lemma extends_refl [simp]: "extends m m"
  by (simp add: extends_def)

lemma extends_trans: "extends a b \<Longrightarrow> extends b c \<Longrightarrow> extends a c"
  by (auto simp: extends_def intro: prefix_order.order_trans)

lemma grown_extends: "grown nodes \<Longrightarrow> node \<in> set nodes \<Longrightarrow> extends (snd (hd nodes)) (snd node)"
proof (induction nodes arbitrary: node rule: grown.induct)
  case (1 a b rest)
  show ?case
  proof (cases "node = a")
    case False
    with 1 have "extends (snd b) (snd node)" and "extends (snd a) (snd b)" by simp_all
    then show ?thesis using extends_trans by simp
  qed simp
qed auto

lemma items_ofD: "items_of k v = Inr xs \<Longrightarrow> map_items k v = xs"
  by (auto simp: items_of_def map_items_def not_has_key_get split: if_splits json.splits)

lemma take_prefix: "take (length xs) ys = xs \<Longrightarrow> prefix xs ys"
  by (metis take_is_prefix)

lemma validate_manifestD:
  assumes "validate_manifest error m = Inr u"
  shows "is_obj m" "get ''schema'' m \<in> {rev1, rev2, rev3}" "is_natural (get ''revision'' m)"
    and "get ''parent'' m = JNull \<or> (\<exists>t. get ''parent'' m = JStr t \<and> digest_shape t)"
    and "check_root_parent error m = Inr ()" and "manifest_shape m"
proof -
  have all: "is_obj m \<and> get ''schema'' m \<in> {rev1, rev2, rev3} \<and> is_natural (get ''revision'' m) \<and>
      check_root_parent error m = Inr () \<and> manifest_shape m \<and>
      (get ''parent'' m \<noteq> JNull \<longrightarrow> check_identifier error (get ''parent'' m) = Inr ())"
    using assms by (simp add: validate_manifest_def Let_def)
  then show "is_obj m" "get ''schema'' m \<in> {rev1, rev2, rev3}" "is_natural (get ''revision'' m)"
    "check_root_parent error m = Inr ()" "manifest_shape m" by blast+
  show "get ''parent'' m = JNull \<or> (\<exists>t. get ''parent'' m = JStr t \<and> digest_shape t)"
    using all by (cases "get ''parent'' m") (auto simp: check_identifier_def bare_digest_Inr_iff)
qed

lemma rev1_no_refutations:
  assumes "validate_manifest error m = Inr u" and "get ''schema'' m = rev1"
  shows "map_items ''refutations_map'' m = []"
proof -
  let ?keys = "manifest_required rev1 @ [''store_identity'', ''supersedes_map'']"
  have "list_all (\<lambda>k. k \<in> set ?keys) (dict_keys m)"
    using validate_manifestD(6)[OF assms(1)] assms(2) by (simp add: manifest_shape_def Let_def)
  moreover have "''refutations_map'' \<notin> set ?keys" by (simp add: manifest_required_def)
  ultimately have "\<not> has_key ''refutations_map'' m" by (auto simp only: has_key_def list_all_iff)
  then show ?thesis by (simp add: map_items_def not_has_key_get)
qed

lemma check_transitionD:
  assumes "check_transition error child_id child parent_id parent s = Inr u"
  shows "validate_manifest error parent = Inr ()"
    and "int_of (get ''revision'' child) = int_of (get ''revision'' parent) + 1"
    and "extends child parent"
proof -
  show v: "validate_manifest error parent = Inr ()"
    and "int_of (get ''revision'' child) = int_of (get ''revision'' parent) + 1"
    using assms by (auto simp: check_transition_def)
  obtain prior own where "items_of ''supersedes_map'' parent = Inr prior"
    "items_of ''supersedes_map'' child = Inr own" "take (length prior) own = prior"
    and ident: "get ''store_identity'' parent = JNull \<or> get ''store_identity'' child = get ''store_identity'' parent"
    using assms by (auto simp: check_transition_def)
  then have sup: "prefix (map_items ''supersedes_map'' parent) (map_items ''supersedes_map'' child)"
    using items_ofD take_prefix by metis
  have ref: "prefix (map_items ''refutations_map'' parent) (map_items ''refutations_map'' child)"
  proof (cases "get ''schema'' parent \<in> {rev2, rev3}")
    case True
    then obtain prior own where "items_of ''refutations_map'' parent = Inr prior"
      "items_of ''refutations_map'' child = Inr own" "take (length prior) own = prior"
      using assms by (auto simp: check_transition_def refutation_delta_def split: if_split_asm)
    then show ?thesis using items_ofD take_prefix by metis
  next
    case False
    then have "get ''schema'' parent = rev1" using validate_manifestD(2)[OF v] by blast
    then show ?thesis using rev1_no_refutations[OF v] by simp
  qed
  show "extends child parent" using sup ref ident by (simp add: extends_def)
qed

lemma audited_node:
  assumes valid: "validate_manifest error m = Inr ()" and stored: "read_json_object ''revisions'' i s = Inr m"
    and fresh: "i \<notin> set seen" and number: "child = None \<or> child = Some (int_of (get ''revision'' m) + 1)"
    and root: "get ''parent'' m = JNull \<Longrightarrow> get ''schema'' m \<noteq> rev3 \<Longrightarrow> get ''schema'' m = rev1"
  shows "walk_node s seen child i = Inr m"
proof -
  note v = validate_manifestD[OF valid]
  have shape: "digest_shape i"
    using stored by (auto simp: read_json_object_held)
  have schema: "str_in (get ''schema'' m) schemas"
    using v(2) by (auto simp: schemas_def rev1_def rev2_def rev3_def)
  show ?thesis
    using shape fresh stored v(1,3,4,5) schema number root
    by (cases "get ''parent'' m = JNull"; cases child)
      (auto simp: walk_node_def Let_def check_root_parent_def is_natural_def checks.simps(2)
        bare_digest_Inr_iff[THEN iffD2] split: if_split_asm)
qed

lemma chain_loop_walk:
  "chain_loop error None s n seen i m = Inr () \<Longrightarrow> validate_manifest error m = Inr () \<Longrightarrow>
   read_json_object ''revisions'' i s = Inr m \<Longrightarrow>
   child = None \<or> child = Some (int_of (get ''revision'' m) + 1) \<Longrightarrow>
   \<exists>nodes. walk s seen child i = Inr nodes \<and> snd (hd nodes) = m \<and> nodes \<noteq> [] \<and> grown nodes \<and>
     list_all (\<lambda>node. validate_manifest error (snd node) = Inr ()) nodes"
proof (induction n arbitrary: seen i m child)
  case (Suc n)
  have fresh: "i \<notin> set seen" using Suc.prems(1) by (auto split: if_splits)
  show ?case
  proof (cases "get ''parent'' m = JNull")
    case True
    then have root: "get ''schema'' m \<noteq> rev3 \<Longrightarrow> get ''schema'' m = rev1"
      using Suc.prems(1) fresh by (auto simp: binding_matches_def split: if_splits)
    have "walk_node s seen child i = Inr m"
      by (rule audited_node[OF Suc.prems(2,3) fresh Suc.prems(4)]) (rule root)
    then show ?thesis using True Suc.prems(2) by (simp add: walk.simps[of s seen child i])
  next
    case False
    then obtain p where p: "get ''parent'' m = JStr p" using validate_manifestD(4)[OF Suc.prems(2)] by blast
    have node: "walk_node s seen child i = Inr m"
      by (rule audited_node[OF Suc.prems(2,3) fresh Suc.prems(4)]) (use False in simp)
    obtain parent where r: "read_json_object ''revisions'' p s = Inr parent"
      and t: "check_transition error i m p parent s = Inr ()"
      and rest: "chain_loop error None s n (i # seen) p parent = Inr ()"
      using Suc.prems(1) fresh False p by (auto simp: binding_matches_def Let_def)
    note step = check_transitionD[OF t]
    have "Some (int_of (get ''revision'' m)) = None \<or>
        Some (int_of (get ''revision'' m)) = Some (int_of (get ''revision'' parent) + 1)"
      using step(2) by simp
    from Suc.IH[OF rest step(1) r this] obtain nodes where
      w: "walk s (i # seen) (Some (int_of (get ''revision'' m))) p = Inr nodes" "snd (hd nodes) = parent"
        "nodes \<noteq> []" "grown nodes" "list_all (\<lambda>node. validate_manifest error (snd node) = Inr ()) nodes"
      by blast
    then have "walk s seen child i = Inr ((i, m) # nodes)"
      using node p by (simp add: walk.simps[of s seen child i])
    moreover have "grown ((i, m) # nodes)" using w step(3) by (cases nodes) auto
    ultimately show ?thesis using w Suc.prems(2) by auto
  qed
qed simp

text \<open>C17: A revision whose chain passes the full audit has a complete history: the plain walk over
  its ancestors succeeds, every manifest of it is valid, and nothing recorded by an ancestor is
  ever dropped: the supersessions and the refutations of each ancestor are a prefix of those of
  the revision, and the store identity, once linked, stays the same.\<close>

theorem audited_chain_grows:
  assumes "validate_revision_chain error None i m s = Inr ()" and "validate_manifest error m = Inr ()"
    and "read_json_object ''revisions'' i s = Inr m"
  shows "\<exists>nodes. walk_revisions s i = Inr nodes \<and> snd (hd nodes) = m \<and>
    list_all (\<lambda>node. validate_manifest error (snd node) = Inr () \<and> extends m (snd node)) nodes"
proof -
  obtain nodes where w: "walk s [] None i = Inr nodes" "snd (hd nodes) = m" "grown nodes"
    "list_all (\<lambda>node. validate_manifest error (snd node) = Inr ()) nodes"
    using chain_loop_walk[OF assms(1)[unfolded validate_revision_chain_def] assms(2,3), of None] by blast
  then have "list_all (\<lambda>node. validate_manifest error (snd node) = Inr () \<and> extends m (snd node)) nodes"
    using grown_extends[OF w(3)] by (auto simp: list_all_iff)
  with w show ?thesis unfolding walk_revisions_def by blast
qed

section \<open>The watermark\<close>

text \<open>The identifiers seen so far hold revisions with higher numbers: they cannot come up again.\<close>

definition seen_above :: "os \<Rightarrow> string list \<Rightarrow> json \<Rightarrow> bool" where
  "seen_above s seen m \<longleftrightarrow>
     list_all (\<lambda>j. \<exists>k. read_json_object ''revisions'' j s = Inr k \<and>
                      int_of (get ''revision'' m) < int_of (get ''revision'' k)) seen"

lemma seen_above_fresh:
  "seen_above s seen m \<Longrightarrow> read_json_object ''revisions'' i s = Inr m \<Longrightarrow> i \<notin> set seen"
  by (auto simp: seen_above_def list_all_iff)

lemma seen_above_step:
  "seen_above s seen m \<Longrightarrow> read_json_object ''revisions'' i s = Inr m \<Longrightarrow>
   int_of (get ''revision'' m) = int_of (get ''revision'' parent) + 1 \<Longrightarrow> seen_above s (i # seen) parent"
  by (auto simp: seen_above_def list_all_iff)

lemma chain_loop_seen:
  "seen_above s seen m \<Longrightarrow> seen_above s seen' m \<Longrightarrow> read_json_object ''revisions'' i s = Inr m \<Longrightarrow>
   chain_loop error stop s n seen i m = Inr () \<Longrightarrow> chain_loop error stop s n seen' i m = Inr ()"
proof (induction n arbitrary: seen seen' i m)
  case (Suc n)
  have fresh: "i \<notin> set seen" "i \<notin> set seen'"
    using seen_above_fresh[OF Suc.prems(1,3)] seen_above_fresh[OF Suc.prems(2,3)] by auto
  show ?case
  proof (cases "binding_matches stop i m \<or> get ''parent'' m = JNull")
    case True
    then show ?thesis using Suc.prems(4) fresh by auto
  next
    case False
    let ?p = "py_str (get ''parent'' m)"
    obtain parent where r: "read_json_object ''revisions'' ?p s = Inr parent"
      and t: "check_transition error i m ?p parent s = Inr ()"
      and rest: "chain_loop error stop s n (i # seen) ?p parent = Inr ()"
      using Suc.prems(4) fresh False by (auto simp: Let_def)
    note step = check_transitionD(2)[OF t]
    have "chain_loop error stop s n (i # seen') ?p parent = Inr ()"
      by (rule Suc.IH[OF seen_above_step[OF Suc.prems(1,3) step] seen_above_step[OF Suc.prems(2,3) step] r rest])
    then show ?thesis using fresh False r t by (simp add: Let_def)
  qed
qed simp

text \<open>The full audit of the marked revision, as it ran when the mark was written.\<close>

definition mark_audited :: "exn_class \<Rightarrow> watermark \<Rightarrow> os \<Rightarrow> bool" where
  "mark_audited error w s \<longleftrightarrow>
     (\<exists>k. read_json_object ''revisions'' (mark_revision w) s = Inr k \<and>
          int_of (get ''revision'' k) \<ge> 0 \<and>
          validate_revision_chain error None (mark_revision w) k s = Inr ())"

lemma chain_loop_watermark:
  "mark_audited error w s \<Longrightarrow> seen_above s seen m \<Longrightarrow> read_json_object ''revisions'' i s = Inr m \<Longrightarrow>
   int n = int_of (get ''revision'' m) + 2 \<Longrightarrow>
   chain_loop error (Some w) s n seen i m = Inr () \<Longrightarrow> chain_loop error None s n seen i m = Inr ()"
proof (induction n arbitrary: seen i m)
  case (Suc n)
  have fresh: "i \<notin> set seen" by (rule seen_above_fresh[OF Suc.prems(2,3)])
  show ?case
  proof (cases "binding_matches (Some w) i m")
    case True
    then have "i = mark_revision w" by (simp add: binding_matches_def)
    then have "chain_loop error None s (nat (int_of (get ''revision'' m)) + 2) [] i m = Inr ()"
      and "int_of (get ''revision'' m) \<ge> 0"
      using Suc.prems(1,3) by (auto simp: mark_audited_def validate_revision_chain_def)
    then have "chain_loop error None s (Suc n) [] i m = Inr ()"
      using Suc.prems(4) by (metis add_diff_cancel_right' int_nat_eq nat_int of_nat_add of_nat_numeral)
    then show ?thesis
      using chain_loop_seen[of s "[]" m seen i error None "Suc n"] Suc.prems(2,3)
      by (simp add: seen_above_def)
  next
    case False
    then show ?thesis
    proof (cases "get ''parent'' m = JNull")
      case True
      then show ?thesis using Suc.prems(5) fresh False by (auto simp: binding_matches_def)
    next
      case parent: False
      let ?p = "py_str (get ''parent'' m)"
      obtain k where r: "read_json_object ''revisions'' ?p s = Inr k"
        and t: "check_transition error i m ?p k s = Inr ()"
        and rest: "chain_loop error (Some w) s n (i # seen) ?p k = Inr ()"
        using Suc.prems(5) fresh False parent by (auto simp: Let_def)
      note step = check_transitionD(2)[OF t]
      have "chain_loop error None s n (i # seen) ?p k = Inr ()"
        by (rule Suc.IH[OF Suc.prems(1) seen_above_step[OF Suc.prems(2,3) step] r _ rest])
          (use Suc.prems(4) step in simp)
      then show ?thesis using fresh parent r t by (simp add: Let_def binding_matches_def)
    qed
  qed
qed simp

lemma chain_loop_stop:
  "chain_loop error None s n seen i m = Inr () \<Longrightarrow> chain_loop error stop s n seen i m = Inr ()"
  by (induction n arbitrary: seen i m) (auto simp: binding_matches_def[of None] Let_def split: if_splits)

text \<open>C18: While the full audit of the marked revision would still pass, stopping at the watermark
  accepts exactly the revisions the full audit accepts. (Without that premise it accepts more:
  see \<open>watermark_hides_loss\<close>.)\<close>

theorem watermark_equivalent:
  assumes "mark_audited error w s" and "read_json_object ''revisions'' i s = Inr m"
    and "int_of (get ''revision'' m) \<ge> 0"
  shows "validate_revision_chain error (Some w) i m s = Inr () \<longleftrightarrow>
    validate_revision_chain error None i m s = Inr ()"
proof
  assume "validate_revision_chain error (Some w) i m s = Inr ()"
  moreover have "seen_above s [] m" by (simp add: seen_above_def)
  moreover have "int (nat (int_of (get ''revision'' m)) + 2) = int_of (get ''revision'' m) + 2"
    using assms(3) by simp
  ultimately show "validate_revision_chain error None i m s = Inr ()"
    unfolding validate_revision_chain_def using chain_loop_watermark[OF assms(1) _ assms(2)] by blast
next
  assume "validate_revision_chain error None i m s = Inr ()"
  then show "validate_revision_chain error (Some w) i m s = Inr ()"
    unfolding validate_revision_chain_def by (rule chain_loop_stop)
qed

text \<open>C19: A watermark does change results: for a revision the mark binds, the audit passes although
  its parent cannot be read at all, while the full audit reports the error of that read.\<close>

theorem watermark_hides_loss:
  assumes "binding_matches (Some w) i m" and "get ''parent'' m = JStr p"
    and "read_json_object ''revisions'' p s = Inl e"
  shows "validate_revision_chain error (Some w) i m s = Inr () \<and>
    validate_revision_chain error None i m s = Inl e"
proof -
  obtain n where "nat (int_of (get ''revision'' m)) + 2 = Suc n" by simp
  then show ?thesis
    using assms by (simp add: validate_revision_chain_def) (simp add: binding_matches_def)
qed

section \<open>Examples\<close>

lemma root_store_audited:
  "validate_revision_chain IntegrityError None (digest_json sample_root) sample_root root_store = Inr ()"
  by (simp add: validate_revision_chain_def binding_matches_def numeral_2_eq_2)
    (simp add: sample_root_def rev1_def rev3_def)

lemma audited_chain_grows_witness:
  "\<exists>nodes. walk_revisions root_store (digest_json sample_root) = Inr nodes \<and> snd (hd nodes) = sample_root"
  using audited_chain_grows[OF root_store_audited sample_root_valid root_store_reads] by blast

definition root_mark :: watermark where
  "root_mark = \<lparr>mark_revision = digest_json sample_root, mark_parent = JNull, mark_epoch = JNull\<rparr>"

lemma watermark_equivalent_witness:
  "(validate_revision_chain IntegrityError (Some root_mark) (digest_json sample_root) sample_root root_store = Inr ()) =
   (validate_revision_chain IntegrityError None (digest_json sample_root) sample_root root_store = Inr ())"
proof -
  have "int_of (get ''revision'' sample_root) \<ge> 0" by (simp add: sample_root_def)
  moreover from this have "mark_audited IntegrityError root_mark root_store"
    using root_store_reads root_store_audited unfolding mark_audited_def root_mark_def by auto
  ultimately show ?thesis using watermark_equivalent[OF _ root_store_reads] by blast
qed

lemma watermark_hides_loss_witness:
  "\<exists>m w. validate_revision_chain IntegrityError (Some w) (digest_json m) m (blank True) = Inr () \<and>
     validate_revision_chain IntegrityError None (digest_json m) m (blank True) =
       Inl (Exn IntegrityError ''object_missing:revisions'' None)"
proof -
  obtain m where m: "build_child_manifest sample_root sample_child = Inr m"
    by (simp add: build_child_manifest_def sample_child_def sample_child_schema checks.simps(2))
  then have p: "get ''parent'' m = JStr (digest_json sample_root)"
    using child_manifest_parent[OF m] by (simp add: sample_child_def)
  let ?w = "\<lparr>mark_revision = digest_json m, mark_parent = get ''parent'' m, mark_epoch = epoch_of m\<rparr>"
  have "binding_matches (Some ?w) (digest_json m) m" by (simp add: binding_matches_def)
  moreover have "read_json_object ''revisions'' (digest_json sample_root) (blank True) =
      Inl (Exn IntegrityError ''object_missing:revisions'' None)"
    by (simp add: read_json_object_def get_bytes_def path_for_def)
  ultimately show ?thesis using watermark_hides_loss[OF _ p] by blast
qed

end
