(* ===== verification/Frames.thy ===== *)
theory Frames
  imports ObjectStore
begin

text \<open>
  What the writing operations of the store leave alone. A path is \<open>free\<close> for a relation between
  states when writing or removing the file at it respects the relation; an operation respects the
  relation as soon as the paths it may touch are free. For \<open>same_on P\<close> these are the paths
  outside \<open>P\<close>, so that one lemma per operation gives every frame condition.
\<close>

context step_relation
begin

definition free :: "string \<Rightarrow> bool" where
  "free p \<longleftrightarrow> (\<forall>s b. R s (store_file p b s)) \<and> (\<forall>s. R s (remove_file p s))"

definition free_below :: "string \<Rightarrow> bool" where
  "free_below d \<longleftrightarrow> (\<forall>x. free (d @ ''/'' @ x))"

lemma keeps_lift_bind: "(\<And>a. m = Inr a \<Longrightarrow> keeps (k a)) \<Longrightarrow> keeps (bind_io (lift m) k)"
  by (cases m) (simp_all add: keeps_def bind_io_def lift_def stays)

lemma keeps_put_bytes:
  assumes "free_below (kind @ ''/sha256'')" and "free_below ''quarantine''"
  shows "keeps (put_bytes kind ext payload)"
proof -
  have target: "free (kind @ ''/sha256/'' @ x)" for x
    using assms(1) unfolding free_below_def by (metis append_Cons append_Nil append_assoc)
  have below: "free (''quarantine/'' @ x)" for x
    using assms(2) unfolding free_below_def by simp
  have w: "keeps (write_immutable path payload)" if "path_for kind (digest_bytes payload) ext = Inr path" for path
    using that target below unfolding free_def by (intro keeps_write_immutable) (auto simp: path_for_def)
  show ?thesis
  proof (rule keepsI)
    fix s r t assume run: "put_bytes kind ext payload s = (r, t)"
    show "R s t"
    proof (cases "path_for kind (digest_bytes payload) ext")
      case (Inl e)
      then show ?thesis using run stays by (simp add: put_bytes_def bind_io_def lift_def)
    next
      case (Inr path)
      obtain r1 s1 where i: "write_immutable path payload s = (r1, s1)" by fastforce
      then have "t = s1" using run Inr by (auto simp: put_bytes_def bind_io_def lift_def ret_def split: sum.splits)
      then show ?thesis using keepsD[OF w[OF Inr] i] by simp
    qed
  qed
qed

lemma keeps_write_json_object:
  "free_below (kind @ ''/sha256'') \<Longrightarrow> free_below ''quarantine'' \<Longrightarrow> keeps (write_json_object kind value)"
  unfolding write_json_object_def by (intro keeps_rules keeps_put_bytes)

lemma keeps_write_segment:
  "free_below (segment_kind stream @ ''/sha256'') \<Longrightarrow> free_below ''quarantine'' \<Longrightarrow>
   keeps (write_segment stream records)"
  unfolding write_segment_def by (intro keeps_rules keeps_put_bytes)

lemma keeps_write_ref_log:
  "free_below ''refs/ref-log/sha256'' \<Longrightarrow> free_below ''quarantine'' \<Longrightarrow> keeps (write_ref_log entry)"
  unfolding write_ref_log_def by (rule keeps_write_json_object) simp_all

lemma keeps_atomic:
  "free target \<Longrightarrow> (\<And>u. free (temporary_name target u)) \<Longrightarrow> keeps (atomic_write target payload)"
  unfolding free_def by (intro keeps_atomic_write) blast+

lemma keeps_write_transaction:
  "free (journal_path txid) \<Longrightarrow> (\<And>u. free (temporary_name (journal_path txid) u)) \<Longrightarrow>
   keeps (write_transaction txid body)"
  unfolding write_transaction_def by (intro keeps_rules keeps_atomic)

lemma keeps_replace_current:
  "free current_path \<Longrightarrow> (\<And>u. free (temporary_name current_path u)) \<Longrightarrow> keeps (replace_current identifier)"
  unfolding replace_current_def by (intro keeps_rules keeps_atomic)

end

lemma same_free [simp]: "same.free P p \<longleftrightarrow> \<not> P p"
  unfolding same.free_def
  by (auto simp: same_on_def split: if_splits)

lemma same_free_below [simp]: "same.free_below P d \<longleftrightarrow> (\<forall>x. \<not> P (d @ ''/'' @ x))"
  by (simp add: same.free_below_def)

lemma onward_free [simp]: "onward.free p" "onward.free_below d"
  by (simp_all add: onward.free_def onward.free_below_def)

lemma stored_object_reads:
  assumes "storable v" and "\<not> prefix ''quarantine'' kind" and "write_json_object kind v s = (Inr i, t)"
  shows "i = digest_json v \<and> read_json_object kind i t = Inr v"
proof -
  have "put_bytes kind ''.json'' (canonical_json v) s = (Inr i, t)"
    using assms(1,3) by (simp add: write_json_object_put storable_def text_json_dumpable)
  from content_store.deposit_held[OF content_store_kind[OF assms(2)] this] show ?thesis
    using storable_read_back[OF assms(1), of kind t] by (auto simp: digest_json_def)
qed

end
