(* ===== verification/Receipts.thy ===== *)
theory Receipts
  imports Chain Frames "HOL-Library.Product_Lexorder"
begin

text \<open>
  Durability receipts and the reconciliation of a transaction: \<open>validate_receipt_evidence\<close> of
  \<open>receipt_validation.py\<close>, \<open>observed_log_complete\<close> of \<open>audit_validation.py\<close>, \<open>write_receipt\<close>,
  \<open>candidate_relation\<close> and \<open>inspect_transaction\<close> of \<open>transactions.py\<close> and \<open>reconcile_attempt\<close> of
  \<open>transaction_reconcile.py\<close>.
\<close>

section \<open>Receipts as evidence\<close>

definition value_error :: "string \<Rightarrow> exn" where
  "value_error code = Exn ValueError code None"

text \<open>A relative path in normal form: no backslash, no empty, dot or dot-dot component (an absolute
  path has an empty first component).\<close>

definition normal_path :: "json \<Rightarrow> os \<Rightarrow> bool" where
  "normal_path value s \<longleftrightarrow>
     (case value of
        JStr p \<Rightarrow> p \<noteq> [] \<and> is_nfc s p \<and> CHR 0x5C \<notin> set p \<and>
          list_all (\<lambda>part. part \<noteq> [] \<and> part \<noteq> ''.'' \<and> part \<noteq> ''..'') (split_on (CHR ''/'') p)
      | _ \<Rightarrow> False)"

definition is_dir :: "string \<Rightarrow> os \<Rightarrow> bool" where
  "is_dir d s \<longleftrightarrow> list_ex (\<lambda>kv. under d (fst kv)) (files s)"

definition check_protected :: "string \<Rightarrow> os \<Rightarrow> json \<Rightarrow> unit res" where
  "check_protected rel s item =
     (let path = get ''path'' item; operation = get ''operation'' item; content = get ''content_sha256'' item in
      checks
       [ensure (is_obj item \<and> same_keys item [''path'', ''operation'', ''content_sha256''])
          (value_error ''invalid_receipt_protected''),
        ensure (normal_path path s) (value_error ''invalid_receipt_path''),
        if operation = JStr ''file_fsync'' then
          checks
            [ensure (is_str content) (value_error ''invalid_receipt_content_hash''),
             bare_digest_value content,
             (case bytes_at (str_of path) s of
                None \<Rightarrow> Inl raw_os_error
              | Some payload \<Rightarrow>
                  ensure (path = JStr current_path \<and> rel = ''ancestor'' \<or> JStr (digest_bytes payload) = content)
                    (value_error ''receipt_content_hash_mismatch''))]
        else if operation = JStr ''directory_fsync'' then
          ensure (content = JNull \<and> is_dir (str_of path) s) (value_error ''invalid_receipt_directory'')
        else Inl (value_error ''invalid_receipt_operation'')])"

definition check_receipt_link :: "string \<Rightarrow> json \<Rightarrow> json \<Rightarrow> unit res" where
  "check_receipt_link kind predecessor repair_for =
     (if kind = ''candidate-data-durable'' then
        ensure (predecessor = JNull \<and> repair_for = JNull) (value_error ''invalid_candidate_receipt_link'')
      else if kind = ''current-durable'' then
        ensure (predecessor \<noteq> JNull \<and> repair_for = JNull) (value_error ''invalid_current_receipt_link'')
      else if kind = ''repair'' then
        ensure_in repair_for [''candidate-data-durable'', ''current-durable''] (value_error ''invalid_repair_receipt_link'')
      else Inl (value_error ''invalid_receipt_kind''))"

definition protected_key :: "json \<Rightarrow> string \<times> string" where
  "protected_key item = (str_of (get ''path'' item), str_of (get ''operation'' item))"

definition paths_of :: "string \<Rightarrow> json list \<Rightarrow> string list" where
  "paths_of operation items =
     map (\<lambda>item. str_of (get ''path'' item)) (filter (\<lambda>item. get ''operation'' item = JStr operation) items)"

text \<open>\<open>path.rsplit("/", 1)[0]\<close>.\<close>

definition folder :: "string \<Rightarrow> string" where
  "folder p = (if dir_prefix p = [] then p else parent_dir p)"

definition expected_files :: "string \<Rightarrow> json \<Rightarrow> string \<Rightarrow> string option \<Rightarrow> json \<Rightarrow> os \<Rightarrow> string list res" where
  "expected_files kind repair_for txid candidate attempt s =
     (let required = (case candidate of
            None \<Rightarrow> raise AttributeError ''startswith''
          | Some c \<Rightarrow> required_candidate_files txid c attempt s)
      in if (if kind = ''repair'' then repair_for else JStr kind) = JStr ''candidate-data-durable'' then required
         else if kind = ''repair'' then andthen required (\<lambda>fs. Inr (current_path # fs))
         else Inr [current_path])"

definition receipt_keys :: "string list" where
  "receipt_keys =
     [''schema'', ''kind'', ''transaction_id'', ''execution_fingerprint'', ''candidate_revision'',
      ''predecessor_receipt'', ''repair_for_kind'', ''protected'']"

definition same_set :: "string list \<Rightarrow> string list \<Rightarrow> bool" where
  "same_set xs ys \<longleftrightarrow> sorted_set xs = sorted_set ys"

definition check_coverage :: "json list \<Rightarrow> string list \<Rightarrow> unit res" where
  "check_coverage items expected =
     (let fs = paths_of ''file_fsync'' items; directories = paths_of ''directory_fsync'' items in
      checks
       [ensure (same_set fs expected) (value_error ''receipt_required_files_mismatch''),
        ensure (same_set directories (map folder expected)) (value_error ''receipt_required_directories_mismatch''),
        ensure (list_all (\<lambda>p. folder p \<in> set directories) fs) (value_error ''receipt_parent_directory_missing'')])"

definition validate_receipt_evidence ::
    "string \<Rightarrow> string \<Rightarrow> json \<Rightarrow> string option \<Rightarrow> string \<Rightarrow> string \<Rightarrow> os \<Rightarrow> json res" where
  "validate_receipt_evidence txid identifier attempt candidate kind rel s =
     andthen (read_json_object (receipts_kind txid) identifier s) (\<lambda>value.
     let predecessor = get ''predecessor_receipt'' value; repair_for = get ''repair_for_kind'' value;
         protected = list_items (get ''protected'' value)
     in andthen (checks
       [ensure (is_obj value) (Exn TypeError ''set'' None),
        ensure (same_keys value receipt_keys) (value_error ''invalid_receipt_shape''),
        ensure (get ''schema'' value = JStr ''an-kla/durability-receipt-v1'' \<and> get ''kind'' value = JStr kind \<and>
                get ''transaction_id'' value = JStr txid \<and>
                get ''execution_fingerprint'' value = get ''execution_fingerprint'' attempt \<and>
                get ''candidate_revision'' value = opt_str candidate) (value_error ''invalid_receipt_binding''),
        when_ok (predecessor \<noteq> JNull) (bare_digest_value predecessor),
        check_receipt_link kind predecessor repair_for,
        ensure (is_arr (get ''protected'' value) \<and> protected \<noteq> []) (value_error ''invalid_receipt_protected''),
        each (check_protected rel s) protected,
        ensure (sorted (map protected_key protected)) (value_error ''receipt_protected_not_sorted''),
        ensure (distinct (map protected_key protected)) (value_error ''receipt_protected_duplicate'')])
      (\<lambda>_. andthen (expected_files kind repair_for txid candidate attempt s) (\<lambda>expected.
            andthen (check_coverage protected expected) (\<lambda>_. Inr value))))"

section \<open>The audit log\<close>

definition log_entry_matches :: "string \<Rightarrow> json \<Rightarrow> string \<Rightarrow> json \<Rightarrow> json \<Rightarrow> bool" where
  "log_entry_matches kind j txid candidate entry \<longleftrightarrow>
     get ''schema'' entry = JStr ''an-kla/ref-log-v1'' \<and> get ''kind'' entry = JStr kind \<and>
     get ''transaction_id'' entry = JStr txid \<and> get ''candidate'' entry = candidate \<and>
     get ''parent'' entry = get ''parent'' j"

definition observed_log_complete :: "json \<Rightarrow> string \<Rightarrow> json \<Rightarrow> os \<Rightarrow> bool" where
  "observed_log_complete j txid candidate s =
     (case get ''observed_log'' j of
        JStr identifier \<Rightarrow>
          (case andthen (read_json_object ''refs/ref-log'' identifier s) (\<lambda>observed.
                andthen (get_of ''intent'' observed) (\<lambda>intent_id.
                  if is_str intent_id
                  then andthen (read_json_object ''refs/ref-log'' (str_of intent_id) s)
                         (\<lambda>intent. Inr (observed, intent))
                  else raise ValueError ''intent'')) of
             Inl _ \<Rightarrow> False
           | Inr (observed, intent) \<Rightarrow>
               log_entry_matches ''observed_commit'' j txid candidate observed \<and>
               log_entry_matches ''intent'' j txid candidate intent)
      | _ \<Rightarrow> False)"

section \<open>Relation of a candidate to CURRENT\<close>

definition lineage_relation :: "string \<Rightarrow> string \<Rightarrow> os \<Rightarrow> string res" where
  "lineage_relation candidate current s =
     andthen (read_json_object ''revisions'' current s) (\<lambda>head.
     andthen (validate_manifest RevisionWalkError head) (\<lambda>_.
     andthen (validate_revision_chain RevisionWalkError None current head s) (\<lambda>_.
     andthen (walk_revisions s current) (\<lambda>nodes.
       Inr (if get ''schema'' head = rev3 \<and> get ''schema'' (snd (last nodes)) \<noteq> rev3 then ''unknown''
            else if candidate \<in> set (map fst nodes) then ''ancestor'' else ''orphan'')))))"

definition candidate_relation :: "string option \<Rightarrow> string option \<Rightarrow> os \<Rightarrow> string" where
  "candidate_relation candidate current s =
     (case (candidate, current) of
        (Some c, Some r) \<Rightarrow>
          if c = r then ''current''
          else (case lineage_relation c r s of Inl _ \<Rightarrow> ''unknown'' | Inr rel \<Rightarrow> rel)
      | _ \<Rightarrow> ''unknown'')"

definition valid_receipt :: "string \<Rightarrow> json \<Rightarrow> json \<Rightarrow> string option \<Rightarrow> string \<Rightarrow> os \<Rightarrow> json option" where
  "valid_receipt txid identifier attempt candidate kind s =
     (case (identifier, read_current s) of
        (JStr i, Inr current) \<Rightarrow>
          (case validate_receipt_evidence txid i attempt candidate kind
                  (candidate_relation candidate (Some current) s) s of
             Inl _ \<Rightarrow> None | Inr v \<Rightarrow> Some v)
      | _ \<Rightarrow> None)"

section \<open>Reconciliation\<close>

definition outcome_unknown :: "string \<Rightarrow> string option \<Rightarrow> bool option \<Rightarrow> string \<Rightarrow> json" where
  "outcome_unknown txid current known code = mk_obj
     [(''schema'', JStr ''an-kla/commit-outcome-v2''), (''transaction_id'', JStr txid),
      (''parent_revision'', JNull), (''candidate_revision'', JNull), (''current_observed'', opt_str current),
      (''candidate_relation'', JStr ''unknown''), (''state'', JStr ''outcome_unknown''), (''committed'', JNull),
      (''recorded'', opt_bool known), (''authority_state'', JStr ''unknown''),
      (''audit_state'', JStr ''incomplete''), (''durability_state'', JStr ''unknown''),
      (''operation_error_code'', JStr code), (''warnings'', JArr [])]"

definition journal_invalid :: "json option \<Rightarrow> bool" where
  "journal_invalid j = (case j of None \<Rightarrow> True | Some v \<Rightarrow> is_corrupt v)"

text \<open>The journal the inspection goes on with and its attempt: the one of the journal file, or else
  the immutable stage of the only candidate.\<close>

definition recovered_attempt :: "json option \<Rightarrow> string list \<Rightarrow> string \<Rightarrow> os \<Rightarrow> (json \<times> json) option" where
  "recovered_attempt j candidates txid s =
     (case (if journal_invalid j then None
            else case validate_attempt (get ''attempt'' (the j)) of Inl _ \<Rightarrow> None | Inr a \<Rightarrow> Some (the j, a)) of
        Some ja \<Rightarrow> Some ja
      | None \<Rightarrow>
          (case candidates of
             [c] \<Rightarrow> (case stage_evidence txid c s of
                 None \<Rightarrow> None | Some stage \<Rightarrow> Some (stage, get ''attempt'' stage))
           | _ \<Rightarrow> None))"

definition check_refute_journal ::
    "json \<Rightarrow> json \<Rightarrow> bool \<Rightarrow> string option \<Rightarrow> string option \<Rightarrow> string \<Rightarrow> os \<Rightarrow> unit res" where
  "check_refute_journal j attempt invalid candidate current txid s =
     (case candidate of
        None \<Rightarrow> Inr ()
      | Some c \<Rightarrow>
          if get ''operation'' attempt \<noteq> JStr ''refute'' then Inr ()
          else
            let stage = stage_evidence txid c s;
                resumable = stage = None \<and> \<not> invalid \<and> get ''stage'' j = JStr ''prepared'' \<and>
                  opt_str current = get ''base_revision'' attempt
            in ensure (resumable \<or>
                 (case stage of
                    None \<Rightarrow> False
                  | Some v \<Rightarrow> has_key ''refute_policy'' v \<and>
                      (invalid \<or> py_eq (get ''refute_policy'' j) (get ''refute_policy'' v))))
               (Exn TransactionError ''refute_content_hash_mismatch'' None))"

definition first_receipt :: "json option \<Rightarrow> (string \<Rightarrow> json option) \<Rightarrow> string list \<Rightarrow> json option" where
  "first_receipt found lookup ids = (case found of
     Some r \<Rightarrow> Some r
   | None \<Rightarrow> (case List.map_filter lookup ids of [] \<Rightarrow> None | r # _ \<Rightarrow> Some r))"

definition last_receipt :: "(string \<Rightarrow> json option) \<Rightarrow> string list \<Rightarrow> json option" where
  "last_receipt lookup ids =
     (case rev (List.map_filter lookup ids) of [] \<Rightarrow> None | r # _ \<Rightarrow> Some r)"

text \<open>The durability evidence: the receipts the journal names, else any valid one of the transaction,
  and a repair receipt, looked for only when one of the two is missing.\<close>

definition durability_of :: "json \<Rightarrow> json \<Rightarrow> string option \<Rightarrow> string \<Rightarrow> string \<Rightarrow> os \<Rightarrow> string" where
  "durability_of j attempt candidate rel txid s =
     (let receipt = (\<lambda>kind i. valid_receipt txid i attempt candidate kind s);
          data = receipt ''candidate-data-durable'' (get ''candidate_receipt'' j);
          cur = receipt ''current-durable'' (get ''current_receipt'' j);
          ids = (if data = None \<or> cur = None then receipt_ids txid s else []);
          data' = first_receipt data (\<lambda>i. receipt ''candidate-data-durable'' (JStr i)) ids;
          cur' = first_receipt cur (\<lambda>i. receipt ''current-durable'' (JStr i)) ids;
          repair = last_receipt (\<lambda>i. receipt ''repair'' (JStr i)) ids;
          linked = (case (cur', data') of
              (Some c, Some d) \<Rightarrow> get ''predecessor_receipt'' c = JStr (digest_json d) | _ \<Rightarrow> False);
          repaired = (\<lambda>kind. case repair of None \<Rightarrow> False | Some r \<Rightarrow> get ''repair_for_kind'' r = JStr kind)
      in if (if rel \<in> {''current'', ''ancestor''}
             then linked \<or> repaired ''current-durable''
             else data' \<noteq> None \<or> repaired ''candidate-data-durable'')
         then ''complete'' else ''incomplete'')"

definition str_option :: "json \<Rightarrow> string option" where
  "str_option v = (case v of JStr t \<Rightarrow> Some t | _ \<Rightarrow> None)"

definition inspect_attempt ::
    "json \<Rightarrow> json \<Rightarrow> bool \<Rightarrow> string list \<Rightarrow> string option \<Rightarrow> string \<Rightarrow> os \<Rightarrow> json res" where
  "inspect_attempt j attempt invalid candidates current txid s =
     (let candidate = (case get ''candidate'' j of
            JStr c \<Rightarrow> Some c | _ \<Rightarrow> (case candidates of [c] \<Rightarrow> Some c | _ \<Rightarrow> None));
          parent = (case get ''parent'' j of JStr p \<Rightarrow> Some p | _ \<Rightarrow> str_option (get ''base_revision'' attempt));
          rel = candidate_relation candidate current s;
          audited = \<not> invalid \<and> get ''stage'' j = JStr ''committed'' \<and>
            (get ''operation'' attempt = JStr ''initialize'' \<or>
             observed_log_complete j txid (opt_str candidate) s)
      in andthen (check_refute_journal j attempt invalid candidate current txid s) (\<lambda>_.
           make_outcome attempt
             \<lparr>parent_revision = parent, candidate_revision = candidate, current_observed = current,
              relation = rel, recorded = Some True,
              audit_state = (if audited then ''complete'' else ''incomplete''),
              durability_state = durability_of j attempt candidate rel txid s,
              operation_error = (if audited then None else Some ''audit_incomplete''), warnings = []\<rparr>))"

definition current_option :: "os \<Rightarrow> string option" where
  "current_option s = (case read_current s of Inl _ \<Rightarrow> None | Inr c \<Rightarrow> Some c)"

definition inspect_transaction :: "string \<Rightarrow> os \<Rightarrow> json res" where
  "inspect_transaction txid s =
     andthen (journal txid s) (\<lambda>j.
     andthen (manifest_candidates None txid s) (\<lambda>candidates.
       let current = current_option s in
       if length candidates > 1
       then Inr (outcome_unknown txid current (if journal_invalid j then None else Some True)
                   ''transaction_candidate_ambiguous'')
       else case recovered_attempt j candidates txid s of
           None \<Rightarrow> Inr (outcome_unknown txid current None ''transaction_evidence_missing_or_invalid'')
         | Some (evidence, attempt) \<Rightarrow>
             inspect_attempt evidence attempt (journal_invalid j) candidates current txid s))"

text \<open>What earlier executions of the transaction left, checked to be of the same attempt; \<open>None\<close> when
  there is nothing.\<close>

definition prior_evidence :: "context_map option \<Rightarrow> json \<Rightarrow> string \<Rightarrow> os \<Rightarrow> (string list \<times> json list \<times> json option) res" where
  "prior_evidence ctx checked txid s =
     andthen (journal txid s) (\<lambda>existing.
     andthen (manifest_candidates ctx txid s) (\<lambda>candidates.
     andthen (ensure (length candidates \<le> 1) (Exn TransactionError ''transaction_candidate_ambiguous'' None)) (\<lambda>_.
     andthen (stage_attempts txid s) (\<lambda>stages.
     let conflict = Exn TransactionError ''transaction_binding_conflict'' None in
     andthen (case existing of
          None \<Rightarrow> Inr stages
        | Some j \<Rightarrow>
            if \<not> is_corrupt j then
              andthen (ensure (get ''attempt'' j = checked) conflict) (\<lambda>_.
              andthen (validate_attempt (get ''attempt'' j)) (\<lambda>prior. Inr (stages @ [prior])))
            else if stages = [] \<and> candidates = [] then Inl evidence_invalid else Inr stages)
       (\<lambda>attempts.
     andthen (ensure (list_all (\<lambda>prior. prior = checked) attempts) conflict) (\<lambda>_.
     andthen (ensure (candidates = [] \<or> attempts \<noteq> []) evidence_invalid) (\<lambda>_.
       Inr (candidates, attempts, existing))))))))"

definition reconcile_attempt :: "json \<Rightarrow> os \<Rightarrow> (bool \<times> json option) res" where
  "reconcile_attempt attempt s =
     andthen (validate_attempt attempt) (\<lambda>checked.
     let txid = str_of (get ''transaction_id'' checked) in
     andthen (prior_evidence None checked txid s) (\<lambda>(candidates, attempts, existing).
       if existing \<noteq> None \<or> attempts \<noteq> [] \<or> candidates \<noteq> []
       then andthen (inspect_transaction txid s) (\<lambda>outcome. Inr (True, Some outcome))
       else Inr (False, None)))"

section \<open>Writing receipts\<close>

definition protected_file :: "string \<Rightarrow> string \<Rightarrow> json" where
  "protected_file path content =
     mk_obj [(''path'', JStr path), (''operation'', JStr ''file_fsync''), (''content_sha256'', JStr content)]"

definition protected_directory :: "string \<Rightarrow> json" where
  "protected_directory path =
     mk_obj [(''path'', JStr path), (''operation'', JStr ''directory_fsync''), (''content_sha256'', JNull)]"

definition transaction_error :: "string \<Rightarrow> exn" where
  "transaction_error code = Exn TransactionError code None"

definition check_receipt_item :: "os \<Rightarrow> json \<Rightarrow> unit res" where
  "check_receipt_item s item =
     (let content = get ''content_sha256'' item; operation = get ''operation'' item in
      checks
       [ensure (is_obj item \<and> same_keys item [''path'', ''operation'', ''content_sha256''])
          (transaction_error ''invalid_receipt_protected''),
        ensure (normal_path (get ''path'' item) s) (transaction_error ''invalid_receipt_path''),
        if operation = JStr ''file_fsync'' then
          checks [ensure (is_str content) (transaction_error ''invalid_receipt_content_hash''),
                  bare_digest_value content]
        else if operation = JStr ''directory_fsync'' then
          ensure (content = JNull) (transaction_error ''invalid_receipt_directory_hash'')
        else Inl (transaction_error ''invalid_receipt_operation'')])"

definition receipt_kinds :: "string list" where
  "receipt_kinds = [''candidate-data-durable'', ''current-durable'', ''repair'']"

definition check_receipt_request :: "string \<Rightarrow> string \<Rightarrow> string option \<Rightarrow> string option \<Rightarrow> unit res" where
  "check_receipt_request kind candidate predecessor repair_for =
     checks
       [ensure (kind \<in> set receipt_kinds) (transaction_error ''invalid_receipt_kind''),
        bare_digest_value (JStr candidate),
        when_ok (predecessor \<noteq> None) (bare_digest_value (opt_str predecessor)),
        ensure (repair_for \<in> {None, Some ''candidate-data-durable'', Some ''current-durable''})
          (transaction_error ''invalid_repair_kind''),
        ensure (kind \<noteq> ''candidate-data-durable'' \<or> predecessor = None \<and> repair_for = None)
          (transaction_error ''invalid_candidate_receipt_link''),
        ensure (kind \<noteq> ''current-durable'' \<or> predecessor \<noteq> None \<and> repair_for = None)
          (transaction_error ''invalid_current_receipt_link''),
        ensure (kind \<noteq> ''repair'' \<or> repair_for \<noteq> None) (transaction_error ''invalid_repair_receipt_link'')]"

definition receipt_object :: "json \<Rightarrow> string \<Rightarrow> string \<Rightarrow> string option \<Rightarrow> string option \<Rightarrow> json list \<Rightarrow> json" where
  "receipt_object attempt kind candidate predecessor repair_for ordered = mk_obj
     [(''schema'', JStr ''an-kla/durability-receipt-v1''), (''kind'', JStr kind),
      (''transaction_id'', get ''transaction_id'' attempt),
      (''execution_fingerprint'', get ''execution_fingerprint'' attempt),
      (''candidate_revision'', JStr candidate), (''predecessor_receipt'', opt_str predecessor),
      (''repair_for_kind'', opt_str repair_for), (''protected'', JArr ordered)]"

definition write_receipt ::
    "json \<Rightarrow> string \<Rightarrow> string \<Rightarrow> json list \<Rightarrow> string option \<Rightarrow> string option \<Rightarrow> string io" where
  "write_receipt attempt kind candidate protected predecessor repair_for =
     bind_io (lift (validate_attempt attempt)) (\<lambda>checked.
     bind_io (lift (check_receipt_request kind candidate predecessor repair_for)) (\<lambda>_.
     bind_io (asks (\<lambda>s. each (check_receipt_item s) protected)) (\<lambda>_.
     let ordered = sort_key protected_key protected in
     bind_io (lift (ensure (distinct (map protected_key ordered)) (transaction_error ''duplicate_receipt_path''))) (\<lambda>_.
     bind_io (sync_protected ordered) (\<lambda>_.
       write_json_object (receipts_kind (str_of (get ''transaction_id'' checked)))
         (receipt_object checked kind candidate predecessor repair_for ordered))))))"

section \<open>What a committed outcome says about the store\<close>

definition reachable_from :: "string \<Rightarrow> string \<Rightarrow> os \<Rightarrow> bool" where
  "reachable_from c r s \<longleftrightarrow>
     c = r \<or> (case walk_revisions s r of Inl _ \<Rightarrow> False | Inr nodes \<Rightarrow> c \<in> set (map fst nodes))"

lemma candidate_relation_reachable:
  assumes "candidate_relation candidate current s \<in> {''current'', ''ancestor''}"
  shows "\<exists>c r. candidate = Some c \<and> current = Some r \<and> reachable_from c r s"
proof -
  obtain c r where cr: "candidate = Some c" "current = Some r"
    using assms by (auto simp: candidate_relation_def split: option.splits)
  show ?thesis
  proof (cases "c = r")
    case False
    then obtain rel where rel: "lineage_relation c r s = Inr rel" "rel \<in> {''current'', ''ancestor''}"
      using assms cr by (auto simp: candidate_relation_def split: sum.splits)
    then obtain nodes where "walk_revisions s r = Inr nodes" "c \<in> set (map fst nodes)"
      by (auto simp: lineage_relation_def split: if_splits)
    then show ?thesis using cr by (simp add: reachable_from_def)
  qed (simp add: cr reachable_from_def)
qed

lemma outcome_object_committed:
  "get ''committed'' (outcome_object txid e) = JBool True \<longleftrightarrow> relation e \<in> {''current'', ''ancestor''}"
  by (simp add: outcome_object_def outcome_authority_def Let_def)

lemma outcome_object_candidate:
  "get ''candidate_revision'' (outcome_object txid e) = opt_str (candidate_revision e)"
  "get ''transaction_id'' (outcome_object txid e) = txid"
  by (simp_all add: outcome_object_def Let_def split: prod.splits)

lemma make_outcomeD:
  "make_outcome attempt e = Inr out \<Longrightarrow> out = outcome_object (get ''transaction_id'' attempt) e"
  by (auto simp: make_outcome_def validate_attempt_iff)

lemma outcome_unknown_not_committed: "get ''committed'' (outcome_unknown txid current known code) = JNull"
  by (simp add: outcome_unknown_def)

lemma inspect_attempt_committed:
  assumes run: "inspect_attempt j attempt invalid candidates current txid s = Inr out"
    and yes: "get ''committed'' out = JBool True"
  shows "\<exists>c r. get ''candidate_revision'' out = JStr c \<and> current = Some r \<and> reachable_from c r s"
proof -
  obtain e where out: "out = outcome_object (get ''transaction_id'' attempt) e"
    and rel: "relation e = candidate_relation (candidate_revision e) current s"
    using run by (auto simp: inspect_attempt_def Let_def dest!: make_outcomeD)
  then have "relation e \<in> {''current'', ''ancestor''}" using yes outcome_object_committed by simp
  from candidate_relation_reachable[OF this[unfolded rel]] show ?thesis
    unfolding out outcome_object_candidate by auto
qed

lemma inspect_transaction_reachable:
  assumes run: "inspect_transaction txid s = Inr out" and yes: "get ''committed'' out = JBool True"
  shows "\<exists>c r. get ''candidate_revision'' out = JStr c \<and> read_current s = Inr r \<and> reachable_from c r s"
proof -
  obtain evidence attempt invalid candidates where
    "inspect_attempt evidence attempt invalid candidates (current_option s) txid s = Inr out"
    using run yes by (auto simp: inspect_transaction_def Let_def outcome_unknown_not_committed
        split: if_splits option.splits)
  from inspect_attempt_committed[OF this yes] show ?thesis
    by (auto simp: current_option_def split: sum.splits)
qed

text \<open>C15: The inspection of a transaction reports it as committed only when \<open>CURRENT\<close> can be read
  and the candidate it names is the revision there or one of the ancestors a walk from there meets.\<close>

theorem inspected_commit_reachable:
  "case inspect_transaction txid s of
     Inl _ \<Rightarrow> True
   | Inr out \<Rightarrow>
       if get ''committed'' out = JBool True
       then \<exists>c r. get ''candidate_revision'' out = JStr c \<and> read_current s = Inr r \<and> reachable_from c r s
       else True"
proof (cases "inspect_transaction txid s")
  case (Inr out)
  then show ?thesis using inspect_transaction_reachable[OF Inr] by simp
qed simp

section \<open>A receipt for CURRENT validates\<close>

lemma stored_under:
  assumes "bytes_at (d @ ''/'' @ x) s = Some b"
  shows "is_dir d s"
proof -
  have "(d @ ''/'' @ x, b) \<in> set (files s)" using assms by (auto simp: bytes_at_def dest: map_of_SomeD)
  then show ?thesis by (auto simp: is_dir_def list_ex_iff under_def intro!: bexI[where x = "(d @ ''/'' @ x, b)"])
qed

text \<open>The pair of entries that protects \<open>CURRENT\<close>.\<close>

definition current_entries :: "string \<Rightarrow> json list" where
  "current_entries d = [protected_directory ''refs'', protected_file current_path d]"

lemma current_entries_sorted:
  "sort_key protected_key [protected_file current_path d, protected_directory ''refs''] = current_entries d"
proof -
  have "protected_key (protected_directory ''refs'') \<le> protected_key (protected_file current_path d)"
    by (simp add: protected_key_def protected_directory_def protected_file_def current_path_def less_eq_list_code)
  moreover have "\<not> protected_key (protected_file current_path d) \<le> protected_key (protected_directory ''refs'')"
    by (simp add: protected_key_def protected_directory_def protected_file_def current_path_def less_eq_list_code)
  ultimately show ?thesis by (simp add: current_entries_def)
qed

lemma valid_attempt_fields:
  assumes "validate_attempt a = Inr b"
  obtains txid e where "b = a" "get ''transaction_id'' a = JStr txid" "uuid_shape txid"
    "get ''execution_fingerprint'' a = JStr e" "digest_shape e"
proof -
  obtain operation txid bound where b: "b = a" and t: "uuid_shape txid" and f: "operation_fields operation bound"
    and a: "a = attempt_of (attempt_core operation txid bound)"
    using assms unfolding validate_attempt_iff by blast
  from f have "get ''execution_fingerprint'' a = JStr (digest_json (attempt_core operation txid bound))"
    by (cases rule: operation_fieldsE) (simp_all add: a attempt_of_def attempt_core_def)
  then show ?thesis using that b t get_attempt(2)[OF f] unfolding a by simp
qed

lemma storable_current_receipt:
  assumes "validate_attempt attempt = Inr checked" and "digest_shape c" "digest_shape p" "digest_shape d"
  shows "storable (receipt_object checked ''current-durable'' c (Some p) None (current_entries d))"
proof -
  obtain txid e where t: "checked = attempt" "get ''transaction_id'' attempt = JStr txid" "uuid_shape txid"
    "get ''execution_fingerprint'' attempt = JStr e" "digest_shape e"
    by (rule valid_attempt_fields[OF assms(1)])
  have "storable (protected_directory ''refs'')" "storable (protected_file current_path d)"
    using assms(4) unfolding protected_directory_def protected_file_def
    by (auto intro!: storable_mk_obj simp: current_path_def valid_utf8_ascii)
  then have "storable (JArr (current_entries d))" by (simp add: current_entries_def)
  then show ?thesis
    using t assms valid_utf8_uuid[of txid] unfolding receipt_object_def
    by (auto intro!: storable_mk_obj simp: valid_utf8_ascii)
qed

lemma folder_current [simp]: "folder current_path = ''refs''"
  by code_simp

lemma current_receipt_reads:
  assumes protects: "bytes_at current_path t = Some b" "d = digest_bytes b"
    and nfc: "is_nfc t current_path" "is_nfc t ''refs''"
    and attempt: "validate_attempt attempt = Inr checked" and txid: "get ''transaction_id'' attempt = JStr txid"
    and shapes: "digest_shape c" "digest_shape p" "digest_shape d"
    and reads: "read_json_object (receipts_kind txid) i t =
      Inr (receipt_object checked ''current-durable'' c (Some p) None (current_entries d))"
  shows "validate_receipt_evidence txid i attempt (Some c) ''current-durable'' rel t =
      Inr (receipt_object checked ''current-durable'' c (Some p) None (current_entries d))"
proof -
  let ?v = "receipt_object checked ''current-durable'' c (Some p) None (current_entries d)"
  have checked: "checked = attempt" by (rule valid_attempt_fields[OF attempt])
  have keys: "is_obj ?v" "same_keys ?v receipt_keys"
    by (simp_all add: receipt_object_def receipt_keys_def same_keys_iff)
  have fields: "get ''schema'' ?v = JStr ''an-kla/durability-receipt-v1''" "get ''kind'' ?v = JStr ''current-durable''"
    "get ''transaction_id'' ?v = JStr txid" "get ''execution_fingerprint'' ?v = get ''execution_fingerprint'' attempt"
    "get ''candidate_revision'' ?v = JStr c" "get ''predecessor_receipt'' ?v = JStr p"
    "get ''repair_for_kind'' ?v = JNull" "get ''protected'' ?v = JArr (current_entries d)"
    by (simp_all add: receipt_object_def checked txid)
  have dir: "check_protected rel t (protected_directory ''refs'') = Inr ()"
    using nfc(2) stored_under[of "''refs''" "''CURRENT''" t b] protects(1)
    by (simp add: check_protected_def protected_directory_def normal_path_def Let_def current_path_def checks.simps(2)
        same_keys_iff)
  have entry: "check_protected rel t (protected_file current_path d) = Inr ()"
    using nfc(1) protects shapes(3)
    by (simp add: check_protected_def protected_file_def normal_path_def Let_def current_path_def checks.simps(2)
        same_keys_iff)
  have sorted: "sorted (map protected_key (current_entries d))" "distinct (map protected_key (current_entries d))"
    using sorted_sort_key[of protected_key] current_entries_sorted[of d]
    by (metis, simp add: current_entries_def protected_key_def protected_directory_def protected_file_def current_path_def)
  have cover: "check_coverage (current_entries d) [current_path] = Inr ()"
    by (simp add: check_coverage_def current_entries_def paths_of_def protected_directory_def protected_file_def
        same_set_def checks.simps(2))
  show ?thesis
    using reads keys fields dir entry sorted cover shapes
    by (simp add: validate_receipt_evidence_def Let_def check_receipt_link_def expected_files_def checks.simps(2)
        current_entries_def)
qed

lemma write_receipt_current:
  assumes run: "write_receipt attempt ''current-durable'' c [protected_file current_path d, protected_directory ''refs'']
      (Some p) None s = (Inr i, t)"
    and txid: "get ''transaction_id'' attempt = JStr txid"
  shows "validate_receipt_evidence txid i attempt (Some c) ''current-durable'' rel t =
    Inr (receipt_object attempt ''current-durable'' c (Some p) None (current_entries d))"
proof -
  let ?items = "[protected_file current_path d, protected_directory ''refs'']"
  obtain checked where v: "validate_attempt attempt = Inr checked"
    and request: "check_receipt_request ''current-durable'' c (Some p) None = Inr ()"
    and items: "each (check_receipt_item s) ?items = Inr ()"
    and rest: "bind_io (sync_protected (current_entries d)) (\<lambda>_.
       write_json_object (receipts_kind (str_of (get ''transaction_id'' checked)))
         (receipt_object checked ''current-durable'' c (Some p) None (current_entries d))) s = (Inr i, t)"
    using run[unfolded write_receipt_def Let_def current_entries_sorted]
    by (auto simp: bind_io_def lift_def asks_def split: sum.splits)
  have checked: "checked = attempt" by (rule valid_attempt_fields[OF v])
  obtain s1 where sync: "sync_protected (current_entries d) s = (Inr (), s1)"
    and w: "write_json_object (receipts_kind txid)
         (receipt_object attempt ''current-durable'' c (Some p) None (current_entries d)) s1 = (Inr i, t)"
    using rest txid checked by (auto simp: bind_io_def split: sum.splits prod.splits)
  have shapes: "digest_shape c" "digest_shape p" using request by (auto simp: check_receipt_request_def)
  have d: "digest_shape d" "is_nfc s current_path" "is_nfc s ''refs''"
    using items by (auto simp: check_receipt_item_def Let_def same_keys_iff protected_file_def protected_directory_def
        normal_path_def)
  note keep = sync_protected_spec[OF sync]
  have kind: "\<not> prefix ''quarantine'' (receipts_kind txid)" by (simp add: receipts_kind_def)
  have "list_all (protects s1) (filter is_protected_file (current_entries d))" using keep by blast
  then obtain b where b: "bytes_at current_path s1 = Some b" "d = digest_bytes b"
    by (auto simp: current_entries_def is_protected_file_def protected_file_def protected_directory_def
        protects_def split: option.splits)
  have "same_on (\<lambda>q. q = current_path) s1 t"
    by (rule same.keepsD[OF same.keeps_write_json_object w])
      (auto simp: receipts_kind_def current_path_def)
  then have at: "bytes_at current_path t = Some b" using b by (simp add: same_on_def)
  have "onward s s1" by (rule onward.keepsD[OF onward.keeps_sync_protected sync])
  moreover have "onward s1 t" by (rule onward.keepsD[OF onward.keeps_write_json_object w]) simp_all
  ultimately have nfc: "is_nfc t = is_nfc s" by (simp add: onward_def)
  have st: "storable (receipt_object attempt ''current-durable'' c (Some p) None (current_entries d))"
    using storable_current_receipt[OF v shapes d(1)] checked by simp
  note reads = stored_object_reads[OF st kind w, THEN conjunct2]
  show ?thesis
    using current_receipt_reads[OF at b(2) _ _ v txid shapes d(1), of i rel] reads d(2,3) nfc checked by simp
qed

lemma write_receipt_frame:
  assumes run: "write_receipt attempt kind c items p r0 s = (r, t)"
  shows "same_on (\<lambda>q. \<not> under (receipts_kind (str_of (get ''transaction_id'' attempt))) q \<and> \<not> under ''quarantine'' q) s t"
    (is "same_on ?P s t")
proof -
  have "same.keeps ?P (write_json_object (receipts_kind (str_of (get ''transaction_id'' attempt))) v)" for v
    by (rule same.keeps_write_json_object) (auto simp: under_def)
  then have "same.keeps ?P (write_receipt attempt kind c items p r0)"
    unfolding write_receipt_def Let_def
    by (intro same.keeps_lift_bind same.keeps_bind same.keeps_readers same.keeps_sync_protected)
      (auto elim: valid_attempt_fields)
  then show ?thesis using run by (rule same.keepsD)
qed

text \<open>C16: A receipt written for the new \<open>CURRENT\<close> is evidence: whatever calls failed, when the write
  reports success the receipt validates at once, in whatever relation the candidate stands; and
  no file outside the receipts of the transaction and the quarantine has changed.\<close>

theorem current_receipt_validates:
  "case write_receipt attempt ''current-durable'' c
     [protected_file current_path d, protected_directory ''refs''] (Some p) None s of (r, t) \<Rightarrow>
   (let txid = str_of (get ''transaction_id'' attempt) in
    same_on (\<lambda>q. \<not> under (receipts_kind txid) q \<and> \<not> under ''quarantine'' q) s t \<and>
    (case r of
       Inl _ \<Rightarrow> True
     | Inr i \<Rightarrow> validate_receipt_evidence txid i attempt (Some c) ''current-durable'' rel t =
         Inr (receipt_object attempt ''current-durable'' c (Some p) None
           [protected_directory ''refs'', protected_file current_path d])))"
proof (cases "write_receipt attempt ''current-durable'' c
    [protected_file current_path d, protected_directory ''refs''] (Some p) None s")
  case (Pair r t)
  note frame = write_receipt_frame[OF Pair]
  have "validate_receipt_evidence (str_of (get ''transaction_id'' attempt)) i attempt (Some c) ''current-durable'' rel t =
      Inr (receipt_object attempt ''current-durable'' c (Some p) None
           [protected_directory ''refs'', protected_file current_path d])" if ok: "r = Inr i" for i
  proof -
    obtain checked where v: "validate_attempt attempt = Inr checked"
      using Pair ok by (auto simp: write_receipt_def bind_io_def lift_def split: sum.splits)
    obtain txid where "get ''transaction_id'' attempt = JStr txid" by (rule valid_attempt_fields[OF v])
    then show ?thesis
      using write_receipt_current[OF Pair[unfolded ok]] by (simp add: current_entries_def)
  qed
  then show ?thesis using Pair frame by (simp add: Let_def split: sum.splits)
qed

end
