(* ===== verification/RefuteContracts.thy ===== *)
theory RefuteContracts
  imports CheckpointPolicy
begin

text \<open>
  \<open>refute_contracts.py\<close>: the closed JSON contracts of governed refutation. A validator returns a
  copy of its argument; here it returns whether it accepts, and its callers go on with the value.
\<close>

abbreviation rpe :: "string \<Rightarrow> string \<Rightarrow> exn" where
  "rpe code detail \<equiv> Exn RefutePolicyError code (Some detail)"

definition streams :: "string list" where
  "streams = [''facts'', ''events'', ''episodes'']"

definition AUTHORITY_CLASSES :: "string list" where
  "AUTHORITY_CLASSES =
     [''tool_observed'', ''channel_confirmed'', ''model_derived'', ''derived_from_retrieval'', ''unresolved'']"

definition PRIVILEGED :: "string list" where
  "PRIVILEGED = [''channel_confirmed'', ''tool_observed'']"

definition REASONS :: "string list" where
  "REASONS = [''evidence_contradicts_record'', ''source_retracted'', ''integrity_violation'']"

text \<open>\<open>PROFILE\<close>: a lower-case name, a slash, \<open>v\<close> and a number without leading zero.\<close>

definition is_profile :: "string \<Rightarrow> bool" where
  "is_profile t \<longleftrightarrow>
     (let name = takeWhile (\<lambda>c. c \<noteq> CHR ''/'') t; rest = dropWhile (\<lambda>c. c \<noteq> CHR ''/'') t in
      length t \<le> 128 \<and>
      (case name of
         [] \<Rightarrow> False
       | c # cs \<Rightarrow> is_lower c \<and> length cs \<le> 63 \<and>
           list_all (\<lambda>d. is_lower d \<or> is_digit d \<or> d = CHR ''-'') cs) \<and>
      prefix ''/v'' rest \<and>
      (case drop 2 rest of
         [] \<Rightarrow> False
       | d # ds \<Rightarrow> is_digit d \<and> d \<noteq> CHR ''0'' \<and> length ds \<le> 9 \<and> list_all is_digit ds))"

definition exact :: "json \<Rightarrow> string list \<Rightarrow> string \<Rightarrow> string \<Rightarrow> unit res" where
  "exact value keys code detail = ensure (is_obj value \<and> same_keys value keys) (rpe code detail)"

definition digest_field :: "json \<Rightarrow> string \<Rightarrow> string \<Rightarrow> unit res" where
  "digest_field value code detail = ensure (is_digest value) (rpe code detail)"

definition profile_field :: "json \<Rightarrow> string \<Rightarrow> string \<Rightarrow> unit res" where
  "profile_field value code detail =
     ensure (is_str value \<and> is_profile (str_of value)) (rpe code detail)"

definition validate_refute_proposal :: "json \<Rightarrow> unit res" where
  "validate_refute_proposal value =
     (let code = ''invalid_refute_proposal'' in
      checks
       [exact value [''schema'', ''base_revision'', ''stream'', ''target_record_sha256'', ''reason''] code ''shape'',
        ensure (get ''schema'' value = JStr ''an-kla/refute-proposal-v1'' \<and> str_in (get ''stream'' value) streams)
          (rpe code ''schema_or_stream''),
        digest_field (get ''base_revision'' value) code ''base_revision'',
        digest_field (get ''target_record_sha256'' value) code ''target_record_sha256'',
        ensure (str_in (get ''reason'' value) REASONS) (rpe code ''reason'')])"

section \<open>Claims\<close>

text \<open>The one digest an evidence of each kind carries; the kinds are looked up in sets, so that a
  list or a dict for a kind raises \<open>TypeError\<close>.\<close>

definition evidence_field :: "json \<Rightarrow> string option" where
  "evidence_field kind =
     (if str_in kind [''fact'', ''event'', ''episode''] then Some ''record_sha256''
      else if kind = JStr ''revision'' then Some ''revision_sha256''
      else if str_in kind [''artifact'', ''external''] then Some ''content_sha256''
      else None)"

definition validate_refute_evidence :: "json \<Rightarrow> string \<Rightarrow> unit res" where
  "validate_refute_evidence value code =
     (let kind = get ''kind'' value in
      checks
       [ensure (is_obj value) (rpe code ''evidence''),
        ensure (hashable kind) (Exn TypeError ''unhashable type'' None),
        (case evidence_field kind of
           None \<Rightarrow> Inl (rpe code ''evidence.kind'')
         | Some field \<Rightarrow>
             checks [exact value [''kind'', field] code ''evidence'',
                     digest_field (get field value) code (''evidence.'' @ field)])])"

definition check_issuer :: "json \<Rightarrow> string \<Rightarrow> string \<Rightarrow> unit res \<Rightarrow> unit res" where
  "check_issuer issuer code path check_kind =
     checks
       [exact issuer [''kind'', ''subject_sha256'', ''configuration_fingerprint''] code path,
        check_kind,
        digest_field (get ''subject_sha256'' issuer) code (path @ ''.subject_sha256''),
        digest_field (get ''configuration_fingerprint'' issuer) code (path @ ''.configuration_fingerprint'')]"

definition check_claim_evidence :: "json \<Rightarrow> string \<Rightarrow> unit res" where
  "check_claim_evidence evidence code =
     (let items = list_items evidence in
      checks
       [ensure (is_arr evidence \<and> 1 \<le> length items \<and> length items \<le> 16) (rpe code ''evidence''),
        each (\<lambda>item. validate_refute_evidence item code) items,
        ensure (items = sort_key canonical_json items \<and> distinct (map canonical_json items))
          (rpe code ''evidence.order_or_duplicate'')])"

definition validate_claim :: "json \<Rightarrow> unit res" where
  "validate_claim value =
     (let code = ''invalid_refute_authority_claim''; issuer = get ''issuer_claim'' value;
          scope = get ''scope'' value
      in checks
       [exact value [''schema'', ''proposal_sha256'', ''base_revision'', ''requested_authority_class'',
                     ''issuer_claim'', ''evidence'', ''scope''] code ''shape'',
        ensure (get ''schema'' value = JStr ''an-kla/refute-authority-claim-v1'') (rpe code ''schema''),
        digest_field (get ''proposal_sha256'' value) code ''proposal_sha256'',
        digest_field (get ''base_revision'' value) code ''base_revision'',
        ensure (str_in (get ''requested_authority_class'' value) AUTHORITY_CLASSES)
          (rpe code ''requested_authority_class''),
        check_issuer issuer code ''issuer_claim''
          (ensure_in (get ''kind'' issuer) [''tool'', ''channel'', ''model'', ''resolver'', ''unknown'']
             (rpe code ''issuer_claim.kind'')),
        check_claim_evidence (get ''evidence'' value) code,
        exact scope [''operation'', ''stream'', ''target_record_sha256''] code ''scope'',
        ensure (get ''operation'' scope = JStr ''refute'' \<and> str_in (get ''stream'' scope) streams)
          (rpe code ''scope''),
        digest_field (get ''target_record_sha256'' scope) code ''scope.target_record_sha256''])"

section \<open>Observations\<close>

definition validate_descriptor :: "json \<Rightarrow> string \<Rightarrow> unit res" where
  "validate_descriptor value code =
     checks
       [exact value [''profile'', ''subject_sha256'', ''configuration_fingerprint''] code ''resolver'',
        profile_field (get ''profile'' value) code ''resolver.profile'',
        digest_field (get ''subject_sha256'' value) code ''resolver.subject_sha256'',
        digest_field (get ''configuration_fingerprint'' value) code ''resolver.configuration_fingerprint'']"

definition is_external :: "json \<Rightarrow> bool" where
  "is_external evidence \<longleftrightarrow> str_in (get ''kind'' evidence) [''artifact'', ''external'']"

definition evidence_digest :: "json \<Rightarrow> json" where
  "evidence_digest item =
     (case evidence_field (get ''kind'' item) of Some field \<Rightarrow> get field item | None \<Rightarrow> JNull)"

definition check_observation :: "string \<Rightarrow> json \<times> json \<Rightarrow> unit res" where
  "check_observation code = (\<lambda>(raw, evidence).
     let resolution = get ''store_resolution'' raw; observed = get ''observed_sha256'' raw in
     checks
       [exact raw [''schema'', ''evidence'', ''store_resolution'', ''observed_sha256''] code ''observation'',
        ensure (get ''schema'' raw = JStr ''an-kla/refute-observation-v1'' \<and> get ''evidence'' raw = evidence)
          (rpe code ''observation.binding''),
        if is_external evidence
        then ensure (resolution = JStr ''unavailable'' \<and> observed = JNull) (rpe code ''observation.external'')
        else if resolution = JStr ''present''
        then ensure (observed = evidence_digest evidence) (rpe code ''observation.present'')
        else ensure (resolution = JStr ''missing'' \<and> observed = JNull) (rpe code ''observation.missing'')])"

definition validate_observations :: "json \<Rightarrow> json \<Rightarrow> unit res" where
  "validate_observations value claim =
     (let code = ''invalid_refute_attestation''; items = get ''items'' value;
          evidence = list_items (get ''evidence'' claim)
      in checks
       [exact value [''schema'', ''base_revision'', ''items''] code ''observations'',
        ensure (get ''schema'' value = JStr ''an-kla/refute-observations-v1'' \<and>
                get ''base_revision'' value = get ''base_revision'' claim) (rpe code ''observations.binding''),
        ensure (is_arr items \<and> length (list_items items) = length evidence) (rpe code ''observations.items''),
        each (check_observation code) (zip (list_items items) evidence)])"

section \<open>Attestations\<close>

definition check_resolution :: "string \<Rightarrow> json \<times> json \<times> json \<Rightarrow> unit res" where
  "check_resolution code = (\<lambda>(resolution, evidence, observation).
     checks
       [ensure (resolution = update_obj evidence
                  [(''resolution'', JStr ''verified''), (''observation_sha256'', JStr (digest_json observation))])
          (rpe code ''evidence_resolutions.binding''),
        ensure (is_external evidence \<or> get ''store_resolution'' observation = JStr ''present'')
          (rpe code ''evidence_resolutions.missing'')])"

definition check_attestation_binding :: "json \<Rightarrow> json \<Rightarrow> json \<Rightarrow> json \<Rightarrow> json \<Rightarrow> string \<Rightarrow> unit res" where
  "check_attestation_binding value proposal claim observations descriptor code =
     ensure
       (get ''schema'' value = JStr ''an-kla/refute-authority-attestation-v1'' \<and>
        get ''proposal_sha256'' value = JStr (digest_json proposal) \<and>
        get ''authority_claim_sha256'' value = JStr (digest_json claim) \<and>
        get ''base_revision'' value = get ''base_revision'' proposal \<and>
        py_eq (get ''resolver'' value) descriptor \<and>
        get ''observations_sha256'' value = JStr (digest_json observations) \<and>
        get ''scope'' value = get ''scope'' claim \<and>
        get ''authority_class'' value = get ''requested_authority_class'' claim)
       (rpe code ''binding'')"

definition validate_attestation :: "json \<Rightarrow> json \<Rightarrow> json \<Rightarrow> json \<Rightarrow> json \<Rightarrow> unit res" where
  "validate_attestation value proposal claim observations descriptor =
     (let code = ''invalid_refute_attestation''; issuer = get ''issuer'' value;
          resolutions = get ''evidence_resolutions'' value; evidence = list_items (get ''evidence'' claim);
          proof_object = get ''proof'' value
      in checks
       [exact value [''schema'', ''proposal_sha256'', ''authority_claim_sha256'', ''base_revision'',
                     ''resolver'', ''authority_class'', ''issuer'', ''observations_sha256'',
                     ''evidence_resolutions'', ''scope'', ''proof''] code ''shape'',
        check_attestation_binding value proposal claim observations descriptor code,
        validate_descriptor (get ''resolver'' value) code,
        ensure (str_in (get ''authority_class'' value) PRIVILEGED) (rpe code ''authority_class''),
        check_issuer issuer code ''issuer''
          (ensure (get ''kind'' issuer =
                   JStr (if get ''authority_class'' value = JStr ''tool_observed'' then ''tool'' else ''channel''))
             (rpe code ''issuer.kind'')),
        ensure (is_arr resolutions \<and> length (list_items resolutions) = length evidence)
          (rpe code ''evidence_resolutions''),
        each (check_resolution code)
          (zip (list_items resolutions) (zip evidence (list_items (get ''items'' observations)))),
        exact proof_object [''profile'', ''proof_sha256''] code ''proof'',
        profile_field (get ''profile'' proof_object) code ''proof.profile'',
        digest_field (get ''proof_sha256'' proof_object) code ''proof.proof_sha256'',
        ensure (py_eq (get ''profile'' proof_object) (get ''profile'' descriptor)) (rpe code ''proof.profile'')])"

end
