(* ===== verification/RefutePolicy.thy ===== *)
theory RefutePolicy
  imports RefuteContracts
begin

text \<open>
  \<open>refute_policy.py\<close>: the decision on a governed refutation and its plan. The authority resolver is
  a capability the caller passes in: a parameter with a descriptor and two functions. Plans are
  compared with what the policy rebuilds; what it rebuilds holds strings and \<open>None\<close> only, so that
  Python's \<open>==\<close> with it is equality.
\<close>

record resolver =
  descriptor :: json
  resolve :: "json \<Rightarrow> json \<Rightarrow> json \<Rightarrow> json res"
  verify :: "json \<Rightarrow> json \<Rightarrow> json \<Rightarrow> json \<Rightarrow> json res"

definition refute_config :: json where
  "refute_config = mk_obj
     [(''schema'', JStr ''an-kla/refute-policy-config-v1''), (''profile'', JStr ''refute-policy/v1''),
      (''supported_operations'', strs [''refute'']),
      (''allowed_authority_classes'', strs [''channel_confirmed'', ''tool_observed'']),
      (''evidence_kinds'', strs [''artifact'', ''event'', ''fact'', ''episode'', ''revision'', ''external'']),
      (''reason_codes'', strs
         [''authority_scope_mismatch'', ''refute_accepted'', ''refute_authority_resolver_unavailable'',
          ''refute_requires_privileged_authority'', ''verified_evidence_required'']),
      (''terminal_error_codes'', strs
         [''invalid_refute_attestation'', ''invalid_refute_authority_claim'', ''invalid_refute_decision'',
          ''invalid_refute_plan'', ''invalid_refute_planning_result'', ''invalid_refute_proposal'',
          ''invalid_refute_target'', ''lifecycle_chain_invalid'', ''lifecycle_chain_limit_exceeded'',
          ''refute_content_hash_mismatch'', ''refute_plan_base_changed'',
          ''refute_policy_fingerprint_mismatch'', ''revision_schema_downgrade'',
          ''revision_transition_invalid'']),
      (''overlay_format'', JStr ''refutations/v1''), (''revision_schema'', JStr ''an-kla/revision-v2''),
      (''resolver_required'', JBool True)]"

definition refute_policy_fingerprint :: string where
  "refute_policy_fingerprint = digest_json refute_config"

definition attestation_id :: "json option \<Rightarrow> json" where
  "attestation_id attestation =
     (case attestation of None \<Rightarrow> JNull | Some a \<Rightarrow> JStr (digest_json a))"

definition refute_decision :: "json \<Rightarrow> json \<Rightarrow> string \<Rightarrow> string \<Rightarrow> json option \<Rightarrow> json" where
  "refute_decision proposal claim decision reason attestation = mk_obj
     [(''schema'', JStr ''an-kla/refute-decision-v1''), (''proposal_sha256'', JStr (digest_json proposal)),
      (''authority_claim_sha256'', JStr (digest_json claim)),
      (''authority_attestation_id'', attestation_id attestation),
      (''policy_profile'', JStr ''refute-policy/v1''),
      (''policy_fingerprint'', JStr refute_policy_fingerprint),
      (''decision'', JStr decision), (''reason_codes'', JArr [JStr reason])]"

definition refute_scope :: "json \<Rightarrow> json" where
  "refute_scope proposal = mk_obj
     [(''operation'', JStr ''refute''), (''stream'', get ''stream'' proposal),
      (''target_record_sha256'', get ''target_record_sha256'' proposal)]"

definition scope_matches :: "json \<Rightarrow> json \<Rightarrow> bool" where
  "scope_matches proposal claim \<longleftrightarrow>
     get ''proposal_sha256'' claim = JStr (digest_json proposal) \<and>
     get ''base_revision'' claim = get ''base_revision'' proposal \<and>
     get ''scope'' claim = refute_scope proposal"

text \<open>Every piece of evidence the store can hold was observed to be present.\<close>

definition evidence_present :: "json \<Rightarrow> json \<Rightarrow> bool" where
  "evidence_present claim observations \<longleftrightarrow>
     list_all (\<lambda>(evidence, observation).
         is_external evidence \<or> get ''store_resolution'' observation = JStr ''present'')
       (zip (list_items (get ''evidence'' claim)) (list_items (get ''items'' observations)))"

definition refute_skip :: "json \<Rightarrow> json \<Rightarrow> string \<Rightarrow> json \<times> json option" where
  "refute_skip proposal claim reason = (refute_decision proposal claim ''skip'' reason None, None)"

definition consult_resolver :: "resolver \<Rightarrow> json \<Rightarrow> json \<Rightarrow> json \<Rightarrow> (json \<times> json option) res" where
  "consult_resolver r proposal claim observations =
     andthen (resolve r proposal claim observations) (\<lambda>raw.
       if raw = JNull then Inr (refute_skip proposal claim ''verified_evidence_required'')
       else
         andthen (validate_attestation raw proposal claim observations (descriptor r)) (\<lambda>_.
         andthen (verify r raw proposal claim observations) (\<lambda>verdict.
           if verdict \<noteq> JBool True
           then Inl (rpe ''invalid_refute_attestation'' ''resolver_verification_failed'')
           else Inr (refute_decision proposal claim ''refute'' ''refute_accepted'' (Some raw), Some raw))))"

definition evaluate_refute :: "json \<Rightarrow> json \<Rightarrow> json \<Rightarrow> resolver option \<Rightarrow> (json \<times> json option) res" where
  "evaluate_refute proposal claim observations capability =
     andthen (checks [validate_refute_proposal proposal, validate_claim claim,
                      validate_observations observations claim])
       (\<lambda>_. if \<not> scope_matches proposal claim
             then Inr (refute_skip proposal claim ''authority_scope_mismatch'')
             else if \<not> str_in (get ''requested_authority_class'' claim) PRIVILEGED
             then Inr (refute_skip proposal claim ''refute_requires_privileged_authority'')
             else case capability of
                 None \<Rightarrow> Inr (refute_skip proposal claim ''refute_authority_resolver_unavailable'')
               | Some r \<Rightarrow>
                   if \<not> evidence_present claim observations
                   then Inr (refute_skip proposal claim ''verified_evidence_required'')
                   else consult_resolver r proposal claim observations)"

definition skip_reasons :: "string list" where
  "skip_reasons =
     [''authority_scope_mismatch'', ''refute_authority_resolver_unavailable'',
      ''refute_requires_privileged_authority'', ''verified_evidence_required'']"

definition validate_refute_decision :: "json \<Rightarrow> bool \<Rightarrow> unit res" where
  "validate_refute_decision value enforce =
     (let code = ''invalid_refute_decision''; reasons = get ''reason_codes'' value;
          attested = get ''authority_attestation_id'' value
      in checks
       [exact value [''schema'', ''proposal_sha256'', ''authority_claim_sha256'',
                     ''authority_attestation_id'', ''policy_profile'', ''policy_fingerprint'',
                     ''decision'', ''reason_codes''] code ''shape'',
        ensure (get ''schema'' value = JStr ''an-kla/refute-decision-v1'' \<and>
                get ''policy_profile'' value = JStr ''refute-policy/v1'') (rpe code ''values''),
        ensure_in (get ''decision'' value) [''skip'', ''refute''] (rpe code ''values''),
        ensure (is_arr reasons \<and> length (list_items reasons) = 1) (rpe code ''values''),
        digest_field (get ''proposal_sha256'' value) code ''proposal_sha256'',
        digest_field (get ''authority_claim_sha256'' value) code ''authority_claim_sha256'',
        digest_field (get ''policy_fingerprint'' value) code ''policy_fingerprint'',
        ensure (\<not> enforce \<or> get ''policy_fingerprint'' value = JStr refute_policy_fingerprint)
          (Exn RefutePolicyError ''refute_policy_fingerprint_mismatch'' None),
        if get ''decision'' value = JStr ''refute''
        then checks
          [digest_field attested code ''authority_attestation_id'',
           ensure (reasons = JArr [JStr ''refute_accepted'']) (rpe code ''reason_codes'')]
        else checks
          [ensure (attested = JNull) (rpe code ''reason_codes''),
           ensure_in (hd (list_items reasons)) skip_reasons (rpe code ''reason_codes'')]])"

section \<open>Plans\<close>

definition refute_core :: "json \<Rightarrow> json \<Rightarrow> json option \<Rightarrow> json \<Rightarrow> json" where
  "refute_core proposal claim attestation decision = mk_obj
     [(''base_revision'', get ''base_revision'' proposal),
      (''proposal_sha256'', JStr (digest_json proposal)),
      (''authority_claim_sha256'', JStr (digest_json claim)),
      (''authority_attestation_id'', attestation_id attestation),
      (''policy_fingerprint'', get ''policy_fingerprint'' decision),
      (''decision'', get ''decision'' decision), (''decision_sha256'', JStr (digest_json decision)),
      (''target'', mk_obj [(''stream'', get ''stream'' proposal),
                           (''record_sha256'', get ''target_record_sha256'' proposal)]),
      (''reason'', get ''reason'' proposal),
      (''evidence_sha256'', JStr (digest_json (get ''evidence'' claim)))]"

definition refute_plan :: "json \<Rightarrow> json" where
  "refute_plan core = mk_obj
     [(''schema'', JStr ''an-kla/refute-plan-v1''), (''core'', core),
      (''plan_fingerprint'', JStr (digest_json core))]"

definition decision_binds :: "json \<Rightarrow> json \<Rightarrow> json option \<Rightarrow> json \<Rightarrow> bool" where
  "decision_binds proposal claim attestation decision \<longleftrightarrow>
     get ''proposal_sha256'' decision = JStr (digest_json proposal) \<and>
     get ''authority_claim_sha256'' decision = JStr (digest_json claim) \<and>
     get ''authority_attestation_id'' decision = attestation_id attestation \<and>
     (get ''decision'' decision = JStr ''skip'') = (attestation = None)"

definition build_refute_plan :: "json \<Rightarrow> json \<Rightarrow> json option \<Rightarrow> json \<Rightarrow> bool \<Rightarrow> json res" where
  "build_refute_plan proposal claim attestation decision enforce =
     andthen (checks
       [validate_refute_proposal proposal, validate_claim claim,
        validate_refute_decision decision enforce,
        ensure (decision_binds proposal claim attestation decision) (rpe ''invalid_refute_plan'' ''binding'')])
     (\<lambda>_. Inr (refute_plan (refute_core proposal claim attestation decision)))"

definition verify_refute_plan :: "json \<Rightarrow> json \<Rightarrow> json \<Rightarrow> json option \<Rightarrow> json \<Rightarrow> bool \<Rightarrow> json res" where
  "verify_refute_plan plan proposal claim attestation decision enforce =
     andthen (build_refute_plan proposal claim attestation decision enforce) (\<lambda>expected.
       if \<not> is_obj plan \<or> plan \<noteq> expected then Inl (rpe ''invalid_refute_plan'' ''content'')
       else Inr expected)"

section \<open>Facts\<close>

lemma exact_Inr_iff [simp, res_simps]:
  "exact v keys code d = Inr u \<longleftrightarrow> is_obj v \<and> set (dict_keys v) = set keys"
  by (simp add: exact_def same_keys_iff)

lemma digest_field_Inr_iff [simp, res_simps]: "digest_field v code d = Inr u \<longleftrightarrow> is_digest v"
  by (simp add: digest_field_def)

lemma digest_shape_refute_fingerprint [simp]: "digest_shape refute_policy_fingerprint"
  by (simp add: refute_policy_fingerprint_def)

lemma get_refute_decision [simp]:
  "get ''decision'' (refute_decision p c d r a) = JStr d"
  "get ''reason_codes'' (refute_decision p c d r a) = JArr [JStr r]"
  "get ''authority_attestation_id'' (refute_decision p c d r a) = attestation_id a"
  "get ''proposal_sha256'' (refute_decision p c d r a) = JStr (digest_json p)"
  "get ''authority_claim_sha256'' (refute_decision p c d r a) = JStr (digest_json c)"
  "get ''policy_fingerprint'' (refute_decision p c d r a) = JStr refute_policy_fingerprint"
  by (simp_all add: refute_decision_def)

lemma refute_decision_shape [simp]:
  "is_obj (refute_decision p c d r a)"
  "set (dict_keys (refute_decision p c d r a)) =
     set [''schema'', ''proposal_sha256'', ''authority_claim_sha256'', ''authority_attestation_id'',
          ''policy_profile'', ''policy_fingerprint'', ''decision'', ''reason_codes'']"
  "get ''schema'' (refute_decision p c d r a) = JStr ''an-kla/refute-decision-v1''"
  "get ''policy_profile'' (refute_decision p c d r a) = JStr ''refute-policy/v1''"
  by (simp_all add: refute_decision_def)

text \<open>The decisions the policy can reach: a skip for one of four reasons, or the acceptance of an
  attestation the resolver gave and verified.\<close>

lemma evaluate_refute_cases:
  assumes "evaluate_refute p c obs capability = Inr (d, a)"
  obtains (skip) reason where "reason \<in> set skip_reasons" "d = refute_decision p c ''skip'' reason None" "a = None"
  | (refute) r att where "capability = Some r" "a = Some att"
      "d = refute_decision p c ''refute'' ''refute_accepted'' (Some att)"
      "scope_matches p c" "str_in (get ''requested_authority_class'' c) PRIVILEGED"
      "evidence_present c obs" "resolve r p c obs = Inr att"
      "validate_attestation att p c obs (descriptor r) = Inr ()" "verify r att p c obs = Inr (JBool True)"
  using assms
  by (auto simp: evaluate_refute_def refute_skip_def consult_resolver_def skip_reasons_def
      split: if_split_asm option.split_asm)

lemma evaluate_refute_inputs:
  "evaluate_refute p c obs capability = Inr x \<Longrightarrow>
   validate_refute_proposal p = Inr () \<and> validate_claim c = Inr () \<and> validate_observations obs c = Inr ()"
  by (auto simp: evaluate_refute_def)

lemma refute_decision_valid:
  assumes "d = ''skip'' \<and> r \<in> set skip_reasons \<and> a = None \<or> d = ''refute'' \<and> r = ''refute_accepted'' \<and> (\<exists>att. a = Some att)"
  shows "validate_refute_decision (refute_decision p c d r a) enforce = Inr ()"
  using assms
  by (elim disjE conjE exE)
    (simp_all add: validate_refute_decision_def Let_def is_digest_def attestation_id_def)

text \<open>C20: A refutation is granted only on a privileged claim about exactly the proposed target, whose
  store evidence was all observed, and only with an attestation that the resolver gave, that
  passes every binding check and that the resolver itself verified; any other outcome of the
  evaluation is a skip without attestation, for one of the four skip reasons.\<close>

theorem refute_only_attested:
  "case evaluate_refute p c obs capability of
     Inl _ \<Rightarrow> True
   | Inr (d, None) \<Rightarrow> get ''decision'' d = JStr ''skip'' \<and>
       (\<exists>reason\<in>set skip_reasons. get ''reason_codes'' d = JArr [JStr reason])
   | Inr (d, Some att) \<Rightarrow> get ''decision'' d = JStr ''refute'' \<and>
       scope_matches p c \<and> str_in (get ''requested_authority_class'' c) PRIVILEGED \<and>
       evidence_present c obs \<and>
       (\<exists>r. capability = Some r \<and> resolve r p c obs = Inr att \<and>
            validate_attestation att p c obs (descriptor r) = Inr () \<and>
            verify r att p c obs = Inr (JBool True)) \<and>
       get ''authority_claim_sha256'' att = JStr (digest_json c)"
proof (cases "evaluate_refute p c obs capability")
  case (Inr x)
  obtain d a where x: "x = (d, a)" by fastforce
  have run: "evaluate_refute p c obs capability = Inr (d, a)" using Inr x by simp
  have binds: "validate_attestation att p c obs k = Inr () \<Longrightarrow>
      get ''authority_claim_sha256'' att = JStr (digest_json c)" for att k
    by (simp add: validate_attestation_def check_attestation_binding_def Let_def)
  from run show ?thesis
  proof (cases rule: evaluate_refute_cases)
    case (skip reason)
    then show ?thesis unfolding run by simp
  next
    case (refute r att)
    then show ?thesis unfolding run using binds by simp
  qed
qed simp

text \<open>Whatever the evaluation decides can be planned, and the plan verifies: with the decision
  and the attestation the evaluation returned, the plan is built and \<open>verify_plan\<close> accepts it,
  while it accepts nothing else.\<close>

theorem refute_plan_roundtrip:
  assumes "evaluate_refute p c obs capability = Inr (d, a)"
  shows "\<exists>plan. build_refute_plan p c a d enforce = Inr plan \<and>
    (\<forall>other. (verify_refute_plan other p c a d enforce = Inr plan) = (other = plan))"
proof -
  note inputs = evaluate_refute_inputs[OF assms]
  have ok: "validate_refute_decision d enforce = Inr () \<and> decision_binds p c a d"
    using assms
    by (cases rule: evaluate_refute_cases) (auto simp: refute_decision_valid decision_binds_def)
  then have build: "build_refute_plan p c a d enforce = Inr (refute_plan (refute_core p c a d))"
    using inputs by (simp add: build_refute_plan_def checks.simps(2))
  then show ?thesis by (auto simp: verify_refute_plan_def refute_plan_def)
qed

section \<open>Examples\<close>

text \<open>A refutation of an event, claimed by a tool with one external piece of evidence.\<close>

definition sample_issuer :: json where
  "sample_issuer = mk_obj [(''kind'', JStr ''tool''), (''subject_sha256'', JStr (digest_bytes ''subject'')),
     (''configuration_fingerprint'', JStr (digest_bytes ''configuration''))]"

definition sample_evidence_item :: json where
  "sample_evidence_item = mk_obj [(''kind'', JStr ''external''), (''content_sha256'', JStr (digest_bytes ''content''))]"

definition sample_refute_proposal :: json where
  "sample_refute_proposal = mk_obj
     [(''schema'', JStr ''an-kla/refute-proposal-v1''), (''base_revision'', JStr (digest_bytes ''base'')),
      (''stream'', JStr ''events''), (''target_record_sha256'', JStr (digest_bytes ''record'')),
      (''reason'', JStr ''source_retracted'')]"

definition sample_claim :: json where
  "sample_claim = mk_obj
     [(''schema'', JStr ''an-kla/refute-authority-claim-v1''),
      (''proposal_sha256'', JStr (digest_json sample_refute_proposal)),
      (''base_revision'', JStr (digest_bytes ''base'')), (''requested_authority_class'', JStr ''tool_observed''),
      (''issuer_claim'', sample_issuer), (''evidence'', JArr [sample_evidence_item]),
      (''scope'', refute_scope sample_refute_proposal)]"

definition sample_observation :: json where
  "sample_observation = mk_obj
     [(''schema'', JStr ''an-kla/refute-observation-v1''), (''evidence'', sample_evidence_item),
      (''store_resolution'', JStr ''unavailable''), (''observed_sha256'', JNull)]"

definition sample_observations :: json where
  "sample_observations = mk_obj
     [(''schema'', JStr ''an-kla/refute-observations-v1''), (''base_revision'', JStr (digest_bytes ''base'')),
      (''items'', JArr [sample_observation])]"

definition sample_descriptor :: json where
  "sample_descriptor = mk_obj [(''profile'', JStr ''local/v1''), (''subject_sha256'', JStr (digest_bytes ''subject'')),
     (''configuration_fingerprint'', JStr (digest_bytes ''configuration''))]"

definition sample_attestation :: json where
  "sample_attestation = mk_obj
     [(''schema'', JStr ''an-kla/refute-authority-attestation-v1''),
      (''proposal_sha256'', JStr (digest_json sample_refute_proposal)),
      (''authority_claim_sha256'', JStr (digest_json sample_claim)),
      (''base_revision'', JStr (digest_bytes ''base'')), (''resolver'', sample_descriptor),
      (''authority_class'', JStr ''tool_observed''), (''issuer'', sample_issuer),
      (''observations_sha256'', JStr (digest_json sample_observations)),
      (''evidence_resolutions'', JArr [update_obj sample_evidence_item
         [(''resolution'', JStr ''verified''), (''observation_sha256'', JStr (digest_json sample_observation))]]),
      (''scope'', refute_scope sample_refute_proposal),
      (''proof'', mk_obj [(''profile'', JStr ''local/v1''), (''proof_sha256'', JStr (digest_bytes ''proof''))])]"

definition sample_resolver :: resolver where
  "sample_resolver = \<lparr>descriptor = sample_descriptor, resolve = (\<lambda>_ _ _. Inr sample_attestation),
     verify = (\<lambda>_ _ _ _. Inr (JBool True))\<rparr>"

lemma sample_profile: "is_profile ''local/v1''"
  by code_simp

lemma sample_refute_proposal_valid: "validate_refute_proposal sample_refute_proposal = Inr ()"
  by (simp add: validate_refute_proposal_def sample_refute_proposal_def streams_def REASONS_def
      is_digest_def Let_def)

lemma sample_claim_valid: "validate_claim sample_claim = Inr ()"
  by (simp add: validate_claim_def sample_claim_def sample_issuer_def check_issuer_def
      check_claim_evidence_def validate_refute_evidence_def evidence_field_def sample_evidence_item_def
      refute_scope_def sample_refute_proposal_def AUTHORITY_CLASSES_def streams_def is_digest_def Let_def)

lemma sample_observations_valid: "validate_observations sample_observations sample_claim = Inr ()"
  by (simp add: validate_observations_def sample_observations_def sample_claim_def check_observation_def
      sample_observation_def is_external_def sample_evidence_item_def Let_def)

lemma sample_attestation_valid:
  "validate_attestation sample_attestation sample_refute_proposal sample_claim sample_observations sample_descriptor = Inr ()"
proof -
  have p: "get ''base_revision'' sample_refute_proposal = JStr (digest_bytes ''base'')"
    by (simp add: sample_refute_proposal_def)
  have c: "get ''scope'' sample_claim = refute_scope sample_refute_proposal"
    "get ''requested_authority_class'' sample_claim = JStr ''tool_observed''"
    "get ''evidence'' sample_claim = JArr [sample_evidence_item]"
    by (simp_all add: sample_claim_def)
  have o: "get ''items'' sample_observations = JArr [sample_observation]"
    by (simp add: sample_observations_def)
  have e: "is_external sample_evidence_item" by (simp add: is_external_def sample_evidence_item_def)
  have d: "validate_descriptor sample_descriptor code = Inr ()"
    "get ''profile'' sample_descriptor = JStr ''local/v1''" for code
    by (simp_all add: validate_descriptor_def sample_descriptor_def profile_field_def sample_profile is_digest_def)
  show ?thesis
    unfolding validate_attestation_def check_attestation_binding_def sample_attestation_def
    by (simp add: p c o e d py_eq_refl check_issuer_def sample_issuer_def check_resolution_def
        profile_field_def sample_profile PRIVILEGED_def is_digest_def Let_def)
qed

lemma sample_refute_evaluates:
  "evaluate_refute sample_refute_proposal sample_claim sample_observations (Some sample_resolver) =
   Inr (refute_decision sample_refute_proposal sample_claim ''refute'' ''refute_accepted'' (Some sample_attestation),
        Some sample_attestation)"
proof -
  have "scope_matches sample_refute_proposal sample_claim"
    by (simp add: scope_matches_def sample_claim_def) (simp add: sample_refute_proposal_def)
  moreover have "str_in (get ''requested_authority_class'' sample_claim) PRIVILEGED"
    by (simp add: sample_claim_def PRIVILEGED_def)
  moreover have "evidence_present sample_claim sample_observations"
    by (simp add: evidence_present_def sample_claim_def sample_observations_def is_external_def
        sample_evidence_item_def)
  moreover have "sample_attestation \<noteq> JNull" by (simp add: sample_attestation_def mk_obj_def)
  ultimately show ?thesis
    using sample_refute_proposal_valid sample_claim_valid sample_observations_valid sample_attestation_valid
    by (simp add: evaluate_refute_def consult_resolver_def sample_resolver_def checks.simps(2))
qed

lemma refute_plan_roundtrip_witness:
  "\<exists>plan. build_refute_plan sample_refute_proposal sample_claim (Some sample_attestation)
      (refute_decision sample_refute_proposal sample_claim ''refute'' ''refute_accepted'' (Some sample_attestation))
      True = Inr plan"
  using refute_plan_roundtrip[OF sample_refute_evaluates, of True] by blast

end
