(* ===== verification/Snapshot.thy ===== *)
theory Snapshot
  imports Receipts RefutePolicy
begin

text \<open>
  Reading a revision: \<open>_snapshot_under_gate\<close> of \<open>store.py\<close>, \<open>validate_lifecycle\<close> of
  \<open>revision_validation.py\<close>, \<open>build_observations\<close> and \<open>validate_refutation_storage\<close> of
  \<open>refutations.py\<close> and \<open>archived_revision_link_under_gate\<close> of \<open>compaction.py\<close>.

  A refutation in the manifest is checked against a snapshot of the revision it was decided on,
  and that snapshot may hold refutations of its own: the definitions recurse with a bound on the
  nesting, which is the recursion limit of the interpreter (\<open>RecursionError\<close> when it is used up).
  The gates around a read are modelled in Gates; the nested read is the same function in
  the two modes of the gate.
\<close>

section \<open>Snapshots\<close>

record snapshot =
  snap_revision :: string
  snap_manifest :: json
  snap_checkpoint :: json
  snap_records :: rows
  snap_raw :: rows

definition integrity_error :: "string \<Rightarrow> exn" where
  "integrity_error code = Exn IntegrityError code None"

definition is_checkpoint_error :: "exn \<Rightarrow> bool" where
  "is_checkpoint_error e \<longleftrightarrow> exn_class e = CheckpointPolicyError"

definition validate_checkpoint_v2 :: "json \<Rightarrow> json \<Rightarrow> unit res" where
  "validate_checkpoint_v2 checkpoint manifest_revision =
     (let bad = integrity_error ''checkpoint_v2_invalid''; revision = get ''revision'' checkpoint in
      andthen (get_of ''schema'' checkpoint) (\<lambda>schema.
        when_ok (schema = JStr ''an-kla/checkpoint-v2'')
          (checks
            [ensure (same_keys checkpoint [''schema'', ''revision'', ''working_state'']) bad,
             ensure (is_proper_int revision \<and> is_proper_int manifest_revision \<and>
                     1 \<le> int_of revision \<and> int_of revision \<le> int_of manifest_revision) bad,
             except_as is_checkpoint_error bad (validate_working_state (get ''working_state'' checkpoint))])))"

text \<open>\<open>str(row.get("id", ""))\<close>.\<close>

definition row_id :: "json \<Rightarrow> string" where
  "row_id row = (if has_key ''id'' row then py_str (get ''id'' row) else [])"

text \<open>The identifiers seen so far in the stream, extended by those of some rows.\<close>

fun see_rows :: "string \<Rightarrow> string list \<Rightarrow> json list \<Rightarrow> string list res" where
  "see_rows stream seen [] = Inr seen"
| "see_rows stream seen (row # rest) =
     (if \<not> is_obj row then raise AttributeError ''get''
      else if row_id row = [] \<or> row_id row \<in> set seen
      then Inl (integrity_error (''duplicate_or_missing_'' @ stream @ ''_id''))
      else see_rows stream (row_id row # seen) rest)"

fun load_segments :: "os \<Rightarrow> string \<Rightarrow> string list \<Rightarrow> json list \<Rightarrow> json list res" where
  "load_segments s stream seen [] = Inr []"
| "load_segments s stream seen (segment # rest) =
     andthen (read_segment stream (py_str segment) s) (\<lambda>loaded.
     andthen (see_rows stream seen loaded) (\<lambda>seen'.
     andthen (load_segments s stream seen' rest) (\<lambda>more. Inr (loaded @ more))))"

definition load_stream :: "os \<Rightarrow> json \<Rightarrow> string \<Rightarrow> json list res" where
  "load_stream s m stream =
     andthen (items_of (segments_key stream) m) (\<lambda>segments. load_segments s stream [] segments)"

text \<open>The streams are loaded in the order of \<open>STREAMS\<close>.\<close>

definition load_records :: "os \<Rightarrow> json \<Rightarrow> rows res" where
  "load_records s m =
     andthen (traverse (load_stream s m) STREAMS) (\<lambda>loaded.
       Inr (\<lambda>stream. case map_of (zip STREAMS loaded) stream of None \<Rightarrow> [] | Some xs \<Rightarrow> xs))"

section \<open>Supersessions\<close>

type_synonym successors = "((string \<times> string) \<times> string) list"

definition legacy_error :: "exn_class \<Rightarrow> exn" where
  "legacy_error error = Exn error ''legacy_supersedes_adoption_required'' None"

text \<open>The first loop of \<open>validate_lifecycle\<close>: every target is superseded once, and both records of
  an entry exist. The result maps each target to its successor.\<close>

fun collect_successors :: "exn_class \<Rightarrow> rows \<Rightarrow> successors \<Rightarrow> json list \<Rightarrow> successors res" where
  "collect_successors error raw succ [] = Inr succ"
| "collect_successors error raw succ (entry # rest) =
     (let stream = str_of (get ''stream'' entry); target = str_of (get ''target_id'' entry);
          heir = str_of (get ''sustituida_por'' entry); ids = map row_id (raw stream)
      in if (stream, target) \<in> set (map fst succ) \<or> target \<notin> set ids \<or> heir \<notin> set ids
         then Inl (legacy_error error)
         else collect_successors error raw (((stream, target), heir) # succ) rest)"

text \<open>The walk \<open>while (stream, cursor) in successor\<close>: it ends because every record is visited once.\<close>

function chain_ends :: "successors \<Rightarrow> string \<Rightarrow> string list \<Rightarrow> string \<Rightarrow> bool" where
  "chain_ends succ stream visited cursor =
     (case map_of succ (stream, cursor) of
        None \<Rightarrow> True
      | Some heir \<Rightarrow>
          if cursor \<in> set visited then False else chain_ends succ stream (cursor # visited) heir)"
  by pat_completeness auto
termination
proof (relation "measure (\<lambda>(succ, stream, visited, cursor).
    card (set (map fst succ) - Pair stream ` set visited))", goal_cases)
  case (2 succ stream visited cursor heir)
  then have "(stream, cursor) \<in> set (map fst succ) - Pair stream ` set visited"
    by (auto dest!: map_of_SomeD intro: rev_image_eqI)
  moreover have "set (map fst succ) - Pair stream ` set (cursor # visited) =
      (set (map fst succ) - Pair stream ` set visited) - {(stream, cursor)}" by auto
  ultimately show ?case by (simp add: card_Diff1_less del: card_Diff_insert)
qed simp

declare chain_ends.simps [simp del]

section \<open>Observations of a refutation claim\<close>

definition kind_stream :: "json \<Rightarrow> string option" where
  "kind_stream kind =
     (if kind = JStr ''fact'' then Some ''facts'' else if kind = JStr ''event'' then Some ''events''
      else if kind = JStr ''episode'' then Some ''episodes'' else None)"

text \<open>The revisions below some directory of the store: what bounds the walk over the parents.\<close>

definition stored_revisions :: "os \<Rightarrow> string set" where
  "stored_revisions s = {i. \<exists>m. read_json_object ''revisions'' i s = Inr m}"

lemma finite_stored_revisions: "finite (stored_revisions s)"
proof (rule finite_subset)
  show "stored_revisions s \<subseteq> (\<lambda>kv. ''sha256:'' @ take 64 (drop 17 (fst kv))) ` set (files s)"
  proof
    fix i assume "i \<in> stored_revisions s"
    then obtain m p where b: "bytes_under ''revisions'' ''.json'' i s = Some p" "digest_bytes p = i"
      by (auto simp: stored_revisions_def read_json_object_held)
    then have "bytes_at (''revisions/sha256/'' @ drop 7 i @ ''.json'') s = Some p"
      using bytes_under_digest(1)[OF b(1)] by simp
    then have f: "(''revisions/sha256/'' @ drop 7 i @ ''.json'', p) \<in> set (files s)"
      by (auto simp: bytes_at_def dest: map_of_SomeD)
    have shape: "digest_shape i" using b(2) by auto
    then have "length (drop 7 i) = 64" by (simp add: digest_shape_def)
    then have "i = ''sha256:'' @ take 64 (drop 17 (''revisions/sha256/'' @ drop 7 i @ ''.json''))"
      using digest_shape_split[OF shape] by simp
    then show "i \<in> (\<lambda>kv. ''sha256:'' @ take 64 (drop 17 (fst kv))) ` set (files s)"
      by (intro rev_image_eqI[OF f]) (simp only: fst_conv)
  qed
qed simp

function ancestor_ids :: "os \<Rightarrow> string list \<Rightarrow> string \<Rightarrow> string list res" where
  "ancestor_ids s seen cursor =
     (if cursor \<in> set seen then Inl (rpe ''invalid_refute_attestation'' ''revision_cycle'')
      else case read_json_object ''revisions'' cursor s of
          Inl e \<Rightarrow> Inl e
        | Inr m \<Rightarrow>
            if \<not> is_obj m then raise AttributeError ''get''
            else (case get ''parent'' m of
                JStr p \<Rightarrow> ancestor_ids s (cursor # seen) p
              | _ \<Rightarrow> Inr (cursor # seen)))"
  by pat_completeness auto
termination
proof (relation "measure (\<lambda>(s, seen, cursor). card (stored_revisions s - set seen))", goal_cases)
  case (2 s seen cursor m p)
  then have "cursor \<in> stored_revisions s - set seen" by (auto simp: stored_revisions_def)
  moreover have "stored_revisions s - set (cursor # seen) = (stored_revisions s - set seen) - {cursor}" by auto
  ultimately show ?case using finite_stored_revisions[of s] by (simp add: card_Diff1_less del: card_Diff_insert)
qed simp

declare ancestor_ids.simps [simp del]

definition observation_object :: "json \<Rightarrow> string \<Rightarrow> json \<Rightarrow> json" where
  "observation_object evidence resolution observed = mk_obj
     [(''schema'', JStr ''an-kla/refute-observation-v1''), (''evidence'', evidence),
      (''store_resolution'', JStr resolution), (''observed_sha256'', observed)]"

definition observe :: "os \<Rightarrow> snapshot \<Rightarrow> json \<Rightarrow> json res" where
  "observe s snap evidence =
     (case kind_stream (get ''kind'' evidence) of
        Some stream \<Rightarrow>
          (let wanted = get ''record_sha256'' evidence;
               found = filter (\<lambda>row. JStr (digest_json row) = wanted) (snap_raw snap stream)
           in if length found > 1 then Inl (rpe ''invalid_refute_attestation'' ''evidence_ambiguous'')
              else Inr (if found = [] then observation_object evidence ''missing'' JNull
                        else observation_object evidence ''present'' wanted))
      | None \<Rightarrow>
          if get ''kind'' evidence = JStr ''revision'' then
            andthen (ancestor_ids s [] (snap_revision snap)) (\<lambda>ancestors.
              let wanted = get ''revision_sha256'' evidence in
              Inr (if wanted \<in> set (map JStr ancestors) then observation_object evidence ''present'' wanted
                   else observation_object evidence ''missing'' JNull))
          else Inr (observation_object evidence ''unavailable'' JNull))"

definition build_observations :: "os \<Rightarrow> snapshot \<Rightarrow> json \<Rightarrow> json res" where
  "build_observations s snap claim =
     andthen (validate_claim claim) (\<lambda>_.
     andthen (traverse (observe s snap) (list_items (get ''evidence'' claim))) (\<lambda>items.
     let observations = mk_obj [(''schema'', JStr ''an-kla/refute-observations-v1''),
           (''base_revision'', get ''base_revision'' claim), (''items'', JArr items)]
     in andthen (validate_observations observations claim) (\<lambda>_. Inr observations)))"

section \<open>Stored refutations\<close>

definition refutation_keys :: "string list" where
  "refutation_keys =
     [''schema'', ''target_revision'', ''stream'', ''target_record_sha256'', ''reason'', ''proposal_sha256'',
      ''authority_claim_sha256'', ''authority_attestation_id'', ''policy_fingerprint'',
      ''decision_sha256'', ''evidence_sha256'', ''plan_fingerprint'']"

definition refutation_digests :: "string list" where
  "refutation_digests =
     [''target_revision'', ''target_record_sha256'', ''proposal_sha256'', ''authority_claim_sha256'',
      ''authority_attestation_id'', ''policy_fingerprint'', ''decision_sha256'', ''evidence_sha256'',
      ''plan_fingerprint'']"

definition check_refutation_shape :: "json \<Rightarrow> json \<Rightarrow> unit res" where
  "check_refutation_shape value entry =
     (let code = ''refute_content_hash_mismatch'' in
      checks
       [exact value refutation_keys code ''refutation.shape'',
        ensure (get ''schema'' value = JStr ''an-kla/refutation-v1'' \<and>
                get ''stream'' value = get ''stream'' entry \<and>
                get ''target_record_sha256'' value = get ''target_record_sha256'' entry)
          (rpe code ''refutation.binding''),
        each (\<lambda>name. digest_field (get name value) code name) refutation_digests])"

text \<open>The proposal and the decision a refutation object stands for, rebuilt from its fields.\<close>

definition stored_proposal :: "json \<Rightarrow> json" where
  "stored_proposal value = mk_obj
     [(''schema'', JStr ''an-kla/refute-proposal-v1''), (''base_revision'', get ''target_revision'' value),
      (''stream'', get ''stream'' value), (''target_record_sha256'', get ''target_record_sha256'' value),
      (''reason'', get ''reason'' value)]"

definition stored_decision :: "json \<Rightarrow> json" where
  "stored_decision value = mk_obj
     [(''schema'', JStr ''an-kla/refute-decision-v1''), (''proposal_sha256'', get ''proposal_sha256'' value),
      (''authority_claim_sha256'', get ''authority_claim_sha256'' value),
      (''authority_attestation_id'', get ''authority_attestation_id'' value),
      (''policy_profile'', JStr ''refute-policy/v1''),
      (''policy_fingerprint'', get ''policy_fingerprint'' value), (''decision'', JStr ''refute''),
      (''reason_codes'', JArr [JStr ''refute_accepted''])]"

text \<open>\<open>snapshot_of\<close> reads the revision the refutation was decided on.\<close>

definition validate_refutation_storage ::
    "(string \<Rightarrow> snapshot res) \<Rightarrow> os \<Rightarrow> json \<Rightarrow> json \<Rightarrow> unit res" where
  "validate_refutation_storage snapshot_of s value entry =
     (let code = ''refute_content_hash_mismatch''; proposal = stored_proposal value;
          decision = stored_decision value in
      andthen (check_refutation_shape value entry) (\<lambda>_.
      andthen (read_json_object ''authority-claims'' (str_of (get ''authority_claim_sha256'' value)) s) (\<lambda>claim.
      andthen (validate_claim claim) (\<lambda>_.
      andthen (validate_refute_proposal proposal) (\<lambda>_.
      andthen (ensure (JStr (digest_json proposal) = get ''proposal_sha256'' value \<and>
                       JStr (digest_json claim) = get ''authority_claim_sha256'' value)
                (rpe code ''proposal_or_claim'')) (\<lambda>_.
      andthen (snapshot_of (str_of (get ''target_revision'' value))) (\<lambda>parent.
      andthen (build_observations s parent claim) (\<lambda>observations.
      andthen (read_json_object ''authority-attestations'' (str_of (get ''authority_attestation_id'' value)) s) (\<lambda>attestation.
      andthen (get_of ''resolver'' attestation) (\<lambda>descriptor.
      andthen (validate_descriptor descriptor ''invalid_refute_attestation'') (\<lambda>_.
      andthen (validate_attestation attestation proposal claim observations descriptor) (\<lambda>_.
      andthen (build_refute_plan proposal claim (Some attestation) decision False) (\<lambda>plan.
        ensure (get ''decision_sha256'' value = JStr (digest_json decision) \<and>
                get ''evidence_sha256'' value = JStr (digest_json (get ''evidence'' claim)) \<and>
                get ''plan_fingerprint'' value = get ''plan_fingerprint'' plan)
          (rpe code ''policy_binding''))))))))))))))"

section \<open>Lifecycle\<close>

definition check_refutation_entry ::
    "(string \<Rightarrow> snapshot res) \<Rightarrow> exn_class \<Rightarrow> os \<Rightarrow> rows \<Rightarrow> successors \<Rightarrow> json \<Rightarrow> unit res" where
  "check_refutation_entry snapshot_of error s raw succ entry =
     (let stream = str_of (get ''stream'' entry);
          found = filter (\<lambda>row. JStr (digest_json row) = get ''target_record_sha256'' entry) (raw stream)
      in checks
       [ensure (length found = 1) (Exn error ''manifest_refutations_map_invalid'' None),
        ensure ((stream, row_id (hd found)) \<notin> set (map fst succ))
          (Exn error ''manifest_lifecycle_overlay_conflict'' None),
        andthen (read_json_object ''refutations'' (py_str (get ''refutation_id'' entry)) s)
          (\<lambda>value. validate_refutation_storage snapshot_of s value entry)])"

definition validate_lifecycle ::
    "(string \<Rightarrow> snapshot res) \<Rightarrow> exn_class \<Rightarrow> os \<Rightarrow> json \<Rightarrow> rows \<Rightarrow> unit res" where
  "validate_lifecycle snapshot_of error s m raw =
     andthen (items_of ''supersedes_map'' m) (\<lambda>entries.
     andthen (collect_successors error raw [] entries) (\<lambda>succ.
     andthen (ensure (list_all (\<lambda>((stream, target), _). chain_ends succ stream [] target) succ)
               (legacy_error error)) (\<lambda>_.
     andthen (items_of ''refutations_map'' m) (\<lambda>refuted.
       each (check_refutation_entry snapshot_of error s raw succ) refuted))))"

section \<open>Overlays\<close>

definition superseded_targets :: "json list \<Rightarrow> (string \<times> string) list" where
  "superseded_targets entries =
     map (\<lambda>entry. (str_of (get ''stream'' entry), str_of (get ''target_id'' entry)))
       (filter (\<lambda>entry. is_obj entry \<and> str_in (get ''stream'' entry) STREAMS \<and>
                        nonempty_str (get ''target_id'' entry)) entries)"

definition overlay_status :: "string \<Rightarrow> json \<Rightarrow> json" where
  "overlay_status status row = update_obj row [(''status'', JStr status)]"

definition refuted_targets :: "json list \<Rightarrow> (string \<times> json) list" where
  "refuted_targets entries =
     map (\<lambda>entry. (str_of (get ''stream'' entry), get ''target_record_sha256'' entry)) entries"

text \<open>Both overlays of one row, in the order the code applies them.\<close>

definition overlay_row :: "(string \<times> string) list \<Rightarrow> (string \<times> json) list \<Rightarrow> string \<Rightarrow> json \<Rightarrow> json" where
  "overlay_row targets refuted stream row =
     (let marked = (if (stream, row_id row) \<in> set targets then overlay_status ''sustituida'' row else row)
      in if (stream, JStr (digest_json row)) \<in> set refuted then overlay_status ''refutada'' marked else marked)"

definition overlay :: "json list \<Rightarrow> json list \<Rightarrow> rows \<Rightarrow> rows" where
  "overlay supersessions refutations raw stream =
     map (overlay_row (superseded_targets supersessions) (refuted_targets refutations) stream) (raw stream)"

section \<open>Archived revisions\<close>

definition archived_item :: "json \<Rightarrow> string \<Rightarrow> json option" where
  "archived_item catalog revision =
     find (\<lambda>item. get ''revision'' item = JStr revision) (list_items (get ''archived_revisions'' catalog))"

definition archived_revision_link :: "string \<Rightarrow> os \<Rightarrow> json option res" where
  "archived_revision_link revision s =
     andthen (read_current s) (\<lambda>current.
     andthen (read_json_object ''revisions'' current s) (\<lambda>m.
     andthen (get_of ''schema'' m) (\<lambda>schema.
       if schema \<noteq> rev3 then Inr None
       else
         andthen (subscript ''compaction_epoch'' m) (\<lambda>epoch.
         andthen (subscript ''tombstone_catalog'' epoch) (\<lambda>catalog_id.
         andthen (read_validated ''compaction/catalogs'' validate_catalog catalog_id s) (\<lambda>catalog.
         andthen (validate_catalog_chain s (py_str catalog_id)) (\<lambda>catalogs.
           case archived_item catalog revision of
             None \<Rightarrow> Inr None
           | Some item \<Rightarrow>
               (case map_of catalogs (py_str (get ''epoch_id'' item)) of
                  None \<Rightarrow> Inl chain_bad
                | Some (identifier, _) \<Rightarrow>
                    Inr (Some (update_obj item [(''tombstone_catalog'', JStr identifier)]))))))))))"

section \<open>The read of a revision\<close>

text \<open>Only the \<open>IntegrityError\<close> of a missing or broken manifest leads to the catalog of archived
  revisions.\<close>

definition read_manifest :: "string \<Rightarrow> os \<Rightarrow> json res" where
  "read_manifest revision s =
     (case read_json_object ''revisions'' revision s of
        Inr m \<Rightarrow> Inr m
      | Inl e \<Rightarrow>
          if exn_class e \<noteq> IntegrityError then Inl e
          else case archived_revision_link revision s of
              Inl _ \<Rightarrow> Inl (integrity_error ''compaction_catalog_invalid'')
            | Inr None \<Rightarrow> Inl e
            | Inr (Some _) \<Rightarrow> Inl (integrity_error ''revision_archived_by_compaction''))"

definition requested :: "string option \<Rightarrow> os \<Rightarrow> string res" where
  "requested revision s =
     (case revision of Some r \<Rightarrow> if r = [] then read_current s else Inr r | None \<Rightarrow> read_current s)"

definition audited_manifest :: "string \<Rightarrow> bool \<Rightarrow> os \<Rightarrow> json res" where
  "audited_manifest revision use_watermark s =
     andthen (read_manifest revision s) (\<lambda>m.
     andthen (checks
       [ensure (digest_json m = revision) (integrity_error ''revision_hash_mismatch''),
        validate_manifest IntegrityError m,
        validate_revision_chain IntegrityError (if use_watermark then usable_watermark s else None) revision m s,
        verify_manifest_link m s])
       (\<lambda>_. Inr m))"

fun snapshot_under_gate :: "nat \<Rightarrow> string option \<Rightarrow> bool \<Rightarrow> os \<Rightarrow> snapshot res" where
  "snapshot_under_gate 0 revision use_watermark s = raise RecursionError ''maximum recursion depth exceeded''"
| "snapshot_under_gate (Suc n) revision use_watermark s =
     andthen (requested revision s) (\<lambda>r.
     andthen (audited_manifest r use_watermark s) (\<lambda>m.
     andthen (read_json_object ''checkpoints'' (py_str (get ''checkpoint'' m)) s) (\<lambda>checkpoint.
     andthen (validate_checkpoint_v2 checkpoint (get ''revision'' m)) (\<lambda>_.
     andthen (load_records s m) (\<lambda>raw.
     andthen (validate_lifecycle (\<lambda>i. snapshot_under_gate n (Some i) True s) IntegrityError s m raw) (\<lambda>_.
     andthen (items_of ''supersedes_map'' m) (\<lambda>supersessions.
     andthen (items_of ''refutations_map'' m) (\<lambda>refutations.
       Inr \<lparr>snap_revision = r, snap_manifest = m, snap_checkpoint = checkpoint,
            snap_records = overlay supersessions refutations raw, snap_raw = raw\<rparr>))))))))"

definition snapshot_at :: "nat \<Rightarrow> string option \<Rightarrow> bool \<Rightarrow> os \<Rightarrow> snapshot res" where
  "snapshot_at n revision use_watermark s =
     (if diverted s then raise CustodyError ''store_root_divergence''
      else snapshot_under_gate n revision use_watermark s)"

end
