(* ===== verification/Lifecycle.thy ===== *)
theory Lifecycle
  imports Snapshot "HOL-Library.Multiset"
begin

text \<open>
  What a snapshot decides about its records: the guards of a plan against the base snapshot
  (\<open>plan_guard.py\<close>), the resolution of supersessions under the write lock (\<open>supersede.py\<close>) and the
  projection of the active records (\<open>compaction_projection.py\<close>). The lemmas relate the three to the
  overlays of the snapshot and to \<open>validate_lifecycle\<close>, which every later read runs.
\<close>

section \<open>Guards of a plan\<close>

definition write_error :: "string \<Rightarrow> exn" where
  "write_error code = Exn WritePolicyError code None"

definition find_row :: "json list \<Rightarrow> string \<Rightarrow> json option" where
  "find_row records identifier = find (\<lambda>row. row_id row = identifier) records"

text \<open>\<open>supersedes\<close> of a proposal is a string once the policy has validated it.\<close>

definition guard_single :: "rows \<Rightarrow> json \<Rightarrow> unit res" where
  "guard_single records proposal =
     (let stream_records = records (str_of (get ''stream'' proposal)) in
      checks
       [ensure (find_row stream_records (row_id (get ''record'' proposal)) = None)
          (write_error ''plan_duplicate_id''),
        when_ok (get ''operation'' proposal = JStr ''supersede'')
          (case find_row stream_records (str_of (get ''supersedes'' proposal)) of
             None \<Rightarrow> Inl (write_error ''plan_supersede_target_missing'')
           | Some target \<Rightarrow> ensure (is_active target) (write_error ''plan_supersede_target_not_vigente''))])"

text \<open>In the batch guard the index keeps the last row of an identifier.\<close>

definition guard_batch_record :: "json list \<Rightarrow> json \<Rightarrow> json \<Rightarrow> unit res" where
  "guard_batch_record stream_records proposal record =
     (let by_id = find_row (rev stream_records) in
      checks
       [ensure (by_id (row_id record) = None) (write_error ''plan_duplicate_id''),
        when_ok (get ''operation'' proposal = JStr ''supersede'')
          (andthen (subscript ''id'' record) (\<lambda>identifier.
           andthen (subscript (str_of identifier) (get ''supersedes'' proposal)) (\<lambda>target_id.
             case by_id (str_of target_id) of
               None \<Rightarrow> Inl (write_error ''plan_supersede_target_missing'')
             | Some target \<Rightarrow> ensure (is_active target) (write_error ''plan_supersede_target_not_vigente''))))])"

definition guard_batch :: "rows \<Rightarrow> json \<Rightarrow> unit res" where
  "guard_batch records proposal =
     each (guard_batch_record (records (str_of (get ''stream'' proposal))) proposal)
       (list_items (get ''records'' proposal))"

definition guard_plan :: "rows \<Rightarrow> json \<Rightarrow> unit res" where
  "guard_plan records proposal =
     (if get ''schema'' proposal = JStr ''an-kla/write-proposal-v2'' then guard_batch records proposal
      else guard_single records proposal)"

section \<open>Supersede targets\<close>

definition supersede_error :: "string \<Rightarrow> exn" where
  "supersede_error detail = Exn WritePolicyError ''invalid_supersede_target'' (Some detail)"

definition supersede_entry :: "json \<Rightarrow> json" where
  "supersede_entry item = mk_obj
     [(''stream'', get ''stream'' item), (''target_id'', get ''supersedes'' item),
      (''sustituida_por'', JStr (py_str (get ''id'' (get ''record'' item))))]"

definition supersede_target :: "rows \<Rightarrow> json \<Rightarrow> json res" where
  "supersede_target records item =
     (let target_id = get ''supersedes'' item in
      andthen (ensure (target_id \<noteq> get ''id'' (get ''record'' item)) (supersede_error ''self_reference'')) (\<lambda>_.
        case find_row (records (str_of (get ''stream'' item))) (str_of target_id) of
          None \<Rightarrow> Inl (supersede_error ''target_missing'')
        | Some target \<Rightarrow>
            if is_active target then Inr (supersede_entry item)
            else Inl (supersede_error ''target_not_vigente'')))"

definition is_supersede :: "json \<Rightarrow> bool" where
  "is_supersede item \<longleftrightarrow> get ''operation'' item = JStr ''supersede''"

definition resolve_supersede_targets :: "nat \<Rightarrow> json \<Rightarrow> string \<Rightarrow> os \<Rightarrow> json list res" where
  "resolve_supersede_targets n plan observed s =
     (let items = filter is_supersede (list_items (get ''records'' plan)) in
      if items = [] then Inr []
      else andthen (snapshot_at n (Some observed) True s) (\<lambda>base.
             traverse (supersede_target (snap_records base)) items))"

section \<open>The active projection\<close>

record projected =
  active_rows :: rows
  record_tombstones :: "(string \<times> string \<times> string) list"
  segment_ids :: "string \<Rightarrow> string list"
  segment_payloads :: "string \<Rightarrow> string option"

definition entry_targets :: "json list \<Rightarrow> (string \<times> string) list" where
  "entry_targets entries =
     map (\<lambda>entry. (str_of (get ''stream'' entry), str_of (get ''target_id'' entry))) entries"

definition row_state :: "snapshot \<Rightarrow> string \<Rightarrow> json \<Rightarrow> string" where
  "row_state snap stream row =
     (if (stream, JStr (digest_json row)) \<in> set (refuted_targets (map_items ''refutations_map'' (snap_manifest snap)))
      then ''refuted''
      else if (stream, row_id row) \<in> set (entry_targets (map_items ''supersedes_map'' (snap_manifest snap)))
      then ''superseded''
      else if is_active row then ''active'' else ''inactive'')"

definition tombstones_of :: "snapshot \<Rightarrow> string \<Rightarrow> (string \<times> string \<times> string) list" where
  "tombstones_of snap stream =
     map (\<lambda>row. (stream, digest_json row, row_state snap stream row))
       (filter (\<lambda>row. row_state snap stream row \<noteq> ''active'') (snap_raw snap stream))"

definition project_snapshot :: "snapshot \<Rightarrow> projected" where
  "project_snapshot snap =
     (let active = (\<lambda>stream. filter (\<lambda>row. row_state snap stream row = ''active'') (snap_raw snap stream));
          payload = (\<lambda>stream. segment_text (active stream))
      in \<lparr>active_rows = active,
          record_tombstones =
            sort_key (\<lambda>(stream, digest, _). (stream_index stream, digest)) (concat (map (tombstones_of snap) STREAMS)),
          segment_ids = (\<lambda>stream. if active stream = [] then [] else [digest_bytes (payload stream)]),
          segment_payloads = (\<lambda>stream. if active stream = [] then None else Some (payload stream))\<rparr>)"

section \<open>Rows of a snapshot\<close>

lemma see_rows_iff:
  "see_rows stream seen xs = Inr seen' \<longleftrightarrow>
   list_all is_obj xs \<and> [] \<notin> set (map row_id xs) \<and> distinct (map row_id xs) \<and>
   set (map row_id xs) \<inter> set seen = {} \<and> seen' = rev (map row_id xs) @ seen"
  by (induction xs arbitrary: seen) auto

definition rows_ok :: "json list \<Rightarrow> bool" where
  "rows_ok xs \<longleftrightarrow> list_all is_obj xs \<and> [] \<notin> set (map row_id xs) \<and> distinct (map row_id xs)"

lemma load_segments_ok:
  "load_segments s stream seen segments = Inr xs \<Longrightarrow> rows_ok xs \<and> set (map row_id xs) \<inter> set seen = {}"
proof (induction segments arbitrary: seen xs)
  case (Cons segment rest)
  then obtain loaded seen' more where "see_rows stream seen loaded = Inr seen'"
    and m: "load_segments s stream seen' rest = Inr more" and xs: "xs = loaded @ more" by auto
  then have l: "rows_ok loaded" "set (map row_id loaded) \<inter> set seen = {}"
    "set seen' = set (map row_id loaded) \<union> set seen"
    by (auto simp: see_rows_iff rows_ok_def)
  from Cons.IH[OF m] have "rows_ok more" "set (map row_id more) \<inter> set seen' = {}" by auto
  with l show ?case unfolding xs rows_ok_def by auto
qed (simp add: rows_ok_def)

lemma load_records_ok:
  assumes "load_records s m = Inr raw"
  shows "rows_ok (raw stream)"
proof -
  obtain loaded where t: "traverse (load_stream s m) STREAMS = Inr loaded"
    and raw: "raw = (\<lambda>stream. case map_of (zip STREAMS loaded) stream of None \<Rightarrow> [] | Some xs \<Rightarrow> xs)"
    using assms by (auto simp: load_records_def)
  show ?thesis
  proof (cases "map_of (zip STREAMS loaded) stream")
    case None
    then show ?thesis by (simp add: raw rows_ok_def)
  next
    case (Some xs)
    then have "(stream, xs) \<in> set (zip STREAMS loaded)" by (rule map_of_SomeD)
    then have "load_stream s m stream = Inr xs"
      using t[unfolded traverse_Inr_all2] by (auto simp: list_all2_iff)
    then show ?thesis using Some by (auto simp: raw load_stream_def dest!: load_segments_ok)
  qed
qed

lemma row_id_overlay_status [simp]: "is_obj row \<Longrightarrow> row_id (overlay_status status row) = row_id row"
  by (simp add: row_id_def overlay_status_def has_key_def)

lemma is_obj_overlay_status [simp]: "is_obj (overlay_status status row) = is_obj row"
  by (simp add: overlay_status_def)

lemma overlay_inactive [simp]:
  "is_obj row \<Longrightarrow> status \<notin> {''vigente'', ''active''} \<Longrightarrow> \<not> is_active (overlay_status status row)"
  by (simp add: is_active_iff vigency_value_def overlay_status_def has_key_def)

lemma row_id_overlay [simp]: "is_obj row \<Longrightarrow> row_id (overlay_row targets refuted stream row) = row_id row"
  by (simp add: overlay_row_def Let_def)

lemma is_active_overlay:
  "is_obj row \<Longrightarrow> is_active (overlay_row targets refuted stream row) \<longleftrightarrow>
     (stream, JStr (digest_json row)) \<notin> set refuted \<and> (stream, row_id row) \<notin> set targets \<and> is_active row"
  by (simp add: overlay_row_def Let_def)

section \<open>What a successful read has established\<close>

definition link_of :: "json \<Rightarrow> (string \<times> string) \<times> string" where
  "link_of entry =
     ((str_of (get ''stream'' entry), str_of (get ''target_id'' entry)), str_of (get ''sustituida_por'' entry))"

definition linked_rows :: "rows \<Rightarrow> json \<Rightarrow> bool" where
  "linked_rows raw entry \<longleftrightarrow>
     snd (fst (link_of entry)) \<in> set (map row_id (raw (fst (fst (link_of entry))))) \<and>
     snd (link_of entry) \<in> set (map row_id (raw (fst (fst (link_of entry)))))"

lemma collect_successors_iff:
  "collect_successors error raw succ entries = Inr succ' \<longleftrightarrow>
   succ' = rev (map link_of entries) @ succ \<and> distinct (map (fst \<circ> link_of) entries) \<and>
   set (map (fst \<circ> link_of) entries) \<inter> set (map fst succ) = {} \<and> list_all (linked_rows raw) entries"
  by (induction entries arbitrary: succ) (auto simp: Let_def link_of_def linked_rows_def)

lemma entry_targets_links: "entry_targets entries = map (fst \<circ> link_of) entries"
  by (simp add: entry_targets_def link_of_def)

lemma check_supersedes_entries:
  assumes "validate_manifest error m = Inr u" and "items_of ''supersedes_map'' m = Inr entries"
  shows "superseded_targets entries = entry_targets entries"
proof -
  have "check_supersedes_map error (get ''supersedes_map'' m) = Inr ()"
    using assms(1) by (simp add: validate_manifest_def Let_def)
  moreover have "entries = list_items (get ''supersedes_map'' m)"
    using items_ofD[OF assms(2)] by (simp add: map_items_def)
  ultimately have "list_all (\<lambda>entry. is_obj entry \<and> str_in (get ''stream'' entry) STREAMS \<and>
      nonempty_str (get ''target_id'' entry)) entries"
    by (cases "get ''supersedes_map'' m = JNull")
      (auto simp: check_supersedes_map_def check_supersedes_entry_def list_all_iff)
  then have "filter (\<lambda>entry. is_obj entry \<and> str_in (get ''stream'' entry) STREAMS \<and>
      nonempty_str (get ''target_id'' entry)) entries = entries"
    by (auto simp: list_all_iff intro: filter_True)
  then show ?thesis by (simp add: superseded_targets_def entry_targets_def)
qed

text \<open>The overlay of a snapshot in terms of its own manifest, and its supersessions.\<close>

definition lifecycle_ok :: "json list \<Rightarrow> rows \<Rightarrow> bool" where
  "lifecycle_ok entries raw \<longleftrightarrow>
     distinct (entry_targets entries) \<and> list_all (linked_rows raw) entries \<and>
     list_all (\<lambda>((stream, target), _). chain_ends (rev (map link_of entries)) stream [] target) (map link_of entries)"

lemma snapshotD:
  assumes "snapshot_under_gate n revision use_watermark s = Inr snap"
  shows "\<forall>stream. rows_ok (snap_raw snap stream)"
    and "snap_records snap = overlay (map_items ''supersedes_map'' (snap_manifest snap))
          (map_items ''refutations_map'' (snap_manifest snap)) (snap_raw snap)"
    and "superseded_targets (map_items ''supersedes_map'' (snap_manifest snap)) =
          entry_targets (map_items ''supersedes_map'' (snap_manifest snap))"
    and "lifecycle_ok (map_items ''supersedes_map'' (snap_manifest snap)) (snap_raw snap)"
    and "validate_manifest IntegrityError (snap_manifest snap) = Inr ()"
    and "read_json_object ''revisions'' (snap_revision snap) s = Inr (snap_manifest snap)"
proof -
  obtain k where n: "n = Suc k" using assms by (cases n) auto
  obtain r m checkpoint raw supersessions refutations where
    m: "audited_manifest r use_watermark s = Inr m" and raw: "load_records s m = Inr raw"
    and life: "validate_lifecycle (\<lambda>i. snapshot_under_gate k (Some i) True s) IntegrityError s m raw = Inr ()"
    and maps: "items_of ''supersedes_map'' m = Inr supersessions" "items_of ''refutations_map'' m = Inr refutations"
    and snap: "snap = \<lparr>snap_revision = r, snap_manifest = m, snap_checkpoint = checkpoint,
            snap_records = overlay supersessions refutations raw, snap_raw = raw\<rparr>"
    using assms unfolding n by auto
  note items = items_ofD[OF maps(1)] items_ofD[OF maps(2)]
  show "\<forall>stream. rows_ok (snap_raw snap stream)" using load_records_ok[OF raw] snap by simp
  show "snap_records snap = overlay (map_items ''supersedes_map'' (snap_manifest snap))
          (map_items ''refutations_map'' (snap_manifest snap)) (snap_raw snap)"
    using items snap by simp
  have v: "validate_manifest IntegrityError m = Inr ()" using m by (simp add: audited_manifest_def)
  then show "validate_manifest IntegrityError (snap_manifest snap) = Inr ()" using snap by simp
  show "superseded_targets (map_items ''supersedes_map'' (snap_manifest snap)) =
          entry_targets (map_items ''supersedes_map'' (snap_manifest snap))"
    using check_supersedes_entries[OF v maps(1)] items snap by simp
  obtain succ where "collect_successors IntegrityError raw [] supersessions = Inr succ"
    "list_all (\<lambda>((stream, target), _). chain_ends succ stream [] target) succ"
    using life maps by (auto simp: validate_lifecycle_def)
  then show "lifecycle_ok (map_items ''supersedes_map'' (snap_manifest snap)) (snap_raw snap)"
    using items snap by (auto simp: lifecycle_ok_def collect_successors_iff entry_targets_links list_all_iff)
  show "read_json_object ''revisions'' (snap_revision snap) s = Inr (snap_manifest snap)"
    using m snap by (auto simp: audited_manifest_def read_manifest_def split: sum.splits if_splits option.splits)
qed

section \<open>Properties of a read\<close>

definition rows_of_snapshot_ok :: "snapshot \<Rightarrow> string \<Rightarrow> bool" where
  "rows_of_snapshot_ok snap stream \<longleftrightarrow>
     (let raw = snap_raw snap stream; entries = map_items ''supersedes_map'' (snap_manifest snap) in
      rows_ok raw \<and> map row_id (snap_records snap stream) = map row_id raw \<and>
      list_all2 (\<lambda>row original. is_active row =
          (is_active original \<and> (stream, row_id original) \<notin> set (entry_targets entries) \<and>
           (stream, JStr (digest_json original)) \<notin>
             set (refuted_targets (map_items ''refutations_map'' (snap_manifest snap)))))
        (snap_records snap stream) raw)"

lemma rows_objects: "rows_ok xs \<Longrightarrow> x \<in> set xs \<Longrightarrow> is_obj x"
  by (simp add: rows_ok_def list_all_iff)

lemma overlay_rows:
  assumes "rows_ok (raw stream)"
  shows "map row_id (overlay supersessions refutations raw stream) = map row_id (raw stream)"
    and "list_all2 (\<lambda>row original. is_active row =
        (is_active original \<and> (stream, row_id original) \<notin> set (superseded_targets supersessions) \<and>
         (stream, JStr (digest_json original)) \<notin> set (refuted_targets refutations)))
      (overlay supersessions refutations raw stream) (raw stream)"
  using rows_objects[OF assms]
  by (auto simp: overlay_def is_active_overlay list.rel_map list.rel_refl_strong list_all2_same)

lemma snapshot_view:
  assumes "snapshot_under_gate n revision use_watermark s = Inr snap"
  shows "map row_id (snap_records snap stream) = map row_id (snap_raw snap stream)"
    and "list_all2 (\<lambda>row original. is_active row =
        (is_active original \<and>
         (stream, row_id original) \<notin> set (entry_targets (map_items ''supersedes_map'' (snap_manifest snap))) \<and>
         (stream, JStr (digest_json original)) \<notin>
           set (refuted_targets (map_items ''refutations_map'' (snap_manifest snap)))))
      (snap_records snap stream) (snap_raw snap stream)"
proof -
  note d = snapshotD[OF assms]
  let ?S = "map_items ''supersedes_map'' (snap_manifest snap)"
  let ?R = "map_items ''refutations_map'' (snap_manifest snap)"
  note view = overlay_rows[where raw = "snap_raw snap" and supersessions = ?S and refutations = ?R, OF d(1)[rule_format]]
  show "map row_id (snap_records snap stream) = map row_id (snap_raw snap stream)"
    unfolding d(2) by (rule view(1))
  show "list_all2 (\<lambda>row original. is_active row =
        (is_active original \<and> (stream, row_id original) \<notin> set (entry_targets ?S) \<and>
         (stream, JStr (digest_json original)) \<notin> set (refuted_targets ?R)))
      (snap_records snap stream) (snap_raw snap stream)"
    unfolding d(2) d(3)[symmetric] by (rule view(2))
qed

text \<open>C21: A revision that can be read at all is consistent: in every stream the records have distinct,
  non-empty identifiers, the overlaid records are the stored ones in the same order, and a record
  is active exactly when it was written active and the manifest neither supersedes nor refutes
  it; every supersession of the manifest names two records of its stream, no record is superseded
  twice, and following the successors of a record ends.\<close>

theorem snapshot_consistent:
  "case snapshot_under_gate n revision use_watermark s of
     Inl _ \<Rightarrow> True
   | Inr snap \<Rightarrow>
       list_all (rows_of_snapshot_ok snap) STREAMS \<and>
       lifecycle_ok (map_items ''supersedes_map'' (snap_manifest snap)) (snap_raw snap)"
proof (cases "snapshot_under_gate n revision use_watermark s")
  case (Inr snap)
  note d = snapshotD[OF Inr]
  have "rows_of_snapshot_ok snap stream" for stream
    using d(1) snapshot_view[OF Inr] by (simp add: rows_of_snapshot_ok_def Let_def)
  then show ?thesis using Inr d(4) by (simp add: list_all_iff)
qed simp

lemma row_state_active:
  "row_state snap stream row = ''active'' \<longleftrightarrow>
     is_active row \<and> (stream, row_id row) \<notin> set (entry_targets (map_items ''supersedes_map'' (snap_manifest snap))) \<and>
     (stream, JStr (digest_json row)) \<notin> set (refuted_targets (map_items ''refutations_map'' (snap_manifest snap)))"
  by (simp add: row_state_def)

lemma filter_zip_related:
  "list_all2 (\<lambda>x y. P x = Q y) xs ys \<Longrightarrow> map snd (filter (\<lambda>(x, y). P x) (zip xs ys)) = filter Q ys"
  by (induction rule: list_all2_induct) auto

text \<open>The state of a record that is not active in the overlaid view: refutation comes before supersession.\<close>

definition lost_state :: "snapshot \<Rightarrow> string \<Rightarrow> json \<Rightarrow> string" where
  "lost_state snap stream original =
     (if (stream, JStr (digest_json original)) \<in> set (refuted_targets (map_items ''refutations_map'' (snap_manifest snap)))
      then ''refuted''
      else if (stream, row_id original) \<in> set (entry_targets (map_items ''supersedes_map'' (snap_manifest snap)))
      then ''superseded'' else ''inactive'')"

lemma row_state_lost: "row_state snap stream row \<noteq> ''active'' \<Longrightarrow> row_state snap stream row = lost_state snap stream row"
  by (auto simp: row_state_def lost_state_def split: if_splits)

lemma filter_zip_not_related:
  "list_all2 (\<lambda>x y. P x = Q y) xs ys \<Longrightarrow> map snd (filter (\<lambda>(x, y). \<not> P x) (zip xs ys)) = filter (\<lambda>y. \<not> Q y) ys"
  by (induction rule: list_all2_induct) auto

lemma tombstones_of_view:
  assumes "list_all2 (\<lambda>row original. is_active row = (row_state snap stream original = ''active''))
    (snap_records snap stream) (snap_raw snap stream)"
  shows "tombstones_of snap stream =
    map (\<lambda>(row, original). (stream, digest_json original, lost_state snap stream original))
      (filter (\<lambda>(row, original). \<not> is_active row) (zip (snap_records snap stream) (snap_raw snap stream)))"
    (is "_ = map ?f ?lost")
proof -
  have "map ?f ?lost = map (\<lambda>x. (stream, digest_json x, lost_state snap stream x)) (map snd ?lost)"
    by (simp add: case_prod_unfold comp_def)
  also have "\<dots> = tombstones_of snap stream"
    unfolding filter_zip_not_related[OF assms] tombstones_of_def
    by (rule map_cong) (use row_state_lost[of snap stream] in auto)
  finally show ?thesis by (rule sym)
qed

text \<open>C22: Compaction keeps exactly what a reader of the revision sees as active: the active projection
  of a snapshot is the stored form of the records that are active in its overlaid view, in their
  order. Every other record becomes exactly one tombstone, with its stream, the digest of its stored
  form and its state, refuted when a refutation names its digest, else superseded when a supersession
  names its identifier, else inactive; there are no other tombstones, and they are sorted by the
  position of the stream and then by digest.\<close>

theorem projection_is_active_view:
  "case snapshot_under_gate n revision use_watermark s of
     Inl _ \<Rightarrow> True
   | Inr snap \<Rightarrow>
       list_all (\<lambda>stream. active_rows (project_snapshot snap) stream =
           map snd (filter (\<lambda>(row, original). is_active row) (zip (snap_records snap stream) (snap_raw snap stream)))) STREAMS \<and>
       mset (record_tombstones (project_snapshot snap)) = mset (concat (map (\<lambda>stream.
         map (\<lambda>(row, original). (stream, digest_json original, lost_state snap stream original))
           (filter (\<lambda>(row, original). \<not> is_active row) (zip (snap_records snap stream) (snap_raw snap stream)))) STREAMS)) \<and>
       sorted (map (\<lambda>(stream, digest, _). (stream_index stream, digest)) (record_tombstones (project_snapshot snap))) \<and>
       length (record_tombstones (project_snapshot snap)) +
         sum_list (map (\<lambda>stream. length (active_rows (project_snapshot snap) stream)) STREAMS) =
         sum_list (map (\<lambda>stream. length (snap_raw snap stream)) STREAMS)"
proof (cases "snapshot_under_gate n revision use_watermark s")
  case (Inr snap)
  have related: "list_all2 (\<lambda>row original. is_active row = (row_state snap stream original = ''active''))
      (snap_records snap stream) (snap_raw snap stream)" for stream
    using snapshot_view(2)[OF Inr] unfolding row_state_active by (simp only: conj_commute conj_left_commute)
  from filter_zip_related[OF this]
  have view: "active_rows (project_snapshot snap) stream =
      map snd (filter (\<lambda>(row, original). is_active row) (zip (snap_records snap stream) (snap_raw snap stream)))" for stream
    by (simp add: project_snapshot_def Let_def)
  have tombs: "record_tombstones (project_snapshot snap) =
      sort_key (\<lambda>(stream, digest, _). (stream_index stream, digest)) (concat (map (tombstones_of snap) STREAMS))"
    by (simp add: project_snapshot_def Let_def)
  have count: "length (tombstones_of snap stream) + length (active_rows (project_snapshot snap) stream) =
      length (snap_raw snap stream)" for stream
    using sum_length_filter_compl[of "\<lambda>row. row_state snap stream row = ''active''" "snap_raw snap stream"]
    by (simp add: tombstones_of_def project_snapshot_def Let_def)
  have "length (record_tombstones (project_snapshot snap)) =
      sum_list (map (\<lambda>stream. length (tombstones_of snap stream)) STREAMS)"
    by (simp add: tombs length_concat comp_def)
  then have total: "length (record_tombstones (project_snapshot snap)) +
      sum_list (map (\<lambda>stream. length (active_rows (project_snapshot snap) stream)) STREAMS) =
      sum_list (map (\<lambda>stream. length (snap_raw snap stream)) STREAMS)"
    using count[of "''facts''"] count[of "''events''"] count[of "''episodes''"] by (simp add: STREAMS_def)
  have "mset (record_tombstones (project_snapshot snap)) = mset (concat (map (tombstones_of snap) STREAMS))"
    unfolding tombs by simp
  moreover have "sorted (map (\<lambda>(stream, digest, _). (stream_index stream, digest)) (record_tombstones (project_snapshot snap)))"
    unfolding tombs by (rule sorted_sort_key)
  moreover have "tombstones_of snap = (\<lambda>stream.
      map (\<lambda>(row, original). (stream, digest_json original, lost_state snap stream original))
        (filter (\<lambda>(row, original). \<not> is_active row) (zip (snap_records snap stream) (snap_raw snap stream))))"
    by (rule ext) (rule tombstones_of_view[OF related])
  ultimately show ?thesis unfolding Inr sum.case using total view by (simp only: list_all_iff) blast
qed simp

section \<open>Writes keep the lifecycle\<close>

lemma chain_ends_extended:
  assumes "chain_ends succ stream visited cursor"
    and "\<And>key. map_of succ key \<noteq> None \<Longrightarrow> map_of succ' key = map_of succ key"
    and "\<And>c heir. map_of succ' (stream, c) = Some heir \<Longrightarrow> map_of succ (stream, c) = None \<Longrightarrow>
      map_of succ' (stream, heir) = None"
    and "\<forall>c\<in>set visited. map_of succ (stream, c) \<noteq> None"
  shows "chain_ends succ' stream visited cursor"
  using assms
proof (induction succ stream visited cursor rule: chain_ends.induct)
  case (1 succ stream visited cursor)
  show ?case
  proof (cases "map_of succ (stream, cursor)")
    case None
    then have "cursor \<notin> set visited" using "1.prems"(4) by blast
    then show ?thesis
      using None "1.prems"(3)[of cursor]
      by (auto simp: chain_ends.simps[of succ' stream visited cursor]
          chain_ends.simps[of succ' stream "cursor # visited"] split: option.splits)
  next
    case (Some heir)
    then have fresh: "cursor \<notin> set visited" and rest: "chain_ends succ stream (cursor # visited) heir"
      using "1.prems"(1) by (auto simp: chain_ends.simps[of succ stream visited cursor] split: if_splits)
    have seen: "\<forall>c\<in>set (cursor # visited). map_of succ (stream, c) \<noteq> None" using Some "1.prems"(4) by simp
    have "chain_ends succ' stream (cursor # visited) heir"
      by (rule "1.IH"[OF Some fresh rest _ _ seen]) (use "1.prems"(2,3) in blast)+
    then show ?thesis
      using Some fresh "1.prems"(2)[of "(stream, cursor)"]
      by (simp add: chain_ends.simps[of succ' stream visited cursor])
  qed
qed

lemma find_row_member: "find_row xs i = Some x \<Longrightarrow> x \<in> set xs \<and> row_id x = i"
  by (auto simp: find_row_def find_Some_iff)

text \<open>A record that was active in the view is not superseded yet.\<close>

lemma active_not_superseded:
  assumes snap: "snapshot_under_gate n revision use_watermark s = Inr snap"
    and row: "row \<in> set (snap_records snap stream)" "is_active row"
  shows "(stream, row_id row) \<notin> set (entry_targets (map_items ''supersedes_map'' (snap_manifest snap)))"
    and "row_id row \<in> set (map row_id (snap_raw snap stream))"
proof -
  obtain k where k: "k < length (snap_records snap stream)" "snap_records snap stream ! k = row"
    using row(1) by (auto simp: in_set_conv_nth)
  note view = snapshot_view[OF snap, of stream]
  have len: "length (snap_raw snap stream) = length (snap_records snap stream)"
    using view(2) by (simp add: list_all2_lengthD)
  have "map row_id (snap_records snap stream) ! k = map row_id (snap_raw snap stream) ! k"
    using view(1) by simp
  then have same: "row_id (snap_raw snap stream ! k) = row_id row" using k len by simp
  then show "(stream, row_id row) \<notin> set (entry_targets (map_items ''supersedes_map'' (snap_manifest snap)))"
    using list_all2_nthD[OF view(2) k(1)] row(2) k by simp
  show "row_id row \<in> set (map row_id (snap_raw snap stream))"
    using same k len by (metis in_set_conv_nth length_map nth_map)
qed

text \<open>The items of a plan that supersede, as the policy validates them: the target is a string, the
  stream is known, the new record has a string identifier.\<close>

definition supersede_item_ok :: "rows \<Rightarrow> json \<Rightarrow> bool" where
  "supersede_item_ok pending item \<longleftrightarrow>
     str_in (get ''stream'' item) STREAMS \<and> is_str (get ''supersedes'' item) \<and>
     is_str (get ''id'' (get ''record'' item)) \<and>
     get ''record'' item \<in> set (pending (str_of (get ''stream'' item)))"

lemma traverse_map_image:
  "traverse f xs = Inr ys \<Longrightarrow> (\<And>x y. x \<in> set xs \<Longrightarrow> f x = Inr y \<Longrightarrow> y = g x) \<Longrightarrow> ys = map g xs"
  by (induction xs arbitrary: ys) auto

lemma traverse_member: "traverse f xs = Inr ys \<Longrightarrow> x \<in> set xs \<Longrightarrow> \<exists>y. f x = Inr y"
  by (induction xs arbitrary: ys) auto

lemma supersede_targetD:
  assumes "supersede_target records item = Inr entry"
  shows "entry = supersede_entry item \<and>
    (\<exists>row\<in>set (records (str_of (get ''stream'' item))).
       row_id row = str_of (get ''supersedes'' item) \<and> is_active row)"
  using assms
  by (auto simp: supersede_target_def Let_def split: option.splits if_splits dest!: find_row_member)

lemma link_of_supersede_entry:
  "supersede_item_ok pending item \<Longrightarrow>
   link_of (supersede_entry item) =
     ((str_of (get ''stream'' item), str_of (get ''supersedes'' item)), str_of (get ''id'' (get ''record'' item)))"
  by (auto simp: link_of_def supersede_entry_def supersede_item_ok_def is_str_iff str_in_iff)

lemma assign_rows_fresh:
  "assign_rows stream existing xs = Inr u \<Longrightarrow> row \<in> set xs \<Longrightarrow>
   \<exists>v. get ''id'' row = JStr v \<and> v \<noteq> [] \<and> v \<notin> set existing"
proof (induction stream existing xs rule: assign_rows.induct)
  case (2 stream existing r rest)
  then obtain v where v: "get ''id'' r = JStr v" "v \<noteq> []" "v \<notin> set existing"
    "assign_rows stream (v # existing) rest = Inr u"
    by (auto split: json.splits if_splits)
  show ?case
  proof (cases "row = r")
    case True
    with v show ?thesis by simp
  next
    case False
    then show ?thesis using "2.IH"[OF v(1,2,3,4)] "2.prems" by auto
  qed
qed simp

lemma pending_fresh:
  assumes "assign_records base pending = Inr ()" and "rows_ok (raw stream)"
    and "map row_id (base stream) = map row_id (raw stream)" and "stream \<in> set STREAMS"
    and "row \<in> set (pending stream)"
  shows "row_id row \<notin> set (map row_id (raw stream)) \<and> get ''id'' row = JStr (row_id row)"
proof -
  have "assign_rows stream (map (\<lambda>row. py_str (get ''id'' row)) (base stream)) (pending stream) = Inr ()"
    using assms(1,4) by (simp add: assign_records_def)
  from assign_rows_fresh[OF this assms(5)] obtain v where
    v: "get ''id'' row = JStr v" "v \<noteq> []" "v \<notin> set (map (\<lambda>row. py_str (get ''id'' row)) (base stream))"
    by blast
  have "py_str (get ''id'' r) = row_id r" if "r \<in> set (base stream)" for r
  proof -
    have "row_id r \<in> set (map row_id (raw stream))" using that assms(3) by (metis image_eqI list.set_map)
    then have "row_id r \<noteq> []" using assms(2) by (metis rows_ok_def)
    then show ?thesis by (auto simp: row_id_def split: if_splits)
  qed
  then have "map (\<lambda>row. py_str (get ''id'' row)) (base stream) = map row_id (base stream)" by simp
  then have "v \<notin> set (map row_id (raw stream))" using v(3) assms(3) by simp
  moreover have "row_id row = v"
    using v(1) not_has_key_get[of "''id''" row] by (auto simp: row_id_def)
  ultimately show ?thesis using v(1) by simp
qed

lemma map_of_links_append:
  "distinct (map (fst \<circ> link_of) (xs @ ys)) \<Longrightarrow>
   map_of (rev (map link_of (xs @ ys))) key =
     (case map_of (rev (map link_of xs)) key of Some h \<Rightarrow> Some h | None \<Rightarrow> map_of (rev (map link_of ys)) key)"
  by (auto simp: map_add_def dom_map_of_conv_image_fst split: option.splits dest!: map_of_SomeD)
    (metis (no_types, lifting) IntI empty_iff fst_conv image_eqI)

lemma links_extended:
  assumes old: "lifecycle_ok entries raw"
    and distinct: "distinct (entry_targets (entries @ new))"
    and ids: "\<forall>entry\<in>set new. snd (fst (link_of entry)) \<in> set (map row_id (raw (fst (fst (link_of entry)))))"
    and heirs: "\<forall>entry\<in>set new. snd (link_of entry) \<in> set (map row_id (pending (fst (fst (link_of entry))))) \<and>
      snd (link_of entry) \<notin> set (map row_id (raw (fst (fst (link_of entry)))))"
  shows "lifecycle_ok (entries @ new) (\<lambda>stream. raw stream @ pending stream)"
proof -
  let ?succ = "rev (map link_of entries)" and ?succ' = "rev (map link_of (entries @ new))"
  let ?Q = "\<lambda>((stream, target), _). chain_ends ?succ' stream [] target"
  have d: "distinct (map (fst \<circ> link_of) (entries @ new))" using distinct by (simp only: entry_targets_links)
  note look = map_of_links_append[OF d]
  have keys: "snd key \<in> set (map row_id (raw (fst key)))" if "map_of ?succ' key \<noteq> None" for key
  proof -
    from that obtain h where "(key, h) \<in> set ?succ'" by (metis map_of_SomeD not_None_eq)
    then have "(key, h) \<in> link_of ` set (entries @ new)" by (simp only: set_rev set_map)
    then obtain entry where "entry \<in> set (entries @ new)" "link_of entry = (key, h)" by (metis imageE)
    then show ?thesis
      using old ids by (auto simp: lifecycle_ok_def list_all_iff linked_rows_def)
  qed
  have ends: "chain_ends ?succ' stream [] target" if "link_of entry = ((stream, target), h)" "entry \<in> set (entries @ new)"
    for entry stream target h
  proof (rule chain_ends_extended[where succ = ?succ])
    show "chain_ends ?succ stream [] target"
    proof (cases "entry \<in> set entries")
      case True
      then show ?thesis using old that(1) by (auto simp: lifecycle_ok_def list_all_iff)
    next
      case False
      then have "entry \<in> set new" using that(2) by simp
      then have "(fst \<circ> link_of) entry \<in> set (map (fst \<circ> link_of) new)" by simp
      moreover have "set (map (fst \<circ> link_of) entries) \<inter> set (map (fst \<circ> link_of) new) = {}"
        using d by (simp only: map_append distinct_append)
      ultimately have "(stream, target) \<notin> set (map (fst \<circ> link_of) entries)" using that(1) by auto
      then have "map_of ?succ (stream, target) = None"
        by (simp only: map_of_eq_None_iff set_rev set_map image_comp not_False_eq_True)
      then show ?thesis by (simp add: chain_ends.simps[of ?succ stream "[]" target])
    qed
    show "map_of ?succ' key = map_of ?succ key" if "map_of ?succ key \<noteq> None" for key
      using that look[of key] by auto
    show "map_of ?succ' (stream, heir) = None"
      if step: "map_of ?succ' (stream, c) = Some heir" "map_of ?succ (stream, c) = None" for c heir
    proof (rule ccontr)
      assume "map_of ?succ' (stream, heir) \<noteq> None"
      then have "heir \<in> set (map row_id (raw stream))" using keys by force
      moreover have "map_of (rev (map link_of new)) (stream, c) = Some heir" using step look by simp
      then have "((stream, c), heir) \<in> set (rev (map link_of new))" by (rule map_of_SomeD)
      then have "((stream, c), heir) \<in> link_of ` set new" by (simp only: set_rev set_map)
      then obtain e where "e \<in> set new" "link_of e = ((stream, c), heir)" by (metis imageE)
      ultimately show False using heirs by force
    qed
    show "\<forall>c\<in>set []. map_of ?succ (stream, c) \<noteq> None" by simp
  qed
  have linked: "list_all (linked_rows (\<lambda>stream. raw stream @ pending stream)) (entries @ new)"
    using old ids heirs by (auto simp: lifecycle_ok_def list_all_iff linked_rows_def)
  have each_end: "?Q (link_of entry)"
    if mem: "entry \<in> set (entries @ new)" for entry
  proof -
    obtain stream target h where l: "link_of entry = ((stream, target), h)" by (metis prod.exhaust)
    then show ?thesis using ends[OF l mem] by simp
  qed
  have "list_all ?Q (map link_of (entries @ new))"
    unfolding list_all_iff
  proof (rule ballI)
    fix l assume "l \<in> set (map link_of (entries @ new))"
    then have "l \<in> link_of ` set (entries @ new)" by (simp only: set_map)
    then obtain entry where "entry \<in> set (entries @ new)" "l = link_of entry" by (rule imageE)
    then show "?Q l" using each_end by simp
  qed
  with linked show ?thesis using distinct unfolding lifecycle_ok_def by blast
qed

text \<open>When the supersede targets of a plan, no two the same, resolve against a snapshot and its new
  records have fresh identifiers, then the supersession map with the new entries and the streams with
  the new records satisfy again everything \<open>validate_lifecycle\<close> asks of supersessions.\<close>

lemma supersede_keeps_lifecycle:
  assumes snap: "snapshot_at n (Some observed) True s = Inr snap"
    and entries: "resolve_supersede_targets n plan observed s = Inr entries"
    and fresh: "assign_records (snap_records snap) pending = Inr ()"
    and items: "list_all (supersede_item_ok pending) (filter is_supersede (list_items (get ''records'' plan)))"
    and once: "distinct (map (\<lambda>item. (get ''stream'' item, get ''supersedes'' item))
      (filter is_supersede (list_items (get ''records'' plan))))"
  shows "lifecycle_ok (map_items ''supersedes_map'' (snap_manifest snap) @ entries)
    (\<lambda>stream. snap_raw snap stream @ pending stream)"
proof -
  let ?items = "filter is_supersede (list_items (get ''records'' plan))"
  have run: "snapshot_under_gate n (Some observed) True s = Inr snap"
    using snap by (simp add: snapshot_at_def split: if_splits)
  note d = snapshotD[OF run]
  have found: "traverse (supersede_target (snap_records snap)) ?items = Inr entries"
    using entries snap by (cases "?items = []") (auto simp: resolve_supersede_targets_def Let_def)
  then have eq: "entries = map supersede_entry ?items"
    by (rule traverse_map_image) (auto dest: supersede_targetD)
  have target: "\<exists>row\<in>set (snap_records snap (str_of (get ''stream'' item))).
      row_id row = str_of (get ''supersedes'' item) \<and> is_active row" if "item \<in> set ?items" for item
    using traverse_member[OF found that] by (auto dest: supersede_targetD)
  have link: "link_of (supersede_entry item) =
     ((str_of (get ''stream'' item), str_of (get ''supersedes'' item)), str_of (get ''id'' (get ''record'' item)))"
    "supersede_item_ok pending item" if "item \<in> set ?items" for item
    using items that link_of_supersede_entry by (auto simp: list_all_iff)
  have old: "key \<notin> set (entry_targets (map_items ''supersedes_map'' (snap_manifest snap)))" "snd key \<in> set (map row_id (snap_raw snap (fst key)))"
    if i: "item \<in> set ?items" and k: "key = (str_of (get ''stream'' item), str_of (get ''supersedes'' item))" for item key
  proof -
    obtain row where "row \<in> set (snap_records snap (fst key))" "row_id row = snd key" "is_active row"
      using target[OF i] k by auto
    from active_not_superseded[OF run this(1,3)] this(2)
    show "key \<notin> set (entry_targets (map_items ''supersedes_map'' (snap_manifest snap)))"
      "snd key \<in> set (map row_id (snap_raw snap (fst key)))" by simp_all
  qed
  have targets: "entry_targets entries = map (\<lambda>item. (str_of (get ''stream'' item), str_of (get ''supersedes'' item))) ?items"
    unfolding entry_targets_links eq map_map by (rule map_cong) (simp_all add: link)
  have "inj_on (\<lambda>item. (str_of (get ''stream'' item), str_of (get ''supersedes'' item))) (set ?items)"
    if inj: "inj_on (\<lambda>item. (get ''stream'' item, get ''supersedes'' item)) (set ?items)"
  proof (rule inj_onI)
    fix x y assume x: "x \<in> set ?items" and y: "y \<in> set ?items"
      and eq: "(str_of (get ''stream'' x), str_of (get ''supersedes'' x)) =
        (str_of (get ''stream'' y), str_of (get ''supersedes'' y))"
    have "get ''stream'' i = JStr (str_of (get ''stream'' i)) \<and> get ''supersedes'' i = JStr (str_of (get ''supersedes'' i))"
      if "i \<in> set ?items" for i
      using link(2)[OF that] by (auto simp: supersede_item_ok_def is_str_iff str_in_iff)
    from this[OF x] this[OF y] have "(get ''stream'' x, get ''supersedes'' x) = (get ''stream'' y, get ''supersedes'' y)"
      using eq by simp
    then show "x = y" using inj_onD[OF inj _ x y] by simp
  qed
  then have "distinct (entry_targets entries)"
    using once unfolding targets distinct_map by blast
  moreover have "set (entry_targets entries) \<inter> set (entry_targets (map_items ''supersedes_map'' (snap_manifest snap))) = {}"
    using old(1) unfolding targets by auto
  ultimately have distinct: "distinct (entry_targets (map_items ''supersedes_map'' (snap_manifest snap) @ entries))"
    using d(4) by (auto simp: lifecycle_ok_def entry_targets_def)
  have heirs: "snd (link_of entry) \<in> set (map row_id (pending (fst (fst (link_of entry))))) \<and>
      snd (link_of entry) \<notin> set (map row_id (snap_raw snap (fst (fst (link_of entry)))))" if new: "entry \<in> set entries" for entry
  proof -
    obtain item where i: "item \<in> set ?items" "entry = supersede_entry item" using new eq by auto
    note ok = link(2)[OF i(1), unfolded supersede_item_ok_def]
    have "str_of (get ''stream'' item) \<in> set STREAMS" using ok by (auto simp: str_in_iff)
    from pending_fresh[where raw = "snap_raw snap", OF fresh d(1)[rule_format] snapshot_view(1)[OF run] this] ok
    show ?thesis using link(1)[OF i(1)] i(2) by auto
  qed
  show ?thesis
    by (rule links_extended[OF d(4) distinct])
      (use heirs eq link old in \<open>fastforce\<close>)+
qed

section \<open>Examples\<close>

text \<open>A store whose root revision holds one fact, and a plan that supersedes it.\<close>

definition fact_row :: json where
  "fact_row = mk_obj [(''id'', JStr ''f-1''), (''text'', JStr ''a'')]"

definition next_fact :: json where
  "next_fact = mk_obj [(''id'', JStr ''f-2''), (''text'', JStr ''b'')]"

definition old_checkpoint :: json where
  "old_checkpoint = mk_obj [(''schema'', JStr ''an-kla/checkpoint-v1'')]"

definition fact_root :: json where
  "fact_root = mk_obj
     [(''schema'', rev1), (''revision'', JInt 0), (''parent'', JNull),
      (''facts_segments'', JArr [JStr (digest_bytes (segment_text [fact_row]))]),
      (''events_segments'', JArr []), (''episodes_segments'', JArr []),
      (''checkpoint'', JStr (digest_json old_checkpoint)), (''transaction_id'', JStr ''root''),
      (''canonicalization'', JStr ''canonical-json/v1''),
      (''integrity_claim'', JStr ''content_identity_not_truth_or_authorship'')]"

definition with_object :: "string \<Rightarrow> json \<Rightarrow> os \<Rightarrow> os" where
  "with_object kind v s = store_file (kind @ ''/sha256/'' @ sha256_hex (canonical_json v) @ ''.json'') (canonical_json v) s"

definition fact_store :: os where
  "fact_store = with_object ''revisions'' fact_root (with_object ''checkpoints'' old_checkpoint
     (store_file (''segments/facts/sha256/'' @ sha256_hex (segment_text [fact_row]) @ ''.jsonl'')
        (segment_text [fact_row]) (blank True)))"

lemma fact_storable: "storable fact_row" "storable old_checkpoint" "storable fact_root"
  unfolding fact_row_def old_checkpoint_def fact_root_def rev1_def
  by (intro storable_mk_obj; auto simp: valid_utf8_ascii)+

lemma fact_store_reads:
  "read_json_object ''revisions'' (digest_json fact_root) fact_store = Inr fact_root"
  "read_json_object ''checkpoints'' (digest_json old_checkpoint) fact_store = Inr old_checkpoint"
  by (rule storable_read_back; simp add: fact_storable digest_json_def bytes_under_digest(3) fact_store_def
      with_object_def)+

lemma fact_segment:
  "read_segment ''facts'' (digest_bytes (segment_text [fact_row])) fact_store = Inr [fact_row]"
proof -
  have "bytes_under (segment_kind ''facts'') ''.jsonl'' (digest_bytes (segment_text [fact_row])) fact_store =
      Some (segment_text [fact_row])"
    by (simp add: bytes_under_digest(3) fact_store_def with_object_def segment_kind_def)
  moreover have "\<not> has_break (canonical_json fact_row)" by code_simp
  moreover have "is_obj fact_row" by (simp add: fact_row_def)
  ultimately show ?thesis using read_segment_text[of "''facts''" "[fact_row]" fact_store] read_back_iff[of "[fact_row]"]
    by (simp add: fact_storable)
qed

lemma fact_root_valid: "validate_manifest IntegrityError fact_root = Inr ()"
  by (simp add: fact_root_def validate_manifest_def manifest_shape_def manifest_required_def
      is_natural_def check_root_parent_def check_manifest_transaction_def STREAMS_def segments_key_def
      check_supersedes_map_def check_segment_list_def list_all_iff Let_def)

lemma fact_load: "load_records fact_store fact_root = Inr (\<lambda>stream. if stream = ''facts'' then [fact_row] else [])"
proof -
  have "load_stream fact_store fact_root ''facts'' = Inr [fact_row]"
    using fact_segment by (simp add: load_stream_def fact_root_def items_of_def segments_key_def)
      (simp add: fact_row_def row_id_def)
  moreover have "load_stream fact_store fact_root stream = Inr []" if "stream = ''events'' \<or> stream = ''episodes''" for stream
    using that by (auto simp: load_stream_def fact_root_def items_of_def segments_key_def)
  ultimately show ?thesis by (auto simp: load_records_def STREAMS_def fun_eq_iff)
qed

definition fact_snapshot :: snapshot where
  "fact_snapshot = \<lparr>snap_revision = digest_json fact_root, snap_manifest = fact_root, snap_checkpoint = old_checkpoint,
     snap_records = (\<lambda>stream. if stream = ''facts'' then [fact_row] else []),
     snap_raw = (\<lambda>stream. if stream = ''facts'' then [fact_row] else [])\<rparr>"

lemma fact_snapshot_reads: "snapshot_at 1 (Some (digest_json fact_root)) True fact_store = Inr fact_snapshot"
proof -
  have r: "requested (Some (digest_json fact_root)) fact_store = Inr (digest_json fact_root)"
    by (simp add: requested_def digest_json_def digest_bytes_def)
  have mark: "usable_watermark fact_store = None"
    by (simp add: usable_watermark_def fact_store_def with_object_def watermark_path_def)
  have chain: "validate_revision_chain IntegrityError None (digest_json fact_root) fact_root fact_store = Inr ()"
    by (simp add: validate_revision_chain_def binding_matches_def numeral_2_eq_2)
      (simp add: fact_root_def rev1_def rev3_def)
  have m: "audited_manifest (digest_json fact_root) True fact_store = Inr fact_root"
    using chain by (simp add: audited_manifest_def read_manifest_def fact_store_reads fact_root_valid mark)
      (simp add: fact_root_def verify_manifest_link_def checks.simps(2))
  have cp: "py_str (get ''checkpoint'' fact_root) = digest_json old_checkpoint" by (simp add: fact_root_def)
  have v2: "validate_checkpoint_v2 old_checkpoint (get ''revision'' fact_root) = Inr ()"
    by (simp add: validate_checkpoint_v2_def old_checkpoint_def get_of_def)
  have maps: "items_of ''supersedes_map'' fact_root = Inr []" "items_of ''refutations_map'' fact_root = Inr []"
    by (simp_all add: fact_root_def items_of_def)
  have life: "validate_lifecycle f IntegrityError fact_store fact_root raw = Inr ()" for f raw
    by (simp add: validate_lifecycle_def maps)
  have "\<not> diverted fact_store" by (simp add: fact_store_def with_object_def blank_def store_file_def)
  moreover have "overlay [] [] (\<lambda>stream. if stream = ''facts'' then [fact_row] else []) =
      (\<lambda>stream. if stream = ''facts'' then [fact_row] else [])"
    by (simp add: overlay_def overlay_row_def superseded_targets_def refuted_targets_def fun_eq_iff)
  ultimately show ?thesis
    by (simp add: snapshot_at_def r m cp fact_store_reads v2 fact_load maps life fact_snapshot_def)
qed

definition supersede_plan :: json where
  "supersede_plan = mk_obj [(''records'', JArr [mk_obj [(''stream'', JStr ''facts''),
     (''operation'', JStr ''supersede''), (''record'', next_fact), (''supersedes'', JStr ''f-1'')]])]"

lemma supersede_keeps_lifecycle_witness:
  "case resolve_supersede_targets 1 supersede_plan (digest_json fact_root) fact_store of
     Inl _ \<Rightarrow> False
   | Inr entries \<Rightarrow> length entries = 1 \<and>
       lifecycle_ok (map_items ''supersedes_map'' fact_root @ entries)
         (\<lambda>stream. (if stream = ''facts'' then [fact_row] else []) @ (if stream = ''facts'' then [next_fact] else []))"
proof -
  have active: "is_active fact_row" "row_id fact_row = ''f-1''" by code_simp+
  let ?pending = "\<lambda>stream. if stream = ''facts'' then [next_fact] else []"
  let ?item = "mk_obj [(''stream'', JStr ''facts''), (''operation'', JStr ''supersede''),
    (''record'', next_fact), (''supersedes'', JStr ''f-1'')]"
  have nf: "get ''id'' next_fact = JStr ''f-2''" by (simp add: next_fact_def)
  note reads = fact_snapshot_reads[unfolded One_nat_def]
  have items: "filter is_supersede (list_items (get ''records'' supersede_plan)) = [?item]"
    by (simp add: supersede_plan_def is_supersede_def)
  have e: "resolve_supersede_targets 1 supersede_plan (digest_json fact_root) fact_store = Inr [supersede_entry ?item]"
    using active reads
    by (simp add: resolve_supersede_targets_def items Let_def supersede_target_def find_row_def nf
        fact_snapshot_def)
  have fresh: "assign_records (snap_records fact_snapshot) ?pending = Inr ()"
    by (simp add: assign_records_def STREAMS_def fact_snapshot_def) (simp add: next_fact_def fact_row_def)
  have ok: "list_all (supersede_item_ok ?pending) (filter is_supersede (list_items (get ''records'' supersede_plan)))"
    unfolding items by (simp add: supersede_item_ok_def STREAMS_def) (simp add: next_fact_def)
  have "distinct (map (\<lambda>item. (get ''stream'' item, get ''supersedes'' item))
      (filter is_supersede (list_items (get ''records'' supersede_plan))))"
    unfolding items by simp
  from supersede_keeps_lifecycle[OF fact_snapshot_reads e fresh ok this] show ?thesis
    unfolding e by (simp add: fact_snapshot_def)
qed

end
