(* ===== verification/SnapshotDepth.thy ===== *)
theory SnapshotDepth
  imports Lifecycle
begin

text \<open>
  How deep and how wide the read of a revision nests. Every refutation of the manifest makes the
  read take a snapshot of the revision it was decided on, which holds one refutation less: the
  nesting ends, and the number of snapshots taken doubles with every refutation.
\<close>

section \<open>Refutations along an audited chain\<close>

abbreviation refutations_of :: "json \<Rightarrow> json list" where
  "refutations_of m \<equiv> map_items ''refutations_map'' m"

definition stored_refutation :: "os \<Rightarrow> json \<Rightarrow> json res" where
  "stored_refutation s entry = read_json_object ''refutations'' (py_str (get ''refutation_id'' entry)) s"

definition refutation_target :: "os \<Rightarrow> json \<Rightarrow> string" where
  "refutation_target s entry =
     (case stored_refutation s entry of Inl _ \<Rightarrow> [] | Inr value \<Rightarrow> str_of (get ''target_revision'' value))"

lemma check_transition_refutations:
  assumes t: "check_transition error i m p parent s = Inr u" and schema: "get ''schema'' m \<noteq> rev3"
    and valid: "validate_manifest error m = Inr ()"
  shows "get ''schema'' parent \<noteq> rev3" and
    "refutations_of m = refutations_of parent \<or>
     (\<exists>entry. refutations_of m = refutations_of parent @ [entry] \<and> refutation_target s entry = p)"
proof -
  note v = check_transitionD(1)[OF t]
  obtain added where delta: "refutation_delta error m parent = Inr added"
    and new: "\<forall>entry\<in>set added. check_new_refutation error p s entry = Inr ()"
    using t by (auto simp: check_transition_def)
  show "get ''schema'' parent \<noteq> rev3"
    using delta schema by (auto simp: refutation_delta_def split: if_splits)
  have target: "refutation_target s entry = p" if "entry \<in> set added" for entry
    using new that by (auto simp: check_new_refutation_def refutation_target_def stored_refutation_def)
  have own: "refutations_of m = refutations_of parent @ added \<and> length added \<le> 1"
  proof (cases "get ''schema'' parent \<in> {rev2, rev3}")
    case True
    then obtain prior own where "items_of ''refutations_map'' parent = Inr prior"
      "items_of ''refutations_map'' m = Inr own" "take (length prior) own = prior"
      "length own \<le> length prior + 1" "added = drop (length prior) own"
      using delta by (auto simp: refutation_delta_def split: if_split_asm)
    then show ?thesis
      using append_take_drop_id[of "length prior" own] by (auto dest!: items_ofD)
  next
    case False
    then have parent: "refutations_of parent = []"
      using validate_manifestD(2)[OF v] rev1_no_refutations[OF v] by blast
    show ?thesis
    proof (cases "get ''schema'' m = rev2")
      case True
      then show ?thesis using delta False parent
        by (auto simp: refutation_delta_def split: if_split_asm dest: items_ofD)
    next
      case other: False
      then have "get ''schema'' m = rev1" using validate_manifestD(2)[OF valid] schema by blast
      then show ?thesis using delta False other parent rev1_no_refutations[OF valid]
        by (auto simp: refutation_delta_def split: if_split_asm)
    qed
  qed
  show "refutations_of m = refutations_of parent \<or>
     (\<exists>entry. refutations_of m = refutations_of parent @ [entry] \<and> refutation_target s entry = p)"
  proof (cases added)
    case Nil
    then show ?thesis using own by simp
  next
    case (Cons entry rest)
    then show ?thesis using own target[of entry] by simp
  qed
qed

lemma chain_refutations:
  assumes chain: "chain_loop error None s (Suc n) seen i m = Inr ()"
    and valid: "validate_manifest error m = Inr ()" and schema: "get ''schema'' m \<noteq> rev3"
  obtains (root) "refutations_of m = []"
  | (step) p parent where "read_json_object ''revisions'' p s = Inr parent"
      "chain_loop error None s n (i # seen) p parent = Inr ()" "validate_manifest error parent = Inr ()"
      "get ''schema'' parent \<noteq> rev3" "int_of (get ''revision'' m) = int_of (get ''revision'' parent) + 1"
      "refutations_of m = refutations_of parent \<or>
       (\<exists>entry. refutations_of m = refutations_of parent @ [entry] \<and> refutation_target s entry = p)"
proof (cases "get ''parent'' m = JNull")
  case True
  then have "get ''schema'' m = rev1"
    using chain schema by (auto simp: binding_matches_def split: if_splits)
  then show ?thesis using root rev1_no_refutations[OF valid] by blast
next
  case False
  then obtain parent where r: "read_json_object ''revisions'' (py_str (get ''parent'' m)) s = Inr parent"
    and t: "check_transition error i m (py_str (get ''parent'' m)) parent s = Inr ()"
    and rest: "chain_loop error None s n (i # seen) (py_str (get ''parent'' m)) parent = Inr ()"
    using chain by (auto simp: binding_matches_def Let_def split: if_splits)
  note d = check_transitionD[OF t] and f = check_transition_refutations[OF t schema valid]
  show ?thesis by (rule step[OF r rest d(1) f(1) d(2) f(2)])
qed

section \<open>The depth of the nesting\<close>

text \<open>Every refutation was decided on a stored revision with a smaller number.\<close>

lemma refutation_targets_below:
  "chain_loop error None s n seen i m = Inr () \<Longrightarrow> validate_manifest error m = Inr () \<Longrightarrow>
   get ''schema'' m \<noteq> rev3 \<Longrightarrow> entry \<in> set (refutations_of m) \<Longrightarrow>
   \<exists>k. read_json_object ''revisions'' (refutation_target s entry) s = Inr k \<and> get ''schema'' k \<noteq> rev3 \<and>
     nat (int_of (get ''revision'' k)) < nat (int_of (get ''revision'' m))"
proof (induction n arbitrary: seen i m)
  case (Suc n)
  from Suc.prems(1-3) show ?case
  proof (cases rule: chain_refutations)
    case root
    then show ?thesis using Suc.prems(4) by simp
  next
    case (step p parent)
    show ?thesis
    proof (cases "entry \<in> set (refutations_of parent)")
      case True
      then show ?thesis using Suc.IH[OF step(2,3,4)] step(5) by force
    next
      case False
      then have "refutation_target s entry = p" using step(6) Suc.prems(4) by auto
      then show ?thesis
        using step(1,4,5) validate_manifestD(3)[OF step(3)] by (auto simp: is_natural_def)
    qed
  qed
qed simp

lemma validate_refutation_storage_cong:
  "f (str_of (get ''target_revision'' v)) = g (str_of (get ''target_revision'' v)) \<Longrightarrow>
   validate_refutation_storage f s v entry = validate_refutation_storage g s v entry"
  by (simp add: validate_refutation_storage_def)

lemma each_cong: "(\<And>x. x \<in> set xs \<Longrightarrow> f x = g x) \<Longrightarrow> each f xs = each g xs"
  by (simp add: each_def cong: map_cong)

lemma andthen_cong: "m = n \<Longrightarrow> (\<And>a. n = Inr a \<Longrightarrow> f a = g a) \<Longrightarrow> andthen m f = andthen n g"
  by (cases n) auto

lemma validate_lifecycle_cong:
  assumes "\<And>entry. entry \<in> set (refutations_of m) \<Longrightarrow> f (refutation_target s entry) = g (refutation_target s entry)"
  shows "validate_lifecycle f error s m raw = validate_lifecycle g error s m raw"
proof -
  have "check_refutation_entry f error s raw succ entry = check_refutation_entry g error s raw succ entry"
    if "entry \<in> set (refutations_of m)" for succ entry
  proof (cases "stored_refutation s entry")
    case (Inl e)
    then show ?thesis by (simp add: check_refutation_entry_def stored_refutation_def)
  next
    case (Inr v)
    then have "f (str_of (get ''target_revision'' v)) = g (str_of (get ''target_revision'' v))"
      using assms[OF that] by (simp add: refutation_target_def)
    from validate_refutation_storage_cong[where f = f and g = g and v = v, OF this] show ?thesis
      using Inr by (simp add: check_refutation_entry_def stored_refutation_def)
  qed
  then show ?thesis
    unfolding validate_lifecycle_def
    by (intro andthen_cong each_cong refl) (auto dest: items_ofD)
qed

lemma audited_manifest_chain:
  assumes "audited_manifest r w s = Inr m" and "usable_watermark s = None"
  shows "validate_manifest IntegrityError m = Inr ()"
    and "chain_loop IntegrityError None s (nat (int_of (get ''revision'' m)) + 2) [] r m = Inr ()"
  using assms by (auto simp: audited_manifest_def validate_revision_chain_def simp del: chain_loop.simps split: if_splits)

lemma audited_manifest_stored:
  assumes "audited_manifest r w s = Inr m" and "read_json_object ''revisions'' r s = Inr k"
  shows "m = k"
  using assms by (auto simp: audited_manifest_def read_manifest_def)

lemma snapshot_under_gate_cong:
  assumes "requested revision s = Inr r" and "\<And>m entry. audited_manifest r w s = Inr m \<Longrightarrow>
    entry \<in> set (refutations_of m) \<Longrightarrow>
    snapshot_under_gate n (Some (refutation_target s entry)) True s =
    snapshot_under_gate k (Some (refutation_target s entry)) True s"
  shows "snapshot_under_gate (Suc n) revision w s = snapshot_under_gate (Suc k) revision w s"
  unfolding snapshot_under_gate.simps
  by (intro andthen_cong refl validate_lifecycle_cong) (use assms in simp)



section \<open>The number of snapshots\<close>

text \<open>How many snapshots a successful read takes: its own, and those that every refutation of its
  manifest asks for. Nothing is remembered between them.\<close>

fun snapshots_taken :: "nat \<Rightarrow> string \<Rightarrow> os \<Rightarrow> nat" where
  "snapshots_taken 0 r s = 0"
| "snapshots_taken (Suc n) r s = Suc (case read_json_object ''revisions'' r s of
       Inl _ \<Rightarrow> 0
     | Inr m \<Rightarrow> sum_list (map (\<lambda>entry. snapshots_taken n (refutation_target s entry) s) (refutations_of m)))"

lemma snapshots_taken_sum:
  "chain_loop error None s k seen i m = Inr () \<Longrightarrow> validate_manifest error m = Inr () \<Longrightarrow>
   get ''schema'' m \<noteq> rev3 \<Longrightarrow> nat (int_of (get ''revision'' m)) \<le> n \<Longrightarrow>
   Suc (sum_list (map (\<lambda>entry. snapshots_taken n (refutation_target s entry) s) (refutations_of m))) =
   2 ^ length (refutations_of m)"
proof (induction n arbitrary: k seen i m rule: less_induct)
  case (less n)
  show ?case using less.prems
  proof (induction k arbitrary: seen i m)
    case (Suc k)
    from Suc.prems(1-3) show ?case
    proof (cases rule: chain_refutations)
      case (step p parent)
      have number: "nat (int_of (get ''revision'' parent)) < n"
        using step(5) Suc.prems(4) validate_manifestD(3)[OF step(3)] by (auto simp: is_natural_def)
      then obtain j where j: "n = Suc j" by (cases n) auto
      have own: "Suc (sum_list (map (\<lambda>entry. snapshots_taken n (refutation_target s entry) s)
          (refutations_of parent))) = 2 ^ length (refutations_of parent)"
        by (rule Suc.IH[OF step(2,3,4)]) (use number in simp)
      have "snapshots_taken n p s = 2 ^ length (refutations_of parent)"
        using less.IH[of j, OF _ step(2,3,4)] step(1) number j by simp
      then show ?thesis using step(6) own by auto
    qed simp
  qed simp
qed

lemma snapshots_taken_double:
  assumes "audited_manifest r w s = Inr m" and "usable_watermark s = None"
    and "read_json_object ''revisions'' r s = Inr m" and "get ''schema'' m \<noteq> rev3"
    and "nat (int_of (get ''revision'' m)) < n"
  shows "snapshots_taken n r s = 2 ^ length (refutations_of m)"
proof -
  obtain j where j: "n = Suc j" "nat (int_of (get ''revision'' m)) \<le> j" using assms(5) by (cases n) auto
  show ?thesis
    using snapshots_taken_sum[OF audited_manifest_chain(2,1)[OF assms(1,2)] assms(4) j(2)] assms(3) j(1) by simp
qed

end
