(* ===== verification/Commit.thy ===== *)
theory Commit
  imports Lifecycle
begin

text \<open>
  \<open>commit_locked\<close> of \<open>transactions.py\<close>: writing one candidate revision while the caller holds the
  write lock. The local variables of the function that the \<open>except OSError\<close> clause reads are the
  record \<open>locals\<close>, threaded with the state of the store; the steps are in the order of the code.
  The theorems say what a fault at any call leaves behind: \<open>CURRENT\<close> names the observed revision or
  a complete child of it, and the outcome that is returned tells which.
\<close>

section \<open>Local variables\<close>

record locals =
  loc_candidate :: "string option"
  loc_candidate_receipt :: "string option"
  loc_current_receipt :: "string option"
  loc_recorded :: bool
  loc_audit :: string

type_synonym 'a run = "locals \<times> os \<Rightarrow> 'a res \<times> locals \<times> os"

definition doing :: "'a io \<Rightarrow> 'a run" where
  "doing m = (\<lambda>(l, s). case m s of (r, t) \<Rightarrow> (r, l, t))"

definition setting :: "(locals \<Rightarrow> locals) \<Rightarrow> unit run" where
  "setting f = (\<lambda>(l, s). (Inr (), f l, s))"

definition bind_run :: "'a run \<Rightarrow> ('a \<Rightarrow> 'b run) \<Rightarrow> 'b run" where
  "bind_run m k c = (case m c of (Inl e, d) \<Rightarrow> (Inl e, d) | (Inr a, d) \<Rightarrow> k a d)"

section \<open>The request\<close>

record commit_request =
  req_observed :: string
  req_checkpoint_patch :: json
  req_pending :: rows
  req_attempt :: json
  req_policy :: "json option"
  req_supersedes :: "json list"
  req_refute :: "json option"
  req_identity :: "string option"

definition start_locals :: locals where
  "start_locals = \<lparr>loc_candidate = None, loc_candidate_receipt = None, loc_current_receipt = None,
     loc_recorded = False, loc_audit = ''not_started''\<rparr>"

definition check_commit_request :: "commit_request \<Rightarrow> json \<Rightarrow> unit res" where
  "check_commit_request req checked =
     (let operation = get ''operation'' checked; invalid = transaction_error ''invalid_refute_objects'' in
      checks
       [ensure (operation = JStr ''checkpoint'' \<or> \<not> truthy (req_checkpoint_patch req))
          (transaction_error ''governed_checkpoint_update_required''),
        ensure (if operation = JStr ''refute'' then req_policy req \<noteq> None \<and> req_refute req \<noteq> None
                else req_refute req = None) invalid])"

definition metadata_entries :: "commit_request \<Rightarrow> json \<Rightarrow> (string \<times> json) list" where
  "metadata_entries req checked =
     (case req_policy req of
        None \<Rightarrow> []
      | Some policy \<Rightarrow>
          [(if get ''operation'' checked = JStr ''refute'' then ''refute_policy'' else ''write_policy'', policy)])"

section \<open>Objects of the candidate\<close>

fun write_segments :: "string list \<Rightarrow> rows \<Rightarrow> (string \<times> string) list io" where
  "write_segments [] pending = ret []"
| "write_segments (stream # rest) pending =
     (if pending stream = [] then write_segments rest pending
      else bind_io (write_segment stream (pending stream)) (\<lambda>identifier.
           bind_io (write_segments rest pending) (\<lambda>more. ret ((stream, identifier) # more))))"

definition child_segment_ids :: "json \<Rightarrow> (string \<times> string) list \<Rightarrow> string \<Rightarrow> string list" where
  "child_segment_ids base new stream =
     map str_of (map_items (segments_key stream) base) @
     (case map_of new stream of None \<Rightarrow> [] | Some identifier \<Rightarrow> [identifier])"

record refuted_ids =
  claim_id :: string
  attestation_id :: string
  refutation_id :: string

definition write_refutation :: "json \<Rightarrow> json option \<Rightarrow> refuted_ids io" where
  "write_refutation objects policy =
     (let refutation = get ''refutation'' objects in
      bind_io (write_json_object ''authority-claims'' (get ''authority_claim'' objects)) (\<lambda>claim.
      bind_io (write_json_object ''authority-attestations'' (get ''authority_attestation'' objects)) (\<lambda>attestation.
      bind_io (write_json_object ''refutations'' refutation) (\<lambda>identifier.
      bind_io (lift (ensure
          (JStr claim = get ''authority_claim_sha256'' refutation \<and>
           JStr attestation = get ''authority_attestation_id'' refutation \<and>
           (case policy of None \<Rightarrow> False | Some p \<Rightarrow> JStr identifier = get ''refutation_id'' p))
          (transaction_error ''refute_content_hash_mismatch''))) (\<lambda>_.
        ret \<lparr>claim_id = claim, attestation_id = attestation, refutation_id = identifier\<rparr>)))))"

definition refutation_entry :: "json \<Rightarrow> refuted_ids \<Rightarrow> json" where
  "refutation_entry objects ids =
     (let refutation = get ''refutation'' objects in
      mk_obj [(''stream'', JStr (py_str (get ''stream'' refutation))),
              (''target_record_sha256'', JStr (py_str (get ''target_record_sha256'' refutation))),
              (''refutation_id'', JStr (refutation_id ids))])"

definition write_refute_objects :: "commit_request \<Rightarrow> json \<Rightarrow> refuted_ids option io" where
  "write_refute_objects req checked =
     (case req_refute req of
        None \<Rightarrow> if get ''operation'' checked = JStr ''refute''
                then lift (Inl (transaction_error ''invalid_refute_objects'')) else ret None
      | Some objects \<Rightarrow>
          if get ''operation'' checked \<noteq> JStr ''refute'' then lift (Inl (transaction_error ''invalid_refute_objects''))
          else bind_io (write_refutation objects (req_policy req)) (\<lambda>ids. ret (Some ids)))"

definition new_checkpoint :: "commit_request \<Rightarrow> json \<Rightarrow> snapshot \<Rightarrow> json option" where
  "new_checkpoint req checked base =
     (if get ''operation'' checked = JStr ''checkpoint''
      then Some (update_obj (req_checkpoint_patch req)
             [(''revision'', JInt (int_of (get ''revision'' (snap_manifest base)) + 1))])
      else None)"

definition write_checkpoint :: "json option \<Rightarrow> json \<Rightarrow> string io" where
  "write_checkpoint new base_manifest =
     (case new of
        None \<Rightarrow> ret (py_str (get ''checkpoint'' base_manifest))
      | Some checkpoint \<Rightarrow> write_json_object ''checkpoints'' checkpoint)"

definition child_of ::
    "commit_request \<Rightarrow> json \<Rightarrow> snapshot \<Rightarrow> (string \<times> string) list \<Rightarrow> string \<Rightarrow> refuted_ids option \<Rightarrow> child" where
  "child_of req checked base new checkpoint refuted =
     (let m = snap_manifest base in
      \<lparr>child_revision = int_of (get ''revision'' m) + 1, child_parent = req_observed req,
       child_segments = child_segment_ids m new, child_checkpoint = checkpoint,
       child_transaction = str_of (get ''transaction_id'' checked),
       child_operation = str_of (get ''operation'' checked), child_identity = req_identity req,
       child_supersedes = map_items ''supersedes_map'' m @ req_supersedes req,
       child_refutations = map_items ''refutations_map'' m @
         (case (req_refute req, refuted) of
            (Some objects, Some ids) \<Rightarrow> [refutation_entry objects ids] | _ \<Rightarrow> [])\<rparr>)"

section \<open>Journal and receipts\<close>

definition prepared_journal :: "commit_request \<Rightarrow> json \<Rightarrow> json" where
  "prepared_journal req checked = mk_obj
     ([(''stage'', JStr ''prepared''), (''parent'', JStr (req_observed req)), (''attempt'', checked)] @
      metadata_entries req checked)"

definition intent_entry :: "string \<Rightarrow> string \<Rightarrow> string \<Rightarrow> json" where
  "intent_entry txid parent candidate = mk_obj
     [(''schema'', JStr ''an-kla/ref-log-v1''), (''kind'', JStr ''intent''), (''transaction_id'', JStr txid),
      (''parent'', JStr parent), (''candidate'', JStr candidate)]"

definition commit_entry :: "string \<Rightarrow> string \<Rightarrow> string \<Rightarrow> string \<Rightarrow> json" where
  "commit_entry txid parent candidate intent = mk_obj
     [(''schema'', JStr ''an-kla/ref-log-v1''), (''kind'', JStr ''observed_commit''), (''transaction_id'', JStr txid),
      (''parent'', JStr parent), (''candidate'', JStr candidate), (''intent'', JStr intent)]"

definition candidate_stage :: "commit_request \<Rightarrow> json \<Rightarrow> string \<Rightarrow> json" where
  "candidate_stage req checked candidate = mk_obj
     ([(''schema'', JStr ''an-kla/transaction-stage-v1''), (''stage'', JStr ''candidate_prepared''),
       (''parent'', JStr (req_observed req)), (''candidate'', JStr candidate), (''attempt'', checked)] @
      metadata_entries req checked)"

definition staged_journal :: "json \<Rightarrow> string \<Rightarrow> string option \<Rightarrow> json" where
  "staged_journal stage stage_id receipt = update_obj stage
     [(''stage_object'', JStr stage_id), (''candidate_receipt'', opt_str receipt), (''current_receipt'', JNull)]"

definition committed_journal ::
    "commit_request \<Rightarrow> json \<Rightarrow> string \<Rightarrow> string \<Rightarrow> string \<Rightarrow> string \<Rightarrow> string option \<Rightarrow> json" where
  "committed_journal req checked candidate stage_id candidate_receipt current_receipt log = mk_obj
     ([(''stage'', JStr ''committed''), (''parent'', JStr (req_observed req)), (''candidate'', JStr candidate),
       (''attempt'', checked), (''stage_object'', JStr stage_id), (''candidate_receipt'', JStr candidate_receipt),
       (''current_receipt'', JStr current_receipt), (''observed_log'', opt_str log)] @
      metadata_entries req checked)"

text \<open>An object and the directory it stands in.\<close>

definition protected_object :: "string \<Rightarrow> string \<Rightarrow> string \<Rightarrow> json" where
  "protected_object kind ext identifier =
     protected_file (object_path kind ext identifier) identifier"

definition protected_candidate ::
    "string \<Rightarrow> string \<Rightarrow> string \<Rightarrow> string \<Rightarrow> string \<Rightarrow> (string \<times> string) list \<Rightarrow> refuted_ids option \<Rightarrow> json list" where
  "protected_candidate txid candidate checkpoint intent stage_id new refuted =
     [protected_object ''revisions'' ''.json'' candidate, protected_object ''checkpoints'' ''.json'' checkpoint,
      protected_object ''refs/ref-log'' ''.json'' intent, protected_object (stages_kind txid) ''.json'' stage_id,
      protected_directory ''revisions/sha256'', protected_directory ''checkpoints/sha256'',
      protected_directory ''refs/ref-log/sha256'', protected_directory (stages_kind txid @ ''/sha256'')] @
     concat (map (\<lambda>(stream, identifier).
       [protected_object (segment_kind stream) ''.jsonl'' identifier,
        protected_directory (segment_kind stream @ ''/sha256'')]) new) @
     (case refuted of None \<Rightarrow> [] | Some ids \<Rightarrow>
       [protected_object ''authority-claims'' ''.json'' (claim_id ids), protected_directory ''authority-claims/sha256'',
        protected_object ''authority-attestations'' ''.json'' (attestation_id ids),
        protected_directory ''authority-attestations/sha256'',
        protected_object ''refutations'' ''.json'' (refutation_id ids), protected_directory ''refutations/sha256''])"

section \<open>The steps\<close>

record prepared =
  prep_candidate :: string
  prep_manifest :: json
  prep_intent :: string
  prep_stage_id :: string
  prep_receipt :: string

text \<open>The segments, the checkpoint, the refutation and the manifest of the candidate.\<close>

type_synonym created = "json \<times> string \<times> string \<times> (string \<times> string) list \<times> refuted_ids option"

definition create_child :: "commit_request \<Rightarrow> json \<Rightarrow> snapshot \<Rightarrow> created run" where
  "create_child req checked base =
     (let m = snap_manifest base in
      bind_run (doing (write_segments STREAMS (req_pending req))) (\<lambda>new.
      bind_run (doing (write_checkpoint (new_checkpoint req checked base) m)) (\<lambda>checkpoint.
      bind_run (doing (write_refute_objects req checked)) (\<lambda>refuted.
      bind_run (doing (lift (build_child_manifest m (child_of req checked base new checkpoint refuted)))) (\<lambda>child.
      bind_run (doing (lift (validate_manifest IntegrityError child))) (\<lambda>_.
      bind_run (doing (write_json_object ''revisions'' child)) (\<lambda>candidate.
      bind_run (setting (\<lambda>l. l\<lparr>loc_candidate := Some candidate\<rparr>)) (\<lambda>_.
        doing (ret (child, candidate, checkpoint, new, refuted))))))))))"

text \<open>The first journal of the transaction comes before any object.\<close>

definition write_candidate :: "commit_request \<Rightarrow> json \<Rightarrow> snapshot \<Rightarrow> created run" where
  "write_candidate req checked base =
     bind_run (doing (write_transaction (str_of (get ''transaction_id'' checked)) (prepared_journal req checked))) (\<lambda>_.
     bind_run (setting (\<lambda>l. l\<lparr>loc_recorded := True, loc_audit := ''prepared''\<rparr>)) (\<lambda>_.
       create_child req checked base))"

text \<open>The intent, the stage and the receipt for the data of the candidate.\<close>

definition write_evidence ::
    "commit_request \<Rightarrow> json \<Rightarrow> json \<Rightarrow> string \<Rightarrow> string \<Rightarrow> (string \<times> string) list \<Rightarrow> refuted_ids option \<Rightarrow>
     prepared run" where
  "write_evidence req checked child candidate checkpoint new refuted =
     (let txid = str_of (get ''transaction_id'' checked); stage = candidate_stage req checked candidate in
      bind_run (doing (write_ref_log (intent_entry txid (req_observed req) candidate))) (\<lambda>intent.
      bind_run (doing (write_json_object (stages_kind txid) stage)) (\<lambda>stage_id.
      bind_run (doing (write_transaction txid (staged_journal stage stage_id None))) (\<lambda>_.
      bind_run (doing (write_receipt checked ''candidate-data-durable'' candidate
          (protected_candidate txid candidate checkpoint intent stage_id new refuted) None None)) (\<lambda>receipt.
      bind_run (setting (\<lambda>l. l\<lparr>loc_candidate_receipt := Some receipt\<rparr>)) (\<lambda>_.
      bind_run (doing (write_transaction txid (staged_journal stage stage_id (Some receipt)))) (\<lambda>_.
        doing (ret \<lparr>prep_candidate = candidate, prep_manifest = child, prep_intent = intent,
          prep_stage_id = stage_id, prep_receipt = receipt\<rparr>))))))))"

text \<open>The publication: \<open>CURRENT\<close> is read again, then replaced.\<close>

definition publish :: "string \<Rightarrow> string \<Rightarrow> unit run" where
  "publish observed candidate =
     bind_run (doing (asks read_current)) (\<lambda>current.
     bind_run (doing (lift (ensure (current = observed) raw_os_error))) (\<lambda>_.
       doing (replace_current candidate)))"

text \<open>\<open>CURRENT\<close> is read back: \<open>confirm\<close> turns every exception of that read into a storage error.\<close>

definition confirm :: "string \<Rightarrow> unit io" where
  "confirm candidate =
     bind_io (asks (\<lambda>s. except_as (\<lambda>_. True) (storage_error ''current_reread_failed'') (read_current s)))
       (\<lambda>current. lift (ensure (current = candidate) (storage_error ''current_reread_mismatch'')))"

definition is_os_error :: "exn \<Rightarrow> bool" where
  "is_os_error e \<longleftrightarrow> exn_class e = OSError"

text \<open>The log entry of the commit: an \<open>OSError\<close> here leaves the audit incomplete.\<close>

definition close_audit :: "commit_request \<Rightarrow> json \<Rightarrow> prepared \<Rightarrow> string \<Rightarrow> bool io" where
  "close_audit req checked p receipt =
     (let txid = str_of (get ''transaction_id'' checked) in
      catch_io
        (bind_io (write_ref_log (commit_entry txid (req_observed req) (prep_candidate p) (prep_intent p))) (\<lambda>log.
         bind_io (write_transaction txid (committed_journal req checked (prep_candidate p) (prep_stage_id p)
             (prep_receipt p) receipt (Some log))) (\<lambda>_. ret True)))
        (\<lambda>e. if is_os_error e then Some (ret False) else None))"

definition settle :: "commit_request \<Rightarrow> json \<Rightarrow> prepared \<Rightarrow> unit run" where
  "settle req checked p =
     (let txid = str_of (get ''transaction_id'' checked); candidate = prep_candidate p in
      bind_run (doing (write_watermark candidate (prep_manifest p))) (\<lambda>_.
      bind_run (doing (write_receipt checked ''current-durable'' candidate
          [protected_file current_path (digest_bytes (candidate @ [newline])), protected_directory ''refs'']
          (Some (prep_receipt p)) None)) (\<lambda>receipt.
      bind_run (setting (\<lambda>l. l\<lparr>loc_current_receipt := Some receipt\<rparr>)) (\<lambda>_.
      bind_run (doing (confirm candidate)) (\<lambda>_.
      bind_run (setting (\<lambda>l. l\<lparr>loc_audit := ''incomplete''\<rparr>)) (\<lambda>_.
      bind_run (doing (write_transaction txid (committed_journal req checked candidate (prep_stage_id p)
          (prep_receipt p) receipt None))) (\<lambda>_.
      bind_run (doing (close_audit req checked p receipt)) (\<lambda>complete.
        setting (\<lambda>l. l\<lparr>loc_audit := (if complete then ''complete'' else ''incomplete'')\<rparr>)))))))))"

definition commit_steps :: "commit_request \<Rightarrow> json \<Rightarrow> snapshot \<Rightarrow> unit run" where
  "commit_steps req checked base =
     bind_run (write_candidate req checked base) (\<lambda>(child, candidate, checkpoint, new, refuted).
     bind_run (write_evidence req checked child candidate checkpoint new refuted) (\<lambda>p.
     bind_run (publish (req_observed req) candidate) (\<lambda>_.
       settle req checked p)))"

section \<open>Outcomes\<close>

text \<open>The \<open>except OSError\<close> clause.\<close>

definition failed_outcome :: "commit_request \<Rightarrow> json \<Rightarrow> locals \<Rightarrow> exn \<Rightarrow> os \<Rightarrow> (string \<times> json) res" where
  "failed_outcome req checked l e s =
     (let current = (if loc_recorded l then current_option s else Some (req_observed req));
          rel = candidate_relation (loc_candidate l) current s;
          durable = (if rel \<in> {''current'', ''ancestor''} then loc_current_receipt l \<noteq> None
                     else loc_candidate_receipt l \<noteq> None)
      in andthen
        (make_outcome checked
          \<lparr>parent_revision = Some (req_observed req), candidate_revision = loc_candidate l,
           current_observed = current, relation = rel, recorded = Some (loc_recorded l),
           audit_state = (if loc_audit l \<noteq> ''not_started'' then loc_audit l else ''incomplete''),
           durability_state = (if durable then ''complete'' else ''incomplete''),
           operation_error = Some (exn_code e),
           warnings =
             (if loc_recorded l then [] else [''transaction_not_recorded'']) @
             (if flagged ''cleanup_incomplete'' e then [''cleanup_incomplete''] else []) @
             (if flagged ''close_incomplete'' e then [''close_incomplete''] else [])\<rparr>)
        (\<lambda>outcome. Inr (case current of Some r \<Rightarrow> r | None \<Rightarrow> req_observed req, outcome)))"

definition finished_outcome :: "commit_request \<Rightarrow> json \<Rightarrow> locals \<Rightarrow> os \<Rightarrow> (string \<times> json) res" where
  "finished_outcome req checked l s =
     (let candidate = loc_candidate l in
      andthen
        (make_outcome checked
          \<lparr>parent_revision = Some (req_observed req), candidate_revision = candidate,
           current_observed = candidate, relation = candidate_relation candidate candidate s,
           recorded = Some True, audit_state = loc_audit l, durability_state = ''complete'',
           operation_error = (if loc_audit l = ''complete'' then None else Some ''observed_log_failed''),
           warnings = []\<rparr>)
        (\<lambda>outcome. Inr (case candidate of Some c \<Rightarrow> c | None \<Rightarrow> ''None'', outcome)))"

definition attempt_commit :: "commit_request \<Rightarrow> json \<Rightarrow> snapshot \<Rightarrow> (string \<times> json) io" where
  "attempt_commit req checked base s =
     (case commit_steps req checked base (start_locals, s) of
        (Inr _, l, t) \<Rightarrow> (finished_outcome req checked l t, t)
      | (Inl e, l, t) \<Rightarrow> (if is_os_error e then failed_outcome req checked l e t else Inl e, t))"

text \<open>A candidate that an earlier run of the same transaction committed is reported again.\<close>

definition prior_commit :: "string list \<Rightarrow> string \<Rightarrow> os \<Rightarrow> (string \<times> json) option res" where
  "prior_commit candidates txid s =
     (if candidates = [] then Inr None
      else andthen (inspect_transaction txid s) (\<lambda>inspected.
        Inr (if get ''committed'' inspected = JBool True
             then Some (py_str (get ''candidate_revision'' inspected), inspected) else None)))"

definition commit_locked :: "nat \<Rightarrow> context_map option \<Rightarrow> commit_request \<Rightarrow> (string \<times> json) io" where
  "commit_locked n ctx req =
     bind_io (lift (validate_attempt (req_attempt req))) (\<lambda>checked.
     bind_io (lift (check_commit_request req checked)) (\<lambda>_.
     let txid = str_of (get ''transaction_id'' checked) in
     bind_io (asks (prior_evidence ctx checked txid)) (\<lambda>(candidates, _, _).
     bind_io (asks (prior_commit candidates txid)) (\<lambda>prior.
       case prior of
         Some result \<Rightarrow> ret result
       | None \<Rightarrow>
           bind_io (asks (snapshot_at n (Some (req_observed req)) True)) (\<lambda>base.
           bind_io (lift (assign_records (snap_records base) (req_pending req))) (\<lambda>_.
             attempt_commit req checked base))))))"

section \<open>Frames of the steps\<close>

context step_relation
begin

definition run_keeps :: "'a run \<Rightarrow> bool" where
  "run_keeps m \<longleftrightarrow> (\<forall>l s. R s (snd (snd (m (l, s)))))"

lemma run_keepsD: "run_keeps m \<Longrightarrow> m (l, s) = (r, l', t) \<Longrightarrow> R s t"
  by (auto simp: run_keeps_def dest: spec2[where x = l and y = s])

lemma run_keepsI:
  assumes "\<And>l s r l' t. m (l, s) = (r, l', t) \<Longrightarrow> R s t"
  shows "run_keeps m"
proof -
  have "R s (snd (snd (m (l, s))))" for l s
    using assms[of l s "fst (m (l, s))" "fst (snd (m (l, s)))"] by simp
  then show ?thesis by (simp add: run_keeps_def)
qed

lemma run_keeps_doing:
  assumes "keeps m"
  shows "run_keeps (doing m)"
proof (rule run_keepsI)
  fix l s r l' t assume "doing m (l, s) = (r, l', t)"
  then have "m s = (r, t)" by (simp add: doing_def split: prod.splits)
  then show "R s t" by (rule keepsD[OF assms])
qed

lemma run_keeps_setting: "run_keeps (setting f)"
  by (simp add: run_keeps_def setting_def stays)

lemma run_keeps_bind:
  assumes "run_keeps m" and "\<And>a. run_keeps (k a)"
  shows "run_keeps (bind_run m k)"
proof (rule run_keepsI)
  fix l s r l' t assume run: "bind_run m k (l, s) = (r, l', t)"
  obtain r1 l1 s1 where m: "m (l, s) = (r1, l1, s1)" by (cases "m (l, s)") auto
  show "R s t"
  proof (cases r1)
    case (Inl e)
    then show ?thesis using run m run_keepsD[OF assms(1) m] by (simp add: bind_run_def)
  next
    case (Inr a)
    then have "k a (l1, s1) = (r, l', t)" using run m by (simp add: bind_run_def)
    from run_keepsD[OF assms(2) this] show ?thesis using run_keepsD[OF assms(1) m] by (rule chains[rotated])
  qed
qed

lemmas run_rules = run_keeps_bind run_keeps_doing run_keeps_setting keeps_rules

lemma keeps_write_segments:
  "(\<And>stream. stream \<in> set kinds \<Longrightarrow> free_below (segment_kind stream @ ''/sha256'')) \<Longrightarrow>
   free_below ''quarantine'' \<Longrightarrow> keeps (write_segments kinds pending)"
  by (induction kinds) (auto intro!: keeps_rules keeps_write_segment)

lemma keeps_write_refutation:
  "free_below ''authority-claims/sha256'' \<Longrightarrow> free_below ''authority-attestations/sha256'' \<Longrightarrow>
   free_below ''refutations/sha256'' \<Longrightarrow> free_below ''quarantine'' \<Longrightarrow> keeps (write_refutation objects policy)"
  unfolding write_refutation_def Let_def by (intro keeps_rules keeps_write_json_object) simp_all

lemma keeps_write_receipt:
  "free_below (receipts_kind (str_of (get ''transaction_id'' attempt)) @ ''/sha256'') \<Longrightarrow> free_below ''quarantine'' \<Longrightarrow>
   keeps (write_receipt attempt kind c items p r0)"
  unfolding write_receipt_def Let_def
  by (intro keeps_lift_bind keeps_bind keeps_readers keeps_sync_protected keeps_write_json_object)
    (auto elim: valid_attempt_fields)

lemma keeps_write_checkpoint:
  "free_below ''checkpoints/sha256'' \<Longrightarrow> free_below ''quarantine'' \<Longrightarrow> keeps (write_checkpoint new m)"
  unfolding write_checkpoint_def by (auto split: option.splits intro!: keeps_rules keeps_write_json_object)

lemma keeps_write_refute_objects:
  "free_below ''authority-claims/sha256'' \<Longrightarrow> free_below ''authority-attestations/sha256'' \<Longrightarrow>
   free_below ''refutations/sha256'' \<Longrightarrow> free_below ''quarantine'' \<Longrightarrow> keeps (write_refute_objects req checked)"
  unfolding write_refute_objects_def
  by (auto split: option.splits intro!: keeps_rules keeps_write_refutation)

lemma keeps_write_watermark:
  "free watermark_path \<Longrightarrow> (\<And>u. free (temporary_name watermark_path u)) \<Longrightarrow> keeps (write_watermark c m)"
  unfolding write_watermark_def by (intro keeps_rules keeps_atomic)

end

text \<open>The temporary file of an atomic write stands in the directory of its target.\<close>

lemma temporary_below: "prefix (d @ ''/'') (temporary_name (d @ ''/'' @ x) u)"
proof -
  have "\<exists>y. dropWhile (\<lambda>c. c \<noteq> CHR ''/'') (rev x @ CHR ''/'' # rev d) = y @ CHR ''/'' # rev d"
    by (induction "rev x" arbitrary: x) (auto simp: dropWhile_append)
  then obtain y where y: "dir_prefix (d @ ''/'' @ x) = d @ ''/'' @ rev y"
    by (auto simp: dir_prefix_def)
  show ?thesis unfolding temporary_name_def with_name_def y by simp
qed

lemma temporary_of_journal: "prefix ''transactions/'' (temporary_name (journal_path txid) u)"
  using temporary_below[of "''transactions''" "txid @ ''.json''" u] by (simp add: journal_path_def)

lemma temporary_of_watermark: "prefix ''watermarks/'' (temporary_name watermark_path u)"
  using temporary_below[of "''watermarks''" "''CURRENT''" u] by (simp add: watermark_path_def)

lemma temporary_of_current: "prefix ''refs/'' (temporary_name current_path u)"
  using temporary_below[of "''refs''" "''CURRENT''" u] by (simp add: current_path_def)

text \<open>What a commit must not touch before and after it publishes the candidate.\<close>

definition anchored :: "string \<Rightarrow> bool" where
  "anchored p \<longleftrightarrow> p = current_path \<or> prefix ''revisions/'' p"

lemma anchored_head [simp]:
  "c \<noteq> CHR ''r'' \<Longrightarrow> \<not> anchored (c # p)"
  "\<not> anchored (CHR ''r'' # CHR ''e'' # CHR ''f'' # CHR ''s'' # CHR ''/'' # CHR ''r'' # p)"
  by (simp_all add: anchored_def current_path_def)

lemma anchored_current: "\<not> anchored p \<Longrightarrow> p \<noteq> current_path"
  by (simp add: anchored_def)

lemma anchored_elsewhere:
  "prefix ''transactions/'' p \<Longrightarrow> \<not> anchored p" "prefix ''watermarks/'' p \<Longrightarrow> \<not> anchored p"
  by (auto simp: prefix_def)

lemma anchored_places [simp]:
  "\<not> anchored (journal_path txid)" "\<not> anchored (temporary_name (journal_path txid) u)"
  "\<not> anchored watermark_path" "\<not> anchored (temporary_name watermark_path u)"
  "journal_path txid \<noteq> current_path" "temporary_name (journal_path txid) u \<noteq> current_path"
proof -
  show j: "\<not> anchored (journal_path txid)" "\<not> anchored (temporary_name (journal_path txid) u)"
    using anchored_elsewhere(1)[OF temporary_of_journal] by (simp_all add: journal_path_def)
  show "\<not> anchored watermark_path" "\<not> anchored (temporary_name watermark_path u)"
    using anchored_elsewhere(2)[OF temporary_of_watermark] by (simp_all add: watermark_path_def)
  show "journal_path txid \<noteq> current_path" "temporary_name (journal_path txid) u \<noteq> current_path"
    using j by (blast dest: anchored_current)+
qed

lemma write_candidate_keeps: "same.run_keeps (\<lambda>p. p = current_path) (write_candidate req checked base)"
  unfolding write_candidate_def create_child_def Let_def
  by (intro same.run_rules same.keeps_write_transaction same.keeps_write_segments same.keeps_write_json_object
      same.keeps_write_refute_objects same.keeps_write_checkpoint)
    (simp_all add: current_path_def segment_kind_def anchored_places(5,6)[unfolded current_path_def])

lemma close_audit_keeps: "same.keeps anchored (close_audit req checked p receipt)"
  unfolding close_audit_def Let_def
  by (intro keeps_rules same.keeps_write_ref_log same.keeps_write_transaction)
    (auto split: if_splits intro!: same.keeps_readers)

lemma write_evidence_keeps:
  "same.run_keeps anchored (write_evidence req checked child candidate checkpoint new refuted)"
  unfolding write_evidence_def Let_def
  by (intro same.run_rules same.keeps_write_ref_log same.keeps_write_json_object same.keeps_write_transaction
      same.keeps_write_receipt)
    (simp_all add: stages_kind_def receipts_kind_def)

lemma settle_keeps: "same.run_keeps anchored (settle req checked p)"
  unfolding settle_def Let_def confirm_def
  by (intro same.run_rules same.keeps_write_watermark same.keeps_write_receipt same.keeps_write_transaction
      close_audit_keeps)
    (simp_all add: receipts_kind_def)

section \<open>Locals\<close>

definition run_holds :: "(locals \<Rightarrow> bool) \<Rightarrow> 'a run \<Rightarrow> bool" where
  "run_holds Q m \<longleftrightarrow> (\<forall>l s. Q l \<longrightarrow> Q (fst (snd (m (l, s)))))"

lemma run_holdsD: "run_holds Q m \<Longrightarrow> m (l, s) = (r, l', t) \<Longrightarrow> Q l \<Longrightarrow> Q l'"
  unfolding run_holds_def by (metis fst_conv snd_conv)

lemma bind_runE:
  assumes "bind_run m k (l, s) = (r, l', t)"
  obtains (fails) e where "m (l, s) = (Inl e, l', t)" "r = Inl e"
  | (goes) a l1 s1 where "m (l, s) = (Inr a, l1, s1)" "k a (l1, s1) = (r, l', t)"
proof (cases "m (l, s)")
  case (fields r1 l1 s1)
  then show ?thesis using assms that by (cases r1) (auto simp: bind_run_def)
qed

lemma doingE:
  assumes "doing m (l, s) = (r, l', t)"
  obtains "m s = (r, t)" "l' = l"
  using assms by (auto simp: doing_def split: prod.splits)

lemma bind_setting [simp]: "bind_run (setting f) k (l, s) = k () (f l, s)"
  by (simp add: bind_run_def setting_def)

lemma bind_doing_Inr:
  "bind_run (doing m) k (l, s) = (Inr x, d) \<longleftrightarrow> (\<exists>a u. m s = (Inr a, u) \<and> k a (l, u) = (Inr x, d))"
  by (auto simp: bind_run_def doing_def split: prod.splits sum.splits)

lemma doing_lift_ret: "doing (lift r) (l, s) = (r, l, s)" "doing (ret a) (l, s) = (Inr a, l, s)"
  by (simp_all add: doing_def lift_def ret_def)

lemma run_holds_doing: "run_holds Q (doing m)"
  by (auto simp: run_holds_def doing_def split: prod.splits)

lemma run_holds_setting: "(\<And>l. Q l \<Longrightarrow> Q (f l)) \<Longrightarrow> run_holds Q (setting f)"
  by (simp add: run_holds_def setting_def)

lemma run_holds_bind:
  assumes "run_holds Q m" and "\<And>a. run_holds Q (k a)"
  shows "run_holds Q (bind_run m k)"
proof -
  have "Q l'" if "bind_run m k (l, s) = (r, l', t)" "Q l" for l s r l' t
    using that(1) by (cases rule: bind_runE) (use that(2) assms in \<open>auto dest: run_holdsD\<close>)
  then have "Q (fst (snd (bind_run m k (l, s))))" if "Q l" for l s
    using that by (cases "bind_run m k (l, s)") auto
  then show ?thesis by (simp add: run_holds_def)
qed

lemmas holds_rules = run_holds_bind run_holds_doing run_holds_setting

lemma later_steps_locals:
  assumes "\<And>l f. Q (loc_candidate_receipt_update f l) = Q l" and "\<And>l f. Q (loc_current_receipt_update f l) = Q l"
    and "\<And>l f. Q (loc_audit_update f l) = Q l"
  shows "run_holds Q (write_evidence req checked child candidate checkpoint new refuted)"
    and "run_holds Q (publish observed candidate)" and "run_holds Q (settle req checked p)"
  unfolding write_evidence_def publish_def settle_def Let_def
  by (intro holds_rules; simp add: assms)+

section \<open>The candidate\<close>

text \<open>The candidate is a complete child of the observed revision before anything points at it.\<close>

definition complete_child :: "string \<Rightarrow> string \<Rightarrow> os \<Rightarrow> bool" where
  "complete_child observed candidate s \<longleftrightarrow>
     (\<exists>m. candidate = digest_json m \<and> bytes_under ''revisions'' ''.json'' candidate s = Some (canonical_json m) \<and>
          validate_manifest IntegrityError m = Inr () \<and> get ''parent'' m = JStr observed)"

lemma child_parent:
  assumes "build_child_manifest base c = Inr m"
  shows "get ''parent'' m = JStr (child_parent c)"
proof -
  have "''parent'' \<notin> fst ` set (rev (child_extras base schema c))" for schema
    by (auto simp: child_extras_def split: option.splits)
  then have "map_of (rev (child_extras base schema c)) ''parent'' = None" for schema
    by (simp only: map_of_eq_None_iff simp_thms)
  then show ?thesis using assms by (auto simp: build_child_manifest_def Let_def child_core_def map_add_def)
qed

lemma write_json_object_held:
  assumes "write_json_object kind v s = (Inr i, t)" and "\<not> prefix ''quarantine'' kind"
  shows "i = digest_json v" and "bytes_under kind ''.json'' i t = Some (canonical_json v)"
proof -
  have "put_bytes kind ''.json'' (canonical_json v) s = (Inr i, t)"
    using assms(1) by (simp add: write_json_object_put split: if_splits)
  from content_store.deposit_held[OF content_store_kind[OF assms(2)] this]
  show "i = digest_json v" and "bytes_under kind ''.json'' i t = Some (canonical_json v)"
    by (auto simp: digest_json_def)
qed

lemma child_of_parent: "child_parent (child_of req checked base new checkpoint refuted) = req_observed req"
  by (simp add: child_of_def Let_def)

lemma create_child_complete:
  assumes run: "create_child req checked base (l, s) = (Inr (child, candidate, rest), l', t)"
  shows "complete_child (req_observed req) candidate t" and "loc_candidate l' = Some candidate"
proof -
  obtain c u where b: "build_child_manifest (snap_manifest base) c = Inr child" "child_parent c = req_observed req"
    and v: "validate_manifest IntegrityError child = Inr ()"
    and w: "write_json_object ''revisions'' child u = (Inr candidate, t)"
    and l: "loc_candidate l' = Some candidate"
    using run unfolding create_child_def Let_def bind_doing_Inr bind_setting doing_lift_ret
    by (auto simp: lift_def child_of_parent)
  show "complete_child (req_observed req) candidate t"
    using write_json_object_held[OF w] child_parent[OF b(1)] b(2) v by (auto simp: complete_child_def)
  show "loc_candidate l' = Some candidate" by (rule l)
qed

lemma create_child_recorded: "run_holds loc_recorded (create_child req checked base)"
  unfolding create_child_def Let_def by (intro holds_rules) simp

lemma write_candidate_complete:
  assumes run: "write_candidate req checked base (l, s) = (Inr (child, candidate, rest), l', t)"
  shows "complete_child (req_observed req) candidate t" and "loc_candidate l' = Some candidate"
  using run create_child_complete unfolding write_candidate_def bind_doing_Inr bind_setting by blast+

lemma write_candidate_locals:
  assumes run: "write_candidate req checked base (start_locals, s) = (r, l', t)"
  shows "loc_recorded l' \<or> loc_candidate l' = None \<and> (\<exists>e. r = Inl e)"
  using run unfolding write_candidate_def
proof (cases rule: bind_runE)
  case (fails e)
  then show ?thesis by (auto simp: start_locals_def elim: doingE)
next
  case (goes a l1 s1)
  then show ?thesis using run_holdsD[OF create_child_recorded] by simp
qed

lemma read_current_cong:
  "bytes_at current_path t = bytes_at current_path s \<Longrightarrow> diverted t = diverted s \<Longrightarrow> read_current t = read_current s"
  by (simp add: read_current_def)

lemma onward_diverted: "onward s t \<Longrightarrow> diverted t = diverted s"
  by (simp add: onward_def)

lemma write_candidate_onward: "onward.run_keeps (write_candidate req checked base)"
  unfolding write_candidate_def create_child_def Let_def
  by (intro onward.run_rules onward.keeps_write_transaction onward.keeps_write_segments
      onward.keeps_write_json_object onward.keeps_write_refute_objects onward.keeps_write_checkpoint) simp_all

lemma write_evidence_onward:
  "onward.run_keeps (write_evidence req checked child candidate checkpoint new refuted)"
  unfolding write_evidence_def Let_def
  by (intro onward.run_rules onward.keeps_write_ref_log onward.keeps_write_json_object
      onward.keeps_write_transaction onward.keeps_write_receipt) simp_all

lemma complete_child_stays:
  "same_on (prefix ''revisions/'') s t \<Longrightarrow> complete_child observed c s \<Longrightarrow> complete_child observed c t"
  unfolding complete_child_def
  by (auto simp: bytes_under_digest(2) same_on_def)

lemma same_on_mono: "same_on P s t \<Longrightarrow> (\<And>p. Q p \<Longrightarrow> P p) \<Longrightarrow> same_on Q s t"
  by (auto simp: same_on_def)

lemma anchoredI [simp]: "prefix ''revisions/'' p \<Longrightarrow> anchored p" "anchored current_path"
  by (simp_all add: anchored_def)

lemma replace_current_bytes:
  assumes "replace_current c s = (r, t)"
  shows "same_on (prefix ''revisions/'') s t"
    and "bytes_at current_path t = bytes_at current_path s \<or> bytes_at current_path t = Some (c @ [newline])"
proof -
  have "same_on (prefix ''revisions/'') s t \<and>
    (bytes_at current_path t = bytes_at current_path s \<or> bytes_at current_path t = Some (c @ [newline]))"
  proof (cases "bare_digest c")
    case (Inl e)
    then show ?thesis using assms by (simp add: replace_current_def bind_io_def lift_def same_on_def)
  next
    case (Inr v)
    then have a: "atomic_write current_path (c @ [newline]) s = (r, t)"
      using assms by (simp add: replace_current_def bind_io_def lift_def)
    have "q \<noteq> current_path \<and> q \<noteq> temporary_name current_path u" if "prefix ''revisions/'' q" for q u
      using that temporary_of_current[of u] by (auto simp: prefix_def current_path_def)
    then show ?thesis using atomic_write_spec[OF a]
      by (auto elim!: same_on_mono split: sum.splits if_split_asm)
  qed
  then show "same_on (prefix ''revisions/'') s t"
    and "bytes_at current_path t = bytes_at current_path s \<or> bytes_at current_path t = Some (c @ [newline])"
    by blast+
qed

lemma publish_cases:
  assumes "publish observed c (l, s) = (r, l', t)"
  shows "l' = l" and "same_on (prefix ''revisions/'') s t"
    and "bytes_at current_path t = bytes_at current_path s \<or>
      bytes_at current_path t = Some (c @ [newline]) \<and> read_current s = Inr observed"
proof -
  have "l' = l \<and> (t = s \<or> (\<exists>r'. replace_current c s = (r', t)) \<and> read_current s = Inr observed)"
    using assms
    by (auto simp: publish_def bind_run_def doing_def asks_def lift_def split: sum.splits prod.splits)
  then show "l' = l" and "same_on (prefix ''revisions/'') s t"
    and "bytes_at current_path t = bytes_at current_path s \<or>
      bytes_at current_path t = Some (c @ [newline]) \<and> read_current s = Inr observed"
    by (auto simp: same_on_def dest: replace_current_bytes)
qed

text \<open>Where \<open>CURRENT\<close> may point afterwards.\<close>

definition published :: "string \<Rightarrow> os \<Rightarrow> os \<Rightarrow> bool" where
  "published observed s t \<longleftrightarrow>
     bytes_at current_path t = bytes_at current_path s \<or>
     read_current s = Inr observed \<and>
     (\<exists>c. bytes_at current_path t = Some (c @ [newline]) \<and> complete_child observed c t)"

lemma published_later:
  assumes "same_on anchored t u" and "published observed s t"
  shows "published observed s u"
proof -
  have "bytes_at current_path u = bytes_at current_path t" using assms(1) by (rule same_onD) simp
  moreover have "same_on (prefix ''revisions/'') t u" using assms(1) by (rule same_on_mono) simp
  ultimately show ?thesis using assms(2) complete_child_stays by (auto simp: published_def)
qed

lemma commit_steps_published:
  assumes "commit_steps req checked base (l, s) = (r, l', t)"
  shows "published (req_observed req) s t"
  using assms unfolding commit_steps_def
proof (cases rule: bind_runE)
  case (fails e)
  then show ?thesis using same.run_keepsD[OF write_candidate_keeps] by (auto simp: published_def same_on_def)
next
  case (goes a l1 s1)
  obtain child candidate checkpoint new refuted where a: "a = (child, candidate, checkpoint, new, refuted)"
    by (cases a)
  have c1: "bytes_at current_path s1 = bytes_at current_path s"
    using same.run_keepsD[OF write_candidate_keeps goes(1)] by (simp add: same_on_def)
  note w = goes(1) and whole = write_candidate_complete(1)[OF goes(1)[unfolded a]]
  from goes(2)[unfolded a split_conv] show ?thesis
  proof (cases rule: bind_runE)
    case (fails e)
    then show ?thesis using same.run_keepsD[OF write_evidence_keeps] c1
      by (auto simp: published_def same_on_def)
  next
    case (goes p l2 s2)
    note f2 = same.run_keepsD[OF write_evidence_keeps goes(1)]
    have c2: "bytes_at current_path s2 = bytes_at current_path s" using same_onD[OF f2] c1 by simp
    have whole2: "complete_child (req_observed req) candidate s2"
      using whole by (rule complete_child_stays[rotated]) (rule same_on_mono[OF f2]; simp)
    have "read_current s1 = read_current s"
      using c1 onward.run_keepsD[OF write_candidate_onward w] by (intro read_current_cong) (simp_all add: onward_diverted)
    moreover have "read_current s2 = read_current s1"
      using same_onD[OF f2] onward.run_keepsD[OF write_evidence_onward goes(1)]
      by (intro read_current_cong) (simp_all add: onward_diverted)
    ultimately have rc: "read_current s2 = read_current s" by simp
    have pub: "published (req_observed req) s u" if "publish (req_observed req) candidate (l2, s2) = (r', l3, u)" for r' l3 u
      using publish_cases[OF that] c2 complete_child_stays[OF _ whole2] rc by (auto simp: published_def)
    from goes(2) show ?thesis
    proof (cases rule: bind_runE)
      case (fails e)
      then show ?thesis using pub by blast
    next
      case (goes x l3 s3)
      show ?thesis by (rule published_later[OF same.run_keepsD[OF settle_keeps goes(2)] pub[OF goes(1)]])
    qed
  qed
qed

lemma commit_locked_cases:
  assumes "commit_locked n ctx req s = (r, t)"
  obtains (none) e where "r = Inl e" "t = s"
  | (prior) txid rev out where "r = Inr (rev, out)" "t = s" "inspect_transaction txid s = Inr out"
      "get ''committed'' out = JBool True"
  | (ran) checked base where "validate_attempt (req_attempt req) = Inr checked"
      "attempt_commit req checked base s = (r, t)"
proof -
  have "(\<exists>e. r = Inl e) \<and> t = s \<or>
      (\<exists>txid rev out. r = Inr (rev, out) \<and> t = s \<and> inspect_transaction txid s = Inr out \<and>
         get ''committed'' out = JBool True) \<or>
      (\<exists>checked base. validate_attempt (req_attempt req) = Inr checked \<and>
         attempt_commit req checked base s = (r, t))"
  proof (cases "validate_attempt (req_attempt req)")
    case (Inl e)
    then show ?thesis using assms by (auto simp: commit_locked_def bind_io_def lift_def)
  next
    case (Inr checked)
    then show ?thesis using assms
      by (auto simp: commit_locked_def bind_io_def lift_def asks_def ret_def Let_def prior_commit_def
          split: sum.splits prod.splits option.splits if_splits)
  qed
  then show ?thesis using that by blast
qed

lemma commit_locked_published:
  assumes "commit_locked n ctx req s = (r, t)"
  shows "published (req_observed req) s t"
  using assms
proof (cases rule: commit_locked_cases)
  case (ran checked base)
  then show ?thesis using commit_steps_published
    by (auto simp: attempt_commit_def split: prod.splits sum.splits if_split_asm)
qed (simp_all add: published_def)

text \<open>A commit publishes whole revisions only: whatever calls fail and in whatever order, and also
  when an error escapes, \<open>CURRENT\<close> afterwards has the bytes it had, or it named the observed revision
  before and now names a revision whose manifest is in the store with exactly the bytes its
  identifier promises, passes the manifest validation and has the observed revision as its parent.\<close>

theorem commit_publishes_whole_revisions:
  "case commit_locked n ctx req s of (r, t) \<Rightarrow>
     bytes_at current_path t = bytes_at current_path s \<or>
     read_current s = Inr (req_observed req) \<and>
     (\<exists>m. bytes_at current_path t = Some (digest_json m @ [newline]) \<and>
          bytes_under ''revisions'' ''.json'' (digest_json m) t = Some (canonical_json m) \<and>
          validate_manifest IntegrityError m = Inr () \<and> get ''parent'' m = JStr (req_observed req))"
proof (cases "commit_locked n ctx req s")
  case (Pair r t)
  then show ?thesis using commit_locked_published[OF Pair] unfolding Pair published_def complete_child_def by auto
qed

section \<open>What the outcome says\<close>

lemma close_audit_onward: "onward.keeps (close_audit req checked p receipt)"
  unfolding close_audit_def Let_def
  by (intro keeps_rules onward.keeps_write_ref_log onward.keeps_write_transaction)
    (auto split: if_splits intro!: onward.keeps_readers)

lemma commit_steps_locals:
  assumes "commit_steps req checked base (start_locals, s) = (r, l', t)"
  shows "loc_recorded l' \<or> loc_candidate l' = None \<and> read_current t = read_current s"
  using assms unfolding commit_steps_def
proof (cases rule: bind_runE)
  case (fails e)
  have "read_current t = read_current s"
    using same.run_keepsD[OF write_candidate_keeps fails(1)] onward.run_keepsD[OF write_candidate_onward fails(1)]
    by (intro read_current_cong) (auto simp: same_on_def onward_diverted)
  then show ?thesis using write_candidate_locals[OF fails(1)] by blast
next
  case (goes a l1 s1)
  have l1: "loc_recorded l1" using write_candidate_locals[OF goes(1)] by blast
  have "run_holds loc_recorded (case a of (child, candidate, checkpoint, new, refuted) \<Rightarrow>
      bind_run (write_evidence req checked child candidate checkpoint new refuted) (\<lambda>p.
      bind_run (publish (req_observed req) candidate) (\<lambda>_. settle req checked p)))"
    by (auto split: prod.splits intro!: run_holds_bind later_steps_locals)
  from run_holdsD[where l = l1 and s = s1 and l' = l', OF this goes(2) l1] show ?thesis by blast
qed

lemma settle_confirms:
  assumes run: "settle req checked p (l, s) = (Inr u, l', t)"
  shows "read_current t = Inr (prep_candidate p)"
proof -
  obtain s1 s2 s3 b body receipt where c: "confirm (prep_candidate p) s1 = (Inr (), s2)"
    and w: "write_transaction (str_of (get ''transaction_id'' checked)) body s2 = (Inr (), s3)"
    and a: "close_audit req checked p receipt s3 = (Inr b, t)"
    using run unfolding settle_def Let_def bind_doing_Inr bind_setting
    by (auto simp: setting_def)
  have "read_current s2 = Inr (prep_candidate p)"
    using c by (auto simp: confirm_def bind_io_def asks_def lift_def split: sum.splits)
  moreover have "same_on anchored s2 s3"
    by (rule same.keepsD[OF same.keeps_write_transaction w]) simp_all
  moreover have "onward s2 s3" by (rule onward.keepsD[OF onward.keeps_write_transaction w]) simp_all
  moreover have "same_on anchored s3 t" by (rule same.keepsD[OF close_audit_keeps a])
  moreover have "onward s3 t" by (rule onward.keepsD[OF close_audit_onward a])
  ultimately show ?thesis
    using read_current_cong[of s3 s2] read_current_cong[of t s3] by (auto simp: same_on_def onward_diverted)
qed

lemma commit_steps_done:
  assumes "commit_steps req checked base (l, s) = (Inr u, l', t)"
  shows "\<exists>c. loc_candidate l' = Some c \<and> read_current t = Inr c"
proof -
  from assms[unfolded commit_steps_def] obtain a l1 s1 where w: "write_candidate req checked base (l, s) = (Inr a, l1, s1)"
    and rest: "(case a of (child, candidate, checkpoint, new, refuted) \<Rightarrow>
      bind_run (write_evidence req checked child candidate checkpoint new refuted) (\<lambda>p.
      bind_run (publish (req_observed req) candidate) (\<lambda>_. settle req checked p))) (l1, s1) = (Inr u, l', t)"
    by (auto elim: bind_runE)
  obtain child candidate checkpoint new refuted where a: "a = (child, candidate, checkpoint, new, refuted)" by (cases a)
  obtain p l2 s2 l3 s3 where e: "write_evidence req checked child candidate checkpoint new refuted (l1, s1) = (Inr p, l2, s2)"
    and b: "publish (req_observed req) candidate (l2, s2) = (Inr (), l3, s3)"
    and x: "settle req checked p (l3, s3) = (Inr u, l', t)"
    using rest unfolding a by (auto elim!: bind_runE)
  have "loc_candidate l1 = Some candidate" by (rule write_candidate_complete(2)[OF w[unfolded a]])
  then have "loc_candidate l' = Some candidate"
    using run_holdsD[OF later_steps_locals(1)[of "\<lambda>l. loc_candidate l = Some candidate"] e]
      run_holdsD[OF later_steps_locals(2)[of "\<lambda>l. loc_candidate l = Some candidate"] b]
      run_holdsD[OF later_steps_locals(3)[of "\<lambda>l. loc_candidate l = Some candidate"] x] by simp
  moreover have "prep_candidate p = candidate"
    using e unfolding write_evidence_def Let_def bind_doing_Inr bind_setting doing_lift_ret by auto
  ultimately show ?thesis using settle_confirms[OF x] by simp
qed

lemma outcome_object_refused:
  "get ''committed'' (outcome_object txid e) = JBool False \<Longrightarrow> current_observed e = parent_revision e"
  by (auto simp: outcome_object_def outcome_authority_def Let_def split: if_split_asm)

lemma failed_outcome_true:
  assumes run: "failed_outcome req checked l e t = Inr (revision, out)"
    and l: "loc_recorded l \<or> loc_candidate l = None \<and> read_current t = read_current s"
  shows "get ''committed'' out = JBool True \<Longrightarrow>
      \<exists>c r. get ''candidate_revision'' out = JStr c \<and> read_current t = Inr r \<and> reachable_from c r t"
    and "get ''committed'' out = JBool False \<Longrightarrow> read_current s = Inr (req_observed req) \<Longrightarrow>
      read_current t = Inr (req_observed req)"
proof -
  let ?current = "if loc_recorded l then current_option t else Some (req_observed req)"
  obtain ev where out: "out = outcome_object (get ''transaction_id'' checked) ev"
    and ev: "parent_revision ev = Some (req_observed req)" "candidate_revision ev = loc_candidate l"
      "current_observed ev = ?current" "relation ev = candidate_relation (loc_candidate l) ?current t"
    using run by (auto simp: failed_outcome_def Let_def dest!: make_outcomeD)
  have current: "?current = Some r \<Longrightarrow> loc_recorded l \<Longrightarrow> read_current t = Inr r" for r
    by (auto simp: current_option_def split: sum.splits)
  show "\<exists>c r. get ''candidate_revision'' out = JStr c \<and> read_current t = Inr r \<and> reachable_from c r t"
    if "get ''committed'' out = JBool True"
  proof -
    have "candidate_relation (loc_candidate l) ?current t \<in> {''current'', ''ancestor''}"
      using that unfolding out outcome_object_committed ev(4) .
    from candidate_relation_reachable[OF this] obtain c r where
      "loc_candidate l = Some c" "?current = Some r" "reachable_from c r t" by blast
    then show ?thesis using current l ev(2) unfolding out outcome_object_candidate by auto
  qed
  show "read_current t = Inr (req_observed req)"
    if "get ''committed'' out = JBool False" "read_current s = Inr (req_observed req)"
    using outcome_object_refused[OF that(1)[unfolded out]] ev current l that(2) by auto
qed

lemma finished_outcome_committed:
  assumes "finished_outcome req checked l t = Inr (revision, out)" and "loc_candidate l = Some c"
    and "read_current t = Inr c"
  shows "get ''committed'' out = JBool True \<and> get ''candidate_revision'' out = JStr c \<and> reachable_from c c t"
  using assms
  by (auto simp: finished_outcome_def Let_def outcome_object_committed outcome_object_candidate
      candidate_relation_def reachable_from_def dest!: make_outcomeD)

lemma commit_locked_outcome:
  assumes run: "commit_locked n ctx req s = (Inr (revision, out), t)"
  shows "get ''committed'' out = JBool True \<Longrightarrow>
      \<exists>c r. get ''candidate_revision'' out = JStr c \<and> read_current t = Inr r \<and> reachable_from c r t"
    and "get ''committed'' out = JBool False \<Longrightarrow> read_current s = Inr (req_observed req) \<Longrightarrow>
      read_current t = Inr (req_observed req)"
proof -
  have "(get ''committed'' out = JBool True \<longrightarrow>
      (\<exists>c r. get ''candidate_revision'' out = JStr c \<and> read_current t = Inr r \<and> reachable_from c r t)) \<and>
    (get ''committed'' out = JBool False \<longrightarrow> read_current s = Inr (req_observed req) \<longrightarrow>
      read_current t = Inr (req_observed req))"
    using run
  proof (cases rule: commit_locked_cases)
    case (prior txid rev out')
    then show ?thesis using inspect_transaction_reachable[OF prior(3,4)] by auto
  next
    case (ran checked base)
    obtain r l u where steps: "commit_steps req checked base (start_locals, s) = (r, l, u)"
      by (cases "commit_steps req checked base (start_locals, s)") auto
    show ?thesis
    proof (cases r)
      case (Inl e)
      then have "failed_outcome req checked l e u = Inr (revision, out)" "t = u"
        using ran(2) steps by (auto simp: attempt_commit_def split: if_split_asm)
      then show ?thesis using failed_outcome_true commit_steps_locals[OF steps] by blast
    next
      case (Inr x)
      then obtain c where "loc_candidate l = Some c" "read_current u = Inr c"
        using commit_steps_done steps by blast
      moreover have "finished_outcome req checked l u = Inr (revision, out)" "t = u"
        using ran(2) steps Inr by (auto simp: attempt_commit_def)
      ultimately show ?thesis using finished_outcome_committed by auto
    qed
  qed simp
  then show "get ''committed'' out = JBool True \<Longrightarrow>
      \<exists>c r. get ''candidate_revision'' out = JStr c \<and> read_current t = Inr r \<and> reachable_from c r t"
    and "get ''committed'' out = JBool False \<Longrightarrow> read_current s = Inr (req_observed req) \<Longrightarrow>
      read_current t = Inr (req_observed req)" by blast+
qed

text \<open>C25: The outcome a commit returns is true of the store it leaves: when it says the candidate is
  committed, \<open>CURRENT\<close> can be read and the candidate is the revision there or an ancestor of it;
  when it says it is not committed, \<open>CURRENT\<close> still names the revision that was observed under the
  lock.\<close>

theorem commit_outcome_true:
  "case commit_locked n ctx req s of (Inl _, t) \<Rightarrow> True
   | (Inr (revision, out), t) \<Rightarrow>
       (case (get ''committed'' out, read_current s) of
          (JBool True, _) \<Rightarrow>
            \<exists>c r. get ''candidate_revision'' out = JStr c \<and> read_current t = Inr r \<and> reachable_from c r t
        | (JBool False, Inr observed) \<Rightarrow>
            if observed = req_observed req then read_current t = Inr observed else True
        | _ \<Rightarrow> True)"
proof (cases "commit_locked n ctx req s")
  case (Pair r t)
  show ?thesis
  proof (cases r)
    case (Inr result)
    obtain revision out where result: "result = (revision, out)" by (cases result)
    note outcome = commit_locked_outcome[OF Pair[unfolded Inr result]]
    show ?thesis unfolding Pair Inr result
      using outcome by (auto split: json.splits bool.splits sum.splits)
  qed (simp add: Pair)
qed

end
