(* ===== verification/Append.thy ===== *)
theory Append
  imports Commit
begin

text \<open>
  What a commit adds to the store, byte by byte: the segments of the observed revision stay, in order,
  and each stream that has new records gets one more segment with exactly their canonical lines; the
  supersessions and the checkpoint of the manifest follow from the request.
\<close>

section \<open>Segments of a revision\<close>

definition listed_segments :: "json \<Rightarrow> string \<Rightarrow> string list" where
  "listed_segments m stream = map str_of (map_items (segments_key stream) m)"

definition segment_texts :: "os \<Rightarrow> json \<Rightarrow> string \<Rightarrow> string list option" where
  "segment_texts s m stream =
     those (map (\<lambda>i. bytes_under (segment_kind stream) ''.jsonl'' i s) (listed_segments m stream))"

lemma those_Some_iff: "those xs = Some ys \<longleftrightarrow> xs = map Some ys"
proof (induction xs arbitrary: ys)
  case (Cons x xs)
  then show ?case by (cases ys) (auto split: option.splits)
qed auto

text \<open>The segments of a revision that was read are all there, under the digests of their bytes.\<close>

lemma load_segments_held:
  "load_segments s stream seen segments = Inr xs \<Longrightarrow>
   \<exists>texts. map (\<lambda>i. bytes_under (segment_kind stream) ''.jsonl'' i s) (map py_str segments) = map Some texts \<and>
     map py_str segments = map digest_bytes texts"
proof (induction segments arbitrary: seen xs)
  case (Cons segment rest)
  then obtain loaded seen' more where r: "read_segment stream (py_str segment) s = Inr loaded"
    and m: "load_segments s stream seen' rest = Inr more" by auto
  from r obtain found where "get_bytes (segment_kind stream) ''.jsonl'' (py_str segment) s = Inr found"
    by (auto simp: read_segment_def)
  with r have "\<exists>p. bytes_under (segment_kind stream) ''.jsonl'' (py_str segment) s = Some p \<and> py_str segment = digest_bytes p"
    by (cases found) (auto simp: read_segment_def bytes_under_def split: if_splits)
  then obtain p where "bytes_under (segment_kind stream) ''.jsonl'' (py_str segment) s = Some p"
    "py_str segment = digest_bytes p" by blast
  moreover obtain texts where "map (\<lambda>i. bytes_under (segment_kind stream) ''.jsonl'' i s) (map py_str rest) = map Some texts"
    "map py_str rest = map digest_bytes texts"
    using Cons.IH[OF m] by blast
  ultimately show ?case by (intro exI[of _ "p # texts"]) simp
qed simp

lemma manifest_segments:
  assumes "validate_manifest error m = Inr ()" and "stream \<in> set STREAMS"
  shows "map py_str (map_items (segments_key stream) m) = listed_segments m stream"
proof -
  have "check_segment_list error (get (segments_key stream) m) = Inr ()"
    using assms by (auto simp: validate_manifest_def Let_def each_Inr_iff)
  then have "\<forall>x\<in>set (map_items (segments_key stream) m). is_str x"
    by (auto simp: check_segment_list_def Let_def map_items_def each_Inr_iff check_identifier_def digest_text_def
        list_all_iff bare_digest_value_def split: json.splits)
  then show ?thesis by (auto simp: listed_segments_def is_str_iff)
qed

lemma snapshot_segments:
  assumes "snapshot_at n (Some r) w s = Inr snap" and "stream \<in> set STREAMS"
  shows "\<exists>texts. segment_texts s (snap_manifest snap) stream = Some texts \<and>
    listed_segments (snap_manifest snap) stream = map digest_bytes texts"
proof -
  have g: "snapshot_under_gate n (Some r) w s = Inr snap" using assms(1) by (simp add: snapshot_at_def split: if_splits)
  obtain k where n: "n = Suc k" using g by (cases n) auto
  obtain raw where load: "load_records s (snap_manifest snap) = Inr raw"
    using g unfolding n by auto
  then obtain loaded where "traverse (load_stream s (snap_manifest snap)) STREAMS = Inr loaded"
    by (auto simp: load_records_def)
  then obtain xs where "load_stream s (snap_manifest snap) stream = Inr xs"
    using traverse_member assms(2) by metis
  then obtain segments where i: "items_of (segments_key stream) (snap_manifest snap) = Inr segments"
    and l: "load_segments s stream [] segments = Inr xs" by (auto simp: load_stream_def)
  have "map py_str segments = listed_segments (snap_manifest snap) stream"
    using manifest_segments[OF snapshotD(5)[OF g] assms(2)] items_ofD[OF i] by simp
  with load_segments_held[OF l] show ?thesis by (auto simp: segment_texts_def those_Some_iff)
qed

section \<open>Writing the segments\<close>

definition stored_in :: "string \<Rightarrow> string \<Rightarrow> bool" where
  "stored_in stream p \<longleftrightarrow> prefix (segment_kind stream @ ''/'') p"

lemma stored_in_segment:
  assumes "bytes_under (segment_kind stream) ''.jsonl'' i s = Some q" and "digest_bytes q = i"
    and "same_on (stored_in stream) s t"
  shows "bytes_under (segment_kind stream) ''.jsonl'' i t = Some q"
  using assms(1) unfolding assms(2)[symmetric] bytes_under_digest(3)
  by (subst same_onD[OF assms(3)]) (simp_all add: stored_in_def)

lemma stored_in_other [simp]:
  "k \<in> set STREAMS \<Longrightarrow> stream \<in> set STREAMS \<Longrightarrow> k \<noteq> stream \<Longrightarrow> \<not> stored_in stream (segment_kind k @ x)"
  by (auto simp: STREAMS_def stored_in_def segment_kind_def)

lemma stored_in_head [simp]: "c \<noteq> CHR ''s'' \<Longrightarrow> \<not> stored_in stream (c # p)"
  by (simp add: stored_in_def segment_kind_def)

lemma write_segment_other:
  assumes "write_segment k xs s = (r, t)" and "k \<in> set STREAMS" "stream \<in> set STREAMS" "k \<noteq> stream"
  shows "same_on (stored_in stream) s t"
  by (rule same.keepsD[OF same.keeps_write_segment assms(1)]) (use assms(2-4) in simp_all)

lemma write_segment_stays:
  assumes "write_segment k xs s = (r, t)" and "k \<in> set STREAMS" "stream \<in> set STREAMS"
    and h: "bytes_under (segment_kind stream) ''.jsonl'' i s = Some q" "digest_bytes q = i"
  shows "bytes_under (segment_kind stream) ''.jsonl'' i t = Some q \<or> k = stream \<and> collision q (segment_text xs)"
proof (cases "k = stream")
  case True
  then have "put_bytes (segment_kind stream) ''.jsonl'' (segment_text xs) s = (r, t) \<or> t = s"
    using assms(1) by (auto simp: write_segment_def bind_io_def lift_def split: sum.splits)
  then show ?thesis using segments.held_stays[OF _ h] True h by auto
next
  case False
  then show ?thesis using stored_in_segment[OF h write_segment_other[OF assms(1-3)]] by simp
qed

definition new_segments :: "string list \<Rightarrow> rows \<Rightarrow> (string \<times> string) list" where
  "new_segments kinds pending =
     map (\<lambda>k. (k, digest_bytes (segment_text (pending k)))) (filter (\<lambda>k. pending k \<noteq> []) kinds)"

lemma write_segments_stay:
  "write_segments kinds pending s = (r, t) \<Longrightarrow> set kinds \<subseteq> set STREAMS \<Longrightarrow> stream \<in> set STREAMS \<Longrightarrow>
   bytes_under (segment_kind stream) ''.jsonl'' i s = Some q \<Longrightarrow> digest_bytes q = i \<Longrightarrow>
   bytes_under (segment_kind stream) ''.jsonl'' i t = Some q \<or>
   stream \<in> set kinds \<and> collision q (segment_text (pending stream))"
proof (induction kinds arbitrary: s r t)
  case (Cons k rest)
  show ?case
  proof (cases "pending k = []")
    case True
    then have "write_segments rest pending s = (r, t)" using Cons.prems(1) by simp
    from Cons.IH[OF this _ Cons.prems(3-5)] Cons.prems(2) show ?thesis by auto
  next
    case False
    obtain r1 s1 where w: "write_segment k (pending k) s = (r1, s1)" by fastforce
    obtain r2 s2 where m: "write_segments rest pending s1 = (r2, s2)" by fastforce
    have t: "t = s1 \<or> t = s2" using Cons.prems(1) False w m by (auto simp: bind_io_def ret_def split: sum.splits)
    have k: "k \<in> set STREAMS" "set rest \<subseteq> set STREAMS" using Cons.prems(2) by auto
    from write_segment_stays[OF w k(1) Cons.prems(3,4,5)] show ?thesis
      using Cons.IH[OF m k(2) Cons.prems(3) _ Cons.prems(5)] t by auto
  qed
qed (simp add: ret_def)

lemma write_segments_written:
  "write_segments kinds pending s = (Inr new, t) \<Longrightarrow> set kinds \<subseteq> set STREAMS \<Longrightarrow> distinct kinds \<Longrightarrow>
   new = new_segments kinds pending \<and>
   (\<forall>k\<in>set kinds. pending k = [] \<or>
      bytes_under (segment_kind k) ''.jsonl'' (digest_bytes (segment_text (pending k))) t = Some (segment_text (pending k)))"
proof (induction kinds arbitrary: s new t)
  case (Cons k rest)
  show ?case
  proof (cases "pending k = []")
    case True
    then show ?thesis using Cons by (auto simp: new_segments_def)
  next
    case False
    obtain r1 s1 where w: "write_segment k (pending k) s = (r1, s1)" by fastforce
    obtain r2 s2 where m: "write_segments rest pending s1 = (r2, s2)" by fastforce
    obtain i more where im: "r1 = Inr i" "r2 = Inr more" "new = (k, i) # more" "t = s2"
      using Cons.prems(1) False w m by (auto simp: bind_io_def ret_def split: sum.splits)
    note held = write_segment_held[OF w[unfolded im(1)]]
    have k: "k \<in> set STREAMS" "set rest \<subseteq> set STREAMS" "distinct rest" "k \<notin> set rest" using Cons.prems(2,3) by auto
    have "bytes_under (segment_kind k) ''.jsonl'' (digest_bytes (segment_text (pending k))) t = Some (segment_text (pending k))"
      using write_segments_stay[OF m k(2,1)] held k(4) im by blast
    then show ?thesis using Cons.IH[OF m[unfolded im(2), folded im(4)] k(2,3)] held im False by (auto simp: new_segments_def)
  qed
qed (simp add: ret_def new_segments_def)

lemma map_of_new_segments:
  "map_of (new_segments kinds pending) stream =
   (if stream \<in> set kinds \<and> pending stream \<noteq> [] then Some (digest_bytes (segment_text (pending stream))) else None)"
  by (induction kinds) (auto simp: new_segments_def)

section \<open>The candidate\<close>

text \<open>What the steps after the candidate leave alone: the directories of segments and checkpoints.\<close>

definition shelved :: "string \<Rightarrow> bool" where
  "shelved p \<longleftrightarrow> prefix ''segments/'' p \<or> prefix ''checkpoints/'' p"

lemma shelved_head [simp]: "c \<noteq> CHR ''s'' \<Longrightarrow> c \<noteq> CHR ''c'' \<Longrightarrow> \<not> shelved (c # p)"
  by (simp add: shelved_def)

lemma below_not_shelved: "prefix d p \<Longrightarrow> d \<noteq> [] \<Longrightarrow> hd d \<noteq> CHR ''s'' \<Longrightarrow> hd d \<noteq> CHR ''c'' \<Longrightarrow> \<not> shelved p"
  by (cases d; cases p) auto

lemma shelved_places [simp]:
  "\<not> shelved (journal_path txid)" "\<not> shelved (temporary_name (journal_path txid) u)"
  "\<not> shelved watermark_path" "\<not> shelved (temporary_name watermark_path u)"
  "\<not> shelved current_path" "\<not> shelved (temporary_name current_path u)"
  using below_not_shelved[OF temporary_of_journal] below_not_shelved[OF temporary_of_watermark]
    below_not_shelved[OF temporary_of_current]
  by (simp_all add: journal_path_def watermark_path_def current_path_def)

lemma stored_in_segments: "stored_in stream p \<Longrightarrow> prefix ''segments/'' p"
  by (auto simp: stored_in_def segment_kind_def prefix_def)

lemma stored_in_shelved: "stored_in stream p \<Longrightarrow> shelved p"
  by (simp add: shelved_def stored_in_segments)

lemma same_on_stored_in: "same_on shelved s t \<Longrightarrow> same_on (stored_in stream) s t"
  by (erule same_on_mono) (rule stored_in_shelved)

lemma write_evidence_shelved:
  "same.run_keeps shelved (write_evidence req checked child candidate checkpoint new refuted)"
  unfolding write_evidence_def Let_def
  by (intro same.run_rules same.keeps_write_ref_log same.keeps_write_json_object same.keeps_write_transaction
      same.keeps_write_receipt)
    (simp_all add: stages_kind_def receipts_kind_def)

lemma close_audit_shelved: "same.keeps shelved (close_audit req checked p receipt)"
  unfolding close_audit_def Let_def
  by (intro keeps_rules same.keeps_write_ref_log same.keeps_write_transaction)
    (auto split: if_splits intro!: same.keeps_readers)

lemma settle_shelved: "same.run_keeps shelved (settle req checked p)"
  unfolding settle_def Let_def confirm_def
  by (intro same.run_rules same.keeps_write_watermark same.keeps_write_receipt same.keeps_write_transaction
      close_audit_shelved)
    (simp_all add: receipts_kind_def)

lemma publish_shelved: "same.run_keeps shelved (publish observed candidate)"
  unfolding publish_def by (intro same.run_rules same.keeps_replace_current) simp_all

text \<open>The segments of the observed revision and the new ones are there, and so is the checkpoint.\<close>

definition segments_there :: "commit_request \<Rightarrow> os \<Rightarrow> os \<Rightarrow> bool" where
  "segments_there req s t \<longleftrightarrow> (\<forall>stream\<in>set STREAMS.
     (\<forall>i q. bytes_under (segment_kind stream) ''.jsonl'' i s = Some q \<longrightarrow> digest_bytes q = i \<longrightarrow>
        bytes_under (segment_kind stream) ''.jsonl'' i t = Some q \<or> collision q (segment_text (req_pending req stream))) \<and>
     (req_pending req stream = [] \<or>
      bytes_under (segment_kind stream) ''.jsonl'' (digest_bytes (segment_text (req_pending req stream))) t =
        Some (segment_text (req_pending req stream))))"

lemma segments_there_later:
  assumes "segments_there req s t" and "same_on shelved t u"
  shows "segments_there req s u"
  using assms(1) stored_in_segment[OF _ _ same_on_stored_in[OF assms(2)]] by (fastforce simp: segments_there_def)

lemma segments_there_earlier:
  assumes "same_on shelved s t" and "segments_there req t u"
  shows "segments_there req s u"
  using assms(2) stored_in_segment[OF _ _ same_on_stored_in[OF assms(1)]] by (fastforce simp: segments_there_def)

lemma write_segments_there: "write_segments STREAMS (req_pending req) s = (Inr new, t) \<Longrightarrow>
    new = new_segments STREAMS (req_pending req) \<and> segments_there req s t"
  using write_segments_written[of STREAMS "req_pending req" s new t] write_segments_stay[of STREAMS "req_pending req" s "Inr new" t]
  by (fastforce simp: segments_there_def STREAMS_def)

lemma segments_frame:
  "same.keeps (prefix ''segments/'') (write_checkpoint c m)"
  "same.keeps (prefix ''segments/'') (write_refute_objects req checked)"
  "same.keeps (prefix ''segments/'') (write_json_object ''revisions'' v)"
  by (intro same.keeps_write_checkpoint same.keeps_write_refute_objects same.keeps_write_json_object; simp)+

lemma segments_there_frame:
  assumes "segments_there req s t" and "same_on (prefix ''segments/'') t u"
  shows "segments_there req s u"
proof -
  have "same_on (stored_in stream) t u" for stream
    using assms(2) by (rule same_on_mono) (rule stored_in_segments)
  from stored_in_segment[OF _ _ this] show ?thesis using assms(1) by (fastforce simp: segments_there_def)
qed

text \<open>The entry of the refutation a commit writes.\<close>

definition refuted_entries :: "commit_request \<Rightarrow> json list" where
  "refuted_entries req =
     (case req_refute req of None \<Rightarrow> [] | Some objects \<Rightarrow>
        let refutation = get ''refutation'' objects in
        [mk_obj [(''stream'', JStr (py_str (get ''stream'' refutation))),
                 (''target_record_sha256'', JStr (py_str (get ''target_record_sha256'' refutation))),
                 (''refutation_id'', JStr (digest_json refutation))]])"

lemma write_refutation_id:
  assumes "write_refutation objects policy s = (Inr ids, t)"
  shows "refutation_id ids = digest_json (get ''refutation'' objects)"
proof -
  obtain i u v where "write_json_object ''refutations'' (get ''refutation'' objects) u = (Inr i, v)" "refutation_id ids = i"
    using assms unfolding write_refutation_def Let_def
    by (auto simp: bind_io_def lift_def ret_def split: prod.splits sum.splits)
  then show ?thesis using write_json_object_held(1)[of "''refutations''"] by simp
qed

lemma refuted_written:
  assumes "write_refute_objects req checked s = (Inr refuted, t)"
  shows "(case (req_refute req, refuted) of
            (Some objects, Some ids) \<Rightarrow> [refutation_entry objects ids] | _ \<Rightarrow> []) = refuted_entries req"
  using assms
  by (auto simp: write_refute_objects_def lift_def ret_def bind_io_def refuted_entries_def refutation_entry_def Let_def
      dest!: write_refutation_id split: option.splits if_splits prod.splits sum.splits)

lemma create_child_appends:
  assumes "create_child req checked base (l, s) = (Inr (child, candidate, checkpoint, new, refuted), l', t)"
  shows "build_child_manifest (snap_manifest base)
      (child_of req checked base (new_segments STREAMS (req_pending req)) checkpoint refuted) = Inr child"
    and "candidate = digest_json child" and "segments_there req s t"
    and "case new_checkpoint req checked base of
        None \<Rightarrow> checkpoint = py_str (get ''checkpoint'' (snap_manifest base))
      | Some c \<Rightarrow> checkpoint = digest_json c \<and> bytes_under ''checkpoints'' ''.json'' checkpoint t = Some (canonical_json c)"
    and "(case (req_refute req, refuted) of
            (Some objects, Some ids) \<Rightarrow> [refutation_entry objects ids] | _ \<Rightarrow> []) = refuted_entries req"
proof -
  obtain s1 s2 s3 where w: "write_segments STREAMS (req_pending req) s = (Inr new, s1)"
    and c: "write_checkpoint (new_checkpoint req checked base) (snap_manifest base) s1 = (Inr checkpoint, s2)"
    and r: "write_refute_objects req checked s2 = (Inr refuted, s3)"
    and b: "build_child_manifest (snap_manifest base) (child_of req checked base new checkpoint refuted) = Inr child"
    and j: "write_json_object ''revisions'' child s3 = (Inr candidate, t)"
    using assms unfolding create_child_def Let_def bind_doing_Inr bind_setting doing_lift_ret
    by (auto simp: lift_def)
  note new = write_segments_there[OF w]
  show "(case (req_refute req, refuted) of
            (Some objects, Some ids) \<Rightarrow> [refutation_entry objects ids] | _ \<Rightarrow> []) = refuted_entries req"
    by (rule refuted_written[OF r])
  show "build_child_manifest (snap_manifest base)
      (child_of req checked base (new_segments STREAMS (req_pending req)) checkpoint refuted) = Inr child"
    using b new by simp
  show "candidate = digest_json child" using write_json_object_held(1)[OF j] by simp
  show "segments_there req s t"
    using segments_there_frame[OF segments_there_frame[OF segments_there_frame[OF conjunct2[OF new]
      same.keepsD[OF segments_frame(1) c]] same.keepsD[OF segments_frame(2) r]] same.keepsD[OF segments_frame(3) j]] .
  have "same_on (prefix ''checkpoints/'') s2 s3" and "same_on (prefix ''checkpoints/'') s3 t"
    using same.keepsD[OF same.keeps_write_refute_objects r] same.keepsD[OF same.keeps_write_json_object j] by simp_all
  then have f: "bytes_under ''checkpoints'' ''.json'' (digest_json v) t = bytes_under ''checkpoints'' ''.json'' (digest_json v) s2" for v
    by (simp add: digest_json_def bytes_under_digest(3) same_on_def)
  show "case new_checkpoint req checked base of
        None \<Rightarrow> checkpoint = py_str (get ''checkpoint'' (snap_manifest base))
      | Some c \<Rightarrow> checkpoint = digest_json c \<and> bytes_under ''checkpoints'' ''.json'' checkpoint t = Some (canonical_json c)"
    using c f write_json_object_held[of "''checkpoints''" _ s1 checkpoint s2]
    by (cases "new_checkpoint req checked base") (fastforce simp: write_checkpoint_def ret_def)+
qed

section \<open>The commit\<close>

lemma child_core_get:
  assumes "build_child_manifest base c = Inr m"
    and "k \<notin> {''store_identity'', ''supersedes_map'', ''features'', ''refutations_map'', ''compaction_epoch''}"
  shows "\<exists>schema. get k m = get k (mk_obj (child_core schema c))"
proof -
  have "k \<notin> fst ` set (rev (child_extras base schema c))" for schema
    using assms(2) by (auto simp: child_extras_def split: option.splits)
  then have "map_of (rev (child_extras base schema c)) k = None" for schema
    by (simp only: map_of_eq_None_iff simp_thms)
  then show ?thesis using assms(1) by (auto simp: build_child_manifest_def Let_def get_mk_obj map_add_def)
qed

lemma child_extras_get:
  assumes "build_child_manifest base c = Inr m" and "k \<in> {''supersedes_map'', ''refutations_map''}"
  shows "get k m = get k (mk_obj (child_extras base (child_schema base (child_operation c)) c))"
proof -
  have "k \<notin> fst ` set (rev (child_core schema c))" for schema
    using assms(2) by (auto simp: child_core_def)
  then have "map_of (rev (child_core schema c)) k = None" for schema
    by (simp only: map_of_eq_None_iff simp_thms)
  then show ?thesis using assms(1)
    by (auto simp: build_child_manifest_def Let_def map_add_def split: option.splits)
qed

lemma child_extras_maps:
  "get ''supersedes_map'' (mk_obj (child_extras base schema c)) =
     (if child_supersedes c \<noteq> [] \<or> schema = rev3 then JArr (child_supersedes c) else JNull)"
  "get ''refutations_map'' (mk_obj (child_extras base schema c)) =
     (if schema \<noteq> rev1 then JArr (child_refutations c) else JNull)"
  by (cases "child_identity c"; simp add: child_extras_def)+

lemma child_manifest_fields:
  assumes build: "build_child_manifest base c = Inr m"
  shows "stream \<in> set STREAMS \<Longrightarrow> map_items (segments_key stream) m = map JStr (child_segments c stream)"
    and "get ''checkpoint'' m = JStr (child_checkpoint c)"
    and "map_items ''supersedes_map'' m = child_supersedes c"
    and "get ''revision'' m = JInt (child_revision c)"
proof -
  show "get ''revision'' m = JInt (child_revision c)"
    using child_core_get[OF build, of "''revision''"] by (auto simp: child_core_def)
  show "map_items (segments_key stream) m = map JStr (child_segments c stream)" if "stream \<in> set STREAMS"
    using child_core_get[OF build, of "segments_key stream"] that
    by (auto simp: STREAMS_def segments_key_def map_items_def child_core_def)
  show "get ''checkpoint'' m = JStr (child_checkpoint c)"
    using child_core_get[OF build, of "''checkpoint''"] by (auto simp: child_core_def)
  show "map_items ''supersedes_map'' m = child_supersedes c"
    by (simp add: map_items_def child_extras_get[OF build] child_extras_maps del: get_mk_obj)
qed

lemma no_refutations_before:
  assumes "validate_manifest error base = Inr ()" and "child_schema base operation = rev1"
  shows "map_items ''refutations_map'' base = []"
proof -
  have "get ''schema'' base = rev1" and "manifest_shape base"
    using assms by (auto simp: validate_manifest_def Let_def child_schema_def split: if_splits)
  then have "list_all (\<lambda>k. k \<in> set (manifest_required rev1 @ [''store_identity'', ''supersedes_map''])) (dict_keys base)"
    by (simp only: manifest_shape_def Let_def)
  moreover have "''refutations_map'' \<notin> set (manifest_required rev1 @ [''store_identity'', ''supersedes_map''])"
    by (simp add: manifest_required_def)
  ultimately have "''refutations_map'' \<notin> set (dict_keys base)" unfolding list_all_iff by blast
  then show ?thesis using not_has_key_get[of "''refutations_map''" base] by (simp add: has_key_def map_items_def)
qed

lemma child_refutations_kept:
  assumes "build_child_manifest base c = Inr m" and "validate_manifest error base = Inr ()"
    and "child_refutations c = map_items ''refutations_map'' base @ extra"
    and "child_operation c \<noteq> ''refute'' \<Longrightarrow> extra = []"
  shows "map_items ''refutations_map'' m = map_items ''refutations_map'' base @ extra"
proof (cases "child_schema base (child_operation c) = rev1")
  case True
  then have "child_operation c \<noteq> ''refute''" by (auto simp: child_schema_def split: if_splits)
  moreover have "get ''refutations_map'' m = JNull"
    using True by (simp add: child_extras_get[OF assms(1)] child_extras_maps del: get_mk_obj)
  ultimately show ?thesis using assms(3,4) no_refutations_before[OF assms(2) True] by (simp add: map_items_def)
next
  case False
  then have "get ''refutations_map'' m = JArr (child_refutations c)"
    using False by (simp add: child_extras_get[OF assms(1)] child_extras_maps del: get_mk_obj)
  then show ?thesis using assms(3) by (simp add: map_items_def)
qed

lemma write_candidate_appends:
  assumes "write_candidate req checked base (l, s) = (Inr (child, candidate, checkpoint, new, refuted), l', t)"
  shows "build_child_manifest (snap_manifest base)
      (child_of req checked base (new_segments STREAMS (req_pending req)) checkpoint refuted) = Inr child"
    and "candidate = digest_json child" and "segments_there req s t"
    and "case new_checkpoint req checked base of
        None \<Rightarrow> checkpoint = py_str (get ''checkpoint'' (snap_manifest base))
      | Some c \<Rightarrow> checkpoint = digest_json c \<and> bytes_under ''checkpoints'' ''.json'' checkpoint t = Some (canonical_json c)"
    and "(case (req_refute req, refuted) of
            (Some objects, Some ids) \<Rightarrow> [refutation_entry objects ids] | _ \<Rightarrow> []) = refuted_entries req"
proof -
  obtain s1 l1 where j: "write_transaction (str_of (get ''transaction_id'' checked)) (prepared_journal req checked) s = (Inr (), s1)"
    and c: "create_child req checked base (l1, s1) = (Inr (child, candidate, checkpoint, new, refuted), l', t)"
    using assms unfolding write_candidate_def bind_doing_Inr bind_setting by auto
  have f: "same_on shelved s s1" by (rule same.keepsD[OF same.keeps_write_transaction j]) simp_all
  show "build_child_manifest (snap_manifest base)
      (child_of req checked base (new_segments STREAMS (req_pending req)) checkpoint refuted) = Inr child"
    and "candidate = digest_json child" and "segments_there req s t"
    and "case new_checkpoint req checked base of
        None \<Rightarrow> checkpoint = py_str (get ''checkpoint'' (snap_manifest base))
      | Some c \<Rightarrow> checkpoint = digest_json c \<and> bytes_under ''checkpoints'' ''.json'' checkpoint t = Some (canonical_json c)"
    and "(case (req_refute req, refuted) of
            (Some objects, Some ids) \<Rightarrow> [refutation_entry objects ids] | _ \<Rightarrow> []) = refuted_entries req"
    using create_child_appends[OF c] segments_there_earlier[OF f] by simp_all
qed

text \<open>When \<open>CURRENT\<close> moved the candidate was written, and nothing afterwards touched its objects.\<close>

lemma commit_steps_moved:
  assumes "commit_steps req checked base (l, s) = (r, l', t)"
    and moved: "bytes_at current_path t \<noteq> bytes_at current_path s"
  obtains child candidate checkpoint new refuted l1 s1 where
    "write_candidate req checked base (l, s) = (Inr (child, candidate, checkpoint, new, refuted), l1, s1)"
    "same_on shelved s1 t" "bytes_at current_path t = Some (candidate @ [newline])"
    "complete_child (req_observed req) candidate t"
  using assms(1) unfolding commit_steps_def
proof (cases rule: bind_runE)
  case (fails e)
  then show ?thesis using same.run_keepsD[OF write_candidate_keeps] moved by (auto simp: same_on_def)
next
  case (goes a l1 s1)
  note found = that
  obtain child candidate checkpoint new refuted where a: "a = (child, candidate, checkpoint, new, refuted)"
    by (cases a)
  note w = goes(1)[unfolded a] and whole = write_candidate_complete(1)[OF goes(1)[unfolded a]]
  have c1: "bytes_at current_path s1 = bytes_at current_path s"
    using same.run_keepsD[OF write_candidate_keeps w] by (simp add: same_on_def)
  from goes(2)[unfolded a split_conv] show ?thesis
  proof (cases rule: bind_runE)
    case (fails e)
    then show ?thesis using same.run_keepsD[OF write_evidence_keeps] c1 moved by (fastforce simp: same_on_def)
  next
    case (goes p l2 s2)
    have f2: "same_on shelved s1 s2" and g2: "same_on anchored s1 s2"
      using same.run_keepsD[OF write_evidence_shelved goes(1)] same.run_keepsD[OF write_evidence_keeps goes(1)] .
    have c2: "bytes_at current_path s2 = bytes_at current_path s" using same_onD[OF g2] c1 by simp
    have whole2: "complete_child (req_observed req) candidate s2"
      using whole by (rule complete_child_stays[rotated]) (rule same_on_mono[OF g2]; simp)
    have after: ?thesis if pub: "publish (req_observed req) candidate (l2, s2) = (r', l3, s3)"
      and later: "same_on shelved s3 t" "same_on anchored s3 t" for r' l3 s3
    proof (rule found)
      note pc = publish_cases[OF pub]
      have c3: "bytes_at current_path t = bytes_at current_path s3" using same_onD[OF later(2)] by simp
      show "write_candidate req checked base (l, s) = (Inr (child, candidate, checkpoint, new, refuted), l1, s1)" by (rule w)
      show "same_on shelved s1 t"
        using f2 same.run_keepsD[OF publish_shelved pub] later(1) by (simp add: same_on_def)
      show "bytes_at current_path t = Some (candidate @ [newline])" using pc(3) c3 c2 moved by auto
      have "complete_child (req_observed req) candidate s3" by (rule complete_child_stays[OF pc(2) whole2])
      then show "complete_child (req_observed req) candidate t"
        by (rule complete_child_stays[rotated]) (rule same_on_mono[OF later(2)]; simp)
    qed
    from goes(2) show ?thesis
    proof (cases rule: bind_runE)
      case (fails e)
      then show ?thesis using after[OF fails(1)] by (simp add: same_on_def)
    next
      case (goes x l3 s3)
      show ?thesis by (rule after[OF goes(1) same.run_keepsD[OF settle_shelved goes(2)] same.run_keepsD[OF settle_keeps goes(2)]])
    qed
  qed
qed

lemma commit_locked_ran:
  assumes "commit_locked n ctx req s = (r, t)" and "bytes_at current_path t \<noteq> bytes_at current_path s"
  obtains checked base where "validate_attempt (req_attempt req) = Inr checked"
    "check_commit_request req checked = Inr ()"
    "snapshot_at n (Some (req_observed req)) True s = Inr base"
    "assign_records (snap_records base) (req_pending req) = Inr ()"
    "attempt_commit req checked base s = (r, t)"
proof -
  have "t \<noteq> s" using assms(2) by blast
  then show ?thesis using assms(1) that
    by (auto simp: commit_locked_def bind_io_def lift_def asks_def ret_def Let_def prior_commit_def
        split: sum.splits prod.splits option.splits if_splits)
qed

text \<open>What the new head holds, given the observed revision and the request.\<close>

definition appended :: "commit_request \<Rightarrow> snapshot \<Rightarrow> json \<Rightarrow> os \<Rightarrow> os \<Rightarrow> string \<Rightarrow> bool" where
  "appended req base m s t stream \<longleftrightarrow>
     (\<exists>texts. segment_texts s (snap_manifest base) stream = Some texts \<and>
        (segment_texts t m stream =
           Some (texts @ (if req_pending req stream = [] then [] else [segment_text (req_pending req stream)])) \<or>
         list_ex (\<lambda>text. collision text (segment_text (req_pending req stream))) texts))"

lemma appended_segments:
  assumes base: "snapshot_at n (Some r) w s = Inr base" and there: "segments_there req s t"
    and m: "map_items (segments_key stream) m =
      map JStr (child_segment_ids (snap_manifest base) (new_segments STREAMS (req_pending req)) stream)"
    and stream: "stream \<in> set STREAMS"
  shows "appended req base m s t stream"
proof -
  let ?held = "\<lambda>i s. bytes_under (segment_kind stream) ''.jsonl'' i s" and ?new = "segment_text (req_pending req stream)"
  obtain texts where texts: "segment_texts s (snap_manifest base) stream = Some texts"
    and ids: "listed_segments (snap_manifest base) stream = map digest_bytes texts"
    using snapshot_segments[OF base stream] by blast
  have own: "listed_segments m stream = map digest_bytes texts @ (if req_pending req stream = [] then [] else [digest_bytes ?new])"
    using m ids stream by (simp add: listed_segments_def child_segment_ids_def map_of_new_segments comp_def)
  have held: "?held (digest_bytes x) s = Some x" if "x \<in> set texts" for x
    using texts that by (auto simp: segment_texts_def those_Some_iff ids)
  have stays: "?held (digest_bytes x) t = Some x \<or> collision x ?new" if "x \<in> set texts" for x
    using there held[OF that] stream by (auto simp: segments_there_def)
  have new: "req_pending req stream = [] \<or> ?held (digest_bytes ?new) t = Some ?new"
    using there stream by (auto simp: segments_there_def)
  show ?thesis
  proof (cases "list_ex (\<lambda>text. collision text ?new) texts")
    case False
    then have "map (\<lambda>i. ?held i t) (map digest_bytes texts) = map Some texts"
      using stays by (auto simp: list_ex_iff)
    then show ?thesis using texts new own by (auto simp: appended_def segment_texts_def those_Some_iff)
  qed (use texts in \<open>auto simp: appended_def\<close>)
qed

text \<open>The checkpoint of the new manifest.\<close>

definition checkpoint_follows :: "json option \<Rightarrow> json \<Rightarrow> json \<Rightarrow> os \<Rightarrow> bool" where
  "checkpoint_follows new base_manifest m t \<longleftrightarrow>
     (case new of
        None \<Rightarrow> get ''checkpoint'' m = get ''checkpoint'' base_manifest
      | Some c \<Rightarrow> get ''checkpoint'' m = JStr (digest_json c) \<and>
          bytes_under ''checkpoints'' ''.json'' (digest_json c) t = Some (canonical_json c))"

lemma commit_appends:
  assumes commit: "commit_locked n ctx req s = (r, t)" and moved: "bytes_at current_path t \<noteq> bytes_at current_path s"
  obtains checked base m where "validate_attempt (req_attempt req) = Inr checked"
    "check_commit_request req checked = Inr ()"
    "read_current s = Inr (req_observed req)" "snapshot_at n (Some (req_observed req)) True s = Inr base"
    "bytes_at current_path t = Some (digest_json m @ [newline])" "complete_child (req_observed req) (digest_json m) t"
    "list_all (appended req base m s t) STREAMS"
    "map_items ''supersedes_map'' m = map_items ''supersedes_map'' (snap_manifest base) @ req_supersedes req"
    "map_items ''refutations_map'' m = map_items ''refutations_map'' (snap_manifest base) @ refuted_entries req"
    "checkpoint_follows (new_checkpoint req checked base) (snap_manifest base) m t"
    "get ''revision'' m = JInt (int_of (get ''revision'' (snap_manifest base)) + 1)"
proof -
  from commit_locked_ran[OF commit moved] obtain checked base where
    v: "validate_attempt (req_attempt req) = Inr checked" "check_commit_request req checked = Inr ()"
    and base: "snapshot_at n (Some (req_observed req)) True s = Inr base"
    and run: "attempt_commit req checked base s = (r, t)" by blast
  obtain q l where "commit_steps req checked base (start_locals, s) = (q, l, t)"
    using run by (auto simp: attempt_commit_def split: prod.splits sum.splits if_split_asm)
  from commit_steps_moved[OF this moved] obtain child candidate checkpoint new refuted l1 s1 where
    w: "write_candidate req checked base (start_locals, s) = (Inr (child, candidate, checkpoint, new, refuted), l1, s1)"
    and f: "same_on shelved s1 t" and c: "bytes_at current_path t = Some (candidate @ [newline])"
    and whole: "complete_child (req_observed req) candidate t" by blast
  note a = write_candidate_appends[OF w]
  note fields = child_manifest_fields[OF a(1)]
  have "snapshot_under_gate n (Some (req_observed req)) True s = Inr base"
    using base by (simp add: snapshot_at_def split: if_splits)
  note valid = snapshotD(5)[OF this]
  then have str: "is_str (get ''checkpoint'' (snap_manifest base))"
    by (auto simp: validate_manifest_def Let_def check_identifier_def digest_text_def bare_digest_value_def split: json.splits)
  have "appended req base child s t stream" if "stream \<in> set STREAMS" for stream
    using appended_segments[OF base segments_there_later[OF a(3) f]] fields(1)[OF that] that
    by (simp add: child_of_def Let_def)
  then have streams: "list_all (appended req base child s t) STREAMS" by (simp add: list_all_iff)
  have maps: "map_items ''supersedes_map'' child = map_items ''supersedes_map'' (snap_manifest base) @ req_supersedes req"
    using fields(3) by (simp add: child_of_def Let_def)
  have "child_operation (child_of req checked base x y z) = str_of (get ''operation'' checked)" for x y z
    by (simp add: child_of_def Let_def)
  moreover have none: "refuted_entries req = []" if "str_of (get ''operation'' checked) \<noteq> ''refute''"
    using v(2) that by (cases "get ''operation'' checked = JStr ''refute''")
      (auto simp: check_commit_request_def Let_def refuted_entries_def)
  ultimately have refutations: "map_items ''refutations_map'' child = map_items ''refutations_map'' (snap_manifest base) @ refuted_entries req"
    using a(5) by (intro child_refutations_kept[OF a(1) valid])
      (auto simp: child_of_def Let_def none)
  have "bytes_under ''checkpoints'' ''.json'' (digest_json v) t = bytes_under ''checkpoints'' ''.json'' (digest_json v) s1" for v
    using f by (simp add: digest_json_def bytes_under_digest(3) same_on_def shelved_def)
  then have "checkpoint_follows (new_checkpoint req checked base) (snap_manifest base) child t"
    using a(4) fields(2) str by (auto simp: checkpoint_follows_def child_of_def Let_def is_str_iff split: option.splits)
  moreover have "read_current s = Inr (req_observed req)"
    using commit_locked_published[OF commit] moved by (auto simp: published_def)
  moreover have "get ''revision'' child = JInt (int_of (get ''revision'' (snap_manifest base)) + 1)"
    using fields(4) by (simp add: child_of_def Let_def)
  ultimately show ?thesis using that[OF v _ base _ _ streams maps refutations] c whole unfolding a(2) by blast
qed

text \<open>C2: A commit that moves \<open>CURRENT\<close> appends exactly what was asked for, whatever calls fail. It named the
  observed revision before and names a valid child of it now, stored under the digest of its manifest, whose
  revision number is that of the observed revision plus one; in every stream the files of its segments are,
  byte by byte and in order, those of the observed revision followed by the canonical lines of the new
  records (or a file of the observed revision and the new one are an explicit SHA-256 collision); its
  supersessions and refutations are those of the observed revision followed by the requested ones; and its
  checkpoint is, for the operation checkpoint, the stored requested one with its revision set to that same
  number, and for every other operation the checkpoint of the observed revision.\<close>

theorem commit_appends_exactly:
  "case commit_locked n ctx req s of (r, t) \<Rightarrow>
     if bytes_at current_path t = bytes_at current_path s then True
     else \<exists>base m number. read_current s = Inr (req_observed req) \<and>
       snapshot_at n (Some (req_observed req)) True s = Inr base \<and>
       bytes_at current_path t = Some (digest_json m @ [newline]) \<and>
       complete_child (req_observed req) (digest_json m) t \<and>
       number = JInt (int_of (get ''revision'' (snap_manifest base)) + 1) \<and> get ''revision'' m = number \<and>
       list_all (appended req base m s t) STREAMS \<and>
       map_items ''supersedes_map'' m = map_items ''supersedes_map'' (snap_manifest base) @ req_supersedes req \<and>
       map_items ''refutations_map'' m = map_items ''refutations_map'' (snap_manifest base) @ refuted_entries req \<and>
       (case validate_attempt (req_attempt req) of Inl _ \<Rightarrow> False
        | Inr checked \<Rightarrow>
            if get ''operation'' checked = JStr ''checkpoint''
            then \<exists>c. c = update_obj (req_checkpoint_patch req) [(''revision'', number)] \<and>
              get ''checkpoint'' m = JStr (digest_json c) \<and>
              bytes_under ''checkpoints'' ''.json'' (digest_json c) t = Some (canonical_json c)
            else get ''checkpoint'' m = get ''checkpoint'' (snap_manifest base))"
proof (cases "commit_locked n ctx req s")
  case (Pair r t)
  show ?thesis
  proof (cases "bytes_at current_path t = bytes_at current_path s")
    case False
    from Pair False show ?thesis
      by (rule commit_appends) (use False Pair in \<open>auto simp: checkpoint_follows_def new_checkpoint_def\<close>)
  qed (simp add: Pair)
qed

end
