(* ===== verification/Gates.thy ===== *)
theory Gates
  imports Storage
begin

text \<open>
  The two locks around the store: the write lock of \<open>store_locks.py\<close> and the reader gate of
  \<open>reader_gate.py\<close>. Acquiring polls with a deadline; the answers of the operating system to the
  successive \<open>flock\<close> calls and the readings of the monotonic clock are parameters. The gate is a
  state machine of threads, each with the entry the module keeps for it and the lock its open
  descriptor holds; \<open>flock\<close> grants a shared lock unless another descriptor holds the exclusive one,
  and the exclusive one unless another descriptor holds any. Times are milliseconds.
\<close>

section \<open>Polling with a deadline\<close>

record polling =
  granted :: "nat \<Rightarrow> bool"
  clock :: "nat \<Rightarrow> int"

text \<open>\<open>poll e busy deadline k\<close>: the loop from its \<open>k\<close>-th turn; the result carries the number of
  refused calls. It may not end when the clock stands still.\<close>

partial_function (option) poll :: "polling \<Rightarrow> exn \<Rightarrow> int \<Rightarrow> nat \<Rightarrow> nat res option" where
  "poll e busy deadline k =
     (if granted e k then Some (Inr k)
      else if deadline \<le> clock e k then Some (Inl busy)
      else poll e busy deadline (Suc k))"

declare poll.simps [code]

definition WRITE_LOCK_DEADLINE :: int where
  "WRITE_LOCK_DEADLINE = 10000"

definition WRITE_LOCK_BACKOFF :: int where
  "WRITE_LOCK_BACKOFF = 50"

definition GATE_BACKOFF :: int where
  "GATE_BACKOFF = 10"

text \<open>\<open>time.sleep\<close> waits at least as long as it is asked to and the clock never goes back: what
  the loop needs of the platform.\<close>

definition waits :: "int \<Rightarrow> int \<Rightarrow> polling \<Rightarrow> bool" where
  "waits start backoff e \<longleftrightarrow> start \<le> clock e 0 \<and> (\<forall>k. clock e k + backoff \<le> clock e (Suc k))"

lemma clock_advances: "waits start backoff e \<Longrightarrow> start + int k * backoff \<le> clock e k"
proof (induction k)
  case (Suc k)
  then have "clock e k + backoff \<le> clock e (Suc k)" by (simp add: waits_def)
  with Suc show ?case by (simp add: algebra_simps)
qed (simp add: waits_def)

text \<open>The first turn at which the loop ends.\<close>

definition settles :: "polling \<Rightarrow> int \<Rightarrow> nat \<Rightarrow> bool" where
  "settles e deadline k \<longleftrightarrow> granted e k \<or> deadline \<le> clock e k"

lemma poll_from:
  assumes "k \<le> n" and "settles e deadline n" and "\<forall>j<n. \<not> settles e deadline j"
  shows "poll e busy deadline k = Some (if granted e n then Inr n else Inl busy)"
  using assms
proof (induction "n - k" arbitrary: k)
  case 0
  then show ?case by (subst poll.simps) (auto simp: settles_def)
next
  case (Suc d)
  then have "\<not> settles e deadline k" by simp
  moreover have "poll e busy deadline (Suc k) = Some (if granted e n then Inr n else Inl busy)"
    using Suc by simp
  ultimately show ?case by (subst poll.simps) (simp add: settles_def)
qed

lemma poll_ends:
  assumes "waits start backoff e" and "0 < backoff" and "deadline \<le> start + int n * backoff"
  shows "\<exists>k\<le>n. settles e deadline k \<and> (\<forall>j<k. \<not> settles e deadline j) \<and>
     poll e busy deadline 0 = Some (if granted e k then Inr k else Inl busy)"
proof -
  have "settles e deadline n" using clock_advances[OF assms(1), of n] assms(3) by (simp add: settles_def)
  then obtain k where k: "settles e deadline k" "\<forall>j<k. \<not> settles e deadline j" "k \<le> n"
    using exists_least_iff[of "settles e deadline"] by (metis linorder_not_less)
  then show ?thesis using poll_from[of 0 k e deadline busy] by blast
qed

section \<open>The write lock\<close>

datatype platform = Posix | Windows | Bare

definition lock_busy :: exn where
  "lock_busy = Exn LockBusyError ''write_lock_busy'' None"

record lock_calls =
  lock_opens :: bool
  lock_start :: int
  lock_polls :: polling
  directory_made :: bool
  released :: bool

text \<open>Without \<open>fcntl\<close> and \<open>msvcrt\<close> the lock is a directory, tried once.\<close>

definition acquire_lock :: "platform \<Rightarrow> lock_calls \<Rightarrow> unit res option" where
  "acquire_lock p c =
     (if p = Bare then Some (if directory_made c then Inr () else Inl lock_busy)
      else if \<not> lock_opens c then Some (Inl raw_os_error)
      else map_option (\<lambda>r. andthen r (\<lambda>_. Inr ()))
             (poll (lock_polls c) lock_busy (lock_start c + WRITE_LOCK_DEADLINE) 0))"

text \<open>The result is the value of the body and the \<open>release_error\<close> of the \<open>LockResult\<close> after the
  \<open>with\<close> block: the body runs before the release, so it cannot see it.\<close>

definition with_write_lock :: "platform \<Rightarrow> lock_calls \<Rightarrow> 'a io \<Rightarrow> os \<Rightarrow> (('a \<times> string option) res \<times> os) option" where
  "with_write_lock p c body s =
     map_option (\<lambda>lock. case lock of
         Inl e \<Rightarrow> (Inl e, s)
       | Inr _ \<Rightarrow> (case body s of (r, t) \<Rightarrow>
           (andthen r (\<lambda>a. Inr (a, if released c then None else Some ''lock_release_incomplete'')), t)))
       (acquire_lock p c)"

text \<open>C39: Acquiring the write lock never hangs and never gives up early, where the lock is one of the file
  (\<open>fcntl\<close> or \<open>msvcrt\<close>, not the fallback to \<open>mkdir\<close>), the lock file opens, and the clock advances by
  the back-off of every wait: the \<open>with\<close> block runs its body or raises \<open>LockBusyError\<close> after at most
  201 calls for the lock; the body runs exactly when a call was granted before the deadline of ten
  seconds was seen to have passed, and a lock that is granted at some call before that runs it.\<close>

theorem write_lock_live:
  assumes "p \<noteq> Bare" and "lock_opens c" and "waits (lock_start c) WRITE_LOCK_BACKOFF (lock_polls c)"
  shows "\<exists>k\<le>200.
     with_write_lock p c body s = Some
       (if granted (lock_polls c) k
        then case body s of (r, t) \<Rightarrow>
          (andthen r (\<lambda>a. Inr (a, if released c then None else Some ''lock_release_incomplete'')), t)
        else (Inl lock_busy, s)) \<and>
     (\<forall>j<k. \<not> granted (lock_polls c) j \<and> clock (lock_polls c) j < lock_start c + WRITE_LOCK_DEADLINE) \<and>
     (granted (lock_polls c) k \<or> lock_start c + WRITE_LOCK_DEADLINE \<le> clock (lock_polls c) k)"
proof -
  obtain k where k: "k \<le> 200" "settles (lock_polls c) (lock_start c + WRITE_LOCK_DEADLINE) k"
    "\<forall>j<k. \<not> settles (lock_polls c) (lock_start c + WRITE_LOCK_DEADLINE) j"
    "poll (lock_polls c) lock_busy (lock_start c + WRITE_LOCK_DEADLINE) 0 =
       Some (if granted (lock_polls c) k then Inr k else Inl lock_busy)"
    using poll_ends[OF assms(3), of "lock_start c + WRITE_LOCK_DEADLINE" 200 lock_busy]
    by (auto simp: WRITE_LOCK_DEADLINE_def WRITE_LOCK_BACKOFF_def)
  have "acquire_lock p c = Some (if granted (lock_polls c) k then Inr () else Inl lock_busy)"
    using k(4) assms(1,2) by (simp add: acquire_lock_def)
  then show ?thesis using k(1-3)
    by (intro exI[of _ k]) (auto simp: with_write_lock_def settles_def not_le split: prod.splits)
qed

text \<open>A lock held by another writer during the first three calls.\<close>

definition contended :: lock_calls where
  "contended = \<lparr>lock_opens = True, lock_start = 0,
     lock_polls = \<lparr>granted = (\<lambda>k. 3 \<le> k), clock = (\<lambda>k. 60 * int k)\<rparr>, directory_made = False, released = True\<rparr>"

lemma write_lock_live_witness:
  "with_write_lock Posix contended (ret (1::nat)) = (\<lambda>s. Some (Inr (1, None), s))"
proof (rule ext)
  fix s
  have w: "waits (lock_start contended) WRITE_LOCK_BACKOFF (lock_polls contended)" and o: "lock_opens contended"
    by (simp_all add: waits_def contended_def WRITE_LOCK_BACKOFF_def)
  have "Posix \<noteq> Bare" by simp
  from write_lock_live[OF this o w, of "ret (1::nat)" s] obtain k where
    k: "with_write_lock Posix contended (ret (1::nat)) s = Some
       (if granted (lock_polls contended) k
        then case ret (1::nat) s of (r, t) \<Rightarrow>
          (andthen r (\<lambda>a. Inr (a, if released contended then None else Some ''lock_release_incomplete'')), t)
        else (Inl lock_busy, s))"
     "granted (lock_polls contended) k \<or>
        lock_start contended + WRITE_LOCK_DEADLINE \<le> clock (lock_polls contended) k"
    by blast
  from k(2) have "granted (lock_polls contended) k" by (auto simp: contended_def WRITE_LOCK_DEADLINE_def)
  with k(1) show "with_write_lock Posix contended (ret (1::nat)) s = Some (Inr (1, None), s)"
    by (simp add: ret_def contended_def)
qed

section \<open>The reader gate\<close>

datatype mode = Shared | Exclusive

text \<open>\<open>entries\<close> is \<open>_LOCAL.states\<close> of every thread for this store, \<open>flocks\<close> the lock each thread's
  descriptor on \<open>.reader-gate\<close> holds, \<open>frames\<close> the \<open>with\<close> blocks a thread is inside of, innermost
  first: what the block does when it is left.\<close>

datatype frame = Decrement | Close

record 'k gate =
  entries :: "'k \<Rightarrow> (mode \<times> nat) option"
  flocks :: "'k \<Rightarrow> mode option"
  frames :: "'k \<Rightarrow> frame list"

definition open_gate :: "'k gate" where
  "open_gate = \<lparr>entries = (\<lambda>_. None), flocks = (\<lambda>_. None), frames = (\<lambda>_. [])\<rparr>"

definition gate_error :: "string \<Rightarrow> exn" where
  "gate_error code = Exn ReaderGateError code None"

definition gate_mode :: "'k \<Rightarrow> 'k gate \<Rightarrow> mode option" where
  "gate_mode k g = map_option fst (entries g k)"

text \<open>What \<open>flock\<close> answers: whether the lock can be granted now.\<close>

definition grantable :: "mode \<Rightarrow> 'k \<Rightarrow> 'k gate \<Rightarrow> bool" where
  "grantable m k g \<longleftrightarrow>
     (case m of Shared \<Rightarrow> \<forall>j. j \<noteq> k \<longrightarrow> flocks g j \<noteq> Some Exclusive
              | Exclusive \<Rightarrow> \<forall>j. j \<noteq> k \<longrightarrow> flocks g j = None)"

definition take_gate :: "mode \<Rightarrow> 'k \<Rightarrow> 'k gate \<Rightarrow> 'k gate" where
  "take_gate m k g =
     g\<lparr>entries := (entries g)(k := Some (m, 1)), flocks := (flocks g)(k := Some m),
       frames := (frames g)(k := Close # frames g k)\<rparr>"

text \<open>Entering the shared gate: a thread that is inside counts up; it may not be inside the exclusive
  gate. \<open>None\<close> is a call that has to wait.\<close>

definition enter_shared :: "'k \<Rightarrow> 'k gate \<Rightarrow> ('k gate) res option" where
  "enter_shared k g =
     (case entries g k of
        Some (m, depth) \<Rightarrow>
          Some (if m \<noteq> Shared then Inl (gate_error ''reader_gate_mode_reentry'')
                else Inr (g\<lparr>entries := (entries g)(k := Some (m, depth + 1)),
                            frames := (frames g)(k := Decrement # frames g k)\<rparr>))
      | None \<Rightarrow> if grantable Shared k g then Some (Inr (take_gate Shared k g)) else None)"

definition enter_exclusive :: "'k \<Rightarrow> 'k gate \<Rightarrow> ('k gate) res option" where
  "enter_exclusive k g =
     (if entries g k \<noteq> None then Some (Inl (gate_error ''reader_gate_mode_reentry''))
      else if grantable Exclusive k g then Some (Inr (take_gate Exclusive k g)) else None)"

text \<open>Leaving the innermost block: the count goes down, or the entry is removed and the descriptor is
  closed, which releases its lock.\<close>

definition leave_gate :: "'k \<Rightarrow> 'k gate \<Rightarrow> 'k gate" where
  "leave_gate k g =
     (case frames g k of
        [] \<Rightarrow> g
      | Decrement # rest \<Rightarrow>
          g\<lparr>entries := (entries g)(k := map_option (\<lambda>(m, depth). (m, depth - 1)) (entries g k)),
            frames := (frames g)(k := rest)\<rparr>
      | Close # rest \<Rightarrow>
          g\<lparr>entries := (entries g)(k := None), flocks := (flocks g)(k := None),
            frames := (frames g)(k := rest)\<rparr>)"

inductive gate_step :: "'k gate \<Rightarrow> 'k gate \<Rightarrow> bool" where
  shared: "enter_shared k g = Some (Inr h) \<Longrightarrow> gate_step g h"
| exclusive: "enter_exclusive k g = Some (Inr h) \<Longrightarrow> gate_step g h"
| leaves: "frames g k \<noteq> [] \<Longrightarrow> gate_step g (leave_gate k g)"

inductive gate_reachable :: "'k gate \<Rightarrow> bool" where
  start: "gate_reachable open_gate"
| later: "gate_reachable g \<Longrightarrow> gate_step g h \<Longrightarrow> gate_reachable h"

text \<open>What a thread's entry, lock and blocks say of each other.\<close>

definition thread_ok :: "'k gate \<Rightarrow> 'k \<Rightarrow> bool" where
  "thread_ok g k \<longleftrightarrow>
     (case entries g k of
        None \<Rightarrow> flocks g k = None \<and> frames g k = []
      | Some (m, depth) \<Rightarrow> flocks g k = Some m \<and>
          (\<exists>n. frames g k = replicate n Decrement @ [Close] \<and> depth = Suc n \<and> (m = Exclusive \<longrightarrow> n = 0)))"

definition excludes :: "'k gate \<Rightarrow> bool" where
  "excludes g \<longleftrightarrow> (\<forall>k j. flocks g k = Some Exclusive \<longrightarrow> j \<noteq> k \<longrightarrow> flocks g j = None)"

lemma thread_ok_same:
  "entries h j = entries g j \<Longrightarrow> flocks h j = flocks g j \<Longrightarrow> frames h j = frames g j \<Longrightarrow>
   thread_ok g j \<Longrightarrow> thread_ok h j"
  by (simp only: thread_ok_def)

lemma take_gate_ok:
  assumes "entries g k = None" and "grantable m k g" and "\<forall>j. thread_ok g j" and "excludes g"
  shows "(\<forall>j. thread_ok (take_gate m k g) j) \<and> excludes (take_gate m k g)"
proof -
  have "frames g k = []" using assms(1,3) by (auto simp: thread_ok_def dest: spec[of _ k])
  then have own: "thread_ok (take_gate m k g) k" by (simp add: thread_ok_def take_gate_def)
  have "thread_ok (take_gate m k g) j" for j
  proof (cases "j = k")
    case False
    then show ?thesis by (intro thread_ok_same[OF _ _ _ assms(3)[rule_format, of j]]) (simp_all add: take_gate_def)
  qed (simp add: own)
  moreover have "excludes (take_gate m k g)"
    using assms(2,4) by (cases m) (auto simp: excludes_def take_gate_def grantable_def)
  ultimately show ?thesis by blast
qed

lemma leave_gate_ok:
  assumes "\<forall>j. thread_ok g j" and "excludes g"
  shows "(\<forall>j. thread_ok (leave_gate k g) j) \<and> excludes (leave_gate k g)"
proof (cases "entries g k")
  case None
  then have "leave_gate k g = g" using assms(1)[rule_format, of k] by (simp add: thread_ok_def leave_gate_def)
  then show ?thesis using assms by simp
next
  case (Some e)
  obtain m depth n where e: "e = (m, depth)" "flocks g k = Some m" "depth = Suc n"
    "frames g k = replicate n Decrement @ [Close]" "m = Exclusive \<longrightarrow> n = 0"
    using Some assms(1)[rule_format, of k] by (cases e) (auto simp: thread_ok_def)
  have "thread_ok (leave_gate k g) j" for j
  proof (cases "j = k")
    case True
    then show ?thesis using Some e by (cases n) (auto simp: thread_ok_def leave_gate_def)
  next
    case False
    then show ?thesis using e
      by (intro thread_ok_same[OF _ _ _ assms(1)[rule_format, of j]]) (cases n; simp add: leave_gate_def)+
  qed
  moreover have "excludes (leave_gate k g)"
    using assms(2) e by (cases n) (auto simp: excludes_def leave_gate_def)
  ultimately show ?thesis by blast
qed

lemma enter_shared_ok:
  assumes "enter_shared k g = Some (Inr h)" and "\<forall>j. thread_ok g j" and "excludes g"
  shows "(\<forall>j. thread_ok h j) \<and> excludes h"
proof (cases "entries g k")
  case None
  then have g: "grantable Shared k g" "h = take_gate Shared k g"
    using assms(1) by (auto simp: enter_shared_def split: if_splits)
  from take_gate_ok[OF None g(1) assms(2,3)] show ?thesis unfolding g(2) .
next
  case (Some e)
  then obtain depth where e: "e = (Shared, depth)" and h: "h = g\<lparr>entries := (entries g)(k := Some (Shared, depth + 1)),
      frames := (frames g)(k := Decrement # frames g k)\<rparr>"
    using assms(1) by (cases e) (auto simp: enter_shared_def split: if_splits)
  obtain n where n: "frames g k = replicate n Decrement @ [Close]" "depth = Suc n" "flocks g k = Some Shared"
    using assms(2)[rule_format, of k] Some e by (auto simp: thread_ok_def)
  have "thread_ok h j" for j
  proof (cases "j = k")
    case True
    then show ?thesis using n h by (auto simp: thread_ok_def intro!: exI[of _ "Suc n"])
  next
    case False
    then show ?thesis using h by (intro thread_ok_same[OF _ _ _ assms(2)[rule_format, of j]]) simp_all
  qed
  moreover have "excludes h" using assms(3) h by (simp add: excludes_def)
  ultimately show ?thesis by blast
qed

lemma gate_step_ok:
  assumes "gate_step g h" and "\<forall>j. thread_ok g j" and "excludes g"
  shows "(\<forall>j. thread_ok h j) \<and> excludes h"
  using assms(1)
proof (cases rule: gate_step.cases)
  case (shared k)
  show ?thesis by (rule enter_shared_ok[OF shared assms(2,3)])
next
  case (exclusive k)
  then have g: "entries g k = None" "grantable Exclusive k g" "h = take_gate Exclusive k g"
    by (cases "entries g k"; auto simp: enter_exclusive_def split: if_splits)+
  from take_gate_ok[OF g(1,2) assms(2,3)] show ?thesis unfolding g(3) .
next
  case (leaves k)
  show ?thesis unfolding leaves(1) by (rule leave_gate_ok[OF assms(2,3)])
qed

lemma gate_reachable_ok: "gate_reachable g \<Longrightarrow> (\<forall>j. thread_ok g j) \<and> excludes g"
proof (induction rule: gate_reachable.induct)
  case start
  show ?case by (simp add: thread_ok_def excludes_def open_gate_def)
next
  case (later g h)
  then show ?case using gate_step_ok by blast
qed



end
