(* ===== verification/Identity.thy ===== *)
theory Identity
  imports Receipts
begin

text \<open>
  The identity of a project and of its store: reading and validating the two identity files, the
  intent, the durability receipts of \<open>identity_evidence.py\<close>, the state \<open>identity_status\<close> reports, and
  the checks before and under the write lock (\<open>identity.py\<close>). Paths are relative to the root of the
  store; the custody root above it, \<open>.an-kla\<close>, is reached by \<open>../\<close>. Files are regular files, so the
  checks for symbolic links never fire. A member that must be an object and is not raises
  \<open>TypeError\<close>, the class of the built-in error.
\<close>

section \<open>Files\<close>

definition project_path :: string where "project_path = ''../project-identity.json''"
definition identity_path :: string where "identity_path = ''identity.json''"
definition intent_path :: string where "intent_path = ''../identity-intent.json''"
definition identity_receipts :: string where "identity_receipts = ''../identity-receipts/sha256''"

definition is_json_error :: "exn \<Rightarrow> bool" where
  "is_json_error e \<longleftrightarrow> exn_class e \<in> {JSONDecodeError, UnicodeDecodeError}"

text \<open>\<open>_read_canonical\<close>: the object and the bytes of a file in canonical form.\<close>

definition read_canonical :: "string \<Rightarrow> exn \<Rightarrow> exn \<Rightarrow> os \<Rightarrow> (json \<times> string) res" where
  "read_canonical path missing invalid s =
     (case bytes_at path s of
        None \<Rightarrow> Inl missing
      | Some payload \<Rightarrow>
          andthen (except_as is_json_error invalid (json_loads payload)) (\<lambda>value.
            if \<not> is_obj value then Inl invalid
            else andthen (dump value) (\<lambda>text.
              if text \<noteq> payload then Inl invalid else Inr (value, payload))))"

section \<open>Identity objects\<close>

definition validate_project_identity :: "json \<Rightarrow> unit res" where
  "validate_project_identity value =
     checks
       [ensure (is_obj value) (Exn TypeError ''set'' None),
        ensure (same_keys value [''schema'', ''project_uuid'', ''created_by_version''])
          (identity_error ''project_identity_invalid''),
        ensure (get ''schema'' value = JStr ''an-kla/project-identity-v1'' \<and>
                is_str (get ''created_by_version'' value)) (identity_error ''project_identity_invalid''),
        identity_uuid (get ''project_uuid'' value)]"

definition validate_pair :: "json \<Rightarrow> json \<Rightarrow> unit res" where
  "validate_pair project identity =
     checks
       [validate_project_identity project, validate_store_identity identity,
        ensure (get ''project_uuid'' identity = get ''project_uuid'' project \<and>
                get ''project_identity'' identity = JStr (digest_json project))
          (identity_error ''project_identity_mismatch'')]"

record identity_binding =
  bound_project :: json
  bound_store :: json
  project_bytes :: string
  store_bytes :: string
  bound_identity :: string
  root_relocated :: bool

text \<open>\<open>root\<close> is \<open>str(store.project_root)\<close>.\<close>

definition read_binding :: "string \<Rightarrow> os \<Rightarrow> identity_binding res" where
  "read_binding root s =
     andthen (read_canonical project_path (identity_error ''project_identity_missing'')
                (identity_error ''project_identity_invalid'') s) (\<lambda>(project, project_payload).
     andthen (read_canonical identity_path (identity_error ''store_identity_missing'')
                (identity_error ''store_identity_invalid'') s) (\<lambda>(identity, store_payload).
     andthen (validate_pair project identity) (\<lambda>_.
     andthen (ensure (get ''project_uuid'' identity = get ''project_uuid'' project \<and>
                      get ''project_identity'' identity = JStr (digest_bytes project_payload))
                (identity_error ''project_identity_mismatch'')) (\<lambda>_.
     let identifier = digest_bytes store_payload in
     andthen (read_json_object ''identities'' identifier s) (\<lambda>immutable.
     andthen (ensure (immutable = identity) (identity_error ''store_identity_invalid'')) (\<lambda>_.
       Inr \<lparr>bound_project = project, bound_store = identity, project_bytes = project_payload,
            store_bytes = store_payload, bound_identity = identifier,
            root_relocated = (JStr root \<noteq> get ''canonical_project_root_at_init'' identity)\<rparr>))))))"

section \<open>The intent\<close>

definition intent_keys :: "string list" where
  "intent_keys = [''schema'', ''operation'', ''project_identity'', ''store_identity'', ''current_observed'',
     ''transaction_id'', ''intent_sha256'', ''stage'']"

text \<open>The entries without the digest and the stage.\<close>

fun intent_core_of :: "json \<Rightarrow> json" where
  "intent_core_of (JObj m) = JObj (filter (\<lambda>(k, _). k \<noteq> ''intent_sha256'' \<and> k \<noteq> ''stage'') m)"
| "intent_core_of v = v"

definition bootstrap_conflict :: exn where
  "bootstrap_conflict = identity_error ''identity_bootstrap_conflict''"

definition check_intent_operation :: "json \<Rightarrow> unit res" where
  "check_intent_operation value =
     (let current = get ''current_observed'' value; txid = get ''transaction_id'' value in
      if get ''operation'' value = JStr ''initialize'' then
        checks [ensure (current = JNull \<and> is_str txid) bootstrap_conflict,
                ensure (is_canonical_uuid txid) (identity_error ''invalid_transaction_id'')]
      else if get ''operation'' value = JStr ''adopt'' then
        checks [ensure (txid = JNull \<and> is_str current) bootstrap_conflict,
                except_as is_value_error bootstrap_conflict (bare_digest_value current)]
      else Inl bootstrap_conflict)"

definition read_intent :: "os \<Rightarrow> json option res" where
  "read_intent s =
     (if bytes_at intent_path s = None then Inr None
      else andthen (read_canonical intent_path (identity_error ''identity_intent_missing'') bootstrap_conflict s)
        (\<lambda>(value, _).
         andthen (ensure (same_keys value intent_keys) bootstrap_conflict) (\<lambda>_.
         andthen (ensure (get ''schema'' value = JStr ''an-kla/identity-intent-v1'' \<and>
                          JStr (digest_json (intent_core_of value)) = get ''intent_sha256'' value)
                    bootstrap_conflict) (\<lambda>_.
         andthen (validate_pair (get ''project_identity'' value) (get ''store_identity'' value)) (\<lambda>_.
         andthen (check_intent_operation value) (\<lambda>_. Inr (Some value)))))))"

section \<open>Durability receipts of the identity\<close>

definition evidence_error :: "string \<Rightarrow> exn" where
  "evidence_error code = Exn ValueError code None"

text \<open>Relative, without backslashes and with plain components.\<close>

definition plain_path :: "json \<Rightarrow> bool" where
  "plain_path value \<longleftrightarrow>
     (case value of
        JStr p \<Rightarrow> CHR 0x5C \<notin> set p \<and>
          list_all (\<lambda>part. part \<noteq> [] \<and> part \<noteq> ''.'' \<and> part \<noteq> ''..'') (split_on (CHR ''/'') p)
      | _ \<Rightarrow> False)"

text \<open>\<open>_custody_target\<close>: \<open>.an-kla\<close> denotes the custody root, whose \<open>memory\<close> is the root of the store.
  The two directories themselves are the empty path here.\<close>

definition custody_target :: "string \<Rightarrow> string res" where
  "custody_target relative =
     (if relative \<in> {''.an-kla'', ''.an-kla/memory''} then Inr []
      else if prefix ''.an-kla/memory/'' relative then Inr (drop 15 relative)
      else if prefix ''.an-kla/'' relative then Inr (''../'' @ drop 8 relative)
      else Inl (evidence_error ''identity_receipt_invalid''))"

definition check_identity_item :: "string \<Rightarrow> os \<Rightarrow> json \<Rightarrow> unit res" where
  "check_identity_item captured s item =
     (let bad = evidence_error ''identity_receipt_invalid''; relative = get ''path'' item;
          operation = get ''operation'' item; content = get ''content_sha256'' item in
      checks
       [ensure (is_obj item \<and> same_keys item [''path'', ''operation'', ''content_sha256'']) bad,
        ensure (plain_path relative) bad,
        andthen (custody_target (str_of relative)) (\<lambda>target.
          if operation = JStr ''file_fsync'' then
            if relative = JStr ''.an-kla/memory/refs/CURRENT'' then
              ensure (content = JStr (digest_bytes (captured @ [newline]))) bad
            else (case bytes_at target s of
                None \<Rightarrow> Inl raw_os_error
              | Some payload \<Rightarrow> ensure (JStr (digest_bytes payload) = content) bad)
          else ensure (operation = JStr ''directory_fsync'' \<and> content = JNull \<and>
                       (target = [] \<or> is_dir target s)) bad)])"

definition identity_requirements :: "json \<Rightarrow> string list" where
  "identity_requirements intent =
     [''.an-kla/identity-intents/sha256/'' @ bare_text (str_of (get ''intent_sha256'' intent)) @ ''.json'',
      ''.an-kla/project-identity.json'', ''.an-kla/memory/identity.json'',
      ''.an-kla/memory/identities/sha256/'' @ bare_text (digest_json (get ''store_identity'' intent)) @ ''.json'',
      ''.an-kla/memory/refs/CURRENT'']"

text \<open>One receipt file: its identifier and the revision it captured; any exception skips it.\<close>

definition identity_receipt :: "json \<Rightarrow> os \<Rightarrow> string \<Rightarrow> (string \<times> string) res" where
  "identity_receipt intent s stem =
     (let skip = evidence_error ''identity_receipt_skipped''; identifier = ''sha256:'' @ stem in
      andthen (read_canonical (identity_receipts @ ''/'' @ stem @ ''.json'') skip
                 (evidence_error ''identity_receipt_invalid'') s) (\<lambda>(value, payload).
      let captured = get ''current_observed'' value; items = list_items (get ''protected'' value);
          files = paths_of ''file_fsync'' items
      in andthen (checks
           [ensure (digest_bytes payload = identifier \<and>
                    same_keys value [''schema'', ''operation'', ''intent_sha256'', ''current_observed'',
                      ''predecessor_receipt'', ''protected'']) skip,
            ensure (get ''schema'' value = JStr ''an-kla/identity-durability-receipt-v1'' \<and>
                    str_in (get ''operation'' value) [''initialize'', ''adopt'', ''repair''] \<and>
                    get ''intent_sha256'' value = get ''intent_sha256'' intent \<and>
                    is_arr (get ''protected'' value)) skip,
            ensure (is_str captured) skip, bare_digest_value captured,
            each (check_identity_item (str_of captured) s) items,
            ensure (sorted (map protected_key items) \<and> list_all (\<lambda>f. f \<in> set files) (identity_requirements intent)) skip,
            ensure (list_all (\<lambda>f. folder f \<in> set (paths_of ''directory_fsync'' items)) files) skip])
        (\<lambda>_. Inr (identifier, str_of captured))))"

definition prepared_receipts :: "json \<Rightarrow> os \<Rightarrow> (string \<times> string) list" where
  "prepared_receipts intent s =
     List.map_filter (\<lambda>stem. case identity_receipt intent s stem of Inl _ \<Rightarrow> None | Inr found \<Rightarrow> Some found)
       (json_stems identity_receipts s)"

definition is_ancestor :: "string \<Rightarrow> string \<Rightarrow> os \<Rightarrow> bool" where
  "is_ancestor candidate current s =
     (visit (\<lambda>identifier _. if identifier = candidate then Some () else None) s [] None current = Inr (Some ()))"

text \<open>A captured revision counts when every revision from the current one down to it is linked to the
  identity, and it is still below \<open>CURRENT\<close>, read again.\<close>

definition receipt_counts :: "json \<Rightarrow> string \<Rightarrow> lineage \<Rightarrow> os \<Rightarrow> string \<Rightarrow> bool" where
  "receipt_counts intent current l s captured \<longleftrightarrow>
     lineage_bound l (get ''operation'' intent = JStr ''adopt'' \<and> JStr captured = get ''current_observed'' intent) captured \<and>
     (case read_current s of
        Inl _ \<Rightarrow> False
      | Inr latest \<Rightarrow>
          if latest = current then lineage_contains l captured else is_ancestor captured latest s)"

definition valid_identity_receipt :: "json \<Rightarrow> string \<Rightarrow> os \<Rightarrow> string option" where
  "valid_identity_receipt intent current s =
     (case lineage_summary s current (digest_json (get ''store_identity'' intent)) of
        Inl _ \<Rightarrow> None
      | Inr l \<Rightarrow>
          (case filter (\<lambda>(_, captured). receipt_counts intent current l s captured) (prepared_receipts intent s) of
             [] \<Rightarrow> None | matches \<Rightarrow> Some (fst (last matches))))"

section \<open>The identity under the lock\<close>

definition completed_adoption :: "string \<Rightarrow> os \<Rightarrow> bool res" where
  "completed_adoption parent s =
     (case read_intent s of
        Inl e \<Rightarrow> if exn_class e = IdentityError then Inr False else Inl e
      | Inr None \<Rightarrow> Inr False
      | Inr (Some intent) \<Rightarrow>
          Inr (get ''operation'' intent = JStr ''adopt'' \<and> get ''stage'' intent = JStr ''complete'' \<and>
               get ''current_observed'' intent = JStr parent \<and> valid_identity_receipt intent parent s \<noteq> None))"

definition assert_unchanged :: "string \<Rightarrow> identity_binding \<Rightarrow> string \<Rightarrow> os \<Rightarrow> string res" where
  "assert_unchanged root before parent s =
     (let changed = identity_error ''store_identity_changed'' in
      andthen (ensure (bytes_at project_path s = Some (project_bytes before) \<and>
                       bytes_at identity_path s = Some (store_bytes before)) changed) (\<lambda>_.
      andthen (read_binding root s) (\<lambda>after.
      andthen (read_json_object ''revisions'' parent s) (\<lambda>m.
      andthen (get_of ''store_identity'' m) (\<lambda>linked.
        if linked \<noteq> JNull then
          andthen (ensure (linked = JStr (bound_identity after)) (identity_error ''store_identity_lineage_mismatch''))
            (\<lambda>_. Inr (bound_identity after))
        else
          andthen (completed_adoption parent s) (\<lambda>adopted.
          andthen (ensure adopted (identity_error ''legacy_store_identity_adoption_required''))
            (\<lambda>_. Inr (bound_identity after))))))))"

definition verify_current_binding :: "string \<Rightarrow> json \<Rightarrow> string \<Rightarrow> os \<Rightarrow> identity_binding res" where
  "verify_current_binding root m current s =
     andthen (read_binding root s) (\<lambda>b.
       let linked = get ''store_identity'' m; mismatch = identity_error ''store_identity_lineage_mismatch'' in
       if linked = JStr (bound_identity b) then Inr b
       else if linked \<noteq> JNull then Inl mismatch
       else andthen (completed_adoption current s) (\<lambda>adopted. if adopted then Inr b else Inl mismatch))"

section \<open>Custody\<close>

text \<open>What \<open>custody.py\<close> sees of the place the store was opened at: whether it is outside the project,
  the bytes of the pointer in the project, if any, whether the project holds a vault of its own, and
  for the path in the pointer what it resolves to and whether a vault is there.\<close>

record site =
  project_root :: string
  external :: bool
  store_root :: string
  pointer_bytes :: "string option"
  local_vault :: bool
  resolved :: "string \<Rightarrow> string"
  vault_at :: "string \<Rightarrow> bool"

definition custody_error :: "string \<Rightarrow> exn" where
  "custody_error code = Exn CustodyError code None"

definition custody_fingerprint :: "identity_binding \<Rightarrow> string" where
  "custody_fingerprint b = digest_json (mk_obj
     [(''schema'', JStr ''an-kla/custody-binding-v1''), (''project_uuid'', get ''project_uuid'' (bound_store b)),
      (''store_identity'', JStr (bound_identity b))])"

definition read_pointer :: "site \<Rightarrow> json option res" where
  "read_pointer here =
     (let invalid = custody_error ''store_root_pointer_invalid'' in
      case pointer_bytes here of
        None \<Rightarrow> Inr None
      | Some payload \<Rightarrow>
          andthen (except_as is_json_error invalid (json_loads payload)) (\<lambda>value.
            if \<not> is_obj value then Inl invalid
            else andthen (dump value) (\<lambda>text.
              andthen (ensure (text = payload \<and>
                  same_keys value [''schema'', ''store_root'', ''custody_fingerprint''] \<and>
                  get ''schema'' value = JStr ''an-kla/store-root-pointer-v1'' \<and>
                  is_str (get ''store_root'' value) \<and> prefix ''/'' (str_of (get ''store_root'' value)) \<and>
                  is_str (get ''custody_fingerprint'' value) \<and>
                  prefix ''sha256:'' (str_of (get ''custody_fingerprint'' value))) invalid)
                (\<lambda>_. Inr (Some value)))))"

definition check_custody :: "site \<Rightarrow> identity_binding option \<Rightarrow> unit res" where
  "check_custody here b =
     (let divergence = custody_error ''store_root_divergence'' in
      andthen (read_pointer here) (\<lambda>pointer.
        case (pointer, b) of
          (None, _) \<Rightarrow> ensure (\<not> (external here \<and> local_vault here)) divergence
        | (Some _, None) \<Rightarrow> Inl divergence
        | (Some p, Some b) \<Rightarrow>
            let located = resolved here (str_of (get ''store_root'' p)) in
            checks
              [ensure (external here) divergence,
               ensure (JStr (custody_fingerprint b) = get ''custody_fingerprint'' p) divergence,
               ensure (located = store_root here \<or> \<not> vault_at here located) divergence]))"

text \<open>\<open>resolve_store_root\<close>: flag before environment before pointer before the project's own root.\<close>

datatype source = Flag | Env | Pointer | ProjectLocal

definition resolve_store_root ::
    "site \<Rightarrow> string option \<Rightarrow> string option \<Rightarrow> (string \<times> source \<times> string list) res" where
  "resolve_store_root here chosen env =
     (let env_value = (case env of Some e \<Rightarrow> if e = [] then None else Some e | None \<Rightarrow> None) in
      case (chosen, env_value) of
        (Some f, e) \<Rightarrow> Inr (resolved here f, Flag,
          if e \<noteq> None \<and> resolved here (the e) \<noteq> resolved here f then [''store_root_flag_env_divergence''] else [])
      | (None, Some e) \<Rightarrow> Inr (resolved here e, Env, [])
      | (None, None) \<Rightarrow> andthen (read_pointer here) (\<lambda>pointer. case pointer of
            Some p \<Rightarrow> Inr (str_of (get ''store_root'' p), Pointer, [])
          | None \<Rightarrow> Inr (resolved here (project_root here) @ ''/.an-kla'', ProjectLocal, [])))"

section \<open>The state of the identity\<close>

definition lineage_mismatch :: exn where
  "lineage_mismatch = identity_error ''store_identity_lineage_mismatch''"

text \<open>The part of \<open>_identity_status\<close> that looks at \<open>CURRENT\<close>: whether the identity is that of the
  current revision, with a receipt for a completed intent or the full audit of a compacted chain.\<close>

definition current_identity :: "identity_binding \<Rightarrow> json option \<Rightarrow> string \<Rightarrow> os \<Rightarrow> bool res" where
  "current_identity b intent current s =
     (let identifier = (case intent of Some i \<Rightarrow> digest_json (get ''store_identity'' i) | None \<Rightarrow> bound_identity b) in
      andthen (except_as (\<lambda>_. True) lineage_mismatch (lineage_summary s current identifier)) (\<lambda>l.
      let receipt = (case intent of Some i \<Rightarrow> valid_identity_receipt i current s | None \<Rightarrow> None) in
      andthen (read_json_object ''revisions'' current s) (\<lambda>m.
      andthen (get_of ''store_identity'' m) (\<lambda>linked.
      let adopted = (case intent of None \<Rightarrow> False | Some i \<Rightarrow>
            linked = JNull \<and> get ''operation'' i = JStr ''adopt'' \<and>
            get ''current_observed'' i = JStr current \<and> receipt \<noteq> None);
          bound = (linked = JStr (bound_identity b));
          compacted = (bound \<and> (get ''schema'' m = rev3 \<or> root_schema l = rev3))
      in andthen (ensure (bound \<or> adopted) lineage_mismatch) (\<lambda>_.
         andthen (except_as (\<lambda>_. True) lineage_mismatch
             (when_ok compacted
               (checks [validate_manifest IdentityError m,
                        validate_revision_chain IdentityError None current m s]))) (\<lambda>_.
           Inr ((case intent of Some i \<Rightarrow> get ''stage'' i = JStr ''complete'' \<and> receipt \<noteq> None | None \<Rightarrow> False)
                \<or> compacted)))))))"

definition ready_identity :: "string \<Rightarrow> os \<Rightarrow> (string \<times> identity_binding) res" where
  "ready_identity root s =
     andthen (read_binding root s) (\<lambda>b.
     andthen (read_intent s) (\<lambda>intent.
       if bytes_at current_path s = None then Inr (''identities_ready_root_pending'', b)
       else andthen (read_current s) (\<lambda>current.
            andthen (current_identity b intent current s) (\<lambda>complete.
              Inr (if complete then ''complete'' else ''partial_consistent'', b)))))"

text \<open>The state and the error code; an \<open>IdentityError\<close> is the state \<open>conflict\<close>.\<close>

definition identity_status :: "string \<Rightarrow> os \<Rightarrow> (string \<times> string option) res" where
  "identity_status root s =
     (let here = (\<lambda>p. bytes_at p s \<noteq> None);
          current = here current_path; project = here project_path; own = here identity_path;
          intent = here intent_path
      in if current \<and> \<not> project \<and> \<not> own \<and> \<not> intent then Inr (''legacy_unadopted'', None)
         else if intent \<and> \<not> project \<and> \<not> own then Inr (''intent_only'', None)
         else if own \<and> \<not> project then Inr (''store_only'', None)
         else if project \<and> \<not> own then Inr (''project_only'', None)
         else if project \<and> own then
           (case ready_identity root s of
              Inr (status, _) \<Rightarrow> Inr (status, None)
            | Inl e \<Rightarrow> if exn_class e = IdentityError then Inr (''conflict'', Some (exn_code e)) else Inl e)
         else Inr (''absent'', None))"

text \<open>\<open>_custody_guard\<close> turns the custody error into an identity error.\<close>

definition custody_guard :: "site \<Rightarrow> identity_binding option \<Rightarrow> unit res" where
  "custody_guard here b =
     (case check_custody here b of
        Inl e \<Rightarrow> if exn_class e = CustodyError then Inl (identity_error (exn_code e)) else Inl e
      | Inr u \<Rightarrow> Inr u)"

definition preflight_binding :: "site \<Rightarrow> os \<Rightarrow> identity_binding res" where
  "preflight_binding here s =
     andthen (identity_status (project_root here) s) (\<lambda>(status, _).
       if status = ''legacy_unadopted'' then Inl (identity_error ''legacy_store_identity_adoption_required'')
       else if status \<noteq> ''complete'' then Inl (identity_error ''store_identity_invalid'')
       else andthen (read_binding (project_root here) s) (\<lambda>b.
            andthen (custody_guard here (Some b)) (\<lambda>_. Inr b)))"

text \<open>The projections a preflight leaves for the commit: what the walk of \<open>_LineageSummary\<close> met.\<close>

definition preflight_context :: "os \<Rightarrow> context_map" where
  "preflight_context s =
     (case read_current s of Inl _ \<Rightarrow> [] | Inr current \<Rightarrow>
        (case walk_revisions s current of Inl _ \<Rightarrow> [] | Inr nodes \<Rightarrow> remember_all nodes []))"

section \<open>The identity that was captured is the identity under the lock\<close>

lemma read_canonical_payload:
  assumes "read_canonical path missing invalid s = Inr (v, payload)"
  shows "bytes_at path s = Some payload"
    and "bytes_at path t = Some payload \<Longrightarrow> read_canonical path missing invalid t = Inr (v, payload)"
  using assms by (auto simp: read_canonical_def split: option.splits if_splits)

lemma read_bindingD:
  assumes "read_binding root s = Inr b"
  shows "read_canonical project_path (identity_error ''project_identity_missing'')
      (identity_error ''project_identity_invalid'') s = Inr (bound_project b, project_bytes b)"
    and "read_canonical identity_path (identity_error ''store_identity_missing'')
      (identity_error ''store_identity_invalid'') s = Inr (bound_store b, store_bytes b)"
    and "bound_identity b = digest_bytes (store_bytes b)"
    and "root_relocated b = (JStr root \<noteq> get ''canonical_project_root_at_init'' (bound_store b))"
    and "get ''project_identity'' (bound_store b) = JStr (digest_json (bound_project b))"
    and "get ''project_uuid'' (bound_store b) = get ''project_uuid'' (bound_project b)"
    and "read_json_object ''identities'' (bound_identity b) s = Inr (bound_store b)"
  using assms by (auto simp: read_binding_def Let_def validate_pair_def split: prod.splits)

lemma read_binding_bytes:
  assumes b: "read_binding root s = Inr b" and b': "read_binding root t = Inr b'"
    and same: "bytes_at project_path t = Some (project_bytes b)" "bytes_at identity_path t = Some (store_bytes b)"
  shows "b' = b"
proof -
  have "(bound_project b', project_bytes b') = (bound_project b, project_bytes b)"
    using read_canonical_payload(2)[OF read_bindingD(1)[OF b] same(1)] read_bindingD(1)[OF b'] by simp
  moreover have "(bound_store b', store_bytes b') = (bound_store b, store_bytes b)"
    using read_canonical_payload(2)[OF read_bindingD(2)[OF b] same(2)] read_bindingD(2)[OF b'] by simp
  ultimately show ?thesis using read_bindingD(3,4)[OF b] read_bindingD(3,4)[OF b'] by simp
qed

text \<open>A mutation commits under the identity it captured before it took the lock: whatever happened
  to the store in between, when the check under the lock succeeds the live identity files bind
  exactly as before, the identifier it returns is the captured one, and the revision the candidate
  will have as its parent is linked to that identity, or is the revision of a completed adoption.\<close>

theorem identity_pinned:
  "case read_binding root s of Inl _ \<Rightarrow> True
   | Inr b \<Rightarrow> (case assert_unchanged root b parent t of Inl _ \<Rightarrow> True
      | Inr identifier \<Rightarrow>
          read_binding root t = Inr b \<and> identifier = bound_identity b \<and>
          (case read_json_object ''revisions'' parent t of Inl _ \<Rightarrow> False
           | Inr m \<Rightarrow> if get ''store_identity'' m = JNull then completed_adoption parent t = Inr True
                     else get ''store_identity'' m = JStr identifier))"
proof (cases "read_binding root s")
  case (Inr b)
  show ?thesis
  proof (cases "assert_unchanged root b parent t")
    case ok: (Inr d)
    obtain after m where after: "read_binding root t = Inr after"
      and m: "read_json_object ''revisions'' parent t = Inr m" "is_obj m"
      and same: "bytes_at project_path t = Some (project_bytes b)" "bytes_at identity_path t = Some (store_bytes b)"
      and i: "d = bound_identity after"
        "get ''store_identity'' m = JStr (bound_identity after) \<or>
         get ''store_identity'' m = JNull \<and> completed_adoption parent t = Inr True"
      using ok by (auto simp: assert_unchanged_def Let_def get_of_def split: if_split_asm)
    have "after = b" by (rule read_binding_bytes[OF Inr after same])
    then show ?thesis using Inr ok after m i by auto
  qed (simp add: Inr)
qed simp

end
