(* ===== verification/Attest.thy ===== *)
theory Attest
  imports Identity WritePolicy
begin

text \<open>
  Receipts for commands the motor has run: \<open>attest.py\<close>. The key, the whitelist, the receipts and the
  tombstones of consumed receipts live under the custody root, at \<open>../\<close> from the root of the store.
  HMAC-SHA256 is written out over the hash of Sha256. An \<open>AttestError\<close> is a \<open>WritePolicyError\<close>; the
  clock, the random numbers and what a command printed are parameters.
\<close>

section \<open>HMAC\<close>

definition unhex_digit :: "char \<Rightarrow> nat" where
  "unhex_digit c = (let n = of_char c :: nat in if n < 58 then n - 48 else n - 87)"

fun unhex :: "string \<Rightarrow> string" where
  "unhex (a # b # rest) = char_of (16 * unhex_digit a + unhex_digit b) # unhex rest"
| "unhex _ = []"

definition xor_pad :: "nat \<Rightarrow> string \<Rightarrow> string" where
  "xor_pad pad key = map (\<lambda>c. char_of (Bit_Operations.xor (of_char c) pad)) (key @ replicate (64 - length key) (char_of (0::nat)))"

definition hmac_sha256 :: "string \<Rightarrow> string \<Rightarrow> string" where
  "hmac_sha256 key message =
     (let k = (if length key > 64 then unhex (sha256_hex key) else key) in
      sha256_hex (xor_pad 0x5C k @ unhex (sha256_hex (xor_pad 0x36 k @ message))))"

section \<open>Paths\<close>

definition attest_error :: "string \<Rightarrow> exn" where
  "attest_error code = Exn WritePolicyError code None"

definition receipt_error :: "string \<Rightarrow> exn" where
  "receipt_error detail = Exn WritePolicyError ''receipt_invalid'' (Some detail)"

definition key_path :: string where "key_path = ''../attest.key''"
definition whitelist_path :: string where "whitelist_path = ''../attest-whitelist.json''"

definition receipt_path :: "string \<Rightarrow> string" where
  "receipt_path identifier = ''../receipts/receipts/sha256/'' @ drop 7 identifier @ ''.json''"

definition tombstone_path :: "string \<Rightarrow> string" where
  "tombstone_path nonce = ''../receipts/nonces/sha256/'' @ sha256_hex nonce @ ''.json''"

section \<open>Exclusive creation\<close>

text \<open>\<open>while view: written = os.write(...)\<close>; a write that accepts nothing is tried again.\<close>

function write_view :: "string \<Rightarrow> string \<Rightarrow> unit io" where
  "write_view p view s =
     (if view = [] then (Inr (), s)
      else case pop s of (f, t) \<Rightarrow>
        if f = Fails then (Inl raw_os_error, t)
        else write_view p (drop (accepted f view) view) (append_file p (take (accepted f view) view) t))"
  by pat_completeness auto
termination
proof (relation "measure (\<lambda>(p, view, s). length view + length (fates s))", goal_cases)
  case (2 p view s f t)
  then show ?case
    by (cases "fates s") (auto simp: pop_def accepted_def append_file_def store_file_def)
qed simp

declare write_view.simps [simp del]

lemma write_view_Nil [simp]: "write_view p [] s = (Inr (), s)"
  by (simp add: write_view.simps)

text \<open>\<open>os.close\<close> in a \<open>finally\<close>: its error replaces any other.\<close>

definition close_raw :: "'a res \<Rightarrow> 'a io" where
  "close_raw r s = (case pop s of (Fails, t) \<Rightarrow> (Inl raw_os_error, t) | (_, t) \<Rightarrow> (r, t))"

definition fsync_dir :: "unit io" where
  "fsync_dir = bind_io (effect raw_os_error id) (\<lambda>_. finally_io (effect raw_os_error id) close_raw)"

text \<open>\<open>_write_exclusive\<close>; \<open>False\<close> stands for \<open>FileExistsError\<close>.\<close>

definition write_exclusive :: "string \<Rightarrow> string \<Rightarrow> bool io" where
  "write_exclusive target payload =
     bind_io (effect raw_os_error id) (\<lambda>_.
     bind_io (open_exclusive target raw_os_error) (\<lambda>created.
       if \<not> created then ret False
       else
         bind_io (finally_io (bind_io (write_view target payload) (\<lambda>_. effect raw_os_error id)) close_raw) (\<lambda>_.
         bind_io fsync_dir (\<lambda>_. ret True))))"

section \<open>The whitelist\<close>

definition load_key :: "os \<Rightarrow> string res" where
  "load_key s =
     (case bytes_at key_path s of
        Some key \<Rightarrow> if key = [] then Inl (attest_error ''attest_not_initialized'') else Inr key
      | None \<Rightarrow> Inl (attest_error ''attest_not_initialized''))"

definition load_whitelist :: "os \<Rightarrow> json res" where
  "load_whitelist s =
     (let invalid = attest_error ''attest_whitelist_invalid'' in
      case bytes_at whitelist_path s of
        None \<Rightarrow> Inl invalid
      | Some payload \<Rightarrow>
          andthen (except_as is_json_error invalid (json_loads payload)) (\<lambda>document.
          andthen (ensure (is_obj document \<and> get ''schema'' document = JStr ''an-kla/attest-whitelist-v1'' \<and>
                           is_arr (get ''entries'' document) \<and> list_items (get ''entries'' document) \<noteq> [])
                     invalid) (\<lambda>_. Inr document)))"

text \<open>\<open>[str(item) for item in value]\<close> for a list.\<close>

definition as_texts :: "json \<Rightarrow> string list" where
  "as_texts value = map py_str (list_items value)"

definition entry_allows :: "string list \<Rightarrow> json \<Rightarrow> bool" where
  "entry_allows command entry \<longleftrightarrow> is_obj entry \<and>
     (let exact = get ''argv'' entry; lead = get ''argv_prefix'' entry;
          denied = (if has_key ''deny_flags'' entry then get ''deny_flags'' entry else JArr []);
          words = as_texts lead
      in if is_arr exact then command = as_texts exact
         else is_arr lead \<and> list_items lead \<noteq> [] \<and> take (length words) command = words \<and> is_arr denied \<and>
              \<not> list_ex (\<lambda>arg. list_ex (\<lambda>flag. flag \<noteq> [] \<and> prefix flag arg) (as_texts denied))
                  (drop (length words) command))"

definition command_allowed :: "json \<Rightarrow> string list \<Rightarrow> bool" where
  "command_allowed document command = list_ex (entry_allows command) (list_items (get ''entries'' document))"

section \<open>Verifying a receipt\<close>

definition find_receipt_evidence :: "json \<Rightarrow> json option" where
  "find_receipt_evidence authority =
     find (\<lambda>item. is_obj item \<and> get ''kind'' item = JStr ''attestation_receipt'')
       (list_items (get ''evidence'' authority))"

definition sign :: "string \<Rightarrow> json \<Rightarrow> string" where
  "sign key receipt = ''hmac-sha256:'' @ hmac_sha256 key (canonical_json receipt)"

fun without_key :: "string \<Rightarrow> json \<Rightarrow> json" where
  "without_key k (JObj m) = JObj (filter (\<lambda>kv. fst kv \<noteq> k) m)"
| "without_key k v = v"

text \<open>The words of the command in a receipt: a string is iterated by its characters.\<close>

definition command_words :: "json \<Rightarrow> string list res" where
  "command_words receipt =
     (if \<not> has_key ''command'' receipt then Inr []
      else case get ''command'' receipt of
          JArr xs \<Rightarrow> Inr (map py_str xs)
        | JStr t \<Rightarrow> Inr (map (\<lambda>c. [c]) t)
        | JObj m \<Rightarrow> Inr (map fst m)
        | _ \<Rightarrow> raise TypeError ''iter'')"

definition read_receipt :: "json \<Rightarrow> os \<Rightarrow> json res" where
  "read_receipt item s =
     (let sha = get ''sha256'' item in
      andthen (checks
        [ensure (get ''resolution'' item = JStr ''verified'') (receipt_error ''resolution_not_verified''),
         ensure (is_str sha \<and> prefix ''sha256:'' (str_of sha)) (receipt_error ''sha256_missing''),
         ensure (digest_shape (str_of sha)) (receipt_error ''sha256_malformed'')]) (\<lambda>_.
      case bytes_at (receipt_path (str_of sha)) s of
        None \<Rightarrow> Inl (receipt_error ''receipt_file_missing'')
      | Some payload \<Rightarrow>
          andthen (except_as is_json_error (receipt_error ''receipt_unreadable'') (json_loads payload)) (\<lambda>receipt.
          andthen (ensure (is_obj receipt \<and> get ''schema'' receipt = JStr ''an-kla/attest-receipt-v1'')
                     (receipt_error ''schema'')) (\<lambda>_.
          andthen (dump receipt) (\<lambda>_.
          andthen (checks
            [ensure (JStr (digest_json receipt) = sha) (receipt_error ''receipt_digest_mismatch''),
             ensure (get ''id'' item = get ''receipt_id'' receipt) (receipt_error ''receipt_id_mismatch'')])
            (\<lambda>_. Inr receipt))))))"

text \<open>\<open>hmac.compare_digest\<close> raises \<open>TypeError\<close> for a string that is not ASCII.\<close>

definition check_signature :: "json \<Rightarrow> os \<Rightarrow> unit res" where
  "check_signature receipt s =
     (let claimed = get ''receipt_hmac'' receipt in
      andthen (ensure (is_str claimed \<and> prefix ''hmac-sha256:'' (str_of claimed)) (receipt_error ''hmac_malformed'')) (\<lambda>_.
      andthen (load_key s) (\<lambda>key.
      andthen (ensure (list_all is_ascii (str_of claimed)) (Exn TypeError ''compare_digest'' None)) (\<lambda>_.
        ensure (str_of claimed = sign key (without_key ''receipt_hmac'' receipt)) (receipt_error ''hmac_mismatch'')))))"

definition receipt_nonce :: "json \<Rightarrow> string" where
  "receipt_nonce receipt = py_str (get ''nonce'' receipt)"

definition verify_receipt :: "string \<Rightarrow> json \<Rightarrow> os \<Rightarrow> json res" where
  "verify_receipt root authority s =
     (case find_receipt_evidence authority of
        None \<Rightarrow> Inl (receipt_error ''evidence_item_missing'')
      | Some item \<Rightarrow>
          andthen (read_receipt item s) (\<lambda>receipt.
          andthen (check_signature receipt s) (\<lambda>_.
          andthen (checks
            [ensure (get ''policy_fingerprint'' receipt = JStr policy_fingerprint)
               (receipt_error ''policy_fingerprint_changed''),
             ensure (py_eq (get ''exit_code'' receipt) (JInt 0)) (receipt_error ''exit_code_not_zero'')]) (\<lambda>_.
          andthen (load_whitelist s) (\<lambda>document.
          andthen (dump document) (\<lambda>_.
          andthen (ensure (get ''whitelist_digest'' receipt = JStr (digest_json document))
                     (attest_error ''receipt_whitelist_changed'')) (\<lambda>_.
          andthen (command_words receipt) (\<lambda>command.
          andthen (ensure (command_allowed document command) (attest_error ''attest_command_not_allowed'')) (\<lambda>_.
          let mismatch = attest_error ''receipt_identity_mismatch'' in
          andthen (except_as (\<lambda>_. True) mismatch (read_binding root s)) (\<lambda>b.
          andthen (ensure (get ''store_identity'' receipt = JStr (bound_identity b) \<and>
                           get ''project_uuid'' receipt = get ''project_uuid'' (bound_store b)) mismatch) (\<lambda>_.
          andthen (subscript ''nonce'' receipt) (\<lambda>_.
          andthen (ensure (bytes_at (tombstone_path (receipt_nonce receipt)) s = None)
                     (attest_error ''receipt_replayed'')) (\<lambda>_. Inr receipt)))))))))))))"

section \<open>Consuming a receipt\<close>

definition tombstone :: "string \<Rightarrow> json \<Rightarrow> json" where
  "tombstone now receipt = mk_obj
     [(''schema'', JStr ''an-kla/attest-tombstone-v1''), (''nonce'', JStr (receipt_nonce receipt)),
      (''receipt_id'', JStr (if has_key ''receipt_id'' receipt then py_str (get ''receipt_id'' receipt) else [])),
      (''created_at'', JStr now)]"

definition consume_tombstone :: "string \<Rightarrow> json \<Rightarrow> unit io" where
  "consume_tombstone now receipt =
     bind_io (write_exclusive (tombstone_path (receipt_nonce receipt)) (canonical_json (tombstone now receipt) @ [newline]))
       (\<lambda>created. lift (ensure created (attest_error ''receipt_replayed'')))"

definition enforce_for_commit :: "string \<Rightarrow> string \<Rightarrow> json \<Rightarrow> unit io" where
  "enforce_for_commit root now authority =
     bind_io (asks (verify_receipt root authority)) (consume_tombstone now)"

section \<open>Minting\<close>

text \<open>The environment of the command: \<open>_SENSITIVE_ENV\<close> searches the name for one of these words, without
  regard to case; under \<open>re.IGNORECASE\<close> the long s and the Kelvin sign fold to \<open>s\<close> and \<open>k\<close> as well.\<close>

fun fold_name :: "string \<Rightarrow> string" where
  "fold_name (a # b # c # t) =
     (if a = CHR 0xC5 \<and> b = CHR 0xBF then CHR ''S'' # fold_name (c # t)
      else if a = CHR 0xE2 \<and> b = CHR 0x84 \<and> c = CHR 0xAA then CHR ''K'' # fold_name t
      else (if is_lower a then char_of ((of_char a :: nat) - 32) else a) # fold_name (b # c # t))"
| "fold_name (a # b # []) =
     (if a = CHR 0xC5 \<and> b = CHR 0xBF then ''S''
      else (if is_lower a then char_of ((of_char a :: nat) - 32) else a) # fold_name (b # []))"
| "fold_name (a # []) = [if is_lower a then char_of ((of_char a :: nat) - 32) else a]"
| "fold_name [] = []"

definition sensitive_words :: "string list" where
  "sensitive_words = [''TOKEN'', ''SECRET'', ''PASSWORD'', ''PASSWD'', ''PRIVATE'', ''CREDENTIAL'', ''COOKIE'',
     ''SESSION'', ''AUTH'', ''KEY'', ''AWS_'']"

definition sanitized_env :: "(string \<times> string) list \<Rightarrow> (string \<times> string) list" where
  "sanitized_env env = filter (\<lambda>(name, _). \<not> list_ex (\<lambda>w. sublist w (fold_name name)) sensitive_words) env"

text \<open>\<open>_Drainer\<close>: what was hashed of the chunks a pipe delivered, their total and whether the cap was met.
  A chunk that passes the cap is left out of the digest as a whole.\<close>

record drainer =
  drained :: string
  drain_total :: nat
  drain_truncated :: bool

definition drain_chunk :: "nat \<Rightarrow> string \<Rightarrow> drainer \<Rightarrow> drainer" where
  "drain_chunk cap chunk d =
     (let total = drain_total d + length chunk in
      if total \<le> cap then d\<lparr>drained := drained d @ chunk, drain_total := total\<rparr>
      else d\<lparr>drain_total := total, drain_truncated := True\<rparr>)"

definition drain :: "nat \<Rightarrow> string list \<Rightarrow> drainer" where
  "drain cap chunks = fold (drain_chunk cap) chunks \<lparr>drained = [], drain_total = 0, drain_truncated = False\<rparr>"

text \<open>What a command that was run left behind: its exit code and the chunks its two pipes delivered; or
  that it could not be run or did not end in time.\<close>

record command_run =
  run_exit :: int
  run_stdout :: "string list"
  run_stderr :: "string list"

datatype process = NotStarted | TimedOut | Ran command_run

definition attest_receipt :: "string list \<Rightarrow> nat \<Rightarrow> command_run \<Rightarrow> identity_binding \<Rightarrow> string \<Rightarrow> string \<Rightarrow>
    string \<Rightarrow> string \<Rightarrow> string \<Rightarrow> json" where
  "attest_receipt command cap r b whitelist observed nonce receipt_id now =
     (let out = drain cap (run_stdout r); err = drain cap (run_stderr r) in mk_obj
     [(''schema'', JStr ''an-kla/attest-receipt-v1''), (''receipt_id'', JStr receipt_id),
      (''command'', JArr (map JStr command)), (''exit_code'', JInt (run_exit r)),
      (''stdout_digest'', JStr (''sha256:'' @ sha256_hex (drained out))),
      (''stderr_digest'', JStr (''sha256:'' @ sha256_hex (drained err))),
      (''stdout_bytes'', JInt (int (drain_total out))), (''stderr_bytes'', JInt (int (drain_total err))),
      (''truncated'', JBool (drain_truncated out \<or> drain_truncated err)),
      (''project_uuid'', get ''project_uuid'' (bound_store b)),
      (''store_identity'', JStr (bound_identity b)), (''whitelist_digest'', JStr whitelist),
      (''base_revision'', JStr observed), (''nonce'', JStr nonce), (''observed_at'', JStr now),
      (''policy_fingerprint'', JStr policy_fingerprint)])"

definition require_custody :: "site \<Rightarrow> os \<Rightarrow> unit res" where
  "require_custody here s =
     andthen (read_pointer here) (\<lambda>pointer.
       if pointer = None then Inr ()
       else check_custody here (case read_binding (project_root here) s of Inr b \<Rightarrow> Some b | Inl _ \<Rightarrow> None))"

text \<open>\<open>attest_run\<close>: the signed receipt and its digest.\<close>

definition attest_run :: "site \<Rightarrow> nat \<Rightarrow> string list \<Rightarrow> string option \<Rightarrow> process \<Rightarrow> string \<Rightarrow> string \<Rightarrow> string \<Rightarrow>
    (json \<times> string) io" where
  "attest_run here cap command expected outcome nonce receipt_id now =
     bind_io (lift (ensure (command \<noteq> [] \<and> [] \<notin> set command) (attest_error ''attest_command_not_allowed''))) (\<lambda>_.
     bind_io (asks (require_custody here)) (\<lambda>_.
     bind_io (asks load_key) (\<lambda>key.
     bind_io (asks load_whitelist) (\<lambda>document.
     bind_io (lift (ensure (command_allowed document command) (attest_error ''attest_command_not_allowed''))) (\<lambda>_.
     bind_io (asks read_current) (\<lambda>observed.
     bind_io (lift (ensure (expected = None \<or> expected = Some observed)
                      (Exn WritePolicyError ''write_plan_base_changed'' None))) (\<lambda>_.
     bind_io (asks (\<lambda>s. except_as (\<lambda>e. exn_class e = IdentityError) (attest_error ''attest_not_initialized'')
                      (read_binding (project_root here) s))) (\<lambda>b.
       case outcome of
         NotStarted \<Rightarrow> lift (Inl (attest_error ''attest_command_not_allowed''))
       | TimedOut \<Rightarrow> lift (Inl (attest_error ''attest_timeout''))
       | Ran r \<Rightarrow>
           bind_io (lift (dump document)) (\<lambda>_.
           let plain = attest_receipt command cap r b (digest_json document) observed nonce receipt_id now;
               receipt = update_obj plain [(''receipt_hmac'', JStr (sign key plain))];
               identifier = digest_json receipt
           in bind_io (write_exclusive (receipt_path identifier) (canonical_json receipt @ [newline]))
                (\<lambda>_. ret (receipt, identifier)))))))))))"

section \<open>The key and the whitelist\<close>

definition default_whitelist :: json where
  "default_whitelist =
     (let words = (\<lambda>xs. JArr (map JStr xs)) in mk_obj
      [(''schema'', JStr ''an-kla/attest-whitelist-v1''),
       (''entries'', JArr
          [mk_obj [(''argv'', words [''git'', ''rev-parse'', ''HEAD''])],
           mk_obj [(''argv_prefix'', words [''git'', ''diff'']),
                   (''deny_flags'', words [''--ext-diff'', ''--textconv'', ''--output'', ''-o''])],
           mk_obj [(''argv_prefix'', words [''python'', ''-m'', ''unittest'', ''discover'']), (''deny_flags'', JArr [])],
           mk_obj [(''argv_prefix'', words [''python3'', ''-m'', ''unittest'', ''discover'']), (''deny_flags'', JArr [])],
           mk_obj [(''argv_prefix'', words [''sha256sum'']), (''deny_flags'', JArr [])]])])"

text \<open>One file of \<open>ensure_attest_files\<close>: whether it was created. A file another process creates between
  the test and the creation is the \<open>FileExistsError\<close> of \<open>_write_exclusive\<close>, an \<open>OSError\<close>.\<close>

definition ensure_file :: "string \<Rightarrow> string res \<Rightarrow> bool io" where
  "ensure_file target payload =
     bind_io (asks (\<lambda>s. Inr (bytes_at target s \<noteq> None))) (\<lambda>there.
       if there then ret False
       else bind_io (lift payload) (\<lambda>bytes.
            bind_io (write_exclusive target bytes) (\<lambda>created.
            bind_io (lift (ensure created raw_os_error)) (\<lambda>_. ret True))))"

definition ensure_attest_files :: "site \<Rightarrow> json option \<Rightarrow> string \<Rightarrow> json io" where
  "ensure_attest_files here entries key_bytes =
     bind_io (asks (require_custody here)) (\<lambda>_.
     bind_io (ensure_file key_path (Inr key_bytes)) (\<lambda>key.
     let document = (case entries of Some d \<Rightarrow> d | None \<Rightarrow> default_whitelist) in
     bind_io (ensure_file whitelist_path
        (andthen (dump document) (\<lambda>_. Inr (canonical_json document @ [newline])))) (\<lambda>whitelist.
       let names = (\<lambda>wanted. JArr (map (\<lambda>(name, _). JStr name)
             (filter (\<lambda>(_, created). created = wanted) [(''attest.key'', key), (''attest-whitelist.json'', whitelist)])))
       in ret (mk_obj
            [(''schema'', JStr ''an-kla/attest-init-result-v1''), (''created'', names True),
             (''existed'', names False), (''ok'', JBool True)]))))"

section \<open>A receipt is used once\<close>

context step_relation
begin

lemma keeps_close_raw: "keeps (close_raw r)"
  by (rule keepsI) (auto simp: close_raw_def split: prod.splits fate.splits dest!: popped_to)

lemma keeps_fsync_dir: "keeps fsync_dir"
  unfolding fsync_dir_def by (intro keeps_rules keeps_close_raw)

lemma keeps_write_view:
  assumes "\<And>s b. R s (append_file p b s)"
  shows "keeps (write_view p view)"
proof (rule keepsI)
  fix s r t show "write_view p view s = (r, t) \<Longrightarrow> R s t"
    using assms
  proof (induction p view s arbitrary: r t rule: write_view.induct)
    case (1 p view s)
    obtain f s' where p: "pop s = (f, s')" by fastforce
    consider "view = []" | "view \<noteq> []" "f = Fails" | "view \<noteq> []" "f \<noteq> Fails" by blast
    then show ?case
    proof cases
      case 3
      then have "write_view p (drop (accepted f view) view) (append_file p (take (accepted f view) view) s') = (r, t)"
        using "1.prems"(1) p by (simp add: write_view.simps[of p view s])
      from "1.IH"[OF 3(1) p[symmetric] 3(2) this "1.prems"(2)] show ?thesis
        by (rule chains[OF chains[OF popped_to[OF p] "1.prems"(2)]])
    qed (use "1.prems"(1) p popped_to[OF p] stays in \<open>simp_all add: write_view.simps[of p view s]\<close>)
  qed
qed

lemma keeps_write_exclusive:
  assumes "\<And>s b. R s (store_file target b s)" and "\<And>s b. R s (append_file target b s)"
  shows "keeps (write_exclusive target payload)"
  unfolding write_exclusive_def
  by (intro keeps_rules keeps_open_exclusive keeps_write_view keeps_close_raw keeps_fsync_dir assms)

end

lemma write_exclusive_same: "write_exclusive target payload s = (r, t) \<Longrightarrow> same_on (\<lambda>q. q \<noteq> target) s t"
  by (rule same.keepsD[OF same.keeps_write_exclusive]) (simp_all add: same_on_def)

text \<open>Once the file is there it stays, also when a later call fails.\<close>

lemma write_view_there: "write_view p view s = (r, t) \<Longrightarrow> bytes_at p s \<noteq> None \<Longrightarrow> bytes_at p t \<noteq> None"
proof (induction p view s arbitrary: r t rule: write_view.induct)
  case (1 p view s)
  obtain f s' where p: "pop s = (f, s')" by fastforce
  consider "view = []" | "view \<noteq> []" "f = Fails" | "view \<noteq> []" "f \<noteq> Fails" by blast
  then show ?case
  proof cases
    case 3
    then have "write_view p (drop (accepted f view) view) (append_file p (take (accepted f view) view) s') = (r, t)"
      using "1.prems" p by (simp add: write_view.simps[of p view s])
    from "1.IH"[OF 3(1) p[symmetric] 3(2) this] show ?thesis by simp
  qed (use "1.prems" p in \<open>simp_all add: write_view.simps[of p view s]\<close>)
qed

lemma close_raw_bytes: "close_raw r s = (r', t) \<Longrightarrow> bytes_at p t = bytes_at p s"
  by (auto simp: close_raw_def split: prod.splits fate.splits)

lemma fsync_dir_same: "fsync_dir s = (r, t) \<Longrightarrow> same_on (\<lambda>_. True) s t"
  by (rule same.keepsD[OF same.keeps_fsync_dir])

lemma write_exclusive_there:
  assumes "write_exclusive target payload s = (Inr created, t)"
  shows "bytes_at target t \<noteq> None"
proof -
  obtain r1 s1 where o1: "effect raw_os_error id s = (Inr (), r1)"
    and o2: "open_exclusive target raw_os_error r1 = (Inr created, s1)"
    and rest: "\<not> created \<Longrightarrow> t = s1"
      "created \<Longrightarrow> bind_io (finally_io (bind_io (write_view target payload) (\<lambda>_. effect raw_os_error id)) close_raw)
         (\<lambda>_. bind_io fsync_dir (\<lambda>_. ret True)) s1 = (Inr True, t)"
    using assms by (cases created) (auto simp: write_exclusive_def bind_io_def ret_def split: prod.splits sum.splits if_splits)
  have there: "bytes_at target s1 \<noteq> None"
    using o2 by (auto simp: open_exclusive_def Let_def split: prod.splits fate.splits option.splits if_splits)
  show ?thesis
  proof (cases created)
    case True
    obtain s2 s3 s4 where w: "write_view target payload s1 = (Inr (), s2)" and f: "effect raw_os_error id s2 = (Inr (), s3)"
      and c: "close_raw (Inr ()) s3 = (Inr (), s4)" and d: "fsync_dir s4 = (Inr (), t)"
      using rest(2)[OF True]
      by (auto simp: bind_io_def finally_io_def ret_def close_raw_def split: prod.splits sum.splits fate.splits)
    have "bytes_at target s3 = bytes_at target s2" using effect_cases[OF f] by auto
    moreover have "bytes_at target t = bytes_at target s4" using fsync_dir_same[OF d] by (simp add: same_on_def)
    ultimately show ?thesis using write_view_there[OF w there] close_raw_bytes[OF c, of target] by simp
  qed (use rest(1) there in simp)
qed

lemma verify_receiptD:
  assumes "verify_receipt root authority s = Inr r"
  shows "bytes_at (tombstone_path (receipt_nonce r)) s = None"
    and "\<exists>item. find_receipt_evidence authority = Some item \<and> get ''sha256'' item = JStr (digest_json r)"
    and "\<exists>key. load_key s = Inr key \<and> get ''receipt_hmac'' r = JStr (sign key (without_key ''receipt_hmac'' r))"
    and "py_eq (get ''exit_code'' r) (JInt 0)" and "get ''policy_fingerprint'' r = JStr policy_fingerprint"
    and "\<exists>document command. load_whitelist s = Inr document \<and> get ''whitelist_digest'' r = JStr (digest_json document) \<and>
      command_words r = Inr command \<and> command_allowed document command"
    and "\<exists>b. read_binding root s = Inr b \<and> get ''store_identity'' r = JStr (bound_identity b) \<and>
      get ''project_uuid'' r = get ''project_uuid'' (bound_store b)"
  using assms
  by (auto simp: verify_receipt_def read_receipt_def check_signature_def Let_def is_str_iff except_as_def
      split: option.splits if_splits sum.splits)

text \<open>C38: A receipt authorises one commit. What the verification accepts is the object the evidence
  names, signed with the key of the custody root, made under the policy of this program, of a command that
  exited with 0 and that the current whitelist, whose digest it names, allows; it names the identity the
  project is bound to when it is verified, and the uuid of that project; and it was not consumed before.
  Consuming it writes one file; when that succeeds, and whenever it leaves its file behind, no later
  verification, of any authority, with any other receipt of the same nonce, succeeds while the file is
  there.\<close>

theorem receipt_single_use:
  "case verify_receipt root a s of Inl _ \<Rightarrow> True
   | Inr r \<Rightarrow>
      (\<exists>key item. load_key s = Inr key \<and> find_receipt_evidence a = Some item \<and>
         get ''sha256'' item = JStr (digest_json r) \<and>
         get ''receipt_hmac'' r = JStr (sign key (without_key ''receipt_hmac'' r))) \<and>
      py_eq (get ''exit_code'' r) (JInt 0) \<and>
      get ''policy_fingerprint'' r = JStr policy_fingerprint \<and>
      (\<exists>document command. load_whitelist s = Inr document \<and> get ''whitelist_digest'' r = JStr (digest_json document) \<and>
         command_words r = Inr command \<and> command_allowed document command) \<and>
      (\<exists>b. read_binding root s = Inr b \<and> get ''store_identity'' r = JStr (bound_identity b) \<and>
         get ''project_uuid'' r = get ''project_uuid'' (bound_store b)) \<and>
      bytes_at (tombstone_path (receipt_nonce r)) s = None \<and>
      (case consume_tombstone now r s of (result, t) \<Rightarrow>
         same_on (\<lambda>q. q \<noteq> tombstone_path (receipt_nonce r)) s t \<and>
         (if result = Inr () then bytes_at (tombstone_path (receipt_nonce r)) t \<noteq> None else True)) \<and>
      (case verify_receipt root' b u of Inl _ \<Rightarrow> True
       | Inr q \<Rightarrow>
           if bytes_at (tombstone_path (receipt_nonce r)) u = None then True
           else receipt_nonce q \<noteq> receipt_nonce r)"
proof (cases "verify_receipt root a s")
  case (Inr r)
  note v = verify_receiptD[OF Inr]
  obtain result t where c: "consume_tombstone now r s = (result, t)" by fastforce
  then obtain r1 where w: "write_exclusive (tombstone_path (receipt_nonce r))
      (canonical_json (tombstone now r) @ [newline]) s = (r1, t)" and res: "result = Inr () \<Longrightarrow> r1 = Inr True"
    by (auto simp: consume_tombstone_def bind_io_def lift_def split: prod.splits sum.splits)
  have consumed: "same_on (\<lambda>q. q \<noteq> tombstone_path (receipt_nonce r)) s t \<and>
      (if result = Inr () then bytes_at (tombstone_path (receipt_nonce r)) t \<noteq> None else True)"
    using write_exclusive_same[OF w] write_exclusive_there w res by auto
  have later: "case verify_receipt root' b u of Inl _ \<Rightarrow> True
     | Inr q \<Rightarrow> if bytes_at (tombstone_path (receipt_nonce r)) u = None then True
         else receipt_nonce q \<noteq> receipt_nonce r"
    using verify_receiptD(1)[of root' b u] by (auto split: sum.split)
  show ?thesis unfolding Inr using v consumed later by (auto simp: c)
qed simp

end
