(* ===== verification/Mutation.thy ===== *)
theory Mutation
  imports Append Gates Attest
begin

text \<open>
  What the governed mutations of \<open>write_commit.py\<close>, \<open>checkpoints.py\<close>, \<open>refutations.py\<close> and \<open>store.py\<close>
  share: the record \<open>world\<close> of what they take from outside the store, the preflight that captures the
  identity, the \<open>write_lock\<close> of the store, and the report of a lock that was not released. The locale
  \<open>locked_section\<close> states the contract of such a mutation: nothing before the lock writes a file, and
  the block under the lock moves \<open>CURRENT\<close> only when a condition holds, to a whole child of one base.
\<close>

section \<open>The world around the store\<close>

record world =
  w_site :: site
  w_platform :: platform
  w_lock :: lock_calls
  w_depth :: nat
  w_now :: string
  w_fresh :: string
  w_diagnostics :: json
  w_reindex :: "string \<Rightarrow> string \<Rightarrow> unit io"
  w_resolver :: "resolver option"
  w_installed :: json

definition write_policy_error :: "string \<Rightarrow> exn" where
  "write_policy_error code = Exn WritePolicyError code None"

definition plan_binding :: "string \<Rightarrow> json \<Rightarrow> binding" where
  "plan_binding base fingerprint = \<lparr>base_revision = JStr base, plan_fingerprint = fingerprint,
     initialization_fingerprint = JNull, mutation_fingerprint = JNull\<rparr>"

text \<open>\<open>_mutation_preflight_with_context\<close> and the layout.\<close>

definition begin_mutation :: "world \<Rightarrow> (identity_binding \<times> context_map) io" where
  "begin_mutation w =
     bind_io (asks (preflight_binding (w_site w))) (\<lambda>b.
     bind_io (asks (\<lambda>s. Inr (preflight_context s))) (\<lambda>ctx. ret (b, ctx)))"

text \<open>\<open>_post_lock_outcome\<close>.\<close>

definition post_lock_outcome :: "json \<Rightarrow> string option \<Rightarrow> json" where
  "post_lock_outcome outcome release_error =
     (case release_error of
        None \<Rightarrow> outcome
      | Some code \<Rightarrow>
          update_obj outcome
            ([(''audit_state'', JStr ''incomplete''),
              (''warnings'', JArr (map JStr (sorted_set (map str_of (list_items (get ''warnings'' outcome)) @ [code]))))] @
             (if get ''committed'' outcome = JBool True
              then [(''state'', JStr ''committed_audit_incomplete''),
                    (''operation_error_code'', JStr ''lock_release_incomplete'')]
              else [])))"

section \<open>The lock of the store\<close>

text \<open>\<open>MemoryStore.write_lock\<close> makes the layout before the lock is taken. \<open>None\<close>: the wait never ends.\<close>

definition locked_after :: "world \<Rightarrow> 'a io \<Rightarrow> ('a \<Rightarrow> 'b io) \<Rightarrow> os \<Rightarrow> (('b \<times> string option) res \<times> os) option" where
  "locked_after w before body s =
     (case bind_io before (\<lambda>a. bind_io make_layout (\<lambda>_. ret a)) s of
        (Inl e, t) \<Rightarrow> Some (Inl e, t)
      | (Inr a, t) \<Rightarrow> with_write_lock (w_platform w) (w_lock w) (body a) t)"

text \<open>How the block under the lock ends: with the result of the function, or with a commit to report.\<close>

datatype lock_end = Returned json | Committed string json

definition no_records :: rows where
  "no_records = (\<lambda>_. [])"

text \<open>The attempt of \<open>MemoryStore._commit_locked\<close> when the caller gives none.\<close>

definition mutation_of :: "string \<Rightarrow> json \<Rightarrow> rows \<Rightarrow> json option \<Rightarrow> json list \<Rightarrow> json option \<Rightarrow> json" where
  "mutation_of base patch pending policy supersedes refute = mk_obj
     ([(''base_revision'', JStr base), (''checkpoint_patch'', patch),
       (''pending'', mk_obj (map (\<lambda>stream. (stream, JArr (pending stream))) STREAMS)),
       (''policy_metadata'', case policy of None \<Rightarrow> JNull | Some p \<Rightarrow> p),
       (''supersedes'', if supersedes = [] then JNull else JArr supersedes)] @
      (case refute of None \<Rightarrow> [] | Some objects \<Rightarrow> [(''refute_objects'', objects)]))"

definition internal_attempt :: "string \<Rightarrow> string \<Rightarrow> json \<Rightarrow> json res" where
  "internal_attempt fresh base mutation =
     andthen (dump mutation) (\<lambda>_.
       begin_transaction fresh ''internal_commit'' JNull
         \<lparr>base_revision = JStr base, plan_fingerprint = JNull, initialization_fingerprint = JNull,
          mutation_fingerprint = JStr (digest_json mutation)\<rparr>)"

section \<open>Chains of calls\<close>

lemma bind_asks: "bind_io (asks f) k s = (case f s of Inl e \<Rightarrow> (Inl e, s) | Inr a \<Rightarrow> k a s)"
  by (simp add: bind_io_def asks_def)

lemma bind_lift: "bind_io (lift x) k s = (case x of Inl e \<Rightarrow> (Inl e, s) | Inr a \<Rightarrow> k a s)"
  by (simp add: bind_io_def lift_def)

lemma run_iff:
  "asks f s = (r, t) \<longleftrightarrow> f s = r \<and> t = s"
  "lift x s = (r, t) \<longleftrightarrow> x = r \<and> t = s"
  "ret a s = (r', t) \<longleftrightarrow> r' = Inr a \<and> t = s"
  by (auto simp: asks_def lift_def ret_def)

lemma bind_ioE:
  assumes "bind_io m k s = (r, t)"
  obtains (fails) e where "m s = (Inl e, t)" "r = Inl e"
  | (goes) a u where "m s = (Inr a, u)" "k a u = (r, t)"
  using assms that by (cases "m s"; cases "fst (m s)") (auto simp: bind_io_def)

lemma make_layout_same: "make_layout s = (r, t) \<Longrightarrow> same_on (\<lambda>_. True) s t"
  unfolding make_layout_def by (rule same.keepsD[OF same.keeps_each[OF same.keeps_effect]]) (simp_all add: same_on_def)

lemma make_layout_onward: "make_layout s = (r, t) \<Longrightarrow> onward s t"
  unfolding make_layout_def by (rule onward.keepsD[OF onward.keeps_each[OF onward.keeps_effect]]) (simp_all)

text \<open>After a call that returns its result unchanged the state is that of the call.\<close>

lemma bind_ret_state: "bind_io m (\<lambda>a. ret (f a)) s = (r, t) \<Longrightarrow> \<exists>r'. m s = (r', t)"
  by (cases "m s"; cases "fst (m s)") (auto simp: bind_io_def ret_def)

lemma begin_mutation_state: "begin_mutation w s = (r, t) \<Longrightarrow> t = s"
  by (auto simp: begin_mutation_def bind_asks ret_def split: sum.splits)

text \<open>No file differs, and no identifier that was drawn is drawn again.\<close>

definition unchanged :: "os \<Rightarrow> os \<Rightarrow> bool" where
  "unchanged s t \<longleftrightarrow> same_on (\<lambda>_. True) s t \<and> onward s t"

lemma unchanged_refl [simp]: "unchanged s s"
  by (simp add: unchanged_def same_on_def)

lemma unchanged_trans: "unchanged s t \<Longrightarrow> unchanged t u \<Longrightarrow> unchanged s u"
  using onward.chains[of s t u] by (auto simp: unchanged_def same_on_def)

lemma unchanged_current: "unchanged s t \<Longrightarrow> bytes_at current_path t = bytes_at current_path s"
  by (simp add: unchanged_def same_on_def)

lemma make_layout_unchanged: "make_layout s = (r, t) \<Longrightarrow> unchanged s t"
  using make_layout_same make_layout_onward by (simp add: unchanged_def)

lemma begin_mutation_unchanged: "begin_mutation w s = (r, t) \<Longrightarrow> unchanged s t"
  using begin_mutation_state unchanged_refl by blast

lemma with_write_lock_body:
  assumes "with_write_lock p c body s = Some (r, t)"
  shows "(\<exists>e. r = Inl e \<and> t = s) \<or> (\<exists>x. body s = (x, t) \<and> (case x of Inl e \<Rightarrow> r = Inl e
    | Inr a \<Rightarrow> r = Inr (a, if released c then None else Some ''lock_release_incomplete'')))"
proof -
  obtain lock where "acquire_lock p c = Some lock" using assms by (auto simp: with_write_lock_def)
  then show ?thesis using assms by (cases lock; cases "body s"; cases "fst (body s)") (auto simp: with_write_lock_def)
qed

section \<open>Who may move CURRENT\<close>

definition moves :: "bool \<Rightarrow> string \<Rightarrow> os \<Rightarrow> os \<Rightarrow> bool" where
  "moves licensed base s t \<longleftrightarrow>
     bytes_at current_path t = bytes_at current_path s \<or> licensed \<and> published base s t"

lemma moves_same: "bytes_at current_path t = bytes_at current_path s \<Longrightarrow> moves licensed base s t"
  by (simp add: moves_def)

lemma published_moved: "published observed s t \<Longrightarrow> read_current s \<noteq> Inr observed \<Longrightarrow>
    bytes_at current_path t = bytes_at current_path s"
  by (simp add: published_def)

lemma published_before:
  assumes "bytes_at current_path u = bytes_at current_path s" and "onward s u" and "published observed u t"
  shows "published observed s t"
  using assms read_current_cong[OF assms(1) onward_diverted[OF assms(2)]] by (auto simp: published_def)

lemma moves_before:
  assumes "unchanged s u" and "moves licensed base u t"
  shows "moves licensed base s t"
  using assms published_before[OF unchanged_current[OF assms(1)], of base t]
  by (auto simp: moves_def unchanged_def same_on_def)

locale locked_section =
  fixes w :: world and before :: "'a io" and body :: "'a \<Rightarrow> 'b io" and base :: string
    and licensed :: "os \<Rightarrow> os \<Rightarrow> os \<Rightarrow> bool" and still :: "'b \<Rightarrow> bool"
  assumes before_unchanged: "before s = (r, t) \<Longrightarrow> unchanged s t"
    and body_moves: "before s = (Inr a, u) \<Longrightarrow> unchanged s v \<Longrightarrow> body a v = (q, t) \<Longrightarrow>
      moves (licensed s v t) base v t"
    and body_still: "before s = (Inr a, u) \<Longrightarrow> unchanged s v \<Longrightarrow> body a v = (Inr x, t) \<Longrightarrow> still x \<Longrightarrow>
      bytes_at current_path t = bytes_at current_path v"
begin

lemma entering:
  assumes "locked_after w before body s = Some (r, t)"
  obtains (outside) e where "r = Inl e" "unchanged s t"
  | (inside) a u v q where "before s = (Inr a, u)" "unchanged s v" "body a v = (q, t)"
      "\<And>x y. r = Inr (x, y) \<Longrightarrow> q = Inr x"
proof -
  obtain r1 s1 where b: "before s = (r1, s1)" by fastforce
  show ?thesis
  proof (cases r1)
    case (Inl e)
    then show ?thesis using assms b before_unchanged[OF b] by (auto simp: locked_after_def bind_io_def intro: outside)
  next
    case (Inr a)
    obtain r2 s2 where l: "make_layout s1 = (r2, s2)" by fastforce
    have same: "unchanged s s2" using before_unchanged[OF b] make_layout_unchanged[OF l] by (rule unchanged_trans)
    show ?thesis
    proof (cases r2)
      case (Inl e)
      then show ?thesis using assms b Inr l same by (auto simp: locked_after_def bind_io_def intro: outside)
    next
      case layout: (Inr x)
      then have "with_write_lock (w_platform w) (w_lock w) (body a) s2 = Some (r, t)"
        using assms b Inr l by (simp add: locked_after_def bind_io_def ret_def)
      from with_write_lock_body[OF this] show ?thesis
      proof
        assume "\<exists>e. r = Inl e \<and> t = s2"
        then show ?thesis using same outside by blast
      next
        assume "\<exists>y. body a s2 = (y, t) \<and> (case y of Inl e \<Rightarrow> r = Inl e
          | Inr z \<Rightarrow> r = Inr (z, if released (w_lock w) then None else Some ''lock_release_incomplete''))"
        then obtain q where q: "body a s2 = (q, t)" and "case q of Inl e \<Rightarrow> r = Inl e
          | Inr z \<Rightarrow> r = Inr (z, if released (w_lock w) then None else Some ''lock_release_incomplete'')" by blast
        then have "q = Inr x'" if "r = Inr (x', y')" for x' y' using that by (cases q) auto
        with b[unfolded Inr] same q show ?thesis by (rule inside)
      qed
    qed
  qed
qed

lemma run_moves:
  assumes "locked_after w before body s = Some (r, t)"
  shows "(\<exists>v. unchanged s v \<and> moves (licensed s v t) base s t) \<and>
    (\<forall>x y. r = Inr (x, y) \<longrightarrow> still x \<longrightarrow> bytes_at current_path t = bytes_at current_path s)"
  using assms
proof (cases rule: entering)
  case (outside e)
  then show ?thesis using moves_same[OF unchanged_current] unchanged_refl by blast
next
  case (inside a u v q)
  then show ?thesis using moves_before[OF inside(2) body_moves[OF inside(1-3)]] unchanged_current[OF inside(2)]
      body_still[OF inside(1,2), of _ t] by metis
qed

end

end
