(* ===== verification/WriteBatch.thy ===== *)
theory WriteBatch
  imports WritePolicy
begin

text \<open>
  \<open>an_kla/write_batch.py\<close> and the entry points of \<open>an_kla/write_policy.py\<close> that dispatch on the
  schema of the proposal. A batch is decided once, through its v1 twin: the proposal of its first
  record with an authority re-bound to the twin's digest. The twin always carries the v1 schema,
  so the recursive call of \<open>evaluate_write\<close> on it is \<open>evaluate_write_v1\<close>.
\<close>

section \<open>Batch proposals\<close>

definition max_batch_records :: nat where
  "max_batch_records = nat (int_of (get ''max_batch_records'' policy_configuration))"

definition record_ids :: "json list \<Rightarrow> json list" where
  "record_ids records = map (get ''id'') records"

definition validate_batch_records :: "json \<Rightarrow> string \<Rightarrow> unit res" where
  "validate_batch_records value code =
     (let records = list_items value in checks
      ([ensure (is_arr value \<and> records \<noteq> []) (wpe code ''records:not_list''),
        ensure (length records \<le> max_batch_records) (wpe code ''records:max_batch_records'')]
       @ map (\<lambda>(index, record).
               validate_record_fields record code (''records['' @ show_nat index @ '']''))
           (enumerate 0 records)
       @ [ensure (distinct (record_ids records)) (wpe code ''records:duplicate_id'')]))"

definition validate_batch_supersedes :: "json \<Rightarrow> string \<Rightarrow> unit res" where
  "validate_batch_supersedes proposal code =
     (let supersedes = get ''supersedes'' proposal;
          batch_ids = map str_of (record_ids (list_items (get ''records'' proposal)));
          targets = map snd (dict_items supersedes)
      in if get ''operation'' proposal = JStr ''supersede''
         then checks
           [ensure (nonempty_obj supersedes \<and> sorted_set (dict_keys supersedes) = sorted_set batch_ids)
              (wpe code ''supersedes:missing_for_supersede''),
            ensure (list_all nonempty_str targets) (wpe code ''supersedes:target_invalid''),
            ensure (list_all (\<lambda>kv. snd kv \<noteq> JStr (fst kv)) (dict_items supersedes))
              (wpe code ''supersedes:self_reference_forbidden''),
            ensure (list_all (\<lambda>t. \<not> str_in t batch_ids) targets)
              (wpe code ''supersedes:intra_batch_forbidden''),
            ensure (distinct targets) (wpe code ''supersedes:duplicate_target'')]
         else ensure (\<not> has_key ''supersedes'' proposal)
                (wpe code ''supersedes:present_without_supersede''))"

definition validate_batch_lineage :: "json \<Rightarrow> string \<Rightarrow> unit res" where
  "validate_batch_lineage lineage code = checks
     [ensure (is_obj lineage \<and> sorted_set (dict_keys lineage) = [''derived_from_retrieval'', ''refs''])
        (wpe code ''lineage''),
      ensure (is_bool (get ''derived_from_retrieval'' lineage)) (wpe code ''lineage.derived_from_retrieval''),
      ensure (is_arr (get ''refs'' lineage)) (wpe code ''lineage.refs''),
      each (\<lambda>r. validate_reference r code ''lineage.refs[]:invalid'') (list_items (get ''refs'' lineage))]"

definition validate_batch_proposal :: "json \<Rightarrow> unit res" where
  "validate_batch_proposal proposal =
     (let code = ''invalid_write_proposal'' in checks
      [ensure (is_obj proposal) (wpe code ''proposal:not_object''),
       exact_keys WritePolicyError proposal
         [''schema'', ''base_revision'', ''stream'', ''operation'', ''requested_representation'',
          ''records'', ''lineage''] [''supersedes''] code ''proposal:keys'',
       ensure (get ''schema'' proposal = JStr ''an-kla/write-proposal-v2'') (wpe code ''proposal:schema''),
       ensure (str_in (get ''stream'' proposal) [''facts'', ''events'', ''episodes'']) (wpe code ''stream''),
       ensure (str_in (get ''operation'' proposal) [''add'', ''supersede'']) (wpe code ''operation''),
       ensure (str_in (get ''requested_representation'' proposal) [''full'', ''summary''])
         (wpe code ''requested_representation''),
       ensure (is_digest (get ''base_revision'' proposal)) (wpe code ''base_revision:not_digest''),
       validate_batch_records (get ''records'' proposal) code,
       validate_batch_supersedes proposal code,
       validate_batch_lineage (get ''lineage'' proposal) code,
       validate_json_value proposal code ''proposal:invalid_json''])"

section \<open>The twin\<close>

definition first_record :: "json \<Rightarrow> json" where
  "first_record proposal = (case list_items (get ''records'' proposal) of r # _ \<Rightarrow> r | [] \<Rightarrow> JNull)"

definition twin_v1 :: "json \<Rightarrow> json" where
  "twin_v1 proposal = mk_obj
     ([(''schema'', JStr ''an-kla/write-proposal-v1''),
       (''base_revision'', get ''base_revision'' proposal),
       (''stream'', get ''stream'' proposal),
       (''operation'', get ''operation'' proposal),
       (''requested_representation'', get ''requested_representation'' proposal),
       (''record'', first_record proposal),
       (''lineage'', get ''lineage'' proposal)]
      @ (if get ''operation'' proposal = JStr ''supersede''
         then [(''supersedes'',
                get (str_of (get ''id'' (first_record proposal))) (get ''supersedes'' proposal))]
         else []))"

definition twin_authority :: "json \<Rightarrow> json \<Rightarrow> json" where
  "twin_authority twin authority = update_obj authority [(''proposal_sha256'', JStr (digest_json twin))]"

section \<open>Evaluation\<close>

definition batch_decision :: "json \<Rightarrow> json \<Rightarrow> string \<Rightarrow> string list \<Rightarrow> json" where
  "batch_decision proposal authority decision reasons =
     decision_object (digest_json proposal) (digest_json authority) decision reasons"

definition record_reasons :: "json \<Rightarrow> string list" where
  "record_reasons record =
     (if contains_self_asserted_authority record then [''self_asserted_authority_ignored''] else [])
     @ (if record_text record = [] then [''record_without_indexable_text''] else [])"

definition evaluate_batch_write :: "json \<Rightarrow> json \<Rightarrow> json res" where
  "evaluate_batch_write proposal authority =
     andthen (validate_batch_proposal proposal) (\<lambda>_.
     andthen (validate_write_authority authority) (\<lambda>_.
     andthen (evaluate_write_v1 (twin_v1 proposal) (twin_authority (twin_v1 proposal) authority))
       (\<lambda>twin_decision.
         let reasons = map str_of (list_items (get ''reason_codes'' twin_decision))
         in if get ''proposal_sha256'' authority \<noteq> JStr (digest_json proposal)
               \<or> get ''base_revision'' authority \<noteq> get ''base_revision'' proposal
            then Inr (batch_decision proposal authority ''skip''
                        (reasons @ [''authority_scope_mismatch'']))
            else Inr (batch_decision proposal authority (str_of (get ''decision'' twin_decision))
                        (reasons @ concat (map record_reasons (list_items (get ''records'' proposal))))))))"

definition is_batch :: "json \<Rightarrow> bool" where
  "is_batch proposal \<longleftrightarrow> is_obj proposal \<and> get ''schema'' proposal = JStr ''an-kla/write-proposal-v2''"

definition validate_write_proposal :: "json \<Rightarrow> unit res" where
  "validate_write_proposal proposal =
     (if is_batch proposal then validate_batch_proposal proposal else validate_proposal_v1 proposal)"

definition evaluate_write :: "json \<Rightarrow> json \<Rightarrow> json res" where
  "evaluate_write proposal authority =
     (if \<not> is_obj proposal then raise AttributeError ''get''
      else if is_batch proposal then evaluate_batch_write proposal authority
      else evaluate_write_v1 proposal authority)"

section \<open>Plans\<close>

definition batch_planned_item :: "json \<Rightarrow> json \<Rightarrow> json" where
  "batch_planned_item proposal record = mk_obj
     ([(''stream'', get ''stream'' proposal), (''operation'', get ''operation'' proposal),
       (''representation'', get ''requested_representation'' proposal), (''record'', record)]
      @ (if get ''operation'' proposal = JStr ''supersede''
         then [(''supersedes'', get (str_of (get ''id'' record)) (get ''supersedes'' proposal))]
         else []))"

definition is_policy_event :: "json \<Rightarrow> bool" where
  "is_policy_event item \<longleftrightarrow>
     get ''stream'' item = JStr ''events''
     \<and> get ''type'' (get ''record'' item) = JStr ''write_policy_decision''"

text \<open>The event copied from the twin's plan, with its payload re-bound to the batch.\<close>

definition rebind_event :: "json \<Rightarrow> json \<Rightarrow> json list \<Rightarrow> json res" where
  "rebind_event event decision records =
     andthen (subscript ''payload'' (get ''record'' event)) (\<lambda>payload.
       if \<not> is_obj payload then raise TypeError ''item assignment''
       else Inr (update_obj event
         [(''record'', update_obj (get ''record'' event)
           [(''payload'', update_obj payload
             [(''proposal_sha256'', get ''proposal_sha256'' decision),
              (''decision'', get ''decision'' decision),
              (''reason_codes'', get ''reason_codes'' decision),
              (''batch_records_sha256'', strs (sort (map digest_json records)))])])]))"

definition build_batch_write_plan :: "json \<Rightarrow> json \<Rightarrow> json \<Rightarrow> json res" where
  "build_batch_write_plan proposal authority decision =
     andthen (evaluate_write proposal authority) (\<lambda>v2_decision.
       if get ''decision'' v2_decision = JStr ''skip''
       then Inr (assemble_plan (plan_core (get ''base_revision'' proposal) v2_decision []) [])
       else
         andthen (build_plan_v1 (twin_v1 proposal) (twin_authority (twin_v1 proposal) authority) JNull)
           (\<lambda>base_plan.
             case find is_policy_event (list_items (get ''records'' base_plan)) of
               None \<Rightarrow> raise StopIteration ''next''
             | Some event \<Rightarrow>
                 andthen (rebind_event event v2_decision (list_items (get ''records'' proposal))) (\<lambda>event.
                   let records = map (batch_planned_item proposal) (list_items (get ''records'' proposal))
                                 @ [event]
                   in Inr (assemble_plan
                        (plan_core (get ''base_revision'' proposal) v2_decision records) records))))"

definition build_write_plan :: "json \<Rightarrow> json \<Rightarrow> json \<Rightarrow> json res" where
  "build_write_plan proposal authority decision =
     (if \<not> is_obj proposal then raise AttributeError ''get''
      else if is_batch proposal then build_batch_write_plan proposal authority decision
      else build_plan_v1 proposal authority decision)"

text \<open>\<open>verify_write_plan\<close>; the second handler turns the raw exceptions of the body into the code.\<close>

definition verify_write_plan :: "json \<Rightarrow> json \<Rightarrow> json \<Rightarrow> json \<Rightarrow> unit res" where
  "verify_write_plan plan proposal authority decision =
     except_as
       (\<lambda>e. exn_class e \<noteq> WritePolicyError
            \<and> (exn_class e \<in> {KeyError, TypeError} \<or> is_value_error e))
       (Exn WritePolicyError ''invalid_write_plan'' None)
       (andthen (validate_write_plan plan) (\<lambda>_.
        andthen (evaluate_write proposal authority) (\<lambda>expected_decision.
        andthen (verified_decision expected_decision decision) (\<lambda>checked.
        andthen (checks
          [ensure (get ''plan_fingerprint'' plan = JStr (digest_json (get ''core'' plan)))
             (Exn WritePolicyError ''write_plan_hash_mismatch'' None),
           ensure (get ''planned_records_sha256'' (get ''core'' plan)
                   = JStr (digest_json (get ''records'' plan)))
             (Exn WritePolicyError ''write_content_hash_mismatch'' None)]) (\<lambda>_.
        andthen (build_write_plan proposal authority checked) (\<lambda>expected.
          ensure (canonical_json plan = canonical_json expected)
            (Exn WritePolicyError ''write_plan_hash_mismatch'' None)))))))"

definition emit_write_authority_template :: "json \<Rightarrow> json res" where
  "emit_write_authority_template proposal =
     andthen (validate_write_proposal proposal) (\<lambda>_. Inr (mk_obj
       [(''schema'', JStr ''an-kla/write-authority-v1''),
        (''proposal_sha256'', JStr (digest_json proposal)),
        (''base_revision'', get ''base_revision'' proposal),
        (''authority_class'', JStr ''model_derived''),
        (''issuer'', mk_obj
           [(''kind'', JStr ''model''), (''id'', JStr ''agent-local''),
            (''configuration_fingerprint'', JStr (digest_json (mk_obj
               [(''kind'', JStr ''model''), (''id'', JStr ''agent-local''),
                (''profile'', JStr ''manual-cli/v1'')])))]),
        (''evidence'', JArr []),
        (''scope'', mk_obj
           [(''streams'', JArr [get ''stream'' proposal]),
            (''representations'', JArr [get ''requested_representation'' proposal]),
            (''operations'', JArr [get ''operation'' proposal])])]))"

section \<open>Facts\<close>

lemma get_write_decision [simp]:
  "get ''decision'' (write_decision ps as d rs) = JStr d"
  "get ''proposal_sha256'' (write_decision ps as d rs) = JStr ps"
  "get ''authority_sha256'' (write_decision ps as d rs) = JStr as"
  by (simp_all add: write_decision_def decision_object_def)

lemma get_batch_decision [simp]:
  "get ''decision'' (batch_decision p a d rs) = JStr d"
  "get ''proposal_sha256'' (batch_decision p a d rs) = JStr (digest_json p)"
  "get ''authority_sha256'' (batch_decision p a d rs) = JStr (digest_json a)"
  by (simp_all add: batch_decision_def decision_object_def)

lemma get_twin_v1 [simp]:
  "get ''stream'' (twin_v1 p) = get ''stream'' p"
  "get ''operation'' (twin_v1 p) = get ''operation'' p"
  "get ''requested_representation'' (twin_v1 p) = get ''requested_representation'' p"
  "get ''base_revision'' (twin_v1 p) = get ''base_revision'' p"
  "get ''record'' (twin_v1 p) = first_record p"
  "get ''schema'' (twin_v1 p) = JStr ''an-kla/write-proposal-v1''"
  by (simp_all add: twin_v1_def)

lemma get_twin_authority [simp]:
  assumes "is_obj a"
  shows "get ''scope'' (twin_authority t a) = get ''scope'' a"
    "get ''authority_class'' (twin_authority t a) = get ''authority_class'' a"
    "get ''evidence'' (twin_authority t a) = get ''evidence'' a"
    "get ''base_revision'' (twin_authority t a) = get ''base_revision'' a"
    "get ''proposal_sha256'' (twin_authority t a) = JStr (digest_json t)"
  using assms by (simp_all add: twin_authority_def)

lemma evaluate_write_v1_Inr_iff:
  "evaluate_write_v1 p a = Inr d \<longleftrightarrow>
     validate_proposal_v1 p = Inr () \<and> validate_write_authority a = Inr ()
     \<and> d = write_decision (digest_json p) (digest_json a) (fst (decide_write p a)) (snd (decide_write p a))"
  by (auto simp: evaluate_write_v1_def split: prod.splits)

lemma validate_proposal_v1_representation:
  "validate_proposal_v1 p = Inr () \<Longrightarrow> str_in (get ''requested_representation'' p) write_representations"
  by (simp add: validate_proposal_v1_def Let_def)

lemma evaluate_write_v1_authorised:
  assumes e: "evaluate_write_v1 p a = Inr d" and d: "get ''decision'' d \<noteq> JStr ''skip''"
  shows "authorised p a \<and> get ''proposal_sha256'' a = JStr (digest_json p)
     \<and> get ''base_revision'' a = get ''base_revision'' p
     \<and> get ''decision'' d = JStr (if get ''requested_representation'' p = JStr ''full''
                                  then ''write-full'' else ''write-summary'')"
proof -
  obtain dec rs where dr: "decide_write p a = (dec, rs)" by force
  with e d show ?thesis
    using decide_write_authorised[OF dr] validate_proposal_v1_representation[of p]
    by (simp add: evaluate_write_v1_Inr_iff)
qed

lemma evaluate_batch_writeD:
  assumes "evaluate_batch_write p a = Inr d"
  obtains td where "validate_batch_proposal p = Inr ()" "validate_write_authority a = Inr ()"
    "evaluate_write_v1 (twin_v1 p) (twin_authority (twin_v1 p) a) = Inr td"
    "get ''proposal_sha256'' d = JStr (digest_json p)" "get ''authority_sha256'' d = JStr (digest_json a)"
    "get ''decision'' d = JStr ''skip'' \<or> get ''decision'' d = get ''decision'' td
       \<and> get ''proposal_sha256'' a = JStr (digest_json p) \<and> get ''base_revision'' a = get ''base_revision'' p"
proof -
  from assms obtain td where
    v: "validate_batch_proposal p = Inr ()" "validate_write_authority a = Inr ()"
    and t: "evaluate_write_v1 (twin_v1 p) (twin_authority (twin_v1 p) a) = Inr td"
    and m: "(if get ''proposal_sha256'' a \<noteq> JStr (digest_json p)
               \<or> get ''base_revision'' a \<noteq> get ''base_revision'' p
             then d = batch_decision p a ''skip''
               (map str_of (list_items (get ''reason_codes'' td)) @ [''authority_scope_mismatch''])
             else d = batch_decision p a (str_of (get ''decision'' td))
               (map str_of (list_items (get ''reason_codes'' td))
                @ concat (map record_reasons (list_items (get ''records'' p)))))"
    by (auto simp: evaluate_batch_write_def Let_def split: if_split_asm)
  from t have "get ''decision'' td = JStr (str_of (get ''decision'' td))"
    by (auto simp: evaluate_write_v1_Inr_iff)
  with m show thesis using v t by (intro that) (auto split: if_split_asm)
qed

lemma evaluate_write_cases:
  assumes "evaluate_write p a = Inr d"
  obtains "is_obj p" "\<not> is_batch p" "evaluate_write_v1 p a = Inr d"
  | "is_batch p" "evaluate_batch_write p a = Inr d"
  using assms by (auto simp: evaluate_write_def split: if_split_asm)

text \<open>C5: No write without authority: whenever \<open>evaluate_write\<close> decides something other than
  \<open>skip\<close>, for a single record or for a batch, the authority is bound to the digest of exactly
  this proposal and to its base revision, its scope covers the stream, the operation and the
  representation, the operation is \<open>add\<close> or \<open>supersede\<close>, and the class allows it: either
  \<open>tool_observed\<close> with at least one verified, hashed piece of evidence, or a derived class that
  is limited to \<open>summary\<close> and, when derived from retrieval, to \<open>add\<close>.\<close>

theorem evaluate_write_authorised:
  assumes "evaluate_write p a = Inr d" "get ''decision'' d \<noteq> JStr ''skip''"
  shows "authorised p a \<and> get ''proposal_sha256'' a = JStr (digest_json p)
     \<and> get ''base_revision'' a = get ''base_revision'' p
     \<and> get ''decision'' d = JStr (if get ''requested_representation'' p = JStr ''full''
                                  then ''write-full'' else ''write-summary'')"
  using assms(1)
proof (cases rule: evaluate_write_cases)
  case 1
  then show ?thesis using evaluate_write_v1_authorised assms(2) by blast
next
  case 2
  then obtain td where a: "validate_write_authority a = Inr ()"
    and t: "evaluate_write_v1 (twin_v1 p) (twin_authority (twin_v1 p) a) = Inr td"
    and d: "get ''decision'' d = get ''decision'' td"
    and b: "get ''proposal_sha256'' a = JStr (digest_json p)" "get ''base_revision'' a = get ''base_revision'' p"
    using assms(2) by (elim evaluate_batch_writeD) auto
  have "is_obj a" using validate_write_authorityD(4)[OF a] .
  with evaluate_write_v1_authorised[OF t] d b assms(2) show ?thesis
    by (simp add: authorised_def)
qed

definition sample_base :: string where
  "sample_base = digest_bytes ''base''"

definition sample_on :: "string \<Rightarrow> json \<Rightarrow> json" where
  "sample_on stream r = mk_obj
     [(''schema'', JStr ''an-kla/write-proposal-v1''), (''base_revision'', JStr sample_base),
      (''stream'', JStr stream), (''operation'', JStr ''add''),
      (''requested_representation'', JStr ''full''), (''record'', r),
      (''lineage'', mk_obj [(''derived_from_retrieval'', JBool False), (''refs'', JArr [])])]"

abbreviation sample_write :: "json \<Rightarrow> json" where
  "sample_write \<equiv> sample_on ''facts''"

definition sample_proposal :: json where
  "sample_proposal = sample_write (mk_obj [(''id'', JStr ''f-1''), (''text'', JStr ''hola'')])"

definition sample_authority :: "json \<Rightarrow> json" where
  "sample_authority p = mk_obj
     [(''schema'', JStr ''an-kla/write-authority-v1''), (''proposal_sha256'', JStr (digest_json p)),
      (''base_revision'', JStr sample_base), (''authority_class'', JStr ''tool_observed''),
      (''issuer'', mk_obj [(''kind'', JStr ''tool''), (''id'', JStr ''t''),
                          (''configuration_fingerprint'', JStr sample_base)]),
      (''evidence'', JArr [mk_obj [(''kind'', JStr ''artifact''), (''id'', JStr ''a''),
                          (''resolution'', JStr ''verified''), (''sha256'', JStr sample_base)]]),
      (''scope'', mk_obj [(''streams'', strs [''facts'', ''events'']), (''representations'', strs [''full'']),
                         (''operations'', strs [''add''])])]"

lemma sample_base_shape [simp]: "digest_shape sample_base"
  by (simp add: sample_base_def)

lemmas sample_defs = validate_proposal_v1_def validate_record_fields_def validate_supersedes_v1_def
  validate_lineage_def validate_write_authority_def validate_issuer_def validate_scope_def
  validate_scope_list_def validate_evidence_def validate_json_value_def write_streams_def
  write_operations_def write_representations_def authority_schemas_def authority_classes_def
  allowed_issuer_kinds_def evidence_kinds_def Let_def

lemma sample_write_storable: "\<lbrakk>valid_utf8 st; storable r\<rbrakk> \<Longrightarrow> storable (sample_on st r)"
  unfolding sample_on_def by (intro storable_mk_obj) (auto simp: valid_utf8_ascii intro!: storable_mk_obj)

lemma sample_proposal_storable: "storable sample_proposal"
  unfolding sample_proposal_def
  by (intro sample_write_storable storable_mk_obj) (auto simp: valid_utf8_ascii)

lemma sample_authority_storable: "storable (sample_authority p)"
  unfolding sample_authority_def
  by (intro storable_mk_obj) (auto simp: valid_utf8_ascii intro!: storable_mk_obj)

lemma sample_write_valid:
  assumes "storable r" "height r \<le> 63" "node_count r \<le> 9900"
    "validate_record_fields r ''invalid_write_proposal'' ''record'' = Inr ()"
    and st: "st \<in> {''facts'', ''events''}"
  shows "validate_proposal_v1 (sample_on st r) = Inr ()"
proof -
  have "json_value_ok (sample_on st r)"
  proof (rule json_value_okI)
    show "storable (sample_on st r)" using assms(1) st by (intro sample_write_storable) (auto simp: valid_utf8_ascii)
    show "height (sample_on st r) \<le> MAX_JSON_DEPTH"
      unfolding sample_on_def limits_defs
      by (rule height_mk_obj_le) (use assms(2) in \<open>simp add: mk_obj_def\<close>)
    show "node_count (sample_on st r) \<le> MAX_JSON_NODES"
      unfolding sample_on_def limits_defs
      by (rule node_count_mk_obj[THEN order_trans]) (use assms(3) in \<open>simp add: mk_obj_def\<close>)
  qed
  then show ?thesis
    unfolding validate_proposal_v1_def Let_def validate_json_value_def
    using assms(4) st by simp (auto simp add: sample_on_def sample_defs)
qed

lemma sample_proposal_valid: "validate_proposal_v1 sample_proposal = Inr ()"
  unfolding sample_proposal_def
proof (rule sample_write_valid)
  show "storable (mk_obj [(''id'', JStr ''f-1''), (''text'', JStr ''hola'')])"
    by (intro storable_mk_obj) (simp add: valid_utf8_ascii)
qed (simp_all add: mk_obj_def validate_record_fields_def get_JObj has_key_def dict_keys_def)

lemma sample_authority_valid: "validate_write_authority (sample_authority p) = Inr ()"
proof -
  have "json_value_ok (sample_authority p)"
  proof (rule json_value_okI)
    show "storable (sample_authority p)" by (rule sample_authority_storable)
    show "height (sample_authority p) \<le> MAX_JSON_DEPTH"
      unfolding sample_authority_def limits_defs by (simp add: mk_obj_def)
    show "node_count (sample_authority p) \<le> MAX_JSON_NODES"
      unfolding sample_authority_def limits_defs by (simp add: mk_obj_def)
  qed
  then show ?thesis
    unfolding validate_write_authority_def Let_def validate_json_value_def
    by simp (simp add: sample_authority_def sample_defs)
qed

lemma sample_write_decision:
  "st \<in> {''facts'', ''events''} \<Longrightarrow>
   fst (decide_write (sample_on st r) (sample_authority (sample_on st r))) = ''write-full''"
  by (simp add: decide_write_def scope_mismatch_def authority_ladder_def accept_write_def Let_def
        sample_authority_def) (auto simp: sample_on_def)

lemma sample_write_single: "is_obj (sample_on st r)" "\<not> is_batch (sample_on st r)"
  by (simp_all add: is_batch_def sample_on_def)

lemma sample_write_evaluates:
  assumes "validate_proposal_v1 (sample_on st r) = Inr ()" "st \<in> {''facts'', ''events''}"
  shows "\<exists>e. evaluate_write_v1 (sample_on st r) (sample_authority (sample_on st r)) = Inr e
    \<and> get ''decision'' e = JStr ''write-full''"
  using assms sample_authority_valid sample_write_decision by (simp add: evaluate_write_v1_Inr_iff)

lemma evaluate_write_authorised_witness:
  "\<exists>d. evaluate_write sample_proposal (sample_authority sample_proposal) = Inr d \<and>
     get ''decision'' d = JStr ''write-full'' \<and>
     authorised sample_proposal (sample_authority sample_proposal)"
proof -
  let ?p = sample_proposal and ?a = "sample_authority sample_proposal"
  obtain d where "evaluate_write_v1 ?p ?a = Inr d" and d: "get ''decision'' d = JStr ''write-full''"
    using sample_write_evaluates sample_proposal_valid unfolding sample_proposal_def by blast
  then have e: "evaluate_write ?p ?a = Inr d"
    using sample_write_single unfolding sample_proposal_def by (simp add: evaluate_write_def)
  have "get ''decision'' d \<noteq> JStr ''skip''" using d by simp
  from evaluate_write_authorised[OF e this] e d show ?thesis by blast
qed

end
