(* ===== verification/PlanVerify.thy ===== *)
theory PlanVerify
  imports WriteBatch
begin

text \<open>
  The contract between the two ends of a write plan: what \<open>build_write_plan\<close> produces,
  \<open>verify_write_plan\<close> accepts, and what it accepts is what a rebuild produces. The lemmas follow
  the shape of a plan: the decision it carries, its core, its items.
\<close>

section \<open>The expected decision\<close>

definition expected_decision :: "json \<Rightarrow> json \<Rightarrow> json \<Rightarrow> bool" where
  "expected_decision p a d \<longleftrightarrow>
     (\<exists>dec rs. d = decision_object (digest_json p) (digest_json a) dec rs \<and> decision_ok dec rs)"

lemma write_decision_expected:
  "decision_ok dec rs \<Longrightarrow> expected_decision p a (write_decision (digest_json p) (digest_json a) dec rs)"
proof -
  assume ok: "decision_ok dec rs"
  then have "decision_ok dec (if dec \<noteq> ''skip'' then ''representation_accepted'' # rs else rs)"
    by (simp add: decision_ok_def known_reason_codes_def)
  then show ?thesis unfolding expected_decision_def write_decision_def by blast
qed

lemma evaluate_write_v1_expected: "evaluate_write_v1 p a = Inr d \<Longrightarrow> expected_decision p a d"
  using write_decision_expected[OF decide_write_ok] by (simp add: evaluate_write_v1_Inr_iff)

lemma record_reasons_known: "set (record_reasons r) \<subseteq> set known_reason_codes"
  by (auto simp: record_reasons_def known_reason_codes_def)

lemma evaluate_batch_write_expected:
  assumes "evaluate_batch_write p a = Inr d"
  shows "expected_decision p a d"
proof -
  from assms obtain td where
    t: "evaluate_write_v1 (twin_v1 p) (twin_authority (twin_v1 p) a) = Inr td"
    and m: "d = batch_decision p a ''skip''
               (map str_of (list_items (get ''reason_codes'' td)) @ [''authority_scope_mismatch'']) \<or>
            d = batch_decision p a (str_of (get ''decision'' td))
               (map str_of (list_items (get ''reason_codes'' td))
                @ concat (map record_reasons (list_items (get ''records'' p))))"
    by (auto simp: evaluate_batch_write_def Let_def split: if_split_asm)
  from evaluate_write_v1_expected[OF t] obtain ps as dec rs where
    td: "td = decision_object ps as dec rs" and ok: "decision_ok dec rs"
    by (auto simp: expected_decision_def)
  have rs: "map str_of (list_items (get ''reason_codes'' td)) = sorted_set rs"
    by (simp add: td decision_object_def map_idI)
  have k: "''authority_scope_mismatch'' \<in> set known_reason_codes"
    by (simp add: known_reason_codes_def)
  have "decision_ok ''skip'' (sorted_set rs @ [''authority_scope_mismatch''])"
    using ok k by (simp add: decision_ok_def)
  moreover have "decision_ok dec (sorted_set rs @ concat (map record_reasons (list_items (get ''records'' p))))"
    using ok record_reasons_known by (auto simp: decision_ok_def)
  moreover have "str_of (get ''decision'' td) = dec" by (simp add: td decision_object_def)
  ultimately show ?thesis
    using m unfolding rs expected_decision_def batch_decision_def by auto
qed

lemma evaluate_write_expected: "evaluate_write p a = Inr d \<Longrightarrow> expected_decision p a d"
  by (elim evaluate_write_cases) (auto intro: evaluate_write_v1_expected evaluate_batch_write_expected)

lemma expected_decisionD:
  assumes "expected_decision p a d"
  shows "validate_write_decision d = Inr ()" "storable d" "d \<noteq> JNull"
    "get ''proposal_sha256'' d = JStr (digest_json p)" "get ''authority_sha256'' d = JStr (digest_json a)"
    "get ''policy_fingerprint'' d = JStr policy_fingerprint"
    "\<exists>dec \<in> {''skip'', ''write-full'', ''write-summary''}. get ''decision'' d = JStr dec"
proof -
  from assms obtain dec rs where d: "d = decision_object (digest_json p) (digest_json a) dec rs"
    and ok: "decision_ok dec rs" by (auto simp: expected_decision_def)
  show "validate_write_decision d = Inr ()" "storable d"
    using validate_decision_object[OF ok] by (simp_all add: d)
  show "d \<noteq> JNull" by (simp add: d decision_object_def mk_obj_def)
  show "get ''proposal_sha256'' d = JStr (digest_json p)"
    "get ''authority_sha256'' d = JStr (digest_json a)"
    "get ''policy_fingerprint'' d = JStr policy_fingerprint"
    by (simp_all add: d decision_object_def)
  show "\<exists>dec \<in> {''skip'', ''write-full'', ''write-summary''}. get ''decision'' d = JStr dec"
    using ok by (auto simp: d decision_object_def decision_ok_def)
qed

lemma verified_decision_self:
  "validate_write_decision d = Inr () \<Longrightarrow> verified_decision d d = Inr d"
  by (simp add: verified_decision_def)

lemma verified_decision_null [simp]: "verified_decision e JNull = Inr e"
  by (simp add: verified_decision_def)

lemma verified_decisionD:
  assumes "verified_decision e d = Inr c" "d \<noteq> JNull"
  shows "c = d" "validate_write_decision d = Inr ()" "canonical_json d = canonical_json e"
    "get ''policy_fingerprint'' d = get ''policy_fingerprint'' e"
    "get ''proposal_sha256'' d = get ''proposal_sha256'' e"
    "get ''authority_sha256'' d = get ''authority_sha256'' e"
  using assms by (auto simp: verified_decision_def)

section \<open>Items\<close>

abbreviation valid_item :: "json \<Rightarrow> bool" where
  "valid_item item \<equiv> validate_plan_item item ''invalid_write_plan'' = Inr ()"

lemma validate_record_fields_id:
  "validate_record_fields r code pre = Inr () \<Longrightarrow> nonempty_obj r \<and> nonempty_str (get ''id'' r)"
  by (simp add: validate_record_fields_def)

lemma validate_proposal_v1D:
  assumes "validate_proposal_v1 p = Inr ()"
  shows "is_digest (get ''base_revision'' p)" "str_in (get ''stream'' p) write_streams"
    "str_in (get ''operation'' p) write_operations"
    "str_in (get ''requested_representation'' p) write_representations"
    "validate_record_fields (get ''record'' p) ''invalid_write_proposal'' ''record'' = Inr ()"
    "validate_supersedes_v1 p ''invalid_write_proposal'' = Inr ()"
  using assms by (simp_all add: validate_proposal_v1_def Let_def)

lemma planned_item_valid: "validate_proposal_v1 p = Inr () \<Longrightarrow> valid_item (planned_item p (get ''record'' p))"
  using validate_proposal_v1D[of p]
    validate_record_fields_id[of "get ''record'' p" "''invalid_write_proposal''" "''record''"]
  by (cases "get ''operation'' p = JStr ''supersede''")
    (simp_all add: validate_plan_item_def planned_item_def validate_supersedes_v1_def)

lemma policy_event_valid: "valid_item (policy_event d c)"
  by (simp add: validate_plan_item_def policy_event_def write_streams_def write_operations_def
      write_representations_def)

lemma validate_batch_proposalD:
  assumes "validate_batch_proposal p = Inr ()"
  shows "is_digest (get ''base_revision'' p)" "str_in (get ''stream'' p) write_streams"
    "str_in (get ''operation'' p) write_operations"
    "str_in (get ''requested_representation'' p) write_representations"
    "validate_batch_records (get ''records'' p) ''invalid_write_proposal'' = Inr ()"
    "validate_batch_supersedes p ''invalid_write_proposal'' = Inr ()"
  using assms
  by (simp_all add: validate_batch_proposal_def Let_def str_in_iff write_streams_def
      write_operations_def write_representations_def) auto

lemma validate_batch_recordsD:
  assumes "validate_batch_records v code = Inr ()" "r \<in> set (list_items v)"
  shows "nonempty_obj r \<and> nonempty_str (get ''id'' r)"
proof -
  obtain i where "(i, r) \<in> set (enumerate 0 (list_items v))"
    using assms(2) by (metis in_set_conv_nth length_enumerate nth_enumerate_eq nth_mem)
  with assms(1) have "validate_record_fields r code (''records['' @ show_nat i @ '']'') = Inr ()"
    by (fastforce simp: validate_batch_records_def Let_def checks_Inr_iff)
  then show ?thesis by (rule validate_record_fields_id)
qed

lemma batch_target:
  assumes s: "validate_batch_supersedes p code = Inr ()" and o: "get ''operation'' p = JStr ''supersede''"
    and r: "r \<in> set (list_items (get ''records'' p))"
  shows "nonempty_str (get (str_of (get ''id'' r)) (get ''supersedes'' p))"
    "get (str_of (get ''id'' r)) (get ''supersedes'' p) \<noteq> JStr (str_of (get ''id'' r))"
proof -
  let ?k = "str_of (get ''id'' r)" and ?s = "get ''supersedes'' p"
  have "?k \<in> set (sorted_set (map str_of (record_ids (list_items (get ''records'' p)))))"
    using r by (simp add: record_ids_def)
  then have "?k \<in> set (sorted_set (dict_keys ?s))"
    using s o by (simp add: validate_batch_supersedes_def Let_def)
  then have "(?k, get ?k ?s) \<in> set (dict_items ?s)"
    by (intro map_of_dict_items) (simp add: has_key_def)
  then show "nonempty_str (get ?k ?s)" "get ?k ?s \<noteq> JStr ?k"
    using s o by (auto simp: validate_batch_supersedes_def Let_def list_all_iff)
qed

lemma batch_planned_item_valid:
  assumes v: "validate_batch_proposal p = Inr ()" and r: "r \<in> set (list_items (get ''records'' p))"
  shows "valid_item (batch_planned_item p r)"
proof -
  note d = validate_batch_proposalD[OF v]
  have rec: "nonempty_obj r" "nonempty_str (get ''id'' r)"
    using validate_batch_recordsD[OF d(5) r] by auto
  then have i: "get ''id'' r = JStr (str_of (get ''id'' r))" by (auto simp: nonempty_str_iff)
  show ?thesis
  proof (cases "get ''operation'' p = JStr ''supersede''")
    case True
    note t = batch_target[OF d(6) True r]
    then have "get (str_of (get ''id'' r)) (get ''supersedes'' p) \<noteq> get ''id'' r" using i by simp
    with t d rec True show ?thesis
      by (simp add: validate_plan_item_def batch_planned_item_def)
  next
    case False
    with d rec show ?thesis by (simp add: validate_plan_item_def batch_planned_item_def)
  qed
qed

lemma has_key_update_obj: "is_obj v \<Longrightarrow> has_key k (update_obj v kvs) \<longleftrightarrow> k \<in> set (map fst kvs) \<or> has_key k v"
  unfolding has_key_def set_dict_keys_update_obj by simp

lemma nonempty_obj_update_obj: "nonempty_obj v \<Longrightarrow> nonempty_obj (update_obj v kvs)"
  by (cases v) auto

lemma nonempty_obj_is_obj: "nonempty_obj v \<Longrightarrow> is_obj v"
  by (cases v) auto

lemma has_key_nonempty_obj: "has_key k v \<Longrightarrow> nonempty_obj v"
  by (cases v) (auto simp: has_key_def dict_keys_def)

lemma rebind_event_valid:
  assumes e: "valid_item e" and r: "rebind_event e d rs = Inr e'"
  shows "valid_item e'"
proof -
  from e have o: "is_obj e" "nonempty_obj (get ''record'' e)"
    by (simp_all add: validate_plan_item_def)
  then have ro: "is_obj (get ''record'' e)" by (simp add: nonempty_obj_is_obj)
  from r obtain payload where e': "e' = update_obj e [(''record'',
      update_obj (get ''record'' e) [(''payload'', payload)])]"
    by (auto simp: rebind_event_def split: if_split_asm)
  have keys: "has_key k e' \<longleftrightarrow> k = ''record'' \<or> has_key k e" for k
    using o by (simp add: e' has_key_update_obj)
  have dk: "set (dict_keys e') = insert ''record'' (set (dict_keys e))"
    using o unfolding e' by (subst set_dict_keys_update_obj) simp_all
  have same: "k \<noteq> ''record'' \<Longrightarrow> get k e' = get k e" for k
    using o by (simp add: e')
  have rec: "get ''record'' e' = update_obj (get ''record'' e) [(''payload'', payload)]"
    using o by (simp add: e')
  have "get ''id'' (get ''record'' e') = get ''id'' (get ''record'' e)"
    "nonempty_obj (get ''record'' e')"
    using o ro by (simp_all add: rec nonempty_obj_update_obj)
  moreover have "is_obj e'" using o by (simp add: e')
  moreover have "get ''stream'' e' = get ''stream'' e" "get ''operation'' e' = get ''operation'' e"
    "get ''representation'' e' = get ''representation'' e" "get ''supersedes'' e' = get ''supersedes'' e"
    by (simp_all add: same)
  moreover have "has_key ''supersedes'' e' = has_key ''supersedes'' e" by (simp add: keys)
  moreover have "\<forall>k\<in>set [''stream'', ''operation'', ''representation'', ''record'']. has_key k e'"
    "\<forall>k\<in>set (dict_keys e'). k \<in> set [''stream'', ''operation'', ''representation'', ''record''] \<union> set [''supersedes'']"
    using e by (simp_all add: validate_plan_item_def keys dk)
  ultimately show ?thesis
    using e unfolding validate_plan_item_def checks_Cons_Inr_iff exact_keys_Inr_iff
    by (simp only: ensure_Inr_iff ensure_in_Inr_iff)
qed

section \<open>Built plans\<close>

lemma validate_write_decisionD:
  assumes "validate_write_decision d = Inr ()"
  shows "is_digest (get ''proposal_sha256'' d)" "is_digest (get ''authority_sha256'' d)"
    "is_digest (get ''policy_fingerprint'' d)"
    "str_in (get ''decision'' d) [''skip'', ''write-full'', ''write-summary'']"
  using assms by (simp_all add: validate_write_decision_def Let_def)

lemma get_plan_core [simp]:
  "get ''base_revision'' (plan_core base d rs) = base"
  "get ''proposal_sha256'' (plan_core base d rs) = get ''proposal_sha256'' d"
  "get ''authority_sha256'' (plan_core base d rs) = get ''authority_sha256'' d"
  "get ''policy_fingerprint'' (plan_core base d rs) = get ''policy_fingerprint'' d"
  "get ''decision'' (plan_core base d rs) = get ''decision'' d"
  "get ''decision_sha256'' (plan_core base d rs) = JStr (digest_json d)"
  "get ''planned_records_sha256'' (plan_core base d rs) = JStr (digest_json (JArr rs))"
  by (simp_all add: plan_core_def)

lemma plan_core_keys [simp]:
  "set (dict_keys (plan_core base d rs)) = {''base_revision'', ''proposal_sha256'',
     ''authority_sha256'', ''policy_fingerprint'', ''decision'', ''decision_sha256'',
     ''planned_records_sha256''}"
  "is_obj (plan_core base d rs)"
  by (auto simp: plan_core_def)

lemma validate_plan_core_valid:
  assumes "is_digest base" "validate_write_decision d = Inr ()"
  shows "validate_plan_core (plan_core base d records) code = Inr ()"
  using assms(1) validate_write_decisionD[OF assms(2)]
  by (simp add: validate_plan_core_def core_digest_fields_def has_key_def)

lemma get_assemble_plan [simp]:
  "get ''core'' (assemble_plan core rs) = core"
  "get ''records'' (assemble_plan core rs) = JArr rs"
  "get ''plan_fingerprint'' (assemble_plan core rs) = JStr (digest_json core)"
  "get ''schema'' (assemble_plan core rs) = JStr ''an-kla/write-plan-v1''"
  by (simp_all add: assemble_plan_def)

lemma assemble_plan_keys [simp]:
  "set (dict_keys (assemble_plan core rs)) = {''schema'', ''core'', ''records'', ''plan_fingerprint''}"
  "is_obj (assemble_plan core rs)"
  by (auto simp: assemble_plan_def)

lemma validate_write_plan_valid:
  assumes "validate_plan_core core ''invalid_write_plan'' = Inr ()" "\<forall>item\<in>set rs. valid_item item"
    "json_value_ok (assemble_plan core rs)"
  shows "validate_write_plan (assemble_plan core rs) = Inr ()"
  using assms by (simp add: validate_write_plan_def Let_def has_key_def validate_json_value_def)

lemma verified_decision_valid:
  assumes "expected_decision p a e" "verified_decision e d = Inr c"
  shows "validate_write_decision c = Inr ()" "c \<noteq> JNull"
  using assms expected_decisionD(1,3)[OF assms(1)] verified_decisionD[OF assms(2)]
  by (cases "d = JNull"; auto)+

text \<open>The parts of a built plan: the checked decision and the planned items.\<close>

definition plan_of :: "json \<Rightarrow> json \<Rightarrow> json list \<Rightarrow> json" where
  "plan_of base d rs = assemble_plan (plan_core base d rs) rs"

lemma build_plan_v1D:
  assumes "build_plan_v1 p a d = Inr plan"
  obtains e c where "evaluate_write_v1 p a = Inr e" "verified_decision e d = Inr c"
    "plan = plan_of (get ''base_revision'' p) c (planned_records_v1 p a c)"
    "\<forall>item \<in> set (planned_records_v1 p a c). valid_item item" "is_digest (get ''base_revision'' p)"
proof -
  from assms obtain e c where ec: "evaluate_write_v1 p a = Inr e" "verified_decision e d = Inr c"
    and plan: "plan = plan_of (get ''base_revision'' p) c (planned_records_v1 p a c)"
    by (auto simp: build_plan_v1_def plan_of_def Let_def)
  have v: "validate_proposal_v1 p = Inr ()" using ec(1) by (simp add: evaluate_write_v1_Inr_iff)
  have "\<forall>item \<in> set (planned_records_v1 p a c). valid_item item"
    using planned_item_valid[OF v] policy_event_valid by (auto simp: planned_records_v1_def)
  then show thesis using that ec plan validate_proposal_v1D(1)[OF v] by blast
qed

lemma build_batch_planD:
  assumes "build_batch_write_plan p a d = Inr plan"
    and batch: "is_batch p"
  obtains e rs where "evaluate_batch_write p a = Inr e"
    "plan = plan_of (get ''base_revision'' p) e rs"
    "\<forall>item \<in> set rs. valid_item item" "is_digest (get ''base_revision'' p)"
proof -
  have ev: "evaluate_write p a = evaluate_batch_write p a"
    using batch by (simp add: evaluate_write_def is_batch_def)
  from assms obtain e where e: "evaluate_batch_write p a = Inr e"
    by (auto simp: build_batch_write_plan_def ev)
  then have v: "validate_batch_proposal p = Inr ()" by (elim evaluate_batch_writeD)
  note base = validate_batch_proposalD(1)[OF v]
  show thesis
  proof (cases "get ''decision'' e = JStr ''skip''")
    case True
    with assms e have "plan = plan_of (get ''base_revision'' p) e []"
      by (simp add: build_batch_write_plan_def ev plan_of_def)
    then show thesis using that e base by simp
  next
    case False
    with assms e obtain bp ev1 ev2 where
      bp: "build_plan_v1 (twin_v1 p) (twin_authority (twin_v1 p) a) JNull = Inr bp"
      and f: "find is_policy_event (list_items (get ''records'' bp)) = Some ev1"
      and r: "rebind_event ev1 e (list_items (get ''records'' p)) = Inr ev2"
      and plan: "plan = plan_of (get ''base_revision'' p) e
         (map (batch_planned_item p) (list_items (get ''records'' p)) @ [ev2])"
      by (auto simp: build_batch_write_plan_def ev plan_of_def Let_def split: option.splits)
    from bp obtain c where items: "\<forall>item \<in> set (planned_records_v1 (twin_v1 p)
        (twin_authority (twin_v1 p) a) c). valid_item item"
      and bpe: "bp = plan_of (get ''base_revision'' (twin_v1 p)) c
        (planned_records_v1 (twin_v1 p) (twin_authority (twin_v1 p) a) c)"
      by (elim build_plan_v1D)
    have "ev1 \<in> set (list_items (get ''records'' bp))"
      using f by (auto simp: find_Some_iff)
    then have "valid_item ev1" using items by (simp add: bpe plan_of_def)
    then have "valid_item ev2" using r by (rule rebind_event_valid)
    then have "\<forall>item \<in> set (map (batch_planned_item p) (list_items (get ''records'' p)) @ [ev2]).
        valid_item item"
      using batch_planned_item_valid[OF v] by auto
    then show thesis using that e plan base by blast
  qed
qed

lemma evaluate_write_not_batch:
  "is_obj p \<Longrightarrow> \<not> is_batch p \<Longrightarrow> evaluate_write p a = evaluate_write_v1 p a"
  by (simp add: evaluate_write_def)

lemma evaluate_write_batch: "is_batch p \<Longrightarrow> evaluate_write p a = evaluate_batch_write p a"
  by (simp add: evaluate_write_def is_batch_def)

lemma build_write_plan_cases:
  assumes "build_write_plan p a d = Inr plan"
  obtains (single) "is_obj p" "\<not> is_batch p" "build_plan_v1 p a d = Inr plan"
  | (batch) "is_obj p" "is_batch p" "build_batch_write_plan p a d = Inr plan"
  using assms by (auto simp: build_write_plan_def split: if_split_asm)

text \<open>What every built plan is, for both kinds of proposal.\<close>

lemma build_write_planD:
  assumes "build_write_plan p a d = Inr plan"
  obtains e c rs where "evaluate_write p a = Inr e" "is_batch p \<or> verified_decision e d = Inr c"
    "is_batch p \<longrightarrow> c = e" "plan = plan_of (get ''base_revision'' p) c rs"
    "\<forall>item \<in> set rs. valid_item item" "is_digest (get ''base_revision'' p)"
    "validate_write_decision c = Inr ()"
  using assms
proof (cases rule: build_write_plan_cases)
  case single
  from single(3) obtain e c where "evaluate_write_v1 p a = Inr e" "verified_decision e d = Inr c"
    "plan = plan_of (get ''base_revision'' p) c (planned_records_v1 p a c)"
    "\<forall>item \<in> set (planned_records_v1 p a c). valid_item item" "is_digest (get ''base_revision'' p)"
    by (rule build_plan_v1D)
  with single verified_decision_valid[OF evaluate_write_v1_expected] show thesis
    by (intro that) (auto simp: evaluate_write_not_batch)
next
  case batch
  from batch(3,2) obtain e rs where "evaluate_batch_write p a = Inr e"
    "plan = plan_of (get ''base_revision'' p) e rs"
    "\<forall>item \<in> set rs. valid_item item" "is_digest (get ''base_revision'' p)"
    by (rule build_batch_planD)
  with batch expected_decisionD(1)[OF evaluate_batch_write_expected] show thesis
    by (intro that) (auto simp: evaluate_write_batch)
qed

lemma rebuild_with_checked:
  assumes "build_write_plan p a d = Inr plan" "evaluate_write p a = Inr e" "verified_decision e d = Inr c"
  shows "build_write_plan p a c = Inr plan"
  using assms(1)
proof (cases rule: build_write_plan_cases)
  case single
  have e: "evaluate_write_v1 p a = Inr e" using assms(2) single by (simp add: evaluate_write_not_batch)
  note v = verified_decision_valid[OF evaluate_write_v1_expected[OF e] assms(3)]
  have "verified_decision e c = Inr c"
  proof (cases "d = JNull")
    case True
    with assms(3) have "c = e" by simp
    then show ?thesis using v verified_decision_self by simp
  next
    case False
    with assms(3) verified_decisionD(1)[OF assms(3) False] show ?thesis by simp
  qed
  with single e assms(3) show ?thesis
    by (simp add: build_write_plan_def build_plan_v1_def)
qed (simp add: build_write_plan_def build_batch_write_plan_def)

lemma rebuild_from_checked:
  assumes "build_write_plan p a c = Inr plan" "evaluate_write p a = Inr e" "verified_decision e d = Inr c"
  shows "build_write_plan p a d = Inr plan"
  using assms(1)
proof (cases rule: build_write_plan_cases)
  case single
  have e: "evaluate_write_v1 p a = Inr e" using assms(2) single by (simp add: evaluate_write_not_batch)
  note v = verified_decision_valid[OF evaluate_write_v1_expected[OF e] assms(3)]
  from single(3) e v(2) have "verified_decision e c = Inr c"
    by (auto simp: build_plan_v1_def verified_decision_def)
  with single e assms(3) show ?thesis
    by (simp add: build_write_plan_def build_plan_v1_def)
qed (simp add: build_write_plan_def build_batch_write_plan_def)

section \<open>The size of a plan\<close>

lemma node_count_strs: "sum_list (map (node_count \<circ> JStr) xs) = length xs"
  by (induction xs) auto

lemma height_get: "has_key k v \<Longrightarrow> Suc (height (get k v)) \<le> height v"
proof (cases v)
  case (JObj m)
  assume "has_key k v"
  then have "(k, get k v) \<in> set m" using JObj map_of_dict_items[of k v] by simp
  then show ?thesis using JObj foldr_max_le[of 0 "\<lambda>kv. height (snd kv)" m "height v"] by force
qed (auto simp: has_key_def dict_keys_def)

lemma height_elem: "x \<in> set xs \<Longrightarrow> Suc (height x) \<le> height (JArr xs)"
  using foldr_max_le[of 0 height xs "height (JArr xs)"] by auto

lemma expected_decision_atoms:
  assumes "expected_decision p a d"
  shows "k \<in> {''proposal_sha256'', ''authority_sha256'', ''policy_fingerprint'', ''policy_profile'', ''decision''}
      \<Longrightarrow> node_count (get k d) = 1 \<and> height (get k d) = 0"
    "node_count (get ''reason_codes'' d) \<le> 14" "height (get ''reason_codes'' d) \<le> 1"
proof -
  from assms obtain dec rs where d: "d = decision_object (digest_json p) (digest_json a) dec rs"
    and ok: "decision_ok dec rs" by (auto simp: expected_decision_def)
  show "k \<in> {''proposal_sha256'', ''authority_sha256'', ''policy_fingerprint'', ''policy_profile'', ''decision''}
      \<Longrightarrow> node_count (get k d) = 1 \<and> height (get k d) = 0"
    by (auto simp: d decision_object_def)
  have "length (sorted_set rs) \<le> 13"
    using ok sorted_set_length_le[of rs known_reason_codes] by (simp add: decision_ok_def known_reason_codes_def)
  then show "node_count (get ''reason_codes'' d) \<le> 14"
    by (simp add: d decision_object_def node_count_strs)
  show "height (get ''reason_codes'' d) \<le> 1"
    unfolding d decision_object_def by (simp del: height.simps) (rule height_JArr_le, auto)
qed

lemma planned_item_size:
  assumes v: "validate_proposal_v1 p = Inr ()"
  shows "node_count (planned_item p r) \<le> node_count r + 5"
    "height r \<le> n \<Longrightarrow> height (planned_item p r) \<le> Suc n"
proof -
  have s: "is_str (get ''stream'' p)" "is_str (get ''operation'' p)"
    "is_str (get ''requested_representation'' p)"
    using validate_proposal_v1D[OF v] by (auto simp: str_in_iff)
  have t: "get ''operation'' p = JStr ''supersede'' \<Longrightarrow> is_str (get ''supersedes'' p)"
    using validate_proposal_v1D(6)[OF v] by (auto simp: validate_supersedes_v1_def nonempty_str_iff)
  have a: "is_str x \<Longrightarrow> node_count x = 1 \<and> height x = 0" for x by (cases x) auto
  show "node_count (planned_item p r) \<le> node_count r + 5"
    unfolding planned_item_def
    by (rule node_count_mk_obj[THEN order_trans]) (use a[OF s(1)] a[OF s(2)] a[OF s(3)] a[OF t] in auto)
  show "height r \<le> n \<Longrightarrow> height (planned_item p r) \<le> Suc n"
    unfolding planned_item_def
    by (rule height_mk_obj_le) (use a[OF s(1)] a[OF s(2)] a[OF s(3)] a[OF t] in auto)
qed

lemma policy_event_size:
  assumes e: "expected_decision p a d" and c: "is_str c"
  shows "node_count (policy_event d c) \<le> 40" "height (policy_event d c) \<le> 4"
proof -
  have a: "node_count c = 1 \<and> height c = 0" using c by (cases c) auto
  note x = expected_decision_atoms[OF e]
  show "node_count (policy_event d c) \<le> 40"
    unfolding policy_event_def
    apply (rule node_count_mk_obj[THEN order_trans])
    apply simp
    apply (rule node_count_mk_obj[THEN order_trans])
    apply simp
    apply (rule node_count_mk_obj[THEN order_trans])
    using a x(1) x(2) by simp
  show "height (policy_event d c) \<le> 4"
    unfolding policy_event_def
    apply (rule height_mk_obj_le)
    apply simp
    apply (rule height_mk_obj_le)
    apply simp
    apply (rule height_mk_obj_le)
    using a x(1) x(3) by simp
qed

lemma evaluate_write_v1_authority_class:
  "evaluate_write_v1 p a = Inr e \<Longrightarrow> is_str (get ''authority_class'' a)"
  using validate_write_authorityD(2)[of a] by (auto simp: evaluate_write_v1_Inr_iff)

lemma plan_size:
  assumes e: "evaluate_write_v1 p a = Inr d" and h: "height (get ''record'' p) \<le> 61"
    and n: "node_count (get ''record'' p) \<le> 9900"
  shows "height (plan_of (get ''base_revision'' p) d (planned_records_v1 p a d)) \<le> MAX_JSON_DEPTH
    \<and> node_count (plan_of (get ''base_revision'' p) d (planned_records_v1 p a d)) \<le> MAX_JSON_NODES"
proof -
  have v: "validate_proposal_v1 p = Inr ()" using e by (simp add: evaluate_write_v1_Inr_iff)
  note x = evaluate_write_v1_expected[OF e]
  have base: "node_count (get ''base_revision'' p) = 1 \<and> height (get ''base_revision'' p) = 0"
    using validate_proposal_v1D(1)[OF v] by (cases "get ''base_revision'' p") (auto simp: is_digest_def)
  let ?rs = "planned_records_v1 p a d"
  have "height (planned_item p (get ''record'' p)) \<le> 62"
    using planned_item_size(2)[OF v h] by simp
  moreover have "height (policy_event d (get ''authority_class'' a)) \<le> 62"
    using policy_event_size(2)[OF x evaluate_write_v1_authority_class[OF e]] by simp
  ultimately have "\<forall>item\<in>set ?rs. Suc (height item) \<le> 63"
    by (auto simp: planned_records_v1_def)
  then have hr: "height (JArr ?rs) \<le> 63" by (rule height_JArr_le)
  have nr: "node_count (JArr ?rs) \<le> 9950"
    using planned_item_size(1)[OF v, of "get ''record'' p"] n
      policy_event_size(1)[OF x evaluate_write_v1_authority_class[OF e]]
    by (simp add: planned_records_v1_def)
  have hc: "height (plan_core (get ''base_revision'' p) d ?rs) \<le> 1"
    unfolding plan_core_def by (rule height_mk_obj_le) (use base expected_decision_atoms(1)[OF x] in auto)
  have nc: "node_count (plan_core (get ''base_revision'' p) d ?rs) \<le> 8"
    unfolding plan_core_def
    by (rule node_count_mk_obj[THEN order_trans]) (use base expected_decision_atoms(1)[OF x] in simp)
  have "height (assemble_plan (plan_core (get ''base_revision'' p) d ?rs) ?rs) \<le> 64"
    unfolding assemble_plan_def by (rule height_mk_obj_le) (use hr hc in \<open>simp del: height.simps(2)\<close>)
  moreover have "node_count (assemble_plan (plan_core (get ''base_revision'' p) d ?rs) ?rs) \<le> 10000"
    unfolding assemble_plan_def
    by (rule node_count_mk_obj[THEN order_trans]) (use nr nc in simp)
  ultimately show ?thesis by (simp add: plan_of_def limits_defs)
qed

lemma plan_storable:
  assumes x: "storable d" and b: "storable base" and r: "\<forall>item\<in>set rs. storable item"
  shows "storable (plan_of base d rs)"
proof -
  have "storable (plan_core base d rs)"
    unfolding plan_core_def using x b by (intro storable_mk_obj) (auto simp: valid_utf8_ascii)
  then show ?thesis
    unfolding plan_of_def assemble_plan_def using r by (intro storable_mk_obj) (auto simp: valid_utf8_ascii)
qed

lemma planned_records_storable:
  assumes "storable p" "storable a" "storable d" "expected_decision p a d"
  shows "\<forall>item\<in>set (planned_records_v1 p a d). storable item"
proof -
  have "storable (planned_item p (get ''record'' p))"
    unfolding planned_item_def using assms(1) by (intro storable_mk_obj) (auto simp: valid_utf8_ascii)
  moreover have "valid_utf8 (''e-write-policy-'' @ drop 7 (digest_json p))"
    using valid_utf8_lower_hex[of "drop 7 (digest_json p)"] digest_shape_digest_json[of p]
    by (intro valid_utf8_append) (auto simp: valid_utf8_ascii digest_shape_def)
  then have "storable (policy_event d (get ''authority_class'' a))"
    unfolding policy_event_def using assms(2,3) expected_decisionD(4)[OF assms(4)]
    by (intro storable_mk_obj) (auto simp: valid_utf8_ascii intro!: storable_mk_obj storable_get)
  ultimately show ?thesis by (auto simp: planned_records_v1_def)
qed

lemma build_single:
  "\<lbrakk>is_obj p; \<not> is_batch p; evaluate_write_v1 p a = Inr e\<rbrakk> \<Longrightarrow>
   build_write_plan p a JNull = Inr (plan_of (get ''base_revision'' p) e (planned_records_v1 p a e))"
  by (simp add: build_write_plan_def build_plan_v1_def plan_of_def Let_def)

lemma small_plan_ok:
  assumes e: "evaluate_write_v1 p a = Inr e" and s: "storable p" "storable a"
    and l: "height (get ''record'' p) \<le> 61" "node_count (get ''record'' p) \<le> 9900"
  shows "json_value_ok (plan_of (get ''base_revision'' p) e (planned_records_v1 p a e))"
proof (rule json_value_okI)
  note x = evaluate_write_v1_expected[OF e]
  note d = expected_decisionD(2)[OF x]
  show "storable (plan_of (get ''base_revision'' p) e (planned_records_v1 p a e))"
    using plan_storable[OF d storable_get[OF s(1)]] planned_records_storable[OF s d x] by blast
qed (use plan_size[OF e l] in blast)+

section \<open>Properties\<close>

text \<open>C6: What is planned can be committed. A plan that \<open>build_write_plan\<close> returns, as long as it stays
  within the limits of a JSON value, passes \<open>verify_write_plan\<close> on the same inputs: always for a single
  record, with or without a caller's decision; and for a batch exactly when the caller's decision is absent
  or agrees with the evaluated one, because the builder of a batch does not look at the caller's decision
  and only the verifier does.\<close>

theorem built_plan_verifies:
  assumes b: "build_write_plan p a d = Inr plan" and ok: "json_value_ok plan"
  shows "verify_write_plan plan p a d = Inr () \<longleftrightarrow>
    (if is_batch p then \<exists>e c. evaluate_write p a = Inr e \<and> verified_decision e d = Inr c else True)"
proof -
  from b obtain e c rs where e: "evaluate_write p a = Inr e"
    and c: "is_batch p \<or> verified_decision e d = Inr c" "is_batch p \<longrightarrow> c = e"
    and plan: "plan = plan_of (get ''base_revision'' p) c rs"
    and items: "\<forall>item \<in> set rs. valid_item item" and base: "is_digest (get ''base_revision'' p)"
    and dv: "validate_write_decision c = Inr ()"
    by (rule build_write_planD)
  have core: "validate_plan_core (plan_core (get ''base_revision'' p) c rs) ''invalid_write_plan'' = Inr ()"
    using base dv by (rule validate_plan_core_valid)
  have v: "validate_write_plan plan = Inr ()"
    using validate_write_plan_valid[OF core items] ok unfolding plan plan_of_def by simp
  have "verify_write_plan plan p a d = Inr ()" if vd: "verified_decision e d = Inr c'" for c'
    unfolding verify_write_plan_def using v e vd rebuild_with_checked[OF b e vd] by (simp add: plan plan_of_def)
  moreover have "\<exists>c. verified_decision e d = Inr c" if "verify_write_plan plan p a d = Inr ()"
    using that e by (auto simp: verify_write_plan_def)
  ultimately show ?thesis using e c(1) by auto
qed

lemma sample_evaluates:
  "\<exists>e. evaluate_write_v1 sample_proposal (sample_authority sample_proposal) = Inr e"
  using sample_write_evaluates sample_proposal_valid unfolding sample_proposal_def by blast

lemma sample_is_single: "is_obj sample_proposal" "\<not> is_batch sample_proposal"
  using sample_write_single by (simp_all add: sample_proposal_def)

lemma built_plan_verifies_witness:
  "\<exists>plan. build_write_plan sample_proposal (sample_authority sample_proposal) JNull = Inr plan \<and>
     verify_write_plan plan sample_proposal (sample_authority sample_proposal) JNull = Inr ()"
proof -
  let ?p = sample_proposal and ?a = "sample_authority sample_proposal"
  obtain e where e: "evaluate_write_v1 ?p ?a = Inr e" using sample_evaluates by blast
  have l: "height (get ''record'' ?p) \<le> 61" "node_count (get ''record'' ?p) \<le> 9900"
    by (simp_all add: sample_proposal_def sample_on_def) (simp_all add: mk_obj_def)
  note b = build_single[OF sample_is_single e]
  from built_plan_verifies[OF b small_plan_ok[OF e sample_proposal_storable sample_authority_storable l]]
  show ?thesis using b sample_is_single(2) by auto
qed

text \<open>Only what was planned is committed: when \<open>verify_write_plan\<close> accepts a plan, rebuilding
  it from the same proposal, authority and decision gives a plan with the same canonical text,
  hence, for values read from JSON, the same plan; its fingerprint is the digest of its core and
  its core names the digest of its records.\<close>

theorem verify_write_plan_sound:
  assumes "verify_write_plan plan p a d = Inr ()"
  shows "\<exists>expected. build_write_plan p a d = Inr expected
      \<and> canonical_json plan = canonical_json expected
      \<and> get ''plan_fingerprint'' plan = JStr (digest_json (get ''core'' plan))
      \<and> get ''planned_records_sha256'' (get ''core'' plan) = JStr (digest_json (get ''records'' plan))
      \<and> json_value_ok plan"
proof -
  from assms obtain e c expected where e: "evaluate_write p a = Inr e" "verified_decision e d = Inr c"
    and b: "build_write_plan p a c = Inr expected"
    and eq: "canonical_json plan = canonical_json expected"
    and v: "validate_write_plan plan = Inr ()"
    and f: "get ''plan_fingerprint'' plan = JStr (digest_json (get ''core'' plan))"
      "get ''planned_records_sha256'' (get ''core'' plan) = JStr (digest_json (get ''records'' plan))"
    by (auto simp: verify_write_plan_def)
  have "json_value_ok plan" using v by (simp add: validate_write_plan_def Let_def validate_json_value_def)
  with rebuild_from_checked[OF b e] eq f show ?thesis by blast
qed

lemma verify_write_plan_sound_witness:
  "\<exists>plan. verify_write_plan plan sample_proposal (sample_authority sample_proposal) JNull = Inr ()
     \<and> (\<exists>expected. build_write_plan sample_proposal (sample_authority sample_proposal) JNull = Inr expected
          \<and> canonical_json plan = canonical_json expected)"
proof -
  let ?p = sample_proposal and ?a = "sample_authority sample_proposal"
  obtain e where e: "evaluate_write_v1 ?p ?a = Inr e" using sample_evaluates by blast
  have l: "height (get ''record'' ?p) \<le> 61" "node_count (get ''record'' ?p) \<le> 9900"
    by (simp_all add: sample_proposal_def sample_on_def) (simp_all add: mk_obj_def)
  let ?plan = "plan_of (get ''base_revision'' ?p) e (planned_records_v1 ?p ?a e)"
  note x = evaluate_write_v1_expected[OF e]
  have ev: "evaluate_write ?p ?a = Inr e" using e sample_is_single by (simp add: evaluate_write_not_batch)
  note b = build_single[OF sample_is_single e]
  have vd: "verified_decision e e = Inr e" using expected_decisionD(1)[OF x] by (rule verified_decision_self)
  have core: "validate_plan_core (plan_core (get ''base_revision'' ?p) e (planned_records_v1 ?p ?a e))
      ''invalid_write_plan'' = Inr ()"
    using validate_proposal_v1D(1)[OF sample_proposal_valid] expected_decisionD(1)[OF x]
    by (rule validate_plan_core_valid)
  have items: "\<forall>item\<in>set (planned_records_v1 ?p ?a e). valid_item item"
    using planned_item_valid[OF sample_proposal_valid] policy_event_valid by (auto simp: planned_records_v1_def)
  have v: "validate_write_plan ?plan = Inr ()"
    using validate_write_plan_valid[OF core items]
      small_plan_ok[OF e sample_proposal_storable sample_authority_storable l]
    by (simp add: plan_of_def)
  have "verify_write_plan ?plan ?p ?a JNull = Inr ()"
    unfolding verify_write_plan_def using v ev vd rebuild_with_checked[OF b ev verified_decision_null]
    by (simp add: plan_of_def)
  from this verify_write_plan_sound[OF this] show ?thesis by blast
qed

lemma plan_item_height:
  "\<lbrakk>item \<in> set rs; has_key ''record'' item\<rbrakk> \<Longrightarrow>
   height (get ''record'' item) + 3 \<le> height (plan_of base d rs)"
proof -
  assume i: "item \<in> set rs" and k: "has_key ''record'' item"
  have "Suc (height (get ''records'' (plan_of base d rs))) \<le> height (plan_of base d rs)"
    by (rule height_get) (simp add: has_key_def plan_of_def)
  moreover have "get ''records'' (plan_of base d rs) = JArr rs" by (simp add: plan_of_def)
  ultimately show ?thesis using height_elem[OF i] height_get[OF k] by simp
qed

text \<open>C8: The depth limit is not the same at the two ends: the record sits at depth 1 of a proposal
  and at depth 3 of a plan, so a record of height 62 or 63 passes the proposal's limit of 64, is
  evaluated and planned, and then the plan built from it is always rejected as
  \<open>invalid_write_plan\<close> with detail \<open>plan:invalid_json\<close>.\<close>

theorem deep_record_plan_rejected:
  assumes "is_obj p" "\<not> is_batch p" and e: "evaluate_write p a = Inr e"
    and ns: "get ''decision'' e \<noteq> JStr ''skip''" and h: "61 < height (get ''record'' p)"
  shows "\<exists>plan. build_write_plan p a JNull = Inr plan \<and>
     verify_write_plan plan p a JNull
       = Inl (Exn WritePolicyError ''invalid_write_plan'' (Some ''plan:invalid_json''))"
proof -
  have e1: "evaluate_write_v1 p a = Inr e" using assms by (simp add: evaluate_write_not_batch)
  let ?rs = "planned_records_v1 p a e" and ?base = "get ''base_revision'' p"
  note b = build_single[OF assms(1,2) e1]
  have v: "validate_proposal_v1 p = Inr ()" using e1 by (simp add: evaluate_write_v1_Inr_iff)
  note x = evaluate_write_v1_expected[OF e1]
  have core: "validate_plan_core (plan_core ?base e ?rs) ''invalid_write_plan'' = Inr ()"
    using validate_proposal_v1D(1)[OF v] expected_decisionD(1)[OF x] by (rule validate_plan_core_valid)
  have items: "\<forall>item\<in>set ?rs. valid_item item"
    using planned_item_valid[OF v] policy_event_valid by (auto simp: planned_records_v1_def)
  have "planned_item p (get ''record'' p) \<in> set ?rs" using ns by (simp add: planned_records_v1_def)
  moreover have "has_key ''record'' (planned_item p (get ''record'' p))"
    "get ''record'' (planned_item p (get ''record'' p)) = get ''record'' p"
    by (simp_all add: planned_item_def)
  ultimately have "64 < height (plan_of ?base e ?rs)"
    using h plan_item_height[of "planned_item p (get ''record'' p)" ?rs ?base e] by simp
  then have nok: "\<not> json_value_ok (plan_of ?base e ?rs)" by (simp add: json_value_ok_iff limits_defs)
  have "validate_write_plan (plan_of ?base e ?rs) = Inl (wpe ''invalid_write_plan'' ''plan:invalid_json'')"
  proof -
    have "exact_keys WritePolicyError (assemble_plan (plan_core ?base e ?rs) ?rs)
        [''schema'', ''core'', ''records'', ''plan_fingerprint''] [] ''invalid_write_plan'' ''plan:keys'' = Inr ()"
      by (simp add: has_key_def)
    note keys = this
    have items: "each (\<lambda>item. validate_plan_item item ''invalid_write_plan'') ?rs = Inr ()"
      using items by simp
    show ?thesis
      using nok
      by (simp add: validate_write_plan_def Let_def checks.simps(2) validate_json_value_def plan_of_def
          ensure_def keys items core del: exact_keys_Inr_iff each_Inr_iff)
  qed
  then show ?thesis using b by (simp add: verify_write_plan_def except_as_def)
qed

text \<open>A proposal whose record nests 61 lists in a dict.\<close>

fun nested :: "nat \<Rightarrow> json" where
  "nested 0 = JNull"
| "nested (Suc n) = JArr [nested n]"

lemma nested_facts [simp]: "height (nested n) = n" "node_count (nested n) = n + 1" "storable (nested n)"
  by (induction n) auto

definition deep_record :: json where
  "deep_record = mk_obj [(''id'', JStr ''f-1''), (''x'', nested 61)]"

lemma deep_record_facts: "storable deep_record" "height deep_record = 62" "node_count deep_record = 64"
  "validate_record_fields deep_record ''invalid_write_proposal'' ''record'' = Inr ()"
proof -
  show "storable deep_record"
    unfolding deep_record_def by (intro storable_mk_obj) (simp add: valid_utf8_ascii)
qed (simp_all add: deep_record_def mk_obj_def validate_record_fields_def get_JObj has_key_def dict_keys_def)

lemma deep_record_plan_rejected_witness:
  "\<exists>plan. build_write_plan (sample_write deep_record) (sample_authority (sample_write deep_record)) JNull
       = Inr plan \<and>
     verify_write_plan plan (sample_write deep_record) (sample_authority (sample_write deep_record)) JNull
       = Inl (Exn WritePolicyError ''invalid_write_plan'' (Some ''plan:invalid_json''))"
proof -
  let ?p = "sample_write deep_record"
  have v: "validate_proposal_v1 ?p = Inr ()"
    by (rule sample_write_valid) (simp_all add: deep_record_facts)
  obtain e where "evaluate_write_v1 ?p (sample_authority ?p) = Inr e"
    and d: "get ''decision'' e = JStr ''write-full''"
    using sample_write_evaluates[OF v] by blast
  then have e: "evaluate_write ?p (sample_authority ?p) = Inr e"
    using sample_write_single by (simp add: evaluate_write_not_batch)
  have ns: "get ''decision'' e \<noteq> JStr ''skip''" using d by simp
  have h: "61 < height (get ''record'' ?p)" using deep_record_facts(2) by (simp add: sample_on_def)
  show ?thesis by (rule deep_record_plan_rejected[OF sample_write_single e ns h])
qed

text \<open>The fields of an item planned for a record of a batch.\<close>

definition item_for :: "json \<Rightarrow> json \<Rightarrow> json \<Rightarrow> bool" where
  "item_for p record item \<longleftrightarrow>
     get ''record'' item = record \<and> get ''stream'' item = get ''stream'' p \<and>
     get ''operation'' item = get ''operation'' p \<and>
     get ''representation'' item = get ''requested_representation'' p \<and>
     (if get ''operation'' p = JStr ''supersede''
      then get ''supersedes'' item = get (str_of (get ''id'' record)) (get ''supersedes'' p)
      else \<not> has_key ''supersedes'' item)"

text \<open>The fields of the event of the policy, and those any event of a batch is bound to.\<close>

definition event_binding :: "json \<Rightarrow> json \<Rightarrow> (string \<times> json) list" where
  "event_binding p e =
     [(''proposal_sha256'', JStr (digest_json p)), (''decision'', get ''decision'' e),
      (''reason_codes'', get ''reason_codes'' e),
      (''batch_records_sha256'', strs (sort (map digest_json (list_items (get ''records'' p)))))]"

definition decision_event :: "json \<Rightarrow> json \<Rightarrow> json \<Rightarrow> json \<Rightarrow> bool" where
  "decision_event p a e event \<longleftrightarrow>
     (let record = get ''record'' event; payload = get ''payload'' record; twin = twin_v1 p in
      get ''stream'' event = JStr ''events'' \<and> get ''operation'' event = JStr ''add'' \<and>
      get ''representation'' event = JStr ''summary'' \<and>
      get ''schema'' record = JStr ''an-kla/event-v1'' \<and>
      get ''id'' record = JStr (''e-write-policy-'' @ drop 7 (digest_json twin)) \<and>
      get ''type'' record = JStr ''write_policy_decision'' \<and>
      get ''authority_class'' payload = get ''authority_class'' a \<and>
      get ''authority_sha256'' payload = JStr (digest_json (twin_authority twin a)) \<and>
      get ''policy_fingerprint'' payload = JStr policy_fingerprint \<and>
      get ''policy_profile'' payload = JStr ''write-policy/v1'' \<and>
      list_all (\<lambda>(k, v). get k payload = v) (event_binding p e))"

lemma batch_item_for: "item_for p record (batch_planned_item p record)"
  by (simp add: item_for_def batch_planned_item_def)

lemma twin_item: "planned_item (twin_v1 p) (first_record p) = batch_planned_item p (first_record p)"
  by (simp add: planned_item_def batch_planned_item_def twin_v1_def)

lemma twin_record: "get ''record'' (twin_v1 p) = first_record p"
  by (simp add: twin_v1_def)

lemma rebind_eventD:
  assumes r: "rebind_event ev e records = Inr ev'" and "get ''proposal_sha256'' e = JStr (digest_json p)"
    and "records = list_items (get ''records'' p)"
  shows "is_obj ev" "is_obj (get ''record'' ev)" "is_obj (get ''payload'' (get ''record'' ev))"
    and "ev' = update_obj ev [(''record'', update_obj (get ''record'' ev)
      [(''payload'', update_obj (get ''payload'' (get ''record'' ev)) (event_binding p e))])]"
proof -
  show "is_obj (get ''payload'' (get ''record'' ev))"
    using r by (auto simp: rebind_event_def subscript_Inr_iff split: if_split_asm)
  then show r: "is_obj (get ''record'' ev)" by (metis get_not_obj is_obj.simps(2))
  then show "is_obj ev" by (metis get_not_obj is_obj.simps(2))
  show "ev' = update_obj ev [(''record'', update_obj (get ''record'' ev)
      [(''payload'', update_obj (get ''payload'' (get ''record'' ev)) (event_binding p e))])]"
    using assms by (auto simp: rebind_event_def subscript_Inr_iff event_binding_def split: if_split_asm)
qed

lemma event_bound:
  "is_obj payload \<Longrightarrow> get ''batch_records_sha256'' (update_obj payload (event_binding p e)) =
     strs (sort (map digest_json (list_items (get ''records'' p))))"
  "is_obj payload \<Longrightarrow> get ''proposal_sha256'' (update_obj payload (event_binding p e)) = JStr (digest_json p)"
  by (simp_all add: event_binding_def)

lemma get_one_updated: "is_obj v \<Longrightarrow> get k (update_obj v [(k, x)]) = x"
  "is_obj v \<Longrightarrow> k \<noteq> j \<Longrightarrow> get j (update_obj v [(k, x)]) = get j v"
  by simp_all

lemma rebound_policy_event:
  assumes te: "evaluate_write_v1 (twin_v1 p) (twin_authority (twin_v1 p) a) = Inr te"
    and r: "rebind_event (policy_event te (get ''authority_class'' (twin_authority (twin_v1 p) a))) e records = Inr ev"
    and e: "get ''proposal_sha256'' e = JStr (digest_json p)" "records = list_items (get ''records'' p)"
  shows "decision_event p a e ev"
proof -
  have "is_obj (twin_authority (twin_v1 p) a)"
    using te by (simp add: evaluate_write_v1_Inr_iff validate_write_authority_def Let_def)
  then have "is_obj a" by (simp add: twin_authority_def)
  then have c: "get ''authority_class'' (twin_authority (twin_v1 p) a) = get ''authority_class'' a"
    by (simp add: twin_authority_def)
  have "get ''policy_profile'' te = JStr ''write-policy/v1''"
    using te by (simp add: evaluate_write_v1_Inr_iff write_decision_def decision_object_def)
  with c expected_decisionD(4,5,6)[OF evaluate_write_v1_expected[OF te]] show ?thesis
    unfolding rebind_eventD(4)[OF r e]
    by (simp add: decision_event_def policy_event_def event_binding_def Let_def)
qed

text \<open>The parts of the plan of a batch.\<close>

lemma batch_plan_parts:
  assumes "is_batch p" and b: "build_write_plan p a d = Inr plan"
    and ns: "get ''decision'' (get ''core'' plan) \<noteq> JStr ''skip''"
  shows "\<exists>e items event. evaluate_write p a = Inr e \<and> list_items (get ''records'' plan) = items @ [event]
      \<and> items = map (batch_planned_item p) (list_items (get ''records'' p))
      \<and> list_all2 (item_for p) (list_items (get ''records'' p)) items
      \<and> get ''batch_records_sha256'' (get ''payload'' (get ''record'' event))
          = strs (sort (map digest_json (list_items (get ''records'' p))))
      \<and> get ''proposal_sha256'' (get ''payload'' (get ''record'' event)) = JStr (digest_json p)
      \<and> (if get ''stream'' p = JStr ''events'' \<and> get ''type'' (first_record p) = JStr ''write_policy_decision''
         then event = update_obj (hd items) [(''record'', update_obj (first_record p)
                [(''payload'', update_obj (get ''payload'' (first_record p)) (event_binding p e))])]
              \<and> get ''id'' (get ''record'' event) = get ''id'' (first_record p)
         else decision_event p a e event)"
proof -
  have ev: "evaluate_write p a = evaluate_batch_write p a"
    using assms(1) by (rule evaluate_write_batch)
  from b assms(1) have "build_batch_write_plan p a d = Inr plan"
    by (auto simp: build_write_plan_def split: if_split_asm)
  moreover obtain e where e: "evaluate_batch_write p a = Inr e"
    using calculation by (auto simp: build_batch_write_plan_def ev)
  moreover have "get ''decision'' e \<noteq> JStr ''skip''"
    using ns calculation by (auto simp: build_batch_write_plan_def ev)
  ultimately obtain bp ev1 ev2 where
    bp: "build_plan_v1 (twin_v1 p) (twin_authority (twin_v1 p) a) JNull = Inr bp"
    and f: "find is_policy_event (list_items (get ''records'' bp)) = Some ev1"
    and r: "rebind_event ev1 e (list_items (get ''records'' p)) = Inr ev2"
    and plan: "list_items (get ''records'' plan)
        = map (batch_planned_item p) (list_items (get ''records'' p)) @ [ev2]"
    by (auto simp: build_batch_write_plan_def ev Let_def split: option.splits)
  from bp obtain te where te: "evaluate_write_v1 (twin_v1 p) (twin_authority (twin_v1 p) a) = Inr te"
    and bpr: "bp = plan_of (get ''base_revision'' (twin_v1 p)) te
       (planned_records_v1 (twin_v1 p) (twin_authority (twin_v1 p) a) te)"
    by (elim build_plan_v1D) simp
  let ?first = "batch_planned_item p (first_record p)"
    and ?spoof = "get ''stream'' p = JStr ''events'' \<and> get ''type'' (first_record p) = JStr ''write_policy_decision''"
    and ?event = "policy_event te (get ''authority_class'' (twin_authority (twin_v1 p) a))"
  have "is_policy_event ?first \<longleftrightarrow> ?spoof" by (simp add: is_policy_event_def batch_planned_item_def)
  moreover have "is_policy_event ?event" by (simp add: is_policy_event_def policy_event_def)
  ultimately have ev1: "ev1 = (if ?spoof then ?first else ?event)"
    using f by (auto simp: bpr plan_of_def planned_records_v1_def twin_item twin_record split: if_split_asm)
  have own: "get ''proposal_sha256'' e = JStr (digest_json p)"
    using expected_decisionD(4)[OF evaluate_batch_write_expected[OF e]] .
  note bound = rebind_eventD[OF r own refl]
  have payload: "get ''payload'' (get ''record'' ev2) = update_obj (get ''payload'' (get ''record'' ev1)) (event_binding p e)"
    unfolding bound(4) by (simp only: get_one_updated(1) bound(1,2))
  have "list_items (get ''records'' p) \<noteq> []"
    using e by (auto simp: evaluate_batch_write_def validate_batch_proposal_def validate_batch_records_def Let_def)
  then have hd: "hd (map (batch_planned_item p) (list_items (get ''records'' p))) = ?first"
    by (cases "list_items (get ''records'' p)") (simp_all add: first_record_def)
  have fresh: "decision_event p a e ev2" if "\<not> ?spoof"
    using rebound_policy_event[OF te _ own refl, of ev2] r ev1 that by simp
  have copied: "ev2 = update_obj ?first [(''record'', update_obj (first_record p)
      [(''payload'', update_obj (get ''payload'' (first_record p)) (event_binding p e))])] \<and>
      get ''id'' (get ''record'' ev2) = get ''id'' (first_record p)" if ?spoof
  proof -
    have one: "ev1 = ?first" unfolding ev1 if_P[OF that] by (rule refl)
    have "get ''record'' ?first = first_record p" by (simp add: batch_planned_item_def)
    note eq = bound(4)[unfolded one this] and obj = bound(1,2)[unfolded one this]
    have other: "''payload'' \<noteq> ''id''" by simp
    show ?thesis unfolding eq get_one_updated(1)[OF obj(1)] get_one_updated(2)[OF obj(2) other] by (intro conjI refl)
  qed
  have each: "list_all2 (item_for p) (list_items (get ''records'' p)) (map (batch_planned_item p) (list_items (get ''records'' p)))"
    by (simp add: list_all2_conv_all_nth batch_item_for)
  have last: "if ?spoof then ev2 = update_obj (hd (map (batch_planned_item p) (list_items (get ''records'' p))))
      [(''record'', update_obj (first_record p)
        [(''payload'', update_obj (get ''payload'' (first_record p)) (event_binding p e))])] \<and>
      get ''id'' (get ''record'' ev2) = get ''id'' (first_record p)
    else decision_event p a e ev2"
  proof (cases ?spoof)
    case True
    then show ?thesis using copied[OF True] unfolding hd if_P[OF True] by blast
  next
    case False
    then show ?thesis using fresh[OF False] unfolding if_not_P[OF False] by blast
  qed
  show ?thesis unfolding ev
    by (rule exI[of _ e], rule exI[of _ "map (batch_planned_item p) (list_items (get ''records'' p))"], rule exI[of _ ev2],
        intro conjI, rule e, rule plan, rule refl, rule each,
        (simp only: payload event_bound bound(3))+, rule last)
qed

text \<open>C7: A batch plan holds every record of the batch, once and in order, each with the batch's stream, its
  operation and the representation it asks for and, for \<open>supersede\<close> only, the target the batch gives for the
  identifier of that record, followed by one event. The payload of that event is bound to the digest of the
  batch, to the decision and reasons evaluated for it and to the sorted digests of its records. The event is
  that of the policy, with its schema, an identifier made of the digest of the twin of the first record, the
  class of the authority, the digest of the authority of that twin and the profile and fingerprint of the
  policy, unless the stream is \<open>events\<close> and the first record calls itself a \<open>write_policy_decision\<close>: then
  it is a copy of the first item, changed in those four fields of its payload only, with the identifier
  of that record, and the plan holds no event of the policy.\<close>

theorem batch_plan_records:
  assumes "is_batch p" and b: "build_write_plan p a d = Inr plan"
    and ns: "get ''decision'' (get ''core'' plan) \<noteq> JStr ''skip''"
  shows "\<exists>e items event. evaluate_write p a = Inr e \<and> list_items (get ''records'' plan) = items @ [event]
      \<and> items = map (batch_planned_item p) (list_items (get ''records'' p))
      \<and> list_all2 (item_for p) (list_items (get ''records'' p)) items
      \<and> get ''batch_records_sha256'' (get ''payload'' (get ''record'' event))
          = strs (sort (map digest_json (list_items (get ''records'' p))))
      \<and> get ''proposal_sha256'' (get ''payload'' (get ''record'' event)) = JStr (digest_json p)
      \<and> (if get ''stream'' p = JStr ''events'' \<and> get ''type'' (first_record p) = JStr ''write_policy_decision''
         then event = update_obj (hd items) [(''record'', update_obj (first_record p)
                [(''payload'', update_obj (get ''payload'' (first_record p)) (event_binding p e))])]
              \<and> get ''id'' (get ''record'' event) = get ''id'' (first_record p)
         else decision_event p a e event)"
  using assms by (rule batch_plan_parts)

definition spoof_record :: json where
  "spoof_record = mk_obj [(''id'', JStr ''x''), (''type'', JStr ''write_policy_decision''),
     (''payload'', mk_obj [])]"

definition other_record :: json where
  "other_record = mk_obj [(''id'', JStr ''y'')]"

definition sample_batch :: json where
  "sample_batch = mk_obj
     [(''schema'', JStr ''an-kla/write-proposal-v2''), (''base_revision'', JStr sample_base),
      (''stream'', JStr ''events''), (''operation'', JStr ''add''),
      (''requested_representation'', JStr ''full''), (''records'', JArr [spoof_record, other_record]),
      (''lineage'', mk_obj [(''derived_from_retrieval'', JBool False), (''refs'', JArr [])])]"

lemma sample_records:
  "storable spoof_record" "storable other_record" "node_count spoof_record = 4" "height spoof_record = 1"
  "node_count other_record = 2" "height other_record = 1"
  "validate_record_fields spoof_record code pre = Inr ()"
  "validate_record_fields other_record code pre = Inr ()"
  "get ''id'' spoof_record = JStr ''x''" "get ''id'' other_record = JStr ''y''"
proof -
  show "storable spoof_record" "storable other_record"
    unfolding spoof_record_def other_record_def
    by (intro storable_mk_obj; auto simp: valid_utf8_ascii intro!: storable_mk_obj)+
qed (simp_all add: spoof_record_def other_record_def mk_obj_def validate_record_fields_def get_JObj
    has_key_def dict_keys_def)

lemma sample_batch_valid: "validate_batch_proposal sample_batch = Inr ()"
proof -
  have ok: "json_value_ok sample_batch"
  proof (rule json_value_okI)
    show "storable sample_batch"
      unfolding sample_batch_def
      by (intro storable_mk_obj) (auto simp: valid_utf8_ascii sample_records intro!: storable_mk_obj)
    show "height sample_batch \<le> MAX_JSON_DEPTH"
      unfolding sample_batch_def limits_defs
      by (rule height_mk_obj_le) (simp add: sample_records mk_obj_def[of "[_, _]"])
    show "node_count sample_batch \<le> MAX_JSON_NODES"
      unfolding sample_batch_def limits_defs
      by (rule node_count_mk_obj[THEN order_trans]) (simp add: sample_records mk_obj_def[of "[_, _]"])
  qed
  have m: "max_batch_records = 1000"
    by (simp add: max_batch_records_def policy_configuration_def)
  show ?thesis
    unfolding validate_batch_proposal_def Let_def validate_json_value_def
    by (simp add: ok)
       (simp add: sample_batch_def validate_batch_records_def validate_batch_supersedes_def
          validate_batch_lineage_def m sample_records record_ids_def enumerate_simps checks_Inr_iff
          dict_keys_def sorted_set_def)
qed

lemma sample_batch_twin: "twin_v1 sample_batch = sample_on ''events'' spoof_record"
  by (simp add: twin_v1_def sample_on_def sample_batch_def first_record_def)

lemma twin_sample_authority: "twin_authority t (sample_authority p) = sample_authority t"
  by (simp add: twin_authority_def sample_authority_def mk_obj_def)

lemma batch_plan_records_witness:
  "\<exists>plan event. build_write_plan sample_batch (sample_authority sample_batch) JNull = Inr plan \<and>
     list_items (get ''records'' plan)
       = [batch_planned_item sample_batch spoof_record, batch_planned_item sample_batch other_record, event]
     \<and> get ''id'' (get ''record'' event) = JStr ''x''"
proof -
  let ?p = sample_batch and ?a = "sample_authority sample_batch"
  let ?t = "sample_on ''events'' spoof_record"
  have b: "is_batch ?p" by (simp add: is_batch_def sample_batch_def)
  have tv: "validate_proposal_v1 ?t = Inr ()"
    by (rule sample_write_valid) (simp_all add: sample_records)
  obtain td where td: "evaluate_write_v1 ?t (sample_authority ?t) = Inr td"
    and d: "get ''decision'' td = JStr ''write-full''"
    using sample_write_evaluates[OF tv] by auto
  have "get ''proposal_sha256'' ?a = JStr (digest_json ?p)" "get ''base_revision'' ?a = get ''base_revision'' ?p"
    by (simp_all add: sample_authority_def) (simp add: sample_batch_def)
  then obtain e where e: "evaluate_batch_write ?p ?a = Inr e" and ed: "get ''decision'' e = JStr ''write-full''"
    using td d by (simp add: evaluate_batch_write_def sample_batch_valid sample_authority_valid
        sample_batch_twin twin_sample_authority Let_def)
  have ev: "evaluate_write ?p ?a = Inr e" using e b by (simp add: evaluate_write_batch)
  have nb: "is_obj ?t" "\<not> is_batch ?t" by (rule sample_write_single)+
  have bp: "build_plan_v1 ?t (sample_authority ?t) JNull
      = Inr (plan_of (get ''base_revision'' ?t) td (planned_records_v1 ?t (sample_authority ?t) td))"
    using build_single[OF nb td] nb by (simp add: build_write_plan_def)
  let ?e1 = "planned_item ?t spoof_record"
  have rec: "get ''record'' ?t = spoof_record" by (simp add: sample_on_def)
  have f: "find is_policy_event (planned_records_v1 ?t (sample_authority ?t) td) = Some ?e1"
    using d by (simp add: planned_records_v1_def rec is_policy_event_def)
      (simp add: planned_item_def sample_on_def spoof_record_def)
  have "succeeds (rebind_event ?e1 e (list_items (get ''records'' ?p)))"
    by (simp add: rebind_event_def planned_item_def spoof_record_def subscript_def mk_obj_def
        get_JObj)
  then obtain e2 where e2: "rebind_event ?e1 e (list_items (get ''records'' ?p)) = Inr e2"
    by (auto simp: succeeds_iff)
  have "\<exists>plan. build_write_plan ?p ?a JNull = Inr plan
      \<and> get ''decision'' (get ''core'' plan) = JStr ''write-full''"
    using b ed ev bp f e2
    by (simp add: build_write_plan_def is_batch_def build_batch_write_plan_def sample_batch_twin
        twin_sample_authority plan_of_def Let_def)
  then obtain plan where pl: "build_write_plan ?p ?a JNull = Inr plan"
    and ns: "get ''decision'' (get ''core'' plan) \<noteq> JStr ''skip''" by auto
  have "list_items (get ''records'' ?p) = [spoof_record, other_record]"
    "get ''stream'' ?p = JStr ''events''" "first_record ?p = spoof_record"
    "get ''type'' spoof_record = JStr ''write_policy_decision''"
    by (simp_all add: sample_batch_def first_record_def spoof_record_def)
  with batch_plan_records[OF b pl ns] pl show ?thesis by (auto simp: sample_records)
qed

end
