(* ===== verification/WriteCommit.thy ===== *)
theory WriteCommit
  imports Mutation PlanVerify
begin

text \<open>
  Planning and committing a write: \<open>plan_write\<close> of \<open>store.py\<close> and \<open>commit_write_plan\<close> of
  \<open>write_commit.py\<close>. Everything the code checks a second time under the lock is checked in the same
  order here, and the mutation is an instance of the contract \<open>locked_section\<close>.
\<close>

section \<open>Planning\<close>

text \<open>\<open>plan_write\<close>, under the shared gate.\<close>

definition plan_write :: "nat \<Rightarrow> json \<Rightarrow> json \<Rightarrow> os \<Rightarrow> json res" where
  "plan_write n proposal authority s =
     andthen (read_current s) (\<lambda>observed.
     andthen (evaluate_write proposal authority) (\<lambda>decision.
     andthen (ensure (get ''base_revision'' proposal = JStr observed)
                (write_policy_error ''write_plan_base_changed'')) (\<lambda>_.
     andthen (when_ok (get ''decision'' decision \<noteq> JStr ''skip'')
                (andthen (snapshot_at n (Some observed) True s) (\<lambda>snap. guard_plan (snap_records snap) proposal))) (\<lambda>_.
     andthen (build_write_plan proposal authority decision) (\<lambda>plan.
       Inr (mk_obj
         [(''schema'', JStr ''an-kla/write-planning-result-v1''), (''current_revision'', JStr observed),
          (''decision'', decision), (''plan'', plan)]))))))"

section \<open>Committing\<close>

record write_request =
  wr_expected :: string
  wr_plan :: json
  wr_proposal :: json
  wr_authority :: json
  wr_decision :: json
  wr_transaction :: "string option"

definition plan_rows :: "json \<Rightarrow> rows res" where
  "plan_rows plan =
     (let items = list_items (get ''records'' plan) in
      andthen (ensure (list_all (\<lambda>item. get ''operation'' item \<in> {JStr ''add'', JStr ''supersede''}) items)
                 (Exn WritePolicyError ''invalid_write_plan'' (Some ''records[]:operation:not_committable''))) (\<lambda>_.
        Inr (\<lambda>stream. map (get ''record'') (filter (\<lambda>item. get ''stream'' item = JStr stream) items))))"

definition write_metadata :: "json \<Rightarrow> json \<Rightarrow> json" where
  "write_metadata plan decision = mk_obj
     [(''schema'', JStr ''an-kla/write-policy-transaction-v1''), (''plan_fingerprint'', get ''plan_fingerprint'' plan),
      (''proposal_sha256'', get ''proposal_sha256'' decision), (''authority_sha256'', get ''authority_sha256'' decision),
      (''policy_fingerprint'', get ''policy_fingerprint'' decision), (''decision'', get ''decision'' decision),
      (''reason_codes'', get ''reason_codes'' decision)]"

definition commit_result :: "json \<Rightarrow> string \<Rightarrow> json \<Rightarrow> json \<Rightarrow> json \<Rightarrow> json \<Rightarrow> (string \<times> json) list \<Rightarrow> json" where
  "commit_result committed revision decision reasons fingerprint diagnostics extra = mk_obj
     ([(''schema'', JStr ''an-kla/write-commit-result-v1''), (''committed'', committed), (''revision'', JStr revision),
       (''decision'', decision), (''reason_codes'', reasons), (''plan_fingerprint'', fingerprint),
       (''context_diagnostics'', diagnostics)] @ extra)"

text \<open>\<open>CURRENT\<close> has moved: a transaction that is already committed is reported again. The release
  error is read inside the \<open>with\<close> block, where it is still \<open>None\<close>.\<close>

definition replay_write :: "world \<Rightarrow> write_request \<Rightarrow> identity_binding \<Rightarrow> context_map \<Rightarrow> string \<Rightarrow> lock_end io" where
  "replay_write w req b ctx observed =
     (let changed = write_policy_error ''write_plan_base_changed'' in
      case wr_transaction req of
        None \<Rightarrow> lift (Inl changed)
      | Some txid \<Rightarrow>
          bind_io (asks (inspect_transaction txid)) (\<lambda>inspected.
          bind_io (lift (ensure (get ''committed'' inspected = JBool True) changed)) (\<lambda>_.
          bind_io (lift (begin_transaction (w_fresh w) ''write'' (JStr txid)
                     (plan_binding (wr_expected req) (get ''plan_fingerprint'' (wr_plan req))))) (\<lambda>attempt.
          bind_io (asks (assert_unchanged (project_root (w_site w)) b observed)) (\<lambda>identity.
          bind_io (commit_locked (w_depth w) (Some ctx)
              \<lparr>req_observed = wr_expected req, req_checkpoint_patch = JObj [], req_pending = no_records,
               req_attempt = attempt, req_policy = None, req_supersedes = [], req_refute = None,
               req_identity = Some identity\<rparr>) (\<lambda>(revision, outcome).
          bind_io (lift (subscript ''decision'' (wr_decision req))) (\<lambda>decision.
          bind_io (lift (subscript ''reason_codes'' (wr_decision req))) (\<lambda>reasons.
            ret (Returned (commit_result (JBool True) revision decision reasons
              (get ''plan_fingerprint'' (wr_plan req)) (w_diagnostics w)
              [(''outcome'', post_lock_outcome outcome None), (''replayed'', JBool True)]))))))))))"

definition check_bases :: "write_request \<Rightarrow> string \<Rightarrow> unit res" where
  "check_bases req observed =
     ensure (get ''base_revision'' (wr_proposal req) = JStr observed \<and>
             get ''base_revision'' (wr_authority req) = JStr observed \<and>
             get ''base_revision'' (get ''core'' (wr_plan req)) = JStr observed)
       (write_policy_error ''write_plan_base_changed'')"

text \<open>The commit of a decision that is not a skip.\<close>

definition write_decided :: "world \<Rightarrow> write_request \<Rightarrow> identity_binding \<Rightarrow> context_map \<Rightarrow> string \<Rightarrow> string \<Rightarrow> lock_end io" where
  "write_decided w req b ctx observed identity =
     (let plan = wr_plan req; decision = wr_decision req in
      bind_io (asks (resolve_supersede_targets (w_depth w) plan observed)) (\<lambda>supersedes.
      bind_io (lift (check_subject_ref_binding plan (project_bytes b))) (\<lambda>_.
      bind_io (lift (plan_rows plan)) (\<lambda>pending.
      bind_io (lift (begin_transaction (w_fresh w) ''write'' (opt_str (wr_transaction req))
                 (plan_binding observed (get ''plan_fingerprint'' plan)))) (\<lambda>attempt.
      bind_io (commit_locked (w_depth w) (Some ctx)
          \<lparr>req_observed = observed, req_checkpoint_patch = JObj [], req_pending = pending,
           req_attempt = attempt, req_policy = Some (write_metadata plan decision),
           req_supersedes = supersedes, req_refute = None, req_identity = Some identity\<rparr>)
        (\<lambda>(revision, outcome). ret (Committed revision outcome)))))))"

text \<open>The block under the lock.\<close>

definition write_locked :: "world \<Rightarrow> write_request \<Rightarrow> identity_binding \<Rightarrow> context_map \<Rightarrow> lock_end io" where
  "write_locked w req b ctx =
     bind_io (asks read_current) (\<lambda>observed.
       if observed \<noteq> wr_expected req then replay_write w req b ctx observed
       else
         bind_io (asks (assert_unchanged (project_root (w_site w)) b observed)) (\<lambda>identity.
         bind_io (lift (verify_write_plan (wr_plan req) (wr_proposal req) (wr_authority req) (wr_decision req))) (\<lambda>_.
         bind_io (lift (check_bases req observed)) (\<lambda>_.
         bind_io (lift (subscript ''decision'' (wr_decision req))) (\<lambda>_.
           let decision = wr_decision req; skip = (get ''decision'' decision = JStr ''skip'') in
           bind_io (if \<not> skip \<and> get ''authority_class'' (wr_authority req) = JStr ''tool_observed''
                    then enforce_for_commit (project_root (w_site w)) (w_now w) (wr_authority req) else ret ()) (\<lambda>_.
             if skip then ret (Returned (commit_result (JBool False) observed (JStr ''skip'')
                 (get ''reason_codes'' decision) (get ''plan_fingerprint'' (wr_plan req)) (w_diagnostics w) []))
             else write_decided w req b ctx observed identity))))))"

definition lacks_text :: "write_request \<Rightarrow> bool" where
  "lacks_text req \<longleftrightarrow>
     (if get ''schema'' (wr_proposal req) = JStr ''an-kla/write-proposal-v1''
      then record_text (get ''record'' (wr_proposal req)) = []
      else JStr ''record_without_indexable_text'' \<in> set (list_items (get ''reason_codes'' (wr_decision req))))"

text \<open>What follows the release of the lock.\<close>

definition finish_write :: "world \<Rightarrow> write_request \<Rightarrow> string option \<Rightarrow> string \<Rightarrow> json \<Rightarrow> json io" where
  "finish_write w req release_error revision outcome =
     (let after = post_lock_outcome outcome release_error;
          committed = (get ''committed'' after = JBool True);
          warned = (if committed \<and> lacks_text req
            then update_obj after [(''warnings'', JArr (map JStr (sorted_set
              (map str_of (list_items (get ''warnings'' after)) @ [''record_without_indexable_text'']))))]
            else after)
      in bind_io (if committed \<and> revision \<noteq> wr_expected req then w_reindex w (wr_expected req) revision else ret ()) (\<lambda>_.
         ret (commit_result (JBool committed) revision (get ''decision'' (wr_decision req))
           (get ''reason_codes'' (wr_decision req)) (get ''plan_fingerprint'' (wr_plan req)) (w_diagnostics w)
           [(''outcome'', warned)])))"

text \<open>Up to the release of the lock; the layout is made before the lock and again by \<open>write_lock\<close>.\<close>

definition write_before :: "world \<Rightarrow> (identity_binding \<times> context_map) io" where
  "write_before w = bind_io (begin_mutation w) (\<lambda>captured. bind_io make_layout (\<lambda>_. ret captured))"

definition commit_write_core :: "world \<Rightarrow> write_request \<Rightarrow> os \<Rightarrow> ((lock_end \<times> string option) res \<times> os) option" where
  "commit_write_core w req = locked_after w (write_before w) (\<lambda>(b, ctx). write_locked w req b ctx)"

definition commit_write_plan :: "world \<Rightarrow> write_request \<Rightarrow> os \<Rightarrow> (json res \<times> os) option" where
  "commit_write_plan w req s =
     map_option (\<lambda>(r, t). case r of
         Inl e \<Rightarrow> (Inl e, t)
       | Inr (Returned result, _) \<Rightarrow> (Inr result, t)
       | Inr (Committed revision outcome, release_error) \<Rightarrow> finish_write w req release_error revision outcome t)
       (commit_write_core w req s)"

section \<open>Only a verified write moves CURRENT\<close>

lemma enforce_same: "enforce_for_commit root now a s = (r, t) \<Longrightarrow> same_on (\<lambda>q. q = current_path) s t"
proof -
  have p: "tombstone_path x \<noteq> current_path" for x by (simp add: tombstone_path_def current_path_def)
  have "same.keeps (\<lambda>q. q = current_path) (enforce_for_commit root now a)"
    unfolding enforce_for_commit_def consume_tombstone_def
    by (intro keeps_rules same.keeps_write_exclusive) (simp_all add: same_on_def p not_sym[OF p])
  then show "enforce_for_commit root now a s = (r, t) \<Longrightarrow> ?thesis" by (rule same.keepsD)
qed

lemma enforce_onward: "enforce_for_commit root now a s = (r, t) \<Longrightarrow> onward s t"
  by (rule onward.keepsD[of "enforce_for_commit root now a"])
    (simp_all add: enforce_for_commit_def consume_tombstone_def keeps_rules onward.keeps_write_exclusive)

text \<open>What has been checked when a write moves \<open>CURRENT\<close>.\<close>

definition write_verified :: "write_request \<Rightarrow> bool" where
  "write_verified req \<longleftrightarrow>
     verify_write_plan (wr_plan req) (wr_proposal req) (wr_authority req) (wr_decision req) = Inr () \<and>
     get ''decision'' (wr_decision req) \<noteq> JStr ''skip'' \<and> check_bases req (wr_expected req) = Inr ()"

abbreviation write_moves :: "write_request \<Rightarrow> os \<Rightarrow> os \<Rightarrow> bool" where
  "write_moves req \<equiv> moves (write_verified req) (wr_expected req)"

lemma replay_write_same:
  assumes "replay_write w req b ctx observed s = (r, t)" and "read_current s \<noteq> Inr (wr_expected req)"
  shows "bytes_at current_path t = bytes_at current_path s"
proof -
  have "t = s \<or> (\<exists>creq r'. req_observed creq = wr_expected req \<and> commit_locked (w_depth w) (Some ctx) creq s = (r', t))"
    using assms(1) unfolding replay_write_def Let_def bind_asks bind_lift
    by (auto simp: lift_def split: option.splits sum.splits elim!: bind_ioE)
      (auto simp: bind_lift ret_def split: prod.splits sum.splits)
  then show ?thesis using commit_locked_published published_moved assms(2) by metis
qed

lemma write_decided_published:
  assumes "write_decided w req b ctx observed identity s = (r, t)"
  shows "published observed s t"
proof -
  have "t = s \<or> (\<exists>creq r'. req_observed creq = observed \<and> commit_locked (w_depth w) (Some ctx) creq s = (r', t))"
    using assms unfolding write_decided_def Let_def bind_asks bind_lift
    by (auto split: option.splits sum.splits elim!: bind_ioE) (auto simp: ret_def split: prod.splits)
  then show ?thesis
  proof
    assume "t = s"
    then show ?thesis by (simp add: published_def)
  qed (use commit_locked_published in metis)
qed

lemma write_decided_end: "write_decided w req b ctx observed identity s \<noteq> (Inr (Returned v), t)"
  unfolding write_decided_def Let_def bind_asks bind_lift
  by (auto simp: ret_def split: option.splits sum.splits prod.splits elim!: bind_ioE)

lemma write_locked_moves:
  assumes run: "write_locked w req b ctx s = (r, t)"
  shows "write_moves req s t"
    and "r = Inr (Returned v) \<Longrightarrow> bytes_at current_path t = bytes_at current_path s"
proof -
  have "write_moves req s t \<and> (r = Inr (Returned v) \<longrightarrow> bytes_at current_path t = bytes_at current_path s)"
  proof (cases "read_current s")
    case (Inl e)
    then show ?thesis using run by (simp add: write_locked_def bind_asks moves_def)
  next
    case (Inr observed)
    show ?thesis
    proof (cases "observed = wr_expected req")
      case False
      then have "replay_write w req b ctx observed s = (r, t)" using run Inr by (simp add: write_locked_def bind_asks)
      from replay_write_same[OF this] Inr False show ?thesis by (simp add: moves_def)
    next
      case True
      show ?thesis
      proof (cases "t = s")
        case False
        let ?skip = "get ''decision'' (wr_decision req) = JStr ''skip''"
        let ?enforce = "if \<not> ?skip \<and> get ''authority_class'' (wr_authority req) = JStr ''tool_observed''
          then enforce_for_commit (project_root (w_site w)) (w_now w) (wr_authority req) else ret ()"
        obtain identity where checked: "verify_write_plan (wr_plan req) (wr_proposal req) (wr_authority req)
            (wr_decision req) = Inr ()" "check_bases req observed = Inr ()"
          and rest: "bind_io ?enforce (\<lambda>_. if ?skip then ret (Returned (commit_result (JBool False) observed
              (JStr ''skip'') (get ''reason_codes'' (wr_decision req)) (get ''plan_fingerprint'' (wr_plan req))
              (w_diagnostics w) [])) else write_decided w req b ctx observed identity) s = (r, t)"
          using run Inr True False unfolding write_locked_def Let_def
          by (auto simp: bind_asks bind_lift split: sum.splits)
        have enforced: "bytes_at current_path u = bytes_at current_path s \<and> onward s u" if "?enforce s = (r', u)" for r' u
          using that enforce_same enforce_onward by (auto simp: same_on_def ret_def split: if_split_asm)
        from rest show ?thesis
        proof (cases rule: bind_ioE)
          case (fails e)
          then show ?thesis using enforced by (simp add: moves_def)
        next
          case (goes a u)
          show ?thesis
          proof (cases ?skip)
            case True
            then show ?thesis using goes enforced by (auto simp: ret_def moves_def)
          next
            case False
            then have d: "write_decided w req b ctx observed identity u = (r, t)" using goes(2) by simp
            have "published observed s t"
              using published_before[OF _ _ write_decided_published[OF d]] enforced[OF goes(1)] by blast
            then show ?thesis using False checked write_decided_end d \<open>observed = wr_expected req\<close>
              by (auto simp: moves_def write_verified_def)
          qed
        qed
      qed (simp add: moves_def)
    qed
  qed
  then show "write_moves req s t" and "r = Inr (Returned v) \<Longrightarrow> bytes_at current_path t = bytes_at current_path s"
    by blast+
qed

lemma write_before_unchanged: "write_before w s = (r, t) \<Longrightarrow> unchanged s t"
  unfolding write_before_def
  by (erule bind_ioE) (auto simp: ret_def elim!: bind_ioE dest!: begin_mutation_unchanged make_layout_unchanged
      intro: unchanged_trans)

interpretation write_section: locked_section w "write_before w" "\<lambda>(b, ctx). write_locked w req b ctx"
    "wr_expected req" "\<lambda>_ _ _. write_verified req" "\<lambda>r. \<exists>v. r = Returned v"
  for w req
  by unfold_locales (auto simp: write_before_unchanged split: prod.splits dest: write_locked_moves)

text \<open>C1: Only a write that the policy accepts moves \<open>CURRENT\<close>. Whatever calls fail, if its bytes have
  changed when the lock is released, it named the expected revision before, the plan verified against
  the proposal, the authority and the decision, the decision is not a skip, all three are based on the
  expected revision, and the new revision is a whole and valid child of it; and a run that ends with a
  skip or reports an earlier commit again has not moved it.\<close>

theorem only_verified_writes_move_current:
  "case commit_write_core w req s of None \<Rightarrow> True
   | Some (r, t) \<Rightarrow>
      (if bytes_at current_path t = bytes_at current_path s then True
       else read_current s = Inr (wr_expected req) \<and>
         verify_write_plan (wr_plan req) (wr_proposal req) (wr_authority req) (wr_decision req) = Inr () \<and>
         get ''decision'' (wr_decision req) \<noteq> JStr ''skip'' \<and>
         list_all (\<lambda>base. base = JStr (wr_expected req))
           [get ''base_revision'' (wr_proposal req), get ''base_revision'' (wr_authority req),
            get ''base_revision'' (get ''core'' (wr_plan req))] \<and>
         (\<exists>c. bytes_at current_path t = Some (c @ [newline]) \<and> complete_child (wr_expected req) c t)) \<and>
      (case r of Inr (Returned _, _) \<Rightarrow> bytes_at current_path t = bytes_at current_path s | _ \<Rightarrow> True)"
proof (cases "commit_write_core w req s")
  case (Some rt)
  obtain r t where rt: "rt = (r, t)" by (cases rt)
  have m: "write_moves req s t" "r = Inr (Returned v, x) \<Longrightarrow> bytes_at current_path t = bytes_at current_path s" for v x
    using write_section.run_moves[OF Some[unfolded rt commit_write_core_def]] by blast+
  have "case r of Inr (Returned _, _) \<Rightarrow> bytes_at current_path t = bytes_at current_path s | _ \<Rightarrow> True"
    using m(2) by (auto split: sum.splits prod.splits lock_end.splits)
  moreover have "if bytes_at current_path t = bytes_at current_path s then True
       else read_current s = Inr (wr_expected req) \<and>
         verify_write_plan (wr_plan req) (wr_proposal req) (wr_authority req) (wr_decision req) = Inr () \<and>
         get ''decision'' (wr_decision req) \<noteq> JStr ''skip'' \<and>
         list_all (\<lambda>base. base = JStr (wr_expected req))
           [get ''base_revision'' (wr_proposal req), get ''base_revision'' (wr_authority req),
            get ''base_revision'' (get ''core'' (wr_plan req))] \<and>
         (\<exists>c. bytes_at current_path t = Some (c @ [newline]) \<and> complete_child (wr_expected req) c t)"
    using m(1) by (auto simp: moves_def write_verified_def published_def check_bases_def)
  ultimately show ?thesis unfolding Some rt by simp
qed simp

end
