(* ===== verification/PlanLifecycle.thy ===== *)
theory PlanLifecycle
  imports WriteCommit
begin

text \<open>
  From planning to the next read: the items of a plan that \<open>build_write_plan\<close> returns, resolved and
  assigned the way \<open>commit_write_plan\<close> does, keep what \<open>validate_lifecycle\<close> asks of a revision.
\<close>

section \<open>The supersessions of a plan\<close>

lemma assign_rows_distinct:
  "assign_rows stream existing xs = Inr u \<Longrightarrow> distinct (map (get ''id'') xs) \<and>
   (\<forall>v\<in>set existing. JStr v \<notin> get ''id'' ` set xs)"
proof (induction stream existing xs rule: assign_rows.induct)
  case (2 stream existing row rest)
  then obtain v where v: "get ''id'' row = JStr v" "v \<noteq> []" "v \<notin> set existing"
    "assign_rows stream (v # existing) rest = Inr u"
    by (auto split: json.splits if_splits)
  from "2.IH"[OF v(1,2,3,4)] v(1,3) show ?case by auto
qed simp

lemma assigned_distinct:
  "assign_records base pending = Inr u \<Longrightarrow> stream \<in> set STREAMS \<Longrightarrow> distinct (map (get ''id'') (pending stream))"
  unfolding assign_records_def each_Inr_iff by (cases u) (blast dest: assign_rows_distinct)

lemma batch_targets_distinct:
  assumes v: "validate_batch_proposal p = Inr ()" and o: "get ''operation'' p = JStr ''supersede''"
  shows "distinct (map (\<lambda>r. get (str_of (get ''id'' r)) (get ''supersedes'' p)) (list_items (get ''records'' p)))"
proof -
  let ?rs = "list_items (get ''records'' p)" and ?s = "get ''supersedes'' p"
  let ?k = "\<lambda>r. str_of (get ''id'' r)"
  note records = validate_batch_proposalD[OF v]
  have s: "validate_batch_supersedes p ''invalid_write_proposal'' = Inr ()"
    and r: "validate_batch_records (get ''records'' p) ''invalid_write_proposal'' = Inr ()" using records by blast+
  have "distinct (map (get ''id'') ?rs)"
    using r by (auto simp: validate_batch_records_def Let_def checks_Inr_iff record_ids_def)
  moreover have ids: "get ''id'' x = JStr (?k x)" if "x \<in> set ?rs" for x
    using validate_batch_recordsD[OF r that] by (auto simp: nonempty_str_iff)
  ultimately have d: "distinct ?rs" "inj_on ?k (set ?rs)"
    by (auto simp: distinct_map inj_on_def) metis
  have held: "(?k x, get (?k x) ?s) \<in> set (dict_items ?s)" if "x \<in> set ?rs" for x
  proof -
    have "?k x \<in> set (sorted_set (map str_of (record_ids ?rs)))" using that by (simp add: record_ids_def)
    then have "?k x \<in> set (sorted_set (dict_keys ?s))"
      using s o by (simp add: validate_batch_supersedes_def Let_def)
    then show ?thesis by (intro map_of_dict_items) (simp add: has_key_def)
  qed
  have "distinct (map snd (dict_items ?s))"
    using s o by (simp add: validate_batch_supersedes_def Let_def)
  then have once: "inj_on snd (set (dict_items ?s))" by (simp add: distinct_map)
  have "inj_on (\<lambda>r. get (?k r) ?s) (set ?rs)"
  proof (rule inj_onI)
    fix x y assume x: "x \<in> set ?rs" and y: "y \<in> set ?rs" and "get (?k x) ?s = get (?k y) ?s"
    then have "(?k x, get (?k x) ?s) = (?k y, get (?k y) ?s)" using inj_onD[OF once _ held[OF x] held[OF y]] by simp
    then show "x = y" using inj_onD[OF d(2) _ x y] by simp
  qed
  then show ?thesis using d(1) by (simp add: distinct_map)
qed

abbreviation target_of :: "json \<Rightarrow> json \<times> json" where
  "target_of item \<equiv> (get ''stream'' item, get ''supersedes'' item)"

definition rows_planned :: "json list \<Rightarrow> rows" where
  "rows_planned items = (\<lambda>stream. map (get ''record'') (filter (\<lambda>item. get ''stream'' item = JStr stream) items))"

lemma single_plan_once: "distinct (map target_of (filter is_supersede (planned_records_v1 p a e)))"
  by (simp add: planned_records_v1_def is_supersede_def policy_event_def)

lemma batch_plan_once:
  assumes v: "validate_batch_proposal p = Inr ()"
    and items: "items = map (batch_planned_item p) (list_items (get ''records'' p))"
    and event: "if get ''stream'' p = JStr ''events'' \<and> get ''type'' (first_record p) = JStr ''write_policy_decision''
         then event = update_obj (hd items) [(''record'', record')] \<and>
           get ''id'' (get ''record'' event) = get ''id'' (first_record p)
         else decision_event p a e event"
    and fresh: "assign_records base (rows_planned (items @ [event])) = Inr u"
  shows "distinct (map target_of (filter is_supersede (items @ [event])))"
proof -
  let ?rs = "list_items (get ''records'' p)"
  have "?rs \<noteq> []"
    using v by (auto simp: validate_batch_proposal_def validate_batch_records_def Let_def)
  then obtain r rest where rs: "?rs = r # rest" by (cases ?rs) auto
  have first: "first_record p = r" "hd items = batch_planned_item p r" by (simp_all add: items rs first_record_def)
  have fields: "get ''stream'' (batch_planned_item p x) = get ''stream'' p"
    "get ''record'' (batch_planned_item p x) = x" "is_obj (batch_planned_item p x)"
    "is_supersede (batch_planned_item p x) \<longleftrightarrow> get ''operation'' p = JStr ''supersede''" for x
    by (simp_all add: batch_planned_item_def is_supersede_def)
  have all: "filter is_supersede items = (if get ''operation'' p = JStr ''supersede'' then items else [])"
    by (auto simp: items fields)
  have own: "distinct (map target_of items)" if "get ''operation'' p = JStr ''supersede''"
  proof -
    have "map target_of items = map (\<lambda>t. (get ''stream'' p, t)) (map (\<lambda>r. get (str_of (get ''id'' r)) (get ''supersedes'' p)) ?rs)"
      using that by (simp add: items batch_planned_item_def)
    then show ?thesis using batch_targets_distinct[OF v that] by (simp add: distinct_map inj_on_def)
  qed
  have "\<not> is_supersede event" if op: "get ''operation'' p = JStr ''supersede''"
  proof (cases "get ''stream'' p = JStr ''events'' \<and> get ''type'' (first_record p) = JStr ''write_policy_decision''")
    case True
    then have ev: "event = update_obj (hd items) [(''record'', record')]"
      "get ''id'' (get ''record'' event) = get ''id'' r" using event first by auto
    have "get ''stream'' event = JStr ''events''" using True ev(1) first fields by simp
    then have "map (get ''id'') (rows_planned (items @ [event]) ''events'') = map (get ''id'') ?rs @ [get ''id'' r]"
      using True ev(2) by (simp add: rows_planned_def items fields comp_def)
    moreover have "distinct (map (get ''id'') (rows_planned (items @ [event]) ''events''))"
      by (rule assigned_distinct[OF fresh]) (simp add: STREAMS_def)
    ultimately show ?thesis by (simp add: rs)
  next
    case False
    then have "decision_event p a e event" using event by (simp only: if_False)
    then show ?thesis by (simp add: decision_event_def is_supersede_def Let_def)
  qed
  moreover have "\<not> is_supersede event" if op: "get ''operation'' p \<noteq> JStr ''supersede''"
  proof (cases "get ''stream'' p = JStr ''events'' \<and> get ''type'' (first_record p) = JStr ''write_policy_decision''")
    case True
    then have "event = update_obj (hd items) [(''record'', record')]" using event by auto
    then show ?thesis using op first by (simp add: fields is_supersede_def) (simp add: batch_planned_item_def)
  next
    case False
    then have "decision_event p a e event" using event by (simp only: if_False)
    then show ?thesis by (simp add: decision_event_def is_supersede_def Let_def)
  qed
  ultimately show ?thesis using own all by auto
qed

section \<open>A planned write keeps the lifecycle\<close>

lemma built_plan_items:
  assumes b: "build_write_plan p a d = Inr plan"
    and fresh: "assign_records base (rows_planned (list_items (get ''records'' plan))) = Inr u"
  shows "list_all valid_item (list_items (get ''records'' plan)) \<and>
    distinct (map target_of (filter is_supersede (list_items (get ''records'' plan))))"
proof -
  from b obtain c rs where plan: "plan = plan_of (get ''base_revision'' p) c rs" and valid: "\<forall>item \<in> set rs. valid_item item"
    by (rule build_write_planD)
  have rs: "list_items (get ''records'' plan) = rs" by (simp add: plan plan_of_def)
  have "distinct (map target_of (filter is_supersede (list_items (get ''records'' plan))))"
    using b
  proof (cases rule: build_write_plan_cases)
    case single
    from single(3) obtain c' where "plan = plan_of (get ''base_revision'' p) c' (planned_records_v1 p a c')"
      by (rule build_plan_v1D)
    then have "list_items (get ''records'' plan) = planned_records_v1 p a c'" by (simp add: plan_of_def)
    then show ?thesis using single_plan_once by simp
  next
    case batch
    show ?thesis
    proof (cases "get ''decision'' (get ''core'' plan) = JStr ''skip''")
      case True
      obtain e where e: "evaluate_batch_write p a = Inr e"
        using batch by (auto simp: build_batch_write_plan_def evaluate_write_batch)
      then have "get ''decision'' e = JStr ''skip''"
        using True batch by (auto simp: build_batch_write_plan_def evaluate_write_batch Let_def plan_core_def split: option.splits if_splits)
      then have "list_items (get ''records'' plan) = []"
        using batch e by (auto simp: build_batch_write_plan_def evaluate_write_batch)
      then show ?thesis by simp
    next
      case False
      from batch_plan_parts[OF batch(2) b False] obtain e items event where
        e: "evaluate_write p a = Inr e" and plan': "list_items (get ''records'' plan) = items @ [event]"
        and items: "items = map (batch_planned_item p) (list_items (get ''records'' p))"
        and event: "if get ''stream'' p = JStr ''events'' \<and> get ''type'' (first_record p) = JStr ''write_policy_decision''
         then event = update_obj (hd items) [(''record'', update_obj (first_record p)
                [(''payload'', update_obj (get ''payload'' (first_record p)) (event_binding p e))])] \<and>
              get ''id'' (get ''record'' event) = get ''id'' (first_record p)
         else decision_event p a e event" by blast
      have "validate_batch_proposal p = Inr ()"
        using e batch(2) by (auto simp: evaluate_write_batch evaluate_batch_write_def)
      from batch_plan_once[OF this items event fresh[unfolded plan']] show ?thesis unfolding plan' .
    qed
  qed
  then show ?thesis using valid rs by (simp add: list_all_iff)
qed

lemma planned_supersedes_ok:
  assumes items: "list_all valid_item items" and fresh: "assign_records base (rows_planned items) = Inr u"
  shows "list_all (supersede_item_ok (rows_planned items)) (filter is_supersede items)"
  unfolding list_all_iff
proof
  fix item assume "item \<in> set (filter is_supersede items)"
  then have i: "item \<in> set items" "get ''operation'' item = JStr ''supersede''" by (auto simp: is_supersede_def)
  have "valid_item item" using items i(1) unfolding list_all_iff by blast
  then have v: "str_in (get ''stream'' item) write_streams" "nonempty_str (get ''supersedes'' item)"
    using i(2) by (simp_all add: validate_plan_item_def)
  then obtain stream where stream: "get ''stream'' item = JStr stream" "stream \<in> set STREAMS"
    by (auto simp: str_in_iff write_streams_def STREAMS_def)
  have there: "get ''record'' item \<in> set (rows_planned items stream)"
    using i(1) stream(1) by (auto simp: rows_planned_def)
  have "assign_rows stream (map (\<lambda>row. py_str (get ''id'' row)) (base stream)) (rows_planned items stream) = Inr ()"
    using fresh stream(2) by (simp add: assign_records_def)
  from assign_rows_fresh[OF this there] have "is_str (get ''id'' (get ''record'' item))" by auto
  then show "supersede_item_ok (rows_planned items) item"
    using v stream there by (auto simp: supersede_item_ok_def str_in_iff nonempty_str_iff)
qed

text \<open>C23: A planned write never breaks the lifecycle of the store. When the supersede targets of a plan that
  \<open>build_write_plan\<close> returned, for any proposal, authority and decision, resolve against the observed
  revision as \<open>commit_write_plan\<close> resolves them, and the rows it makes of the plan are assigned to the
  records of that revision, then the supersessions of the revision followed by the new ones, with its
  streams followed by the new rows, satisfy everything \<open>validate_lifecycle\<close> asks of supersessions on
  the next read: no target superseded twice, both records of every entry present, no cycle.\<close>

theorem planned_write_keeps_lifecycle:
  "case (build_write_plan p a d, snapshot_at n (Some observed) True s) of
     (Inr plan, Inr snap) \<Rightarrow>
       (case (resolve_supersede_targets n plan observed s, plan_rows plan) of
          (Inr added, Inr pending) \<Rightarrow>
            if assign_records (snap_records snap) pending = Inr ()
            then lifecycle_ok (map_items ''supersedes_map'' (snap_manifest snap) @ added)
              (\<lambda>stream. snap_raw snap stream @ pending stream)
            else True
        | _ \<Rightarrow> True)
   | _ \<Rightarrow> True"
proof -
  have "lifecycle_ok (map_items ''supersedes_map'' (snap_manifest snap) @ added)
      (\<lambda>stream. snap_raw snap stream @ pending stream)"
    if b: "build_write_plan p a d = Inr plan" and snap: "snapshot_at n (Some observed) True s = Inr snap"
      and added: "resolve_supersede_targets n plan observed s = Inr added" and rows: "plan_rows plan = Inr pending"
      and fresh: "assign_records (snap_records snap) pending = Inr ()" for plan snap added pending
  proof -
    have pending: "pending = rows_planned (list_items (get ''records'' plan))"
      using rows by (auto simp: plan_rows_def rows_planned_def Let_def)
    note items = built_plan_items[OF b fresh[unfolded pending]]
    show ?thesis
      by (rule supersede_keeps_lifecycle[OF snap added fresh])
        (use items planned_supersedes_ok[OF _ fresh[unfolded pending]] pending in auto)
  qed
  then show ?thesis by (simp split: sum.split)
qed

end
