(* ===== verification/ChildManifest.thy ===== *)
theory ChildManifest
  imports Append
begin

text \<open>
  The child manifest a commit builds and validates before it writes it: which of the arguments of the
  commit the validator can still reject once the base was read, and which it never does.
\<close>

section \<open>The validator on a child\<close>

lemma check_refutations_append:
  "check_refutation_entries error seen (xs @ ys) = Inr u \<longleftrightarrow>
   check_refutation_entries error seen xs = Inr () \<and>
   check_refutation_entries error
     (List.rev (map (\<lambda>e. (get ''stream'' e, get ''target_record_sha256'' e)) xs) @ seen) ys = Inr ()"
  by (induction xs arbitrary: seen) (auto simp: Let_def)

lemma child_refutations_get:
  assumes "build_child_manifest base c = Inr m" and "child_schema base (child_operation c) \<noteq> rev1"
  shows "get ''refutations_map'' m = JArr (child_refutations c)"
  using assms by (simp add: child_extras_get child_extras_maps del: get_mk_obj)

lemma child_supersedes_get:
  assumes "build_child_manifest base c = Inr m"
  shows "get ''supersedes_map'' m = (if child_supersedes c \<noteq> [] \<or> child_schema base (child_operation c) = rev3
    then JArr (child_supersedes c) else JNull)"
  using assms by (simp add: child_extras_get child_extras_maps del: get_mk_obj)

lemma child_segments_get:
  assumes "build_child_manifest base c = Inr m" and "stream \<in> set STREAMS"
  shows "get (segments_key stream) m = JArr (map JStr (child_segments c stream))"
  using child_core_get[OF assms(1), of "segments_key stream"] assms(2)
  by (auto simp: STREAMS_def segments_key_def child_core_def)

lemma child_schema_get:
  assumes "build_child_manifest base c = Inr m"
  shows "get ''schema'' m = child_schema base (child_operation c)"
  using assms by (auto simp: build_child_manifest_def child_core_def child_extras_def Let_def split: option.splits)

definition child_lists_ok :: "child \<Rightarrow> bool" where
  "child_lists_ok c \<longleftrightarrow>
     list_all (\<lambda>stream. distinct (child_segments c stream) \<and> list_all digest_shape (child_segments c stream)) STREAMS \<and>
     list_all (\<lambda>entry. check_supersedes_entry IntegrityError entry = Inr ()) (child_supersedes c) \<and>
     check_refutation_entries IntegrityError [] (child_refutations c) = Inr ()"

lemma child_valid_iff:
  assumes base: "validate_manifest IntegrityError base = Inr ()" and build: "build_child_manifest base c = Inr m"
    and args: "child_revision c = int_of (get ''revision'' base) + 1" "digest_shape (child_parent c)"
      "digest_shape (child_checkpoint c)" "uuid_shape (child_transaction c)"
    and first: "child_schema base (child_operation c) = rev1 \<Longrightarrow> child_refutations c = []"
  shows "validate_manifest IntegrityError m = Inr () \<longleftrightarrow> child_lists_ok c"
proof
  assume "child_lists_ok c"
  then have "child_ok base c" using args by (simp add: child_ok_def child_lists_ok_def)
  from child_manifest_valid[OF base this build] show "validate_manifest IntegrityError m = Inr ()" by blast
next
  assume v: "validate_manifest IntegrityError m = Inr ()"
  have "check_segment_list IntegrityError (get (segments_key stream) m) = Inr ()" if "stream \<in> set STREAMS" for stream
    using v that by (auto simp: validate_manifest_def Let_def each_Inr_iff)
  then have segments: "list_all (\<lambda>stream. distinct (child_segments c stream) \<and>
      list_all digest_shape (child_segments c stream)) STREAMS"
    by (simp add: list_all_iff child_segments_get[OF build])
  have "check_supersedes_map IntegrityError (get ''supersedes_map'' m) = Inr ()"
    using v by (simp add: validate_manifest_def Let_def)
  then have supersedes: "list_all (\<lambda>entry. check_supersedes_entry IntegrityError entry = Inr ()) (child_supersedes c)"
    by (cases "child_supersedes c = []") (simp_all add: child_supersedes_get[OF build] check_supersedes_map_def list_all_iff)
  have "check_refutation_entries IntegrityError [] (child_refutations c) = Inr ()"
  proof (cases "child_schema base (child_operation c) = rev1")
    case False
    then have "child_schema base (child_operation c) \<in> {rev2, rev3}" using child_schema_cases[of base "child_operation c"] by blast
    then have "check_refutations IntegrityError m = Inr ()"
      using v by (simp add: validate_manifest_def Let_def child_schema_get[OF build])
    then show ?thesis by (simp add: check_refutations_def Let_def child_refutations_get[OF build False])
  qed (simp add: first)
  then show "child_lists_ok c" using segments supersedes by (simp add: child_lists_ok_def)
qed

section \<open>The child of a commit\<close>

lemma new_segments_list:
  "list_all (\<lambda>stream. distinct (child_segment_ids base (new_segments STREAMS pending) stream) \<and>
     list_all digest_shape (child_segment_ids base (new_segments STREAMS pending) stream)) STREAMS \<longleftrightarrow>
   list_all (\<lambda>stream. distinct (listed_segments base stream) \<and> list_all digest_shape (listed_segments base stream)) STREAMS \<and>
   list_all (\<lambda>(stream, i). i \<notin> set (listed_segments base stream)) (new_segments STREAMS pending)"
proof -
  have ids: "child_segment_ids base (new_segments STREAMS pending) stream = listed_segments base stream @
      (if pending stream = [] then [] else [digest_bytes (segment_text (pending stream))])" if "stream \<in> set STREAMS" for stream
    using that by (simp add: child_segment_ids_def listed_segments_def map_of_new_segments)
  have fresh: "list_all (\<lambda>(stream, i). i \<notin> set (listed_segments base stream)) (new_segments STREAMS pending) \<longleftrightarrow>
      (\<forall>stream\<in>set STREAMS. pending stream = [] \<or> digest_bytes (segment_text (pending stream)) \<notin> set (listed_segments base stream))"
    by (auto simp: new_segments_def list_all_iff)
  show ?thesis unfolding fresh unfolding list_all_iff using ids
    by (auto simp del: distinct_append simp: distinct_append[of _ "[_]", simplified] split: if_splits)
qed

lemma base_lists:
  assumes "validate_manifest IntegrityError base = Inr ()"
  shows "list_all (\<lambda>stream. distinct (listed_segments base stream) \<and> list_all digest_shape (listed_segments base stream)) STREAMS"
    and "list_all (\<lambda>entry. check_supersedes_entry IntegrityError entry = Inr ()) (map_items ''supersedes_map'' base)"
    and "check_refutation_entries IntegrityError [] (map_items ''refutations_map'' base) = Inr ()"
proof -
  show "list_all (\<lambda>stream. distinct (listed_segments base stream) \<and> list_all digest_shape (listed_segments base stream)) STREAMS"
    unfolding list_all_iff[of _ STREAMS]
  proof
    fix stream assume stream: "stream \<in> set STREAMS"
    then have "check_segment_list IntegrityError (get (segments_key stream) base) = Inr ()"
      using assms by (auto simp: validate_manifest_def Let_def each_Inr_iff)
    moreover have "get (segments_key stream) base = JArr (map JStr (listed_segments base stream))"
    proof -
      obtain xs where xs: "get (segments_key stream) base = JArr xs" "\<forall>x\<in>set xs. is_str x"
        using calculation by (cases "get (segments_key stream) base") (auto simp: check_segment_list_def list_all_iff)
      then have "map (\<lambda>x. JStr (str_of x)) xs = xs" by (intro map_idI) (auto simp: is_str_iff)
      then show ?thesis by (simp add: listed_segments_def map_items_def xs(1) comp_def)
    qed
    ultimately show "distinct (listed_segments base stream) \<and> list_all digest_shape (listed_segments base stream)" by simp
  qed
  have "check_supersedes_map IntegrityError (get ''supersedes_map'' base) = Inr ()"
    using assms by (simp add: validate_manifest_def Let_def)
  then show "list_all (\<lambda>entry. check_supersedes_entry IntegrityError entry = Inr ()) (map_items ''supersedes_map'' base)"
    by (auto simp: check_supersedes_map_def map_items_def list_all_iff when_ok_def split: if_splits json.splits)
  show "check_refutation_entries IntegrityError [] (map_items ''refutations_map'' base) = Inr ()"
  proof (cases "get ''schema'' base = rev1")
    case True
    then have "child_schema base ''write'' = rev1" by (simp add: child_schema_def)
    from no_refutations_before[OF assms this] show ?thesis by simp
  next
    case False
    then have "get ''schema'' base \<in> {rev2, rev3}" using assms by (auto simp: validate_manifest_def Let_def)
    then have "check_refutations IntegrityError base = Inr ()" using assms by (simp add: validate_manifest_def Let_def)
    then show ?thesis by (auto simp: check_refutations_def Let_def map_items_def split: json.splits)
  qed
qed

text \<open>What the validator asks of a refutation a commit adds to those of its base.\<close>

definition new_refutation_ok :: "json \<Rightarrow> json \<Rightarrow> bool" where
  "new_refutation_ok base entry \<longleftrightarrow>
     str_of (get ''stream'' entry) \<in> set STREAMS \<and> digest_shape (str_of (get ''target_record_sha256'' entry)) \<and>
     (get ''stream'' entry, get ''target_record_sha256'' entry) \<notin>
       set (map (\<lambda>e. (get ''stream'' e, get ''target_record_sha256'' e)) (map_items ''refutations_map'' base))"

lemma refuted_entry_ok:
  "check_refutation_entries IntegrityError seen (refuted_entries req) = Inr () \<longleftrightarrow>
   list_all (\<lambda>entry. str_of (get ''stream'' entry) \<in> set STREAMS \<and> digest_shape (str_of (get ''target_record_sha256'' entry)) \<and>
     (get ''stream'' entry, get ''target_record_sha256'' entry) \<notin> set seen) (refuted_entries req)"
  by (cases "req_refute req")
    (auto simp: refuted_entries_def Let_def checks.simps same_keys_iff str_in_iff split: if_splits)

lemma read_manifest_digest: "read_manifest revision s = Inr m \<Longrightarrow> digest_shape revision"
  by (auto simp: read_manifest_def read_json_object_def get_bytes_def path_for_def bare_digest_Inr_iff
      split: sum.splits if_splits option.splits)

lemma validate_parent: "validate_manifest IntegrityError m = Inr () \<Longrightarrow> get ''parent'' m = JStr t \<Longrightarrow> t \<noteq> []"
  by (auto simp: validate_manifest_def Let_def digest_shape_def)

lemma written_checkpoint:
  assumes "write_checkpoint new base s = (Inr checkpoint, t)" and "is_str (get ''checkpoint'' base)"
    and "digest_shape (str_of (get ''checkpoint'' base))"
  shows "digest_shape checkpoint"
proof (cases new)
  case None
  then show ?thesis using assms by (auto simp: write_checkpoint_def ret_def is_str_iff)
next
  case (Some c)
  then have "write_json_object ''checkpoints'' c s = (Inr checkpoint, t)" using assms(1) by (simp add: write_checkpoint_def)
  then have "checkpoint = digest_json c" using write_json_object_held(1)[of "''checkpoints''" c s checkpoint t] by simp
  then show ?thesis by (simp add: digest_shape_digest_json)
qed

text \<open>C13: The last check a commit makes before it writes its manifest. Once the base was read as a
  snapshot, the attempt is valid for the request, and the segments, the checkpoint and the refutation objects
  were written, the manifest that \<open>build_child_manifest\<close> returns has the observed revision as its parent
  and its number plus one as its own, and \<open>validate_manifest\<close> accepts it exactly when the request named its base,
  no new segment has the digest of one that the base already lists in that stream, every entry of the
  supersessions of the request is well formed, and the new refutation, if there is one, is of a known stream
  and a digest that no refutation of the base already names: everything else the validator checks, for
  each generation of manifests, follows.\<close>

theorem commit_child_valid:
  "case (snapshot_at n (Some (req_observed req)) True s, validate_attempt (req_attempt req)) of
     (Inr base, Inr checked) \<Rightarrow>
       (case write_segments STREAMS (req_pending req) s1 of (segments, s2) \<Rightarrow>
        case write_checkpoint (new_checkpoint req checked base) (snap_manifest base) s2 of (written, s3) \<Rightarrow>
        case write_refute_objects req checked s3 of (objects, _) \<Rightarrow>
          (case (check_commit_request req checked, segments, written, objects) of
             (Inr _, Inr new, Inr checkpoint, Inr refuted) \<Rightarrow>
               (case build_child_manifest (snap_manifest base) (child_of req checked base new checkpoint refuted) of
                  Inl _ \<Rightarrow> True
                | Inr m \<Rightarrow>
                    get ''parent'' m = JStr (req_observed req) \<and>
                    get ''revision'' m = JInt (int_of (get ''revision'' (snap_manifest base)) + 1) \<and>
                    (validate_manifest IntegrityError m = Inr () \<longleftrightarrow>
                       req_observed req \<noteq> [] \<and>
                       list_all (\<lambda>(stream, i). i \<notin> set (listed_segments (snap_manifest base) stream)) new \<and>
                       list_all (\<lambda>entry. check_supersedes_entry IntegrityError entry = Inr ()) (req_supersedes req) \<and>
                       list_all (new_refutation_ok (snap_manifest base)) (refuted_entries req)))
           | _ \<Rightarrow> True))
   | _ \<Rightarrow> True"
proof -
  have "get ''parent'' m = JStr (req_observed req) \<and>
      get ''revision'' m = JInt (int_of (get ''revision'' (snap_manifest base)) + 1) \<and>
      (validate_manifest IntegrityError m = Inr () \<longleftrightarrow>
         req_observed req \<noteq> [] \<and>
         list_all (\<lambda>(stream, i). i \<notin> set (listed_segments (snap_manifest base) stream)) new \<and>
         list_all (\<lambda>entry. check_supersedes_entry IntegrityError entry = Inr ()) (req_supersedes req) \<and>
         list_all (new_refutation_ok (snap_manifest base)) (refuted_entries req))"
    if snap: "snapshot_at n (Some (req_observed req)) True s = Inr base" and v: "validate_attempt (req_attempt req) = Inr checked"
      and ask: "check_commit_request req checked = Inr u"
      and w: "write_segments STREAMS (req_pending req) s1 = (Inr new, s2)"
      and c: "write_checkpoint (new_checkpoint req checked base) (snap_manifest base) s2 = (Inr checkpoint, s3)"
      and r: "write_refute_objects req checked s3 = (Inr refuted, s4)"
      and build: "build_child_manifest (snap_manifest base) (child_of req checked base new checkpoint refuted) = Inr m"
    for base checked u new s2 checkpoint s3 refuted s4 m
  proof -
    let ?m = "snap_manifest base" and ?c = "child_of req checked base new checkpoint refuted"
    have run: "snapshot_under_gate n (Some (req_observed req)) True s = Inr base"
      using snap by (simp add: snapshot_at_def split: if_splits)
    note valid = snapshotD(5)[OF run] and lists = base_lists[OF snapshotD(5)[OF run]]
    have new: "new = new_segments STREAMS (req_pending req)" using write_segments_there[OF w] by blast
    have fields: "child_revision ?c = int_of (get ''revision'' ?m) + 1" "child_parent ?c = req_observed req"
      "child_segments ?c = child_segment_ids ?m new" "child_checkpoint ?c = checkpoint"
      "child_transaction ?c = str_of (get ''transaction_id'' checked)"
      "child_operation ?c = str_of (get ''operation'' checked)"
      "child_supersedes ?c = map_items ''supersedes_map'' ?m @ req_supersedes req"
      "child_refutations ?c = map_items ''refutations_map'' ?m @ refuted_entries req"
      using refuted_written[OF r] by (simp_all add: child_of_def Let_def)
    have uuid: "uuid_shape (str_of (get ''transaction_id'' checked))"
      using v by (auto simp: validate_attempt_iff get_attempt)
    have "check_identifier IntegrityError (get ''checkpoint'' ?m) = Inr ()"
      using valid by (simp add: validate_manifest_def Let_def)
    then have cp: "digest_shape checkpoint"
      by (intro written_checkpoint[OF c]) (auto simp: check_identifier_def bare_digest_value_def digest_text_def bare_digest_Inr_iff split: json.splits)
    have refs: "child_refutations ?c = []" if "child_schema ?m (child_operation ?c) = rev1"
    proof -
      have "str_of (get ''operation'' checked) \<noteq> ''refute''" using that by (auto simp: fields child_schema_def split: if_splits)
      then have "refuted_entries req = []"
        using ask by (cases "get ''operation'' checked = JStr ''refute''")
          (auto simp: check_commit_request_def Let_def refuted_entries_def)
      then show ?thesis using no_refutations_before[OF valid that] by (simp add: fields)
    qed
    have own: "get ''parent'' m = JStr (req_observed req)" "get ''revision'' m = JInt (int_of (get ''revision'' ?m) + 1)"
      using child_manifest_parent[OF build] child_manifest_fields(4)[OF build] by (simp_all add: fields)
    have iff: "child_lists_ok ?c \<longleftrightarrow>
         list_all (\<lambda>(stream, i). i \<notin> set (listed_segments ?m stream)) new \<and>
         list_all (\<lambda>entry. check_supersedes_entry IntegrityError entry = Inr ()) (req_supersedes req) \<and>
         list_all (new_refutation_ok ?m) (refuted_entries req)"
    proof -
      have "check_refutation_entries IntegrityError [] (map_items ''refutations_map'' ?m @ refuted_entries req) = Inr () \<longleftrightarrow>
          list_all (new_refutation_ok ?m) (refuted_entries req)"
        unfolding check_refutations_append refuted_entry_ok using lists(3) by (simp add: new_refutation_ok_def[abs_def])
      then show ?thesis unfolding child_lists_ok_def fields unfolding new new_segments_list using lists(1,2) by simp
    qed
    show ?thesis
    proof (cases "req_observed req = []")
      case True
      then show ?thesis using own validate_parent[of m] by auto
    next
      case False
      have "audited_manifest (req_observed req) True s = Inr ?m"
        using run False by (cases n) (auto simp: requested_def)
      then have "digest_shape (req_observed req)" by (auto simp: audited_manifest_def intro: read_manifest_digest)
      with child_valid_iff[OF valid build _ _ _ _ refs] have "validate_manifest IntegrityError m = Inr () \<longleftrightarrow> child_lists_ok ?c"
        using uuid cp by (simp add: fields)
      then show ?thesis using own iff False by simp
    qed
  qed
  then show ?thesis by (simp split: sum.split prod.split)
qed

end
