(* ===== verification/CheckpointCommit.thy ===== *)
theory CheckpointCommit
  imports Mutation
begin

text \<open>
  The governed checkpoint of \<open>checkpoints.py\<close>: the template of an authority, the read of the current
  checkpoint, planning, and \<open>commit_checkpoint\<close>, which verifies the plan against the state before the
  lock and moves \<open>CURRENT\<close> under it.
\<close>

section \<open>Reading and planning\<close>

definition checkpoint_proposal :: "string \<Rightarrow> snapshot \<Rightarrow> json \<Rightarrow> json" where
  "checkpoint_proposal observed snap working_state = mk_obj
     [(''schema'', JStr ''an-kla/checkpoint-proposal-v1''), (''base_revision'', JStr observed),
      (''parent_checkpoint'', get ''checkpoint'' (snap_manifest snap)), (''working_state'', working_state)]"

definition default_issuer_config :: json where
  "default_issuer_config = mk_obj
     [(''kind'', JStr ''model''), (''id'', JStr ''agent-local''), (''profile'', JStr ''manual-cli/v1'')]"

definition emit_authority_template :: "nat \<Rightarrow> json \<Rightarrow> os \<Rightarrow> json res" where
  "emit_authority_template n working_state s =
     andthen (validate_working_state working_state) (\<lambda>_.
     andthen (read_current s) (\<lambda>observed.
     andthen (snapshot_at n (Some observed) True s) (\<lambda>snap.
       Inr (mk_obj
         [(''schema'', JStr ''an-kla/checkpoint-authority-v1''),
          (''proposal_sha256'', JStr (digest_json (checkpoint_proposal observed snap working_state))),
          (''base_revision'', JStr observed), (''authority_class'', JStr ''model_derived''),
          (''issuer'', mk_obj
             [(''kind'', JStr ''model''), (''id'', JStr ''agent-local''),
              (''configuration_fingerprint'', JStr (digest_json default_issuer_config))]),
          (''evidence'', JArr []),
          (''scope'', mk_obj [(''operation'', JStr ''checkpoint''), (''fields'', strs (sorted_set FIELDS))])]))))"

definition show_checkpoint :: "nat \<Rightarrow> os \<Rightarrow> json res" where
  "show_checkpoint n s =
     andthen (snapshot_at n None True s) (\<lambda>snap.
       Inr (mk_obj
         [(''schema'', JStr ''an-kla/checkpoint-show-v1''), (''untrusted_memory_data'', JBool True),
          (''revision'', JStr (snap_revision snap)),
          (''checkpoint_digest'', get ''checkpoint'' (snap_manifest snap)),
          (''checkpoint'', snap_checkpoint snap)]))"

text \<open>The working state of a checkpoint of the second schema is that of the proposal.\<close>

definition working_state_kept :: "snapshot \<Rightarrow> json \<Rightarrow> bool" where
  "working_state_kept snap working_state \<longleftrightarrow>
     get ''schema'' (snap_checkpoint snap) = JStr ''an-kla/checkpoint-v2'' \<and>
     py_eq (get ''working_state'' (snap_checkpoint snap)) working_state"

definition next_revision :: "snapshot \<Rightarrow> int" where
  "next_revision snap = int_of (get ''revision'' (snap_manifest snap)) + 1"

definition plan_checkpoint :: "nat \<Rightarrow> json \<Rightarrow> json \<Rightarrow> os \<Rightarrow> json res" where
  "plan_checkpoint n working_state authority s =
     andthen (validate_working_state working_state) (\<lambda>_.
     andthen (read_current s) (\<lambda>observed.
     andthen (snapshot_at n (Some observed) True s) (\<lambda>snap.
     let proposal = checkpoint_proposal observed snap working_state in
     andthen (evaluate_checkpoint proposal authority) (\<lambda>evaluated.
     let decision = (if working_state_kept snap working_state \<and> get ''decision'' evaluated = JStr ''write''
                     then unchanged_decision evaluated else evaluated) in
     andthen (build_checkpoint_plan proposal authority decision (next_revision snap)) (\<lambda>plan.
       Inr (mk_obj
         [(''schema'', JStr ''an-kla/checkpoint-planning-result-v1''), (''current_revision'', JStr observed),
          (''proposal'', proposal), (''authority'', authority), (''decision'', decision), (''plan'', plan)]))))))"

section \<open>The planning result that is committed\<close>

record checkpoint_plan_parts =
  cp_proposal :: json
  cp_authority :: json
  cp_decision :: json
  cp_plan :: json

text \<open>\<open>dict(value)\<close>: a list of pairs makes an object too, and so does an empty text; keys that are not
  texts are not represented.\<close>

fun dict_pair :: "json \<Rightarrow> (string \<times> json) option" where
  "dict_pair (JArr [JStr k, v]) = Some (k, v)"
| "dict_pair _ = None"

fun dict_of :: "json \<Rightarrow> json res" where
  "dict_of (JObj m) = Inr (JObj m)"
| "dict_of (JArr xs) =
     (case those (map dict_pair xs) of Some pairs \<Rightarrow> Inr (mk_obj pairs) | None \<Rightarrow> raise TypeError ''dict'')"
| "dict_of (JStr t) = (if t = [] then Inr (JObj []) else raise ValueError ''dict'')"
| "dict_of _ = raise TypeError ''dict''"

definition checkpoint_planning :: "json \<Rightarrow> string \<Rightarrow> checkpoint_plan_parts res" where
  "checkpoint_planning value expected =
     (let invalid = cpe ''invalid_checkpoint_plan'' in
      andthen (checks
        [ensure (same_keys value
             [''schema'', ''current_revision'', ''proposal'', ''authority'', ''decision'', ''plan''])
           (invalid ''planning:keys''),
         ensure (get ''schema'' value = JStr ''an-kla/checkpoint-planning-result-v1'') (invalid ''planning.schema''),
         ensure (get ''current_revision'' value = JStr expected) (invalid ''planning.current_revision'')]) (\<lambda>_.
      andthen (dict_of (get ''proposal'' value)) (\<lambda>proposal.
      andthen (dict_of (get ''authority'' value)) (\<lambda>authority.
      andthen (dict_of (get ''decision'' value)) (\<lambda>decision.
      andthen (dict_of (get ''plan'' value)) (\<lambda>plan.
        Inr \<lparr>cp_proposal = proposal, cp_authority = authority, cp_decision = decision, cp_plan = plan\<rparr>))))))"

definition parent_mismatch :: "string \<Rightarrow> exn" where
  "parent_mismatch detail = cpe ''checkpoint_parent_mismatch'' detail"

text \<open>What is verified against the snapshot of the expected revision, before the lock.\<close>

definition verify_checkpoint :: "checkpoint_plan_parts \<Rightarrow> string \<Rightarrow> snapshot \<Rightarrow> unit res" where
  "verify_checkpoint p expected snap =
     (let proposal = cp_proposal p; parent = get ''checkpoint'' (snap_manifest snap);
          state = (if has_key ''working_state'' proposal then get ''working_state'' proposal else JObj []) in
      checks
       [ensure (get ''base_revision'' proposal = JStr expected) (parent_mismatch ''base_revision:not_current''),
        ensure (get ''parent_checkpoint'' proposal = parent) (parent_mismatch ''parent_checkpoint:not_current''),
        ensure (is_obj state) (Exn AttributeError ''get'' None),
        ensure (get ''supersedes_checkpoint'' state = parent) (parent_mismatch ''supersedes_checkpoint:not_current''),
        verify_checkpoint_plan (cp_plan p) proposal (cp_authority p) (cp_decision p) (next_revision snap),
        ensure (get ''reasons'' (cp_decision p) \<noteq> strs [''checkpoint_unchanged''] \<or>
                working_state_kept snap (get ''working_state'' proposal))
          (cpe ''invalid_checkpoint_plan'' ''decision:checkpoint_unchanged'')])"

section \<open>Committing\<close>

record checkpoint_ready =
  cr_binding :: identity_binding
  cr_context :: context_map
  cr_snapshot :: snapshot
  cr_attempt :: "json option"

definition checkpoint_before ::
    "world \<Rightarrow> checkpoint_plan_parts \<Rightarrow> string \<Rightarrow> string option \<Rightarrow> checkpoint_ready io" where
  "checkpoint_before w p expected txid =
     bind_io (lift (ensure (get ''decision'' (cp_decision p) \<noteq> JStr ''write'' \<or> txid \<noteq> None)
                      (cpe ''checkpoint_transaction_id_required'' ''transaction_id''))) (\<lambda>_.
     bind_io (begin_mutation w) (\<lambda>(b, ctx).
     bind_io (asks (snapshot_at (w_depth w) (Some expected) True)) (\<lambda>snap.
     bind_io (lift (verify_checkpoint p expected snap)) (\<lambda>_.
     bind_io (if get ''decision'' (cp_decision p) = JStr ''write''
              then bind_io (lift (begin_transaction (w_fresh w) ''checkpoint'' (opt_str txid)
                     (plan_binding expected (get ''plan_fingerprint'' (cp_plan p))))) (\<lambda>a. ret (Some a))
              else ret None) (\<lambda>attempt.
       ret \<lparr>cr_binding = b, cr_context = ctx, cr_snapshot = snap, cr_attempt = attempt\<rparr>)))))"

text \<open>\<open>store._commit_locked\<close> with the checkpoint of the plan.\<close>

definition commit_checkpoint_locked ::
    "world \<Rightarrow> checkpoint_plan_parts \<Rightarrow> string \<Rightarrow> checkpoint_ready \<Rightarrow> string \<Rightarrow> lock_end io" where
  "commit_checkpoint_locked w p expected ready identity =
     (let patch = get ''checkpoint'' (cp_plan p) in
      bind_io (lift (case cr_attempt ready of
                 Some attempt \<Rightarrow> Inr attempt
               | None \<Rightarrow> internal_attempt (w_fresh w) expected (mutation_of expected patch no_records None [] None)))
        (\<lambda>attempt.
      bind_io (commit_locked (w_depth w) (Some (cr_context ready))
          \<lparr>req_observed = expected, req_checkpoint_patch = patch, req_pending = no_records,
           req_attempt = attempt, req_policy = None, req_supersedes = [], req_refute = None,
           req_identity = Some identity\<rparr>)
        (\<lambda>(revision, outcome). ret (Committed revision outcome))))"

definition checkpoint_result :: "json \<Rightarrow> string \<Rightarrow> json \<Rightarrow> json \<Rightarrow> json \<Rightarrow> json" where
  "checkpoint_result committed revision checkpoint fingerprint outcome = mk_obj
     [(''schema'', JStr ''an-kla/checkpoint-commit-result-v1''), (''committed'', committed),
      (''revision'', JStr revision), (''checkpoint'', checkpoint), (''plan_fingerprint'', fingerprint),
      (''outcome'', outcome)]"

text \<open>The block under the lock. The identity is compared with the expected revision before \<open>CURRENT\<close> is.\<close>

definition checkpoint_locked ::
    "world \<Rightarrow> checkpoint_plan_parts \<Rightarrow> string \<Rightarrow> string option \<Rightarrow> checkpoint_ready \<Rightarrow> lock_end io" where
  "checkpoint_locked w p expected txid ready =
     (let changed = cpe ''checkpoint_plan_base_changed'' in
      bind_io (asks read_current) (\<lambda>observed.
      bind_io (asks (assert_unchanged (project_root (w_site w)) (cr_binding ready) expected)) (\<lambda>identity.
        if observed \<noteq> expected then
          (case (cr_attempt ready, txid) of
             (Some _, Some t) \<Rightarrow>
               bind_io (asks (inspect_transaction t)) (\<lambda>inspected.
               bind_io (lift (ensure (get ''committed'' inspected = JBool True)
                                (changed ''current:advanced_uncommitted_transaction''))) (\<lambda>_.
                 commit_checkpoint_locked w p expected ready identity))
           | _ \<Rightarrow> lift (Inl (changed ''current:advanced'')))
        else if get ''decision'' (cp_decision p) = JStr ''skip'' then
          ret (Returned (checkpoint_result (JBool False) observed (get ''checkpoint'' (snap_manifest (cr_snapshot ready)))
                 (get ''plan_fingerprint'' (cp_plan p)) JNull))
        else commit_checkpoint_locked w p expected ready identity)))"

definition commit_checkpoint_core ::
    "world \<Rightarrow> checkpoint_plan_parts \<Rightarrow> string \<Rightarrow> string option \<Rightarrow> os \<Rightarrow>
     (((snapshot \<times> lock_end) \<times> string option) res \<times> os) option" where
  "commit_checkpoint_core w p expected txid =
     locked_after w (checkpoint_before w p expected txid)
       (\<lambda>ready. bind_io (checkpoint_locked w p expected txid ready) (\<lambda>r. ret (cr_snapshot ready, r)))"

text \<open>The checkpoint in the result is read again from the revision that was committed.\<close>

definition finish_checkpoint ::
    "world \<Rightarrow> checkpoint_plan_parts \<Rightarrow> snapshot \<Rightarrow> string option \<Rightarrow> string \<Rightarrow> json \<Rightarrow> os \<Rightarrow> json res" where
  "finish_checkpoint w p base release_error revision outcome s =
     (let after = post_lock_outcome outcome release_error; committed = (get ''committed'' after = JBool True) in
      andthen (if committed then andthen (snapshot_at (w_depth w) (Some revision) True s) (\<lambda>snap.
                 Inr (get ''checkpoint'' (snap_manifest snap)))
               else Inr (get ''checkpoint'' (snap_manifest base))) (\<lambda>checkpoint.
        Inr (checkpoint_result (JBool committed) revision checkpoint (get ''plan_fingerprint'' (cp_plan p)) after)))"

definition commit_checkpoint :: "world \<Rightarrow> json \<Rightarrow> string \<Rightarrow> string option \<Rightarrow> os \<Rightarrow> (json res \<times> os) option" where
  "commit_checkpoint w planning expected txid s =
     (case checkpoint_planning planning expected of
        Inl e \<Rightarrow> Some (Inl e, s)
      | Inr p \<Rightarrow>
          map_option (\<lambda>(r, t). case r of
              Inl e \<Rightarrow> (Inl e, t)
            | Inr ((_, Returned result), _) \<Rightarrow> (Inr result, t)
            | Inr ((base, Committed revision outcome), release_error) \<Rightarrow>
                (finish_checkpoint w p base release_error revision outcome t, t))
            (commit_checkpoint_core w p expected txid s))"

section \<open>Only a verified checkpoint moves CURRENT\<close>

text \<open>What the verification before the lock establishes.\<close>

definition checkpoint_granted :: "world \<Rightarrow> checkpoint_plan_parts \<Rightarrow> string \<Rightarrow> os \<Rightarrow> bool" where
  "checkpoint_granted w p expected s \<longleftrightarrow>
     (\<exists>snap. snapshot_at (w_depth w) (Some expected) True s = Inr snap \<and> verify_checkpoint p expected snap = Inr ())"

lemma verified_decision:
  assumes "verify_checkpoint p expected snap = Inr ()"
  shows "get ''decision'' (cp_decision p) \<in> {JStr ''write'', JStr ''skip''}"
    and "py_eq (get ''working_state'' (get ''checkpoint'' (cp_plan p))) (get ''working_state'' (cp_proposal p))"
proof -
  obtain plan where b: "build_checkpoint_plan (cp_proposal p) (cp_authority p) (cp_decision p) (next_revision snap) = Inr plan"
    and e: "py_eq (cp_plan p) plan"
    using assms by (auto simp: verify_checkpoint_def Let_def verify_checkpoint_plan_def)
  then obtain evaluated where v: "evaluate_checkpoint (cp_proposal p) (cp_authority p) = Inr evaluated"
    and d: "py_eq (cp_decision p) evaluated \<or> py_eq (cp_decision p) (unchanged_decision evaluated)"
    and plan: "get ''checkpoint'' plan = checkpoint_object (get ''working_state'' (cp_proposal p)) (next_revision snap)"
    by (auto simp: build_checkpoint_plan_def Let_def checkpoint_plan_def split: if_splits)
  have "get ''decision'' evaluated \<in> {JStr ''write'', JStr ''skip''}"
    and "get ''decision'' (unchanged_decision evaluated) = JStr ''skip''"
    using v by (auto simp: evaluate_checkpoint_def Let_def unchanged_decision_def checkpoint_decision_def split: if_splits)
  then show "get ''decision'' (cp_decision p) \<in> {JStr ''write'', JStr ''skip''}"
    using d py_eq_get[of "cp_decision p" _ "''decision''"] by (metis insert_iff py_eq_JStr singleton_iff)
  show "py_eq (get ''working_state'' (get ''checkpoint'' (cp_plan p))) (get ''working_state'' (cp_proposal p))"
    using py_eq_get[OF py_eq_get[OF e], of "''working_state''" "''checkpoint''"] plan
    by (simp add: checkpoint_object_def)
qed

lemma begun_checkpoint:
  assumes "begin_transaction fresh ''checkpoint'' (opt_str txid) b = Inr a"
  shows "validate_attempt a = Inr a" and "get ''operation'' a = JStr ''checkpoint''"
proof -
  have "begin_transaction fresh ''checkpoint'' (JStr (case txid of None \<Rightarrow> [] | Some t \<Rightarrow> t)) b = Inr a"
    using assms by (cases txid) (simp_all add: begin_transaction_def)
  then have "validate_attempt a = Inr a \<and> get ''operation'' a = JStr ''checkpoint''"
    using begun_attempt_validates[where operation = "''checkpoint''"] by (fastforce split: sum.splits)
  then show "validate_attempt a = Inr a" and "get ''operation'' a = JStr ''checkpoint''" by blast+
qed

lemma checkpoint_beforeD:
  assumes "checkpoint_before w p expected txid s = (r, t)"
  shows "unchanged s t"
    and "r = Inr ready \<Longrightarrow> checkpoint_granted w p expected s \<and>
      (case cr_attempt ready of None \<Rightarrow> get ''decision'' (cp_decision p) = JStr ''skip''
       | Some a \<Rightarrow> validate_attempt a = Inr a \<and> get ''operation'' a = JStr ''checkpoint'' \<and>
           get ''decision'' (cp_decision p) = JStr ''write'')"
proof -
  have "t = s \<and> (\<forall>ready. r = Inr ready \<longrightarrow> checkpoint_granted w p expected s \<and>
      (case cr_attempt ready of None \<Rightarrow> get ''decision'' (cp_decision p) = JStr ''skip''
       | Some a \<Rightarrow> validate_attempt a = Inr a \<and> get ''operation'' a = JStr ''checkpoint'' \<and>
           get ''decision'' (cp_decision p) = JStr ''write''))"
  proof (cases "get ''decision'' (cp_decision p) \<noteq> JStr ''write'' \<or> txid \<noteq> None")
    case True
    then have "bind_io (begin_mutation w) (\<lambda>(b, ctx).
       bind_io (asks (snapshot_at (w_depth w) (Some expected) True)) (\<lambda>snap.
       bind_io (lift (verify_checkpoint p expected snap)) (\<lambda>_.
       bind_io (if get ''decision'' (cp_decision p) = JStr ''write''
              then bind_io (lift (begin_transaction (w_fresh w) ''checkpoint'' (opt_str txid)
                     (plan_binding expected (get ''plan_fingerprint'' (cp_plan p))))) (\<lambda>a. ret (Some a))
              else ret None) (\<lambda>attempt.
         ret \<lparr>cr_binding = b, cr_context = ctx, cr_snapshot = snap, cr_attempt = attempt\<rparr>)))) s = (r, t)"
      using assms by (auto simp: checkpoint_before_def bind_lift ensure_def)
    then show ?thesis
      using verified_decision(1)[of p expected] begun_checkpoint[of "w_fresh w" txid]
      by (auto simp: run_iff bind_lift checkpoint_granted_def dest!: begin_mutation_state elim!: bind_ioE
          split: sum.splits if_splits)
  qed (use assms in \<open>auto simp: checkpoint_before_def bind_lift ensure_def\<close>)
  then show "unchanged s t" and "r = Inr ready \<Longrightarrow> checkpoint_granted w p expected s \<and>
      (case cr_attempt ready of None \<Rightarrow> get ''decision'' (cp_decision p) = JStr ''skip''
       | Some a \<Rightarrow> validate_attempt a = Inr a \<and> get ''operation'' a = JStr ''checkpoint'' \<and>
           get ''decision'' (cp_decision p) = JStr ''write'')"
    by auto
qed

definition checkpoint_licensed :: "world \<Rightarrow> checkpoint_plan_parts \<Rightarrow> string \<Rightarrow> os \<Rightarrow> os \<Rightarrow> os \<Rightarrow> bool" where
  "checkpoint_licensed w p expected s v t \<longleftrightarrow>
     checkpoint_granted w p expected s \<and> get ''decision'' (cp_decision p) = JStr ''write'' \<and>
     (\<exists>m c. bytes_at current_path t = Some (digest_json m @ [newline]) \<and>
        get ''checkpoint'' m = JStr (digest_json c) \<and>
        bytes_under ''checkpoints'' ''.json'' (digest_json c) t = Some (canonical_json c) \<and>
        py_eq (get ''working_state'' c) (get ''working_state'' (cp_proposal p)))"

lemma get_puts_other: "k \<notin> fst ` set kvs \<Longrightarrow> get k (update_obj v kvs) = get k v"
  using map_of_eq_None_iff[of "List.rev kvs" k] by (cases v) (auto simp: get_def map_of_puts)

lemma commit_checkpoint_locked_moves:
  assumes run: "commit_checkpoint_locked w p expected ready identity v = (r, t)"
    and attempt: "cr_attempt ready = Some a" "validate_attempt a = Inr a" "get ''operation'' a = JStr ''checkpoint''"
    and granted: "checkpoint_granted w p expected s" "get ''decision'' (cp_decision p) = JStr ''write''"
  shows "moves (checkpoint_licensed w p expected s v t) expected v t"
proof (cases "bytes_at current_path t = bytes_at current_path v")
  case False
  let ?req = "\<lparr>req_observed = expected, req_checkpoint_patch = get ''checkpoint'' (cp_plan p), req_pending = no_records,
    req_attempt = a, req_policy = None, req_supersedes = [], req_refute = None, req_identity = Some identity\<rparr>"
  obtain q where c: "commit_locked (w_depth w) (Some (cr_context ready)) ?req v = (q, t)"
    using run attempt(1) by (auto simp: commit_checkpoint_locked_def bind_lift run_iff elim!: bind_ioE split: prod.splits)
  have pub: "published expected v t" using commit_locked_published[OF c] by simp
  obtain checked base m where "validate_attempt (req_attempt ?req) = Inr checked"
    and m: "bytes_at current_path t = Some (digest_json m @ [newline])"
    and follows: "checkpoint_follows (new_checkpoint ?req checked base) (snap_manifest base) m t"
    by (rule commit_appends[OF c False]) (blast intro: that)
  then have v: "validate_attempt a = Inr checked" by simp
  let ?c = "update_obj (get ''checkpoint'' (cp_plan p)) [(''revision'', JInt (int_of (get ''revision'' (snap_manifest base)) + 1))]"
  have "new_checkpoint ?req checked base = Some ?c" using v attempt(2,3) by (simp add: new_checkpoint_def)
  then have "get ''checkpoint'' m = JStr (digest_json ?c)"
    "bytes_under ''checkpoints'' ''.json'' (digest_json ?c) t = Some (canonical_json ?c)"
    using follows by (simp_all add: checkpoint_follows_def)
  moreover have "py_eq (get ''working_state'' ?c) (get ''working_state'' (cp_proposal p))"
    using granted(1) verified_decision(2) by (auto simp: checkpoint_granted_def get_puts_other)
  ultimately have "checkpoint_licensed w p expected s v t" using granted m by (auto simp: checkpoint_licensed_def)
  then show ?thesis using pub by (simp add: moves_def)
qed (rule moves_same)

lemma commit_checkpoint_locked_end:
  "commit_checkpoint_locked w p expected ready identity v \<noteq> (Inr (Returned x), t)"
  by (auto simp: commit_checkpoint_locked_def Let_def bind_lift run_iff elim!: bind_ioE split: prod.splits sum.splits)

lemma checkpoint_locked_moves:
  assumes before: "checkpoint_before w p expected txid s = (Inr ready, u)"
    and run: "checkpoint_locked w p expected txid ready v = (r, t)"
  shows "moves (checkpoint_licensed w p expected s v t) expected v t"
    and "r = Inr (Returned x) \<Longrightarrow> bytes_at current_path t = bytes_at current_path v"
proof -
  note g = checkpoint_beforeD(2)[OF before refl]
  have "t = v \<or> (\<exists>identity. commit_checkpoint_locked w p expected ready identity v = (r, t) \<and>
      get ''decision'' (cp_decision p) \<noteq> JStr ''skip'')"
    using run g unfolding checkpoint_locked_def Let_def bind_asks
    by (auto simp: bind_asks bind_lift run_iff split: sum.splits option.splits if_splits)
  then have "moves (checkpoint_licensed w p expected s v t) expected v t \<and>
      (r = Inr (Returned x) \<longrightarrow> bytes_at current_path t = bytes_at current_path v)"
  proof
    assume "\<exists>identity. commit_checkpoint_locked w p expected ready identity v = (r, t) \<and>
      get ''decision'' (cp_decision p) \<noteq> JStr ''skip''"
    then obtain identity where c: "commit_checkpoint_locked w p expected ready identity v = (r, t)"
      and d: "get ''decision'' (cp_decision p) \<noteq> JStr ''skip''" by blast
    then obtain a where a: "cr_attempt ready = Some a" using g by (auto split: option.splits)
    show ?thesis
      using commit_checkpoint_locked_moves[OF c a] commit_checkpoint_locked_end c g a by auto
  qed (simp add: moves_same)
  then show "moves (checkpoint_licensed w p expected s v t) expected v t"
    and "r = Inr (Returned x) \<Longrightarrow> bytes_at current_path t = bytes_at current_path v" by blast+
qed

interpretation checkpoint_section: locked_section w "checkpoint_before w p expected txid"
    "\<lambda>ready. bind_io (checkpoint_locked w p expected txid ready) (\<lambda>r. ret (cr_snapshot ready, r))" expected
    "checkpoint_licensed w p expected" "\<lambda>(_, r). \<exists>v. r = Returned v"
  for w p expected txid
proof unfold_locales
  fix s r t show "checkpoint_before w p expected txid s = (r, t) \<Longrightarrow> unchanged s t" by (rule checkpoint_beforeD(1))
next
  fix s a u v q t
  assume b: "checkpoint_before w p expected txid s = (Inr a, u)"
    and run: "bind_io (checkpoint_locked w p expected txid a) (\<lambda>r. ret (cr_snapshot a, r)) v = (q, t)"
  from bind_ret_state[OF run] checkpoint_locked_moves(1)[OF b]
  show "moves (checkpoint_licensed w p expected s v t) expected v t" by blast
next
  fix s a u v x t
  assume b: "checkpoint_before w p expected txid s = (Inr a, u)" and x: "case x of (_, r) \<Rightarrow> \<exists>v. r = Returned v"
    and run: "bind_io (checkpoint_locked w p expected txid a) (\<lambda>r. ret (cr_snapshot a, r)) v = (Inr x, t)"
  from run x obtain y where "checkpoint_locked w p expected txid a v = (Inr (Returned y), t)"
    by (auto simp: run_iff elim!: bind_ioE)
  from checkpoint_locked_moves(2)[OF b this] show "bytes_at current_path t = bytes_at current_path v" by simp
qed

text \<open>C3: Only a verified checkpoint moves \<open>CURRENT\<close>, whatever calls fail. If its bytes have changed when
  the lock is released, it named the expected revision, the plan verified against the proposal, the
  authority, the decision and the snapshot of that revision, the decision is a write, and the new head
  is a whole child whose stored checkpoint has, up to the equality of Python, the working state that
  was proposed; and a run that ends with a skip has not moved it.\<close>

theorem only_verified_checkpoints_move_current:
  "case commit_checkpoint_core w p expected txid s of None \<Rightarrow> True
   | Some (r, t) \<Rightarrow>
      (if bytes_at current_path t = bytes_at current_path s then True
       else read_current s = Inr expected \<and>
         (\<exists>snap. snapshot_at (w_depth w) (Some expected) True s = Inr snap \<and>
            verify_checkpoint p expected snap = Inr ()) \<and>
         get ''decision'' (cp_decision p) = JStr ''write'' \<and>
         (\<exists>m c. bytes_at current_path t = Some (digest_json m @ [newline]) \<and>
            complete_child expected (digest_json m) t \<and> get ''checkpoint'' m = JStr (digest_json c) \<and>
            bytes_under ''checkpoints'' ''.json'' (digest_json c) t = Some (canonical_json c) \<and>
            py_eq (get ''working_state'' c) (get ''working_state'' (cp_proposal p)))) \<and>
      (case r of Inr ((_, Returned _), _) \<Rightarrow> bytes_at current_path t = bytes_at current_path s | _ \<Rightarrow> True)"
proof (cases "commit_checkpoint_core w p expected txid s")
  case (Some rt)
  obtain r t where rt: "rt = (r, t)" by (cases rt)
  from checkpoint_section.run_moves[OF Some[unfolded rt commit_checkpoint_core_def]] obtain v where
    m: "moves (checkpoint_licensed w p expected s v t) expected s t"
    and still: "\<And>x y. r = Inr (x, y) \<Longrightarrow> (case x of (_, z) \<Rightarrow> \<exists>v. z = Returned v) \<Longrightarrow>
      bytes_at current_path t = bytes_at current_path s" by blast
  have "case r of Inr ((_, Returned _), _) \<Rightarrow> bytes_at current_path t = bytes_at current_path s | _ \<Rightarrow> True"
    using still by (fastforce split: sum.splits prod.splits lock_end.splits)
  then show ?thesis using m unfolding Some rt
    by (auto simp: moves_def checkpoint_licensed_def checkpoint_granted_def published_def)
qed simp

end
