(* ===== verification/RefuteCommit.thy ===== *)
theory RefuteCommit
  imports Mutation
begin

text \<open>
  Planning and committing a refutation: \<open>plan_refute\<close> and \<open>commit_refute\<close> of \<open>refutations.py\<close>. The
  plan, the attestation and the target are checked again under the lock, against the snapshot of the
  revision that is the head there; a transaction that is already committed is reported again first.
  The resolver of the store and the descriptor it had when the store was opened are part of the world.
\<close>

section \<open>Planning\<close>

definition base_changed :: exn where
  "base_changed = Exn RefutePolicyError ''refute_plan_base_changed'' None"

definition resolver_descriptor :: "world \<Rightarrow> json option res" where
  "resolver_descriptor w =
     (case w_resolver w of
        None \<Rightarrow> Inr None
      | Some r \<Rightarrow>
          andthen (validate_descriptor (descriptor r) ''invalid_refute_attestation'') (\<lambda>_.
          andthen (ensure (descriptor r = w_installed w)
                     (rpe ''invalid_refute_attestation'' ''resolver_descriptor_mismatch'')) (\<lambda>_.
            Inr (Some (descriptor r)))))"

definition opt_json :: "json option \<Rightarrow> json" where
  "opt_json v = (case v of None \<Rightarrow> JNull | Some x \<Rightarrow> x)"

definition plan_refute :: "world \<Rightarrow> json \<Rightarrow> json \<Rightarrow> os \<Rightarrow> json res" where
  "plan_refute w proposal claim s =
     andthen (checks [validate_refute_proposal proposal, validate_claim claim]) (\<lambda>_.
     andthen (read_current s) (\<lambda>observed.
     andthen (ensure (get ''base_revision'' proposal = JStr observed) base_changed) (\<lambda>_.
     andthen (snapshot_at (w_depth w) (Some observed) True s) (\<lambda>snap.
     andthen (build_observations s snap claim) (\<lambda>observations.
     andthen (resolver_descriptor w) (\<lambda>_.
     andthen (evaluate_refute proposal claim observations (w_resolver w)) (\<lambda>(decision, attestation).
     andthen (build_refute_plan proposal claim attestation decision True) (\<lambda>plan.
       Inr (mk_obj
         [(''schema'', JStr ''an-kla/refute-planning-result-v1''), (''current_revision'', JStr observed),
          (''proposal'', proposal), (''authority_claim'', claim),
          (''authority_attestation'', opt_json attestation), (''decision'', decision), (''plan'', plan)])))))))))"

section \<open>The planning result that is committed\<close>

record refute_parts =
  rp_proposal :: json
  rp_claim :: json
  rp_attestation :: "json option"
  rp_decision :: json
  rp_plan :: json

definition refute_planning :: "json \<Rightarrow> bool \<Rightarrow> refute_parts res" where
  "refute_planning value enforce =
     (let code = ''invalid_refute_planning_result''; proposal = get ''proposal'' value;
          claim = get ''authority_claim'' value; decision = get ''decision'' value;
          raw = get ''authority_attestation'' value; attestation = (if raw = JNull then None else Some raw) in
      andthen (checks
        [exact value [''schema'', ''current_revision'', ''proposal'', ''authority_claim'',
                      ''authority_attestation'', ''decision'', ''plan''] code ''shape'',
         ensure (get ''schema'' value = JStr ''an-kla/refute-planning-result-v1'') (rpe code ''schema''),
         validate_refute_proposal proposal, validate_claim claim, validate_refute_decision decision enforce,
         ensure (raw = JNull \<or> is_obj raw) (rpe code ''attestation'')]) (\<lambda>_.
      andthen (verify_refute_plan (get ''plan'' value) proposal claim attestation decision enforce) (\<lambda>plan.
      andthen (checks
        [ensure (get ''current_revision'' value = get ''base_revision'' proposal \<and>
                 get ''base_revision'' proposal = get ''base_revision'' (get ''core'' plan)) (rpe code ''base''),
         ensure (get ''base_revision'' claim = get ''base_revision'' proposal \<or>
                 get ''decision'' decision = JStr ''skip'' \<and>
                 get ''reason_codes'' decision = strs [''authority_scope_mismatch'']) (rpe code ''claim_base'')]) (\<lambda>_.
        Inr \<lparr>rp_proposal = proposal, rp_claim = claim, rp_attestation = attestation, rp_decision = decision,
             rp_plan = plan\<rparr>))))"

text \<open>\<open>_result\<close>: the revision of an outcome is the candidate, the observed head or the parent.\<close>

definition refute_result :: "refute_parts \<Rightarrow> json \<Rightarrow> json option \<Rightarrow> json" where
  "refute_result p revision outcome =
     (let committed = (case outcome of None \<Rightarrow> JBool False | Some out \<Rightarrow> get ''committed'' out);
          shown = (case outcome of
             None \<Rightarrow> revision
           | Some out \<Rightarrow>
               if committed = JBool True then get ''candidate_revision'' out
               else if committed = JBool False
                 then (if truthy (get ''current_observed'' out) then get ''current_observed'' out
                       else get ''parent_revision'' out)
               else get ''current_observed'' out)
      in mk_obj
        [(''schema'', JStr ''an-kla/refute-commit-result-v1''), (''committed'', committed),
         (''revision'', shown), (''decision'', rp_decision p),
         (''reason_codes'', get ''reason_codes'' (rp_decision p)),
         (''plan_fingerprint'', get ''plan_fingerprint'' (rp_plan p)), (''outcome'', opt_json outcome)])"

section \<open>What is checked under the lock\<close>

definition target_error :: "string \<Rightarrow> exn" where
  "target_error detail = rpe ''invalid_refute_target'' detail"

definition target_guard :: "snapshot \<Rightarrow> string \<Rightarrow> json \<Rightarrow> json res" where
  "target_guard snap stream record_sha256 =
     (case filter (\<lambda>row. JStr (digest_json row) = record_sha256) (snap_raw snap stream) of
        [] \<Rightarrow> Inl (target_error ''target_missing'')
      | [target] \<Rightarrow>
          if (stream, row_id target) \<in> set (entry_targets (map_items ''supersedes_map'' (snap_manifest snap))) \<or>
             (stream, record_sha256) \<in> set (refuted_targets (map_items ''refutations_map'' (snap_manifest snap)))
          then Inl (target_error ''overlay_conflict'')
          else if \<not> is_active target then Inl (target_error ''target_not_active'')
          else Inr target
      | _ \<Rightarrow> Inl (target_error ''target_ambiguous''))"

definition verify_commit_authority :: "world \<Rightarrow> json \<Rightarrow> json \<Rightarrow> json \<Rightarrow> json \<Rightarrow> unit res" where
  "verify_commit_authority w proposal claim attestation observations =
     (let bad = rpe ''invalid_refute_attestation'' in
      case w_resolver w of
        None \<Rightarrow> Inl (bad ''resolver_unavailable_at_commit'')
      | Some r \<Rightarrow>
          andthen (resolver_descriptor w) (\<lambda>_.
          andthen (checks
            [ensure (get ''resolver'' attestation = descriptor r) (bad ''resolver_descriptor_mismatch''),
             ensure (get ''observations_sha256'' attestation = JStr (digest_json observations))
               (bad ''observations_mismatch''),
             validate_attestation attestation proposal claim observations (descriptor r)]) (\<lambda>_.
          andthen (verify r attestation proposal claim observations) (\<lambda>verdict.
            ensure (verdict = JBool True) (bad ''resolver_verification_failed'')))))"

definition check_refute_commit :: "world \<Rightarrow> refute_parts \<Rightarrow> json \<Rightarrow> string \<Rightarrow> os \<Rightarrow> unit res" where
  "check_refute_commit w p attestation observed s =
     andthen (snapshot_at (w_depth w) (Some observed) True s) (\<lambda>snap.
     andthen (build_observations s snap (rp_claim p)) (\<lambda>observations.
     andthen (verify_commit_authority w (rp_proposal p) (rp_claim p) attestation observations) (\<lambda>_.
     andthen (target_guard snap (str_of (get ''stream'' (rp_proposal p)))
                (get ''target_record_sha256'' (rp_proposal p))) (\<lambda>_. Inr ()))))"

section \<open>What is written\<close>

definition refutation_object :: "refute_parts \<Rightarrow> json \<Rightarrow> string \<Rightarrow> json" where
  "refutation_object p attestation observed = mk_obj
     [(''schema'', JStr ''an-kla/refutation-v1''), (''target_revision'', JStr observed),
      (''stream'', get ''stream'' (rp_proposal p)),
      (''target_record_sha256'', get ''target_record_sha256'' (rp_proposal p)),
      (''reason'', get ''reason'' (rp_proposal p)), (''proposal_sha256'', JStr (digest_json (rp_proposal p))),
      (''authority_claim_sha256'', JStr (digest_json (rp_claim p))),
      (''authority_attestation_id'', JStr (digest_json attestation)),
      (''policy_fingerprint'', JStr refute_policy_fingerprint),
      (''decision_sha256'', JStr (digest_json (rp_decision p))),
      (''evidence_sha256'', JStr (digest_json (get ''evidence'' (rp_claim p)))),
      (''plan_fingerprint'', get ''plan_fingerprint'' (rp_plan p))]"

definition refute_commit_metadata :: "refute_parts \<Rightarrow> json \<Rightarrow> json \<Rightarrow> json" where
  "refute_commit_metadata p attestation refutation = mk_obj
     [(''schema'', JStr ''an-kla/refute-policy-transaction-v1''),
      (''proposal_sha256'', JStr (digest_json (rp_proposal p))),
      (''authority_claim_sha256'', JStr (digest_json (rp_claim p))),
      (''authority_attestation_id'', JStr (digest_json attestation)),
      (''policy_fingerprint'', JStr refute_policy_fingerprint),
      (''decision_sha256'', JStr (digest_json (rp_decision p))),
      (''evidence_sha256'', JStr (digest_json (get ''evidence'' (rp_claim p)))),
      (''plan_fingerprint'', get ''plan_fingerprint'' (rp_plan p)), (''decision'', JStr ''refute''),
      (''reason'', get ''reason'' (rp_proposal p)),
      (''target'', mk_obj [(''stream'', get ''stream'' (rp_proposal p)),
                           (''record_sha256'', get ''target_record_sha256'' (rp_proposal p))]),
      (''refutation_id'', JStr (digest_json refutation))]"

definition refute_request :: "refute_parts \<Rightarrow> json \<Rightarrow> json \<Rightarrow> string \<Rightarrow> string \<Rightarrow> commit_request" where
  "refute_request p attestation attempt observed identity =
     (let refutation = refutation_object p attestation observed in
      \<lparr>req_observed = observed, req_checkpoint_patch = JObj [], req_pending = no_records,
       req_attempt = attempt, req_policy = Some (refute_commit_metadata p attestation refutation),
       req_supersedes = [],
       req_refute = Some (mk_obj
         [(''authority_claim'', rp_claim p), (''authority_attestation'', attestation), (''refutation'', refutation)]),
       req_identity = Some identity\<rparr>)"

section \<open>Committing\<close>

record refute_ready =
  rr_parts :: refute_parts
  rr_attempt :: "json option"
  rr_binding :: identity_binding
  rr_context :: context_map

definition refute_before :: "world \<Rightarrow> json \<Rightarrow> string \<Rightarrow> string option \<Rightarrow> refute_ready io" where
  "refute_before w planning expected txid =
     (let code = ''invalid_refute_planning_result'' in
      bind_io (lift (refute_planning planning False)) (\<lambda>p.
      let refutes = (get ''decision'' (rp_decision p) = JStr ''refute'') in
      bind_io (lift (checks
        [digest_field (JStr expected) code ''expected_current'',
         ensure (JStr expected = get ''base_revision'' (rp_proposal p)) (rpe code ''expected_current''),
         ensure (\<not> (refutes \<and> txid = None)) (rpe code ''transaction_id_required'')])) (\<lambda>_.
      bind_io (if refutes
               then bind_io (lift (begin_transaction (w_fresh w) ''refute'' (opt_str txid)
                      (plan_binding expected (get ''plan_fingerprint'' (rp_plan p))))) (\<lambda>a. ret (Some a))
               else ret None) (\<lambda>attempt.
      bind_io (begin_mutation w) (\<lambda>(b, ctx).
        ret \<lparr>rr_parts = p, rr_attempt = attempt, rr_binding = b, rr_context = ctx\<rparr>)))))"

text \<open>\<open>verify_plan\<close> for a decision to skip has no attestation.\<close>

definition refute_skipped :: "refute_parts \<Rightarrow> string \<Rightarrow> string \<Rightarrow> lock_end io" where
  "refute_skipped p expected observed =
     bind_io (lift (ensure (observed = expected) base_changed)) (\<lambda>_.
     bind_io (lift (verify_refute_plan (rp_plan p) (rp_proposal p) (rp_claim p) None (rp_decision p) True)) (\<lambda>_.
       ret (Returned (refute_result p (JStr observed) None))))"

definition refute_decided ::
    "world \<Rightarrow> json \<Rightarrow> refute_ready \<Rightarrow> json \<Rightarrow> string \<Rightarrow> string \<Rightarrow> lock_end io" where
  "refute_decided w planning ready attempt observed identity =
     bind_io (lift (refute_planning planning True)) (\<lambda>p.
     bind_io (lift (verify_refute_plan (rp_plan p) (rp_proposal p) (rp_claim p) (rp_attestation p) (rp_decision p) True)) (\<lambda>_.
       case rp_attestation p of
         None \<Rightarrow> lift (Inl (Exn AttributeError ''get'' None))
       | Some attestation \<Rightarrow>
           bind_io (asks (check_refute_commit w p attestation observed)) (\<lambda>_.
           bind_io (commit_locked (w_depth w) (Some (rr_context ready)) (refute_request p attestation attempt observed identity))
             (\<lambda>(revision, outcome). ret (Committed revision outcome)))))"

text \<open>The block under the lock: a skip, an earlier commit of the same attempt, or the commit. The assertion
  of the code cannot fail, because a plan that verified has an attempt and an attestation.\<close>

definition refute_locked :: "world \<Rightarrow> json \<Rightarrow> string \<Rightarrow> refute_ready \<Rightarrow> lock_end io" where
  "refute_locked w planning expected ready =
     (let p = rr_parts ready in
      bind_io (asks read_current) (\<lambda>observed.
      bind_io (asks (assert_unchanged (project_root (w_site w)) (rr_binding ready) observed)) (\<lambda>identity.
        if get ''decision'' (rp_decision p) = JStr ''skip'' then refute_skipped p expected observed
        else case rr_attempt ready of
            None \<Rightarrow> lift (Inl (Exn TypeError ''assertion'' None))
          | Some attempt \<Rightarrow>
              bind_io (asks (reconcile_attempt attempt)) (\<lambda>(has_evidence, prior).
                case prior of
                  Some out \<Rightarrow>
                    if get ''committed'' out = JBool True \<or> observed \<noteq> expected \<and> has_evidence
                    then ret (Returned (refute_result p JNull (Some out)))
                    else if observed \<noteq> expected then lift (Inl base_changed)
                    else refute_decided w planning ready attempt observed identity
                | None \<Rightarrow>
                    if observed \<noteq> expected then lift (Inl base_changed)
                    else refute_decided w planning ready attempt observed identity))))"

definition commit_refute_core ::
    "world \<Rightarrow> json \<Rightarrow> string \<Rightarrow> string option \<Rightarrow> os \<Rightarrow> (((refute_parts \<times> lock_end) \<times> string option) res \<times> os) option" where
  "commit_refute_core w planning expected txid =
     locked_after w (refute_before w planning expected txid)
       (\<lambda>ready. bind_io (refute_locked w planning expected ready) (\<lambda>r. ret (rr_parts ready, r)))"

definition commit_refute :: "world \<Rightarrow> json \<Rightarrow> string \<Rightarrow> string option \<Rightarrow> os \<Rightarrow> (json res \<times> os) option" where
  "commit_refute w planning expected txid s =
     map_option (\<lambda>(r, t). case r of
         Inl e \<Rightarrow> (Inl e, t)
       | Inr ((_, Returned result), _) \<Rightarrow> (Inr result, t)
       | Inr ((p, Committed revision outcome), release_error) \<Rightarrow>
           (let after = post_lock_outcome outcome release_error in
            bind_io (if get ''committed'' after = JBool True then w_reindex w expected revision else ret ()) (\<lambda>_.
              ret (refute_result p (JStr revision) (Some after))) t))
       (commit_refute_core w planning expected txid s)"

section \<open>Only an attested refutation moves CURRENT\<close>

definition refutation_link :: "refute_parts \<Rightarrow> json \<Rightarrow> string \<Rightarrow> json" where
  "refutation_link p attestation observed = mk_obj
     [(''stream'', JStr (py_str (get ''stream'' (rp_proposal p)))),
      (''target_record_sha256'', JStr (py_str (get ''target_record_sha256'' (rp_proposal p)))),
      (''refutation_id'', JStr (digest_json (refutation_object p attestation observed)))]"

text \<open>
  The record a refutation may target: the only one of the stream with the digest, active, and in
  neither overlay of the revision, not superseded under its identifier nor refuted under its digest.
\<close>

definition only_open_target :: "snapshot \<Rightarrow> string \<Rightarrow> json \<Rightarrow> json \<Rightarrow> bool" where
  "only_open_target snap stream record_sha256 target \<longleftrightarrow>
     filter (\<lambda>row. JStr (digest_json row) = record_sha256) (snap_raw snap stream) = [target] \<and>
     is_active target \<and>
     (stream, row_id target) \<notin> set (entry_targets (map_items ''supersedes_map'' (snap_manifest snap))) \<and>
     (stream, record_sha256) \<notin> set (refuted_targets (map_items ''refutations_map'' (snap_manifest snap)))"

lemma target_guard_iff: "target_guard snap stream record_sha256 = Inr target \<longleftrightarrow> only_open_target snap stream record_sha256 target"
  by (auto simp: target_guard_def only_open_target_def split: list.splits if_splits)

text \<open>What holds under the lock when a refutation moves \<open>CURRENT\<close>.\<close>

definition refute_granted :: "world \<Rightarrow> json \<Rightarrow> string \<Rightarrow> os \<Rightarrow> os \<Rightarrow> refute_parts \<Rightarrow> json \<Rightarrow> resolver \<Rightarrow> snapshot \<Rightarrow> json \<Rightarrow> bool" where
  "refute_granted w planning expected v t p attestation r snap target \<longleftrightarrow>
     refute_planning planning True = Inr p \<and> rp_attestation p = Some attestation \<and>
     snapshot_at (w_depth w) (Some expected) True v = Inr snap \<and> w_resolver w = Some r \<and>
     (\<exists>observations. build_observations v snap (rp_claim p) = Inr observations \<and>
        verify r attestation (rp_proposal p) (rp_claim p) observations = Inr (JBool True)) \<and>
     only_open_target snap (str_of (get ''stream'' (rp_proposal p))) (get ''target_record_sha256'' (rp_proposal p)) target \<and>
     (\<exists>m. bytes_at current_path t = Some (digest_json m @ [newline]) \<and>
        map_items ''refutations_map'' m =
          map_items ''refutations_map'' (snap_manifest snap) @ [refutation_link p attestation expected])"

lemma granted_target:
  "refute_granted w planning expected v t p attestation r snap target \<Longrightarrow>
   only_open_target snap (str_of (get ''stream'' (rp_proposal p))) (get ''target_record_sha256'' (rp_proposal p)) target"
  by (simp add: refute_granted_def)

definition refute_licensed :: "world \<Rightarrow> json \<Rightarrow> string \<Rightarrow> os \<Rightarrow> os \<Rightarrow> os \<Rightarrow> bool" where
  "refute_licensed w planning expected s v t \<longleftrightarrow>
     (\<exists>p attestation r snap target. refute_granted w planning expected v t p attestation r snap target)"

lemma refuted_entries_request:
  "refuted_entries (refute_request p attestation attempt observed identity) = [refutation_link p attestation observed]"
  by (simp add: refuted_entries_def refute_request_def refutation_link_def refutation_object_def Let_def)

lemma refute_request_simps [simp]:
  "req_observed (refute_request p attestation attempt observed identity) = observed"
  by (simp add: refute_request_def Let_def)

lemma refute_decided_moves:
  assumes run: "refute_decided w planning ready attempt expected identity v = (r, t)"
  shows "moves (refute_licensed w planning expected s v t) expected v t"
proof (cases "bytes_at current_path t = bytes_at current_path v")
  case False
  then have "t \<noteq> v" by blast
  then obtain p attestation q where p: "refute_planning planning True = Inr p" "rp_attestation p = Some attestation"
    and c: "check_refute_commit w p attestation expected v = Inr ()"
    and l: "commit_locked (w_depth w) (Some (rr_context ready)) (refute_request p attestation attempt expected identity) v = (q, t)"
    using run by (auto simp: refute_decided_def bind_lift bind_asks run_iff elim!: bind_ioE split: prod.splits sum.splits option.splits)
  obtain snap observations target where snap: "snapshot_at (w_depth w) (Some expected) True v = Inr snap"
    and o: "build_observations v snap (rp_claim p) = Inr observations"
    and a: "verify_commit_authority w (rp_proposal p) (rp_claim p) attestation observations = Inr ()"
    and g: "target_guard snap (str_of (get ''stream'' (rp_proposal p))) (get ''target_record_sha256'' (rp_proposal p)) = Inr target"
    using c by (auto simp: check_refute_commit_def)
  obtain cap where cap: "w_resolver w = Some cap"
    and verdict: "verify cap attestation (rp_proposal p) (rp_claim p) observations = Inr (JBool True)"
    using a by (auto simp: verify_commit_authority_def Let_def split: option.splits)
  have pub: "published expected v t" using commit_locked_published[OF l] by simp
  obtain base m where base: "snapshot_at (w_depth w) (Some expected) True v = Inr base"
    and m: "bytes_at current_path t = Some (digest_json m @ [newline])"
      "map_items ''refutations_map'' m = map_items ''refutations_map'' (snap_manifest base) @
         refuted_entries (refute_request p attestation attempt expected identity)"
    by (rule commit_appends[OF l False]) (simp add: that)
  have "refute_granted w planning expected v t p attestation cap snap target"
    using p snap o g cap verdict m base by (auto simp: refute_granted_def refuted_entries_request target_guard_iff)
  then show ?thesis using pub by (auto simp: moves_def refute_licensed_def)
qed (rule moves_same)

lemma refute_decided_end: "refute_decided w planning ready attempt observed identity v \<noteq> (Inr (Returned x), t)"
  by (auto simp: refute_decided_def bind_lift bind_asks run_iff elim!: bind_ioE split: prod.splits sum.splits option.splits)

lemma refute_locked_moves:
  assumes run: "refute_locked w planning expected ready v = (r, t)"
  shows "moves (refute_licensed w planning expected s v t) expected v t"
    and "r = Inr (Returned x) \<Longrightarrow> bytes_at current_path t = bytes_at current_path v"
proof -
  have "t = v \<or> (\<exists>attempt identity. refute_decided w planning ready attempt expected identity v = (r, t))"
    using run unfolding refute_locked_def Let_def bind_asks refute_skipped_def bind_lift
    by (auto simp: bind_asks bind_lift run_iff split: sum.splits option.splits if_splits prod.splits)
  then have "moves (refute_licensed w planning expected s v t) expected v t \<and>
      (r = Inr (Returned x) \<longrightarrow> bytes_at current_path t = bytes_at current_path v)"
  proof
    assume "\<exists>attempt identity. refute_decided w planning ready attempt expected identity v = (r, t)"
    then obtain attempt identity where d: "refute_decided w planning ready attempt expected identity v = (r, t)" by blast
    from refute_decided_moves[OF d] d refute_decided_end show ?thesis by auto
  qed (simp add: moves_same)
  then show "moves (refute_licensed w planning expected s v t) expected v t"
    and "r = Inr (Returned x) \<Longrightarrow> bytes_at current_path t = bytes_at current_path v" by blast+
qed

lemma refute_before_unchanged: "refute_before w planning expected txid s = (r, t) \<Longrightarrow> unchanged s t"
  unfolding refute_before_def Let_def bind_lift
  by (auto simp: run_iff bind_lift elim!: bind_ioE dest!: begin_mutation_state split: sum.splits if_splits prod.splits)

interpretation refute_section: locked_section w "refute_before w planning expected txid"
    "\<lambda>ready. bind_io (refute_locked w planning expected ready) (\<lambda>r. ret (rr_parts ready, r))" expected
    "refute_licensed w planning expected" "\<lambda>(_, r). \<exists>v. r = Returned v"
  for w planning expected txid
proof unfold_locales
  fix s r t show "refute_before w planning expected txid s = (r, t) \<Longrightarrow> unchanged s t" by (rule refute_before_unchanged)
next
  fix s a u v q t
  assume run: "bind_io (refute_locked w planning expected a) (\<lambda>r. ret (rr_parts a, r)) v = (q, t)"
  from bind_ret_state[OF run] refute_locked_moves(1)
  show "moves (refute_licensed w planning expected s v t) expected v t" by blast
next
  fix s a u v x t
  assume x: "case x of (_, r) \<Rightarrow> \<exists>v. r = Returned v"
    and run: "bind_io (refute_locked w planning expected a) (\<lambda>r. ret (rr_parts a, r)) v = (Inr x, t)"
  from run x obtain y where "refute_locked w planning expected a v = (Inr (Returned y), t)"
    by (auto simp: run_iff elim!: bind_ioE)
  from refute_locked_moves(2)[OF this] show "bytes_at current_path t = bytes_at current_path v" by simp
qed

text \<open>C4: Only an attested refutation moves \<open>CURRENT\<close>, whatever calls fail. If its bytes have changed when
  the lock is released, it named the expected revision; in a state with the same files the planning
  result validates under the installed policy, the resolver of the store verifies its attestation of
  the observations made on the expected revision, exactly one record of that revision has the digest
  of the target, it is active, its identifier is not among the targets of the supersessions of that revision
  and its digest is not among those of its refutations; and the new head is a whole child whose refutations are
  those of that revision followed by one more, which names the stream, the digest of that record and the
  digest of the refutation object. A run that ends with a skip or an earlier commit has not moved it.\<close>

theorem only_attested_refutations_move_current:
  "case commit_refute_core w planning expected txid s of None \<Rightarrow> True
   | Some (result, t) \<Rightarrow>
      (if bytes_at current_path t = bytes_at current_path s then True
       else read_current s = Inr expected \<and>
         (\<exists>c. bytes_at current_path t = Some (c @ [newline]) \<and> complete_child expected c t) \<and>
         (\<exists>v p attestation r snap target stream digest. same_on (\<lambda>_. True) s v \<and>
            refute_granted w planning expected v t p attestation r snap target \<and>
            stream = str_of (get ''stream'' (rp_proposal p)) \<and> digest = get ''target_record_sha256'' (rp_proposal p) \<and>
            filter (\<lambda>row. JStr (digest_json row) = digest) (snap_raw snap stream) = [target] \<and> is_active target \<and>
            (stream, row_id target) \<notin> set (entry_targets (map_items ''supersedes_map'' (snap_manifest snap))) \<and>
            (stream, digest) \<notin> set (refuted_targets (map_items ''refutations_map'' (snap_manifest snap))))) \<and>
      (case result of Inr ((_, Returned _), _) \<Rightarrow> bytes_at current_path t = bytes_at current_path s | _ \<Rightarrow> True)"
proof (cases "commit_refute_core w planning expected txid s")
  case (Some rt)
  obtain q t where rt: "rt = (q, t)" by (cases rt)
  from refute_section.run_moves[OF Some[unfolded rt commit_refute_core_def]] obtain v where
    u: "unchanged s v" and m: "moves (refute_licensed w planning expected s v t) expected s t"
    and still: "\<And>x y. q = Inr (x, y) \<Longrightarrow> (case x of (_, z) \<Rightarrow> \<exists>v. z = Returned v) \<Longrightarrow>
      bytes_at current_path t = bytes_at current_path s" by blast
  have "case q of Inr ((_, Returned _), _) \<Rightarrow> bytes_at current_path t = bytes_at current_path s | _ \<Rightarrow> True"
    using still by (fastforce split: sum.splits prod.splits lock_end.splits)
  moreover have "\<exists>p attestation r snap target. refute_granted w planning expected v t p attestation r snap target \<and>
      only_open_target snap (str_of (get ''stream'' (rp_proposal p))) (get ''target_record_sha256'' (rp_proposal p)) target"
    if "bytes_at current_path t \<noteq> bytes_at current_path s"
    using m that granted_target unfolding moves_def refute_licensed_def by blast
  moreover have "same_on (\<lambda>_. True) s v" using u by (simp add: unchanged_def)
  moreover have "read_current s = Inr expected \<and>
      (\<exists>c. bytes_at current_path t = Some (c @ [newline]) \<and> complete_child expected c t)"
    if "bytes_at current_path t \<noteq> bytes_at current_path s"
    using m that by (auto simp: moves_def published_def)
  ultimately show ?thesis unfolding Some rt only_open_target_def
    by (cases "bytes_at current_path t = bytes_at current_path s") (simp, simp, blast)
qed simp

end
