(* ===== verification/RefuteInspect.thy ===== *)
theory RefuteInspect
  imports Lifecycle
begin

text \<open>
  The read-only inspection of a record of \<open>refute_inspect.py\<close>: its state under the two overlays and the
  chain of its successors. The walk has a limit of one step more than the stream has records; the
  theorem says that for a snapshot that was read it never meets the limit, a cycle or a missing
  successor, unless two different records of the stream have the same digest.
\<close>

section \<open>The state of a record\<close>

definition physical :: "json \<Rightarrow> json \<times> string" where
  "physical row =
     (if has_key ''status'' row then (JStr (digest_json (get ''status'' row)), ''physical_untrusted'')
      else if has_key ''nu'' row then (JStr (digest_json (get ''nu'' row)), ''physical_untrusted'')
      else (JNull, ''default_active''))"

text \<open>The two dictionaries of \<open>_maps\<close>; a later entry overrides an earlier one.\<close>

definition successor_of :: "snapshot \<Rightarrow> string \<Rightarrow> string \<Rightarrow> string option" where
  "successor_of snap stream i =
     map_of (rev (map link_of (map_items ''supersedes_map'' (snap_manifest snap)))) (stream, i)"

definition refutation_of :: "snapshot \<Rightarrow> string \<Rightarrow> string \<Rightarrow> json option" where
  "refutation_of snap stream record_sha256 =
     map_of (rev (map (\<lambda>entry. ((str_of (get ''stream'' entry), get ''target_record_sha256'' entry), get ''refutation_id'' entry))
       (map_items ''refutations_map'' (snap_manifest snap)))) (stream, JStr record_sha256)"

record record_state =
  rs_state :: string
  rs_source :: string
  rs_successor :: "string option"
  rs_refutation :: "json option"

definition state_of :: "snapshot \<Rightarrow> string \<Rightarrow> json \<Rightarrow> record_state" where
  "state_of snap stream row =
     (case refutation_of snap stream (digest_json row) of
        Some identifier \<Rightarrow> \<lparr>rs_state = ''refuted'', rs_source = ''refutations_overlay'', rs_successor = None,
            rs_refutation = Some identifier\<rparr>
      | None \<Rightarrow>
          (case successor_of snap stream (row_id row) of
             Some heir \<Rightarrow> \<lparr>rs_state = ''superseded'', rs_source = ''supersedes_overlay'', rs_successor = Some heir,
                 rs_refutation = None\<rparr>
           | None \<Rightarrow> \<lparr>rs_state = (if is_active row then ''active'' else ''inactive''), rs_source = snd (physical row),
                 rs_successor = None, rs_refutation = None\<rparr>))"

section \<open>The chain\<close>

definition row_by_id :: "json list \<Rightarrow> string \<Rightarrow> json option" where
  "row_by_id xs i = map_of (rev (map (\<lambda>row. (row_id row, row)) xs)) i"

definition optional :: "('a \<Rightarrow> json) \<Rightarrow> 'a option \<Rightarrow> json" where
  "optional f v = (case v of None \<Rightarrow> JNull | Some x \<Rightarrow> f x)"

definition chain_entry :: "json \<Rightarrow> record_state \<Rightarrow> json option \<Rightarrow> json" where
  "chain_entry row state heir = mk_obj
     [(''record_sha256'', JStr (digest_json row)), (''id_sha256'', JStr (digest_json (JStr (row_id row)))),
      (''state'', JStr (rs_state state)),
      (''superseded_by_sha256'', optional (\<lambda>h. JStr (digest_json h)) heir),
      (''refutation_id'', optional id (rs_refutation state))]"

definition chain_broken :: "string \<Rightarrow> exn" where
  "chain_broken detail = rpe ''lifecycle_chain_invalid'' detail"

fun inspect_chain :: "snapshot \<Rightarrow> string \<Rightarrow> nat \<Rightarrow> string list \<Rightarrow> json \<Rightarrow> json list res" where
  "inspect_chain snap stream 0 visited cursor = Inl (Exn RefutePolicyError ''lifecycle_chain_limit_exceeded'' None)"
| "inspect_chain snap stream (Suc k) visited cursor =
     (let record_sha = digest_json cursor; state = state_of snap stream cursor in
      if record_sha \<in> set visited then Inl (chain_broken ''cycle'')
      else case rs_successor state of
          None \<Rightarrow> Inr [chain_entry cursor state None]
        | Some i \<Rightarrow>
            (case row_by_id (snap_raw snap stream) i of
               None \<Rightarrow> Inl (chain_broken ''successor_missing'')
             | Some heir \<Rightarrow>
                 andthen (inspect_chain snap stream k (record_sha # visited) heir) (\<lambda>rest.
                   Inr (chain_entry cursor state (Some heir) # rest))))"

section \<open>The inspection\<close>

definition inspect_missing :: "string \<Rightarrow> string \<Rightarrow> string \<Rightarrow> json" where
  "inspect_missing revision stream target = mk_obj
     [(''schema'', JStr ''an-kla/refute-inspect-v1''), (''untrusted_memory_data'', JBool True),
      (''revision'', JStr revision), (''stream'', JStr stream), (''target_record_sha256'', JStr target),
      (''found'', JBool False), (''target_id_sha256'', JNull), (''state'', JNull), (''state_source'', JNull),
      (''physical_status_sha256'', JNull), (''links'', JNull), (''chain'', JArr []), (''refutation'', JNull),
      (''authority_claim'', JNull), (''authority_attestation'', JNull)]"

text \<open>The refutation with its claim and its attestation.\<close>

definition refutation_evidence :: "json option \<Rightarrow> os \<Rightarrow> (json \<times> json \<times> json) res" where
  "refutation_evidence identifier s =
     (case identifier of
        None \<Rightarrow> Inr (JNull, JNull, JNull)
      | Some i \<Rightarrow>
          andthen (read_json_object ''refutations'' (py_str i) s) (\<lambda>refutation.
          andthen (subscript ''authority_claim_sha256'' refutation) (\<lambda>claim_id.
          andthen (read_json_object ''authority-claims'' (py_str claim_id) s) (\<lambda>claim.
          andthen (subscript ''authority_attestation_id'' refutation) (\<lambda>attestation_id.
          andthen (read_json_object ''authority-attestations'' (py_str attestation_id) s) (\<lambda>attestation.
            Inr (refutation, claim, attestation)))))))"

definition inspect_found :: "snapshot \<Rightarrow> string \<Rightarrow> json \<Rightarrow> os \<Rightarrow> json res" where
  "inspect_found snap stream target s =
     (let state = state_of snap stream target; rows = snap_raw snap stream in
      andthen (inspect_chain snap stream (length rows + 1) [] target) (\<lambda>chain.
      andthen (case rs_successor state of
                 None \<Rightarrow> Inr JNull
               | Some i \<Rightarrow> (case row_by_id rows i of
                    None \<Rightarrow> Inl (chain_broken ''successor_missing'')
                  | Some heir \<Rightarrow> Inr (JStr (digest_json heir)))) (\<lambda>heir.
      andthen (refutation_evidence (rs_refutation state) s) (\<lambda>(refutation, claim, attestation).
        Inr (mk_obj
          [(''schema'', JStr ''an-kla/refute-inspect-v1''), (''untrusted_memory_data'', JBool True),
           (''revision'', JStr (snap_revision snap)), (''stream'', JStr stream),
           (''target_record_sha256'', JStr (digest_json target)), (''found'', JBool True),
           (''target_id_sha256'', JStr (digest_json (JStr (row_id target)))), (''state'', JStr (rs_state state)),
           (''state_source'', JStr (rs_source state)), (''physical_status_sha256'', fst (physical target)),
           (''links'', mk_obj [(''superseded_by_sha256'', heir),
                               (''refutation_id'', optional id (rs_refutation state))]),
           (''chain'', JArr chain), (''refutation'', refutation), (''authority_claim'', claim),
           (''authority_attestation'', attestation)])))))"

definition missing_revision :: "exn \<Rightarrow> bool" where
  "missing_revision e \<longleftrightarrow> sublist ''object_missing:revisions'' (exn_code e)"

definition inspect_refute :: "nat \<Rightarrow> string \<Rightarrow> string \<Rightarrow> string option \<Rightarrow> os \<Rightarrow> json res" where
  "inspect_refute n stream target revision s =
     andthen (checks
       [ensure (stream \<in> set STREAMS) (rpe ''invalid_refute_target'' ''stream''),
        digest_field (JStr target) ''invalid_refute_target'' ''target_record_sha256'',
        case revision of None \<Rightarrow> Inr () | Some r \<Rightarrow> digest_field (JStr r) ''revision_not_found'' ''revision'']) (\<lambda>_.
     andthen (except_as (\<lambda>e. revision \<noteq> None \<and> missing_revision e)
                (Exn RefutePolicyError ''revision_not_found'' None) (snapshot_at n revision True s)) (\<lambda>snap.
       case filter (\<lambda>row. digest_json row = target) (snap_raw snap stream) of
         [] \<Rightarrow> Inr (inspect_missing (snap_revision snap) stream target)
       | [row] \<Rightarrow> inspect_found snap stream row s
       | _ \<Rightarrow> Inl (chain_broken ''target_ambiguous'')))"

section \<open>The walk ends\<close>

definition digests_differ :: "json list \<Rightarrow> bool" where
  "digests_differ xs \<longleftrightarrow> inj_on digest_json (set xs)"

lemma row_by_id_member:
  "i \<in> set (map row_id xs) \<Longrightarrow> \<exists>row. row_by_id xs i = Some row \<and> row \<in> set xs \<and> row_id row = i"
proof -
  assume "i \<in> set (map row_id xs)"
  then have "map_of (rev (map (\<lambda>row. (row_id row, row)) xs)) i \<noteq> None"
    unfolding map_of_eq_None_iff by (simp add: image_image)
  then obtain row where r: "row_by_id xs i = Some row" by (auto simp: row_by_id_def)
  then show ?thesis by (auto simp: row_by_id_def dest!: map_of_SomeD)
qed

lemma inspect_chain_walks:
  assumes "chain_ends (rev (map link_of (map_items ''supersedes_map'' (snap_manifest snap)))) stream seen (row_id cursor)"
    and "list_all (linked_rows (snap_raw snap)) (map_items ''supersedes_map'' (snap_manifest snap))"
    and "cursor \<in> set (snap_raw snap stream)" and "digests_differ (snap_raw snap stream)"
    and "visited = map digest_json before" and "map row_id before = seen" and "set before \<subseteq> set (snap_raw snap stream)"
    and "distinct seen" and "length (snap_raw snap stream) < k + length seen"
    and "\<forall>row\<in>set before. rs_successor (state_of snap stream row) \<noteq> None"
  shows "\<exists>chain. inspect_chain snap stream k visited cursor = Inr chain"
  using assms
proof (induction k arbitrary: seen cursor visited before)
  case 0
  have "card (set before) \<le> card (set (snap_raw snap stream))" using "0.prems"(7) by (simp add: card_mono)
  moreover have "distinct before" using "0.prems"(6,8) by (metis distinct_map)
  ultimately have "length seen \<le> length (snap_raw snap stream)"
    using "0.prems"(6) card_length[of "snap_raw snap stream"] by (metis distinct_card le_trans length_map)
  then show ?case using "0.prems"(9) by simp
next
  case (Suc k)
  let ?links = "rev (map link_of (map_items ''supersedes_map'' (snap_manifest snap)))"
  show ?case
  proof (cases "rs_successor (state_of snap stream cursor)")
    case None
    then have "cursor \<notin> set before" using Suc.prems(10) by blast
    then have "digest_json cursor \<notin> set visited"
      using Suc.prems(3,4,5,7) by (auto simp: digests_differ_def inj_on_def)
    then show ?thesis using None by (simp add: Let_def)
  next
    case (Some i)
    then have heir: "map_of ?links (stream, row_id cursor) = Some i"
      by (auto simp: state_of_def successor_of_def split: option.splits)
    have fresh: "row_id cursor \<notin> set seen" and rest: "chain_ends ?links stream (row_id cursor # seen) i"
      using Suc.prems(1) heir by (auto simp: chain_ends.simps[of ?links stream seen] split: if_splits)
    have "cursor \<notin> set before" using fresh Suc.prems(6) by auto
    then have new: "digest_json cursor \<notin> set visited"
      using Suc.prems(3,4,5,7) by (auto simp: digests_differ_def inj_on_def)
    obtain entry where "entry \<in> set (map_items ''supersedes_map'' (snap_manifest snap))"
      "link_of entry = ((stream, row_id cursor), i)"
      using map_of_SomeD[OF heir] by auto
    then have "i \<in> set (map row_id (snap_raw snap stream))"
      using Suc.prems(2) by (auto simp: list_all_iff linked_rows_def)
    from row_by_id_member[OF this] obtain row where row: "row_by_id (snap_raw snap stream) i = Some row"
      "row \<in> set (snap_raw snap stream)" "row_id row = i" by blast
    have "\<exists>chain. inspect_chain snap stream k (digest_json cursor # visited) row = Inr chain"
      by (rule Suc.IH[where seen = "row_id cursor # seen" and before = "cursor # before"])
        (use Suc.prems rest row fresh Some in auto)
    then show ?thesis using Some new row by (auto simp: Let_def)
  qed
qed

lemma snapshot_chain_ends:
  assumes "snapshot_under_gate n revision use_watermark s = Inr snap"
  shows "chain_ends (rev (map link_of (map_items ''supersedes_map'' (snap_manifest snap)))) stream [] i"
proof (cases "map_of (rev (map link_of (map_items ''supersedes_map'' (snap_manifest snap)))) (stream, i)")
  case None
  then show ?thesis by (simp add: chain_ends.simps)
next
  case (Some heir)
  then have "((stream, i), heir) \<in> set (map link_of (map_items ''supersedes_map'' (snap_manifest snap)))"
    using map_of_SomeD by fastforce
  then show ?thesis using snapshotD(4)[OF assms] by (fastforce simp: lifecycle_ok_def list_all_iff)
qed

text \<open>The inspection of a record walks its successors to the end. For a snapshot that was read and a
  record of it, the chain has no cycle, no missing successor and stays within the limit, unless two
  records of the stream have the same digest.\<close>

theorem inspection_chain_ends:
  "case snapshot_under_gate n revision use_watermark s of Inl _ \<Rightarrow> True
   | Inr snap \<Rightarrow>
       if digests_differ (snap_raw snap stream)
       then list_all (\<lambda>target. succeeds (inspect_chain snap stream (length (snap_raw snap stream) + 1) [] target))
              (snap_raw snap stream)
       else True"
proof (cases "snapshot_under_gate n revision use_watermark s")
  case (Inr snap)
  have links: "list_all (linked_rows (snap_raw snap)) (map_items ''supersedes_map'' (snap_manifest snap))"
    using snapshotD(4)[OF Inr] by (simp only: lifecycle_ok_def)
  have "\<exists>chain. inspect_chain snap stream (length (snap_raw snap stream) + 1) [] target = Inr chain"
    if "target \<in> set (snap_raw snap stream)" "digests_differ (snap_raw snap stream)" for target
    by (rule inspect_chain_walks[where seen = "[]" and before = "[]", OF snapshot_chain_ends[OF Inr] links that]) simp_all
  then show ?thesis unfolding Inr by (fastforce simp: list_all_iff succeeds_def)
qed simp

end
