(* ===== verification/Repair.thy ===== *)
theory Repair
  imports Mutation
begin

text \<open>
  The explicit repair of \<open>transaction_repair.py\<close>: \<open>repair_durability\<close> flushes every file of the
  candidate of a transaction again and leaves a repair receipt. The theorem says that the receipt of
  a repair that reports success is evidence at once, and that nothing outside the receipts of the
  transaction and the quarantine has changed.
\<close>

section \<open>The operations\<close>

text \<open>The results of a call for each element, in order.\<close>

fun gather :: "('a \<Rightarrow> 'b io) \<Rightarrow> 'a list \<Rightarrow> 'b list io" where
  "gather f [] = ret []"
| "gather f (x # xs) = bind_io (f x) (\<lambda>y. bind_io (gather f xs) (\<lambda>ys. ret (y # ys)))"

text \<open>\<open>_candidate_paths\<close>, relative to the memory root.\<close>

definition candidate_paths :: "string \<Rightarrow> string \<Rightarrow> json \<Rightarrow> os \<Rightarrow> string list res" where
  "candidate_paths txid candidate attempt s =
     (case required_candidate_files txid candidate attempt s of
        Inl e \<Rightarrow> if is_value_error e then Inl (transaction_error (exn_code e)) else Inl e
      | Inr required \<Rightarrow> Inr (sorted_set required))"

definition only_candidate :: "string list \<Rightarrow> string res" where
  "only_candidate candidates =
     (case candidates of [c] \<Rightarrow> Inr c | _ \<Rightarrow> Inl (transaction_error ''transaction_candidate_ambiguous''))"

text \<open>The attempt of the journal when it is valid, else that of the immutable stage.\<close>

definition repair_attempt :: "json option \<Rightarrow> string \<Rightarrow> string \<Rightarrow> os \<Rightarrow> json res" where
  "repair_attempt j txid candidate s =
     andthen (if journal_invalid j then Inr None
              else case validate_attempt (get ''attempt'' (the j)) of
                  Inl e \<Rightarrow> if is_transaction_error e then Inr None else Inl e
                | Inr attempt \<Rightarrow> Inr (Some attempt)) (\<lambda>found.
       case found of
         Some attempt \<Rightarrow> Inr attempt
       | None \<Rightarrow>
           (case stage_evidence txid candidate s of
              None \<Rightarrow> Inl evidence_invalid
            | Some stage \<Rightarrow> andthen (subscript ''attempt'' stage) validate_attempt))"

definition known_relation :: "string \<Rightarrow> string \<Rightarrow> os \<Rightarrow> string res" where
  "known_relation candidate current s =
     (let rel = candidate_relation (Some candidate) (Some current) s in
      if rel = ''unknown'' then Inl (transaction_error ''transaction_authority_unknown'') else Inr rel)"

definition flush_file :: "string \<Rightarrow> json io" where
  "flush_file path =
     bind_io (fsync_file path) (\<lambda>_. asks (\<lambda>s.
       case bytes_at path s of
         None \<Rightarrow> Inl raw_os_error | Some bytes \<Rightarrow> Inr (protected_file path (digest_bytes bytes))))"

definition flush_directory :: "string \<Rightarrow> json io" where
  "flush_directory path = bind_io (fsync_directory path) (\<lambda>_. ret (protected_directory path))"

definition repair_for :: "string \<Rightarrow> string" where
  "repair_for rel = (if rel \<in> {''current'', ''ancestor''} then ''current-durable'' else ''candidate-data-durable'')"

definition repair_paths :: "string \<Rightarrow> string list \<Rightarrow> string list" where
  "repair_paths rel required = required @ (if rel \<in> {''current'', ''ancestor''} then [current_path] else [])"

definition last_id :: "string list \<Rightarrow> string option" where
  "last_id ids = (if ids = [] then None else Some (last ids))"

text \<open>The flushes and the receipt, once the candidate, its attempt and its relation are known.\<close>

definition flush_and_record :: "string \<Rightarrow> string \<Rightarrow> json \<Rightarrow> string \<Rightarrow> string list \<Rightarrow> string io" where
  "flush_and_record txid candidate attempt rel required =
     bind_io (gather flush_file (repair_paths rel required)) (\<lambda>flushed.
     bind_io (gather flush_directory (sorted_set (map parent_dir (repair_paths rel required)))) (\<lambda>directories.
     bind_io (asks (\<lambda>s. Inr (last_id (receipt_ids txid s)))) (\<lambda>predecessor.
       write_receipt attempt ''repair'' candidate (flushed @ directories) predecessor (Some (repair_for rel)))))"

definition repair_durability :: "string \<Rightarrow> json io" where
  "repair_durability txid =
     bind_io (asks (journal txid)) (\<lambda>j.
     bind_io (asks (manifest_candidates None txid)) (\<lambda>candidates.
     bind_io (lift (only_candidate candidates)) (\<lambda>candidate.
     bind_io (asks (repair_attempt j txid candidate)) (\<lambda>attempt.
     bind_io (asks read_current) (\<lambda>current.
     bind_io (asks (known_relation candidate current)) (\<lambda>rel.
     bind_io (asks (candidate_paths txid candidate attempt)) (\<lambda>required.
     bind_io (flush_and_record txid candidate attempt rel required) (\<lambda>_.
       asks (inspect_transaction txid)))))))))"

section \<open>What reading a candidate depends on\<close>

text \<open>Two states with the same files among those that satisfy \<open>P\<close>, in the same order.\<close>

definition kept_on :: "(string \<Rightarrow> bool) \<Rightarrow> os \<Rightarrow> os \<Rightarrow> bool" where
  "kept_on P s t \<longleftrightarrow> filter (\<lambda>kv. P (fst kv)) (files t) = filter (\<lambda>kv. P (fst kv)) (files s)"

interpretation kept: step_relation "kept_on P" for P
  by unfold_locales (simp_all add: kept_on_def pop_def advance_def split: list.splits)

lemma filter_put: "\<not> P k \<Longrightarrow> filter (\<lambda>kv. P (fst kv)) (put k v m) = filter (\<lambda>kv. P (fst kv)) m"
  by (induction k v m rule: put.induct) auto

lemma kept_free [simp]: "\<not> P p \<Longrightarrow> kept.free P p"
  by (auto simp: kept.free_def kept_on_def store_file_def remove_file_def filter_put intro: filter_cong)

lemma kept_bytes: "kept_on P s t \<Longrightarrow> P p \<Longrightarrow> bytes_at p t = bytes_at p s"
proof -
  have "map_of (filter (\<lambda>kv. P (fst kv)) m) p = map_of m p" if "P p" for m :: "(string \<times> string) list"
    using that by (induction m) auto
  then show "kept_on P s t \<Longrightarrow> P p \<Longrightarrow> bytes_at p t = bytes_at p s"
    unfolding kept_on_def bytes_at_def by metis
qed

lemma kept_stems:
  assumes k: "kept_on P s t" and below: "\<And>p. under d p \<Longrightarrow> P p"
  shows "json_stems d t = json_stems d s"
proof -
  have "filter (\<lambda>kv. under d (fst kv)) (filter (\<lambda>kv. P (fst kv)) m) = filter (\<lambda>kv. under d (fst kv)) m"
    for m :: "(string \<times> string) list"
    using below by (induction m) auto
  from this[of "files s"] this[of "files t"] k
  have "filter (\<lambda>kv. under d (fst kv)) (files t) = filter (\<lambda>kv. under d (fst kv)) (files s)"
    unfolding kept_on_def by metis
  then show ?thesis by (simp add: json_stems_def)
qed

lemma kept_weaken:
  assumes "kept_on P s t" and "\<And>p. Q p \<Longrightarrow> P p"
  shows "kept_on Q s t"
proof -
  have e: "filter (\<lambda>kv. Q (fst kv)) (filter (\<lambda>kv. P (fst kv)) m) = filter (\<lambda>kv. Q (fst kv)) m"
    for m :: "(string \<times> string) list"
    using assms(2) by (induction m) auto
  have "filter (\<lambda>kv. Q (fst kv)) (files t) = filter (\<lambda>kv. Q (fst kv)) (filter (\<lambda>kv. P (fst kv)) (files t))"
    by (rule e[symmetric])
  also have "\<dots> = filter (\<lambda>kv. Q (fst kv)) (filter (\<lambda>kv. P (fst kv)) (files s))"
    using assms(1) by (simp only: kept_on_def)
  also have "\<dots> = filter (\<lambda>kv. Q (fst kv)) (files s)" by (rule e)
  finally show ?thesis by (simp add: kept_on_def)
qed

lemma kept_object:
  assumes "kept_on P s t" and "\<And>x. P (kind @ ''/sha256/'' @ x)"
  shows "read_json_object kind i t = read_json_object kind i s"
proof (cases "bare_digest i")
  case (Inr bare)
  have "bytes_at (kind @ ''/sha256/'' @ bare @ ''.json'') t = bytes_at (kind @ ''/sha256/'' @ bare @ ''.json'') s"
    by (rule kept_bytes[OF assms(1)]) (rule assms(2))
  with Inr show ?thesis by (simp add: read_json_object_def get_bytes_def path_for_def)
qed (simp add: read_json_object_def get_bytes_def path_for_def)

section \<open>The files a candidate needs are read elsewhere\<close>

definition outside_receipts :: "string \<Rightarrow> string \<Rightarrow> bool" where
  "outside_receipts txid q \<longleftrightarrow> \<not> under (receipts_kind txid) q \<and> \<not> under ''quarantine'' q"

lemmas outside_receipts_defs = outside_receipts_def under_def receipts_kind_def stages_kind_def journal_path_def

lemma matching_cong:
  "(\<And>i. read_json_object kind i t = read_json_object kind i s) \<Longrightarrow> matching kind t p ids = matching kind s p ids"
  by (induction ids) (simp_all split: sum.split)

lemma required_files_kept:
  assumes k: "kept_on (outside_receipts txid) s t"
  shows "required_candidate_files txid candidate attempt t = required_candidate_files txid candidate attempt s"
proof -
  have r: "read_json_object ''revisions'' i t = read_json_object ''revisions'' i s"
    "read_json_object ''refutations'' i t = read_json_object ''refutations'' i s"
    "read_json_object ''compaction/epochs'' i t = read_json_object ''compaction/epochs'' i s"
    "read_json_object ''refs/ref-log'' i t = read_json_object ''refs/ref-log'' i s"
    "read_json_object (stages_kind txid) i t = read_json_object (stages_kind txid) i s" for i
    by (rule kept_object[OF k]; simp add: outside_receipts_defs)+
  have ids: "identifiers ''refs/ref-log'' t = identifiers ''refs/ref-log'' s"
    "identifiers (stages_kind txid) t = identifiers (stages_kind txid) s"
    unfolding identifiers_def
    by (auto intro!: arg_cong[where f = "map _"] kept_stems[OF k] simp: outside_receipts_defs elim!: prefixE)
  have journal: "journal_stage txid t = journal_stage txid s"
    using kept_bytes[OF k, of "journal_path txid"] by (simp add: journal_stage_def outside_receipts_defs)
  have "refutation_paths t = refutation_paths s" "parent_manifest m t = parent_manifest m s" for m
    by (simp_all add: fun_eq_iff refutation_paths_def parent_manifest_def r cong: json.case_cong)
  moreover have "exact_stage txid candidate attempt t = exact_stage txid candidate attempt s"
    by (simp add: exact_stage_def journal ids matching_cong[OF r(5)] split: option.split)
  moreover have "operation_files m stage attempt entries txid t = operation_files m stage attempt entries txid s" for m stage entries
    unfolding operation_files_def compact_files_def check_refute_stage_def r ..
  moreover have "intent_files m attempt txid candidate t = intent_files m attempt txid candidate s" for m
    unfolding intent_files_def exact_intent_path_def ids matching_cong[OF r(4)] ..
  ultimately show ?thesis unfolding required_candidate_files_def r by simp
qed

section \<open>Paths\<close>

text \<open>A state of the UTF-8 automaton that expects no continuation byte is the initial one.\<close>

fun utf8_settled :: "utf8_state \<Rightarrow> bool" where
  "utf8_settled (k, lo, hi) \<longleftrightarrow> (if k = 0 then (lo, hi) = (128, 192) else 128 \<le> lo)"

lemma utf8_step_settled: "utf8_step st n = Some st' \<Longrightarrow> utf8_settled st'"
  by (cases "(st, n)" rule: utf8_step.cases) (auto simp: utf8_start_def split: if_splits)

lemma utf8_run_settled: "utf8_run st x = Some st' \<Longrightarrow> utf8_settled st \<Longrightarrow> utf8_settled st'"
  by (induction st x rule: utf8_run.induct) (auto split: option.splits dest: utf8_step_settled)

lemma valid_utf8_before_ascii:
  assumes "valid_utf8 (x @ c # y)" and ascii: "(of_char c :: nat) < 128"
  shows "valid_utf8 x"
proof -
  obtain st st' where run: "utf8_run utf8_start x = Some st" and st': "utf8_step st (of_char c) = Some st'"
    using assms(1) by (auto simp: valid_utf8_def utf8_run_append split: option.splits)
  have "utf8_settled st" by (rule utf8_run_settled[OF run]) (simp add: utf8_start_def)
  moreover obtain k lo hi where s: "st = (k, lo, hi)" by (cases st)
  ultimately have "st = utf8_start"
    using st' ascii by (cases k) (auto simp: utf8_start_def split: if_splits)
  with run show ?thesis by (simp add: valid_utf8_def)
qed

lemma slash_split:
  assumes "CHR ''/'' \<in> set p"
  shows "parent_dir p @ ''/'' @ base_name p = p \<and> folder p = parent_dir p"
proof -
  have "dir_prefix p \<noteq> []" using assms by (simp add: dir_prefix_def dropWhile_eq_Nil_conv)
  then obtain d where d: "dir_prefix p = d @ ''/''" using dir_prefix_Nil_or_slash[of p] by blast
  have "(d @ ''/'') @ base_name p = p" using dir_base[of p] unfolding d .
  then show ?thesis using d by (simp add: parent_dir_def folder_def)
qed

lemma parent_dir_utf8:
  assumes "CHR ''/'' \<in> set p" and "valid_utf8 p"
  shows "valid_utf8 (parent_dir p)"
proof -
  have "p = parent_dir p @ CHR ''/'' # base_name p" using slash_split[OF assms(1)] by simp
  then have "valid_utf8 (parent_dir p @ CHR ''/'' # base_name p)" using assms(2) by simp
  then show ?thesis by (rule valid_utf8_before_ascii) simp
qed

section \<open>The flushes\<close>

definition same_files :: "os \<Rightarrow> os \<Rightarrow> bool" where
  "same_files s t \<longleftrightarrow> files t = files s \<and> onward s t"

context step_relation
begin

lemma keeps_flushes [keeps_rules]: "keeps (flush_file p)" "keeps (flush_directory d)"
  unfolding flush_file_def flush_directory_def by (intro keeps_rules)+

end

lemma same_files_by_keeps:
  assumes "kept.keeps (\<lambda>_. True) m" and "onward.keeps m" and "m s = (r, t)"
  shows "same_files s t"
  using kept.keepsD[OF assms(1,3)] onward.keepsD[OF assms(2,3)] by (simp add: same_files_def kept_on_def)

lemma same_files_trans: "same_files s t \<Longrightarrow> same_files t u \<Longrightarrow> same_files s u"
  using onward.chains[of s t u] by (auto simp: same_files_def)

lemma flush_file_spec:
  assumes run: "flush_file p s = (Inr y, t)"
  shows "same_files s t \<and> y = protected_file p (digest_bytes (the (bytes_at p t))) \<and> bytes_at p t \<noteq> None"
proof -
  have "same_files s t"
    by (rule same_files_by_keeps[OF kept.keeps_flushes(1) onward.keeps_flushes(1) run])
  moreover have "y = protected_file p (digest_bytes (the (bytes_at p t))) \<and> bytes_at p t \<noteq> None"
    using run by (auto simp: flush_file_def run_iff elim!: bind_ioE split: option.splits)
  ultimately show ?thesis by blast
qed

lemma flush_directory_spec:
  assumes run: "flush_directory p s = (Inr y, t)"
  shows "same_files s t \<and> y = protected_directory p"
proof -
  have "same_files s t"
    by (rule same_files_by_keeps[OF kept.keeps_flushes(2) onward.keeps_flushes(2) run])
  then show ?thesis using run by (auto simp: flush_directory_def run_iff elim!: bind_ioE)
qed

lemma bytes_same_files: "same_files s t \<Longrightarrow> bytes_at p t = bytes_at p s"
  by (simp add: same_files_def bytes_at_def)

lemma gather_spec:
  assumes each: "\<And>x s y t. f x s = (Inr y, t) \<Longrightarrow> same_files s t \<and> y = g t x \<and> ok t x"
    and frame: "\<And>x s t. same_files s t \<Longrightarrow> g t x = g s x \<and> ok t x = ok s x"
  shows "gather f xs s = (Inr ys, t) \<Longrightarrow> same_files s t \<and> ys = map (g t) xs \<and> (\<forall>x\<in>set xs. ok t x)"
proof (induction xs arbitrary: s ys)
  case Nil
  then show ?case by (auto simp: ret_def same_files_def)
next
  case (Cons x xs)
  obtain y u zs where y: "f x s = (Inr y, u)" and zs: "gather f xs u = (Inr zs, t)" and ys: "ys = y # zs"
    using Cons.prems by (auto simp: run_iff elim!: bind_ioE)
  note step = each[OF y] and tail = Cons.IH[OF zs]
  have "same_files s t" using step tail same_files_trans by blast
  moreover have "g t x = g u x" "ok t x = ok u x" using frame tail by blast+
  ultimately show ?case using step tail ys by simp
qed

lemma gather_files_spec:
  "gather flush_file ps s = (Inr ys, t) \<Longrightarrow>
   same_files s t \<and> ys = map (\<lambda>p. protected_file p (digest_bytes (the (bytes_at p t)))) ps \<and>
   (\<forall>p\<in>set ps. bytes_at p t \<noteq> None)"
  by (rule gather_spec) (auto dest: flush_file_spec simp: bytes_same_files)

lemma gather_directories_spec:
  "gather flush_directory ps s = (Inr ys, t) \<Longrightarrow> same_files s t \<and> ys = map protected_directory ps"
  using gather_spec[of flush_directory "\<lambda>_. protected_directory" "\<lambda>_ _. True" ps s ys t]
  by (auto dest: flush_directory_spec)

section \<open>A repair receipt is evidence\<close>

text \<open>The entries of a repair of the files \<open>ps\<close> whose digests are \<open>f\<close>.\<close>

definition repair_items :: "(string \<Rightarrow> string) \<Rightarrow> string list \<Rightarrow> json list" where
  "repair_items f ps = map (\<lambda>p. protected_file p (f p)) ps @ map protected_directory (sorted_set (map parent_dir ps))"

lemma get_protected [simp]:
  "get ''path'' (protected_file p d) = JStr p" "get ''operation'' (protected_file p d) = JStr ''file_fsync''"
  "get ''content_sha256'' (protected_file p d) = JStr d"
  "get ''path'' (protected_directory p) = JStr p" "get ''operation'' (protected_directory p) = JStr ''directory_fsync''"
  "get ''content_sha256'' (protected_directory p) = JNull"
  by (simp_all add: protected_file_def protected_directory_def)

lemma keys_protected [simp]:
  "is_obj (protected_file p d) \<and> same_keys (protected_file p d) [''path'', ''operation'', ''content_sha256'']"
  "is_obj (protected_directory p) \<and> same_keys (protected_directory p) [''path'', ''operation'', ''content_sha256'']"
  by (simp_all add: protected_file_def protected_directory_def same_keys_iff)

lemma repair_items_paths:
  "set (paths_of ''file_fsync'' (sort_key k (repair_items f ps))) = set ps"
  "set (paths_of ''directory_fsync'' (sort_key k (repair_items f ps))) = parent_dir ` set ps"
proof -
  have split: "set (paths_of op (sort_key k xs)) =
      (\<lambda>item. str_of (get ''path'' item)) ` {item \<in> set xs. get ''operation'' item = JStr op}" for op xs
    by (simp add: paths_of_def)
  have "{item \<in> set (repair_items f ps). get ''operation'' item = JStr ''file_fsync''} =
      (\<lambda>p. protected_file p (f p)) ` set ps"
    "{item \<in> set (repair_items f ps). get ''operation'' item = JStr ''directory_fsync''} =
      protected_directory ` parent_dir ` set ps"
    by (auto simp: repair_items_def)
  then show "set (paths_of ''file_fsync'' (sort_key k (repair_items f ps))) = set ps"
    "set (paths_of ''directory_fsync'' (sort_key k (repair_items f ps))) = parent_dir ` set ps"
    unfolding split by (simp_all add: image_image)
qed

lemma repair_items_covered:
  assumes "set fs = set ps" and "\<And>p. p \<in> set ps \<Longrightarrow> CHR ''/'' \<in> set p"
  shows "check_coverage (sort_key k (repair_items f ps)) fs = Inr ()"
proof -
  have "folder p = parent_dir p" if "p \<in> set ps" for p using slash_split[OF assms(2)[OF that]] by blast
  then show ?thesis
    using assms(1) repair_items_paths[of k f ps]
    by (auto simp: check_coverage_def Let_def same_set_def checks.simps list_all_iff intro!: sorted_set_eqI)
qed

text \<open>The same files everywhere but under the receipts of the transaction.\<close>

lemma write_receipt_kept:
  assumes run: "write_receipt attempt kind c items p r0 s = (r, t)"
  shows "kept_on (outside_receipts (str_of (get ''transaction_id'' attempt))) s t \<and> onward s t"
proof
  let ?txid = "str_of (get ''transaction_id'' attempt)"
  have "kept.keeps (outside_receipts ?txid) (write_json_object (receipts_kind ?txid) v)" for v
    by (rule kept.keeps_write_json_object)
      (auto simp: kept.free_below_def intro!: kept_free simp: outside_receipts_defs)
  then have "kept.keeps (outside_receipts ?txid) (write_receipt attempt kind c items p r0)"
    unfolding write_receipt_def Let_def
    by (intro kept.keeps_lift_bind kept.keeps_bind kept.keeps_readers kept.keeps_sync_protected)
      (auto elim: valid_attempt_fields)
  then show "kept_on (outside_receipts ?txid) s t" using run by (rule kept.keepsD)
  have "onward.keeps (write_receipt attempt kind c items p r0)"
    unfolding write_receipt_def Let_def
    by (intro onward.keeps_lift_bind onward.keeps_bind onward.keeps_readers onward.keeps_sync_protected
        onward.keeps_write_json_object) simp_all
  then show "onward s t" using run by (rule onward.keepsD)
qed

lemma write_receipt_steps:
  assumes run: "write_receipt attempt kind c items p r0 s = (Inr i, t)"
  obtains u txid where "validate_attempt attempt = Inr attempt" "get ''transaction_id'' attempt = JStr txid"
    "check_receipt_request kind c p r0 = Inr ()" "\<forall>item\<in>set items. check_receipt_item s item = Inr ()"
    "distinct (map protected_key (sort_key protected_key items))"
    "\<forall>item\<in>set items. is_protected_file item \<longrightarrow> protects u item"
    "write_json_object (receipts_kind txid)
      (receipt_object attempt kind c p r0 (sort_key protected_key items)) u = (Inr i, t)"
proof -
  obtain checked u where v: "validate_attempt attempt = Inr checked"
    and request: "check_receipt_request kind c p r0 = Inr ()" and items: "each (check_receipt_item s) items = Inr ()"
    and d: "distinct (map protected_key (sort_key protected_key items))"
    and sync: "sync_protected (sort_key protected_key items) s = (Inr (), u)"
    and w: "write_json_object (receipts_kind (str_of (get ''transaction_id'' checked)))
      (receipt_object checked kind c p r0 (sort_key protected_key items)) u = (Inr i, t)"
    using run by (auto simp: write_receipt_def Let_def run_iff elim!: bind_ioE)
  obtain txid where c: "checked = attempt" "get ''transaction_id'' attempt = JStr txid"
    by (rule valid_attempt_fields[OF v]) blast
  show ?thesis
    using that[of txid u] v request items d sync_protected_spec[OF sync] w c
    by (auto simp: each_Inr_iff list_all_iff)
qed

lemma repair_receipt_storable:
  assumes a: "validate_attempt attempt = Inr attempt" and shapes: "digest_shape c" "\<And>x. p = Some x \<Longrightarrow> digest_shape x"
    and k: "k \<in> {''current-durable'', ''candidate-data-durable''}"
    and ps: "\<And>q. q \<in> set ps \<Longrightarrow> CHR ''/'' \<in> set q \<and> valid_utf8 q \<and> digest_shape (f q)"
  shows "storable (receipt_object attempt ''repair'' c p (Some k) (sort_key protected_key (repair_items f ps)))"
proof -
  obtain txid e where t: "get ''transaction_id'' attempt = JStr txid" "uuid_shape txid"
    "get ''execution_fingerprint'' attempt = JStr e" "digest_shape e"
    by (rule valid_attempt_fields[OF a])
  have "storable (protected_file q (f q)) \<and> storable (protected_directory (parent_dir q))" if "q \<in> set ps" for q
    using ps[OF that] parent_dir_utf8[of q] unfolding protected_directory_def protected_file_def
    by (auto intro!: storable_mk_obj simp: valid_utf8_ascii)
  then have "storable (JArr (sort_key protected_key (repair_items f ps)))"
    by (auto simp: repair_items_def)
  moreover have "storable (opt_str p)" using shapes(2) by (cases p) auto
  ultimately show ?thesis
    using t shapes(1) k valid_utf8_uuid[of txid] unfolding receipt_object_def
    by (auto intro!: storable_mk_obj simp: valid_utf8_ascii)
qed

lemma repair_item_holds:
  assumes item: "item \<in> set (repair_items f ps)" and ok: "check_receipt_item s item = Inr ()"
    and files: "\<And>q. q \<in> set ps \<Longrightarrow> CHR ''/'' \<in> set q \<and> bytes_at q t \<noteq> None \<and> f q = digest_bytes (the (bytes_at q t))"
    and nfc: "is_nfc t = is_nfc s"
  shows "check_protected rel t item = Inr ()"
proof -
  from item consider (flushed) q where "q \<in> set ps" "item = protected_file q (f q)"
    | (parent) q where "q \<in> set ps" "item = protected_directory (parent_dir q)"
    by (auto simp: repair_items_def)
  then show ?thesis
  proof cases
    case flushed
    obtain b where "bytes_at q t = Some b" "f q = digest_bytes b" using files[OF flushed(1)] by auto
    then show ?thesis
      using ok nfc unfolding flushed(2)
      by (simp add: check_receipt_item_def check_protected_def Let_def checks.simps normal_path_def)
  next
    case parent
    have "is_dir (parent_dir q) t"
      using files[OF parent(1)] slash_split[of q] stored_under[of "parent_dir q" "base_name q" t] by auto
    then show ?thesis
      using ok nfc unfolding parent(2)
      by (simp add: check_receipt_item_def check_protected_def Let_def checks.simps normal_path_def)
  qed
qed

lemma repair_receipt_validates:
  assumes run: "write_receipt attempt ''repair'' c (repair_items f ps) p (Some k) s = (Inr i, t)"
    and txid: "get ''transaction_id'' attempt = JStr txid"
    and ps: "\<And>q. q \<in> set ps \<Longrightarrow> CHR ''/'' \<in> set q \<and> valid_utf8 q \<and> outside_receipts txid q"
    and expected: "expected_files ''repair'' (JStr k) txid (Some c) attempt t = Inr fs" "set fs = set ps" "ps \<noteq> []"
  shows "\<exists>v. (\<forall>rel. validate_receipt_evidence txid i attempt (Some c) ''repair'' rel t = Inr v) \<and>
    get ''repair_for_kind'' v = JStr k \<and> get ''predecessor_receipt'' v = opt_str p"
proof -
  let ?items = "sort_key protected_key (repair_items f ps)" and ?r = "receipt_object attempt ''repair'' c p (Some k)"
  have tx: "str_of (get ''transaction_id'' attempt) = txid" using txid by simp
  note kept = write_receipt_kept[OF run, unfolded tx]
  from run txid obtain u where v: "validate_attempt attempt = Inr attempt"
    and request: "check_receipt_request ''repair'' c p (Some k) = Inr ()"
    and items: "\<forall>item\<in>set (repair_items f ps). check_receipt_item s item = Inr ()"
    and d: "distinct (map protected_key ?items)"
    and sync: "\<forall>item\<in>set (repair_items f ps). is_protected_file item \<longrightarrow> protects u item"
    and w: "write_json_object (receipts_kind txid) (?r ?items) u = (Inr i, t)"
    by (elim write_receipt_steps) simp
  have shapes: "digest_shape c" "\<And>x. p = Some x \<Longrightarrow> digest_shape x"
    and k: "k \<in> {''current-durable'', ''candidate-data-durable''}"
    using request by (auto simp: check_receipt_request_def)
  have frame: "bytes_at q t = bytes_at q u" if "outside_receipts txid q" for q
  proof -
    have "same.keeps (outside_receipts txid) (write_json_object (receipts_kind txid) (?r ?items))"
      by (rule same.keeps_write_json_object) (auto simp: outside_receipts_defs)
    from same.keepsD[OF this w] that show ?thesis by (simp add: same_on_def)
  qed
  have files: "CHR ''/'' \<in> set q \<and> bytes_at q t \<noteq> None \<and> f q = digest_bytes (the (bytes_at q t))" if "q \<in> set ps" for q
    using bspec[OF sync, of "protected_file q (f q)"] that ps[OF that] frame[of q]
    by (auto simp: repair_items_def is_protected_file_def protects_def split: option.splits)
  have digests: "digest_shape (f q)" if "q \<in> set ps" for q
    using bspec[OF items, of "protected_file q (f q)"] that by (auto simp: repair_items_def check_receipt_item_def Let_def)
  have st: "storable (?r ?items)"
    by (rule repair_receipt_storable[OF v shapes k]) (use ps digests in blast)+
  have "\<not> prefix ''quarantine'' (receipts_kind txid)" by (simp add: receipts_kind_def)
  from stored_object_reads[OF st this w] have reads: "read_json_object (receipts_kind txid) i t = Inr (?r ?items)" by blast
  have nfc: "is_nfc t = is_nfc s" using kept by (simp add: onward_def)
  have entries: "each (check_protected rel t) ?items = Inr ()" for rel
    using repair_item_holds[OF _ _ files nfc] items by (auto simp: each_Inr_iff)
  have cover: "check_coverage ?items fs = Inr ()"
    by (rule repair_items_covered[OF expected(2)]) (use ps in blast)
  have fields: "is_obj (?r ?items)" "same_keys (?r ?items) receipt_keys"
    "get ''schema'' (?r ?items) = JStr ''an-kla/durability-receipt-v1''" "get ''kind'' (?r ?items) = JStr ''repair''"
    "get ''transaction_id'' (?r ?items) = JStr txid"
    "get ''execution_fingerprint'' (?r ?items) = get ''execution_fingerprint'' attempt"
    "get ''candidate_revision'' (?r ?items) = JStr c" "get ''predecessor_receipt'' (?r ?items) = opt_str p"
    "get ''repair_for_kind'' (?r ?items) = JStr k" "get ''protected'' (?r ?items) = JArr ?items"
    by (simp_all add: receipt_object_def receipt_keys_def same_keys_iff txid)
  have link: "when_ok (opt_str p \<noteq> JNull) (bare_digest_value (opt_str p)) = Inr ()"
    using shapes(2) by (cases p) (auto simp: when_ok_def)
  have "length ?items \<noteq> 0" using expected(3) by (simp add: repair_items_def)
  then have some: "?items \<noteq> []" by (metis list.size(3))
  have kind: "k = ''candidate-data-durable'' \<or> k = ''current-durable''" using k by blast
  have "validate_receipt_evidence txid i attempt (Some c) ''repair'' rel t = Inr (?r ?items)" for rel
    using reads fields entries d cover link some expected(1) kind
    by (simp add: validate_receipt_evidence_def Let_def check_receipt_link_def checks.simps ensure_in_def)
  then show ?thesis using fields by blast
qed

section \<open>The files of a candidate\<close>

lemma object_path_slash: "CHR ''/'' \<in> set (object_path kind ext i)"
  by (simp add: object_path_def)

lemma object_path_outside:
  assumes "kind \<in> {''revisions'', ''checkpoints'', ''refutations'', ''authority-claims'', ''authority-attestations'',
      ''refs/ref-log'', ''compaction/restore-proofs'', ''compaction/catalogs'', ''compaction/epochs'',
      stages_kind txid, segment_kind ''facts'', segment_kind ''events'', segment_kind ''episodes''}"
  shows "outside_receipts txid (object_path kind ext i)"
  using assms by (auto simp: object_path_def outside_receipts_defs segment_kind_def)

lemma current_outside: "outside_receipts txid current_path"
  by (simp add: outside_receipts_defs current_path_def)

definition candidate_file :: "string \<Rightarrow> string \<Rightarrow> bool" where
  "candidate_file txid q \<longleftrightarrow> CHR ''/'' \<in> set q \<and> outside_receipts txid q"

lemma candidate_file_object:
  "kind \<in> {''revisions'', ''checkpoints'', ''refutations'', ''authority-claims'', ''authority-attestations'',
      ''refs/ref-log'', ''compaction/restore-proofs'', ''compaction/catalogs'', ''compaction/epochs'',
      stages_kind txid, segment_kind ''facts'', segment_kind ''events'', segment_kind ''episodes''} \<Longrightarrow>
   candidate_file txid (object_path kind ext i)"
  using object_path_outside object_path_slash by (simp add: candidate_file_def)

lemma traverse_all:
  assumes "traverse f xs = Inr ys" and "\<And>x y. x \<in> set xs \<Longrightarrow> f x = Inr y \<Longrightarrow> \<forall>q\<in>set y. Q q"
  shows "\<forall>q\<in>set (concat ys). Q q"
  using assms
proof (induction xs arbitrary: ys)
  case (Cons x xs)
  obtain y zs where y: "f x = Inr y" and zs: "traverse f xs = Inr zs" and ys: "ys = y # zs" using Cons.prems(1) by auto
  have "\<forall>q\<in>set y. Q q" using Cons.prems(2)[OF _ y] by simp
  moreover have "\<forall>q\<in>set (concat zs). Q q" by (rule Cons.IH[OF zs Cons.prems(2)]) simp_all
  ultimately show ?case unfolding ys by auto
qed simp

lemma required_files_placed:
  assumes "required_candidate_files txid candidate attempt s = Inr fs"
  shows "fs \<noteq> [] \<and> (\<forall>q\<in>set fs. candidate_file txid q)"
proof -
  obtain m checkpoint parent segment_paths entries refuted stage_id stage extra intent where
    seg: "traverse (new_segment_paths m parent) STREAMS = Inr segment_paths"
    and ref: "traverse (refutation_paths s) entries = Inr refuted"
    and extra: "operation_files m stage attempt entries txid s = Inr extra"
    and intent: "intent_files m attempt txid candidate s = Inr intent"
    and fs: "fs = [object_path ''revisions'' ''.json'' candidate, object_path ''checkpoints'' ''.json'' (py_str checkpoint)] @
            concat segment_paths @ concat refuted @ [object_path (stages_kind txid) ''.json'' stage_id] @ extra @ intent"
    using assms by (auto simp: required_candidate_files_def)
  have "\<forall>q\<in>set (concat segment_paths). candidate_file txid q"
    by (rule traverse_all[OF seg]) (auto simp: STREAMS_def new_segment_paths_def intro!: candidate_file_object)
  moreover have "\<forall>q\<in>set (concat refuted). candidate_file txid q"
    by (rule traverse_all[OF ref]) (auto simp: refutation_paths_def intro!: candidate_file_object)
  moreover have "\<forall>q\<in>set extra. candidate_file txid q"
    using extra by (auto simp: operation_files_def compact_files_def Let_def split: if_splits intro!: candidate_file_object)
  moreover have "\<forall>q\<in>set intent. candidate_file txid q"
    using intent by (auto simp: intent_files_def exact_intent_path_def split: if_splits intro!: candidate_file_object)
  ultimately show ?thesis unfolding fs by (auto intro!: candidate_file_object)
qed

section \<open>What a repair leaves\<close>

lemma flush_and_record_state:
  assumes run: "flush_and_record txid c attempt rel required s = (r, t)"
  shows "kept_on (outside_receipts (str_of (get ''transaction_id'' attempt))) s t"
proof -
  have gathers: "kept.keeps P (gather f xs)" if "\<And>x. kept.keeps P (f x)" for P and f :: "string \<Rightarrow> json io" and xs
    using that by (induction xs) (auto intro!: kept.keeps_bind kept.keeps_readers)
  have "kept.keeps (outside_receipts (str_of (get ''transaction_id'' attempt))) (write_receipt attempt kind c items p r0)"
    for kind items p r0
    by (rule kept.keepsI) (use write_receipt_kept in blast)
  then have "kept.keeps (outside_receipts (str_of (get ''transaction_id'' attempt)))
      (flush_and_record txid c attempt rel required)"
    unfolding flush_and_record_def
    by (intro kept.keeps_bind gathers kept.keeps_flushes kept.keeps_readers)
  then show ?thesis using run by (rule kept.keepsD)
qed

lemma flush_and_record_evidence:
  assumes run: "flush_and_record txid c attempt rel required s = (Inr i, t)"
    and txid: "get ''transaction_id'' attempt = JStr txid"
    and required: "candidate_paths txid c attempt s = Inr required"
    and names: "list_all (\<lambda>kv. valid_utf8 (fst kv)) (files s)"
  shows "\<exists>v. (\<forall>rel. validate_receipt_evidence txid i attempt (Some c) ''repair'' rel t = Inr v) \<and>
    get ''repair_for_kind'' v = JStr (repair_for rel) \<and>
    get ''predecessor_receipt'' v = opt_str (last_id (receipt_ids txid s))"
proof -
  let ?ps = "repair_paths rel required"
  obtain fs where fs: "required_candidate_files txid c attempt s = Inr fs" and sorted: "required = sorted_set fs"
    using required by (auto simp: candidate_paths_def split: sum.splits if_splits)
  note placed = required_files_placed[OF fs]
  obtain ys s1 zs s2 where ys: "gather flush_file ?ps s = (Inr ys, s1)"
    and zs: "gather flush_directory (sorted_set (map parent_dir ?ps)) s1 = (Inr zs, s2)"
    and w: "write_receipt attempt ''repair'' c (ys @ zs) (last_id (receipt_ids txid s2)) (Some (repair_for rel)) s2 = (Inr i, t)"
    using run by (auto simp: flush_and_record_def run_iff elim!: bind_ioE)
  note files = gather_files_spec[OF ys] and directories = gather_directories_spec[OF zs]
  let ?f = "\<lambda>p. digest_bytes (the (bytes_at p s1))"
  have items: "ys @ zs = repair_items ?f ?ps" using files directories by (simp add: repair_items_def)
  have ps: "CHR ''/'' \<in> set q \<and> valid_utf8 q \<and> outside_receipts txid q" if q: "q \<in> set ?ps" for q
  proof -
    have "bytes_at q s \<noteq> None" using files q by (metis bytes_same_files)
    then have "valid_utf8 q" using names by (auto simp: bytes_at_def list_all_iff dest!: map_of_SomeD)
    moreover have "candidate_file txid q"
      using q placed sorted current_outside[of txid]
      by (auto simp: repair_paths_def candidate_file_def current_path_def split: if_splits)
    ultimately show ?thesis by (simp add: candidate_file_def)
  qed
  have "files s2 = files s" using files directories by (simp add: same_files_def)
  then have "kept_on (outside_receipts txid) s t"
    using write_receipt_kept[OF w] txid by (simp add: kept_on_def)
  from required_files_kept[OF this] have "required_candidate_files txid c attempt t = Inr fs" using fs by simp
  then have expected: "\<exists>es. expected_files ''repair'' (JStr (repair_for rel)) txid (Some c) attempt t = Inr es \<and> set es = set ?ps"
    using sorted by (auto simp: expected_files_def repair_for_def repair_paths_def Let_def)
  have "?ps \<noteq> []" using placed sorted by (simp add: repair_paths_def)
  moreover have "receipt_ids txid s2 = receipt_ids txid s"
    using \<open>files s2 = files s\<close> by (simp add: receipt_ids_def identifiers_def json_stems_def)
  ultimately show ?thesis using repair_receipt_validates[OF w[unfolded items] txid ps] expected by (metis (no_types, lifting))
qed

text \<open>
  A receipt of the transaction, for the candidate, that names \<open>predecessor\<close> as the one before it and
  validates as evidence, whatever the relation, for what the relation of the repair asks.
\<close>

definition repair_recorded :: "string \<Rightarrow> string \<Rightarrow> string \<Rightarrow> json \<Rightarrow> string option \<Rightarrow> os \<Rightarrow> bool" where
  "repair_recorded txid c rel attempt predecessor t \<longleftrightarrow>
     (\<exists>i v. (\<forall>other. validate_receipt_evidence txid i attempt (Some c) ''repair'' other t = Inr v) \<and>
       get ''repair_for_kind'' v = JStr (if rel \<in> {''current'', ''ancestor''} then ''current-durable'' else ''candidate-data-durable'') \<and>
       get ''predecessor_receipt'' v = opt_str predecessor)"

text \<open>The attempt a repair binds its receipt to: that of the journal file when the journal is readable and
  its attempt valid, else the valid attempt of the only stage that describes the candidate.\<close>

definition attempt_on_disk :: "string \<Rightarrow> string \<Rightarrow> json \<Rightarrow> os \<Rightarrow> bool" where
  "attempt_on_disk txid c attempt s \<longleftrightarrow>
     validate_attempt attempt = Inr attempt \<and>
     (case journal txid s of
        Inr (Some j) \<Rightarrow>
          if \<not> is_corrupt j \<and> succeeds (validate_attempt (get ''attempt'' j)) then attempt = get ''attempt'' j
          else \<exists>stage. stage_evidence txid c s = Some stage \<and> attempt = get ''attempt'' stage
      | Inr None \<Rightarrow> \<exists>stage. stage_evidence txid c s = Some stage \<and> attempt = get ''attempt'' stage
      | Inl _ \<Rightarrow> False)"

lemma repair_attempt_found:
  assumes j: "journal txid s = Inr j" and a: "repair_attempt j txid c s = Inr attempt"
  shows "attempt_on_disk txid c attempt s"
proof -
  have "validate_attempt x = Inr y \<Longrightarrow> y = x" for x y by (simp add: validate_attempt_iff)
  then show ?thesis using a unfolding attempt_on_disk_def j repair_attempt_def journal_invalid_def
    by (cases j) (auto simp: subscript_Inr_iff succeeds_def split: sum.splits option.splits if_splits)
qed

definition outside_all_receipts :: "string \<Rightarrow> bool" where
  "outside_all_receipts q \<longleftrightarrow> (\<forall>u. \<not> under (receipts_kind u) q) \<and> \<not> under ''quarantine'' q"

lemma repair_state:
  assumes run: "repair_durability txid s = (r, t)"
  shows "kept_on outside_all_receipts s t"
proof -
  have "kept.keeps outside_all_receipts (flush_and_record txid c attempt rel required)" for c attempt rel required
    by (rule kept.keepsI)
      (rule kept_weaken[OF flush_and_record_state], assumption, simp add: outside_all_receipts_def outside_receipts_def)
  then have "kept.keeps outside_all_receipts (repair_durability txid)"
    unfolding repair_durability_def by (intro kept.keeps_bind kept.keeps_readers)
  then show ?thesis using run by (rule kept.keepsD)
qed

lemma repair_steps:
  assumes run: "repair_durability txid s = (Inr out, t)"
  obtains j c attempt current rel required i where "journal txid s = Inr j" "manifest_candidates None txid s = Inr [c]"
    "repair_attempt j txid c s = Inr attempt" "read_current s = Inr current" "known_relation c current s = Inr rel"
    "candidate_paths txid c attempt s = Inr required"
    "flush_and_record txid c attempt rel required s = (Inr i, t)" "inspect_transaction txid t = Inr out"
proof -
  obtain j candidates c attempt current rel required i where "journal txid s = Inr j" "manifest_candidates None txid s = Inr candidates"
    "only_candidate candidates = Inr c" and rest: "repair_attempt j txid c s = Inr attempt"
    "read_current s = Inr current" "known_relation c current s = Inr rel"
    "candidate_paths txid c attempt s = Inr required"
    "flush_and_record txid c attempt rel required s = (Inr i, t)" "inspect_transaction txid t = Inr out"
    using run by (auto simp: repair_durability_def run_iff elim!: bind_ioE)
  moreover from this have "manifest_candidates None txid s = Inr [c]"
    by (auto simp: only_candidate_def split: list.splits)
  ultimately show ?thesis using that by blast
qed

text \<open>C26: A repair changes no file outside the receipts and the quarantine. When it reports success, the
  transaction has exactly one candidate, its relation to \<open>CURRENT\<close> is known (and when it is its revision or an
  ancestor, \<open>CURRENT\<close> does reach it), the outcome is that of the
  inspection after it, and the attempt is the one on disk: that of the journal when it is readable and valid,
  else that of the stage of the candidate. Provided that attempt names the transaction and the names of
  the files are UTF-8, the store then holds a repair receipt, bound to that attempt and candidate and
  chained to the last receipt there was before, that is evidence at once for what the relation asks:
  the durability of \<open>CURRENT\<close> when the candidate is its revision or an ancestor, else that of the data of
  the candidate.\<close>

theorem repair_leaves_evidence:
  "case repair_durability txid s of (r, t) \<Rightarrow>
     kept_on outside_all_receipts s t \<and>
     (case r of
        Inl _ \<Rightarrow> True
      | Inr out \<Rightarrow>
          inspect_transaction txid t = Inr out \<and>
          (\<exists>c current rel attempt. manifest_candidates None txid s = Inr [c] \<and> read_current s = Inr current \<and>
             candidate_relation (Some c) (Some current) s = rel \<and> rel \<noteq> ''unknown'' \<and>
             (if rel \<in> {''current'', ''ancestor''} then reachable_from c current s else True) \<and> attempt_on_disk txid c attempt s \<and>
             (if get ''transaction_id'' attempt = JStr txid \<and> list_all (\<lambda>kv. valid_utf8 (fst kv)) (files s)
              then repair_recorded txid c rel attempt (last_id (receipt_ids txid s)) t else True)))"
proof (cases "repair_durability txid s")
  case (Pair r t)
  show ?thesis
  proof (cases r)
    case (Inr out)
    note run = Pair[unfolded Inr]
    from run show ?thesis
    proof (rule repair_steps)
      fix j c attempt current rel required i
      assume j: "journal txid s = Inr j" and steps: "manifest_candidates None txid s = Inr [c]"
        and a: "repair_attempt j txid c s = Inr attempt"
        and known: "read_current s = Inr current" "known_relation c current s = Inr rel"
        and required: "candidate_paths txid c attempt s = Inr required"
        and f: "flush_and_record txid c attempt rel required s = (Inr i, t)" and out: "inspect_transaction txid t = Inr out"
      have "repair_recorded txid c rel attempt (last_id (receipt_ids txid s)) t"
        if "get ''transaction_id'' attempt = JStr txid" "list_all (\<lambda>kv. valid_utf8 (fst kv)) (files s)"
        using flush_and_record_evidence[OF f that(1) required that(2)] unfolding repair_recorded_def repair_for_def by blast
      moreover have "candidate_relation (Some c) (Some current) s = rel" "rel \<noteq> ''unknown''"
        using known(2) by (auto simp: known_relation_def Let_def split: if_splits)
      moreover from this have "if rel \<in> {''current'', ''ancestor''} then reachable_from c current s else True"
        using candidate_relation_reachable[of "Some c" "Some current" s] by auto
      ultimately show ?thesis using repair_attempt_found[OF j a] steps known(1) out repair_state[OF run]
        unfolding Pair Inr prod.case sum.case by (intro conjI exI) (assumption+, simp)
    qed
  qed (use Pair repair_state[OF Pair] in simp)
qed

end
