(* ===== verification/Initialize.thy ===== *)
theory Initialize
  imports Repair
begin

text \<open>
  The creation of the root revision (\<open>initialization.py\<close>): \<open>initialize_locked\<close> call by call, with its
  journal, stage, receipts and the clause for storage errors, and \<open>existing_initialization\<close>. The
  theorems say what a run may leave in \<open>CURRENT\<close>, that its outcome is true, and that the store it
  reports as created reads back as the empty revision 0.
\<close>

section \<open>The objects of the root\<close>

definition root_checkpoint :: json where
  "root_checkpoint = mk_obj
     [(''schema'', JStr ''an-kla/checkpoint-v1''), (''revision'', JInt 0), (''goal'', JNull), (''next'', JNull),
      (''decisions'', JArr []), (''blockers'', JArr [])]"

definition root_attempt :: "string \<Rightarrow> json \<Rightarrow> string option \<Rightarrow> json res" where
  "root_attempt fresh transaction_id identity =
     begin_transaction fresh ''initialize'' transaction_id
       \<lparr>base_revision = JNull, plan_fingerprint = JNull,
        initialization_fingerprint = JStr (digest_json (mk_obj
          [(''checkpoint'', root_checkpoint), (''store_identity'', opt_str identity)])),
        mutation_fingerprint = JNull\<rparr>"

definition root_manifest :: "string \<Rightarrow> string \<Rightarrow> string option \<Rightarrow> json" where
  "root_manifest checkpoint txid identity = mk_obj
     ([(''schema'', rev1), (''revision'', JInt 0), (''parent'', JNull), (''facts_segments'', JArr []),
       (''events_segments'', JArr []), (''episodes_segments'', JArr []), (''checkpoint'', JStr checkpoint),
       (''transaction_id'', JStr txid), (''canonicalization'', JStr ''canonical-json/v1''),
       (''integrity_claim'', JStr ''content_identity_not_truth_or_authorship'')] @
      (case identity of None \<Rightarrow> [] | Some i \<Rightarrow> [(''store_identity'', JStr i)]))"

definition root_prepared :: "json \<Rightarrow> json" where
  "root_prepared attempt = mk_obj [(''stage'', JStr ''prepared''), (''parent'', JNull), (''attempt'', attempt)]"

definition root_stage :: "json \<Rightarrow> string \<Rightarrow> json" where
  "root_stage attempt candidate = mk_obj
     [(''schema'', JStr ''an-kla/transaction-stage-v1''), (''stage'', JStr ''candidate_prepared''),
      (''parent'', JNull), (''candidate'', JStr candidate), (''attempt'', attempt)]"

definition root_committed :: "json \<Rightarrow> string \<Rightarrow> string \<Rightarrow> string \<Rightarrow> string \<Rightarrow> json" where
  "root_committed attempt candidate stage_id candidate_receipt current_receipt = mk_obj
     [(''stage'', JStr ''committed''), (''parent'', JNull), (''candidate'', JStr candidate), (''attempt'', attempt),
      (''stage_object'', JStr stage_id), (''candidate_receipt'', JStr candidate_receipt),
      (''current_receipt'', JStr current_receipt)]"

definition protected_root :: "string \<Rightarrow> string \<Rightarrow> string \<Rightarrow> string \<Rightarrow> json list" where
  "protected_root txid checkpoint candidate stage_id =
     [protected_object ''checkpoints'' ''.json'' checkpoint, protected_object ''revisions'' ''.json'' candidate,
      protected_object (stages_kind txid) ''.json'' stage_id, protected_directory ''checkpoints/sha256'',
      protected_directory ''revisions/sha256'', protected_directory (stages_kind txid @ ''/sha256'')]"

section \<open>The steps\<close>

text \<open>The journal, the checkpoint and the manifest.\<close>

definition write_root :: "json \<Rightarrow> string option \<Rightarrow> (string \<times> string) run" where
  "write_root attempt identity =
     (let txid = str_of (get ''transaction_id'' attempt) in
      bind_run (doing (write_transaction txid (root_prepared attempt))) (\<lambda>_.
      bind_run (setting (\<lambda>l. l\<lparr>loc_recorded := True, loc_audit := ''prepared''\<rparr>)) (\<lambda>_.
      bind_run (doing (write_json_object ''checkpoints'' root_checkpoint)) (\<lambda>checkpoint.
      let m = root_manifest checkpoint txid identity in
      bind_run (doing (lift (validate_manifest IntegrityError m))) (\<lambda>_.
      bind_run (doing (write_json_object ''revisions'' m)) (\<lambda>candidate.
      bind_run (setting (\<lambda>l. l\<lparr>loc_candidate := Some candidate\<rparr>)) (\<lambda>_.
        doing (ret (checkpoint, candidate)))))))))"

text \<open>The stage and the receipt for the data of the root.\<close>

definition stage_root :: "json \<Rightarrow> string \<Rightarrow> string \<Rightarrow> (string \<times> string) run" where
  "stage_root attempt checkpoint candidate =
     (let txid = str_of (get ''transaction_id'' attempt); stage = root_stage attempt candidate in
      bind_run (doing (write_json_object (stages_kind txid) stage)) (\<lambda>stage_id.
      bind_run (setting (\<lambda>l. l\<lparr>loc_audit := ''incomplete''\<rparr>)) (\<lambda>_.
      bind_run (doing (write_transaction txid (staged_journal stage stage_id None))) (\<lambda>_.
      bind_run (doing (write_receipt attempt ''candidate-data-durable'' candidate
          (protected_root txid checkpoint candidate stage_id) None None)) (\<lambda>receipt.
      bind_run (setting (\<lambda>l. l\<lparr>loc_candidate_receipt := Some receipt\<rparr>)) (\<lambda>_.
      bind_run (doing (write_transaction txid (staged_journal stage stage_id (Some receipt)))) (\<lambda>_.
        doing (ret (stage_id, receipt)))))))))"

text \<open>After \<open>CURRENT\<close> was replaced.\<close>

definition settle_root :: "json \<Rightarrow> string \<Rightarrow> string \<Rightarrow> string \<Rightarrow> unit run" where
  "settle_root attempt candidate stage_id receipt =
     (let txid = str_of (get ''transaction_id'' attempt) in
      bind_run (doing (write_receipt attempt ''current-durable'' candidate
          [protected_file current_path (digest_bytes (candidate @ [newline])), protected_directory ''refs'']
          (Some receipt) None)) (\<lambda>current_receipt.
      bind_run (setting (\<lambda>l. l\<lparr>loc_current_receipt := Some current_receipt\<rparr>)) (\<lambda>_.
      bind_run (doing (confirm candidate)) (\<lambda>_.
      bind_run (doing (write_transaction txid
          (root_committed attempt candidate stage_id receipt current_receipt))) (\<lambda>_.
        setting (\<lambda>l. l\<lparr>loc_audit := ''complete''\<rparr>))))))"

definition root_steps :: "json \<Rightarrow> string option \<Rightarrow> unit run" where
  "root_steps attempt identity =
     bind_run (write_root attempt identity) (\<lambda>(checkpoint, candidate).
     bind_run (stage_root attempt checkpoint candidate) (\<lambda>(stage_id, receipt).
     bind_run (doing (replace_current candidate)) (\<lambda>_.
       settle_root attempt candidate stage_id receipt)))"

section \<open>Outcomes\<close>

text \<open>The \<open>except OSError\<close> clause.\<close>

definition failed_root :: "json \<Rightarrow> locals \<Rightarrow> exn \<Rightarrow> os \<Rightarrow> (string option \<times> json) res" where
  "failed_root attempt l e s =
     (let current = (if loc_recorded l then current_option s else None);
          rel = candidate_relation (loc_candidate l) current s;
          durable = (if rel \<in> {''current'', ''ancestor''} then loc_current_receipt l \<noteq> None
                     else loc_candidate_receipt l \<noteq> None)
      in andthen
        (make_outcome attempt
          \<lparr>parent_revision = None, candidate_revision = loc_candidate l, current_observed = current,
           relation = rel, recorded = Some (loc_recorded l),
           audit_state = (if loc_audit l \<noteq> ''not_started'' then loc_audit l else ''incomplete''),
           durability_state = (if durable then ''complete'' else ''incomplete''),
           operation_error = Some (exn_code e),
           warnings =
             (if loc_recorded l then [] else [''transaction_not_recorded'']) @
             (if flagged ''cleanup_incomplete'' e then [''cleanup_incomplete''] else []) @
             (if flagged ''close_incomplete'' e then [''close_incomplete''] else [])\<rparr>)
        (\<lambda>outcome. Inr (loc_candidate l, outcome)))"

definition finished_root :: "json \<Rightarrow> locals \<Rightarrow> (string option \<times> json) res" where
  "finished_root attempt l =
     andthen
       (make_outcome attempt
         \<lparr>parent_revision = None, candidate_revision = loc_candidate l, current_observed = loc_candidate l,
          relation = ''current'', recorded = Some True, audit_state = ''complete'',
          durability_state = ''complete'', operation_error = None, warnings = []\<rparr>)
       (\<lambda>outcome. Inr (loc_candidate l, outcome))"

definition attempt_root :: "json \<Rightarrow> string option \<Rightarrow> (string option \<times> json) io" where
  "attempt_root attempt identity s =
     (case root_steps attempt identity (start_locals, s) of
        (Inr _, l, t) \<Rightarrow> (finished_root attempt l, t)
      | (Inl e, l, t) \<Rightarrow> (if is_os_error e then failed_root attempt l e t else Inl e, t))"

text \<open>What an earlier run of the same transaction left: its attempt is compared with the one built
  here, which \<open>validate_attempt\<close> accepts, so the check is that of a commit.\<close>

definition prior_root :: "string list \<Rightarrow> string \<Rightarrow> os \<Rightarrow> (string option \<times> json) option res" where
  "prior_root candidates txid s =
     (case candidates of
        [] \<Rightarrow> Inr None
      | c # _ \<Rightarrow> andthen (inspect_transaction txid s) (\<lambda>inspected.
          Inr (if get ''committed'' inspected = JBool True then Some (Some c, inspected) else None)))"

definition initialize_locked :: "string \<Rightarrow> json \<Rightarrow> string option \<Rightarrow> (string option \<times> json) io" where
  "initialize_locked fresh transaction_id identity =
     bind_io (lift (root_attempt fresh transaction_id identity)) (\<lambda>attempt.
     let txid = str_of (get ''transaction_id'' attempt) in
     bind_io (asks (prior_evidence None attempt txid)) (\<lambda>(candidates, _, _).
     bind_io (asks (prior_root candidates txid)) (\<lambda>prior.
       case prior of
         Some result \<Rightarrow> ret result
       | None \<Rightarrow> attempt_root attempt identity)))"

text \<open>The outcome of the transaction of an existing root, when it still is that root.\<close>

definition root_outcome :: "string \<Rightarrow> string \<Rightarrow> os \<Rightarrow> json option" where
  "root_outcome current txid s =
     (if txid = ''root'' then None
      else case inspect_transaction txid s of
          Inl _ \<Rightarrow> None
        | Inr outcome \<Rightarrow> if get ''candidate_revision'' outcome = JStr current then Some outcome else None)"

definition existing_initialization :: "json \<Rightarrow> os \<Rightarrow> (string \<times> json option) option res" where
  "existing_initialization transaction_id s =
     (if bytes_at current_path s = None then Inr None
      else
        andthen (read_current s) (\<lambda>current.
        andthen (read_json_object ''revisions'' current s) (\<lambda>m.
        andthen (get_of ''transaction_id'' m) (\<lambda>existing.
          if get ''parent'' m \<noteq> JNull \<or> transaction_id \<noteq> JNull \<and> existing \<noteq> transaction_id
          then Inr (Some (current, None))
          else Inr (Some (current, case existing of JStr txid \<Rightarrow> root_outcome current txid s | _ \<Rightarrow> None))))))"

section \<open>The root stands before CURRENT points at it\<close>

definition root_id :: "string \<Rightarrow> string option \<Rightarrow> string" where
  "root_id txid identity = digest_json (root_manifest (digest_json root_checkpoint) txid identity)"

definition whole_root :: "string option \<Rightarrow> string \<Rightarrow> os \<Rightarrow> bool" where
  "whole_root identity c s \<longleftrightarrow>
     (\<exists>txid m. m = root_manifest (digest_json root_checkpoint) txid identity \<and> c = digest_json m \<and>
        validate_manifest IntegrityError m = Inr () \<and>
        bytes_under ''revisions'' ''.json'' c s = Some (canonical_json m) \<and>
        bytes_under ''checkpoints'' ''.json'' (digest_json root_checkpoint) s = Some (canonical_json root_checkpoint))"

definition rooted :: "string \<Rightarrow> bool" where
  "rooted p \<longleftrightarrow> p = current_path \<or> prefix ''revisions/'' p \<or> prefix ''checkpoints/'' p"

lemma rooted_elsewhere:
  "prefix ''transactions/'' p \<Longrightarrow> \<not> rooted p" "prefix ''quarantine/'' p \<Longrightarrow> \<not> rooted p"
  by (auto simp: rooted_def current_path_def prefix_def)

lemma rooted_places [simp]:
  "\<not> rooted (journal_path txid)" "\<not> rooted (temporary_name (journal_path txid) u)"
  "\<not> rooted (receipts_kind txid @ ''/sha256'' @ ''/'' @ x)" "\<not> rooted (stages_kind txid @ ''/sha256'' @ ''/'' @ x)"
  using rooted_elsewhere(1)[OF temporary_of_journal]
  by (simp_all add: journal_path_def rooted_def current_path_def receipts_kind_def stages_kind_def)

lemma write_root_keeps: "same.run_keeps (\<lambda>p. p = current_path) (write_root attempt identity)"
  unfolding write_root_def Let_def
  by (intro same.run_rules same.keeps_write_transaction same.keeps_write_json_object)
    (simp_all add: current_path_def anchored_places(5,6)[unfolded current_path_def])

lemma stage_root_keeps: "same.run_keeps rooted (stage_root attempt checkpoint candidate)"
  unfolding stage_root_def Let_def
  by (intro same.run_rules same.keeps_write_transaction same.keeps_write_json_object same.keeps_write_receipt)
    (simp_all add: rooted_def current_path_def receipts_kind_def stages_kind_def
      rooted_places(1,2)[unfolded rooted_def current_path_def])

lemma settle_root_keeps: "same.run_keeps rooted (settle_root attempt candidate stage_id receipt)"
  unfolding settle_root_def Let_def confirm_def
  by (intro same.run_rules same.keeps_write_transaction same.keeps_write_receipt)
    (simp_all add: rooted_def current_path_def receipts_kind_def
      rooted_places(1,2)[unfolded rooted_def current_path_def])

lemma whole_root_stays:
  assumes "same_on (\<lambda>p. prefix ''revisions/'' p \<or> prefix ''checkpoints/'' p) s t" and "whole_root identity c s"
  shows "whole_root identity c t"
  using assms unfolding whole_root_def by (auto simp: bytes_under_digest(2) same_on_def)

lemma write_root_whole:
  assumes run: "write_root attempt identity (l, s) = (Inr (checkpoint, candidate), l', t)"
  shows "whole_root identity candidate t" and "loc_candidate l' = Some candidate" and "loc_recorded l'"
    and "checkpoint = digest_json root_checkpoint"
proof -
  let ?txid = "str_of (get ''transaction_id'' attempt)"
  obtain s1 s2 l2 where c: "write_json_object ''checkpoints'' root_checkpoint s1 = (Inr checkpoint, s2)"
    and v: "validate_manifest IntegrityError (root_manifest checkpoint ?txid identity) = Inr ()"
    and w: "write_json_object ''revisions'' (root_manifest checkpoint ?txid identity) s2 = (Inr candidate, t)"
    and l: "loc_candidate l' = Some candidate" "loc_recorded l'"
    using run unfolding write_root_def Let_def bind_doing_Inr bind_setting doing_lift_ret
    by (auto simp: lift_def)
  note held = write_json_object_held[OF c] write_json_object_held[OF w]
  have "same.keeps (prefix ''checkpoints/'') (write_json_object ''revisions'' (root_manifest checkpoint ?txid identity))"
    by (rule same.keeps_write_json_object) simp_all
  then have "same_on (prefix ''checkpoints/'') s2 t" using w by (rule same.keepsD)
  then have "bytes_under ''checkpoints'' ''.json'' (digest_json root_checkpoint) t = Some (canonical_json root_checkpoint)"
    using held(1,2) by (simp add: bytes_under_digest(2) same_on_def)
  with held v show "whole_root identity candidate t"
    unfolding whole_root_def by (intro exI[of _ ?txid] exI[of _ "root_manifest checkpoint ?txid identity"]) simp
  show "loc_candidate l' = Some candidate" "loc_recorded l'" by (fact l)+
  show "checkpoint = digest_json root_checkpoint" using held(1) by simp
qed

section \<open>What a run leaves in CURRENT\<close>

lemma replace_current_rooted:
  assumes "replace_current c s = (r, t)"
  shows "same_on (\<lambda>p. prefix ''revisions/'' p \<or> prefix ''checkpoints/'' p) s t"
proof (cases "bare_digest c")
  case (Inl e)
  then show ?thesis using assms by (simp add: replace_current_def bind_io_def lift_def same_on_def)
next
  case (Inr v)
  then have a: "atomic_write current_path (c @ [newline]) s = (r, t)"
    using assms by (simp add: replace_current_def bind_io_def lift_def)
  have "q \<noteq> current_path \<and> q \<noteq> temporary_name current_path u"
    if "prefix ''revisions/'' q \<or> prefix ''checkpoints/'' q" for q u
    using that temporary_of_current[of u] by (auto simp: prefix_def current_path_def)
  then show ?thesis using atomic_write_spec[OF a] by (auto elim!: same_on_mono)
qed

definition root_published :: "string option \<Rightarrow> os \<Rightarrow> os \<Rightarrow> bool" where
  "root_published identity s t \<longleftrightarrow>
     bytes_at current_path t = bytes_at current_path s \<or>
     (\<exists>c. bytes_at current_path t = Some (c @ [newline]) \<and> whole_root identity c t)"

lemma root_published_later:
  assumes "same_on rooted t u" and "root_published identity s t"
  shows "root_published identity s u"
proof -
  have "bytes_at current_path u = bytes_at current_path t" using assms(1) by (rule same_onD) (simp add: rooted_def)
  moreover have "same_on (\<lambda>p. prefix ''revisions/'' p \<or> prefix ''checkpoints/'' p) t u"
    using assms(1) by (rule same_on_mono) (auto simp: rooted_def)
  ultimately show ?thesis using assms(2) whole_root_stays by (auto simp: root_published_def)
qed

lemma root_steps_split:
  assumes "root_steps attempt identity (start_locals, s) = (r, l', t)"
  obtains (early) e where "write_root attempt identity (start_locals, s) = (Inl e, l', t)" "r = Inl e"
  | (staged) checkpoint candidate l1 s1 e where
      "write_root attempt identity (start_locals, s) = (Inr (checkpoint, candidate), l1, s1)"
      "stage_root attempt checkpoint candidate (l1, s1) = (Inl e, l', t)" "r = Inl e"
  | (swapped) checkpoint candidate l1 s1 stage_id receipt s2 e where
      "write_root attempt identity (start_locals, s) = (Inr (checkpoint, candidate), l1, s1)"
      "stage_root attempt checkpoint candidate (l1, s1) = (Inr (stage_id, receipt), l', s2)"
      "replace_current candidate s2 = (Inl e, t)" "r = Inl e"
  | (settled) checkpoint candidate l1 s1 stage_id receipt l2 s2 s3 where
      "write_root attempt identity (start_locals, s) = (Inr (checkpoint, candidate), l1, s1)"
      "stage_root attempt checkpoint candidate (l1, s1) = (Inr (stage_id, receipt), l2, s2)"
      "replace_current candidate s2 = (Inr (), s3)"
      "settle_root attempt candidate stage_id receipt (l2, s3) = (r, l', t)"
  using assms unfolding root_steps_def
  by (auto elim!: bind_runE doingE split: prod.splits)

lemma stage_root_locals:
  assumes "stage_root attempt checkpoint candidate (l, s) = (r, l', t)"
  shows "loc_recorded l' = loc_recorded l \<and> loc_candidate l' = loc_candidate l"
proof -
  have "run_holds (\<lambda>x. loc_recorded x = loc_recorded l \<and> loc_candidate x = loc_candidate l)
      (stage_root attempt checkpoint candidate)"
    unfolding stage_root_def Let_def by (intro holds_rules) simp_all
  from run_holdsD[OF this assms] show ?thesis by simp
qed

lemma settle_root_locals:
  assumes "settle_root attempt candidate stage_id receipt (l, s) = (r, l', t)"
  shows "loc_recorded l' = loc_recorded l \<and> loc_candidate l' = loc_candidate l"
proof -
  have "run_holds (\<lambda>x. loc_recorded x = loc_recorded l \<and> loc_candidate x = loc_candidate l)
      (settle_root attempt candidate stage_id receipt)"
    unfolding settle_root_def Let_def by (intro holds_rules) simp_all
  from run_holdsD[OF this assms] show ?thesis by simp
qed

lemma root_staged:
  assumes w: "write_root attempt identity (start_locals, s) = (Inr (checkpoint, candidate), l1, s1)"
    and g: "stage_root attempt checkpoint candidate (l1, s1) = (r, l2, s2)"
  shows "bytes_at current_path s2 = bytes_at current_path s" and "whole_root identity candidate s2"
proof -
  note f = same.run_keepsD[OF stage_root_keeps g]
  show "bytes_at current_path s2 = bytes_at current_path s"
    using same.run_keepsD[OF write_root_keeps w] f by (simp add: same_on_def rooted_def)
  have "same_on (\<lambda>p. prefix ''revisions/'' p \<or> prefix ''checkpoints/'' p) s1 s2"
    using f by (rule same_on_mono) (auto simp: rooted_def)
  then show "whole_root identity candidate s2" using write_root_whole(1)[OF w] by (rule whole_root_stays)
qed

lemma root_steps_published:
  assumes "root_steps attempt identity (start_locals, s) = (r, l', t)"
  shows "root_published identity s t"
  using assms
proof (cases rule: root_steps_split)
  case (early e)
  then show ?thesis using same.run_keepsD[OF write_root_keeps] by (auto simp: root_published_def same_on_def)
next
  case (staged checkpoint candidate l1 s1 e)
  then show ?thesis using root_staged by (auto simp: root_published_def)
next
  case (swapped checkpoint candidate l1 s1 stage_id receipt s2 e)
  then show ?thesis using root_staged[OF swapped(1,2)] replace_current_bytes(2)[OF swapped(3)]
      whole_root_stays[OF replace_current_rooted[OF swapped(3)]] by (auto simp: root_published_def)
next
  case (settled checkpoint candidate l1 s1 stage_id receipt l2 s2 s3)
  have "root_published identity s s3"
    using root_staged[OF settled(1,2)] replace_current_bytes(2)[OF settled(3)]
      whole_root_stays[OF replace_current_rooted[OF settled(3)]] by (auto simp: root_published_def)
  then show ?thesis by (rule root_published_later[OF same.run_keepsD[OF settle_root_keeps settled(4)]])
qed

lemma write_root_locals:
  assumes "write_root attempt identity (start_locals, s) = (r, l', t)"
  shows "loc_recorded l' \<or> loc_candidate l' = None \<and> bytes_at current_path t = bytes_at current_path s"
proof -
  have "loc_recorded l' \<or> loc_candidate l' = None"
    using assms unfolding write_root_def Let_def
  proof (cases rule: bind_runE)
    case (fails e)
    then show ?thesis by (auto simp: start_locals_def elim: doingE)
  next
    case (goes a l1 s1)
    have "run_holds loc_recorded (bind_run (doing (write_json_object ''checkpoints'' root_checkpoint)) (\<lambda>checkpoint.
      bind_run (doing (lift (validate_manifest IntegrityError
        (root_manifest checkpoint (str_of (get ''transaction_id'' attempt)) identity)))) (\<lambda>_.
      bind_run (doing (write_json_object ''revisions''
        (root_manifest checkpoint (str_of (get ''transaction_id'' attempt)) identity))) (\<lambda>candidate.
      bind_run (setting (\<lambda>l. l\<lparr>loc_candidate := Some candidate\<rparr>)) (\<lambda>_.
        doing (ret (checkpoint, candidate)))))))"
      by (intro holds_rules) simp
    from run_holdsD[OF this] show ?thesis using goes(2) by simp
  qed
  then show ?thesis using same.run_keepsD[OF write_root_keeps assms] by (auto simp: same_on_def)
qed

lemma root_steps_locals:
  assumes "root_steps attempt identity (start_locals, s) = (r, l', t)"
  shows "loc_recorded l' \<or> loc_candidate l' = None \<and> bytes_at current_path t = bytes_at current_path s"
  using assms
proof (cases rule: root_steps_split)
  case (early e)
  then show ?thesis using write_root_locals by blast
next
  case (staged checkpoint candidate l1 s1 e)
  then show ?thesis using write_root_whole(3)[OF staged(1)] stage_root_locals by blast
next
  case (swapped checkpoint candidate l1 s1 stage_id receipt s2 e)
  then show ?thesis using write_root_whole(3)[OF swapped(1)] stage_root_locals by blast
next
  case (settled checkpoint candidate l1 s1 stage_id receipt l2 s2 s3)
  then show ?thesis using write_root_whole(3)[OF settled(1)] stage_root_locals settle_root_locals by blast
qed

section \<open>The outcome\<close>

lemma settle_root_done:
  assumes run: "settle_root attempt candidate stage_id receipt (l, s) = (Inr u, l', t)"
  shows "read_current t = Inr candidate"
proof -
  obtain s1 s2 body where c: "confirm candidate s1 = (Inr (), s2)"
    and w: "write_transaction (str_of (get ''transaction_id'' attempt)) body s2 = (Inr (), t)"
    using run unfolding settle_root_def Let_def bind_doing_Inr bind_setting by (auto simp: setting_def)
  have "read_current s2 = Inr candidate"
    using c by (auto simp: confirm_def bind_io_def asks_def lift_def split: sum.splits)
  moreover have "same_on anchored s2 t" by (rule same.keepsD[OF same.keeps_write_transaction w]) simp_all
  moreover have "onward s2 t" by (rule onward.keepsD[OF onward.keeps_write_transaction w]) simp_all
  ultimately show ?thesis using read_current_cong[of t s2] by (auto simp: same_on_def onward_diverted)
qed

lemma root_steps_done:
  assumes run: "root_steps attempt identity (start_locals, s) = (Inr u, l', t)"
  shows "\<exists>c. loc_candidate l' = Some c \<and> read_current t = Inr c \<and> whole_root identity c t"
  using run
proof (cases rule: root_steps_split)
  case (settled checkpoint candidate l1 s1 stage_id receipt l2 s2 s3)
  have "loc_candidate l' = Some candidate"
    using write_root_whole(2)[OF settled(1)] stage_root_locals[OF settled(2)] settle_root_locals[OF settled(4)] by simp
  moreover have "whole_root identity candidate s3"
    by (rule whole_root_stays[OF replace_current_rooted[OF settled(3)] root_staged(2)[OF settled(1,2)]])
  moreover have "same_on (\<lambda>p. prefix ''revisions/'' p \<or> prefix ''checkpoints/'' p) s3 t"
    using same.run_keepsD[OF settle_root_keeps settled(4)] by (rule same_on_mono) (auto simp: rooted_def)
  ultimately show ?thesis using settle_root_done[OF settled(4)] whole_root_stays by blast
qed simp_all

definition root_outcome_holds :: "json \<Rightarrow> os \<Rightarrow> os \<Rightarrow> bool" where
  "root_outcome_holds out s t \<longleftrightarrow>
     (case get ''committed'' out of
        JBool True \<Rightarrow> \<exists>c r. get ''candidate_revision'' out = JStr c \<and> read_current t = Inr r \<and> reachable_from c r t
      | JBool False \<Rightarrow> bytes_at current_path t = bytes_at current_path s \<or> current_option t = None
      | _ \<Rightarrow> True)"

lemma root_outcome_holdsI:
  assumes "get ''committed'' out = JBool True \<Longrightarrow>
      \<exists>c r. get ''candidate_revision'' out = JStr c \<and> read_current t = Inr r \<and> reachable_from c r t"
    and "get ''committed'' out = JBool False \<Longrightarrow>
      bytes_at current_path t = bytes_at current_path s \<or> current_option t = None"
  shows "root_outcome_holds out s t"
  using assms by (auto simp: root_outcome_holds_def split: json.splits bool.splits)

lemma failed_root_holds:
  assumes run: "failed_root attempt l e t = Inr (c, out)"
    and l: "loc_recorded l \<or> loc_candidate l = None \<and> bytes_at current_path t = bytes_at current_path s"
  shows "root_outcome_holds out s t"
proof (rule root_outcome_holdsI)
  let ?current = "if loc_recorded l then current_option t else None"
  obtain ev where out: "out = outcome_object (get ''transaction_id'' attempt) ev"
    and ev: "parent_revision ev = None" "candidate_revision ev = loc_candidate l"
      "current_observed ev = ?current" "relation ev = candidate_relation (loc_candidate l) ?current t"
    using run by (auto simp: failed_root_def Let_def dest!: make_outcomeD)
  show "\<exists>c r. get ''candidate_revision'' out = JStr c \<and> read_current t = Inr r \<and> reachable_from c r t"
    if "get ''committed'' out = JBool True"
  proof -
    have "candidate_relation (loc_candidate l) ?current t \<in> {''current'', ''ancestor''}"
      using that unfolding out outcome_object_committed ev(4) .
    from candidate_relation_reachable[OF this] obtain c r where
      "loc_candidate l = Some c" "?current = Some r" "reachable_from c r t" by blast
    then show ?thesis using ev(2) unfolding out outcome_object_candidate
      by (auto simp: current_option_def split: if_splits sum.splits)
  qed
  show "bytes_at current_path t = bytes_at current_path s \<or> current_option t = None"
    if "get ''committed'' out = JBool False"
    using outcome_object_refused[OF that[unfolded out]] ev l by (auto split: if_splits)
qed

lemma attempt_root_facts:
  assumes run: "attempt_root attempt identity s = (r, t)"
  shows "root_published identity s t" and "r = Inr (c, out) \<Longrightarrow> root_outcome_holds out s t"
proof -
  obtain r' l where steps: "root_steps attempt identity (start_locals, s) = (r', l, t)"
    using run by (auto simp: attempt_root_def split: prod.splits sum.splits)
  show "root_published identity s t" by (rule root_steps_published[OF steps])
  show "root_outcome_holds out s t" if ok: "r = Inr (c, out)"
  proof (cases r')
    case (Inl e)
    then have "failed_root attempt l e t = Inr (c, out)"
      using run steps ok by (auto simp: attempt_root_def split: if_splits)
    then show ?thesis using failed_root_holds root_steps_locals[OF steps] by blast
  next
    case (Inr u)
    then obtain k where k: "loc_candidate l = Some k" "read_current t = Inr k" using root_steps_done steps by blast
    have "finished_root attempt l = Inr (c, out)" using run steps ok Inr by (simp add: attempt_root_def)
    then obtain ev where "out = outcome_object (get ''transaction_id'' attempt) ev" "relation ev = ''current''"
      "candidate_revision ev = Some k"
      unfolding finished_root_def k(1) by (auto dest!: make_outcomeD)
    then have "get ''committed'' out = JBool True \<and> get ''candidate_revision'' out = JStr k"
      by (simp add: outcome_object_committed outcome_object_candidate)
    then show ?thesis using k(2) by (auto simp: reachable_from_def intro!: root_outcome_holdsI)
  qed
qed

lemma root_creation_safe:
  "case initialize_locked fresh transaction_id identity s of (r, t) \<Rightarrow>
     root_published identity s t \<and>
     (case r of Inl _ \<Rightarrow> True | Inr (_, out) \<Rightarrow> root_outcome_holds out s t)"
proof (cases "initialize_locked fresh transaction_id identity s")
  case (Pair r t)
  have cases: "(\<exists>e. r = Inl e) \<and> t = s \<or>
      (\<exists>txid c out. r = Inr (c, out) \<and> t = s \<and> inspect_transaction txid s = Inr out \<and>
         get ''committed'' out = JBool True) \<or>
      (\<exists>attempt. attempt_root attempt identity s = (r, t))"
    using Pair by (auto simp: initialize_locked_def bind_io_def lift_def asks_def ret_def Let_def prior_root_def
        split: sum.splits prod.splits option.splits list.splits if_splits)
  then show ?thesis
  proof (elim disjE exE conjE)
    fix e assume "r = Inl e" "t = s"
    then show ?thesis using Pair by (simp add: root_published_def)
  next
    fix txid c out assume "r = Inr (c, out)" "t = s" and i: "inspect_transaction txid s = Inr out"
      "get ''committed'' out = JBool True"
    then show ?thesis using Pair inspect_transaction_reachable[OF i]
      by (auto simp: root_published_def intro!: root_outcome_holdsI)
  next
    fix attempt assume "attempt_root attempt identity s = (r, t)"
    from attempt_root_facts[OF this] show ?thesis using Pair by (auto split: sum.splits prod.splits)
  qed
qed


section \<open>The new store reads as the empty revision\<close>

definition empty_snapshot :: "string \<Rightarrow> json \<Rightarrow> snapshot" where
  "empty_snapshot c m = \<lparr>snap_revision = c, snap_manifest = m, snap_checkpoint = root_checkpoint,
     snap_records = (\<lambda>_. []), snap_raw = (\<lambda>_. [])\<rparr>"

lemma root_checkpoint_facts [simp]:
  "storable root_checkpoint" "validate_checkpoint_v2 root_checkpoint v = Inr ()"
  unfolding root_checkpoint_def
  by (auto intro!: storable_mk_obj simp: valid_utf8_ascii validate_checkpoint_v2_def get_of_def Let_def when_ok_def)

lemma root_manifest_get [simp]:
  "get ''parent'' (root_manifest c txid i) = JNull" "get ''schema'' (root_manifest c txid i) = rev1"
  "get ''revision'' (root_manifest c txid i) = JInt 0" "get ''checkpoint'' (root_manifest c txid i) = JStr c"
  "get ''transaction_id'' (root_manifest c txid i) = JStr txid" "get ''store_identity'' (root_manifest c txid i) = opt_str i"
  "get ''facts_segments'' (root_manifest c txid i) = JArr []" "get ''events_segments'' (root_manifest c txid i) = JArr []"
  "get ''episodes_segments'' (root_manifest c txid i) = JArr []"
  "items_of ''facts_segments'' (root_manifest c txid i) = Inr []"
  "items_of ''events_segments'' (root_manifest c txid i) = Inr []"
  "items_of ''episodes_segments'' (root_manifest c txid i) = Inr []"
  "items_of ''supersedes_map'' (root_manifest c txid i) = Inr []"
  "items_of ''refutations_map'' (root_manifest c txid i) = Inr []"
  by (cases i; simp add: root_manifest_def items_of_def)+

lemma root_manifest_storable:
  assumes "validate_manifest IntegrityError (root_manifest (digest_json root_checkpoint) txid i) = Inr ()"
  shows "storable (root_manifest (digest_json root_checkpoint) txid i)"
proof -
  let ?m = "root_manifest (digest_json root_checkpoint) txid i"
  have "check_manifest_transaction IntegrityError ?m = Inr ()"
    and link: "get ''store_identity'' ?m \<noteq> JNull \<longrightarrow> digest_text (get ''store_identity'' ?m) = Inr ()"
    using assms by (simp_all add: validate_manifest_def Let_def)
  then have "txid = ''root'' \<or> uuid_shape txid"
    by (auto simp: check_manifest_transaction_def is_canonical_uuid_def split: if_splits)
  then have t: "valid_utf8 txid" using valid_utf8_uuid by (auto simp: valid_utf8_ascii)
  moreover have "digest_shape j" if "i = Some j" for j
    using link that by (auto simp: digest_text_def bare_digest_Inr_iff)
  moreover have "valid_utf8 (digest_json root_checkpoint)" by (simp add: digest_json_def)
  ultimately show ?thesis unfolding root_manifest_def
    by (cases i) (auto intro!: storable_mk_obj simp: valid_utf8_ascii rev1_def)
qed

lemma root_chain:
  assumes "get ''parent'' m = JNull" "get ''schema'' m = rev1" "get ''revision'' m = JInt 0"
  shows "validate_revision_chain error stop c m s = Inr ()"
proof -
  have "rev1 \<noteq> rev3" by (simp add: rev1_def rev3_def)
  then show ?thesis using assms by (simp add: validate_revision_chain_def numeral_2_eq_2)
qed

lemma whole_root_snapshot:
  assumes whole: "whole_root identity c t" and current: "read_current t = Inr c"
  shows "\<exists>m. get ''parent'' m = JNull \<and> get ''store_identity'' m = opt_str identity \<and>
    (verify_manifest_link m t = Inr () \<longrightarrow> snapshot_at (Suc n) None w t = Inr (empty_snapshot c m))"
proof -
  obtain txid m where m: "m = root_manifest (digest_json root_checkpoint) txid identity" "c = digest_json m"
    and v: "validate_manifest IntegrityError m = Inr ()"
    and held: "bytes_under ''revisions'' ''.json'' c t = Some (canonical_json m)"
      "bytes_under ''checkpoints'' ''.json'' (digest_json root_checkpoint) t = Some (canonical_json root_checkpoint)"
    using whole by (auto simp: whole_root_def)
  have st: "storable m" using root_manifest_storable v unfolding m(1) .
  have r: "read_json_object ''revisions'' c t = Inr m" using storable_read_back[OF st, of "''revisions''" t] held m(2) by simp
  have k: "read_json_object ''checkpoints'' (digest_json root_checkpoint) t = Inr root_checkpoint"
    using storable_read_back[OF root_checkpoint_facts(1) held(2)] .
  have d: "\<not> diverted t" using current by (auto simp: read_current_def)
  have load: "load_records t m = Inr (\<lambda>_. [])"
    unfolding m(1) by (auto simp: load_records_def load_stream_def STREAMS_def segments_key_def fun_eq_iff)
  have life: "validate_lifecycle snap IntegrityError t m (\<lambda>_. []) = Inr ()" for snap
    unfolding m(1) by (simp add: validate_lifecycle_def)
  have none: "overlay [] [] (\<lambda>_. []) = (\<lambda>_. [])" by (simp add: fun_eq_iff overlay_def)
  have items: "items_of ''supersedes_map'' m = Inr []" "items_of ''refutations_map'' m = Inr []"
    "get ''checkpoint'' m = JStr (digest_json root_checkpoint)" unfolding m(1) by simp_all
  have "snapshot_at (Suc n) None w t = Inr (empty_snapshot c m)" if link: "verify_manifest_link m t = Inr ()"
  proof -
    have "audited_manifest c w t = Inr m"
      using v link root_chain[of m] r m by (simp add: audited_manifest_def read_manifest_def checks.simps)
    then show ?thesis using current d k load life none items
      by (simp add: snapshot_at_def requested_def empty_snapshot_def)
  qed
  moreover have "get ''parent'' m = JNull \<and> get ''store_identity'' m = opt_str identity" by (simp add: m(1))
  ultimately show ?thesis by blast
qed

lemma outcome_object_error: "get ''operation_error_code'' (outcome_object txid e) = opt_str (operation_error e)"
  by (simp add: outcome_object_def split: prod.split)

lemma failed_root_error:
  assumes "failed_root attempt l e t = Inr (c, out)"
  shows "get ''operation_error_code'' out \<noteq> JNull"
proof -
  obtain ev where "out = outcome_object (get ''transaction_id'' attempt) ev" "operation_error ev = Some (exn_code e)"
    using assms by (auto simp: failed_root_def Let_def dest!: make_outcomeD)
  then show ?thesis by (simp add: outcome_object_error)
qed

text \<open>A store whose creation reports no error reads back, at once and whatever the store held before,
  as the empty revision 0: \<open>CURRENT\<close> names the candidate, whose manifest has no parent and is linked to
  the identity it was created with, and when that link verifies the snapshot of the store is the
  initial checkpoint without records.\<close>

theorem created_store_is_empty:
  "case attempt_root attempt identity s of (Inr (c, out), t) \<Rightarrow>
     if get ''operation_error_code'' out = JNull then
       \<exists>revision m. c = Some revision \<and> read_current t = Inr revision \<and> get ''parent'' m = JNull \<and>
         get ''store_identity'' m = opt_str identity \<and>
         (if verify_manifest_link m t = Inr ()
          then snapshot_at (Suc n) None w t = Inr (empty_snapshot revision m) else True)
     else True
   | _ \<Rightarrow> True"
proof -
  obtain r l t where steps: "root_steps attempt identity (start_locals, s) = (r, l, t)"
    by (cases "root_steps attempt identity (start_locals, s)") auto
  show ?thesis
  proof (cases r)
    case (Inl e)
    have a: "attempt_root attempt identity s = (if is_os_error e then failed_root attempt l e t else Inl e, t)"
      by (simp add: attempt_root_def steps Inl)
    have "get ''operation_error_code'' out \<noteq> JNull" if "failed_root attempt l e t = Inr (c, out)" for c out
      by (rule failed_root_error[OF that])
    then show ?thesis unfolding a by (simp split: sum.split prod.split)
  next
    case (Inr u)
    obtain k where k: "loc_candidate l = Some k" "read_current t = Inr k" "whole_root identity k t"
      using root_steps_done steps Inr by blast
    obtain m where m: "get ''parent'' m = JNull" "get ''store_identity'' m = opt_str identity"
      "verify_manifest_link m t = Inr () \<longrightarrow> snapshot_at (Suc n) None w t = Inr (empty_snapshot k m)"
      using whole_root_snapshot[OF k(3,2)] by blast
    have a: "attempt_root attempt identity s = (finished_root attempt l, t)"
      by (simp add: attempt_root_def steps Inr)
    have c: "c = Some k" if "finished_root attempt l = Inr (c, out)" for c out
      using that k(1) by (auto simp: finished_root_def)
    have reads: "\<exists>revision m. Some k = Some revision \<and> read_current t = Inr revision \<and> get ''parent'' m = JNull \<and>
         get ''store_identity'' m = opt_str identity \<and>
         (if verify_manifest_link m t = Inr ()
          then snapshot_at (Suc n) None w t = Inr (empty_snapshot revision m) else True)"
      by (rule exI[of _ k], rule exI[of _ m]) (simp add: k(2) m)
    show ?thesis
    proof (cases "finished_root attempt l")
      case fin: (Inr result)
      obtain k' out where result: "result = (k', out)" by (cases result)
      have "k' = Some k" using c fin result by blast
      then show ?thesis using reads unfolding a fin result by (simp only: prod.case sum.case if_True if_False split: if_split) blast
    qed (simp add: a)
  qed
qed

end
