(* ===== verification/WriteOnce.thy ===== *)
theory WriteOnce
  imports Initialize Identity
begin

text \<open>
  Files that are created once and never replaced: \<open>write_immutable\<close> with a conflict handler that
  raises, the form \<open>_write_create_or_match\<close> of \<open>identity.py\<close>, \<open>_write_create\<close> of
  \<open>identity_evidence.py\<close> and \<open>write_relocation_receipt\<close> use; and computations that may wait for ever.
\<close>

section \<open>Creating a file or finding it as it should be\<close>

definition match_existing :: "exn \<Rightarrow> string \<Rightarrow> string \<Rightarrow> unit io" where
  "match_existing conflict target payload =
     bind_io (call (storage_error ''immutable_read_failed'') (\<lambda>s. (bytes_at target s, s)))
       (\<lambda>existing. lift (ensure (existing = Some payload) conflict))"

text \<open>A file that another process creates first is compared too: the handler raises, so there is no
  second attempt.\<close>

definition create_or_match :: "exn \<Rightarrow> string \<Rightarrow> string \<Rightarrow> unit io" where
  "create_or_match conflict target payload =
     bind_io (effect (storage_error ''immutable_parent_or_stat_failed'') id) (\<lambda>_.
     bind_io (call (storage_error ''immutable_parent_or_stat_failed'') (\<lambda>s. (bytes_at target s \<noteq> None, s))) (\<lambda>exists.
       if exists then match_existing conflict target payload
       else bind_io (open_exclusive target (storage_error ''immutable_open_failed'')) (\<lambda>created.
         if created then immutable_fill target payload else match_existing conflict target payload)))"

context step_relation
begin

lemma keeps_match_existing [keeps_rules]: "keeps (match_existing conflict target payload)"
  unfolding match_existing_def by (intro keeps_rules)

lemma keeps_create_or_match:
  assumes "\<And>s b. R s (store_file target b s)"
  shows "keeps (create_or_match conflict target payload)"
  unfolding create_or_match_def
  by (intro keeps_rules keeps_open_exclusive keeps_immutable_fill assms)

end

lemma match_existing_spec:
  "match_existing conflict target payload s = (r, t) \<Longrightarrow>
   same_on (\<lambda>_. True) s t \<and> (case r of Inl _ \<Rightarrow> True | Inr _ \<Rightarrow> bytes_at target t = Some payload)"
  using same.keepsD[OF same.keeps_match_existing, where P = "\<lambda>_. True"]
  by (auto simp: match_existing_def run_iff same_on_def split: sum.splits elim!: bind_ioE dest!: call_cases)

text \<open>What is there stays, and success means the payload is there.\<close>

lemma create_or_match_spec:
  assumes run: "create_or_match conflict target payload s = (r, t)"
  shows "same_on (\<lambda>q. q \<noteq> target) s t" and "bytes_at target s = Some b \<Longrightarrow> bytes_at target t = Some b"
    and "r = Inr u \<Longrightarrow> bytes_at target t = Some payload"
proof -
  show "same_on (\<lambda>q. q \<noteq> target) s t"
    by (rule same.keepsD[OF same.keeps_create_or_match run]) (simp add: same_on_def)
  obtain r1 s1 where a: "effect (storage_error ''immutable_parent_or_stat_failed'') id s = (r1, s1)" by fastforce
  obtain r2 s2 where b: "call (storage_error ''immutable_parent_or_stat_failed'')
      (\<lambda>s. (bytes_at target s \<noteq> None, s)) s1 = (r2, s2)" by fastforce
  obtain r3 s3 where c: "open_exclusive target (storage_error ''immutable_open_failed'') s2 = (r3, s3)" by fastforce
  have same: "bytes_at target s1 = bytes_at target s" "bytes_at target s2 = bytes_at target s"
    using effect_cases[OF a] call_cases[OF b] by auto
  consider "t = s1" "\<exists>e. r = Inl e" | "t = s2" "\<exists>e. r = Inl e"
    | (matched) "r2 = Inr True" "match_existing conflict target payload s2 = (r, t)"
    | (refused) "r2 = Inr False" "t = s3" "\<exists>e. r = Inl e"
    | (filled) "r2 = Inr False" "r3 = Inr True" "immutable_fill target payload s3 = (r, t)"
    | (raced) "r2 = Inr False" "r3 = Inr False" "match_existing conflict target payload s3 = (r, t)"
    using run a b c
    by (auto simp: create_or_match_def bind_io_def split: sum.splits if_splits)
  note steps = this
  have none: "bytes_at target s = None" if "r2 = Inr False" using call_cases[OF b] that same by auto
  show "bytes_at target t = Some b" if "bytes_at target s = Some b"
    using steps by cases (use same that none match_existing_spec in \<open>auto simp: same_on_def\<close>)
  show "bytes_at target t = Some payload" if ok: "r = Inr u"
    using steps
  proof cases
    case matched
    then show ?thesis using match_existing_spec ok by fastforce
  next
    case filled
    then show ?thesis using ok immutable_fill_spec open_exclusive_spec[OF c] by auto
  next
    case raced
    then show ?thesis using match_existing_spec ok by fastforce
  qed (use ok in auto)
qed

section \<open>Computations that may wait\<close>

type_synonym 'a proc = "os \<Rightarrow> ('a res \<times> os) option"

definition now :: "'a io \<Rightarrow> 'a proc" where
  "now m = (\<lambda>s. Some (m s))"

definition bind_proc :: "'a proc \<Rightarrow> ('a \<Rightarrow> 'b proc) \<Rightarrow> 'b proc" where
  "bind_proc m k s = (case m s of
       None \<Rightarrow> None | Some (Inl e, t) \<Rightarrow> Some (Inl e, t) | Some (Inr a, t) \<Rightarrow> k a t)"

text \<open>\<open>identity_lock\<close>: \<open>flock\<close> blocks until it is granted, \<open>msvcrt\<close> polls with a deadline; a failing
  release is ignored.\<close>

record identity_lock_calls =
  id_opens :: bool
  id_grants :: bool
  id_start :: int
  id_polls :: polling

end
