(* ===== verification/Relocation.thy ===== *)
theory Relocation
  imports WriteOnce
begin

text \<open>
  The receipts of \<open>relocation_receipts.py\<close>: each records that a root moved, names its predecessor by
  digest and stands below the custody root. Loading one validates its whole chain; writing one
  appends to the chain. The files are regular files, not links.
\<close>

section \<open>Loading one receipt\<close>

definition relocation_error :: "string \<Rightarrow> exn" where
  "relocation_error code = Exn RelocationReceiptError code None"

definition relocation_invalid :: exn where
  "relocation_invalid = relocation_error ''relocation_receipt_invalid''"

definition relocation_chain_invalid :: exn where
  "relocation_chain_invalid = relocation_error ''relocation_receipt_chain_invalid''"

definition relocation_dir :: string where
  "relocation_dir = ''../relocation-receipts/sha256''"

definition relocation_path :: "string \<Rightarrow> string res" where
  "relocation_path identifier =
     andthen (except_as is_value_error relocation_invalid (bare_digest identifier)) (\<lambda>hexpart.
       Inr (relocation_dir @ ''/'' @ hexpart @ ''.json''))"

definition relocation_keys :: "string list" where
  "relocation_keys =
     [''schema'', ''kind'', ''store_identity'', ''current_observed'', ''from_root_observed'',
      ''to_root_observed'', ''predecessor_receipt'']"

definition relocation_kinds :: "string list" where
  "relocation_kinds = [''project_root'', ''store_root'']"

text \<open>The tests of the condition in their order; a kind that is a list or a dict raises \<open>TypeError\<close>.\<close>

definition check_relocation :: "string \<Rightarrow> string \<Rightarrow> json \<Rightarrow> unit res" where
  "check_relocation identifier payload value =
     checks
       [ensure (is_obj value) relocation_invalid,
        andthen (dump value) (\<lambda>text. ensure (text = payload) relocation_invalid),
        ensure (digest_bytes payload = identifier) relocation_invalid,
        ensure (same_keys value relocation_keys) relocation_invalid,
        ensure (get ''schema'' value = JStr ''an-kla/relocation-receipt-v1'') relocation_invalid,
        ensure_in (get ''kind'' value) relocation_kinds relocation_invalid,
        ensure (list_all (\<lambda>k. is_str (get k value))
          [''store_identity'', ''current_observed'', ''from_root_observed'', ''to_root_observed'']) relocation_invalid,
        ensure (get ''from_root_observed'' value \<noteq> get ''to_root_observed'' value) relocation_invalid,
        ensure (get ''predecessor_receipt'' value = JNull \<or> is_str (get ''predecessor_receipt'' value)) relocation_invalid,
        except_as is_value_error relocation_invalid (bare_digest_value (get ''store_identity'' value)),
        except_as is_value_error relocation_invalid (bare_digest_value (get ''current_observed'' value))]"

definition load_one :: "string \<Rightarrow> os \<Rightarrow> json res" where
  "load_one identifier s =
     andthen (relocation_path identifier) (\<lambda>path.
       case bytes_at path s of
         None \<Rightarrow> Inl (relocation_error ''relocation_receipt_missing'')
       | Some payload \<Rightarrow>
           andthen (except_as is_json_error relocation_invalid (json_loads payload)) (\<lambda>value.
           andthen (check_relocation identifier payload value) (\<lambda>_. Inr value)))"

section \<open>Loading a chain\<close>

definition links :: "json \<Rightarrow> json \<Rightarrow> bool" where
  "links cursor previous \<longleftrightarrow>
     get ''store_identity'' previous = get ''store_identity'' cursor \<and>
     get ''kind'' previous = get ''kind'' cursor \<and>
     get ''to_root_observed'' previous = get ''from_root_observed'' cursor"

text \<open>\<open>n\<close> counts the turns left of the loop, which has \<open>_MAX_CHAIN\<close> of them.\<close>

fun load_chain :: "os \<Rightarrow> nat \<Rightarrow> string list \<Rightarrow> json \<Rightarrow> unit res" where
  "load_chain s 0 seen cursor = Inl relocation_chain_invalid"
| "load_chain s (Suc n) seen cursor =
     (case get ''predecessor_receipt'' cursor of
        JStr predecessor \<Rightarrow>
          if predecessor \<in> set seen then Inl relocation_chain_invalid
          else andthen (load_one predecessor s) (\<lambda>previous.
            if links cursor previous then load_chain s n (predecessor # seen) previous
            else Inl relocation_chain_invalid)
      | _ \<Rightarrow> Inr ())"

definition MAX_CHAIN :: nat where
  "MAX_CHAIN = 10000"

definition load_relocation_receipt :: "string \<Rightarrow> os \<Rightarrow> json res" where
  "load_relocation_receipt identifier s =
     andthen (load_one identifier s) (\<lambda>head.
     andthen (load_chain s MAX_CHAIN [identifier] head) (\<lambda>_. Inr head))"

section \<open>Appending to a chain\<close>

text \<open>The root a move starts from comes from a plan, where it may be any value.\<close>

definition relocation_members :: "string \<Rightarrow> string \<Rightarrow> os \<Rightarrow> (string \<times> json) list res" where
  "relocation_members identity kind s =
     andthen (traverse (\<lambda>stem. andthen (load_one (''sha256:'' @ stem) s) (\<lambda>v. Inr (''sha256:'' @ stem, v)))
                (json_stems relocation_dir s)) (\<lambda>loaded.
       Inr (filter (\<lambda>(_, v). get ''store_identity'' v = JStr identity \<and> get ''kind'' v = JStr kind) loaded))"

definition only_head :: "string list \<Rightarrow> string option res" where
  "only_head heads =
     (case heads of [] \<Rightarrow> Inr None | [h] \<Rightarrow> Inr (Some h) | _ \<Rightarrow> Inl relocation_chain_invalid)"

definition unreferenced :: "(string \<times> json) list \<Rightarrow> string list" where
  "unreferenced members =
     filter (\<lambda>i. JStr i \<notin> set (map (\<lambda>(_, v). get ''predecessor_receipt'' v) members)) (map fst members)"

definition chain_head :: "string \<Rightarrow> string \<Rightarrow> os \<Rightarrow> string option res" where
  "chain_head identity kind s =
     andthen (relocation_members identity kind s) (\<lambda>members. only_head (unreferenced members))"

definition relocation_object :: "string \<Rightarrow> string \<Rightarrow> string \<Rightarrow> json \<Rightarrow> string \<Rightarrow> string option \<Rightarrow> json" where
  "relocation_object kind identity current from_root to_root predecessor = mk_obj
     [(''schema'', JStr ''an-kla/relocation-receipt-v1''), (''kind'', JStr kind), (''store_identity'', JStr identity),
      (''current_observed'', JStr current), (''from_root_observed'', from_root),
      (''to_root_observed'', JStr to_root), (''predecessor_receipt'', opt_str predecessor)]"

text \<open>The head of the chain, which must end where the new receipt starts.\<close>

definition checked_head :: "string \<Rightarrow> string \<Rightarrow> json \<Rightarrow> os \<Rightarrow> string option res" where
  "checked_head identity kind from_root s =
     andthen (chain_head identity kind s) (\<lambda>predecessor.
       case predecessor of
         None \<Rightarrow> Inr None
       | Some p \<Rightarrow>
           andthen (load_relocation_receipt p s) (\<lambda>previous.
             if get ''to_root_observed'' previous = from_root then Inr predecessor
             else Inl relocation_chain_invalid))"

definition write_relocation_receipt ::
    "string \<Rightarrow> string \<Rightarrow> string \<Rightarrow> json \<Rightarrow> string \<Rightarrow> string io" where
  "write_relocation_receipt kind identity current from_root to_root =
     bind_io (lift (ensure (kind \<in> set relocation_kinds \<and> from_root \<noteq> JStr to_root) relocation_invalid)) (\<lambda>_.
     bind_io (asks (checked_head identity kind from_root)) (\<lambda>predecessor.
     let payload = canonical_json (relocation_object kind identity current from_root to_root predecessor) in
     bind_io (lift (relocation_path (digest_bytes payload))) (\<lambda>target.
     bind_io (create_or_match relocation_invalid target payload) (\<lambda>_.
       ret (digest_bytes payload)))))"

text \<open>What a receipt must say for an adoption plan to be accepted at the new root.\<close>

definition project_relocation_expectation :: "string \<Rightarrow> json \<Rightarrow> string \<Rightarrow> (string \<times> json) list" where
  "project_relocation_expectation root plan current =
     [(''kind'', JStr ''project_root''), (''store_identity'', JStr (digest_json (get ''store_identity'' plan))),
      (''current_observed'', JStr current),
      (''from_root_observed'', get ''canonical_project_root_observed'' plan), (''to_root_observed'', JStr root)]"

definition require_matching_receipt :: "string \<Rightarrow> (string \<times> json) list \<Rightarrow> os \<Rightarrow> json res" where
  "require_matching_receipt identifier expected s =
     andthen (load_relocation_receipt identifier s) (\<lambda>value.
       if list_all (\<lambda>(k, item). get k value = item) expected then Inr value
       else Inl (relocation_error ''relocation_receipt_mismatch''))"

section \<open>A loaded receipt is the head of a connected chain\<close>

fun relocation_chain :: "os \<Rightarrow> (string \<times> json) list \<Rightarrow> bool" where
  "relocation_chain s [] = False"
| "relocation_chain s [(i, v)] = (load_one i s = Inr v \<and> get ''predecessor_receipt'' v = JNull)"
| "relocation_chain s ((i, v) # (j, w) # rest) =
     (load_one i s = Inr v \<and> get ''predecessor_receipt'' v = JStr j \<and> links v w \<and>
      relocation_chain s ((j, w) # rest))"

lemma load_one_predecessor:
  assumes "load_one i s = Inr v"
  obtains "get ''predecessor_receipt'' v = JNull" | p where "get ''predecessor_receipt'' v = JStr p"
proof -
  have "get ''predecessor_receipt'' v = JNull \<or> is_str (get ''predecessor_receipt'' v)"
    using assms by (auto simp: load_one_def check_relocation_def split: option.splits)
  then show ?thesis using that by (auto simp: is_str_iff)
qed

text \<open>What the rest of a chain must be for the loop to end within \<open>n\<close> turns.\<close>

definition chain_rest :: "os \<Rightarrow> nat \<Rightarrow> string list \<Rightarrow> string \<Rightarrow> json \<Rightarrow> (string \<times> json) list \<Rightarrow> bool" where
  "chain_rest s n seen i v rest \<longleftrightarrow>
     relocation_chain s ((i, v) # rest) \<and> distinct (map fst rest) \<and> set (map fst rest) \<inter> set seen = {} \<and>
     length rest < n"

lemma chain_rest_step:
  assumes p: "get ''predecessor_receipt'' v = JStr p" and v: "load_one i s = Inr v"
  shows "chain_rest s (Suc n) seen i v rest \<longleftrightarrow>
    (\<exists>w rest'. rest = (p, w) # rest' \<and> load_one p s = Inr w \<and> links v w \<and> p \<notin> set seen \<and>
       chain_rest s n (p # seen) p w rest')"
proof (cases rest)
  case Nil
  then show ?thesis using p by (simp add: chain_rest_def)
next
  case (Cons node rest')
  obtain j w where node: "node = (j, w)" by (cases node)
  have "load_one j s = Inr w" if "relocation_chain s ((j, w) # rest')" using that by (cases rest') auto
  then show ?thesis using p v unfolding Cons node by (auto simp: chain_rest_def)
qed

lemma load_chain_iff:
  "load_one i s = Inr v \<Longrightarrow> load_chain s n seen v = Inr () \<longleftrightarrow> (\<exists>rest. chain_rest s n seen i v rest)"
proof (induction n arbitrary: i v seen)
  case 0
  then show ?case by (simp add: chain_rest_def)
next
  case (Suc n)
  from Suc.prems show ?case
  proof (cases rule: load_one_predecessor)
    case 1
    have "rest = []" if "chain_rest s (Suc n) seen i v rest" for rest
      using that 1 by (cases rest) (auto simp: chain_rest_def)
    moreover have "chain_rest s (Suc n) seen i v []" using 1 Suc.prems by (simp add: chain_rest_def)
    ultimately show ?thesis using 1 by auto
  next
    case (2 p)
    show ?thesis
    proof (cases "p \<in> set seen \<or> (\<exists>e. load_one p s = Inl e)")
      case True
      then show ?thesis using 2 chain_rest_step[OF 2 Suc.prems] by auto
    next
      case False
      then obtain w where w: "load_one p s = Inr w" by (cases "load_one p s") auto
      have "load_chain s (Suc n) seen v = Inr () \<longleftrightarrow> links v w \<and> (\<exists>rest. chain_rest s n (p # seen) p w rest)"
        using False 2 w Suc.IH[OF w] by auto
      then show ?thesis using chain_rest_step[OF 2 Suc.prems] False w by auto
    qed
  qed
qed

lemma load_relocation_receipt_iff:
  "load_relocation_receipt i s = Inr v \<longleftrightarrow> load_one i s = Inr v \<and> (\<exists>rest. chain_rest s MAX_CHAIN [i] i v rest)"
  using load_chain_iff[of i s v MAX_CHAIN "[i]"] by (auto simp: load_relocation_receipt_def)

lemma relocation_receipt_loads_lemma:
  "load_relocation_receipt i s = Inr v \<longleftrightarrow>
   (\<exists>rest. relocation_chain s ((i, v) # rest) \<and> distinct (map fst ((i, v) # rest)) \<and>
      length ((i, v) # rest) \<le> MAX_CHAIN)"
proof -
  have "load_one i s = Inr v" if "relocation_chain s ((i, v) # rest)" for rest using that by (cases rest) auto
  then show ?thesis unfolding load_relocation_receipt_iff chain_rest_def by fastforce
qed

text \<open>A relocation receipt loads exactly when it is the head of a chain of at most ten thousand
  different receipts of one identity and one kind, in which every move starts at the root where the
  one before it ended, down to a receipt without predecessor.\<close>

theorem relocation_receipt_loads:
  "load_relocation_receipt i s = Inr v \<longleftrightarrow>
   (\<exists>rest. relocation_chain s ((i, v) # rest) \<and> distinct (map fst ((i, v) # rest)) \<and>
      length ((i, v) # rest) \<le> MAX_CHAIN)"
  by (rule relocation_receipt_loads_lemma)

section \<open>Writing appends to the chain\<close>

lemma relocation_path_digest: "relocation_path (digest_bytes b) = Inr (relocation_dir @ ''/'' @ sha256_hex b @ ''.json'')"
  by (simp add: relocation_path_def)

lemma load_one_cong:
  assumes "\<And>p. bytes_at p s \<noteq> None \<Longrightarrow> bytes_at p t = bytes_at p s" and "load_one i s = Inr v"
  shows "load_one i t = Inr v"
proof -
  obtain path payload where "relocation_path i = Inr path" "bytes_at path s = Some payload"
    using assms(2) by (auto simp: load_one_def split: option.splits)
  moreover from this have "bytes_at path t = Some payload" using assms(1)[of path] by simp
  ultimately show ?thesis using assms(2) by (simp add: load_one_def)
qed

lemma relocation_chain_cong:
  assumes "\<And>p. bytes_at p s \<noteq> None \<Longrightarrow> bytes_at p t = bytes_at p s"
  shows "relocation_chain s nodes \<Longrightarrow> relocation_chain t nodes"
proof (induction nodes)
  case (Cons node rest)
  obtain i v where node: "node = (i, v)" by (cases node)
  show ?case using Cons load_one_cong[OF assms] unfolding node by (cases rest) auto
qed simp

lemma relocation_object_loads:
  assumes v: "v = relocation_object kind identity current (JStr from_root) to_root p"
    and fields: "kind \<in> set relocation_kinds" "from_root \<noteq> to_root" "digest_shape identity" "digest_shape current"
      "valid_utf8 from_root" "valid_utf8 to_root" "\<And>x. p = Some x \<Longrightarrow> digest_shape x"
    and at: "relocation_path (digest_json v) = Inr path" "bytes_at path t = Some (canonical_json v)"
  shows "load_one (digest_json v) t = Inr v"
proof -
  have "valid_utf8 kind" using fields(1) by (auto simp: relocation_kinds_def valid_utf8_ascii)
  then have st: "storable v"
    using fields unfolding v relocation_object_def by (cases p) (auto intro!: storable_mk_obj simp: valid_utf8_ascii)
  have keys: "is_obj v" "same_keys v relocation_keys" "get ''schema'' v = JStr ''an-kla/relocation-receipt-v1''"
    "get ''kind'' v = JStr kind" "get ''store_identity'' v = JStr identity" "get ''current_observed'' v = JStr current"
    "get ''from_root_observed'' v = JStr from_root" "get ''to_root_observed'' v = JStr to_root"
    "get ''predecessor_receipt'' v = opt_str p"
    unfolding v by (simp_all add: relocation_object_def relocation_keys_def same_keys_iff)
  have "check_relocation (digest_json v) (canonical_json v) v = Inr ()"
    using st keys fields
    by (cases p) (auto simp: check_relocation_def checks.simps dump_def storable_def text_json_dumpable digest_json_def
        ensure_in_def str_in_def)
  then show ?thesis using at canonical_json_loads[OF st] by (simp add: load_one_def)
qed

lemma only_head_iff: "only_head heads = Inr (Some p) \<longleftrightarrow> heads = [p]"
  by (auto simp: only_head_def split: list.splits)

lemma traverse_loaded:
  "traverse (\<lambda>stem. andthen (load_one (f stem) s) (\<lambda>v. Inr (f stem, v))) stems = Inr loaded \<Longrightarrow>
   (p, w) \<in> set loaded \<Longrightarrow> load_one p s = Inr w"
  by (induction stems arbitrary: loaded) auto

lemma chain_head_loads:
  assumes "checked_head identity kind from_root s = Inr (Some p)"
  obtains prev where "load_relocation_receipt p s = Inr prev" "get ''to_root_observed'' prev = from_root"
    "get ''store_identity'' prev = JStr identity" "get ''kind'' prev = JStr kind"
proof -
  obtain prev where prev: "load_relocation_receipt p s = Inr prev" "get ''to_root_observed'' prev = from_root"
    and h: "chain_head identity kind s = Inr (Some p)"
    using assms by (auto simp: checked_head_def split: option.splits if_splits)
  obtain members where m: "relocation_members identity kind s = Inr members" and heads: "unreferenced members = [p]"
    using h by (auto simp: chain_head_def only_head_iff)
  have "p \<in> set (unreferenced members)" unfolding heads by simp
  then obtain w where w: "(p, w) \<in> set members" by (auto simp: unreferenced_def)
  obtain loaded where l: "traverse (\<lambda>stem. andthen (load_one (''sha256:'' @ stem) s) (\<lambda>v. Inr (''sha256:'' @ stem, v)))
      (json_stems relocation_dir s) = Inr loaded"
    and "members = filter (\<lambda>(_, v). get ''store_identity'' v = JStr identity \<and> get ''kind'' v = JStr kind) loaded"
    using m by (auto simp: relocation_members_def)
  then have "(p, w) \<in> set loaded" "get ''store_identity'' w = JStr identity \<and> get ''kind'' w = JStr kind" using w by auto
  moreover have "load_one p s = Inr w" using traverse_loaded[OF l \<open>(p, w) \<in> set loaded\<close>] .
  moreover have "load_one p s = Inr prev" using prev(1) by (simp add: load_relocation_receipt_def)
  ultimately show ?thesis using that prev by auto
qed

lemma load_one_elsewhere:
  assumes frame: "same_on (\<lambda>q. q \<noteq> path) s t" and path: "relocation_path i = Inr path" and other: "j \<noteq> i"
  shows "load_one j t = load_one j s"
proof (cases "relocation_path j")
  case (Inr q)
  have "q \<noteq> path" using Inr path other digest_shape_split[of i] digest_shape_split[of j]
    by (auto simp: relocation_path_def bare_digest_Inr_iff)
  then have "bytes_at q t = bytes_at q s" using frame by (simp add: same_on_def)
  then show ?thesis using Inr by (simp add: load_one_def)
qed (simp add: load_one_def)

lemma load_chain_weaken:
  "load_chain t n seen c = Inr () \<Longrightarrow> i \<in> set seen \<Longrightarrow> set seen' \<subseteq> set seen \<Longrightarrow>
   (\<And>j. j \<noteq> i \<Longrightarrow> load_one j t = load_one j s) \<Longrightarrow> load_chain s n seen' c = Inr ()"
proof (induction n arbitrary: seen seen' c)
  case (Suc n)
  show ?case
  proof (cases "get ''predecessor_receipt'' c")
    case (JStr p)
    then have p: "p \<notin> set seen" and "p \<noteq> i" using Suc.prems(1,2) by (auto split: if_splits)
    obtain w where w: "load_one p t = Inr w" "links c w" "load_chain t n (p # seen) w = Inr ()"
      using Suc.prems(1) JStr p by (auto split: if_splits)
    have "load_chain s n (p # seen') w = Inr ()"
      by (rule Suc.IH[OF w(3) _ _ Suc.prems(4)]) (use Suc.prems(2,3) in auto)
    moreover have "load_one p s = Inr w" using Suc.prems(4)[OF \<open>p \<noteq> i\<close>] w(1) by simp
    moreover have "p \<notin> set seen'" using p Suc.prems(3) by blast
    ultimately show ?thesis using JStr w(2) by simp
  qed simp_all
qed simp

lemma chain_next:
  "relocation_chain s nodes \<Longrightarrow> (i, v) \<in> set nodes \<Longrightarrow> get ''predecessor_receipt'' v = JStr p \<Longrightarrow>
   p \<in> set (map fst (tl nodes))"
proof (induction nodes)
  case (Cons node rest)
  obtain j w where node: "node = (j, w)" by (cases node)
  show ?case
  proof (cases rest)
    case Nil
    then show ?thesis using Cons.prems node by simp
  next
    case r: (Cons second more)
    obtain k x where second: "second = (k, x)" by (cases second)
    have chain: "relocation_chain s rest" and j: "get ''predecessor_receipt'' w = JStr k"
      using Cons.prems(1) unfolding node r second by simp_all
    show ?thesis
    proof (cases "(i, v) \<in> set rest")
      case True
      then have "p \<in> set (map fst (tl rest))" by (rule Cons.IH[OF chain _ Cons.prems(3)])
      then show ?thesis using r by auto
    next
      case False
      then have "v = w" using Cons.prems(2) node by auto
      then show ?thesis using j Cons.prems(3) r second by auto
    qed
  qed
qed simp

lemma chain_members_load: "relocation_chain s nodes \<Longrightarrow> (i, v) \<in> set nodes \<Longrightarrow> load_one i s = Inr v"
  by (induction s nodes rule: relocation_chain.induct) auto

lemma appended_loads:
  assumes frame: "same_on (\<lambda>q. q \<noteq> path) s t" and path: "relocation_path i = Inr path"
    and kept: "\<And>b. bytes_at path s = Some b \<Longrightarrow> bytes_at path t = Some b"
    and v: "load_one i t = Inr v" "get ''predecessor_receipt'' v = JStr p"
    and prev: "load_one p s = Inr prev" "links v prev"
  shows "load_relocation_receipt i t = Inr v \<longleftrightarrow> load_chain s (MAX_CHAIN - 1) [p] prev = Inr ()"
proof
  have stays: "bytes_at q t = bytes_at q s" if "bytes_at q s \<noteq> None" for q
    using frame kept that by (cases "q = path") (auto simp: same_on_def)
  have prev_t: "load_one p t = Inr prev" by (rule load_one_cong[OF stays prev(1)])
  have max: "MAX_CHAIN = Suc (MAX_CHAIN - 1)" by (simp add: MAX_CHAIN_def)
  {
    assume "load_relocation_receipt i t = Inr v"
    then have "load_chain t (Suc (MAX_CHAIN - 1)) [i] v = Inr ()"
      using v(1) max by (simp add: load_relocation_receipt_def)
    then have "load_chain t (MAX_CHAIN - 1) [p, i] prev = Inr ()" using v(2) prev_t by (auto split: if_splits)
    then show "load_chain s (MAX_CHAIN - 1) [p] prev = Inr ()"
      by (rule load_chain_weaken[where i = i]) (use load_one_elsewhere[OF frame path] in auto)
  next
    assume "load_chain s (MAX_CHAIN - 1) [p] prev = Inr ()"
    then obtain rest where rest: "relocation_chain s ((p, prev) # rest)" "distinct (map fst rest)"
      "p \<notin> set (map fst rest)" "length rest < MAX_CHAIN - 1"
      using load_chain_iff[OF prev(1)] by (auto simp: chain_rest_def)
    have "i \<notin> set (map fst ((p, prev) # rest))"
    proof
      assume "i \<in> set (map fst ((p, prev) # rest))"
      then obtain node where "i = fst node" "node \<in> set ((p, prev) # rest)" unfolding set_map by (rule imageE)
      then have w: "(i, snd node) \<in> set ((p, prev) # rest)" by (metis prod.collapse)
      have "load_one i s = Inr (snd node)" by (rule chain_members_load[OF rest(1) w])
      from load_one_cong[OF stays this] have "snd node = v" using v(1) by simp
      then have "p \<in> set (map fst (tl ((p, prev) # rest)))" using chain_next[OF rest(1) w] v(2) by simp
      then show False using rest(3) by simp
    qed
    moreover have "relocation_chain t ((i, v) # (p, prev) # rest)"
      using relocation_chain_cong[OF stays rest(1)] v prev(2) by simp
    moreover have "length ((i, v) # (p, prev) # rest) \<le> MAX_CHAIN" using rest(4) by simp
    ultimately show "load_relocation_receipt i t = Inr v"
      unfolding relocation_receipt_loads_lemma using rest(2,3)
      by (intro exI[of _ "(p, prev) # rest"]) auto
  }
qed

text \<open>The receipts of an identity and a kind that load, and those among them that no other names as its
  predecessor: the ends of its chain.\<close>

definition own_receipts :: "string \<Rightarrow> string \<Rightarrow> os \<Rightarrow> string list" where
  "own_receipts identity kind s =
     filter (\<lambda>i. case load_one i s of
         Inl _ \<Rightarrow> False | Inr v \<Rightarrow> get ''store_identity'' v = JStr identity \<and> get ''kind'' v = JStr kind)
       (map (\<lambda>stem. ''sha256:'' @ stem) (json_stems relocation_dir s))"

definition chain_ends_of :: "string \<Rightarrow> string \<Rightarrow> os \<Rightarrow> string list" where
  "chain_ends_of identity kind s =
     filter (\<lambda>i. list_all (\<lambda>j. case load_one j s of
         Inl _ \<Rightarrow> True | Inr w \<Rightarrow> get ''predecessor_receipt'' w \<noteq> JStr i) (own_receipts identity kind s))
       (own_receipts identity kind s)"

lemma members_ends:
  assumes m: "relocation_members identity kind s = Inr members"
  shows "unreferenced members = chain_ends_of identity kind s"
proof -
  let ?ids = "map (\<lambda>stem. ''sha256:'' @ stem) (json_stems relocation_dir s)"
  let ?V = "\<lambda>i. case load_one i s of Inl _ \<Rightarrow> JNull | Inr v \<Rightarrow> v"
  obtain loaded where l: "traverse (\<lambda>stem. andthen (load_one (''sha256:'' @ stem) s) (\<lambda>v. Inr (''sha256:'' @ stem, v)))
      (json_stems relocation_dir s) = Inr loaded"
    and members: "members = filter (\<lambda>(_, v). get ''store_identity'' v = JStr identity \<and> get ''kind'' v = JStr kind) loaded"
    using m by (auto simp: relocation_members_def)
  have each: "loaded = map (\<lambda>i. (i, ?V i)) (map (\<lambda>stem. ''sha256:'' @ stem) stems) \<and>
      (\<forall>i\<in>set (map (\<lambda>stem. ''sha256:'' @ stem) stems). load_one i s = Inr (?V i))"
    if "traverse (\<lambda>stem. andthen (load_one (''sha256:'' @ stem) s) (\<lambda>v. Inr (''sha256:'' @ stem, v))) stems = Inr loaded"
    for stems loaded
    using that by (induction stems arbitrary: loaded) auto
  note loaded = each[OF l, THEN conjunct1] and V = each[OF l, THEN conjunct2]
  have own: "own_receipts identity kind s = filter (\<lambda>i. get ''store_identity'' (?V i) = JStr identity \<and> get ''kind'' (?V i) = JStr kind) ?ids"
    unfolding own_receipts_def by (rule filter_cong[OF refl]) (use V in \<open>simp split: sum.splits\<close>)
  then have "members = map (\<lambda>i. (i, ?V i)) (own_receipts identity kind s)"
    unfolding members loaded by (simp add: filter_map comp_def)
  moreover have "load_one j s = Inr (?V j)" if "j \<in> set (own_receipts identity kind s)" for j
    using that V unfolding own by auto
  ultimately show ?thesis
    unfolding unreferenced_def chain_ends_of_def
    by (auto simp: comp_def list_all_iff image_iff intro!: filter_cong split: sum.splits)
qed

lemma checked_head_ends:
  assumes "checked_head identity kind from_root s = Inr predecessor"
  shows "chain_ends_of identity kind s = (case predecessor of None \<Rightarrow> [] | Some p \<Rightarrow> [p])"
  using assms members_ends
  by (auto simp: checked_head_def chain_head_def only_head_def split: option.splits if_splits list.splits)

text \<open>A receipt that loads says a string for every root and a digest for the identity and \<open>CURRENT\<close>.\<close>

lemma relocation_object_loaded:
  assumes "load_one i t = Inr (relocation_object kind identity current from_root to_root p)"
  shows "is_str from_root \<and> digest_shape identity \<and> digest_shape current"
  using assms
  by (auto simp: load_one_def check_relocation_def relocation_object_def checks.simps ensure_in_def Let_def is_str_iff
      split: option.splits)

text \<open>C30: Writing a relocation receipt appends to a chain and loses nothing: no file that was there
  changes. On success the new receipt, stored as written under the digest of its bytes, names the only
  receipt of its identity and kind that no other of them names, if there are any, and that one ended at the root
  the new move starts from. Provided the roots,
  where they are strings, are UTF-8, it reads back as written exactly when the root the move starts from is
  a string and the identity and \<open>CURRENT\<close> it binds are digests: the writer checks none of the three, so
  the plan of an adoption whose observed root is not a string leaves a receipt that never loads. When it
  reads back, it loads with its whole chain exactly when the chain before it was shorter than the limit of
  ten thousand.\<close>

theorem relocation_receipt_appended:
  "case write_relocation_receipt kind identity current from_root to_root s of (r, t) \<Rightarrow>
     same_on (\<lambda>q. bytes_at q s \<noteq> None) s t \<and>
     (case r of
        Inl _ \<Rightarrow> True
      | Inr i \<Rightarrow>
          \<exists>predecessor v path. chain_ends_of identity kind s = (case predecessor of None \<Rightarrow> [] | Some p \<Rightarrow> [p]) \<and>
            (case predecessor of None \<Rightarrow> True
             | Some p \<Rightarrow> \<exists>prev. load_relocation_receipt p s = Inr prev \<and> get ''to_root_observed'' prev = from_root) \<and>
            v = relocation_object kind identity current from_root to_root predecessor \<and> i = digest_json v \<and>
            relocation_path i = Inr path \<and> bytes_at path t = Some (canonical_json v) \<and>
            (if valid_utf8 to_root \<and> (case from_root of JStr root \<Rightarrow> valid_utf8 root | _ \<Rightarrow> True) then
               (load_one i t = Inr v \<longleftrightarrow> is_str from_root \<and> digest_shape identity \<and> digest_shape current) \<and>
               (if load_one i t = Inr v then
                  case predecessor of
                    None \<Rightarrow> load_relocation_receipt i t = Inr v
                  | Some p \<Rightarrow> \<exists>prev. load_relocation_receipt p s = Inr prev \<and> links v prev \<and>
                      (load_relocation_receipt i t = Inr v \<longleftrightarrow> load_chain s (MAX_CHAIN - 1) [p] prev = Inr ())
                else True)
             else True))"
proof (cases "write_relocation_receipt kind identity current from_root to_root s")
  case (Pair r t)
  let ?payload = "\<lambda>p. canonical_json (relocation_object kind identity current from_root to_root p)"
  show ?thesis
  proof (cases "\<exists>p path r'. kind \<in> set relocation_kinds \<and> from_root \<noteq> JStr to_root \<and>
      checked_head identity kind from_root s = Inr p \<and> relocation_path (digest_bytes (?payload p)) = Inr path \<and>
      create_or_match relocation_invalid path (?payload p) s = (r', t) \<and>
      (case r' of Inl e \<Rightarrow> r = Inl e | Inr _ \<Rightarrow> r = Inr (digest_bytes (?payload p)))")
    case False
    then have "t = s \<and> (\<exists>e. r = Inl e)"
      using Pair by (auto simp: write_relocation_receipt_def Let_def bind_lift bind_asks run_iff ensure_def relocation_path_digest
          split: sum.splits if_splits elim!: bind_ioE)
    then show ?thesis using Pair by (auto simp: same_on_def)
  next
    case True
    then obtain p path r' where ok: "kind \<in> set relocation_kinds" "from_root \<noteq> JStr to_root"
      and head: "checked_head identity kind from_root s = Inr p"
      and path: "relocation_path (digest_bytes (?payload p)) = Inr path"
      and run: "create_or_match relocation_invalid path (?payload p) s = (r', t)"
      and r: "case r' of Inl e \<Rightarrow> r = Inl e | Inr _ \<Rightarrow> r = Inr (digest_bytes (?payload p))" by blast
    note frame = create_or_match_spec(1)[OF run] and kept = create_or_match_spec(2)[OF run]
    have same: "same_on (\<lambda>q. bytes_at q s \<noteq> None) s t"
      unfolding same_on_def
    proof (intro allI impI)
      fix q assume "bytes_at q s \<noteq> None"
      then show "bytes_at q t = bytes_at q s" using frame kept by (cases "q = path") (auto simp: same_on_def)
    qed
    show ?thesis
    proof (cases r')
      case (Inl e)
      then show ?thesis using Pair r same by simp
    next
      case (Inr u)
      let ?v = "relocation_object kind identity current from_root to_root p"
      have i: "r = Inr (digest_json ?v)" using r Inr by (simp add: digest_json_def)
      have at: "relocation_path (digest_json ?v) = Inr path" "bytes_at path t = Some (canonical_json ?v)"
        using path create_or_match_spec(3)[OF run Inr] by (simp_all add: digest_json_def)
      have digest: "digest_shape x" if x: "p = Some x" for x
      proof -
        obtain prev where "load_relocation_receipt x s = Inr prev" using head x by (auto elim: chain_head_loads)
        then have "load_one x s = Inr prev" by (simp add: load_relocation_receipt_def)
        then show ?thesis
          by (auto simp: load_one_def relocation_path_def bare_digest_Inr_iff split: option.splits)
      qed
      have starts: "case p of None \<Rightarrow> True
          | Some p \<Rightarrow> \<exists>prev. load_relocation_receipt p s = Inr prev \<and> get ''to_root_observed'' prev = from_root"
        using head by (auto elim: chain_head_loads split: option.split)
      have readable: "load_one (digest_json ?v) t = Inr ?v \<longleftrightarrow> is_str from_root \<and> digest_shape identity \<and> digest_shape current"
        if names: "valid_utf8 to_root" "case from_root of JStr root \<Rightarrow> valid_utf8 root | _ \<Rightarrow> True"
      proof
        assume shape: "is_str from_root \<and> digest_shape identity \<and> digest_shape current"
        then obtain root where root: "from_root = JStr root" by (auto simp: is_str_iff)
        have "root \<noteq> to_root" "valid_utf8 root" "digest_shape identity" "digest_shape current"
          using shape names(2) ok(2) unfolding root by simp_all
        from relocation_object_loads[OF refl ok(1) this(1,3,4,2) names(1) digest at[unfolded root]]
        show "load_one (digest_json ?v) t = Inr ?v" unfolding root by blast
      qed (rule relocation_object_loaded)
      have pred: "get ''predecessor_receipt'' ?v = opt_str p" by (simp add: relocation_object_def)
      have chain: "case p of
                 None \<Rightarrow> load_relocation_receipt (digest_json ?v) t = Inr ?v
               | Some p \<Rightarrow> \<exists>prev. load_relocation_receipt p s = Inr prev \<and> links ?v prev \<and>
                   (load_relocation_receipt (digest_json ?v) t = Inr ?v \<longleftrightarrow>
                    load_chain s (MAX_CHAIN - 1) [p] prev = Inr ())"
        if v: "load_one (digest_json ?v) t = Inr ?v"
      proof (cases p)
        case None
        have "load_chain t (Suc (MAX_CHAIN - 1)) [digest_json ?v] ?v = Inr ()" using pred None by simp
        then show ?thesis using v None by (simp add: load_relocation_receipt_def MAX_CHAIN_def)
      next
        case (Some x)
        obtain prev where prev: "load_relocation_receipt x s = Inr prev"
          "get ''to_root_observed'' prev = from_root" "get ''store_identity'' prev = JStr identity"
          "get ''kind'' prev = JStr kind" using head Some by (auto elim: chain_head_loads)
        have l: "links ?v prev" using prev by (simp add: links_def relocation_object_def)
        have "load_one x s = Inr prev" using prev(1) by (simp add: load_relocation_receipt_def)
        from appended_loads[OF frame at(1) kept v _ this l] show ?thesis
          using pred prev(1) l Some by auto
      qed
      show ?thesis unfolding Pair i prod.case sum.case
        by (intro conjI same exI[of _ p] exI[of _ ?v] exI[of _ path] checked_head_ends[OF head] starts refl at) (use readable chain in \<open>auto split: if_split\<close>)
    qed
  qed
qed

end
