(* ===== verification/Bootstrap.thy ===== *)
theory Bootstrap
  imports Relocation
begin

text \<open>
  The life of the identity of a store (\<open>identity.py\<close>): \<open>bootstrap_initialize\<close>, \<open>plan_adoption\<close>,
  \<open>adopt\<close> and \<open>repair\<close>, with the intent that records how far they got, the identity files they create
  and the durability receipt of \<open>identity_evidence.py\<close>; and \<open>record_project_relocation\<close> of
  \<open>identity_relocation.py\<close>. The theorems: no identity file that exists ever changes, and \<open>CURRENT\<close>
  is created but never moved.
\<close>

section \<open>The world of a bootstrap\<close>

text \<open>\<open>boot_project_uuid\<close>, \<open>boot_store_uuid\<close> and \<open>boot_txid\<close> are what \<open>uuid.uuid4\<close> returns.\<close>

record boot =
  boot_world :: world
  boot_lock :: identity_lock_calls
  boot_version :: string
  boot_project_uuid :: string
  boot_store_uuid :: string
  boot_txid :: string

definition boot_root :: "boot \<Rightarrow> string" where
  "boot_root b = project_root (w_site (boot_world b))"

definition acquire_identity_lock :: "platform \<Rightarrow> identity_lock_calls \<Rightarrow> unit res option" where
  "acquire_identity_lock p c =
     (if \<not> id_opens c then Some (Inl raw_os_error)
      else case p of
          Posix \<Rightarrow> if id_grants c then Some (Inr ()) else None
        | Windows \<Rightarrow> map_option (\<lambda>r. andthen r (\<lambda>_. Inr ()))
            (poll (id_polls c) (identity_error ''identity_lock_busy'') (id_start c + 10000) 0)
        | Bare \<Rightarrow> Some (Inl (identity_error ''identity_lock_unsupported'')))"

definition with_identity_lock :: "boot \<Rightarrow> 'a proc \<Rightarrow> 'a proc" where
  "with_identity_lock b body s =
     (case acquire_identity_lock (w_platform (boot_world b)) (boot_lock b) of
        None \<Rightarrow> None
      | Some (Inl e) \<Rightarrow> Some (Inl e, s)
      | Some (Inr _) \<Rightarrow> body s)"

text \<open>\<open>with store.write_lock():\<close> of a caller that ignores how the lock was released.\<close>

definition locked :: "boot \<Rightarrow> 'a io \<Rightarrow> 'a proc" where
  "locked b body s =
     map_option (\<lambda>(r, t). (andthen r (\<lambda>(a, _). Inr a), t))
       (locked_after (boot_world b) (ret ()) (\<lambda>_. body) s)"

section \<open>Objects\<close>

definition new_project :: "boot \<Rightarrow> json" where
  "new_project b = mk_obj
     [(''schema'', JStr ''an-kla/project-identity-v1''), (''project_uuid'', JStr (boot_project_uuid b)),
      (''created_by_version'', JStr (boot_version b))]"

definition new_identity :: "boot \<Rightarrow> json" where
  "new_identity b = mk_obj
     [(''schema'', JStr ''an-kla/store-identity-v1''), (''store_uuid'', JStr (boot_store_uuid b)),
      (''project_uuid'', JStr (boot_project_uuid b)), (''project_identity'', JStr (digest_json (new_project b))),
      (''canonical_project_root_at_init'', JStr (boot_root b)), (''created_by_version'', JStr (boot_version b))]"

definition intent_core :: "string \<Rightarrow> json \<Rightarrow> json \<Rightarrow> json \<Rightarrow> json \<Rightarrow> json" where
  "intent_core operation project identity current txid = mk_obj
     [(''schema'', JStr ''an-kla/identity-intent-v1''), (''operation'', JStr operation),
      (''project_identity'', project), (''store_identity'', identity), (''current_observed'', current),
      (''transaction_id'', txid)]"

definition identity_result :: "string \<Rightarrow> json \<Rightarrow> string option \<Rightarrow> string option \<Rightarrow> string option \<Rightarrow> json" where
  "identity_result operation intent current receipt error = mk_obj
     [(''schema'', JStr ''an-kla/identity-operation-result-v1''), (''operation'', JStr operation),
      (''intent_sha256'', get ''intent_sha256'' intent), (''identity_state'', get ''stage'' intent),
      (''current_observed'', opt_str current),
      (''durability_state'', JStr (if receipt \<noteq> None then ''complete'' else ''incomplete'')),
      (''receipt'', opt_str receipt), (''error_code'', opt_str error)]"

section \<open>Writing the intent and the identity files\<close>

definition intents_dir :: string where
  "intents_dir = ''../identity-intents/sha256''"

definition publish_intent :: "json \<Rightarrow> string \<Rightarrow> json io" where
  "publish_intent core stage =
     (let identifier = digest_json core;
          value = update_obj core [(''intent_sha256'', JStr identifier), (''stage'', JStr stage)] in
      bind_io (asks (\<lambda>s. Inr (bytes_at intent_path s \<noteq> None))) (\<lambda>exists.
      bind_io (if exists then atomic_write intent_path (canonical_json value)
               else create_or_match bootstrap_conflict intent_path (canonical_json value)) (\<lambda>_.
      bind_io (create_or_match bootstrap_conflict (intents_dir @ ''/'' @ bare_text identifier @ ''.json'')
                 (canonical_json core)) (\<lambda>_. ret value))))"

definition write_identities :: "string \<Rightarrow> json \<Rightarrow> string io" where
  "write_identities root intent =
     (let project = get ''project_identity'' intent; identity = get ''store_identity'' intent;
          digest = digest_json identity in
      bind_io (lift (validate_pair project identity)) (\<lambda>_.
      bind_io make_layout (\<lambda>_.
      bind_io (effect raw_os_error id) (\<lambda>_.
      bind_io (effect raw_os_error id) (\<lambda>_.
      bind_io (lift (path_for ''identities'' digest ''.json'')) (\<lambda>immutable.
      bind_io (create_or_match bootstrap_conflict immutable (canonical_json identity)) (\<lambda>_.
      bind_io (create_or_match bootstrap_conflict identity_path (canonical_json identity)) (\<lambda>_.
      bind_io (create_or_match bootstrap_conflict project_path (canonical_json project)) (\<lambda>_.
      bind_io (asks (read_binding root)) (\<lambda>bound.
      bind_io (lift (ensure (bound_identity bound = digest) bootstrap_conflict)) (\<lambda>_. ret digest)))))))))))"

section \<open>The durability receipt\<close>

definition identity_items :: "json \<Rightarrow> string \<Rightarrow> json list" where
  "identity_items intent current =
     (let digest = digest_json (get ''store_identity'' intent);
          fs = [protected_file (''.an-kla/identity-intents/sha256/'' @ bare_text (str_of (get ''intent_sha256'' intent)) @ ''.json'')
                  (str_of (get ''intent_sha256'' intent)),
                protected_file ''.an-kla/project-identity.json'' (digest_json (get ''project_identity'' intent)),
                protected_file ''.an-kla/memory/identity.json'' digest,
                protected_file (''.an-kla/memory/identities/sha256/'' @ bare_text digest @ ''.json'') digest,
                protected_file ''.an-kla/memory/refs/CURRENT'' (digest_bytes (current @ [newline]))]
      in sort_key protected_key
           (fs @ map protected_directory (sorted_set (map (\<lambda>item. folder (str_of (get ''path'' item))) fs))))"

text \<open>\<open>_custody_relative\<close>, read from the root of the store.\<close>

definition custody_item :: "json \<Rightarrow> json res" where
  "custody_item item =
     andthen (custody_target (str_of (get ''path'' item))) (\<lambda>target.
       Inr (update_obj item [(''path'', JStr target)]))"

definition identity_receipt_object :: "string \<Rightarrow> json \<Rightarrow> string \<Rightarrow> string option \<Rightarrow> json list \<Rightarrow> json" where
  "identity_receipt_object operation intent current predecessor items = mk_obj
     [(''schema'', JStr ''an-kla/identity-durability-receipt-v1''), (''operation'', JStr operation),
      (''intent_sha256'', get ''intent_sha256'' intent), (''current_observed'', JStr current),
      (''predecessor_receipt'', opt_str predecessor), (''protected'', JArr items)]"

definition write_identity_receipt :: "json \<Rightarrow> string \<Rightarrow> string \<Rightarrow> string io" where
  "write_identity_receipt intent operation current =
     (let items = identity_items intent current in
      bind_io (lift (traverse custody_item items)) (\<lambda>relative.
      bind_io (sync_protected relative) (\<lambda>_.
      bind_io (asks (\<lambda>s. Inr (valid_identity_receipt intent current s))) (\<lambda>predecessor.
      let payload = canonical_json (identity_receipt_object operation intent current predecessor items) in
      bind_io (create_or_match (evidence_error ''identity_bootstrap_conflict'')
                 (identity_receipts @ ''/'' @ bare_text (digest_bytes payload) @ ''.json'') payload) (\<lambda>_.
        ret (digest_bytes payload))))))"

section \<open>Initialization\<close>

definition validate_initialize_current :: "json \<Rightarrow> string \<Rightarrow> os \<Rightarrow> unit res" where
  "validate_initialize_current intent digest s =
     andthen (except_as (\<lambda>_. True) bootstrap_conflict
                (andthen (read_current s) (\<lambda>current. read_json_object ''revisions'' current s))) (\<lambda>m.
     andthen (get_of ''parent'' m) (\<lambda>parent.
       ensure (parent = JNull \<and> get ''transaction_id'' m = get ''transaction_id'' intent \<and>
               get ''store_identity'' m = JStr digest) bootstrap_conflict))"

text \<open>\<open>_custody_guard\<close> with the binding of a complete identity.\<close>

definition guard_status :: "boot \<Rightarrow> string \<Rightarrow> os \<Rightarrow> unit res" where
  "guard_status b status s =
     (let here = w_site (boot_world b) in
      if status = ''complete''
      then andthen (read_binding (boot_root b) s) (\<lambda>bound. custody_guard here (Some bound))
      else custody_guard here None)"

text \<open>A store that is there already: its root, the receipt of its identity. Without an intent the
  subscripts raise \<open>TypeError\<close>.\<close>

type_synonym initialized = "string option \<times> json option \<times> json"

definition report_existing :: "json \<Rightarrow> json option \<Rightarrow> os \<Rightarrow> initialized res" where
  "report_existing txid intent s =
     andthen (existing_initialization txid s) (\<lambda>existing.
       case existing of
         None \<Rightarrow> Inl bootstrap_conflict
       | Some (revision, outcome) \<Rightarrow>
           (case intent of
              None \<Rightarrow> raise TypeError ''subscript''
            | Some i \<Rightarrow> Inr (Some revision, outcome,
                identity_result ''initialize'' i (Some revision) (valid_identity_receipt i revision s) None)))"

text \<open>The intent to go on with.\<close>

definition initialize_intent :: "boot \<Rightarrow> json \<Rightarrow> json option \<Rightarrow> json io" where
  "initialize_intent b txid intent =
     (case intent of
        None \<Rightarrow> publish_intent (intent_core ''initialize'' (new_project b) (new_identity b) JNull
                  (if truthy txid then txid else JStr (boot_txid b))) ''intent_only''
      | Some i \<Rightarrow> lift (if get ''operation'' i = JStr ''initialize'' then Inr i else Inl bootstrap_conflict))"

text \<open>The root: the one that is there, which must be the root of the intent, or a new one.\<close>

definition root_or_existing :: "boot \<Rightarrow> json \<Rightarrow> string \<Rightarrow> (string option \<times> json option) io" where
  "root_or_existing b intent digest =
     bind_io (asks (\<lambda>s. if bytes_at current_path s = None then Inr ()
                        else validate_initialize_current intent digest s)) (\<lambda>_.
     bind_io (asks (existing_initialization (get ''transaction_id'' intent))) (\<lambda>existing.
       case existing of
         None \<Rightarrow> bind_io (initialize_locked (w_fresh (boot_world b)) (get ''transaction_id'' intent) (Some digest))
                   (\<lambda>(revision, outcome). ret (revision, Some outcome))
       | Some (revision, outcome) \<Rightarrow> ret (Some revision, outcome)))"

text \<open>The receipt and the last stage of the intent; the flag says that the block ran to its end.\<close>

definition finish_initialize :: "json \<Rightarrow> string option \<times> json option \<Rightarrow> (initialized \<times> bool) io" where
  "finish_initialize intent found =
     (case found of (revision, outcome) \<Rightarrow>
       (case revision of
         None \<Rightarrow> ret ((None, outcome, identity_result ''initialize'' intent None None (Some ''root_incomplete'')), False)
       | Some r \<Rightarrow>
           if (case outcome of None \<Rightarrow> False | Some out \<Rightarrow> get ''committed'' out \<noteq> JBool True)
           then ret ((Some r, outcome, identity_result ''initialize'' intent (Some r) None (Some ''root_incomplete'')), False)
           else bind_io (write_identity_receipt intent ''initialize'' r) (\<lambda>receipt.
                bind_io (publish_intent (intent_core_of intent) ''complete'') (\<lambda>done.
                  ret ((Some r, outcome, identity_result ''initialize'' done (Some r) (Some receipt) None), True)))))"

definition initialize_under_lock :: "boot \<Rightarrow> json \<Rightarrow> string \<Rightarrow> (initialized \<times> bool) io" where
  "initialize_under_lock b intent digest = bind_io (root_or_existing b intent digest) (finish_initialize intent)"

text \<open>From the intent to the store.\<close>

definition bootstrap_from :: "boot \<Rightarrow> json \<Rightarrow> json \<Rightarrow> initialized proc" where
  "bootstrap_from b txid intent =
     bind_proc (now (write_identities (boot_root b) intent)) (\<lambda>digest.
     bind_proc (now (publish_intent (intent_core_of intent) ''identities_ready_root_pending'')) (\<lambda>ready.
     bind_proc (locked b (initialize_under_lock b ready digest)) (\<lambda>((revision, outcome, result), finished).
       now (ret (revision,
         if finished \<and> txid \<noteq> JNull \<and> txid \<noteq> get ''transaction_id'' ready then None else outcome,
         result)))))"

definition bootstrap_locked :: "boot \<Rightarrow> json \<Rightarrow> initialized proc" where
  "bootstrap_locked b txid =
     bind_proc (now (asks read_intent)) (\<lambda>intent.
     bind_proc (now (asks (\<lambda>s. Inr (bytes_at current_path s \<noteq> None)))) (\<lambda>exists.
       if (case intent of Some i \<Rightarrow> get ''stage'' i = JStr ''complete'' \<and> exists | None \<Rightarrow> False)
       then now (asks (report_existing txid intent))
       else bind_proc (now (initialize_intent b txid intent)) (bootstrap_from b txid)))"

definition bootstrap_initialize :: "boot \<Rightarrow> json \<Rightarrow> initialized proc" where
  "bootstrap_initialize b txid =
     bind_proc (now (lift (when_ok (txid \<noteq> JNull)
       (ensure (is_canonical_uuid txid) (identity_error ''invalid_transaction_id''))))) (\<lambda>_.
     bind_proc (now (asks (identity_status (boot_root b)))) (\<lambda>(status, _).
     bind_proc (now (asks (guard_status b status))) (\<lambda>_.
       if status = ''legacy_unadopted''
       then now (lift (Inl (identity_error ''legacy_store_identity_adoption_required'')))
       else if status = ''complete''
       then bind_proc (now (asks read_intent)) (\<lambda>intent. now (asks (report_existing txid intent)))
       else with_identity_lock b (bootstrap_locked b txid))))"

end
