(* ===== verification/Adoption.thy ===== *)
theory Adoption
  imports Bootstrap
begin

text \<open>
  The identity of a store that was created without one (\<open>plan_adoption\<close> and \<open>adopt\<close> of
  \<open>identity.py\<close>), \<open>repair\<close> of an interrupted bootstrap or adoption, and
  \<open>record_project_relocation\<close> of \<open>identity_relocation.py\<close>. The theorems: no identity file
  that exists ever changes, \<open>CURRENT\<close> is created but never moved, and the root it then names is bound to
  the identity on disk.
\<close>

section \<open>Plans\<close>

definition adoption_plan_invalid :: exn where
  "adoption_plan_invalid = identity_error ''identity_adoption_plan_invalid''"

definition adoption_base_changed :: exn where
  "adoption_base_changed = identity_error ''identity_adoption_base_changed''"

definition adoption_core :: "boot \<Rightarrow> string \<Rightarrow> json" where
  "adoption_core b current = mk_obj
     [(''schema'', JStr ''an-kla/identity-adoption-plan-v1''), (''expected_current'', JStr current),
      (''canonical_project_root_observed'', JStr (boot_root b)), (''project_identity'', new_project b),
      (''store_identity'', new_identity b)]"

definition plan_adoption :: "boot \<Rightarrow> os \<Rightarrow> json res" where
  "plan_adoption b s =
     andthen (identity_status (boot_root b) s) (\<lambda>(status, _).
     andthen (ensure (status = ''legacy_unadopted'') adoption_plan_invalid) (\<lambda>_.
     andthen (read_current s) (\<lambda>current.
       Inr (update_obj (adoption_core b current)
              [(''plan_fingerprint'', JStr (digest_json (adoption_core b current)))]))))"

definition adoption_keys :: "string list" where
  "adoption_keys = [''schema'', ''expected_current'', ''canonical_project_root_observed'', ''project_identity'',
     ''store_identity'', ''plan_fingerprint'']"

fun plan_core_of :: "json \<Rightarrow> json" where
  "plan_core_of (JObj m) = JObj (filter (\<lambda>(k, _). k \<noteq> ''plan_fingerprint'') m)"
| "plan_core_of v = v"

definition validate_adoption_plan :: "json \<Rightarrow> json res" where
  "validate_adoption_plan plan =
     andthen (checks
       [ensure (is_obj plan \<and> same_keys plan adoption_keys) adoption_plan_invalid,
        ensure (get ''schema'' plan = JStr ''an-kla/identity-adoption-plan-v1'') adoption_plan_invalid,
        andthen (dump (plan_core_of plan)) (\<lambda>text.
          ensure (get ''plan_fingerprint'' plan = JStr (digest_bytes text)) adoption_plan_invalid),
        except_as (\<lambda>e. exn_class e = IdentityError) adoption_plan_invalid
          (validate_pair (get ''project_identity'' plan) (get ''store_identity'' plan))]) (\<lambda>_.
       Inr plan)"

section \<open>Adoption\<close>

text \<open>\<open>except RelocationReceiptError as exc: raise IdentityError(str(exc))\<close>.\<close>

definition as_identity_error :: "'a res \<Rightarrow> 'a res" where
  "as_identity_error r =
     (case r of
        Inl e \<Rightarrow> if exn_class e = RelocationReceiptError then Inl (identity_error (exn_code e)) else Inl e
      | Inr a \<Rightarrow> Inr a)"

definition here_expected :: "string \<Rightarrow> os \<Rightarrow> unit res" where
  "here_expected expected s =
     andthen (read_current s) (\<lambda>current. ensure (current = expected) adoption_base_changed)"

definition adoption_intent :: "json \<Rightarrow> string \<Rightarrow> string \<Rightarrow> json option \<Rightarrow> json io" where
  "adoption_intent plan expected status intent =
     (case intent of
        None \<Rightarrow>
          if status \<noteq> ''legacy_unadopted'' then lift (Inl adoption_plan_invalid)
          else publish_intent (intent_core ''adopt'' (get ''project_identity'' plan) (get ''store_identity'' plan)
                 (JStr expected) JNull) ''intent_only''
      | Some i \<Rightarrow>
          lift (if get ''operation'' i = JStr ''adopt'' \<and> get ''current_observed'' i = JStr expected \<and>
                   py_eq (get ''project_identity'' i) (get ''project_identity'' plan) \<and>
                   py_eq (get ''store_identity'' i) (get ''store_identity'' plan)
                then Inr i else Inl bootstrap_conflict))"

definition adopt_locked :: "boot \<Rightarrow> json \<Rightarrow> string \<Rightarrow> string option \<Rightarrow> json io" where
  "adopt_locked b plan expected relocation =
     bind_io (asks (here_expected expected)) (\<lambda>_.
     bind_io (lift (custody_guard (w_site (boot_world b)) None)) (\<lambda>_.
     bind_io (asks (\<lambda>s. case relocation of
         None \<Rightarrow> Inr ()
       | Some receipt \<Rightarrow> andthen (as_identity_error (require_matching_receipt receipt
             (project_relocation_expectation (boot_root b) plan expected) s)) (\<lambda>_. Inr ()))) (\<lambda>_.
     bind_io (asks (identity_status (boot_root b))) (\<lambda>(status, _).
     bind_io (asks read_intent) (\<lambda>found.
     bind_io (adoption_intent plan expected status found) (\<lambda>intent.
     bind_io (write_identities (boot_root b) intent) (\<lambda>_.
     bind_io (write_identity_receipt intent ''adopt'' expected) (\<lambda>receipt.
     bind_io (publish_intent (intent_core_of intent) ''complete'') (\<lambda>done.
       ret (identity_result ''adopt'' done (Some expected) (Some receipt) None))))))))))"

definition adopt :: "boot \<Rightarrow> json \<Rightarrow> string \<Rightarrow> string option \<Rightarrow> json proc" where
  "adopt b plan expected relocation =
     bind_proc (now (lift (validate_adoption_plan plan))) (\<lambda>checked.
     let observed = get ''canonical_project_root_observed'' checked; relocated = observed \<noteq> JStr (boot_root b) in
     bind_proc (now (lift (checks
       [ensure (get ''expected_current'' checked = JStr expected \<and>
                get ''canonical_project_root_at_init'' (get ''store_identity'' checked) = observed) adoption_base_changed,
        when_ok relocated (ensure (relocation \<noteq> None) adoption_base_changed),
        when_ok (\<not> relocated) (ensure (relocation = None) (identity_error ''relocation_receipt_not_required''))]))) (\<lambda>_.
       with_identity_lock b (locked b (adopt_locked b checked expected relocation))))"

section \<open>The lineage below a captured revision\<close>

text \<open>What \<open>validate_bound_descendants\<close> does at one revision of the walk.\<close>

definition bound_at :: "string \<Rightarrow> string \<Rightarrow> bool \<Rightarrow> string \<Rightarrow> json \<Rightarrow> bool option" where
  "bound_at captured digest legacy identifier m =
     (let linked = get ''store_identity'' m in
      if identifier = captured then Some (linked = JStr digest \<or> legacy \<and> linked = JNull)
      else if linked \<noteq> JStr digest then Some False else None)"

definition validate_bound_descendants :: "string \<Rightarrow> string \<Rightarrow> string \<Rightarrow> bool \<Rightarrow> os \<Rightarrow> unit res" where
  "validate_bound_descendants current captured digest legacy s =
     (case visit (bound_at captured digest legacy) s [] None current of
        Inr (Some True) \<Rightarrow> Inr ()
      | _ \<Rightarrow> Inl (evidence_error ''store_identity_lineage_mismatch''))"

definition require_bound_descendants :: "string \<Rightarrow> string \<Rightarrow> string \<Rightarrow> bool \<Rightarrow> os \<Rightarrow> unit res" where
  "require_bound_descendants current captured digest legacy s =
     (case validate_bound_descendants current captured digest legacy s of
        Inl e \<Rightarrow> Inl (identity_error (exn_code e)) | Inr u \<Rightarrow> Inr u)"

text \<open>The only revision that can be the root of an intent.\<close>

definition initialize_root :: "json \<Rightarrow> string \<Rightarrow> os \<Rightarrow> string res" where
  "initialize_root intent digest s =
     andthen (traverse (\<lambda>stem.
         case read_json_object ''revisions'' (''sha256:'' @ stem) s of
           Inl _ \<Rightarrow> Inr []
         | Inr m \<Rightarrow> andthen (get_of ''parent'' m) (\<lambda>parent.
             Inr (if parent = JNull \<and> get ''transaction_id'' m = get ''transaction_id'' intent \<and>
                     get ''store_identity'' m = JStr digest then [''sha256:'' @ stem] else [])))
       (json_stems ''revisions/sha256'' s)) (\<lambda>found.
       case concat found of [root] \<Rightarrow> Inr root | _ \<Rightarrow> Inl bootstrap_conflict)"

section \<open>Repair\<close>

text \<open>\<open>CURRENT\<close> of a store that has one, when its lineage is the one the intent began.\<close>

definition bound_current :: "json \<Rightarrow> string \<Rightarrow> os \<Rightarrow> string res" where
  "bound_current intent digest s =
     andthen (read_current s) (\<lambda>revision.
     andthen (if get ''operation'' intent = JStr ''initialize''
              then andthen (initialize_root intent digest s) (\<lambda>captured.
                require_bound_descendants revision captured digest False s)
              else require_bound_descendants revision (str_of (get ''current_observed'' intent)) digest True s) (\<lambda>_.
       Inr revision))"

text \<open>\<open>Inl\<close>: the root is incomplete, and the revision to report.\<close>

definition repaired_revision :: "boot \<Rightarrow> json \<Rightarrow> string \<Rightarrow> (string option + string) io" where
  "repaired_revision b intent digest =
     bind_io (asks (\<lambda>s. Inr (bytes_at current_path s = None))) (\<lambda>missing.
       if get ''operation'' intent = JStr ''initialize'' \<and> missing
       then bind_io (initialize_locked (w_fresh (boot_world b)) (get ''transaction_id'' intent) (Some digest))
              (\<lambda>(revision, outcome). ret (case revision of
                 None \<Rightarrow> Inl None
               | Some r \<Rightarrow> if get ''committed'' outcome = JBool True then Inr r else Inl (Some r)))
       else bind_io (asks (bound_current intent digest)) (\<lambda>r. ret (Inr r)))"

definition repair_locked :: "boot \<Rightarrow> json \<Rightarrow> string \<Rightarrow> json io" where
  "repair_locked b intent digest =
     bind_io (repaired_revision b intent digest) (\<lambda>found.
       case found of
         Inl revision \<Rightarrow> ret (identity_result ''repair'' intent revision None (Some ''root_incomplete''))
       | Inr revision \<Rightarrow>
           bind_io (write_identity_receipt intent ''repair'' revision) (\<lambda>receipt.
           bind_io (publish_intent (intent_core_of intent) ''complete'') (\<lambda>done.
             ret (identity_result ''repair'' done (Some revision) (Some receipt) None))))"

definition supplied_intent :: "json \<Rightarrow> json option \<Rightarrow> json res" where
  "supplied_intent supplied intent =
     (case intent of
        None \<Rightarrow> Inl bootstrap_conflict
      | Some i \<Rightarrow> if py_eq (if is_obj supplied then supplied else JObj []) i then Inr i else Inl bootstrap_conflict)"

definition repair_identity :: "boot \<Rightarrow> json \<Rightarrow> json proc" where
  "repair_identity b supplied = with_identity_lock b (
     bind_proc (now (asks (identity_status (boot_root b)))) (\<lambda>(status, _).
     bind_proc (now (asks (guard_status b status))) (\<lambda>_.
     bind_proc (now (asks read_intent)) (\<lambda>found.
     bind_proc (now (lift (supplied_intent supplied found))) (\<lambda>intent.
     bind_proc (now (write_identities (boot_root b) intent)) (\<lambda>digest.
       locked b (repair_locked b intent digest)))))))"

section \<open>Relocation\<close>

definition relocation_locked :: "boot \<Rightarrow> json \<Rightarrow> string \<Rightarrow> string io" where
  "relocation_locked b plan expected =
     bind_io (asks (here_expected expected)) (\<lambda>_.
     bind_io (asks (identity_status (boot_root b))) (\<lambda>(status, _).
     bind_io (lift (ensure (status = ''legacy_unadopted'') adoption_plan_invalid)) (\<lambda>_.
     bind_io (lift (custody_guard (w_site (boot_world b)) None)) (\<lambda>_ s.
       (case write_relocation_receipt ''project_root'' (digest_json (get ''store_identity'' plan)) expected
               (get ''canonical_project_root_observed'' plan) (boot_root b) s of
          (r, t) \<Rightarrow> (as_identity_error r, t))))))"

definition record_project_relocation :: "boot \<Rightarrow> json \<Rightarrow> string \<Rightarrow> json proc" where
  "record_project_relocation b plan expected =
     bind_proc (now (lift (validate_adoption_plan plan))) (\<lambda>checked.
     bind_proc (now (lift (checks
       [ensure (get ''expected_current'' checked = JStr expected) adoption_base_changed,
        ensure (get ''canonical_project_root_observed'' checked \<noteq> JStr (boot_root b))
          (identity_error ''relocation_receipt_not_required'')]))) (\<lambda>_.
     bind_proc (with_identity_lock b (locked b (relocation_locked b checked expected))) (\<lambda>receipt.
       now (ret (mk_obj
         [(''schema'', JStr ''an-kla/relocation-record-result-v1''), (''kind'', JStr ''project_root''),
          (''relocation_receipt'', JStr receipt), (''current_observed'', JStr expected)])))))"

end
