(* ===== verification/IdentityLife.thy ===== *)
theory IdentityLife
  imports Adoption
begin

text \<open>
  What the operations on the identity of a store leave behind, whatever calls fail: identity files
  are written once, \<open>CURRENT\<close> is created but never moved, and a root that is created is bound to the
  identity on disk. Two relations that every step respects carry the proofs.
\<close>

section \<open>Files that are written once\<close>

definition once :: "(string \<Rightarrow> bool) \<Rightarrow> os \<Rightarrow> os \<Rightarrow> bool" where
  "once P s t \<longleftrightarrow> same_on (\<lambda>p. P p \<and> bytes_at p s \<noteq> None) s t"

text \<open>The files of the identity, its history and \<open>CURRENT\<close>; not the intent, which is replaced.\<close>

definition owned :: "string \<Rightarrow> bool" where
  "owned p \<longleftrightarrow> p = current_path \<or> p = project_path \<or> p = identity_path \<or> prefix ''identities/'' p \<or>
     prefix ''../identity-intents/'' p \<or> prefix ''../identity-receipts/'' p \<or> prefix ''../relocation-receipts/'' p"

text \<open>The identity on disk has the digest \<open>d\<close>.\<close>

definition identified :: "string \<Rightarrow> os \<Rightarrow> bool" where
  "identified d s \<longleftrightarrow> (\<exists>payload. bytes_at identity_path s = Some payload \<and> digest_bytes payload = d)"

definition bound_root :: "os \<Rightarrow> bool" where
  "bound_root t \<longleftrightarrow> (\<exists>d c. identified d t \<and> bytes_at current_path t = Some (c @ [newline]) \<and> whole_root (Some d) c t)"

text \<open>Nothing of the store was touched, or a store without \<open>CURRENT\<close> got its root.\<close>

definition first_root :: "os \<Rightarrow> os \<Rightarrow> bool" where
  "first_root s t \<longleftrightarrow>
     same_on rooted s t \<or> bytes_at current_path s = None \<and> (bytes_at current_path t = None \<or> bound_root t)"

definition plainly :: "os \<Rightarrow> os \<Rightarrow> bool" where
  "plainly s t \<longleftrightarrow> once owned s t \<and> same_on rooted s t"

definition rooting :: "string \<Rightarrow> os \<Rightarrow> os \<Rightarrow> bool" where
  "rooting d s t \<longleftrightarrow> once owned s t \<and> (identified d s \<longrightarrow> first_root s t)"

lemma once_trans: "once P s t \<Longrightarrow> once P t u \<Longrightarrow> once P s u"
  by (auto simp: once_def same_on_def)

lemma once_same: "same_on P s t \<Longrightarrow> once P s t"
  by (simp add: once_def same_on_def)

interpretation plain: step_relation plainly
proof
  show "plainly s t \<Longrightarrow> plainly t u \<Longrightarrow> plainly s u" for s t u
    unfolding plainly_def using once_trans same.chains by blast
qed (simp_all add: plainly_def once_def same.stays same.popped same.named)

lemma onceD: "once P s t \<Longrightarrow> P p \<Longrightarrow> bytes_at p s = Some b \<Longrightarrow> bytes_at p t = Some b"
  by (simp add: once_def same_on_def)

lemma identified_stays: "once owned s t \<Longrightarrow> identified d s \<Longrightarrow> identified d t"
  unfolding identified_def by (elim exE conjE) (drule onceD[where p = identity_path], auto simp: owned_def)

lemma bound_root_stays:
  assumes "once owned s t" "same_on rooted s t" "bound_root s"
  shows "bound_root t"
proof -
  obtain d c where d: "identified d s" "bytes_at current_path s = Some (c @ [newline])" "whole_root (Some d) c s"
    using assms(3) by (auto simp: bound_root_def)
  have "bytes_at current_path t = bytes_at current_path s" using assms(2) by (rule same_onD) (simp add: rooted_def)
  moreover have "same_on (\<lambda>p. prefix ''revisions/'' p \<or> prefix ''checkpoints/'' p) s t"
    using assms(2) by (rule same_on_mono) (auto simp: rooted_def)
  then have "whole_root (Some d) c t" using d(3) by (rule whole_root_stays)
  moreover have "identified d t" by (rule identified_stays[OF assms(1) d(1)])
  ultimately show ?thesis unfolding bound_root_def using d(2) by auto
qed

lemma first_root_trans:
  assumes "first_root s t" "first_root t u" "once owned t u"
  shows "first_root s u"
proof -
  have same: "bytes_at current_path u = bytes_at current_path t" if "same_on rooted t u"
    using that by (rule same_onD) (simp add: rooted_def)
  have same': "bytes_at current_path t = bytes_at current_path s" if "same_on rooted s t"
    using that by (rule same_onD) (simp add: rooted_def)
  show ?thesis using assms(1,2) unfolding first_root_def
  proof (elim disjE conjE)
    assume "same_on rooted s t" "same_on rooted t u"
    then show "same_on rooted s u \<or> bytes_at current_path s = None \<and> (bytes_at current_path u = None \<or> bound_root u)"
      using same.chains by blast
  next
    assume "bound_root t" "bytes_at current_path t = None"
    then show "same_on rooted s u \<or> bytes_at current_path s = None \<and> (bytes_at current_path u = None \<or> bound_root u)"
      by (auto simp: bound_root_def)
  qed (use same same' bound_root_stays[OF assms(3)] in auto)
qed

interpretation rooting: step_relation "rooting d" for d
proof
  show "rooting d s t \<Longrightarrow> rooting d t u \<Longrightarrow> rooting d s u" for d s t u
    unfolding rooting_def using once_trans identified_stays first_root_trans by metis
qed (simp_all add: rooting_def once_def first_root_def same.stays same.popped same.named)

lemma plainly_rooting: "plainly s t \<Longrightarrow> rooting d s t"
  by (simp add: plainly_def rooting_def first_root_def)

lemma plain_keeps_rooting: "plain.keeps m \<Longrightarrow> rooting.keeps d m"
  by (simp add: plain.keeps_def rooting.keeps_def plainly_rooting)

section \<open>Computations that may wait\<close>

context step_relation
begin

definition proc_keeps :: "'a proc \<Rightarrow> bool" where
  "proc_keeps m \<longleftrightarrow> (\<forall>s r t. m s = Some (r, t) \<longrightarrow> R s t)"

lemma proc_keepsD: "proc_keeps m \<Longrightarrow> m s = Some (r, t) \<Longrightarrow> R s t"
  by (auto simp: proc_keeps_def)

lemma proc_keeps_now: "keeps m \<Longrightarrow> proc_keeps (now m)"
  by (auto simp: proc_keeps_def now_def dest: keepsD)

lemma proc_keeps_bind: "proc_keeps m \<Longrightarrow> (\<And>a. proc_keeps (k a)) \<Longrightarrow> proc_keeps (bind_proc m k)"
  unfolding proc_keeps_def bind_proc_def by (auto split: option.splits sum.splits) (blast intro: chains)

lemma proc_keeps_identity_lock: "proc_keeps m \<Longrightarrow> proc_keeps (with_identity_lock b m)"
  unfolding proc_keeps_def with_identity_lock_def by (auto split: option.splits sum.splits intro: stays)

lemma proc_keeps_if: "(c \<Longrightarrow> proc_keeps m) \<Longrightarrow> (\<not> c \<Longrightarrow> proc_keeps k) \<Longrightarrow> proc_keeps (if c then m else k)"
  by simp

lemma proc_keeps_pair: "(\<And>x y. proc_keeps (k x y)) \<Longrightarrow> proc_keeps (case p of (x, y) \<Rightarrow> k x y)"
  by (cases p) simp

lemma proc_keeps_reading: "proc_keeps (now (asks f))" "proc_keeps (now (lift x))" "proc_keeps (now (ret a))"
  by (intro proc_keeps_now keeps_readers)+

lemmas proc_rules = proc_keeps_bind proc_keeps_identity_lock proc_keeps_if proc_keeps_pair proc_keeps_reading

lemma proc_keeps_locked:
  assumes m: "keeps m" and layout: "keeps make_layout"
  shows "proc_keeps (locked b m)"
  unfolding proc_keeps_def
proof (intro allI impI)
  fix s r t assume "locked b m s = Some (r, t)"
  then obtain q where run: "locked_after (boot_world b) (ret ()) (\<lambda>_. m) s = Some (q, t)"
    by (auto simp: locked_def split: prod.splits)
  obtain r1 s1 where l: "make_layout s = (r1, s1)" by fastforce
  have "R s s1" using keepsD[OF layout l] .
  moreover have "R s1 t"
  proof (cases r1)
    case (Inl e)
    then show ?thesis using run l stays by (simp add: locked_after_def bind_io_def ret_def)
  next
    case (Inr u)
    then have "with_write_lock (w_platform (boot_world b)) (w_lock (boot_world b)) m s1 = Some (q, t)"
      using run l by (simp add: locked_after_def bind_io_def ret_def)
    from with_write_lock_body[OF this] show ?thesis using keepsD[OF m] stays by auto
  qed
  ultimately show "R s t" by (rule chains)
qed

end

section \<open>The steps\<close>

lemma plain_make_layout [simp]: "plain.keeps make_layout"
  by (rule plain.keepsI) (use make_layout_same in \<open>auto simp: plainly_def once_def same_on_def\<close>)

lemma plain_create_or_match: "\<not> rooted target \<Longrightarrow> plain.keeps (create_or_match conflict target payload)"
proof (rule plain.keepsI)
  fix s r t assume "\<not> rooted target" and run: "create_or_match conflict target payload s = (r, t)"
  note f = create_or_match_spec(1,2)[OF run]
  have "bytes_at q t = bytes_at q s" if "bytes_at q s \<noteq> None" for q
    using that f by (cases "q = target") (auto simp: same_on_def)
  moreover have "same_on rooted s t" using f(1) \<open>\<not> rooted target\<close> by (auto simp: same_on_def)
  ultimately show "plainly s t" by (auto simp: plainly_def once_def same_on_def)
qed

lemma rooted_identity [simp]:
  "\<not> rooted intent_path" "\<not> rooted identity_path" "\<not> rooted project_path"
  "\<not> rooted (intents_dir @ ''/'' @ x)" "\<not> rooted (identity_receipts @ ''/'' @ x)" "\<not> rooted (relocation_dir @ ''/'' @ x)"
  "path_for ''identities'' i e = Inr p \<Longrightarrow> \<not> rooted p"
  by (auto simp: rooted_def current_path_def intent_path_def identity_path_def project_path_def intents_dir_def
      identity_receipts_def relocation_dir_def path_for_def prefix_def)

lemma plain_free: "\<not> rooted p \<Longrightarrow> \<not> owned p \<Longrightarrow> plain.free p"
  by (auto simp: plain.free_def plainly_def once_def same_on_def)

lemma intent_free:
  "plain.free intent_path" "plain.free (temporary_name intent_path u)"
  by (rule plain_free; simp add: rooted_def owned_def current_path_def intent_path_def identity_path_def
      project_path_def temporary_name_def with_name_def dir_prefix_def base_name_def)+

lemma plain_publish_intent: "plain.keeps (publish_intent core stage)"
  unfolding publish_intent_def Let_def
  by (intro keeps_rules plain.keeps_atomic intent_free plain_create_or_match rooted_identity)

lemma plain_write_identities: "plain.keeps (write_identities root intent)"
  unfolding write_identities_def Let_def
  by (intro keeps_rules plain.keeps_lift_bind plain_create_or_match plain_make_layout rooted_identity)

lemma bind_io_Inr: "bind_io m k s = (Inr b, t) \<longleftrightarrow> (\<exists>a u. m s = (Inr a, u) \<and> k a u = (Inr b, t))"
  by (auto simp: bind_io_def split: prod.splits sum.splits)

lemma bind_peel:
  assumes "bind_io m k s = (Inr b, t)"
  obtains a u where "k a u = (Inr b, t)"
  using assms by (auto simp: bind_io_Inr)

lemma write_identities_identified:
  assumes "write_identities root intent s = (Inr d, t)"
  shows "identified d t"
proof -
  let ?make = "create_or_match bootstrap_conflict" and ?digest = "digest_json (get ''store_identity'' intent)"
  obtain s1 where "bind_io (?make identity_path (canonical_json (get ''store_identity'' intent))) (\<lambda>_.
      bind_io (?make project_path (canonical_json (get ''project_identity'' intent))) (\<lambda>_.
      bind_io (asks (read_binding root)) (\<lambda>bound.
      bind_io (lift (ensure (bound_identity bound = ?digest) bootstrap_conflict)) (\<lambda>_. ret ?digest)))) s1 = (Inr d, t)"
    using assms unfolding write_identities_def Let_def by - (erule bind_peel, erule bind_peel, erule bind_peel, erule bind_peel, erule bind_peel, erule bind_peel, rule that)
  then obtain s2 s3 where a: "?make identity_path (canonical_json (get ''store_identity'' intent)) s1 = (Inr (), s2)"
    and b: "?make project_path (canonical_json (get ''project_identity'' intent)) s2 = (Inr (), s3)"
    and c: "t = s3" "d = ?digest"
    unfolding bind_io_Inr by (auto simp: run_iff)
  have "bytes_at identity_path s2 = Some (canonical_json (get ''store_identity'' intent))"
    by (rule create_or_match_spec(3)[OF a refl])
  moreover have "plainly s2 s3" by (rule plain.keepsD[OF plain_create_or_match b]) simp
  then have "once owned s2 s3" by (simp add: plainly_def)
  moreover have "owned identity_path" by (simp add: owned_def)
  ultimately have "bytes_at identity_path t = Some (canonical_json (get ''store_identity'' intent))"
    unfolding c(1) using onceD by blast
  then show ?thesis by (simp add: identified_def c(2) digest_json_def)
qed

lemma plain_identity_receipt: "plain.keeps (write_identity_receipt intent operation current)"
  unfolding write_identity_receipt_def Let_def
  by (intro keeps_rules plain_create_or_match rooted_identity)

lemma plain_relocation_receipt: "plain.keeps (write_relocation_receipt kind identity current from_root to_root)"
proof -
  have "\<not> rooted path" if "relocation_path i = Inr path" for i path
    using that by (auto simp: relocation_path_def rooted_def relocation_dir_def current_path_def)
  then show ?thesis unfolding write_relocation_receipt_def Let_def
    by (intro keeps_rules plain.keeps_lift_bind plain_create_or_match)
qed

section \<open>The root\<close>

text \<open>The creation of the root leaves every identity file alone.\<close>

definition owned_files :: "string \<Rightarrow> bool" where
  "owned_files p \<longleftrightarrow> owned p \<and> p \<noteq> current_path"

lemma owned_elsewhere:
  "prefix ''transactions/'' p \<Longrightarrow> \<not> owned p" "prefix ''quarantine/'' p \<Longrightarrow> \<not> owned p"
  "prefix ''refs/'' p \<Longrightarrow> \<not> owned_files p"
  by (auto simp: owned_files_def owned_def current_path_def project_path_def identity_path_def prefix_def)

lemma owned_places [simp]:
  "\<not> owned_files (journal_path txid)" "\<not> owned_files (temporary_name (journal_path txid) u)"
  "\<not> owned_files (receipts_kind txid @ ''/sha256'' @ ''/'' @ x)" "\<not> owned_files (stages_kind txid @ ''/sha256'' @ ''/'' @ x)"
  "\<not> owned_files current_path" "\<not> owned_files (temporary_name current_path u)"
  "\<not> owned_files (''checkpoints'' @ ''/sha256'' @ ''/'' @ x)" "\<not> owned_files (''revisions'' @ ''/sha256'' @ ''/'' @ x)"
  "\<not> owned_files (''quarantine'' @ ''/'' @ x)"
  using owned_elsewhere(1)[OF temporary_of_journal] owned_elsewhere(3)[OF temporary_of_current]
  by (simp_all add: owned_files_def journal_path_def owned_def current_path_def project_path_def identity_path_def
      receipts_kind_def stages_kind_def)

lemma root_steps_owned: "same.run_keeps owned_files (root_steps attempt identity)"
proof -
  have "same.run_keeps owned_files (write_root attempt identity)"
    unfolding write_root_def Let_def
    by (intro same.run_rules same.keeps_write_transaction same.keeps_write_json_object)
      (simp_all only: same_free same_free_below owned_places append.assoc not_False_eq_True simp_thms)
  moreover have "same.run_keeps owned_files (stage_root attempt checkpoint candidate)" for checkpoint candidate
    unfolding stage_root_def Let_def
    by (intro same.run_rules same.keeps_write_transaction same.keeps_write_json_object same.keeps_write_receipt)
      (simp_all only: same_free same_free_below owned_places append.assoc not_False_eq_True simp_thms)
  moreover have "same.run_keeps owned_files (settle_root attempt candidate stage_id receipt)" for candidate stage_id receipt
    unfolding settle_root_def Let_def confirm_def
    by (intro same.run_rules same.keeps_write_transaction same.keeps_write_receipt)
      (simp_all only: same_free same_free_below owned_places append.assoc not_False_eq_True simp_thms)
  moreover have "same.keeps owned_files (replace_current candidate)" for candidate
    by (rule same.keeps_replace_current) simp_all
  ultimately show ?thesis unfolding root_steps_def
    by (auto split: prod.splits intro!: same.run_keeps_bind same.run_keeps_doing)
qed

lemma initialize_locked_owned:
  assumes "initialize_locked fresh txid identity s = (r, t)"
  shows "same_on owned_files s t"
proof -
  have "same.keeps owned_files (attempt_root attempt identity)" for attempt
  proof (rule same.keepsI)
    fix u q v assume "attempt_root attempt identity u = (q, v)"
    then obtain x l where "root_steps attempt identity (start_locals, u) = (x, l, v)"
      by (auto simp: attempt_root_def split: prod.splits sum.splits)
    then show "same_on owned_files u v" by (rule same.run_keepsD[OF root_steps_owned])
  qed
  then have "same.keeps owned_files (initialize_locked fresh txid identity)"
    unfolding initialize_locked_def Let_def by (auto split: prod.splits option.splits intro!: keeps_rules)
  then show ?thesis using assms by (rule same.keepsD)
qed

lemma initialize_locked_published:
  "initialize_locked fresh txid identity s = (r, t) \<Longrightarrow> root_published identity s t"
  using root_creation_safe[where fresh = fresh and transaction_id = txid and identity = identity and s = s] by simp

lemma initialize_rooting:
  assumes run: "initialize_locked fresh txid (Some d) s = (r, t)" and missing: "bytes_at current_path s = None"
  shows "rooting d s t"
proof -
  have o: "once owned s t"
    using initialize_locked_owned[OF run] missing by (auto simp: once_def same_on_def owned_files_def)
  moreover have "first_root s t" if "identified d s"
    using initialize_locked_published[OF run] missing identified_stays[OF o that]
    by (auto simp: first_root_def root_published_def bound_root_def)
  ultimately show ?thesis by (simp add: rooting_def)
qed

section \<open>The operations\<close>

lemma rooting_create:
  "rooting.keeps d (publish_intent core stage)" "rooting.keeps d (write_identity_receipt intent operation current)"
  "rooting.keeps d make_layout"
  by (intro plain_keeps_rooting plain_publish_intent plain_identity_receipt plain_make_layout)+

lemma rooting_root: "rooting.keeps d (root_or_existing b intent d)"
proof (rule rooting.keepsI)
  fix s r t assume run: "root_or_existing b intent d s = (r, t)"
  let ?create = "initialize_locked (w_fresh (boot_world b)) (get ''transaction_id'' intent) (Some d)"
  consider "t = s" | (created) "bytes_at current_path s = None" "\<exists>q. ?create s = (q, t)"
  proof (cases "bytes_at current_path s")
    case None
    then show ?thesis using run that(2)
      by (auto simp: root_or_existing_def existing_initialization_def bind_io_def asks_def ret_def
          split: prod.splits sum.splits)
  next
    case (Some x)
    then have "existing_initialization (get ''transaction_id'' intent) s \<noteq> Inr None"
      by (cases "read_current s") (auto simp: existing_initialization_def split: if_splits)
    then show ?thesis using run that(1) Some
      by (auto simp: root_or_existing_def bind_asks ret_def split: sum.splits option.splits)
  qed
  then show "rooting d s t"
    by cases (auto simp: rooting.stays dest: initialize_rooting)
qed

lemma rooting_finish: "rooting.keeps d (finish_initialize intent found)"
  unfolding finish_initialize_def
  by (auto split: prod.split option.split intro!: keeps_rules rooting_create)

lemma rooting_initialize: "rooting.keeps d (initialize_under_lock b intent d)"
  unfolding initialize_under_lock_def by (intro keeps_rules rooting_root rooting_finish)

text \<open>What a whole operation may do.\<close>

definition lived :: "os \<Rightarrow> os \<Rightarrow> bool" where
  "lived s t \<longleftrightarrow> once owned s t \<and> first_root s t"

interpretation life: step_relation lived
proof
  show "lived s t \<Longrightarrow> lived t u \<Longrightarrow> lived s u" for s t u
    unfolding lived_def using once_trans first_root_trans by metis
qed (simp_all add: lived_def once_def first_root_def same.stays same.popped same.named)

lemma plainly_lived: "plainly s t \<Longrightarrow> lived s t"
  by (simp add: plainly_def lived_def first_root_def)

lemma plain_keeps_life: "plain.keeps m \<Longrightarrow> life.keeps m"
  by (simp add: plain.keeps_def life.keeps_def plainly_lived)

lemma life_identities:
  assumes "\<And>d. rooting.proc_keeps d (k d)"
  shows "life.proc_keeps (bind_proc (now (write_identities root i)) k)"
  unfolding life.proc_keeps_def
proof (intro allI impI)
  fix s r t assume run: "bind_proc (now (write_identities root i)) k s = Some (r, t)"
  obtain q u where w: "write_identities root i s = (q, u)" by fastforce
  have p: "plainly s u" by (rule plain.keepsD[OF plain_write_identities w])
  show "lived s t"
  proof (cases q)
    case (Inl e)
    then show ?thesis using run w plainly_lived[OF p] by (simp add: bind_proc_def now_def)
  next
    case (Inr d)
    have "k d u = Some (r, t)" using run w Inr by (simp add: bind_proc_def now_def)
    from rooting.proc_keepsD[OF assms this] have "rooting d u t" .
    moreover have "identified d u" using w write_identities_identified Inr by blast
    ultimately have "lived u t" by (simp add: rooting_def lived_def)
    then show ?thesis by (rule life.chains[OF plainly_lived[OF p]])
  qed
qed

lemma life_publish: "life.proc_keeps (now (publish_intent core stage))"
  by (intro life.proc_keeps_now plain_keeps_life plain_publish_intent)

lemma life_initialize_intent: "life.proc_keeps (now (initialize_intent b txid intent))"
  unfolding initialize_intent_def
  by (cases intent) (auto intro: life.proc_keeps_reading life_publish)

lemma life_bootstrap_from: "life.proc_keeps (bootstrap_from b txid intent)"
  unfolding bootstrap_from_def
  by (intro life_identities rooting.proc_rules rooting.proc_keeps_locked rooting_initialize rooting_create
      rooting.proc_keeps_now[OF rooting_create(1)])
    (simp split: prod.split add: rooting.proc_keeps_reading)

lemma life_bootstrap: "life.proc_keeps (bootstrap_initialize b txid)"
  unfolding bootstrap_initialize_def bootstrap_locked_def
  by (intro life.proc_rules life_initialize_intent life_bootstrap_from)

section \<open>Repair, adoption and relocation\<close>

lemma rooting_repaired: "rooting.keeps d (repaired_revision b intent d)"
proof (rule rooting.keepsI)
  fix s r t assume run: "repaired_revision b intent d s = (r, t)"
  let ?create = "initialize_locked (w_fresh (boot_world b)) (get ''transaction_id'' intent) (Some d)"
  consider "t = s" | (created) "bytes_at current_path s = None" "\<exists>q. ?create s = (q, t)"
    using run
    by (cases "get ''operation'' intent = JStr ''initialize'' \<and> bytes_at current_path s = None")
      (auto simp: repaired_revision_def bind_io_def asks_def ret_def split: prod.splits sum.splits)
  then show "rooting d s t"
    by cases (auto simp: rooting.stays dest: initialize_rooting)
qed

lemma rooting_repair: "rooting.keeps d (repair_locked b intent d)"
  unfolding repair_locked_def
  by (rule rooting.keeps_bind[OF rooting_repaired])
    (auto split: sum.split intro!: keeps_rules rooting_create)

lemma life_repair: "life.proc_keeps (repair_identity b supplied)"
  unfolding repair_identity_def
  by (intro life.proc_keeps_identity_lock life.proc_keeps_bind[OF life.proc_keeps_reading(1)]
      life.proc_keeps_bind[OF life.proc_keeps_reading(2)] life.proc_keeps_pair life_identities
      rooting.proc_keeps_locked rooting_repair rooting_create)

lemma plain_adopt_locked: "plain.keeps (adopt_locked b plan expected relocation)"
  unfolding adopt_locked_def adoption_intent_def
  by (auto split: prod.split option.split intro!: keeps_rules plain_publish_intent plain_write_identities
      plain_identity_receipt)

lemma plain_adopt: "plain.proc_keeps (adopt b plan expected relocation)"
  unfolding adopt_def Let_def
  by (intro plain.proc_rules plain.proc_keeps_locked plain_adopt_locked plain_make_layout)

lemma plain_record_relocation: "plain.proc_keeps (record_project_relocation b plan expected)"
proof -
  have "plain.keeps (\<lambda>s. case write_relocation_receipt kind identity current from_root to_root s of
      (r, t) \<Rightarrow> (as_identity_error r, t))" for kind identity current from_root to_root
    by (rule plain.keepsI) (auto split: prod.splits dest: plain.keepsD[OF plain_relocation_receipt])
  then have "plain.keeps (relocation_locked b checked expected)" for checked
    unfolding relocation_locked_def
    by (auto split: prod.split intro!: keeps_rules)
  then show ?thesis unfolding record_project_relocation_def
    by (intro plain.proc_rules plain.proc_keeps_locked plain_make_layout)
qed

text \<open>C28: Nothing that establishes the identity of a store is ever rewritten: whatever calls fail,
  initializing, adopting, repairing and recording a relocation leave every identity file, every
  intent and receipt in the history, and \<open>CURRENT\<close>, byte for byte as they were if they existed.\<close>

theorem identity_written_once:
  "(case bootstrap_initialize b txid s of None \<Rightarrow> True | Some (_, t) \<Rightarrow> once owned s t) \<and>
   (case adopt b plan expected relocation s of None \<Rightarrow> True | Some (_, t) \<Rightarrow> once owned s t) \<and>
   (case repair_identity b supplied s of None \<Rightarrow> True | Some (_, t) \<Rightarrow> once owned s t) \<and>
   (case record_project_relocation b plan expected s of None \<Rightarrow> True | Some (_, t) \<Rightarrow> once owned s t)"
proof (intro conjI)
  show "case bootstrap_initialize b txid s of None \<Rightarrow> True | Some (_, t) \<Rightarrow> once owned s t"
    using life.proc_keepsD[OF life_bootstrap] by (auto simp: lived_def split: option.split)
  show "case adopt b plan expected relocation s of None \<Rightarrow> True | Some (_, t) \<Rightarrow> once owned s t"
    using plain.proc_keepsD[OF plain_adopt] by (auto simp: plainly_def split: option.split)
  show "case repair_identity b supplied s of None \<Rightarrow> True | Some (_, t) \<Rightarrow> once owned s t"
    using life.proc_keepsD[OF life_repair] by (auto simp: lived_def split: option.split)
  show "case record_project_relocation b plan expected s of None \<Rightarrow> True | Some (_, t) \<Rightarrow> once owned s t"
    using plain.proc_keepsD[OF plain_record_relocation] by (auto simp: plainly_def split: option.split)
qed

text \<open>C29: A store gets its first revision bound to the identity on disk: after an initialization or a
  repair, however it ended, either \<open>CURRENT\<close>, the revisions and the checkpoints are as they were, or
  there was no \<open>CURRENT\<close> and now there is none or it names a whole root linked to the digest of the
  identity file. Adopting a store touches neither its \<open>CURRENT\<close> nor its history.\<close>

theorem first_root_is_bound:
  "(case bootstrap_initialize b txid s of None \<Rightarrow> True | Some (_, t) \<Rightarrow> first_root s t) \<and>
   (case repair_identity b supplied s of None \<Rightarrow> True | Some (_, t) \<Rightarrow> first_root s t) \<and>
   (case adopt b plan expected relocation s of None \<Rightarrow> True | Some (_, t) \<Rightarrow> same_on rooted s t)"
proof (intro conjI)
  show "case bootstrap_initialize b txid s of None \<Rightarrow> True | Some (_, t) \<Rightarrow> first_root s t"
    using life.proc_keepsD[OF life_bootstrap] by (auto simp: lived_def split: option.split)
  show "case repair_identity b supplied s of None \<Rightarrow> True | Some (_, t) \<Rightarrow> first_root s t"
    using life.proc_keepsD[OF life_repair] by (auto simp: lived_def split: option.split)
  show "case adopt b plan expected relocation s of None \<Rightarrow> True | Some (_, t) \<Rightarrow> same_on rooted s t"
    using plain.proc_keepsD[OF plain_adopt] by (auto simp: plainly_def split: option.split)
qed

end
