(* ===== verification/Index.thy ===== *)
theory Index
  imports Snapshot Attempts
begin

text \<open>
  The derived index of one revision (\<open>index.py\<close>): generations of an SQLite database below
  \<open>indexes/\<close>, named by their digest, with a reference file that selects one, and the lookups of
  \<open>retrieval.py\<close> in it. SQLite itself is a parameter. The theorem: what \<open>build_index\<close> reports is what
  \<open>index_resolution\<close> finds afterwards, intact.
\<close>

section \<open>SQLite\<close>

text \<open>
  What the program asks of SQLite, by the bytes of a database: whether FTS5 works, the value of a key
  of the metadata table, the identifiers a full-text query finds in the table of a stream, and the
  bytes of a database built from metadata and rows. \<open>None\<close> is \<open>sqlite3.DatabaseError\<close>.
\<close>

record sqlite =
  sql_fts5 :: bool
  sql_metadata :: "string \<Rightarrow> string \<Rightarrow> string option option"
  sql_match :: "string \<Rightarrow> string \<Rightarrow> string \<Rightarrow> string list option"
  sql_build :: "(string \<times> string) list \<Rightarrow> (string \<times> (json \<times> string) list) list \<Rightarrow> string option"

definition INDEX_PROFILE :: string where
  "INDEX_PROFILE = ''sqlite-fts5/v1''"

definition INDEX_VERSION :: string where
  "INDEX_VERSION = ''2''"

definition index_dir :: "string \<Rightarrow> string" where
  "index_dir hexpart = ''indexes/'' @ hexpart @ ''/sqlite-fts5-v1''"

section \<open>Resolving the reference\<close>

definition read_metadata :: "sqlite \<Rightarrow> string \<Rightarrow> string \<Rightarrow> string option" where
  "read_metadata sq bytes key = (case sql_metadata sq bytes key of None \<Rightarrow> None | Some row \<Rightarrow> row)"

text \<open>The identifier in the bytes of the reference.\<close>

definition index_reference :: "string \<Rightarrow> string res" where
  "index_reference raw =
     (let text = (if raw \<noteq> [] \<and> last raw = newline then butlast raw else []) in
      if list_all is_ascii text then bare_digest text else raise UnicodeDecodeError ''ascii'')"

definition index_resolution :: "sqlite \<Rightarrow> string \<Rightarrow> os \<Rightarrow> (string option \<times> string) res" where
  "index_resolution sq revision s =
     andthen (bare_digest revision) (\<lambda>hexpart.
       case bytes_at (index_dir hexpart @ ''/CURRENT'') s of
         None \<Rightarrow> Inr (None, ''index_unavailable'')
       | Some raw \<Rightarrow>
           (case index_reference raw of
              Inl e \<Rightarrow> Inr (None, ''index_unresolvable'')
            | Inr found \<Rightarrow>
                let target = index_dir hexpart @ ''/'' @ found @ ''.sqlite'' in
                (case bytes_at target s of
                   None \<Rightarrow> Inr (None, ''index_unresolvable'')
                 | Some bytes \<Rightarrow>
                     if read_metadata sq bytes ''index_version'' = Some INDEX_VERSION
                     then Inr (Some target, ''none'') else Inr (None, ''index_obsolete''))))"

definition path_stem :: "string \<Rightarrow> string" where
  "path_stem p = (let name = base_name p in take (length name - length ''.sqlite'') name)"

definition index_integrity_status :: "string \<Rightarrow> os \<Rightarrow> string" where
  "index_integrity_status p s =
     (case bytes_at p s of
        None \<Rightarrow> ''index_unresolvable''
      | Some bytes \<Rightarrow> if sha256_hex bytes = path_stem p then ''none'' else ''index_hash_mismatch'')"

definition verify_index_deep :: "nat \<Rightarrow> sqlite \<Rightarrow> string option \<Rightarrow> os \<Rightarrow> json res" where
  "verify_index_deep n sq revision s =
     andthen (snapshot_at n revision True s) (\<lambda>snap.
     andthen (index_resolution sq (snap_revision snap) s) (\<lambda>(path, status).
       let bad = (\<lambda>code. mk_obj [(''ok'', JBool False), (''revision'', JStr (snap_revision snap)), (''degradation'', JStr code)]) in
       case path of
         None \<Rightarrow> Inr (bad status)
       | Some p \<Rightarrow>
           (case bytes_at p s of
              None \<Rightarrow> Inr (bad ''index_unresolvable'')
            | Some payload \<Rightarrow>
                Inr (mk_obj [(''ok'', JBool (digest_bytes payload = ''sha256:'' @ path_stem p)),
                  (''revision'', JStr (snap_revision snap)), (''index'', JStr p),
                  (''expected'', JStr (''sha256:'' @ path_stem p)), (''actual'', JStr (digest_bytes payload))]))))"

section \<open>Building a generation\<close>

definition indexed_text :: "json \<Rightarrow> (json \<times> string) option" where
  "indexed_text record =
     (if is_active record \<and> record_text record \<noteq> [] then Some (get ''id'' record, record_text record) else None)"

definition indexed_rows :: "rows \<Rightarrow> (string \<times> (json \<times> string) list) list" where
  "indexed_rows records = map (\<lambda>stream. (stream, List.map_filter indexed_text (records stream))) STREAMS"

definition skipped_no_text :: "rows \<Rightarrow> nat" where
  "skipped_no_text records =
     sum_list (map (\<lambda>stream. length (filter (\<lambda>r. is_active r \<and> record_text r = []) (records stream))) STREAMS)"

definition index_metadata :: "string \<Rightarrow> (string \<times> string) list" where
  "index_metadata revision =
     [(''schema'', ''an-kla/index-v2''), (''revision'', revision), (''profile'', INDEX_PROFILE),
      (''index_version'', INDEX_VERSION)]"

definition index_report :: "string \<Rightarrow> string \<Rightarrow> string \<Rightarrow> rows \<Rightarrow> json" where
  "index_report revision directory hash records = mk_obj
     [(''profile'', JStr INDEX_PROFILE), (''revision'', JStr revision),
      (''index'', JStr (directory @ ''/'' @ drop 7 hash @ ''.sqlite'')), (''index_hash'', JStr hash),
      (''index_reference'', JStr (directory @ ''/CURRENT'')), (''index_version'', JStr INDEX_VERSION),
      (''indexed_per_stream'', mk_obj (map (\<lambda>(stream, xs). (stream, JInt (int (length xs)))) (indexed_rows records))),
      (''skipped_no_text'', JInt (int (skipped_no_text records)))]"

text \<open>The database is built in a temporary file outside the store, then put under its digest and
  selected.\<close>

definition store_index :: "string \<Rightarrow> string \<Rightarrow> string \<Rightarrow> rows \<Rightarrow> json io" where
  "store_index revision directory payload records =
     (let hash = digest_bytes payload in
      bind_io (write_immutable (directory @ ''/'' @ drop 7 hash @ ''.sqlite'') payload) (\<lambda>_.
      bind_io (atomic_write (directory @ ''/CURRENT'') (hash @ [newline])) (\<lambda>_.
        ret (index_report revision directory hash records))))"

definition built_database :: "sqlite \<Rightarrow> string \<Rightarrow> rows \<Rightarrow> string res" where
  "built_database sq revision records =
     (case sql_build sq (index_metadata revision) (indexed_rows records) of
        None \<Rightarrow> raise DatabaseError ''sqlite'' | Some payload \<Rightarrow> Inr payload)"

definition remove_temporary :: "'a res \<Rightarrow> 'a io" where
  "remove_temporary r s =
     (case effect raw_os_error id s of (Inl e, t) \<Rightarrow> (Inl e, t) | (Inr _, t) \<Rightarrow> (r, t))"

definition build_index :: "nat \<Rightarrow> sqlite \<Rightarrow> string option \<Rightarrow> json io" where
  "build_index n sq revision =
     bind_io (asks (snapshot_at n revision True)) (\<lambda>snap.
       if \<not> sql_fts5 sq
       then ret (mk_obj [(''profile'', JStr ''scan-fallback/v1''), (''revision'', JStr (snap_revision snap)),
                         (''index'', JNull), (''degradation'', JStr ''fts5_unavailable'')])
       else bind_io (lift (bare_digest (snap_revision snap))) (\<lambda>hexpart.
         bind_io (effect raw_os_error id) (\<lambda>_.
         bind_io (effect raw_os_error id) (\<lambda>_.
           finally_io (bind_io (lift (built_database sq (snap_revision snap) (snap_records snap))) (\<lambda>payload.
                        store_index (snap_revision snap) (index_dir hexpart) payload (snap_records snap)))
             remove_temporary))))"

section \<open>Narrowing a query\<close>

definition narrow_with_index :: "sqlite \<Rightarrow> string \<Rightarrow> string \<Rightarrow> string \<Rightarrow> string list \<Rightarrow> string list option" where
  "narrow_with_index sq bytes revision clause searched =
     (case sql_metadata sq bytes ''revision'' of
        Some (Some claimed) \<Rightarrow>
          if claimed \<noteq> revision then None
          else Some (concat (map (\<lambda>stream. case sql_match sq bytes stream clause of None \<Rightarrow> [] | Some ids \<Rightarrow> ids) searched))
      | _ \<Rightarrow> None)"

section \<open>A built index resolves\<close>

lemma index_stem [simp]: "path_stem (d @ ''/'' @ sha256_hex b @ ''.sqlite'') = sha256_hex b"
proof -
  have "CHR ''/'' \<notin> set (sha256_hex b)"
    using sha256_hex_lower_hex[of b] by (auto simp: list_all_iff is_lower_hex_def is_digit_def)
  then have "base_name (d @ ''/'' @ sha256_hex b @ ''.sqlite'') = sha256_hex b @ ''.sqlite''"
    by (intro base_name_append) auto
  then show ?thesis by (simp add: path_stem_def)
qed

lemma index_reference_digest [simp]: "index_reference (digest_bytes b @ [newline]) = Inr (sha256_hex b)"
proof -
  have "list_all is_ascii (digest_bytes b)"
    using sha256_hex_lower_hex[of b]
    by (auto simp: digest_bytes_def list_all_iff is_ascii_def is_lower_hex_def is_digit_def)
  then show ?thesis by (simp add: index_reference_def)
qed

lemma store_index_done:
  assumes run: "store_index revision directory payload records s = (Inr report, t)"
  shows "report = index_report revision directory (digest_bytes payload) records"
    and "bytes_at (directory @ ''/CURRENT'') t = Some (digest_bytes payload @ [newline])"
    and "bytes_at (directory @ ''/'' @ sha256_hex payload @ ''.sqlite'') t = Some payload"
proof -
  let ?target = "directory @ ''/'' @ sha256_hex payload @ ''.sqlite''" and ?ref = "directory @ ''/CURRENT''"
  have hex: "drop 7 (digest_bytes payload) = sha256_hex payload" by (simp add: digest_bytes_def)
  obtain u s1 v where w: "write_immutable ?target payload s = (Inr u, s1)"
    and a: "atomic_write ?ref (digest_bytes payload @ [newline]) s1 = (Inr v, t)"
    and r: "report = index_report revision directory (digest_bytes payload) records"
    using run by (auto simp: store_index_def Let_def hex bind_io_def ret_def split: prod.splits sum.splits)
  show "report = index_report revision directory (digest_bytes payload) records" by (fact r)
  note spec = atomic_write_spec[OF a]
  show "bytes_at ?ref t = Some (digest_bytes payload @ [newline])" using spec by simp
  have "CHR ''/'' \<notin> set (sha256_hex payload)"
    using sha256_hex_lower_hex[of payload] by (auto simp: list_all_iff is_lower_hex_def is_digit_def)
  then have base: "base_name ?target = sha256_hex payload @ ''.sqlite''" by (intro base_name_append) auto
  have "base_name ?ref = ''CURRENT''" using base_name_append[of "''CURRENT''" directory] by simp
  then have "?target \<noteq> ?ref" using base by auto
  moreover have "?target \<noteq> temporary_name ?ref (next_uuid s1)"
  proof
    assume eq: "?target = temporary_name ?ref (next_uuid s1)"
    have "hidden ?target" unfolding eq by (rule hidden_temporary) (simp add: next_uuid_def hex32_no_slash)
    then have "hd (sha256_hex payload @ ''.sqlite'') = CHR ''.''"
      unfolding hidden_def base by (cases "sha256_hex payload") (auto simp: prefix_def)
    moreover obtain c cs where "sha256_hex payload = c # cs"
      by (metis length_sha256_hex list.exhaust list.size(3) zero_neq_numeral)
    ultimately show False using sha256_hex_lower_hex[of payload] by (simp add: is_lower_hex_def is_digit_def)
  qed
  ultimately show "bytes_at ?target t = Some payload"
    using spec write_immutable_written[OF w] by (simp add: same_on_def)
qed

lemma remove_temporary_done:
  assumes "finally_io m remove_temporary s = (Inr a, t)"
  obtains u where "m s = (Inr a, u)" "\<And>p. bytes_at p t = bytes_at p u"
proof -
  obtain r u where m: "m s = (r, u)" by fastforce
  obtain x v where e: "effect raw_os_error id u = (x, v)" by fastforce
  have "r = Inr a" "t = v"
    using assms m e by (auto simp: finally_io_def remove_temporary_def split: sum.splits)
  then show ?thesis using that m effect_cases[OF e] by auto
qed

definition generation :: "snapshot \<Rightarrow> string \<Rightarrow> json \<Rightarrow> os \<Rightarrow> bool" where
  "generation snap payload report t \<longleftrightarrow>
     (let directory = index_dir (drop 7 (snap_revision snap)) in
      digest_shape (snap_revision snap) \<and>
      report = index_report (snap_revision snap) directory (digest_bytes payload) (snap_records snap) \<and>
      bytes_at (directory @ ''/CURRENT'') t = Some (digest_bytes payload @ [newline]) \<and>
      bytes_at (directory @ ''/'' @ sha256_hex payload @ ''.sqlite'') t = Some payload)"

lemma generationD:
  assumes "generation snap payload report t"
  defines "directory \<equiv> index_dir (drop 7 (snap_revision snap))"
  shows "digest_shape (snap_revision snap)"
    and "report = index_report (snap_revision snap) directory (digest_bytes payload) (snap_records snap)"
    and "bytes_at (directory @ ''/CURRENT'') t = Some (digest_bytes payload @ [newline])"
    and "bytes_at (directory @ ''/'' @ sha256_hex payload @ ''.sqlite'') t = Some payload"
  using assms(1) by (simp_all add: generation_def directory_def Let_def)

lemma build_index_done:
  assumes run: "build_index n sq revision s = (Inr report, t)" and fts: "sql_fts5 sq"
  shows "\<exists>snap payload. generation snap payload report t"
proof -
  obtain snap hexpart s1 where snap: "snapshot_at n revision True s = Inr snap" "bare_digest (snap_revision snap) = Inr hexpart"
    and f: "finally_io (bind_io (lift (built_database sq (snap_revision snap) (snap_records snap))) (\<lambda>payload.
        store_index (snap_revision snap) (index_dir hexpart) payload (snap_records snap))) remove_temporary s1 = (Inr report, t)"
    using run fts by (auto simp: build_index_def bind_io_def asks_def lift_def split: prod.splits sum.splits)
  obtain u where u: "bind_io (lift (built_database sq (snap_revision snap) (snap_records snap))) (\<lambda>payload.
        store_index (snap_revision snap) (index_dir hexpart) payload (snap_records snap)) s1 = (Inr report, u)"
    "\<And>p. bytes_at p t = bytes_at p u" by (rule remove_temporary_done[OF f]) (rule that)
  obtain payload where "store_index (snap_revision snap) (index_dir hexpart) payload (snap_records snap) s1 = (Inr report, u)"
    using u(1) by (auto simp: bind_io_def lift_def split: sum.splits)
  from store_index_done[OF this] have "generation snap payload report t"
    using snap(2) u(2) by (simp add: generation_def bare_digest_Inr_iff)
  then show ?thesis by blast
qed

text \<open>An index that \<open>build_index\<close> reports is there: its bytes have the reported digest and pass the
  integrity check, and as long as SQLite reads the version back from them, resolving the index of the
  revision finds exactly this generation.\<close>

theorem built_index_resolves:
  "case build_index n sq revision s of
     (Inr report, t) \<Rightarrow>
       if get ''index'' report = JNull then True
       else \<exists>r target bytes. get ''revision'' report = JStr r \<and> get ''index'' report = JStr target \<and>
         bytes_at target t = Some bytes \<and> get ''index_hash'' report = JStr (digest_bytes bytes) \<and>
         index_integrity_status target t = ''none'' \<and>
         (if read_metadata sq bytes ''index_version'' = Some INDEX_VERSION
          then index_resolution sq r t = Inr (Some target, ''none'') else True)
   | _ \<Rightarrow> True"
proof (cases "build_index n sq revision s")
  case (Pair r t)
  show ?thesis
  proof (cases r)
    case (Inr report)
    show ?thesis
    proof (cases "sql_fts5 sq")
      case True
      obtain snap payload where "generation snap payload report t"
        using build_index_done[OF Pair[unfolded Inr] True] by blast
      note built = generationD[OF this]
      let ?dir = "index_dir (drop 7 (snap_revision snap))"
      have hex: "drop 7 (digest_bytes payload) = sha256_hex payload" by (simp add: digest_bytes_def)
      have report: "get ''revision'' report = JStr (snap_revision snap)"
        "get ''index'' report = JStr (?dir @ ''/'' @ sha256_hex payload @ ''.sqlite'')"
        "get ''index_hash'' report = JStr (digest_bytes payload)"
        by (simp_all add: built(2) index_report_def hex)
      have "index_integrity_status (?dir @ ''/'' @ sha256_hex payload @ ''.sqlite'') t = ''none''"
        using built(4) index_stem[of ?dir payload] by (simp add: index_integrity_status_def)
      moreover have "index_resolution sq (snap_revision snap) t = Inr (Some (?dir @ ''/'' @ sha256_hex payload @ ''.sqlite''), ''none'')"
        if "read_metadata sq payload ''index_version'' = Some INDEX_VERSION"
        using built(1,3,4) that index_reference_digest[of payload]
        by (simp add: index_resolution_def bare_digest_Inr_iff[THEN iffD2] Let_def)
      ultimately show ?thesis using Pair Inr report built(4) by auto
    next
      case False
      then have "get ''index'' report = JNull"
        using Pair Inr by (auto simp: build_index_def bind_io_def asks_def ret_def split: prod.splits sum.splits)
      then show ?thesis using Pair Inr by simp
    qed
  qed (use Pair in simp)
qed

end
