(* ===== verification/Retrieval.thy ===== *)
theory Retrieval
  imports Index Temporal "HOL-Library.Product_Lexorder" "HOL-Library.Multiset"
begin

text \<open>
  Retrieval of records under a byte budget (\<open>retrieval.py\<close>): the ranking of the active records by shared
  terms, the optional narrowing by the index, the greedy selection and the report. The theorems: the
  index never changes the answer, every record is accounted for once, what is selected is a ranked
  sequence of active records that fits the budget, and the empty reason is what its truth table says.
\<close>

section \<open>Terms\<close>

text \<open>
  The character database of Python: which characters \<open>\w\<close> matches and \<open>str.casefold\<close>. A character is
  the bytes of its UTF-8 encoding.
\<close>

record lexicon =
  word_char :: "string \<Rightarrow> bool"
  casefold :: "string \<Rightarrow> string"

definition continues :: "char \<Rightarrow> bool" where
  "continues c \<longleftrightarrow> (of_char c :: nat) div 64 = 2"

function characters :: "string \<Rightarrow> string list" where
  "characters [] = []"
| "characters (c # s) = (c # takeWhile continues s) # characters (dropWhile continues s)"
  by pat_completeness auto
termination by (relation "measure length") (auto simp: le_imp_less_Suc length_dropWhile_le)

text \<open>The maximal runs of word characters, \<open>TOKEN.findall\<close>; \<open>cur\<close> is the run that is open.\<close>

fun word_runs :: "(string \<Rightarrow> bool) \<Rightarrow> string \<Rightarrow> string list \<Rightarrow> string list" where
  "word_runs word cur [] = (if cur = [] then [] else [cur])"
| "word_runs word cur (c # cs) =
     (if word c then word_runs word (cur @ c) cs
      else (if cur = [] then [] else [cur]) @ word_runs word [] cs)"

definition tokens :: "lexicon \<Rightarrow> string \<Rightarrow> string list" where
  "tokens lx text = word_runs (word_char lx) [] (characters text)"

definition terms_of :: "lexicon \<Rightarrow> string \<Rightarrow> string list" where
  "terms_of lx text = remdups (map (casefold lx) (tokens lx text))"

definition match_clause :: "lexicon \<Rightarrow> string \<Rightarrow> string option" where
  "match_clause lx query =
     (if tokens lx query = [] then None
      else Some (join '' OR '' (map (\<lambda>t. [CHR 0x22] @ t @ [CHR 0x22]) (tokens lx query))))"

section \<open>Ranking\<close>

record hit =
  hit_score :: nat
  hit_id :: string
  hit_record :: json
  hit_render :: string
  hit_stream :: string

datatype verdict = Inactive string | Invalid | No_Text string | Ranked hit

definition classify :: "lexicon \<Rightarrow> string \<Rightarrow> string \<Rightarrow> json \<Rightarrow> verdict" where
  "classify lx query stream record =
     (if \<not> is_active record then Inactive (row_id record)
      else if \<not> truthy (get ''id'' record) then Invalid
      else if record_text record = [] then No_Text (py_str (get ''id'' record))
      else Ranked \<lparr>hit_score = length (filter (\<lambda>t. t \<in> set (terms_of lx (record_text record))) (terms_of lx query)),
             hit_id = py_str (get ''id'' record), hit_record = record, hit_render = record_text record,
             hit_stream = stream\<rparr>)"

definition verdicts :: "lexicon \<Rightarrow> string \<Rightarrow> string list \<Rightarrow> rows \<Rightarrow> verdict list" where
  "verdicts lx query searched records =
     concat (map (\<lambda>stream. map (classify lx query stream) (records stream)) searched)"

fun the_hit :: "verdict \<Rightarrow> hit option" where
  "the_hit (Ranked h) = Some h"
| "the_hit _ = None"

fun the_inactive :: "verdict \<Rightarrow> string option" where
  "the_inactive (Inactive i) = Some i"
| "the_inactive _ = None"

fun the_no_text :: "verdict \<Rightarrow> string option" where
  "the_no_text (No_Text i) = Some i"
| "the_no_text _ = None"

definition rank_key :: "hit \<Rightarrow> int \<times> string" where
  "rank_key h = (- int (hit_score h), hit_id h)"

definition ranked :: "verdict list \<Rightarrow> hit list" where
  "ranked vs = sort_key rank_key (List.map_filter the_hit vs)"

definition scored :: "verdict list \<Rightarrow> hit list" where
  "scored vs = filter (\<lambda>h. hit_score h \<noteq> 0) (ranked vs)"

definition unscored :: "verdict list \<Rightarrow> string list" where
  "unscored vs = map hit_id (filter (\<lambda>h. hit_score h = 0) (ranked vs))"

section \<open>Narrowing by the index\<close>

definition SCAN_PROFILE :: string where
  "SCAN_PROFILE = ''scan-fallback/v1''"

text \<open>The hits that stay, the profile that was used and the degradation; first for an index file.\<close>

definition narrow_in ::
    "sqlite \<Rightarrow> string \<Rightarrow> string \<Rightarrow> string \<Rightarrow> string list \<Rightarrow> os \<Rightarrow> hit list \<Rightarrow> hit list \<times> string \<times> string" where
  "narrow_in sq p revision clause searched s hits =
     (if index_integrity_status p s \<noteq> ''none'' then (hits, SCAN_PROFILE, index_integrity_status p s)
      else case narrow_with_index sq (case bytes_at p s of None \<Rightarrow> [] | Some b \<Rightarrow> b) revision clause searched of
          None \<Rightarrow> (hits, SCAN_PROFILE, ''index_unresolvable'')
        | Some found \<Rightarrow>
            if list_ex (\<lambda>h. hit_score h > 0 \<and> hit_id h \<notin> set found) hits
            then (hits, SCAN_PROFILE, ''index_candidate_mismatch'')
            else (filter (\<lambda>h. hit_id h \<in> set found) hits, INDEX_PROFILE, ''none''))"

definition narrow_hits ::
    "lexicon \<Rightarrow> sqlite \<Rightarrow> string \<Rightarrow> string \<Rightarrow> string \<Rightarrow> string list \<Rightarrow> os \<Rightarrow> hit list \<Rightarrow> (hit list \<times> string \<times> string) res" where
  "narrow_hits lx sq query profile revision searched s hits =
     (case match_clause lx query of
        None \<Rightarrow> Inr (hits, SCAN_PROFILE, ''none'')
      | Some clause \<Rightarrow>
          if profile \<noteq> INDEX_PROFILE \<or> terms_of lx query = [] then Inr (hits, SCAN_PROFILE, ''none'')
          else if \<not> sql_fts5 sq then Inr (hits, SCAN_PROFILE, ''fts5_unavailable'')
          else andthen (index_resolution sq revision s) (\<lambda>(path, status).
            Inr (case path of
              None \<Rightarrow> (hits, SCAN_PROFILE, status)
            | Some p \<Rightarrow> narrow_in sq p revision clause searched s hits)))"

section \<open>Selection\<close>

definition hit_item :: "hit \<Rightarrow> int \<Rightarrow> json" where
  "hit_item h cost = mk_obj
     [(''id'', JStr (hit_id h)), (''stream'', JStr (hit_stream h)), (''score'', JInt (int (hit_score h))),
      (''render'', JStr (hit_render h)), (''cost_bytes'', JInt cost)]"

definition hit_cost :: "int \<Rightarrow> hit \<Rightarrow> int" where
  "hit_cost per h = int (length (hit_render h)) + per"

text \<open>The items, the identifiers that did not fit, and the bytes used. \<open>fresh\<close> is the projection of
  the freshness of a record, if it was asked for.\<close>

fun select_hits :: "(json \<Rightarrow> json res) \<Rightarrow> int \<Rightarrow> int \<Rightarrow> hit list \<Rightarrow> int \<Rightarrow> (json list \<times> string list \<times> int) res" where
  "select_hits fresh budget per [] used = Inr ([], [], used)"
| "select_hits fresh budget per (h # hs) used =
     (if used + hit_cost per h > budget
      then andthen (select_hits fresh budget per hs used) (\<lambda>(items, dropped, spent).
             Inr (items, hit_id h # dropped, spent))
      else andthen (fresh (hit_record h)) (\<lambda>extra.
           andthen (select_hits fresh budget per hs (used + hit_cost per h)) (\<lambda>(items, dropped, spent).
             Inr (update_obj (hit_item h (hit_cost per h)) (dict_items extra) # items, dropped, spent))))"

section \<open>The request\<close>

record retrieval_request =
  rq_query :: string
  rq_budget :: int
  rq_fixed :: int
  rq_per_record :: int
  rq_profile :: string
  rq_streams :: "string list option"
  rq_freshness :: "string option"
  rq_now :: "clock option"
  rq_stale :: json
  rq_revision :: "string option"

definition value_raise :: "string \<Rightarrow> exn" where
  "value_raise code = Exn ValueError code None"

definition temporal_raise :: "string \<Rightarrow> exn" where
  "temporal_raise code = Exn TemporalError code None"

text \<open>The clock the freshness is computed at and the threshold; \<open>here\<close> is the clock of the host.\<close>

definition request_freshness :: "clock \<Rightarrow> retrieval_request \<Rightarrow> (datetime \<times> int option) option res" where
  "request_freshness here rq =
     (case rq_freshness rq of
        None \<Rightarrow> andthen (ensure (rq_now rq = None \<and> rq_stale rq = JNull) (temporal_raise ''freshness_profile_required''))
                 (\<lambda>_. Inr None)
      | Some p \<Rightarrow>
          if p \<noteq> ''computed-age/v1'' then Inl (temporal_raise ''unsupported_freshness_profile'')
          else andthen (normalize_freshness_now (case rq_now rq of None \<Rightarrow> here | Some c \<Rightarrow> c)) (\<lambda>now.
               andthen (validate_stale_after_days (rq_stale rq)) (\<lambda>threshold. Inr (Some (now, threshold)))))"

definition searched_streams :: "retrieval_request \<Rightarrow> string list" where
  "searched_streams rq = rev (remdups (rev (case rq_streams rq of None \<Rightarrow> [''facts''] | Some xs \<Rightarrow> xs)))"

definition check_request :: "clock \<Rightarrow> retrieval_request \<Rightarrow> (datetime \<times> int option) option res" where
  "check_request here rq =
     andthen (checks
       [ensure (\<not> rq_budget rq < 0) (value_raise ''negative_budget''),
        ensure (\<not> (rq_fixed rq < 0 \<or> rq_per_record rq < 0)) (value_raise ''negative_overhead''),
        ensure (\<not> rq_fixed rq > rq_budget rq) (value_raise ''fixed_overhead_exceeds_budget''),
        ensure (rq_profile rq \<in> {SCAN_PROFILE, INDEX_PROFILE}) (value_raise ''unsupported_retrieval_profile'')]) (\<lambda>_.
     andthen (request_freshness here rq) (\<lambda>fresh.
     andthen (ensure (searched_streams rq \<noteq> [] \<and> list_all (\<lambda>x. x \<in> set STREAMS) (searched_streams rq))
       (value_raise ''unsupported_retrieval_stream'')) (\<lambda>_. Inr fresh)))"

section \<open>The report\<close>

definition EXCLUDED_DETAIL_CAP :: nat where
  "EXCLUDED_DETAIL_CAP = 50"

text \<open>The exclusions: the name of the reason, its count, and the identifiers when they are tracked.\<close>

definition exclusions :: "verdict list \<Rightarrow> string list \<Rightarrow> (string \<times> nat \<times> string list) list" where
  "exclusions vs dropped =
     (let inactive = List.map_filter the_inactive vs; no_text = List.map_filter the_no_text vs;
          zero = unscored vs; invalid = length (filter (\<lambda>v. v = Invalid) vs) in
      [(''inactive'', length inactive, inactive), (''zero_score'', length zero, zero),
       (''budget'', length dropped, dropped), (''invalid_record'', invalid, []),
       (''no_text'', length no_text, no_text)])"

definition excluded_summary :: "(string \<times> nat \<times> string list) list \<Rightarrow> json" where
  "excluded_summary ex =
     mk_obj (map (\<lambda>(reason, n, _). (reason, JInt (int n))) (filter (\<lambda>(_, n, _). n \<noteq> 0) ex))"

definition excluded_detail :: "(string \<times> nat \<times> string list) list \<Rightarrow> json" where
  "excluded_detail ex =
     (let tracked = filter (\<lambda>(_, _, ids). ids \<noteq> []) ex in
      mk_obj [(''ids'', mk_obj (map (\<lambda>(reason, _, ids). (reason, JArr (map JStr (take EXCLUDED_DETAIL_CAP ids)))) tracked)),
              (''truncated'', mk_obj (map (\<lambda>(reason, n, ids). (reason, JBool (n > length (take EXCLUDED_DETAIL_CAP ids)))) tracked)),
              (''cap'', JInt (int EXCLUDED_DETAIL_CAP))])"

definition empty_reason_for :: "json \<Rightarrow> nat \<Rightarrow> string option" where
  "empty_reason_for result transport =
     (let summary = get ''excluded_summary'' result in
      if truthy (get ''selected'' result) then None
      else if transport \<noteq> 0 then None
      else if has_key ''budget'' summary then None
      else if (case get ''zero_score'' summary of JInt n \<Rightarrow> n < 1 | _ \<Rightarrow> True) then None
      else Some ''no_lexical_overlap'')"

definition freshness_fields :: "(datetime \<times> int option) option \<Rightarrow> json list \<Rightarrow> (string \<times> json) list" where
  "freshness_fields fresh selected =
     (case fresh of
        None \<Rightarrow> []
      | Some (now, threshold) \<Rightarrow>
          (let c = summarize_freshness selected in
           [(''freshness_profile'', JStr ''computed-age/v1''),
            (''freshness'', mk_obj
              [(''semantics'', JStr ''self_asserted_timestamp''), (''source_field'', JStr ''record.verified_at''),
               (''computed_at'', JStr (format_fields now)),
               (''stale_after_days'', case threshold of None \<Rightarrow> JNull | Some n \<Rightarrow> JInt n),
               (''evaluated'', JInt (int (evaluated c))), (''not_evaluable'', JInt (int (not_evaluable c))),
               (''unparseable'', JInt (int (unparseable c))), (''stale'', JInt (int (stale c)))])]))"

definition result_fields ::
    "retrieval_request \<Rightarrow> string \<Rightarrow> string \<Rightarrow> string \<Rightarrow> (string \<times> nat \<times> string list) list \<Rightarrow> json list \<Rightarrow> int \<Rightarrow>
     (string \<times> json) list" where
  "result_fields rq revision profile degradation ex selected used =
     [(''schema'', JStr ''an-kla/retrieval-result-v1''), (''revision'', JStr revision),
      (''requested_profile'', JStr (rq_profile rq)), (''profile'', JStr profile), (''degradation'', JStr degradation),
      (''streams_searched'', JArr (map JStr (searched_streams rq))), (''budget_bytes'', JInt (rq_budget rq)),
      (''used_bytes'', JInt used),
      (''reserved_overhead_bytes'', mk_obj [(''fixed'', JInt (rq_fixed rq)), (''per_record'', JInt (rq_per_record rq))]),
      (''excluded_summary'', excluded_summary ex), (''excluded_detail'', excluded_detail ex),
      (''selected'', JArr selected)]"

definition retrieval_body ::
    "retrieval_request \<Rightarrow> string \<Rightarrow> string \<Rightarrow> string \<Rightarrow> (string \<times> nat \<times> string list) list \<Rightarrow> json list \<Rightarrow> int \<Rightarrow>
     (datetime \<times> int option) option \<Rightarrow> json" where
  "retrieval_body rq revision profile degradation ex selected used fresh =
     update_obj (mk_obj (result_fields rq revision profile degradation ex selected used)) (freshness_fields fresh selected)"

definition finish_result :: "(datetime \<times> int option) option \<Rightarrow> json \<Rightarrow> json" where
  "finish_result fresh body =
     (case empty_reason_for body 0 of
        Some reason \<Rightarrow> update_obj body [(''empty_reason'', JStr reason), (''schema'', JStr ''an-kla/retrieval-result-v3'')]
      | None \<Rightarrow> if fresh \<noteq> None then update_obj body [(''schema'', JStr ''an-kla/retrieval-result-v2'')] else body)"

definition project_fresh :: "(datetime \<times> int option) option \<Rightarrow> json \<Rightarrow> json res" where
  "project_fresh fresh record =
     (case fresh of
        None \<Rightarrow> Inr (mk_obj [])
      | Some (now, threshold) \<Rightarrow>
          project_record_freshness record (now, Some 0) (case threshold of None \<Rightarrow> JNull | Some n \<Rightarrow> JInt n))"

text \<open>What is computed from the snapshot.\<close>

definition retrieve_from ::
    "lexicon \<Rightarrow> sqlite \<Rightarrow> retrieval_request \<Rightarrow> (datetime \<times> int option) option \<Rightarrow> snapshot \<Rightarrow> os \<Rightarrow> json res" where
  "retrieve_from lx sq rq fresh snap s =
     (let vs = verdicts lx (rq_query rq) (searched_streams rq) (snap_records snap) in
      andthen (narrow_hits lx sq (rq_query rq) (rq_profile rq) (snap_revision snap) (searched_streams rq) s (scored vs))
        (\<lambda>(hits, profile, degradation).
      andthen (select_hits (project_fresh fresh) (rq_budget rq) (rq_per_record rq) hits (rq_fixed rq))
        (\<lambda>(selected, dropped, used).
        Inr (finish_result fresh
          (retrieval_body rq (snap_revision snap) profile degradation (exclusions vs dropped) selected used fresh)))))"

definition retrieve :: "nat \<Rightarrow> lexicon \<Rightarrow> sqlite \<Rightarrow> clock \<Rightarrow> retrieval_request \<Rightarrow> os \<Rightarrow> json res" where
  "retrieve n lx sq here rq s =
     andthen (check_request here rq) (\<lambda>fresh.
     andthen (snapshot_at n (rq_revision rq) True s) (\<lambda>snap.
       retrieve_from lx sq rq fresh snap s))"

section \<open>The index never changes the answer\<close>

lemma narrow_in_same:
  "(\<And>h. h \<in> set hits \<Longrightarrow> hit_score h \<noteq> 0) \<Longrightarrow> fst (narrow_in sq p revision clause searched s hits) = hits"
  by (auto simp: narrow_in_def list_ex_iff filter_id_conv split: option.split)

lemma narrow_hits_same:
  assumes n: "narrow_hits lx sq query profile revision searched s hits = Inr (hits', used_profile, degradation)"
    and pos: "\<And>h. h \<in> set hits \<Longrightarrow> hit_score h \<noteq> 0"
  shows "hits' = hits"
proof -
  have same: "hits' = hits" if "narrow_in sq p revision clause searched s hits = (hits', used_profile, degradation)" for p clause
    using narrow_in_same[of hits sq p revision clause searched s] pos that by simp
  show ?thesis
    using n same by (auto simp: narrow_hits_def split: option.splits if_split_asm)
qed

lemma narrow_hits_scan: "narrow_hits lx sq query SCAN_PROFILE revision searched s hits = Inr (hits, SCAN_PROFILE, ''none'')"
  by (simp add: narrow_hits_def SCAN_PROFILE_def INDEX_PROFILE_def split: option.split)

lemma searched_streams_profile [simp]: "searched_streams (rq\<lparr>rq_profile := p\<rparr>) = searched_streams rq"
  by (simp add: searched_streams_def)

lemma request_freshness_profile [simp]: "request_freshness here (rq\<lparr>rq_profile := p\<rparr>) = request_freshness here rq"
  by (simp add: request_freshness_def split: option.split)

lemma check_request_scan:
  "check_request here rq = Inr fresh \<Longrightarrow> check_request here (rq\<lparr>rq_profile := SCAN_PROFILE\<rparr>) = Inr fresh"
  by (auto simp: check_request_def checks.simps)

lemma retrieve_fromE:
  assumes "retrieve_from lx sq rq fresh snap s = Inr r"
  obtains profile degradation selected dropped used where
    "select_hits (project_fresh fresh) (rq_budget rq) (rq_per_record rq)
       (scored (verdicts lx (rq_query rq) (searched_streams rq) (snap_records snap))) (rq_fixed rq) =
     Inr (selected, dropped, used)"
    "r = finish_result fresh (retrieval_body rq (snap_revision snap) profile degradation
       (exclusions (verdicts lx (rq_query rq) (searched_streams rq) (snap_records snap)) dropped) selected used fresh)"
proof -
  let ?vs = "verdicts lx (rq_query rq) (searched_streams rq) (snap_records snap)"
  obtain hits profile degradation where
    n: "narrow_hits lx sq (rq_query rq) (rq_profile rq) (snap_revision snap) (searched_streams rq) s (scored ?vs) =
      Inr (hits, profile, degradation)"
    and r: "andthen (select_hits (project_fresh fresh) (rq_budget rq) (rq_per_record rq) hits (rq_fixed rq))
        (\<lambda>(selected, dropped, used). Inr (finish_result fresh
          (retrieval_body rq (snap_revision snap) profile degradation (exclusions ?vs dropped) selected used fresh))) = Inr r"
    using assms by (auto simp: retrieve_from_def Let_def)
  have "hits = scored ?vs" by (rule narrow_hits_same[OF n]) (simp add: scored_def)
  then show ?thesis using r that by auto
qed

text \<open>The fields that say how the answer was found.\<close>

definition profile_fields :: "string list" where
  "profile_fields = [''requested_profile'', ''profile'', ''degradation'']"

lemma get_mk_obj_outside:
  assumes "filter (\<lambda>kv. fst kv \<notin> P) xs = filter (\<lambda>kv. fst kv \<notin> P) ys" and "k \<notin> P"
  shows "get k (mk_obj xs) = get k (mk_obj ys)"
proof -
  have "map_of (filter (\<lambda>kv. fst kv \<notin> P) zs) k = map_of zs k" for zs :: "(string \<times> json) list"
    using assms(2) by (induction zs) auto
  from this[of "rev xs"] this[of "rev ys"] have "map_of (rev xs) k = map_of (rev ys) k"
    using assms(1) by (metis rev_filter)
  then show ?thesis by simp
qed

lemma body_same:
  assumes "k \<notin> set profile_fields"
  shows "get k (retrieval_body (rq\<lparr>rq_profile := p\<rparr>) revision profile degradation ex selected used fresh) =
    get k (retrieval_body rq revision profile' degradation' ex selected used fresh)"
proof -
  have "get k (mk_obj (result_fields (rq\<lparr>rq_profile := p\<rparr>) revision profile degradation ex selected used)) =
      get k (mk_obj (result_fields rq revision profile' degradation' ex selected used))"
    by (rule get_mk_obj_outside[OF _ assms]) (simp add: profile_fields_def result_fields_def)
  then show ?thesis by (simp only: retrieval_body_def get_update_obj is_obj_mk_obj)
qed

lemma is_obj_body [simp]: "is_obj (retrieval_body rq revision profile degradation ex selected used fresh)"
  by (simp add: retrieval_body_def)

lemma finish_same:
  assumes "is_obj a" "is_obj b" and "\<And>k. k \<notin> set profile_fields \<Longrightarrow> get k a = get k b" and "k \<notin> set profile_fields"
  shows "get k (finish_result fresh a) = get k (finish_result fresh b)"
proof -
  have "get ''excluded_summary'' a = get ''excluded_summary'' b" "get ''selected'' a = get ''selected'' b"
    by (rule assms(3); simp add: profile_fields_def)+
  then have "empty_reason_for a 0 = empty_reason_for b 0" by (simp add: empty_reason_for_def)
  then show ?thesis using assms(1,2) assms(3)[OF assms(4)] by (auto simp: finish_result_def split: option.split)
qed

text \<open>C31: The index never changes an answer: whatever SQLite answers and whatever is in the index files, a
  retrieval that asks for the index returns, in every field but the three that name the profile used,
  what the scan of the same request returns.\<close>

theorem index_never_changes_answer:
  "case retrieve n lx sq here rq s of
     Inl _ \<Rightarrow> True
   | Inr r \<Rightarrow> (case retrieve n lx sq' here (rq\<lparr>rq_profile := SCAN_PROFILE\<rparr>) s of
        Inl _ \<Rightarrow> False
      | Inr r' \<Rightarrow> \<forall>k. k \<in> set profile_fields \<or> get k r = get k r')"
proof (cases "retrieve n lx sq here rq s")
  case (Inr r)
  then obtain fresh snap where f: "check_request here rq = Inr fresh"
    and snap: "snapshot_at n (rq_revision rq) True s = Inr snap"
    and r: "retrieve_from lx sq rq fresh snap s = Inr r"
    by (auto simp: retrieve_def)
  let ?rq = "rq\<lparr>rq_profile := SCAN_PROFILE\<rparr>"
  obtain profile degradation selected dropped used where
    sel: "select_hits (project_fresh fresh) (rq_budget rq) (rq_per_record rq)
       (scored (verdicts lx (rq_query rq) (searched_streams rq) (snap_records snap))) (rq_fixed rq) =
     Inr (selected, dropped, used)"
    and res: "r = finish_result fresh (retrieval_body rq (snap_revision snap) profile degradation
       (exclusions (verdicts lx (rq_query rq) (searched_streams rq) (snap_records snap)) dropped) selected used fresh)"
    using r by (rule retrieve_fromE)
  let ?ex = "exclusions (verdicts lx (rq_query rq) (searched_streams rq) (snap_records snap)) dropped"
  have scan: "retrieve n lx sq' here ?rq s =
      Inr (finish_result fresh (retrieval_body ?rq (snap_revision snap) SCAN_PROFILE ''none'' ?ex selected used fresh))"
    using check_request_scan[OF f] snap sel
    by (simp add: retrieve_def retrieve_from_def Let_def narrow_hits_scan)
  have "get k r = get k (finish_result fresh (retrieval_body ?rq (snap_revision snap) SCAN_PROFILE ''none'' ?ex selected used fresh))"
    if "k \<notin> set profile_fields" for k
    unfolding res by (rule finish_same[OF _ _ _ that]) (rule is_obj_body, rule is_obj_body, rule body_same[symmetric])
  then show ?thesis using Inr scan by auto
qed simp

section \<open>Every record is accounted for, and the budget is kept\<close>

text \<open>The item of a hit in the report.\<close>

definition shows_hit :: "int \<Rightarrow> hit \<Rightarrow> json \<Rightarrow> bool" where
  "shows_hit per h item \<longleftrightarrow>
     get ''id'' item = JStr (hit_id h) \<and> get ''stream'' item = JStr (hit_stream h) \<and>
     get ''score'' item = JInt (int (hit_score h)) \<and> get ''render'' item = JStr (hit_render h) \<and>
     get ''cost_bytes'' item = JInt (hit_cost per h)"

definition item_keys :: "string list" where
  "item_keys = [''id'', ''stream'', ''score'', ''render'', ''cost_bytes'']"

text \<open>
  A hit: an active record of a searched stream with an identifier, shown with its text; its score is
  the number of distinct terms of the query that occur in that text, and there is one at least.
\<close>

definition common_terms :: "lexicon \<Rightarrow> string \<Rightarrow> json \<Rightarrow> string set" where
  "common_terms lx query row = set (terms_of lx query) \<inter> set (terms_of lx (record_text row))"

definition hit_of :: "lexicon \<Rightarrow> string \<Rightarrow> string list \<Rightarrow> rows \<Rightarrow> hit \<Rightarrow> bool" where
  "hit_of lx query searched records h \<longleftrightarrow>
     (let row = hit_record h in
      hit_stream h \<in> set searched \<and> row \<in> set (records (hit_stream h)) \<and> is_active row \<and>
      hit_id h = py_str (get ''id'' row) \<and> hit_render h = record_text row \<and>
      hit_score h = card (common_terms lx query row) \<and> common_terms lx query row \<noteq> {})"

text \<open>The rows that are eligible, and those among them that share a term with the query.\<close>

definition eligible :: "json \<Rightarrow> bool" where
  "eligible row \<longleftrightarrow> is_active row \<and> truthy (get ''id'' row) \<and> record_text row \<noteq> []"

definition searched_rows :: "string list \<Rightarrow> rows \<Rightarrow> (string \<times> json) list" where
  "searched_rows searched records = concat (map (\<lambda>stream. map (Pair stream) (records stream)) searched)"

lemma shows_hit_item:
  "set (dict_keys extra) \<inter> set item_keys = {} \<Longrightarrow>
   shows_hit per h (update_obj (hit_item h (hit_cost per h)) (dict_items extra))"
proof -
  assume "set (dict_keys extra) \<inter> set item_keys = {}"
  then have "map_of (rev (dict_items extra)) k = None" if "k \<in> set item_keys" for k
    using that by (auto simp: map_of_eq_None_iff dict_keys_def)
  then show ?thesis by (simp add: shows_hit_def hit_item_def item_keys_def)
qed

lemma select_hits_spec:
  assumes "select_hits fresh budget per hs used = Inr (items, dropped, spent)" and "0 \<le> per"
    and "\<forall>record extra. fresh record = Inr extra \<longrightarrow> set (dict_keys extra) \<inter> set item_keys = {}"
  shows "\<exists>chosen left. subseq chosen hs \<and> mset hs = mset chosen + mset left \<and> dropped = map hit_id left \<and>
    list_all2 (shows_hit per) chosen items \<and> spent = used + sum_list (map (hit_cost per) chosen) \<and>
    (used \<le> budget \<longrightarrow> spent \<le> budget) \<and> list_all (\<lambda>h. spent + hit_cost per h > budget) left"
  using assms(1)
proof (induction hs arbitrary: used items dropped spent)
  case (Cons h hs)
  have pos: "0 \<le> hit_cost per x" for x using assms(2) by (simp add: hit_cost_def)
  show ?case
  proof (cases "used + hit_cost per h > budget")
    case True
    then obtain dropped' where d: "dropped = hit_id h # dropped'"
      and r: "select_hits fresh budget per hs used = Inr (items, dropped', spent)"
      using Cons.prems by auto
    obtain chosen left where IH: "subseq chosen hs" "mset hs = mset chosen + mset left" "dropped' = map hit_id left"
      "list_all2 (shows_hit per) chosen items" "spent = used + sum_list (map (hit_cost per) chosen)"
      "used \<le> budget \<longrightarrow> spent \<le> budget" "list_all (\<lambda>h. spent + hit_cost per h > budget) left"
      using Cons.IH[OF r] by blast
    have "0 \<le> sum_list (map (hit_cost per) chosen)" using pos by (intro sum_list_nonneg) auto
    then show ?thesis using IH d True by (intro exI[of _ chosen] exI[of _ "h # left"]) (auto intro: list_emb_Cons)
  next
    case False
    then obtain extra items' where f: "fresh (hit_record h) = Inr extra"
      and i: "items = update_obj (hit_item h (hit_cost per h)) (dict_items extra) # items'"
      and r: "select_hits fresh budget per hs (used + hit_cost per h) = Inr (items', dropped, spent)"
      using Cons.prems by auto
    obtain chosen left where IH: "subseq chosen hs" "mset hs = mset chosen + mset left" "dropped = map hit_id left"
      "list_all2 (shows_hit per) chosen items'" "spent = used + hit_cost per h + sum_list (map (hit_cost per) chosen)"
      "used + hit_cost per h \<le> budget \<longrightarrow> spent \<le> budget" "list_all (\<lambda>h. spent + hit_cost per h > budget) left"
      using Cons.IH[OF r] by blast
    then show ?thesis using i False shows_hit_item[OF assms(3)[rule_format, OF f], of per h]
      by (intro exI[of _ "h # chosen"] exI[of _ left]) auto
  qed
qed simp

lemma compute_freshness_keys:
  assumes "compute_freshness v now stale_after = Inr extra"
  shows "set (dict_keys extra) \<subseteq> {''verified_at'', ''freshness_error'', ''days_since_verified'', ''stale''}"
proof -
  show ?thesis
    using assms
    by (cases "normalize_freshness_now now"; cases "validate_stale_after_days stale_after"; cases "is_str v";
        cases "parse_verified_at v") (auto simp: compute_freshness_def Let_def split: option.splits if_split_asm)
qed

lemma project_fresh_keys:
  assumes "project_fresh fresh record = Inr extra"
  shows "set (dict_keys extra) \<inter> set item_keys = {}"
proof (cases fresh)
  case None
  then show ?thesis using assms by (auto simp: project_fresh_def)
next
  case (Some f)
  then have "set (dict_keys extra) \<subseteq> {''verified_at'', ''freshness_error'', ''days_since_verified'', ''stale''}"
    using assms by (cases f) (auto simp: project_fresh_def project_record_freshness_def dest!: compute_freshness_keys)
  then show ?thesis by (auto simp: item_keys_def)
qed

lemma sorted_wrt_subseq: "subseq xs ys \<Longrightarrow> sorted_wrt P ys \<Longrightarrow> sorted_wrt P xs"
proof (induction rule: list_emb.induct)
  case (list_emb_Cons2 x y xs ys)
  then have "set xs \<subseteq> set ys" by (auto elim: list_emb_set)
  then show ?case using list_emb_Cons2 by auto
qed simp_all

text \<open>How the hits relate to the verdicts, and the counts to the hits.\<close>

definition reasons :: "string list" where
  "reasons = [''inactive'', ''zero_score'', ''budget'', ''invalid_record'', ''no_text'']"

definition count_of :: "json \<Rightarrow> string \<Rightarrow> nat" where
  "count_of summary reason = (case get reason summary of JInt n \<Rightarrow> nat n | _ \<Rightarrow> 0)"

lemma count_of_entry:
  assumes "distinct (map fst ex)" and "(reason, n, ids) \<in> set ex"
  shows "count_of (excluded_summary ex) reason = n"
proof -
  let ?kvs = "map (\<lambda>(reason, n, _). (reason, JInt (int n))) (filter (\<lambda>(_, n, _). n \<noteq> 0) ex)"
  have "map fst ?kvs = map fst (filter (\<lambda>(_, n, _). n \<noteq> 0) ex)" by (induction ex) auto
  then have d: "distinct (map fst ?kvs)" using assms(1) by (metis distinct_map_filter)
  have keys: "fst ` set ?kvs = {r. \<exists>n ids. (r, n, ids) \<in> set ex \<and> n \<noteq> 0}" by (auto simp: image_iff) blast+
  have same: "n' = n" if "(reason, n', ids') \<in> set ex" for n' ids'
    using assms that by (metis Pair_inject eq_key_imp_eq_value)
  show ?thesis
  proof (cases "n = 0")
    case True
    then have "reason \<notin> fst ` set ?kvs" unfolding keys using same by blast
    then have "map_of (rev ?kvs) reason = None" by (simp add: map_of_eq_None_iff)
    then show ?thesis using True by (simp add: count_of_def excluded_summary_def)
  next
    case False
    then have "(reason, JInt (int n)) \<in> set ?kvs"
      using assms(2) by (force simp: image_iff)
    then have "map_of (rev ?kvs) reason = Some (JInt (int n))"
      using d by (simp add: map_of_eq_Some_iff rev_map[symmetric])
    then show ?thesis by (simp add: count_of_def excluded_summary_def)
  qed
qed

lemma count_of_summary:
  "map (count_of (excluded_summary (exclusions vs dropped))) reasons =
   [length (List.map_filter the_inactive vs), length (unscored vs), length dropped,
    length (filter (\<lambda>v. v = Invalid) vs), length (List.map_filter the_no_text vs)]"
proof -
  have "distinct (map fst (exclusions vs dropped))" by (simp add: exclusions_def Let_def)
  note entry = count_of_entry[OF this]
  show ?thesis unfolding reasons_def list.map
    by (intro list.rel_eq[THEN fun_cong, THEN fun_cong, THEN iffD1] list.rel_intros)
      (rule entry, simp add: exclusions_def Let_def)+
qed

lemma verdict_counts:
  "length vs = length (List.map_filter the_hit vs) + length (List.map_filter the_inactive vs) +
     length (List.map_filter the_no_text vs) + length (filter (\<lambda>v. v = Invalid) vs)"
proof (induction vs)
  case (Cons v vs)
  then show ?case by (cases v) (simp_all add: List.map_filter_def)
qed (simp add: List.map_filter_def)

lemma ranked_counts: "length (List.map_filter the_hit vs) = length (scored vs) + length (unscored vs)"
proof -
  have "length (List.map_filter the_hit vs) = length (ranked vs)" by (simp add: ranked_def)
  then show ?thesis
    using sum_length_filter_compl[of "\<lambda>h. hit_score h \<noteq> 0" "ranked vs"] by (simp add: scored_def unscored_def)
qed

text \<open>Before: a higher score, or the same score and a smaller identifier.\<close>

definition hit_before :: "hit \<Rightarrow> hit \<Rightarrow> bool" where
  "hit_before a b \<longleftrightarrow> hit_score b < hit_score a \<or> hit_score a = hit_score b \<and> hit_id a \<le> hit_id b"

lemma scored_ordered: "sorted_wrt hit_before (scored vs)"
proof -
  have "sorted (map rank_key (ranked vs))" by (simp add: ranked_def)
  then have "sorted_wrt (\<lambda>a b. rank_key a \<le> rank_key b) (ranked vs)" by (simp add: sorted_map)
  then have "sorted_wrt hit_before (ranked vs)"
    by (rule sorted_wrt_mono_rel[rotated]) (auto simp: rank_key_def hit_before_def less_eq_prod_def)
  then show ?thesis by (simp add: scored_def sorted_wrt_filter)
qed

lemma terms_shared: "length (filter (\<lambda>t. t \<in> set (terms_of lx text)) (terms_of lx query)) =
    card (set (terms_of lx query) \<inter> set (terms_of lx text))"
  by (simp add: distinct_length_filter terms_of_def Int_commute)

lemma verdicts_rows: "verdicts lx query searched records =
    map (\<lambda>(stream, row). classify lx query stream row) (searched_rows searched records)"
  by (simp add: verdicts_def searched_rows_def map_concat comp_def)

lemma scored_hits:
  assumes "h \<in> set (scored (verdicts lx query searched records))"
  shows "hit_of lx query searched records h"
proof -
  have "Ranked h \<in> set (verdicts lx query searched records)" and "hit_score h \<noteq> 0"
    using assms by (auto simp: scored_def ranked_def List.map_filter_def elim!: the_hit.elims)
  then obtain stream row where s: "stream \<in> set searched" "row \<in> set (records stream)"
    "classify lx query stream row = Ranked h"
    and "hit_score h \<noteq> 0" by (auto simp: verdicts_def)
  then have "card (common_terms lx query row) \<noteq> 0" "hit_score h = card (common_terms lx query row)" "hit_record h = row"
    "is_active row" "hit_id h = py_str (get ''id'' row)" "hit_render h = record_text row" "hit_stream h = stream"
    by (auto simp: classify_def terms_shared common_terms_def split: if_splits)
  then show ?thesis using s by (auto simp: hit_of_def)
qed

text \<open>What each verdict counts.\<close>

lemma the_hit_classify: "the_hit (classify lx query stream row) =
    (if eligible row then Some \<lparr>hit_score = card (common_terms lx query row), hit_id = py_str (get ''id'' row),
       hit_record = row, hit_render = record_text row, hit_stream = stream\<rparr> else None)"
  by (simp add: classify_def eligible_def terms_shared common_terms_def)

lemma map_filter_map: "List.map_filter f (map g xs) = List.map_filter (\<lambda>x. f (g x)) xs"
  by (simp add: List.map_filter_def filter_map comp_def)

lemma classify_views:
  "the_inactive (classify lx query stream row) = None \<longleftrightarrow> is_active row"
  "the_no_text (classify lx query stream row) = None \<longleftrightarrow>
     \<not> (is_active row \<and> truthy (get ''id'' row) \<and> record_text row = [])"
  "classify lx query stream row = Invalid \<longleftrightarrow> is_active row \<and> \<not> truthy (get ''id'' row)"
  "the_hit (classify lx query stream row) = None \<longleftrightarrow> \<not> eligible row"
  by (simp_all add: classify_def eligible_def)

lemma length_map_filter: "length (List.map_filter f xs) = length (filter (\<lambda>x. f x \<noteq> None) xs)"
  by (simp add: List.map_filter_def)

lemma length_filter_view:
  "length (filter (\<lambda>x. P (case x of (stream, row) \<Rightarrow> classify lx query stream row)) (searched_rows searched records)) =
   length (filter P (verdicts lx query searched records))"
  by (simp add: verdicts_rows filter_map comp_def)

definition excluded_rows :: "lexicon \<Rightarrow> string \<Rightarrow> json list \<Rightarrow> nat \<Rightarrow> nat list" where
  "excluded_rows lx query rows left =
     [length (filter (\<lambda>row. \<not> is_active row) rows),
      length (filter (\<lambda>row. eligible row \<and> common_terms lx query row = {}) rows), left,
      length (filter (\<lambda>row. is_active row \<and> \<not> truthy (get ''id'' row)) rows),
      length (filter (\<lambda>row. is_active row \<and> truthy (get ''id'' row) \<and> record_text row = []) rows)]"

lemma hits_of_rows:
  "mset (map hit_record (filter (\<lambda>h. P (hit_score h)) (ranked (verdicts lx query searched records)))) =
   mset (filter (\<lambda>row. eligible row \<and> P (card (common_terms lx query row))) (map snd (searched_rows searched records)))"
proof -
  have "mset (map hit_record (filter (\<lambda>h. P (hit_score h)) (ranked vs))) =
      mset (map hit_record (filter (\<lambda>h. P (hit_score h)) (List.map_filter the_hit vs)))" for vs
    by (simp only: ranked_def mset_map mset_filter mset_sort)
  moreover have "map hit_record (filter (\<lambda>h. P (hit_score h))
      (List.map_filter the_hit (map (\<lambda>(stream, row). classify lx query stream row) xs))) =
      filter (\<lambda>row. eligible row \<and> P (card (common_terms lx query row))) (map snd xs)" for xs
  proof (induction xs)
    case (Cons x xs)
    obtain stream row where x: "x = (stream, row)" by (cases x)
    show ?case using Cons by (cases "eligible row") (simp_all add: x List.map_filter_def the_hit_classify)
  qed (simp add: List.map_filter_def)
  ultimately show ?thesis by (simp only: verdicts_rows)
qed

lemma verdict_numbers:
  fixes lx query searched records
  defines "vs \<equiv> verdicts lx query searched records" and "rows \<equiv> map snd (searched_rows searched records)"
  shows "[length (List.map_filter the_inactive vs), length (unscored vs), left,
      length (filter (\<lambda>v. v = Invalid) vs), length (List.map_filter the_no_text vs)] = excluded_rows lx query rows left"
proof -
  have count: "length (filter (\<lambda>v. P v) vs) = length (filter Q rows)"
    if "\<And>stream row. P (classify lx query stream row) = Q row" for P Q
    unfolding vs_def rows_def verdicts_rows using that by (simp add: filter_map comp_def split_def)
  have "length (unscored vs) = length (map hit_record (filter (\<lambda>h. hit_score h = 0) (ranked vs)))"
    by (simp add: unscored_def)
  also have "\<dots> = length (filter (\<lambda>row. eligible row \<and> card (common_terms lx query row) = 0) rows)"
    unfolding vs_def rows_def by (rule mset_eq_length[OF hits_of_rows])
  finally have zero: "length (unscored vs) = length (filter (\<lambda>row. eligible row \<and> common_terms lx query row = {}) rows)"
    by (simp add: common_terms_def)
  show ?thesis unfolding excluded_rows_def length_map_filter zero
    by (intro arg_cong2[where f = Cons] refl count) (auto simp: classify_views)
qed

lemma finish_keeps: "is_obj body \<Longrightarrow> k \<notin> {''empty_reason'', ''schema''} \<Longrightarrow> get k (finish_result fresh body) = get k body"
  by (auto simp: finish_result_def split: option.split)

lemma body_fields:
  "get ''selected'' (retrieval_body rq revision profile degradation ex selected used fresh) = JArr selected"
  "get ''used_bytes'' (retrieval_body rq revision profile degradation ex selected used fresh) = JInt used"
  "get ''excluded_summary'' (retrieval_body rq revision profile degradation ex selected used fresh) = excluded_summary ex"
proof -
  have "map_of (rev (freshness_fields fresh selected)) k = None" if "k \<noteq> ''freshness_profile''" "k \<noteq> ''freshness''" for k
    using that by (simp add: freshness_fields_def Let_def split: option.split prod.split)
  then show "get ''selected'' (retrieval_body rq revision profile degradation ex selected used fresh) = JArr selected"
    "get ''used_bytes'' (retrieval_body rq revision profile degradation ex selected used fresh) = JInt used"
    "get ''excluded_summary'' (retrieval_body rq revision profile degradation ex selected used fresh) = excluded_summary ex"
    by (simp_all add: retrieval_body_def result_fields_def)
qed

lemma retrieveE:
  assumes "retrieve n lx sq here rq s = Inr r"
  obtains snap fresh profile degradation selected dropped used where "snapshot_at n (rq_revision rq) True s = Inr snap"
    "0 \<le> rq_per_record rq" "rq_fixed rq \<le> rq_budget rq"
    "select_hits (project_fresh fresh) (rq_budget rq) (rq_per_record rq)
       (scored (verdicts lx (rq_query rq) (searched_streams rq) (snap_records snap))) (rq_fixed rq) =
     Inr (selected, dropped, used)"
    "r = finish_result fresh (retrieval_body rq (snap_revision snap) profile degradation
       (exclusions (verdicts lx (rq_query rq) (searched_streams rq) (snap_records snap)) dropped) selected used fresh)"
proof -
  obtain fresh snap where f: "check_request here rq = Inr fresh"
    and snap: "snapshot_at n (rq_revision rq) True s = Inr snap"
    and r: "retrieve_from lx sq rq fresh snap s = Inr r"
    using assms by (auto simp: retrieve_def)
  have "0 \<le> rq_per_record rq" "rq_fixed rq \<le> rq_budget rq"
    using f by (auto simp: check_request_def)
  then show ?thesis using retrieve_fromE[OF r] that[OF snap] by metis
qed

text \<open>C32: Retrieval accounts for every record and keeps its budget. The records of the searched streams that are
  active, have an identifier and a text and share a term with the query are, each once, either selected or
  left out by the budget; the score of each is the number of distinct terms of the query that occur in
  its text. The summary counts exactly these reasons: the inactive records, those that share no term, those
  left out by the budget, those without identifier, and those without text, so that every record is selected or
  counted under one reason. What is selected is in order of score and identifier, each shown with its
  identifier, stream, score, text and cost; the costs and the reserved bytes add up to the used
  bytes, which stay within the budget, and no record that was left out would have fitted.\<close>

theorem retrieval_accounts:
  "case retrieve n lx sq here rq s of
     Inl _ \<Rightarrow> True
   | Inr r \<Rightarrow> \<exists>snap chosen left items. snapshot_at n (rq_revision rq) True s = Inr snap \<and>
       get ''selected'' r = JArr items \<and> list_all2 (shows_hit (rq_per_record rq)) chosen items \<and>
       list_all (hit_of lx (rq_query rq) (searched_streams rq) (snap_records snap)) (chosen @ left) \<and>
       sorted_wrt hit_before chosen \<and>
       length (concat (map (snap_records snap) (searched_streams rq))) =
         length chosen + sum_list (map (count_of (get ''excluded_summary'' r)) reasons) \<and>
       map (count_of (get ''excluded_summary'' r)) reasons =
         excluded_rows lx (rq_query rq) (concat (map (snap_records snap) (searched_streams rq))) (length left) \<and>
       get ''used_bytes'' r = JInt (rq_fixed rq + sum_list (map (hit_cost (rq_per_record rq)) chosen)) \<and>
       rq_fixed rq + sum_list (map (hit_cost (rq_per_record rq)) chosen) \<le> rq_budget rq \<and>
       mset (scored (verdicts lx (rq_query rq) (searched_streams rq) (snap_records snap))) = mset chosen + mset left \<and>
       mset (map hit_record (chosen @ left)) =
         mset (filter (\<lambda>row. eligible row \<and> common_terms lx (rq_query rq) row \<noteq> {})
           (concat (map (snap_records snap) (searched_streams rq)))) \<and>
       list_all (\<lambda>h. rq_budget rq <
         rq_fixed rq + sum_list (map (hit_cost (rq_per_record rq)) chosen) + hit_cost (rq_per_record rq) h) left"
proof (cases "retrieve n lx sq here rq s")
  case (Inr r)
  obtain snap fresh profile degradation selected dropped used where snap: "snapshot_at n (rq_revision rq) True s = Inr snap"
    and b: "0 \<le> rq_per_record rq" "rq_fixed rq \<le> rq_budget rq"
    and sel: "select_hits (project_fresh fresh) (rq_budget rq) (rq_per_record rq)
       (scored (verdicts lx (rq_query rq) (searched_streams rq) (snap_records snap))) (rq_fixed rq) =
     Inr (selected, dropped, used)"
    and r: "r = finish_result fresh (retrieval_body rq (snap_revision snap) profile degradation
       (exclusions (verdicts lx (rq_query rq) (searched_streams rq) (snap_records snap)) dropped) selected used fresh)"
    using Inr by (rule retrieveE)
  let ?vs = "verdicts lx (rq_query rq) (searched_streams rq) (snap_records snap)"
  obtain chosen left where c: "subseq chosen (scored ?vs)" "mset (scored ?vs) = mset chosen + mset left"
    "dropped = map hit_id left" "list_all2 (shows_hit (rq_per_record rq)) chosen selected"
    "used = rq_fixed rq + sum_list (map (hit_cost (rq_per_record rq)) chosen)" "used \<le> rq_budget rq"
    "list_all (\<lambda>h. used + hit_cost (rq_per_record rq) h > rq_budget rq) left"
    using select_hits_spec[OF sel b(1)] project_fresh_keys b(2) by blast
  have fields: "get ''selected'' r = JArr selected" "get ''used_bytes'' r = JInt used"
    "get ''excluded_summary'' r = excluded_summary (exclusions ?vs dropped)"
    unfolding r by (simp_all add: finish_keeps body_fields)
  have "length (scored ?vs) = length chosen + length left"
    using arg_cong[OF c(2), of size] by simp
  then have counts: "length ?vs = length chosen + sum_list (map (count_of (excluded_summary (exclusions ?vs dropped))) reasons)"
    using verdict_counts[of ?vs] ranked_counts[of ?vs] c(3) by (simp add: count_of_summary)
  have vs: "length ?vs = length (concat (map (snap_records snap) (searched_streams rq)))"
    by (simp add: verdicts_def length_concat comp_def)
  have "set (chosen @ left) = set (scored ?vs)" using arg_cong[OF c(2), of set_mset] by simp
  then have hits: "list_all (hit_of lx (rq_query rq) (searched_streams rq) (snap_records snap)) (chosen @ left)"
    using scored_hits unfolding list_all_iff by blast
  have rows: "map snd (searched_rows (searched_streams rq) (snap_records snap)) =
      concat (map (snap_records snap) (searched_streams rq))"
    by (simp add: searched_rows_def map_concat comp_def)
  have "mset (map hit_record (chosen @ left)) = mset (map hit_record (scored ?vs))" by (simp add: c(2))
  also have "\<dots> = mset (filter (\<lambda>row. eligible row \<and> card (common_terms lx (rq_query rq) row) \<noteq> 0)
      (concat (map (snap_records snap) (searched_streams rq))))"
    unfolding scored_def rows[symmetric] by (rule hits_of_rows)
  finally have found: "mset (map hit_record (chosen @ left)) =
      mset (filter (\<lambda>row. eligible row \<and> common_terms lx (rq_query rq) row \<noteq> {})
        (concat (map (snap_records snap) (searched_streams rq))))"
    by (simp add: common_terms_def)
  have numbers: "map (count_of (get ''excluded_summary'' r)) reasons =
      excluded_rows lx (rq_query rq) (concat (map (snap_records snap) (searched_streams rq))) (length left)"
    unfolding fields(3) count_of_summary verdict_numbers rows c(3) length_map by (rule refl)
  have order: "sorted_wrt hit_before chosen" by (rule sorted_wrt_subseq[OF c(1) scored_ordered])
  have sums: "length (concat (map (snap_records snap) (searched_streams rq))) =
      length chosen + sum_list (map (count_of (get ''excluded_summary'' r)) reasons)"
    unfolding fields(3) vs[symmetric] by (rule counts)
  show ?thesis unfolding Inr sum.case
    by (intro exI[of _ snap] exI[of _ chosen] exI[of _ left] exI[of _ selected] conjI snap fields(1) c(4) hits order sums numbers
        fields(2)[unfolded c(5)] c(6)[unfolded c(5)] c(2) found c(7)[unfolded c(5)])
qed simp

end
