(* ===== verification/Assembly.thy ===== *)
theory Assembly
  imports Retrieval
begin

text \<open>
  The assembly of a context under one byte budget (\<open>context.py\<close>): the checkpoint and the information of
  the caller are required, retrieved records fill what is left. The theorem: the payload states its
  own size and fits, it serves a subsequence of what retrieval found, and only the required part can
  make it fail for lack of room.
\<close>

section \<open>The payload\<close>

record assembly =
  as_source :: json
  as_checkpoint :: json
  as_new_information :: json
  as_budget :: int

definition is_fresh :: "assembly \<Rightarrow> bool" where
  "is_fresh a \<longleftrightarrow> has_key ''freshness'' (as_source a)"

definition context_record :: "bool \<Rightarrow> json \<Rightarrow> json" where
  "context_record fresh item =
     update_obj (mk_obj [(''id'', get ''id'' item), (''text'', get ''render'' item), (''score'', get ''score'' item)])
       (if fresh then List.map_filter (\<lambda>k. if has_key k item then Some (k, get k item) else None)
          [''verified_at'', ''days_since_verified'', ''stale'', ''freshness_error''] else [])"

definition counts_fields :: "freshness_counts \<Rightarrow> (string \<times> json) list" where
  "counts_fields c =
     [(''evaluated'', JInt (int (evaluated c))), (''not_evaluable'', JInt (int (not_evaluable c))),
      (''unparseable'', JInt (int (unparseable c))), (''stale'', JInt (int (stale c)))]"

definition context_exclusions :: "assembly \<Rightarrow> nat \<Rightarrow> json" where
  "context_exclusions a left =
     (let summary = get ''excluded_summary'' (as_source a) in
      if left = 0 then summary
      else update_obj summary [(''budget'',
        JInt ((if has_key ''budget'' summary then int_of (get ''budget'' summary) else 0) + int left))])"

definition build_context :: "assembly \<Rightarrow> json list \<Rightarrow> nat \<Rightarrow> nat \<Rightarrow> json" where
  "build_context a records left used =
     update_obj (mk_obj
       [(''schema'', JStr (if is_fresh a then ''an-kla/context-assembly-v2'' else ''an-kla/context-assembly-v1'')),
        (''profile'', JStr (if is_fresh a then ''context-assembly/v2'' else ''context-assembly/v1'')),
        (''canonicalization'', JStr ''canonical-json/v1''), (''untrusted_memory_data'', JBool True),
        (''host_framing_unmeasured'', JBool True), (''revision'', get ''revision'' (as_source a)),
        (''budget_bytes'', JInt (as_budget a)), (''used_bytes'', JInt (int used)),
        (''section_provenance'', mk_obj [(''working_state'', JStr ''memory_store''), (''new_information'', JStr ''caller''),
           (''retrieved_records'', JStr ''memory_store'')]),
        (''sections'', mk_obj [(''working_state'', as_checkpoint a), (''new_information'', as_new_information a),
           (''retrieved_records'', JArr records)]),
        (''excluded_summary'', context_exclusions a left)])
       (if is_fresh a then
          [(''freshness_profile'', JStr ''computed-age/v1''),
           (''freshness'', update_obj (get ''freshness'' (as_source a)) (counts_fields (summarize_freshness records)))]
        else [])"

section \<open>Filling the budget\<close>

definition sized :: "assembly \<Rightarrow> json list \<Rightarrow> nat \<Rightarrow> (json \<times> nat) res" where
  "sized a records left = exact_sized_payload (build_context a records left) 16"

text \<open>The records served and how many candidates are left out.\<close>

fun fill_context :: "assembly \<Rightarrow> json list \<Rightarrow> json list \<Rightarrow> nat \<Rightarrow> (json list \<times> nat) res" where
  "fill_context a [] records left = Inr (records, left)"
| "fill_context a (item # items) records left =
     (let records' = records @ [context_record (is_fresh a) item] in
      andthen (sized a records' (left - 1)) (\<lambda>(_, measured).
        if int measured > as_budget a then fill_context a items records left
        else fill_context a items records' (left - 1)))"

definition budget_too_small :: exn where
  "budget_too_small = value_raise ''budget_too_small_for_required_context''"

definition assemble :: "assembly \<Rightarrow> json list \<Rightarrow> json res" where
  "assemble a candidates =
     andthen (sized a [] (length candidates)) (\<lambda>(_, required).
     andthen (ensure (\<not> int required > as_budget a) budget_too_small) (\<lambda>_.
     andthen (fill_context a candidates [] (length candidates)) (\<lambda>(records, left).
     andthen (sized a records left) (\<lambda>(payload, measured).
     andthen (ensure (\<not> int measured > as_budget a) budget_too_small) (\<lambda>_. Inr payload)))))"

record context_request =
  cr_query :: json
  cr_budget :: json
  cr_new_information :: json
  cr_freshness :: "string option"
  cr_now :: "clock option"
  cr_stale :: json

definition check_context_request :: "context_request \<Rightarrow> unit res" where
  "check_context_request cr =
     checks
       [ensure (is_str (cr_query cr)) (value_raise ''invalid_context_query''),
        ensure (is_proper_int (cr_budget cr)) (value_raise ''invalid_context_budget''),
        ensure (\<not> int_of (cr_budget cr) < 0) (value_raise ''negative_budget''),
        ensure (cr_new_information cr = JNull \<or> is_str (cr_new_information cr)) (value_raise ''invalid_new_information'')]"

definition context_retrieval :: "context_request \<Rightarrow> retrieval_request" where
  "context_retrieval cr =
     \<lparr>rq_query = str_of (cr_query cr), rq_budget = 2 ^ 63 - 1, rq_fixed = 0, rq_per_record = 0,
      rq_profile = SCAN_PROFILE, rq_streams = None, rq_freshness = cr_freshness cr, rq_now = cr_now cr,
      rq_stale = cr_stale cr, rq_revision = None\<rparr>"

definition assemble_context :: "nat \<Rightarrow> lexicon \<Rightarrow> sqlite \<Rightarrow> clock \<Rightarrow> context_request \<Rightarrow> os \<Rightarrow> json res" where
  "assemble_context n lx sq here cr s =
     andthen (check_context_request cr) (\<lambda>_.
     andthen (retrieve n lx sq here (context_retrieval cr) s) (\<lambda>source.
     andthen (snapshot_at n (Some (str_of (get ''revision'' source))) True s) (\<lambda>snap.
       assemble
         \<lparr>as_source = source, as_checkpoint = snap_checkpoint snap, as_new_information = cr_new_information cr,
          as_budget = int_of (cr_budget cr)\<rparr>
         (list_items (get ''selected'' source)))))"

section \<open>The payload fits and says its size\<close>

lemma sized_payload:
  "sized a records left = Inr (payload, measured) \<Longrightarrow>
   payload = build_context a records left measured \<and> measured = length (canonical_json payload)"
  unfolding sized_def exact_sized_payload_def by (rule exact_sized_loop_correct)

lemma sized_error: "sized a records left = Inl e \<Longrightarrow> e \<noteq> budget_too_small"
proof -
  have "exact_sized_loop build n used observed = Inl e \<Longrightarrow> e = Exn ValueError ''payload_size_not_converged'' None"
    for build n used observed
    by (induction build n used observed rule: exact_sized_loop.induct) (auto simp: Let_def split: if_splits)
  then show "sized a records left = Inl e \<Longrightarrow> e \<noteq> budget_too_small"
    unfolding sized_def exact_sized_payload_def by (auto simp: budget_too_small_def value_raise_def)
qed

definition feasible :: "assembly \<Rightarrow> json list \<Rightarrow> nat \<Rightarrow> bool" where
  "feasible a records left \<longleftrightarrow> (\<exists>p m. sized a records left = Inr (p, m) \<and> int m \<le> as_budget a)"

lemma fill_context_spec:
  "fill_context a items records left = Inr (records', left') \<Longrightarrow> feasible a records left \<Longrightarrow>
   feasible a records' left' \<and>
   (\<exists>kept. subseq kept items \<and> records' = records @ map (context_record (is_fresh a)) kept \<and> left' = left - length kept)"
proof (induction items arbitrary: records left)
  case (Cons item items)
  let ?records = "records @ [context_record (is_fresh a) item]"
  obtain p m where m: "sized a ?records (left - 1) = Inr (p, m)"
    and rest: "(if int m > as_budget a then fill_context a items records left
        else fill_context a items ?records (left - 1)) = Inr (records', left')"
    using Cons.prems(1) by (auto simp: Let_def)
  show ?case
  proof (cases "int m > as_budget a")
    case True
    then have "fill_context a items records left = Inr (records', left')" using rest by simp
    from Cons.IH[OF this Cons.prems(2)] show ?thesis by (metis list_emb_Cons)
  next
    case False
    then have "fill_context a items ?records (left - 1) = Inr (records', left')" using rest by simp
    moreover have "feasible a ?records (left - 1)" using m False by (auto simp: feasible_def)
    ultimately obtain kept where "feasible a records' left'" "subseq kept items"
      "records' = ?records @ map (context_record (is_fresh a)) kept" "left' = left - 1 - length kept"
      using Cons.IH by blast
    then show ?thesis by (intro conjI exI[of _ "item # kept"]) auto
  qed
qed (auto simp: feasible_def)

lemma fill_context_error: "fill_context a items records left = Inl e \<Longrightarrow> e \<noteq> budget_too_small"
proof (induction items arbitrary: records left)
  case (Cons item items)
  then show ?case
    by (cases "sized a (records @ [context_record (is_fresh a) item]) (left - 1)")
      (auto simp: Let_def sized_error split: if_splits)
qed simp

text \<open>A record of the payload shows the identifier, the text and the score of the candidate it stands for.\<close>

definition shows_candidate :: "json \<Rightarrow> json \<Rightarrow> bool" where
  "shows_candidate item record \<longleftrightarrow>
     get ''id'' record = get ''id'' item \<and> get ''text'' record = get ''render'' item \<and>
     get ''score'' record = get ''score'' item"

text \<open>The budget exclusions of a summary: a missing count is none.\<close>

definition budget_count :: "json \<Rightarrow> int" where
  "budget_count summary = (if has_key ''budget'' summary then int_of (get ''budget'' summary) else 0)"

lemma context_record_shows: "shows_candidate item (context_record fresh item)"
proof -
  have keys: "k \<notin> fst ` set (rev (if fresh then List.map_filter (\<lambda>k. if has_key k item then Some (k, get k item) else None)
      [''verified_at'', ''days_since_verified'', ''stale'', ''freshness_error''] else []))"
    if "k \<in> {''id'', ''text'', ''score''}" for k
    using that by (auto simp: List.map_filter_def)
  then have "map_of (rev (if fresh then List.map_filter (\<lambda>k. if has_key k item then Some (k, get k item) else None)
      [''verified_at'', ''days_since_verified'', ''stale'', ''freshness_error''] else [])) k = None"
    if "k \<in> {''id'', ''text'', ''score''}" for k
    using keys[OF that] by (simp only: map_of_eq_None_iff simp_thms)
  then show ?thesis by (simp add: shows_candidate_def context_record_def)
qed

lemma build_context_fields:
  "get ''used_bytes'' (build_context a records left used) = JInt (int used)"
  "get ''budget_bytes'' (build_context a records left used) = JInt (as_budget a)"
  "get ''revision'' (build_context a records left used) = get ''revision'' (as_source a)"
  "get ''sections'' (build_context a records left used) = mk_obj [(''working_state'', as_checkpoint a),
     (''new_information'', as_new_information a), (''retrieved_records'', JArr records)]"
  "get ''excluded_summary'' (build_context a records left used) = context_exclusions a left"
  by (simp_all add: build_context_def)

lemma context_exclusions_fields:
  assumes "is_obj (get ''excluded_summary'' (as_source a))"
  shows "budget_count (context_exclusions a left) = budget_count (get ''excluded_summary'' (as_source a)) + int left"
    and "k \<noteq> ''budget'' \<Longrightarrow> get k (context_exclusions a left) = get k (get ''excluded_summary'' (as_source a))"
  using assms by (auto simp: context_exclusions_def budget_count_def Let_def has_key_def)

text \<open>C33: An assembled context states its exact size, the length of its canonical text, and its budget, and
  fits that budget. It shows the checkpoint, the information of the caller and, in the order of retrieval,
  the identifier, text and score of some of the candidates retrieval selected; all the others are
  added to what the summary of retrieval, an object, had already counted as left out by the budget, and no other
  count of exclusions changes. The
  assembly fails for lack of room only when the checkpoint and the information of the caller do not
  fit by themselves: the second test of the budget never fires.\<close>

theorem assembly_fits:
  "case assemble a candidates of
     Inr payload \<Rightarrow> \<exists>kept records. subseq kept candidates \<and> list_all2 shows_candidate kept records \<and>
       get ''sections'' payload = mk_obj [(''working_state'', as_checkpoint a),
         (''new_information'', as_new_information a), (''retrieved_records'', JArr records)] \<and>
       get ''revision'' payload = get ''revision'' (as_source a) \<and>
       get ''budget_bytes'' payload = JInt (as_budget a) \<and>
       get ''used_bytes'' payload = JInt (int (length (canonical_json payload))) \<and>
       int (length (canonical_json payload)) \<le> as_budget a \<and>
       (if is_obj (get ''excluded_summary'' (as_source a))
        then budget_count (get ''excluded_summary'' payload) =
            budget_count (get ''excluded_summary'' (as_source a)) + int (length candidates) - int (length kept) \<and>
          list_all (\<lambda>k. get k (get ''excluded_summary'' payload) = get k (get ''excluded_summary'' (as_source a)))
            [''inactive'', ''zero_score'', ''invalid_record'', ''no_text'']
        else True) \<and>
       payload = build_context a (map (context_record (is_fresh a)) kept) (length candidates - length kept)
                   (length (canonical_json payload))
   | Inl e \<Rightarrow> if e = budget_too_small
       then \<exists>p m. sized a [] (length candidates) = Inr (p, m) \<and> as_budget a < int m else True"
proof (cases "sized a [] (length candidates)")
  case (Inl e)
  then show ?thesis using sized_error[OF Inl] by (simp add: assemble_def)
next
  case (Inr required)
  obtain p m where m: "required = (p, m)" by (cases required)
  show ?thesis
  proof (cases "as_budget a < int m")
    case True
    then show ?thesis using Inr m by (simp add: assemble_def)
  next
    case False
    then have f: "feasible a [] (length candidates)" using Inr m by (auto simp: feasible_def)
    show ?thesis
    proof (cases "fill_context a candidates [] (length candidates)")
      case (Inl e)
      then show ?thesis using Inr m False fill_context_error[OF Inl] by (simp add: assemble_def)
    next
      case filled: (Inr result)
      obtain records left where result: "result = (records, left)" by (cases result)
      note spec = fill_context_spec[OF filled[unfolded result] f]
      obtain payload k where k: "sized a records left = Inr (payload, k)" "int k \<le> as_budget a"
        using spec by (auto simp: feasible_def)
      obtain kept where kept: "subseq kept candidates" "records = map (context_record (is_fresh a)) kept"
        "left = length candidates - length kept" using spec by auto
      have run: "assemble a candidates = Inr payload" using Inr m False filled result k by (simp add: assemble_def)
      note size = sized_payload[OF k(1), THEN conjunct2]
      note payload = sized_payload[OF k(1), THEN conjunct1, unfolded size kept(2,3)]
      let ?records = "map (context_record (is_fresh a)) kept"
      have shown: "list_all2 shows_candidate kept ?records"
        by (simp add: list_all2_conv_all_nth context_record_shows)
      have "length kept \<le> length candidates" using list_emb_length[OF kept(1)] .
      then have n: "int (length candidates - length kept) = int (length candidates) - int (length kept)" by simp
      have fields: "get k payload = get k (build_context a ?records (length candidates - length kept)
          (length (canonical_json payload)))" for k
        using payload by (rule arg_cong[of _ _ "get k"])
      have summary: "budget_count (get ''excluded_summary'' payload) =
            budget_count (get ''excluded_summary'' (as_source a)) + int (length candidates) - int (length kept) \<and>
          list_all (\<lambda>k. get k (get ''excluded_summary'' payload) = get k (get ''excluded_summary'' (as_source a)))
            [''inactive'', ''zero_score'', ''invalid_record'', ''no_text'']"
        if "is_obj (get ''excluded_summary'' (as_source a))"
        unfolding fields[of "''excluded_summary''"] build_context_fields context_exclusions_fields(1)[OF that] n
        by (simp add: context_exclusions_fields(2)[OF that])
      have excluded: "if is_obj (get ''excluded_summary'' (as_source a))
        then budget_count (get ''excluded_summary'' payload) =
            budget_count (get ''excluded_summary'' (as_source a)) + int (length candidates) - int (length kept) \<and>
          list_all (\<lambda>k. get k (get ''excluded_summary'' payload) = get k (get ''excluded_summary'' (as_source a)))
            [''inactive'', ''zero_score'', ''invalid_record'', ''no_text'']
        else True"
        using summary by presburger
      show ?thesis unfolding run sum.case
        by (rule exI[of _ kept], rule exI[of _ ?records], intro conjI kept(1) shown
            fields[of "''sections''", unfolded build_context_fields] fields[of "''revision''", unfolded build_context_fields]
            fields[of "''budget_bytes''", unfolded build_context_fields] fields[of "''used_bytes''", unfolded build_context_fields]
            k(2)[unfolded size] excluded payload)
    qed
  qed
qed

end
