(* ===== verification/Resume.thy ===== *)
theory Resume
  imports Retrieval
begin

text \<open>
  The resume of a session (\<open>resume.py\<close>): the checkpoint of the current revision in full and, for a query,
  as much retrieved evidence as a byte budget admits. The theorem: the result states its own size and
  fits the budget, and the minimum budget that a refusal names is a budget with which the same call returns.
\<close>

section \<open>the size of a result\<close>

text \<open>\<open>build used\<close> is the result with its field \<open>used_bytes\<close>; \<open>observed\<close> is the size measured before.\<close>

fun size_at_fixed_point :: "nat \<Rightarrow> (nat \<Rightarrow> json) \<Rightarrow> int \<Rightarrow> (json \<times> nat) res" where
  "size_at_fixed_point 0 build observed = raise ValueError ''resume_size_not_convergent''"
| "size_at_fixed_point (Suc n) build observed =
     (let value = build (nat (max observed 0)); actual = length (canonical_json value) in
      if int actual = observed then Inr (value, actual) else size_at_fixed_point n build (int actual))"

section \<open>The checkpoint\<close>

text \<open>The part of the result about the checkpoint, and the warnings.\<close>

definition resume_snapshot :: "snapshot \<Rightarrow> (json \<times> string list) res" where
  "resume_snapshot snap =
     (let checkpoint = snap_checkpoint snap; digest = get ''checkpoint'' (snap_manifest snap);
          revision = get ''revision'' checkpoint in
      if get ''schema'' checkpoint = JStr ''an-kla/checkpoint-v2''
      then andthen (checks
        [ensure (set (dict_keys checkpoint) = {''schema'', ''revision'', ''working_state''})
           (cpe ''invalid_working_state'' ''checkpoint:keys''),
         ensure (is_proper_int revision) (cpe ''invalid_working_state'' ''checkpoint.revision''),
         ensure (1 \<le> int_of revision \<and> int_of revision \<le> int_of (get ''revision'' (snap_manifest snap)))
           (cpe ''invalid_working_state'' ''checkpoint.revision:out_of_range''),
         validate_working_state (get ''working_state'' checkpoint)]) (\<lambda>_.
        Inr (mk_obj
          [(''schema'', JStr ''an-kla/resume-snapshot-v1''), (''checkpoint_digest'', digest),
           (''checkpoint_schema'', JStr ''an-kla/checkpoint-v2''), (''checkpoint'', checkpoint)], []))
      else andthen (ensure (get ''schema'' checkpoint = JStr ''an-kla/checkpoint-v1'')
          (cpe ''invalid_working_state'' ''checkpoint.schema'')) (\<lambda>_.
        Inr (mk_obj
          [(''schema'', JStr ''an-kla/resume-snapshot-v1''), (''checkpoint_digest'', digest),
           (''checkpoint_schema'', JStr ''an-kla/checkpoint-v1''),
           (''legacy_checkpoint_json'', JStr (canonical_json checkpoint))], [''legacy_checkpoint_v1''])))"

section \<open>The projection at a budget\<close>

text \<open>What does not depend on the budget: the revision, the checkpoint and its warnings.\<close>

record resume_base =
  rb_revision :: string
  rb_snapshot :: json
  rb_warnings :: "string list"

definition EXCLUDED :: "string list" where
  "EXCLUDED = [''inactive'', ''zero_score'', ''budget'', ''invalid_record'', ''no_text'']"

definition resume_warnings :: "resume_base \<Rightarrow> json option \<Rightarrow> string list" where
  "resume_warnings rb retrieval =
     sorted_set (rb_warnings rb @ (case retrieval of
        None \<Rightarrow> []
      | Some found \<Rightarrow> if get ''degradation'' found \<noteq> JStr ''none'' then [''retrieval_degraded_to_scan''] else []))"

text \<open>\<open>dropped\<close> counts the evidence that was left out or taken back.\<close>

definition resume_excluded :: "json option \<Rightarrow> nat \<Rightarrow> json" where
  "resume_excluded retrieval dropped =
     mk_obj (map (\<lambda>key. (key, JInt (int
       ((case retrieval of None \<Rightarrow> 0 | Some found \<Rightarrow> count_of (get ''excluded_summary'' found) key)
        + (if key = ''budget'' then dropped else 0))))) EXCLUDED)"

definition resume_provenance :: "string \<Rightarrow> json option \<Rightarrow> json" where
  "resume_provenance revision retrieval =
     mk_obj
       [(''memory'', mk_obj [(''source'', JStr ''revision_snapshot''), (''revision'', JStr revision)]),
        (''retrieval'', (case retrieval of
           None \<Rightarrow> mk_obj [(''source'', JStr ''disabled''), (''revision'', JNull), (''query'', JStr ''disabled'')]
         | Some found \<Rightarrow> mk_obj [(''source'', get ''profile'' found), (''revision'', JStr revision),
             (''query'', JStr ''caller_asserted'')])),
        (''live_delta'', mk_obj [(''source'', JStr ''unavailable'')])]"

definition resume_body :: "resume_base \<Rightarrow> json option \<Rightarrow> nat \<Rightarrow> json list \<Rightarrow> nat \<Rightarrow> nat \<Rightarrow> json" where
  "resume_body rb retrieval limit evidence dropped used =
     mk_obj
       [(''schema'', JStr ''an-kla/resume-v1''), (''untrusted_memory_data'', JBool True),
        (''revision'', JStr (rb_revision rb)), (''budget_bytes'', JInt (int limit)), (''used_bytes'', JInt (int used)),
        (''snapshot'', rb_snapshot rb), (''live_delta'', JNull), (''retrieved_evidence'', JArr evidence),
        (''warnings'', JArr (map JStr (resume_warnings rb retrieval))),
        (''provenance'', resume_provenance (rb_revision rb) retrieval),
        (''excluded_summary'', resume_excluded retrieval dropped)]"

definition resume_sized :: "resume_base \<Rightarrow> json option \<Rightarrow> nat \<Rightarrow> json list \<Rightarrow> nat \<Rightarrow> (json \<times> nat) res" where
  "resume_sized rb retrieval limit evidence dropped =
     size_at_fixed_point 32 (resume_body rb retrieval limit evidence dropped) (-1)"

definition resume_evidence :: "string \<Rightarrow> json \<Rightarrow> json" where
  "resume_evidence revision item =
     mk_obj
       [(''schema'', JStr ''an-kla/resume-evidence-v1''), (''source'', JStr ''retrieval-result-v1''),
        (''revision'', JStr revision), (''id'', get ''id'' item), (''stream'', get ''stream'' item),
        (''score'', get ''score'' item), (''render'', get ''render'' item), (''cost_bytes'', get ''cost_bytes'' item)]"

fun add_evidence :: "resume_base \<Rightarrow> json option \<Rightarrow> nat \<Rightarrow> json list \<Rightarrow> json list \<Rightarrow> nat \<Rightarrow> (json list \<times> nat) res" where
  "add_evidence rb retrieval limit [] evidence dropped = Inr (evidence, dropped)"
| "add_evidence rb retrieval limit (item # items) evidence dropped =
     (let more = evidence @ [resume_evidence (rb_revision rb) item] in
      andthen (resume_sized rb retrieval limit more dropped) (\<lambda>(_, sz).
        if sz \<le> limit then add_evidence rb retrieval limit items more dropped
        else add_evidence rb retrieval limit items evidence (Suc dropped)))"

text \<open>Counting an exclusion may lengthen the result: evidence is taken back until it fits.\<close>

function trim_evidence :: "resume_base \<Rightarrow> json option \<Rightarrow> nat \<Rightarrow> json list \<Rightarrow> nat \<Rightarrow> (json \<times> nat) res" where
  "trim_evidence rb retrieval limit evidence dropped =
     andthen (resume_sized rb retrieval limit evidence dropped) (\<lambda>(value, sz).
       if sz > limit \<and> evidence \<noteq> [] then trim_evidence rb retrieval limit (butlast evidence) (Suc dropped)
       else Inr (value, sz))"
  by pat_completeness auto
termination by (relation "measure (\<lambda>(_, _, _, evidence, _). length evidence)") (auto intro: diff_less)

declare trim_evidence.simps [simp del]

definition project :: "(nat \<Rightarrow> json option res) \<Rightarrow> resume_base \<Rightarrow> nat \<Rightarrow> (json \<times> nat) res" where
  "project retrieval_at rb limit =
     andthen (retrieval_at limit) (\<lambda>retrieval.
     andthen (resume_sized rb retrieval limit [] 0) (\<lambda>(value, base).
       if base > limit then Inr (value, base)
       else andthen (add_evidence rb retrieval limit
           (case retrieval of None \<Rightarrow> [] | Some found \<Rightarrow> list_items (get ''selected'' found)) [] 0) (\<lambda>(evidence, dropped).
         trim_evidence rb retrieval limit evidence dropped)))"

section \<open>The smallest budget that fits\<close>

definition MAX_BUDGET_BYTES :: nat where
  "MAX_BUDGET_BYTES = 1000000000"

text \<open>The last budget with as many decimal digits as \<open>lower\<close>.\<close>

definition band_end :: "nat \<Rightarrow> nat" where
  "band_end lower = min MAX_BUDGET_BYTES (10 ^ length (show_nat lower) - 1)"

text \<open>The climb inside a band: a budget that fits, the end of the band, or no answer in 64 rounds.\<close>

datatype climb = Fits nat | Band_Over | Unsettled

fun climb_band :: "(nat \<Rightarrow> (json \<times> nat) res) \<Rightarrow> nat \<Rightarrow> nat \<Rightarrow> nat \<Rightarrow> climb res" where
  "climb_band proj last_one 0 candidate = Inr Unsettled"
| "climb_band proj last_one (Suc n) candidate =
     andthen (proj candidate) (\<lambda>(_, sz).
       if sz \<le> candidate then Inr (Fits candidate)
       else if sz > last_one then Inr Band_Over
       else climb_band proj last_one n sz)"

lemma show_nat_bound: "n < 10 ^ length (show_nat n)"
proof (induction n rule: show_nat.induct)
  case (1 n)
  show ?case
  proof (cases "n < 10")
    case True
    then show ?thesis by (subst show_nat.simps) simp
  next
    case False
    then have "n div 10 < 10 ^ length (show_nat (n div 10))" using 1 by simp
    then have "n < 10 * 10 ^ length (show_nat (n div 10))" by linarith
    then show ?thesis using False by (subst show_nat.simps) simp
  qed
qed

lemma band_end_ge: "lower \<le> MAX_BUDGET_BYTES \<Longrightarrow> lower \<le> band_end lower"
  using show_nat_bound[of lower] by (simp add: band_end_def)

function minimum_budget_from :: "(nat \<Rightarrow> (json \<times> nat) res) \<Rightarrow> nat \<Rightarrow> nat option res" where
  "minimum_budget_from proj lower =
     (if lower \<le> MAX_BUDGET_BYTES
      then andthen (climb_band proj (band_end lower) 64 lower) (\<lambda>result.
        case result of
          Fits candidate \<Rightarrow> Inr (Some candidate)
        | Band_Over \<Rightarrow> minimum_budget_from proj (band_end lower + 1)
        | Unsettled \<Rightarrow> Inr None)
      else Inr None)"
  by pat_completeness auto
termination
proof (relation "measure (\<lambda>(_, lower). MAX_BUDGET_BYTES + 1 - lower)", goal_cases)
  case (2 proj lower)
  then show ?case using band_end_ge[of lower] by simp
qed simp

declare minimum_budget_from.simps [simp del]

definition minimum_budget :: "(nat \<Rightarrow> (json \<times> nat) res) \<Rightarrow> nat \<Rightarrow> nat option res" where
  "minimum_budget proj provided = minimum_budget_from proj (provided + 1)"

section \<open>The resume\<close>

definition resume_budget_error :: "nat \<Rightarrow> nat option \<Rightarrow> exn" where
  "resume_budget_error provided minimum =
     Exn ResumeBudgetError ''budget_too_small_for_resume_snapshot''
       (case minimum of
          None \<Rightarrow> None
        | Some m \<Rightarrow> Some (''minimum_budget_bytes='' @ show_nat m @ '', provided_budget_bytes='' @ show_nat provided))"

definition resume_retrieval ::
    "nat \<Rightarrow> lexicon \<Rightarrow> sqlite \<Rightarrow> clock \<Rightarrow> json \<Rightarrow> string \<Rightarrow> string \<Rightarrow> os \<Rightarrow> nat \<Rightarrow> json option res" where
  "resume_retrieval n lx sq here query profile revision s limit =
     (if query = JNull then Inr None
      else andthen (retrieve n lx sq here
        \<lparr>rq_query = str_of query, rq_budget = int limit, rq_fixed = 0, rq_per_record = 0, rq_profile = profile,
         rq_streams = Some [''facts'', ''events'', ''episodes''], rq_freshness = None, rq_now = None, rq_stale = JNull,
         rq_revision = Some revision\<rparr> s) (\<lambda>found. Inr (Some found)))"

text \<open>The projection of the store for a query, as a function of the budget.\<close>

definition resume_projection ::
    "nat \<Rightarrow> lexicon \<Rightarrow> sqlite \<Rightarrow> clock \<Rightarrow> json \<Rightarrow> string \<Rightarrow> os \<Rightarrow> (nat \<Rightarrow> (json \<times> nat) res) res" where
  "resume_projection n lx sq here query profile s =
     andthen (read_current s) (\<lambda>revision.
     andthen (snapshot_at n (Some revision) True s) (\<lambda>frozen.
     andthen (resume_snapshot frozen) (\<lambda>(value, warnings).
       Inr (project (resume_retrieval n lx sq here query profile revision s)
         \<lparr>rb_revision = revision, rb_snapshot = value, rb_warnings = warnings\<rparr>))))"

definition check_resume_request :: "json \<Rightarrow> json \<Rightarrow> unit res" where
  "check_resume_request budget query =
     checks
       [ensure (is_proper_int budget \<and> \<not> int_of budget < 0) (value_raise ''invalid_resume_budget''),
        ensure (query = JNull \<or> is_str query \<and> str_of query \<noteq> []) (value_raise ''invalid_resume_query'')]"

definition within_budget :: "(nat \<Rightarrow> (json \<times> nat) res) \<Rightarrow> nat \<Rightarrow> json res" where
  "within_budget proj budget =
     andthen (proj budget) (\<lambda>(result, sz).
       if sz > budget
       then andthen (minimum_budget proj budget) (\<lambda>m. Inl (resume_budget_error budget m))
       else Inr result)"

definition resume :: "nat \<Rightarrow> lexicon \<Rightarrow> sqlite \<Rightarrow> clock \<Rightarrow> json \<Rightarrow> json \<Rightarrow> string \<Rightarrow> os \<Rightarrow> json res" where
  "resume n lx sq here budget query profile s =
     andthen (check_resume_request budget query) (\<lambda>_.
     andthen (resume_projection n lx sq here query profile s) (\<lambda>proj.
       within_budget proj (nat (int_of budget))))"

section \<open>The projection says its size\<close>

lemma size_at_fixed_point_exact:
  "size_at_fixed_point n build observed = Inr (value, sz) \<Longrightarrow> value = build sz \<and> sz = length (canonical_json value)"
proof (induction n build observed rule: size_at_fixed_point.induct)
  case (2 n build observed)
  show ?case
  proof (cases "int (length (canonical_json (build (nat (max observed 0))))) = observed")
    case True
    then obtain a where a: "observed = int a" by metis
    then have fixed: "length (canonical_json (build a)) = a" using True by simp
    then have "size_at_fixed_point (Suc n) build observed = Inr (build a, a)"
      unfolding a by (simp only: size_at_fixed_point.simps Let_def max_absorb1 of_nat_0_le_iff nat_int fixed refl if_True)
    with 2(2) have "build a = value \<and> a = sz" by (metis Pair_inject sum.inject(2))
    then show ?thesis using fixed by metis
  next
    case False
    then have "size_at_fixed_point n build (int (length (canonical_json (build (nat (max observed 0)))))) = Inr (value, sz)"
      using 2(2) by (simp only: size_at_fixed_point.simps Let_def if_False)
    from 2(1)[OF refl refl False this] show ?thesis .
  qed
qed simp

lemma resume_sized_exact:
  "resume_sized rb retrieval limit evidence dropped = Inr (value, sz) \<Longrightarrow>
   value = resume_body rb retrieval limit evidence dropped sz \<and> sz = length (canonical_json value)"
  unfolding resume_sized_def by (rule size_at_fixed_point_exact)

text \<open>A projection of a budget: a result of that budget, with its size.\<close>

definition sized_result :: "resume_base \<Rightarrow> nat \<Rightarrow> json \<times> nat \<Rightarrow> bool" where
  "sized_result rb limit = (\<lambda>(value, sz). sz = length (canonical_json value) \<and>
     (\<exists>retrieval evidence dropped. value = resume_body rb retrieval limit evidence dropped sz))"

lemma resume_sized_sized:
  "resume_sized rb retrieval limit evidence dropped = Inr result \<Longrightarrow> sized_result rb limit result"
proof (cases result)
  case (Pair doc sz)
  assume "resume_sized rb retrieval limit evidence dropped = Inr result"
  then show ?thesis unfolding Pair sized_result_def prod.case using resume_sized_exact by blast
qed

lemma trim_evidence_sized:
  "trim_evidence rb retrieval limit evidence dropped = Inr result \<Longrightarrow> sized_result rb limit result"
proof (induction rb retrieval limit evidence dropped rule: trim_evidence.induct)
  case (1 rb retrieval limit evidence dropped)
  obtain doc sz where vs: "resume_sized rb retrieval limit evidence dropped = Inr (doc, sz)"
    using 1(2) by (subst (asm) trim_evidence.simps) auto
  show ?case
  proof (cases "sz > limit \<and> evidence \<noteq> []")
    case True
    then have "trim_evidence rb retrieval limit (butlast evidence) (Suc dropped) = Inr result"
      using 1(2) vs by (subst (asm) trim_evidence.simps) simp
    then show ?thesis using 1(1)[OF True] by simp
  next
    case False
    then have "result = (doc, sz)" using 1(2) vs by (subst (asm) trim_evidence.simps) auto
    then show ?thesis using resume_sized_sized[OF vs] by simp
  qed
qed

lemma project_sized:
  assumes "project retrieval_at rb limit = Inr result"
  shows "sized_result rb limit result"
proof -
  obtain retrieval doc base where r: "resume_sized rb retrieval limit [] 0 = Inr (doc, base)"
    and rest: "(if base > limit then Inr (doc, base)
      else andthen (add_evidence rb retrieval limit
          (case retrieval of None \<Rightarrow> [] | Some found \<Rightarrow> list_items (get ''selected'' found)) [] 0) (\<lambda>(evidence, dropped).
        trim_evidence rb retrieval limit evidence dropped)) = Inr result"
    using assms by (auto simp: project_def)
  show ?thesis
  proof (cases "base > limit")
    case True
    then show ?thesis using resume_sized_sized[OF r] rest by simp
  next
    case False
    then show ?thesis using rest by (auto dest: trim_evidence_sized)
  qed
qed

section \<open>The minimum that is named is enough\<close>

lemma climb_band_spec:
  "climb_band proj last_one n candidate = Inr (Fits m) \<Longrightarrow> candidate \<le> last_one \<Longrightarrow>
   candidate \<le> m \<and> m \<le> last_one \<and> (\<exists>r sz. proj m = Inr (r, sz) \<and> sz \<le> m)"
proof (induction proj last_one n candidate rule: climb_band.induct)
  case (2 proj last_one n candidate)
  obtain r sz where p: "proj candidate = Inr (r, sz)" using 2(2) by auto
  consider "sz \<le> candidate" | "sz > candidate" "sz \<le> last_one" using 2(2) p by (force split: if_split_asm)
  then show ?case
  proof cases
    case 1
    then show ?thesis using 2(2,3) p by auto
  next
    case between: 2
    then have "climb_band proj last_one n sz = Inr (Fits m)" using 2(2) p by simp
    from 2(1)[OF _ _ this] between show ?thesis by simp
  qed
qed simp

lemma climb_band_error: "climb_band proj last_one n candidate = Inl e \<Longrightarrow> \<exists>b. proj b = Inl e"
proof (induction proj last_one n candidate rule: climb_band.induct)
  case (2 proj last_one n candidate)
  then show ?case by (cases "proj candidate") (auto split: if_split_asm)
qed simp

lemma minimum_budget_from_band:
  "lower \<le> MAX_BUDGET_BYTES \<Longrightarrow>
   minimum_budget_from proj lower = andthen (climb_band proj (band_end lower) 64 lower) (\<lambda>result.
     case result of Fits candidate \<Rightarrow> Inr (Some candidate)
     | Band_Over \<Rightarrow> minimum_budget_from proj (band_end lower + 1) | Unsettled \<Rightarrow> Inr None)"
  "\<not> lower \<le> MAX_BUDGET_BYTES \<Longrightarrow> minimum_budget_from proj lower = Inr None"
  by (subst minimum_budget_from.simps, simp)+

lemma minimum_budget_from_spec:
  "minimum_budget_from proj lower = Inr (Some m) \<Longrightarrow>
   lower \<le> m \<and> m \<le> MAX_BUDGET_BYTES \<and> (\<exists>r sz. proj m = Inr (r, sz) \<and> sz \<le> m)"
proof (induction proj lower rule: minimum_budget_from.induct)
  case (1 proj lower)
  have le: "lower \<le> MAX_BUDGET_BYTES" using 1(2) minimum_budget_from_band(2)[of lower proj] by auto
  note eq = minimum_budget_from_band(1)[OF le, of proj]
  note band = band_end_ge[OF le]
  have top: "band_end lower \<le> MAX_BUDGET_BYTES" by (simp add: band_end_def)
  obtain c where c: "climb_band proj (band_end lower) 64 lower = Inr c"
    and rest: "(case c of Fits x \<Rightarrow> Inr (Some x) | Band_Over \<Rightarrow> minimum_budget_from proj (band_end lower + 1)
      | Unsettled \<Rightarrow> Inr None) = Inr (Some m)"
    using 1(2)[unfolded eq andthen_Inr_iff] by blast
  show ?case
  proof (cases c)
    case (Fits x)
    then have "climb_band proj (band_end lower) 64 lower = Inr (Fits m)" using c rest by simp
    from climb_band_spec[OF this band] top show ?thesis by auto
  next
    case Band_Over
    then have "minimum_budget_from proj (band_end lower + 1) = Inr (Some m)" using rest by simp
    from 1(1)[OF le this] band show ?thesis by auto
  qed (use rest in simp)
qed

lemma minimum_budget_from_error: "minimum_budget_from proj lower = Inl e \<Longrightarrow> \<exists>b. proj b = Inl e"
proof (induction proj lower rule: minimum_budget_from.induct)
  case (1 proj lower)
  have le: "lower \<le> MAX_BUDGET_BYTES" using 1(2) minimum_budget_from_band(2)[of lower proj] by auto
  note eq = minimum_budget_from_band(1)[OF le, of proj]
  show ?case
  proof (cases "climb_band proj (band_end lower) 64 lower")
    case (Inl e')
    then have "e' = e" using 1(2)[unfolded eq] by simp
    then show ?thesis using climb_band_error[OF Inl] by simp
  next
    case (Inr c)
    then have "c = Band_Over" "minimum_budget_from proj (band_end lower + 1) = Inl e"
      using 1(2)[unfolded eq Inr andthen.simps] by (simp_all split: climb.split_asm)
    then show ?thesis using 1(1)[OF le] by blast
  qed
qed

lemma within_budget_spec:
  "case within_budget proj budget of
     Inr r \<Rightarrow> \<exists>sz. proj budget = Inr (r, sz) \<and> sz \<le> budget
   | Inl e \<Rightarrow> (\<exists>b. proj b = Inl e) \<or> (\<exists>m. e = resume_budget_error budget m \<and>
       (case m of None \<Rightarrow> True | Some enough \<Rightarrow> budget < enough \<and> enough \<le> MAX_BUDGET_BYTES \<and>
          (\<exists>r. within_budget proj enough = Inr r)))"
proof (cases "proj budget")
  case (Inl e)
  then show ?thesis by (auto simp: within_budget_def)
next
  case (Inr result)
  obtain r sz where rs: "result = (r, sz)" by (cases result)
  show ?thesis
  proof (cases "sz > budget")
    case False
    then show ?thesis using Inr rs by (simp add: within_budget_def)
  next
    case True
    show ?thesis
    proof (cases "minimum_budget proj budget")
      case (Inl e)
      then show ?thesis using Inr rs True minimum_budget_from_error[of proj "budget + 1" e]
        by (simp add: within_budget_def minimum_budget_def)
    next
      case m: (Inr m)
      have run: "within_budget proj budget = Inl (resume_budget_error budget m)"
        using Inr rs True m by (simp add: within_budget_def)
      show ?thesis
      proof (cases m)
        case None
        then show ?thesis using run by auto
      next
        case (Some enough)
        have "minimum_budget_from proj (budget + 1) = Inr (Some enough)"
          using m Some by (simp add: minimum_budget_def)
        from minimum_budget_from_spec[OF this] obtain r' sz' where "budget < enough" "enough \<le> MAX_BUDGET_BYTES"
          "proj enough = Inr (r', sz')" "sz' \<le> enough" by auto
        then have "budget < enough \<and> enough \<le> MAX_BUDGET_BYTES \<and> (\<exists>r. within_budget proj enough = Inr r)"
          by (simp add: within_budget_def)
        then show ?thesis unfolding run sum.case using Some by (intro disjI2 exI[of _ m]) simp
      qed
    qed
  qed
qed

text \<open>C34: A resume fits the budget it was given and says so: the result carries the budget and its own
  exact size, which is at most the budget. A refusal for lack of budget that names a minimum names a
  larger budget, at most the ceiling, with which the same call on the same store returns; every other
  failure is one of the request, of the store, or of the projection at some budget.\<close>

theorem resume_fits:
  "case resume n lx sq here budget query profile s of
     Inr r \<Rightarrow> get ''budget_bytes'' r = budget \<and> get ''used_bytes'' r = JInt (int (length (canonical_json r))) \<and>
       int (length (canonical_json r)) \<le> int_of budget
   | Inl e \<Rightarrow> check_resume_request budget query = Inl e \<or> resume_projection n lx sq here query profile s = Inl e \<or>
       (\<exists>proj b. resume_projection n lx sq here query profile s = Inr proj \<and> proj b = Inl e) \<or>
       (\<exists>m. e = resume_budget_error (nat (int_of budget)) m \<and>
         (case m of None \<Rightarrow> True | Some enough \<Rightarrow> int_of budget < int enough \<and> enough \<le> MAX_BUDGET_BYTES \<and>
            (\<exists>r. resume n lx sq here (JInt (int enough)) query profile s = Inr r)))"
proof (cases "check_resume_request budget query")
  case (Inl e)
  then show ?thesis by (simp add: resume_def)
next
  case checked: (Inr u)
  then have int: "is_proper_int budget" "0 \<le> int_of budget" and q: "query = JNull \<or> is_str query \<and> str_of query \<noteq> []"
    by (auto simp: check_resume_request_def)
  have b: "budget = JInt (int_of budget)" using int(1) by (cases budget) auto
  show ?thesis
  proof (cases "resume_projection n lx sq here query profile s")
    case (Inl e)
    then show ?thesis using checked by (simp add: resume_def)
  next
    case (Inr proj)
    let ?b = "nat (int_of budget)"
    have run: "resume n lx sq here budget query profile s = within_budget proj ?b"
      using checked Inr by (simp add: resume_def)
    have "check_resume_request (JInt (int k)) query = Inr ()" for k
      using q by (simp add: check_resume_request_def)
    then have again: "resume n lx sq here (JInt (int k)) query profile s = within_budget proj k" for k
      using Inr by (simp add: resume_def)
    obtain revision rb where proj: "proj = project (resume_retrieval n lx sq here query profile revision s) rb"
      using Inr by (auto simp: resume_projection_def)
    show ?thesis
    proof (cases "within_budget proj ?b")
      case ok: (Inr r)
      then obtain sz where p: "proj ?b = Inr (r, sz)" "sz \<le> ?b"
        using within_budget_spec[of proj ?b] by auto
      then have "sized_result rb ?b (r, sz)" using project_sized proj by metis
      then obtain retrieval evidence dropped where sz: "sz = length (canonical_json r)"
        and r: "r = resume_body rb retrieval ?b evidence dropped sz"
        unfolding sized_result_def prod.case by blast
      have "get ''budget_bytes'' r = JInt (int ?b)" "get ''used_bytes'' r = JInt (int sz)"
        unfolding r by (simp_all add: resume_body_def)
      then show ?thesis unfolding run ok sum.case using b[symmetric] int(2) p(2) sz by simp
    next
      case (Inl e)
      then have "(\<exists>b. proj b = Inl e) \<or> (\<exists>m. e = resume_budget_error ?b m \<and>
         (case m of None \<Rightarrow> True | Some enough \<Rightarrow> ?b < enough \<and> enough \<le> MAX_BUDGET_BYTES \<and>
            (\<exists>r. within_budget proj enough = Inr r)))"
        using within_budget_spec[of proj ?b] by simp
      then consider (here) b where "proj b = Inl e"
        | (budget) m where "e = resume_budget_error ?b m"
          "case m of None \<Rightarrow> True | Some enough \<Rightarrow> ?b < enough \<and> enough \<le> MAX_BUDGET_BYTES \<and>
            (\<exists>r. within_budget proj enough = Inr r)" by blast
      then show ?thesis unfolding run Inl sum.case
      proof cases
        case here
        then show "check_resume_request budget query = Inl e \<or> resume_projection n lx sq here query profile s = Inl e \<or>
          (\<exists>proj b. resume_projection n lx sq here query profile s = Inr proj \<and> proj b = Inl e) \<or>
          (\<exists>m. e = resume_budget_error ?b m \<and>
           (case m of None \<Rightarrow> True | Some enough \<Rightarrow> int_of budget < int enough \<and> enough \<le> MAX_BUDGET_BYTES \<and>
            (\<exists>r. resume n lx sq here (JInt (int enough)) query profile s = Inr r)))" using Inr by blast
      next
        case (budget m)
        have "case m of None \<Rightarrow> True | Some enough \<Rightarrow> int_of budget < int enough \<and> enough \<le> MAX_BUDGET_BYTES \<and>
            (\<exists>r. resume n lx sq here (JInt (int enough)) query profile s = Inr r)"
          unfolding again using budget(2) int(2) by (auto simp: zless_nat_eq_int_zless nat_less_iff split: option.splits)
        then show "check_resume_request budget query = Inl e \<or> resume_projection n lx sq here query profile s = Inl e \<or>
          (\<exists>proj b. resume_projection n lx sq here query profile s = Inr proj \<and> proj b = Inl e) \<or>
          (\<exists>m. e = resume_budget_error ?b m \<and>
           (case m of None \<Rightarrow> True | Some enough \<Rightarrow> int_of budget < int enough \<and> enough \<le> MAX_BUDGET_BYTES \<and>
            (\<exists>r. resume n lx sq here (JInt (int enough)) query profile s = Inr r)))" using budget(1) by blast
      qed
    qed
  qed
qed

end
