(* ===== verification/ContextView.thy ===== *)
theory ContextView
  imports Resume Lifecycle
begin

text \<open>
  The view of a revision by subject (\<open>context_view.py\<close>): the records of a snapshot grouped by their subject
  reference, each with its governed state, served in pages that keep a limit and a byte budget and are
  continued by a cursor. The theorems: a page fits and serves the next subjects in order, following the
  cursors serves every subject once, and the view calls active the records that retrieval serves.
\<close>

section \<open>Inputs\<close>

text \<open>What a caller passes, as it is: \<open>JNull\<close> is \<open>None\<close>.\<close>

record view_request =
  vr_revision :: json
  vr_streams :: json
  vr_subject_filter :: json
  vr_projection :: json
  vr_limit :: json
  vr_budget :: json
  vr_now :: json
  vr_stale :: json

record view_identity =
  vi_revision :: string
  vi_streams :: "string list"
  vi_subject_filter :: json
  vi_projection :: string
  vi_now :: "(datetime \<times> string) option"
  vi_stale :: json

definition CONTRACT_VERSION :: string where
  "CONTRACT_VERSION = ''g-view/v1''"

definition PROJECTIONS :: "string list" where
  "PROJECTIONS = [''metadata'', ''text'', ''full'']"

definition MAX_CURSOR_CHARS :: nat where
  "MAX_CURSOR_CHARS = 16384"

definition invalid_view :: "string \<Rightarrow> exn" where
  "invalid_view detail = Exn ContextViewError ''view_invalid_inputs'' (Some detail)"

definition normalize_streams :: "json \<Rightarrow> string list res" where
  "normalize_streams v =
     (case v of
        JNull \<Rightarrow> Inr STREAMS
      | JArr xs \<Rightarrow>
          if \<not> (1 \<le> length xs \<and> length xs \<le> length STREAMS) then Inl (invalid_view ''streams'')
          else if list_ex (\<lambda>x. \<not> (is_str x \<and> str_of x \<in> set STREAMS)) xs then Inl (invalid_view ''streams'')
          else Inr (filter (\<lambda>stream. JStr stream \<in> set xs) STREAMS)
      | _ \<Rightarrow> Inl (invalid_view ''streams''))"

definition normalize_now :: "json \<Rightarrow> (datetime \<times> string) option res" where
  "normalize_now v =
     (if v = JNull then Inr None
      else except_as (\<lambda>e. exn_class e = TemporalError) (invalid_view ''now'')
        (andthen (parse_freshness_now v) (\<lambda>d. andthen (format_utc (d, Some 0)) (\<lambda>text. Inr (Some (d, text))))))"

text \<open>The identity of the view, the limit and the budget.\<close>

definition normalize_inputs :: "view_request \<Rightarrow> (view_identity \<times> nat \<times> nat) res" where
  "normalize_inputs vr =
     andthen (ensure (is_str (vr_revision vr) \<and> succeeds (bare_digest (str_of (vr_revision vr)))) (invalid_view ''revision''))
       (\<lambda>_.
     andthen (normalize_streams (vr_streams vr)) (\<lambda>chosen.
     andthen (checks
       [ensure (vr_subject_filter vr = JNull \<or> succeeds (parse_subject_ref (vr_subject_filter vr))) (invalid_view ''subject_filter''),
        ensure (is_str (vr_projection vr) \<and> str_of (vr_projection vr) \<in> set PROJECTIONS) (invalid_view ''projection''),
        ensure (\<not> (vr_projection vr = JStr ''full'' \<and> vr_subject_filter vr = JNull)) (invalid_view ''subject_filter''),
        ensure (is_proper_int (vr_limit vr) \<and> \<not> int_of (vr_limit vr) \<le> 0) (invalid_view ''limit''),
        ensure (is_proper_int (vr_budget vr) \<and> 1 \<le> int_of (vr_budget vr) \<and> int_of (vr_budget vr) \<le> int MAX_BUDGET_BYTES)
          (invalid_view ''budget_bytes'')]) (\<lambda>_.
     andthen (normalize_now (vr_now vr)) (\<lambda>now.
     andthen (except_as (\<lambda>e. exn_class e = TemporalError) (invalid_view ''stale_after_days'')
       (validate_stale_after_days (vr_stale vr))) (\<lambda>threshold.
     andthen (ensure (\<not> (threshold \<noteq> None \<and> now = None)) (invalid_view ''stale_after_days'')) (\<lambda>_.
       Inr (\<lparr>vi_revision = str_of (vr_revision vr), vi_streams = chosen, vi_subject_filter = vr_subject_filter vr,
             vi_projection = str_of (vr_projection vr), vi_now = now,
             vi_stale = (case threshold of None \<Rightarrow> JNull | Some n \<Rightarrow> JInt n)\<rparr>,
            nat (int_of (vr_limit vr)), nat (int_of (vr_budget vr)))))))))"

definition identity_fields :: "view_identity \<Rightarrow> (string \<times> json) list" where
  "identity_fields vi =
     [(''revision'', JStr (vi_revision vi)), (''streams'', JArr (map JStr (vi_streams vi))),
      (''subject_filter'', vi_subject_filter vi), (''projection'', JStr (vi_projection vi)),
      (''now'', case vi_now vi of None \<Rightarrow> JNull | Some (_, text) \<Rightarrow> JStr text), (''stale_after_days'', vi_stale vi)]"

definition identity_digest :: "view_identity \<Rightarrow> string" where
  "identity_digest vi =
     digest_json (mk_obj (identity_fields vi @ [(''contract_version'', JStr CONTRACT_VERSION)]))"

section \<open>Cursors\<close>

text \<open>\<open>bytes.hex\<close> and \<open>bytes.fromhex\<close>, which skips blanks between bytes and reads both cases.\<close>

definition bytes_hex :: "string \<Rightarrow> string" where
  "bytes_hex s = concat (map (\<lambda>c. [hex_digit (of_char c div 16), hex_digit (of_char c mod 16)]) s)"

definition hex_value :: "char \<Rightarrow> nat option" where
  "hex_value c =
     (let n = of_char c :: nat in
      if 48 \<le> n \<and> n \<le> 57 then Some (n - 48)
      else if 97 \<le> n \<and> n \<le> 102 then Some (n - 87)
      else if 65 \<le> n \<and> n \<le> 70 then Some (n - 55)
      else None)"

definition ascii_blank :: "char \<Rightarrow> bool" where
  "ascii_blank c \<longleftrightarrow> (let n = of_char c :: nat in n = 32 \<or> 9 \<le> n \<and> n \<le> 13)"

fun from_hex :: "string \<Rightarrow> string option" where
  "from_hex [] = Some []"
| "from_hex [c] = (if ascii_blank c then Some [] else None)"
| "from_hex (c # d # s) =
     (if ascii_blank c then from_hex (d # s)
      else case (hex_value c, hex_value d, from_hex s) of
          (Some h, Some l, Some bytes) \<Rightarrow> Some (char_of (16 * h + l) # bytes)
        | _ \<Rightarrow> None)"

definition cursor_fields :: "string \<Rightarrow> string \<Rightarrow> string \<Rightarrow> (string \<times> json) list" where
  "cursor_fields revision identity next_subject =
     [(''v'', JStr CONTRACT_VERSION), (''r'', JStr revision), (''ih'', JStr identity), (''n'', JStr next_subject)]"

definition cursor_document :: "string \<Rightarrow> string \<Rightarrow> string \<Rightarrow> json" where
  "cursor_document revision identity next_subject =
     mk_obj (cursor_fields revision identity next_subject @
       [(''d'', JStr (digest_json (mk_obj (cursor_fields revision identity next_subject))))])"

definition encode_cursor :: "string \<Rightarrow> string \<Rightarrow> string \<Rightarrow> string" where
  "encode_cursor revision identity next_subject =
     bytes_hex (canonical_json (cursor_document revision identity next_subject))"

fun position :: "'a \<Rightarrow> 'a list \<Rightarrow> nat option" where
  "position x [] = None"
| "position x (y # ys) = (if x = y then Some 0 else map_option Suc (position x ys))"

definition cursor_matches :: "string \<Rightarrow> string \<Rightarrow> string \<Rightarrow> json \<Rightarrow> bool" where
  "cursor_matches cursor revision identity document \<longleftrightarrow>
     is_obj document \<and> set (dict_keys document) = {''v'', ''r'', ''ih'', ''n'', ''d''} \<and> encodable document \<and>
     bytes_hex (canonical_json document) = cursor \<and>
     get ''d'' document = JStr (digest_json (mk_obj (map (\<lambda>k. (k, get k document)) [''v'', ''r'', ''ih'', ''n'']))) \<and>
     get ''v'' document = JStr CONTRACT_VERSION \<and> get ''r'' document = JStr revision \<and>
     get ''ih'' document = JStr identity \<and> is_str (get ''n'' document)"

text \<open>\<open>None\<close> is the rejection of the cursor.\<close>

definition decode_cursor :: "json \<Rightarrow> string \<Rightarrow> string \<Rightarrow> string list \<Rightarrow> nat option" where
  "decode_cursor cursor revision identity subjects =
     (case cursor of
        JNull \<Rightarrow> Some 0
      | JStr text \<Rightarrow>
          if text = [] \<or> code_points text > MAX_CURSOR_CHARS then None
          else (case from_hex text of
              None \<Rightarrow> None
            | Some bytes \<Rightarrow>
                (case json_loads bytes of
                   Inl _ \<Rightarrow> None
                 | Inr document \<Rightarrow>
                     if cursor_matches text revision identity document
                     then position (str_of (get ''n'' document)) subjects else None))
      | _ \<Rightarrow> None)"

section \<open>The universe of a view\<close>

type_synonym link = "string \<times> string \<times> string"

record universe =
  uv_refs :: "string list"
  uv_rows :: "string \<Rightarrow> (string \<times> json) list"
  uv_links :: "string \<times> string \<Rightarrow> link list"
  uv_refuted :: "(string \<times> string) list"
  uv_superseded :: "(string \<times> string) list"
  uv_missing :: json
  uv_warnings :: "string list"

definition supersede_link :: "json \<Rightarrow> link res" where
  "supersede_link entry =
     andthen (subscript ''stream'' entry) (\<lambda>stream.
     andthen (subscript ''target_id'' entry) (\<lambda>target.
     andthen (subscript ''sustituida_por'' entry) (\<lambda>successor.
       Inr (py_str stream, py_str target, py_str successor))))"

text \<open>A link is filed under its target and under its successor.\<close>

definition links_of :: "link list \<Rightarrow> string \<times> string \<Rightarrow> link list" where
  "links_of links key =
     sort (concat (map (\<lambda>(stream, target, successor).
       (if (stream, target) = key then [(stream, target, successor)] else []) @
       (if (stream, successor) = key then [(stream, target, successor)] else [])) links))"

definition key_pair :: "string \<Rightarrow> json \<Rightarrow> (string \<times> string) res" where
  "key_pair field entry =
     andthen (subscript ''stream'' entry) (\<lambda>stream. andthen (subscript field entry) (\<lambda>target. Inr (py_str stream, py_str target)))"

definition stream_rows :: "snapshot \<Rightarrow> string list \<Rightarrow> (string \<times> json) list" where
  "stream_rows snap chosen = concat (map (\<lambda>stream. map (Pair stream) (snap_raw snap stream)) chosen)"

definition check_subject :: "string \<times> json \<Rightarrow> unit res" where
  "check_subject = (\<lambda>(stream, raw).
     if has_key ''subject_ref'' raw \<and> \<not> succeeds (parse_subject_ref (get ''subject_ref'' raw))
     then Inl (invalid_view (''invalid_subject_ref:'' @ stream @ '':'' @ digest_json raw)) else Inr ())"

definition viewed_rows :: "snapshot \<Rightarrow> string list \<Rightarrow> json \<Rightarrow> (string \<times> json) list" where
  "viewed_rows snap chosen subject_filter =
     filter (\<lambda>(_, raw). has_key ''subject_ref'' raw \<and>
       (subject_filter = JNull \<or> get ''subject_ref'' raw = subject_filter)) (stream_rows snap chosen)"

definition row_namespace :: "json \<Rightarrow> string" where
  "row_namespace raw = (case parse_subject_ref (get ''subject_ref'' raw) of Inl _ \<Rightarrow> [] | Inr parsed \<Rightarrow> subject_namespace parsed)"

definition subject_text :: "json \<Rightarrow> string" where
  "subject_text raw = py_str (get ''subject_ref'' raw)"

definition missing_count :: "snapshot \<Rightarrow> string \<Rightarrow> nat" where
  "missing_count snap stream = length (filter (\<lambda>raw. \<not> has_key ''subject_ref'' raw) (snap_raw snap stream))"

definition derive_universe :: "snapshot \<Rightarrow> string list \<Rightarrow> json \<Rightarrow> universe res" where
  "derive_universe snap chosen subject_filter =
     andthen (items_of ''supersedes_map'' (snap_manifest snap)) (\<lambda>supersessions.
     andthen (traverse supersede_link supersessions) (\<lambda>links.
     andthen (items_of ''refutations_map'' (snap_manifest snap)) (\<lambda>refutations.
     andthen (traverse (key_pair ''target_record_sha256'') refutations) (\<lambda>refuted.
     andthen (traverse (key_pair ''target_id'') supersessions) (\<lambda>superseded.
     andthen (each check_subject (stream_rows snap chosen)) (\<lambda>_.
       let rows = viewed_rows snap chosen subject_filter in
       Inr \<lparr>uv_refs = sorted_set (map (\<lambda>(_, raw). subject_text raw) rows),
            uv_rows = (\<lambda>ref. filter (\<lambda>(_, raw). subject_text raw = ref) rows),
            uv_links = links_of links, uv_refuted = refuted, uv_superseded = superseded,
            uv_missing = mk_obj (map (\<lambda>stream. (stream, JInt (int (missing_count snap stream)))) chosen),
            uv_warnings =
              (if list_ex (\<lambda>stream. missing_count snap stream \<noteq> 0) chosen
               then [''legacy_records_without_subject_ref''] else []) @
              (if length (remdups (map (\<lambda>(_, raw). row_namespace raw) rows)) > 1
               then [''multiple_namespaces_observed''] else [])\<rparr>))))))"

section \<open>A subject\<close>

text \<open>The state a record claims for itself, and the value it is read from.\<close>

definition physical_state :: "json \<Rightarrow> string \<times> json" where
  "physical_state raw =
     (let physical = (if has_key ''status'' raw then get ''status'' raw else get ''nu'' raw) in
      (if physical = JNull \<or> physical = JStr ''vigente'' \<or> physical = JStr ''active''
       then ''active'' else ''inactive_untrusted'', physical))"

definition governed_state :: "universe \<Rightarrow> string \<Rightarrow> json \<Rightarrow> string option" where
  "governed_state uv stream raw =
     (if (stream, digest_json raw) \<in> set (uv_refuted uv) then Some ''refuted''
      else if (stream, row_id raw) \<in> set (uv_superseded uv) then Some ''superseded''
      else None)"

definition lineage_refs :: "json \<Rightarrow> json" where
  "lineage_refs raw =
     (let refs = get ''refs'' (get ''lineage'' raw) in
      if is_obj (get ''lineage'' raw) \<and> is_arr refs then refs else JArr [])"

definition link_json :: "link \<Rightarrow> json" where
  "link_json = (\<lambda>(stream, target, successor).
     mk_obj [(''stream'', JStr stream), (''target_id'', JStr target), (''sustituida_por'', JStr successor)])"

definition view_freshness :: "view_identity \<Rightarrow> json \<Rightarrow> (string \<times> json) list res" where
  "view_freshness vi verified_at =
     (case vi_now vi of
        None \<Rightarrow> Inr []
      | Some (now, _) \<Rightarrow>
          andthen (compute_freshness verified_at (now, Some 0) (vi_stale vi)) (\<lambda>freshness.
            Inr (map (\<lambda>k. (k, get k freshness)) [''days_since_verified'', ''stale'', ''freshness_error''])))"

definition project_record :: "view_identity \<Rightarrow> universe \<Rightarrow> string \<times> json \<Rightarrow> json res" where
  "project_record vi uv = (\<lambda>(stream, raw).
     let governed = governed_state uv stream raw; (claimed, physical) = physical_state raw;
         verified_at = get ''verified_at'' raw in
     andthen (view_freshness vi verified_at) (\<lambda>freshness.
     Inr (mk_obj
       ([(''subject_ref'', JStr (subject_text raw)), (''stream'', JStr stream), (''id'', JStr (row_id raw)),
         (''record_sha256'', JStr (digest_json raw)),
         (''state'', JStr (case governed of Some state \<Rightarrow> state | None \<Rightarrow> claimed)),
         (''state_source'', JStr (case governed of Some _ \<Rightarrow> ''governed_overlay'' | None \<Rightarrow> ''physical_status_untrusted'')),
         (''physical_status_untrusted'', physical), (''lineage_refs'', lineage_refs raw),
         (''supersede_links'', JArr (map link_json (uv_links uv (stream, row_id raw)))),
         (''untrusted_memory_data'', JBool True)] @
        (if is_str verified_at then [(''verified_at'', verified_at), (''self_asserted_timestamp'', JBool True)] else []) @
        freshness @
        (if vi_projection vi \<in> {''text'', ''full''} then [(''record_text'', JStr (record_text raw))] else []) @
        (if vi_projection vi = ''full'' then [(''record_raw'', raw)] else [])))))"

definition item_key :: "json \<Rightarrow> nat \<times> string" where
  "item_key item = (stream_index (str_of (get ''stream'' item)), str_of (get ''record_sha256'' item))"

definition history_key :: "json \<Rightarrow> bool \<times> string" where
  "history_key item =
     (let verified_at = get ''verified_at'' item in (is_str verified_at, if is_str verified_at then str_of verified_at else []))"

text \<open>\<open>sort(reverse=True)\<close> keeps the order of equal items: reverse, sort, reverse.\<close>

definition newest_first :: "json list \<Rightarrow> json list" where
  "newest_first items = rev (sort_key history_key (rev items))"

definition project_subject :: "view_identity \<Rightarrow> universe \<Rightarrow> string \<Rightarrow> json res" where
  "project_subject vi uv ref =
     andthen (traverse (project_record vi uv) (uv_rows uv ref)) (\<lambda>items.
       let alternatives = sort_key item_key (filter (\<lambda>item. get ''state'' item = JStr ''active'') items);
           history = sort_key item_key (filter (\<lambda>item. get ''state'' item \<noteq> JStr ''active'') items);
           texts = remdups (List.map_filter (\<lambda>item.
             if has_key ''record_text'' item then Some (get ''record_text'' item) else None) items);
           digests = remdups (map (get ''record_sha256'') items) in
       Inr (mk_obj
         ([(''subject_ref'', JStr ref), (''data_conflict'', JBool (length alternatives \<ge> 2)),
           (''alternatives'', JArr alternatives), (''history'', JArr (newest_first history))] @
          (if vi_projection vi = ''text'' \<and> length digests > length texts
           then [(''content_differs_beyond_text'', JBool True)] else []))))"

section \<open>Payloads\<close>

definition view_error :: "string \<Rightarrow> bool \<Rightarrow> (string \<times> json) list \<Rightarrow> json" where
  "view_error code retryable extra =
     mk_obj ([(''schema'', JStr ''an-kla/view-error-v1''), (''ok'', JBool False), (''code'', JStr code),
       (''retryable'', JBool retryable), (''untrusted_memory_data'', JBool True)] @ extra)"

definition view_inputs :: "view_identity \<Rightarrow> nat \<Rightarrow> nat \<Rightarrow> json" where
  "view_inputs vi limit budget =
     mk_obj (identity_fields vi @ [(''limit'', JInt (int limit)), (''budget_bytes'', JInt (int budget))])"

definition view_computed_at :: "view_identity \<Rightarrow> json" where
  "view_computed_at vi =
     (case vi_now vi of
        None \<Rightarrow> JNull
      | Some (_, text) \<Rightarrow>
          mk_obj [(''semantics'', JStr ''self_asserted_timestamp''), (''source_field'', JStr ''record.verified_at''),
            (''computed_at'', JStr text), (''stale_after_days'', vi_stale vi)])"

definition next_cursor :: "view_identity \<Rightarrow> universe \<Rightarrow> nat \<Rightarrow> json" where
  "next_cursor vi uv next_index =
     (if next_index \<ge> length (uv_refs uv) then JNull
      else JStr (encode_cursor (vi_revision vi) (identity_digest vi) (uv_refs uv ! next_index)))"

definition pagination :: "view_identity \<Rightarrow> universe \<Rightarrow> nat \<Rightarrow> nat \<Rightarrow> nat \<Rightarrow> nat \<Rightarrow> nat \<Rightarrow> json" where
  "pagination vi uv limit served next_index budget used =
     mk_obj
       [(''complete'', JBool (next_index \<ge> length (uv_refs uv))), (''next_cursor'', next_cursor vi uv next_index),
        (''served_subjects'', JInt (int served)), (''total_subjects'', JInt (int (length (uv_refs uv)))),
        (''truncated_subjects'', JInt (int (length (uv_refs uv)) - int next_index)),
        (''budget_used_bytes'', JInt (int used)), (''budget_bytes'', JInt (int budget)), (''limit'', JInt (int limit))]"

definition view_payload :: "view_identity \<Rightarrow> universe \<Rightarrow> nat \<Rightarrow> json list \<Rightarrow> nat \<Rightarrow> nat \<Rightarrow> nat \<Rightarrow> json" where
  "view_payload vi uv limit selected next_index budget used =
     mk_obj
       [(''schema'', JStr ''an-kla/context-view-v1''), (''contract_version'', JStr CONTRACT_VERSION),
        (''serialization'', JStr ''canonical-json/v1''), (''canonicality'', JStr ''non-authoritative''),
        (''untrusted_memory_data'', JBool True), (''host_framing_unmeasured'', JBool True),
        (''live_revalidation_performed'', JBool False),
        (''consumer_action_required'', JStr ''revalidate_against_canonical_sources_before_action''),
        (''revision'', JStr (vi_revision vi)), (''inputs'', view_inputs vi limit budget),
        (''freshness'', view_computed_at vi), (''subjects_without_subject_ref'', uv_missing uv),
        (''subjects'', JArr selected),
        (''pagination'', pagination vi uv limit (length selected) next_index budget used),
        (''warnings'', JArr (map JStr (uv_warnings uv)))]"

definition fixed :: "(nat \<Rightarrow> json) \<Rightarrow> json res" where
  "fixed build = andthen (exact_sized_payload build 16) (\<lambda>(payload, _). Inr payload)"

text \<open>The smallest budget above \<open>provided\<close> for which \<open>build budget\<close> fits; a size that does not settle ends
  the search.\<close>

function view_minimum_from :: "(nat \<Rightarrow> nat \<Rightarrow> json) \<Rightarrow> nat \<Rightarrow> nat option" where
  "view_minimum_from build lower =
     (if lower \<le> MAX_BUDGET_BYTES
      then case fixed (build lower) of
          Inl _ \<Rightarrow> None
        | Inr sample \<Rightarrow>
            let candidate = max lower (length (canonical_json sample)) in
            if candidate \<le> band_end lower
            then (case fixed (build candidate) of
                Inl _ \<Rightarrow> None
              | Inr checked \<Rightarrow>
                  if length (canonical_json checked) \<le> candidate then Some candidate
                  else view_minimum_from build (band_end lower + 1))
            else view_minimum_from build (band_end lower + 1)
      else None)"
  by pat_completeness auto
termination
proof (relation "measure (\<lambda>(_, lower). MAX_BUDGET_BYTES + 1 - lower)", goal_cases)
  case (2 build lower)
  then show ?case using band_end_ge[of lower] by simp
next
  case (3 build lower)
  then show ?case using band_end_ge[of lower] by simp
qed simp

declare view_minimum_from.simps [simp del]

definition view_minimum :: "(nat \<Rightarrow> nat \<Rightarrow> json) \<Rightarrow> nat \<Rightarrow> nat option" where
  "view_minimum build provided = view_minimum_from build (provided + 1)"

section \<open>A page\<close>

text \<open>The exceptions that mean an ambiguous rule; any other is an internal error.\<close>

definition rule_error :: "exn \<Rightarrow> json" where
  "rule_error e =
     view_error (if exn_class e \<in> {KeyError, TypeError} \<or> is_value_error e then ''view_rule_ambiguous''
                 else ''view_internal_error'') False []"

fun serve :: "(string \<Rightarrow> json res) \<Rightarrow> (json list \<Rightarrow> nat \<Rightarrow> json res) \<Rightarrow> nat \<Rightarrow> nat \<Rightarrow>
    string list \<Rightarrow> nat \<Rightarrow> json list \<Rightarrow> json + (json list \<times> nat)" where
  "serve projected sized_with limit budget [] index selected = Inr (selected, index)"
| "serve projected sized_with limit budget (ref # refs) index selected =
     (if \<not> length selected < limit then Inr (selected, index)
      else case projected ref of
          Inl e \<Rightarrow> Inl (rule_error e)
        | Inr subject_out \<Rightarrow>
            (case sized_with (selected @ [subject_out]) (index + 1) of
               Inl _ \<Rightarrow> Inl (view_error ''view_internal_error'' False [])
             | Inr measured \<Rightarrow>
                 if length (canonical_json measured) > budget then Inr (selected, index)
                 else serve projected sized_with limit budget refs (index + 1) (selected @ [subject_out])))"

text \<open>The refusal when something required does not fit: \<open>build\<close> is its payload at a budget.\<close>

definition too_large :: "string \<Rightarrow> json \<Rightarrow> (nat \<Rightarrow> nat \<Rightarrow> json) \<Rightarrow> nat \<Rightarrow> json \<Rightarrow> json" where
  "too_large code ref build budget cursor =
     (case view_minimum build budget of
        None \<Rightarrow> view_error ''view_budget_measurement_unavailable'' False
          [(''provided_budget_bytes'', JInt (int budget)), (''resume_cursor'', cursor)]
      | Some minimum \<Rightarrow> view_error code True
          [(''subject_ref'', ref), (''minimum_budget_bytes'', JInt (int minimum)),
           (''provided_budget_bytes'', JInt (int budget)), (''resume_cursor'', cursor)])"

definition finish_page :: "view_identity \<Rightarrow> universe \<Rightarrow> nat \<Rightarrow> nat \<Rightarrow> json \<Rightarrow> nat \<Rightarrow> json list \<times> nat \<Rightarrow> json" where
  "finish_page vi uv limit budget cursor start = (\<lambda>(selected, index).
     if selected = [] \<and> start < length (uv_refs uv)
     then case project_subject vi uv (uv_refs uv ! start) of
         Inl e \<Rightarrow> rule_error e
       | Inr first \<Rightarrow> too_large ''view_subject_exceeds_budget'' (JStr (uv_refs uv ! start))
           (view_payload vi uv limit [first] (start + 1)) budget cursor
     else case fixed (view_payload vi uv limit selected index budget) of
         Inl _ \<Rightarrow> view_error ''view_internal_error'' False []
       | Inr payload \<Rightarrow> payload)"

definition view_page :: "view_identity \<Rightarrow> universe \<Rightarrow> nat \<Rightarrow> nat \<Rightarrow> json \<Rightarrow> json" where
  "view_page vi uv limit budget cursor =
     (case decode_cursor cursor (vi_revision vi) (identity_digest vi) (uv_refs uv) of
        None \<Rightarrow> view_error ''view_cursor_invalid'' False []
      | Some start \<Rightarrow>
          (case fixed (view_payload vi uv limit [] start budget) of
             Inl _ \<Rightarrow> view_error ''view_internal_error'' False []
           | Inr envelope \<Rightarrow>
               if length (canonical_json envelope) > budget
               then too_large ''view_envelope_exceeds_budget'' JNull (view_payload vi uv limit [] start) budget cursor
               else case serve (project_subject vi uv) (\<lambda>selected index. fixed (view_payload vi uv limit selected index budget))
                      limit budget (drop start (uv_refs uv)) start [] of
                   Inl refusal \<Rightarrow> refusal
                 | Inr page \<Rightarrow> finish_page vi uv limit budget cursor start page))"

text \<open>The detail of an invalid reference names the stream and the digest of the record.\<close>

definition universe_error :: "exn \<Rightarrow> json" where
  "universe_error e =
     (case (exn_class e, exn_detail e) of
        (ContextViewError, Some detail) \<Rightarrow>
          if prefix ''invalid_subject_ref:'' detail
          then let rest = drop 20 detail; stream = takeWhile (\<lambda>c. c \<noteq> CHR '':'') rest in
            view_error ''view_invalid_subject_ref_in_revision'' False
              [(''detail'', mk_obj [(''stream'', JStr stream), (''record_sha256'', JStr (drop (length stream + 1) rest))])]
          else view_error ''view_rule_ambiguous'' False []
      | _ \<Rightarrow> rule_error e)"

definition snapshot_error :: "exn \<Rightarrow> json" where
  "snapshot_error e =
     view_error (if exn_class e = ReaderGateError then ''view_reader_gate_unavailable''
       else if exn_class e = IntegrityError \<and> exn_code e \<in> {''object_missing:revisions'', ''revision_archived_by_compaction''}
       then ''view_revision_not_available'' else ''view_internal_error'') False []"

definition invalid_inputs :: "exn \<Rightarrow> json" where
  "invalid_inputs e =
     view_error ''view_invalid_inputs'' False [(''detail'', case exn_detail e of None \<Rightarrow> JNull | Some d \<Rightarrow> JStr d)]"

text \<open>The view never raises: every failure is an error payload.\<close>

definition context_view :: "nat \<Rightarrow> view_request \<Rightarrow> json \<Rightarrow> os \<Rightarrow> json" where
  "context_view n vr cursor s =
     (case normalize_inputs vr of
        Inl e \<Rightarrow> invalid_inputs e
      | Inr (vi, limit, budget) \<Rightarrow>
          (case snapshot_under_gate n (Some (vi_revision vi)) True s of
             Inl e \<Rightarrow> snapshot_error e
           | Inr snap \<Rightarrow>
               (case derive_universe snap (vi_streams vi) (vi_subject_filter vi) of
                  Inl e \<Rightarrow> universe_error e
                | Inr uv \<Rightarrow> view_page vi uv limit budget cursor)))"

section \<open>A cursor is read back\<close>

lemma of_char_small: "n < 256 \<Longrightarrow> (of_char (char_of (n :: nat)) :: nat) = n"
  by simp

lemma hex_digit_read:
  assumes "d < 16"
  shows "hex_value (hex_digit d) = Some d" "\<not> ascii_blank (hex_digit d)" "(of_char (hex_digit d) :: nat) < 128"
proof -
  have "(of_char (hex_digit d) :: nat) = (if d < 10 then 48 + d else 87 + d)"
    using assms by (simp add: hex_digit_def of_char_small)
  then show "hex_value (hex_digit d) = Some d" "\<not> ascii_blank (hex_digit d)" "(of_char (hex_digit d) :: nat) < 128"
    using assms by (auto simp: hex_value_def ascii_blank_def Let_def)
qed

lemma from_hex_bytes_hex: "from_hex (bytes_hex s) = Some s"
proof (induction s)
  case (Cons c s)
  have n: "(of_char c :: nat) div 16 < 16" "(of_char c :: nat) mod 16 < 16"
    using nat_of_char_less_256[of c] by (auto simp: less_mult_imp_div_less)
  have "bytes_hex (c # s) = hex_digit (of_char c div 16) # hex_digit (of_char c mod 16) # bytes_hex s"
    by (simp add: bytes_hex_def)
  then show ?case using Cons hex_digit_read[OF n(1)] hex_digit_read[OF n(2)] by simp
qed (simp add: bytes_hex_def)

lemma bytes_hex_length: "length (bytes_hex s) = 2 * length s"
  by (induction s) (simp_all add: bytes_hex_def)

lemma code_points_le: "code_points s \<le> length s"
  by (simp add: code_points_def)

lemma escape_char_length: "length (escape_char c) \<le> 6"
  unfolding escape_char_def by (simp only: split: if_split) simp

lemma quote_length: "length (quote s) \<le> 6 * length s + 2"
proof (induction s)
  case (Cons c s)
  then show ?case using escape_char_length[of c] by (simp add: quote_def)
qed (simp add: quote_def)

lemma cursor_document_items:
  "dict_items (cursor_document revision identity ref) =
     [(''d'', JStr (digest_json (mk_obj (cursor_fields revision identity ref)))), (''ih'', JStr identity), (''n'', JStr ref),
      (''r'', JStr revision), (''v'', JStr CONTRACT_VERSION)]"
  "is_obj (cursor_document revision identity ref)"
  by (simp_all add: cursor_document_def cursor_fields_def mk_obj_def)

lemma cursor_document_storable:
  assumes "valid_utf8 revision" "valid_utf8 identity" "valid_utf8 ref"
  shows "storable (cursor_document revision identity ref)"
  using assms unfolding cursor_document_def cursor_fields_def CONTRACT_VERSION_def
  by (intro storable_mk_obj) (auto simp: valid_utf8_ascii)

lemma digest_length: "digest_shape d \<Longrightarrow> length d = 71"
  by (simp add: digest_shape_def)

lemma cursor_document_length:
  assumes "digest_shape revision" "digest_shape identity" "length ref \<le> 200" "valid_utf8 ref"
  shows "length (canonical_json (cursor_document revision identity ref)) \<le> 4000"
proof -
  let ?d = "digest_json (mk_obj (cursor_fields revision identity ref))"
  have doc: "cursor_document revision identity ref = JObj
     [(''d'', JStr ?d), (''ih'', JStr identity), (''n'', JStr ref), (''r'', JStr revision), (''v'', JStr CONTRACT_VERSION)]"
    using cursor_document_items[of revision identity ref] by (cases "cursor_document revision identity ref") auto
  have "wf_json (cursor_document revision identity ref)"
    using cursor_document_storable[of revision identity ref] assms by (simp add: storable_def)
  then have "canonical_json (cursor_document revision identity ref) = emit (cursor_document revision identity ref)"
    by (rule canonical_json_wf)
  moreover have "length (emit (cursor_document revision identity ref)) =
      length (quote ?d) + length (quote identity) + length (quote ref) + length (quote revision) +
      length (quote CONTRACT_VERSION) + length (quote ''d'') + length (quote ''ih'') + length (quote ''n'') +
      length (quote ''r'') + length (quote ''v'') + 11"
    unfolding doc by simp
  moreover have "length CONTRACT_VERSION = 9" by (simp add: CONTRACT_VERSION_def)
  ultimately show ?thesis
    using quote_length[of ?d] quote_length[of identity] quote_length[of ref] quote_length[of revision]
      quote_length[of CONTRACT_VERSION] quote_length[of "''d''"] quote_length[of "''ih''"] quote_length[of "''n''"]
      quote_length[of "''r''"] quote_length[of "''v''"] digest_length[OF assms(1)] digest_length[OF assms(2)]
      digest_length[OF digest_shape_digest_json, of "mk_obj (cursor_fields revision identity ref)"] assms(3)
    by simp
qed

lemma position_nth: "distinct xs \<Longrightarrow> i < length xs \<Longrightarrow> position (xs ! i) xs = Some i"
proof (induction xs arbitrary: i)
  case (Cons x xs)
  then show ?case by (cases i) auto
qed simp

lemma cursor_matches_encoded:
  assumes "valid_utf8 revision" "valid_utf8 identity" "valid_utf8 ref"
  shows "cursor_matches (encode_cursor revision identity ref) revision identity (cursor_document revision identity ref)"
proof -
  have "get k (cursor_document revision identity ref) =
      (case map_of (dict_items (cursor_document revision identity ref)) k of Some x \<Rightarrow> x | None \<Rightarrow> JNull)" for k
    by (simp add: get_def)
  note g = this[unfolded cursor_document_items(1)]
  show ?thesis
    using storable_encodable[OF cursor_document_storable[OF assms]]
    by (auto simp: cursor_matches_def encode_cursor_def cursor_document_items(2) dict_keys_def cursor_document_items(1) g
        cursor_fields_def)
qed

lemma decode_encode_cursor:
  assumes "digest_shape revision" "digest_shape identity" "distinct refs" "i < length refs"
    and "valid_utf8 (refs ! i)" "length (refs ! i) \<le> 200"
  shows "decode_cursor (JStr (encode_cursor revision identity (refs ! i))) revision identity refs = Some i"
proof -
  let ?doc = "cursor_document revision identity (refs ! i)"
  have utf8: "valid_utf8 revision" "valid_utf8 identity" using assms(1,2) by simp_all
  have loads: "json_loads (canonical_json ?doc) = Inr ?doc"
    using cursor_document_storable[OF utf8 assms(5)] by (rule canonical_json_loads)
  have short: "length (encode_cursor revision identity (refs ! i)) \<le> MAX_CURSOR_CHARS"
    using cursor_document_length[OF assms(1,2,6,5)] by (simp add: encode_cursor_def bytes_hex_length MAX_CURSOR_CHARS_def)
  then have "\<not> code_points (encode_cursor revision identity (refs ! i)) > MAX_CURSOR_CHARS"
    using code_points_le le_trans not_less by metis
  moreover have "canonical_json ?doc \<noteq> []"
    using cursor_document_storable[OF utf8 assms(5)] cursor_document_items(2)[of revision identity "refs ! i"]
    unfolding storable_def by (elim conjE) (drule canonical_json_wf, simp only:, erule is_obj.elims, simp_all)
  then have "encode_cursor revision identity (refs ! i) \<noteq> []"
    using bytes_hex_length[of "canonical_json ?doc"] unfolding encode_cursor_def by (metis length_0_conv mult_eq_0_iff zero_neq_numeral)
  moreover have "from_hex (encode_cursor revision identity (refs ! i)) = Some (canonical_json ?doc)"
    by (simp add: encode_cursor_def from_hex_bytes_hex)
  moreover have "get ''n'' ?doc = JStr (refs ! i)" by (simp add: get_def cursor_document_items(1))
  ultimately show ?thesis
    using loads cursor_matches_encoded[OF utf8 assms(5)] position_nth[OF assms(3,4)]
    by (simp add: decode_cursor_def)
qed

section \<open>What a universe holds\<close>

lemma subject_length:
  assumes "valid_subject p"
  shows "length (print_subject p) \<le> 200"
proof -
  have "list_all (\<lambda>k. length k \<le> 11) subject_kinds" by (simp add: subject_kinds_def)
  then have "length (subject_kind p) \<le> 11" using assms by (auto simp: valid_subject_def list_all_iff)
  then show ?thesis using assms by (simp add: print_subject_def valid_subject_def is_namespace_def is_subject_id_def)
qed

lemma subject_utf8:
  assumes "valid_subject p"
  shows "valid_utf8 (print_subject p)"
proof (rule valid_utf8_ascii)
  let ?ascii = "list_all (\<lambda>c. (of_char c :: nat) < 128)"
  have "list_all ?ascii subject_kinds" by (simp add: subject_kinds_def)
  then have k: "?ascii (subject_kind p)" using assms by (auto simp: valid_subject_def list_all_iff)
  obtain t where t: "subject_namespace p = ''p-'' @ t" "list_all is_lower_hex t"
    using assms by (auto simp: valid_subject_def is_namespace_def prefix_def)
  then have n: "?ascii (subject_namespace p)" by (auto simp: list_all_iff is_lower_hex_def is_digit_def)
  have "list_all subject_id_char (subject_id p)" using assms by (simp add: valid_subject_def is_subject_id_def)
  then have "?ascii (subject_id p)"
    by (auto simp: list_all_iff subject_id_char_def is_lower_def is_digit_def)
  with k n show "?ascii (print_subject p)" by (simp add: print_subject_def)
qed

lemma derive_universeD:
  assumes "derive_universe snap chosen subject_filter = Inr uv"
  shows "uv_refs uv = sorted_set (map (subject_text \<circ> snd) (viewed_rows snap chosen subject_filter))"
    and "distinct (uv_refs uv)"
    and "\<forall>ref\<in>set (uv_refs uv). valid_utf8 ref \<and> length ref \<le> 200"
proof -
  have checked: "\<forall>row\<in>set (stream_rows snap chosen). check_subject row = Inr ()"
    and refs: "uv_refs uv = sorted_set (map (\<lambda>(_, raw). subject_text raw) (viewed_rows snap chosen subject_filter))"
    using assms by (auto simp: derive_universe_def Let_def)
  show *: "uv_refs uv = sorted_set (map (subject_text \<circ> snd) (viewed_rows snap chosen subject_filter))"
    unfolding refs by (simp add: comp_def case_prod_unfold)
  show "distinct (uv_refs uv)" unfolding refs by (simp add: sorted_set_def)
  show "\<forall>ref\<in>set (uv_refs uv). valid_utf8 ref \<and> length ref \<le> 200"
  proof
    fix ref assume "ref \<in> set (uv_refs uv)"
    then obtain stream raw where row: "(stream, raw) \<in> set (stream_rows snap chosen)" "has_key ''subject_ref'' raw"
      and ref: "ref = subject_text raw"
      unfolding refs by (auto simp: viewed_rows_def)
    then have "succeeds (parse_subject_ref (get ''subject_ref'' raw))"
      using checked by (auto simp: check_subject_def split: if_split_asm)
    then obtain p where "parse_subject_ref (get ''subject_ref'' raw) = Inr p" by (auto simp: succeeds_def split: sum.splits)
    from parse_subject_ref_sound[OF this] have "ref = print_subject p" "valid_subject p"
      by (simp_all add: ref subject_text_def)
    then show "valid_utf8 ref \<and> length ref \<le> 200" by (simp add: subject_utf8 subject_length)
  qed
qed

lemma normalize_inputsD:
  assumes "normalize_inputs vr = Inr (vi, limit, budget)"
  shows "digest_shape (vi_revision vi)" "0 < limit" "1 \<le> budget" "budget \<le> MAX_BUDGET_BYTES"
    "vr_limit vr = JInt (int limit)" "vr_budget vr = JInt (int budget)"
proof -
  have r: "succeeds (bare_digest (vi_revision vi))" and l: "is_proper_int (vr_limit vr)" "0 < int_of (vr_limit vr)"
    "limit = nat (int_of (vr_limit vr))" and b: "is_proper_int (vr_budget vr)" "1 \<le> int_of (vr_budget vr)"
    "int_of (vr_budget vr) \<le> int MAX_BUDGET_BYTES" "budget = nat (int_of (vr_budget vr))"
    using assms by (auto simp: normalize_inputs_def)
  show "digest_shape (vi_revision vi)" using r by (auto simp: succeeds_def bare_digest_Inr_iff split: sum.splits)
  show "0 < limit" "1 \<le> budget" "budget \<le> MAX_BUDGET_BYTES" using l b by auto
  show "vr_limit vr = JInt (int limit)" using l by (cases "vr_limit vr") auto
  show "vr_budget vr = JInt (int budget)" using b by (cases "vr_budget vr") auto
qed

section \<open>A page fits and serves the next subjects\<close>

lemma fixed_exact: "fixed build = Inr payload \<Longrightarrow> payload = build (length (canonical_json payload))"
  using exact_sized_loop_correct by (auto simp: fixed_def exact_sized_payload_def)

lemma project_subject_ref: "project_subject vi uv ref = Inr subject_out \<Longrightarrow> get ''subject_ref'' subject_out = JStr ref"
  by (auto simp: project_subject_def Let_def)

text \<open>What was served fits: the payload up to the index settles and is within the budget.\<close>

definition page_fits :: "(json list \<Rightarrow> nat \<Rightarrow> json res) \<Rightarrow> nat \<Rightarrow> json list \<Rightarrow> nat \<Rightarrow> bool" where
  "page_fits sized_with budget selected index \<longleftrightarrow>
     (\<exists>p. sized_with selected index = Inr p \<and> length (canonical_json p) \<le> budget)"

lemma serve_spec:
  assumes "serve projected sized_with limit budget refs index selected = Inr (selected', index')"
    and "page_fits sized_with budget selected index" and "length selected \<le> limit"
  shows "\<exists>served. selected' = selected @ served \<and> index' = index + length served \<and> length served \<le> length refs \<and>
    list_all2 (\<lambda>ref subject_out. projected ref = Inr subject_out) (take (length served) refs) served \<and>
    page_fits sized_with budget selected' index' \<and> length selected' \<le> limit"
  using assms
proof (induction projected sized_with limit budget refs index selected rule: serve.induct)
  case (2 projected sized_with limit budget ref refs index selected)
  show ?case
  proof (cases "length selected < limit")
    case room: True
    obtain subject_out where sub: "projected ref = Inr subject_out"
      using 2(2) room by (auto split: sum.split_asm)
    obtain measured where m: "sized_with (selected @ [subject_out]) (index + 1) = Inr measured"
      using 2(2) room sub by (auto split: sum.split_asm)
    show ?thesis
    proof (cases "length (canonical_json measured) > budget")
      case True
      then show ?thesis using 2(2-4) room sub m by (intro exI[of _ "[]"]) simp
    next
      case False
      have next_page: "page_fits sized_with budget (selected @ [subject_out]) (index + 1)"
        using m False by (simp add: page_fits_def)
      have run: "serve projected sized_with limit budget refs (index + 1) (selected @ [subject_out]) = Inr (selected', index')"
        using 2(2) room sub m False by simp
      have "\<not> \<not> length selected < limit" "length (selected @ [subject_out]) \<le> limit" using room by simp_all
      from 2(1)[OF this(1) sub m False run next_page this(2)]
      obtain served where "selected' = (selected @ [subject_out]) @ served" "index' = index + 1 + length served"
        "length served \<le> length refs"
        "list_all2 (\<lambda>ref subject_out. projected ref = Inr subject_out) (take (length served) refs) served"
        "page_fits sized_with budget selected' index'" "length selected' \<le> limit" by blast
      then show ?thesis using sub by (intro exI[of _ "subject_out # served"]) simp
    qed
  next
    case False
    then show ?thesis using 2(2-4) by (intro exI[of _ "[]"]) simp
  qed
qed simp

lemma view_error_schema: "get ''schema'' (view_error code retryable extra) = JStr ''an-kla/view-error-v1''"
  if "''schema'' \<notin> fst ` set extra"
proof -
  have "map_of (rev extra) ''schema'' = None" using that by (simp add: map_of_eq_None_iff)
  then show ?thesis by (simp add: view_error_def map_add_def)
qed

definition is_refusal :: "json \<Rightarrow> bool" where
  "is_refusal page \<longleftrightarrow> get ''schema'' page = JStr ''an-kla/view-error-v1''"

lemma refusals [simp]:
  "is_refusal (view_error code retryable [])" "is_refusal (rule_error e)" "is_refusal (snapshot_error e)"
  "is_refusal (invalid_inputs e)" "is_refusal (universe_error e)" "is_refusal (too_large code ref build budget cursor)"
proof -
  show plain: "is_refusal (view_error code retryable [])" for code retryable
    by (simp add: is_refusal_def view_error_schema)
  show rule: "is_refusal (rule_error e)" by (simp add: rule_error_def plain)
  show "is_refusal (snapshot_error e)" by (simp add: snapshot_error_def plain)
  show "is_refusal (invalid_inputs e)" by (simp add: invalid_inputs_def is_refusal_def view_error_schema)
  have "is_refusal (view_error code retryable [(''detail'', v)])" for code retryable v
    by (simp add: is_refusal_def view_error_schema)
  then show "is_refusal (universe_error e)" using rule plain
    by (simp add: universe_error_def Let_def split: option.split exn_class.split)
  show "is_refusal (too_large code ref build budget cursor)"
    by (simp add: too_large_def is_refusal_def view_error_schema split: option.split)
qed

text \<open>A page of a view: the subjects served from \<open>start\<close>, its exact size, and where the next one begins.\<close>

definition is_page :: "view_identity \<Rightarrow> universe \<Rightarrow> nat \<Rightarrow> nat \<Rightarrow> nat \<Rightarrow> json list \<Rightarrow> json \<Rightarrow> bool" where
  "is_page vi uv limit budget start served page \<longleftrightarrow>
     page = view_payload vi uv limit served (start + length served) budget (length (canonical_json page)) \<and>
     length (canonical_json page) \<le> budget \<and> length served \<le> limit \<and> start + length served \<le> length (uv_refs uv) \<and>
     map (get ''subject_ref'') served = map JStr (take (length served) (drop start (uv_refs uv))) \<and>
     (served = [] \<longrightarrow> start = length (uv_refs uv))"

lemma position_less: "position x xs = Some i \<Longrightarrow> i < length xs"
  by (induction xs arbitrary: i) (auto split: if_split_asm)

lemma decode_cursor_start: "decode_cursor cursor revision identity refs = Some start \<Longrightarrow> start \<le> length refs"
  by (auto simp: decode_cursor_def dest: position_less split: json.split_asm if_split_asm option.split_asm sum.split_asm)

lemma served_refs:
  "list_all2 (\<lambda>ref subject_out. project_subject vi uv ref = Inr subject_out) refs served \<Longrightarrow>
   map (get ''subject_ref'') served = map JStr refs"
  by (induction rule: list_all2_induct) (auto simp: project_subject_ref)

lemma serve_refusal: "serve projected sized_with limit budget refs index selected = Inl refusal \<Longrightarrow> is_refusal refusal"
proof (induction projected sized_with limit budget refs index selected rule: serve.induct)
  case (2 projected sized_with limit budget ref refs index selected)
  then show ?case by (auto split: if_split_asm sum.split_asm)
qed simp

lemma view_page_spec:
  assumes "view_page vi uv limit budget cursor = page"
  shows "is_refusal page \<or>
    (\<exists>start served. decode_cursor cursor (vi_revision vi) (identity_digest vi) (uv_refs uv) = Some start \<and>
       is_page vi uv limit budget start served page)"
proof (cases "decode_cursor cursor (vi_revision vi) (identity_digest vi) (uv_refs uv)")
  case None
  then show ?thesis using assms by (auto simp: view_page_def)
next
  case start: (Some start)
  let ?sized = "\<lambda>selected index. fixed (view_payload vi uv limit selected index budget)"
  show ?thesis
  proof (cases "?sized [] start")
    case (Inl e)
    then show ?thesis using assms start by (auto simp: view_page_def)
  next
    case env: (Inr envelope)
    show ?thesis
    proof (cases "length (canonical_json envelope) > budget")
      case True
      then show ?thesis using assms start env by (auto simp: view_page_def)
    next
      case False
      let ?serve = "serve (project_subject vi uv) ?sized limit budget (drop start (uv_refs uv)) start []"
      show ?thesis
      proof (cases ?serve)
        case (Inl refusal)
        then show ?thesis using assms start env False serve_refusal[OF Inl] by (simp add: view_page_def)
      next
        case done_at: (Inr result)
        obtain selected index where result: "result = (selected, index)" by (cases result)
        have run: "page = finish_page vi uv limit budget cursor start (selected, index)"
          using assms start env False done_at result by (simp add: view_page_def)
        have "page_fits ?sized budget [] start" using env False by (auto simp: page_fits_def)
        from serve_spec[OF done_at[unfolded result] this]
        have served: "index = start + length selected" "length selected \<le> length (drop start (uv_refs uv))"
          "list_all2 (\<lambda>ref subject_out. project_subject vi uv ref = Inr subject_out)
             (take (length selected) (drop start (uv_refs uv))) selected"
          "page_fits ?sized budget selected index" "length selected \<le> limit" by auto
        have le: "start \<le> length (uv_refs uv)" using start by (rule decode_cursor_start)
        show ?thesis
        proof (cases "selected = [] \<and> start < length (uv_refs uv)")
          case True
          then show ?thesis using run by (auto simp: finish_page_def split: sum.split)
        next
          case False
          obtain p where p: "?sized selected index = Inr p" "length (canonical_json p) \<le> budget"
            using served(4) by (auto simp: page_fits_def)
          then have "page = p" using run False by (simp add: finish_page_def)
          moreover have "p = view_payload vi uv limit selected (start + length selected) budget (length (canonical_json p))"
            using fixed_exact[OF p(1)] served(1) by simp
          moreover have "start + length selected \<le> length (uv_refs uv)" using served(2) le by simp
          moreover have "selected = [] \<longrightarrow> start = length (uv_refs uv)" using False le by auto
          ultimately have "is_page vi uv limit budget start selected page"
            using served_refs[OF served(3)] served(5) p(2) unfolding is_page_def by blast
          then show ?thesis using start by blast
        qed
      qed
    qed
  qed
qed

lemma page_fields:
  assumes "is_page vi uv limit budget start served page"
  shows "get ''schema'' page = JStr ''an-kla/context-view-v1''" "get ''subjects'' page = JArr served"
    "get ''next_cursor'' (get ''pagination'' page) = next_cursor vi uv (start + length served)"
    "get ''budget_used_bytes'' (get ''pagination'' page) = JInt (int (length (canonical_json page)))"
proof -
  have payload: "page = view_payload vi uv limit served (start + length served) budget (length (canonical_json page))"
    using assms by (simp add: is_page_def)
  have "get ''schema'' (view_payload vi uv limit served i budget u) = JStr ''an-kla/context-view-v1''"
    "get ''subjects'' (view_payload vi uv limit served i budget u) = JArr served"
    "get ''next_cursor'' (get ''pagination'' (view_payload vi uv limit served i budget u)) = next_cursor vi uv i"
    "get ''budget_used_bytes'' (get ''pagination'' (view_payload vi uv limit served i budget u)) = JInt (int u)" for i u
    by (simp_all add: view_payload_def pagination_def)
  from this[of "start + length served" "length (canonical_json page)", folded payload]
  show "get ''schema'' page = JStr ''an-kla/context-view-v1''" "get ''subjects'' page = JArr served"
    "get ''next_cursor'' (get ''pagination'' page) = next_cursor vi uv (start + length served)"
    "get ''budget_used_bytes'' (get ''pagination'' page) = JInt (int (length (canonical_json page)))" .
qed

section \<open>The view and the readers agree on what is active\<close>

lemma subscript_get: "subscript k v = Inr x \<Longrightarrow> x = get k v"
  by (auto simp: subscript_def get_def split: json.splits option.splits)

lemma check_refutation_entries_shape:
  "check_refutation_entries error seen entries = Inr u \<Longrightarrow> entry \<in> set entries \<Longrightarrow>
   is_obj entry \<and> str_in (get ''stream'' entry) STREAMS"
  by (induction error seen entries rule: check_refutation_entries.induct) (auto simp: Let_def)

lemma snapshot_refutations:
  assumes "snapshot_under_gate n revision use_watermark s = Inr snap"
    and "entry \<in> set (map_items ''refutations_map'' (snap_manifest snap))"
  shows "is_str (get ''stream'' entry)" "is_str (get ''target_record_sha256'' entry)"
proof -
  obtain k where n: "n = Suc k" using assms(1) by (cases n) auto
  obtain r m raw supersessions refutations where
    life: "validate_lifecycle (\<lambda>i. snapshot_under_gate k (Some i) True s) IntegrityError s m raw = Inr ()"
    and maps: "items_of ''supersedes_map'' m = Inr supersessions" "items_of ''refutations_map'' m = Inr refutations"
    and snap: "snap_manifest snap = m"
    using assms(1) unfolding n by auto
  have v: "validate_manifest IntegrityError m = Inr ()" using snapshotD(5)[OF assms(1)] snap by simp
  have entry: "entry \<in> set refutations" using assms(2) items_ofD[OF maps(2)] snap by simp
  have "get ''schema'' m \<noteq> rev1" using rev1_no_refutations[OF v] assms(2) snap by auto
  then have "get ''schema'' m \<in> {rev2, rev3}" using validate_manifestD(2)[OF v] by blast
  then have "check_refutations IntegrityError m = Inr ()" using v by (simp add: validate_manifest_def Let_def)
  then have "check_refutation_entries IntegrityError [] (map_items ''refutations_map'' m) = Inr ()"
    by (simp add: check_refutations_def Let_def map_items_def)
  from check_refutation_entries_shape[OF this] have "str_in (get ''stream'' entry) STREAMS" using assms(2) snap by simp
  then show "is_str (get ''stream'' entry)" by (auto simp: str_in_iff)
  obtain succ where "check_refutation_entry (\<lambda>i. snapshot_under_gate k (Some i) True s) IntegrityError s raw succ entry = Inr ()"
    using life maps entry by (auto simp: validate_lifecycle_def)
  then have "length (filter (\<lambda>row. JStr (digest_json row) = get ''target_record_sha256'' entry)
      (raw (str_of (get ''stream'' entry)))) = 1" by (simp add: check_refutation_entry_def Let_def)
  then have "filter (\<lambda>row. JStr (digest_json row) = get ''target_record_sha256'' entry)
      (raw (str_of (get ''stream'' entry))) \<noteq> []" by auto
  then obtain row where "JStr (digest_json row) = get ''target_record_sha256'' entry" by (auto simp: filter_empty_conv)
  then show "is_str (get ''target_record_sha256'' entry)" by (metis is_str.simps(1))
qed

lemma snapshot_supersessions:
  assumes "snapshot_under_gate n revision use_watermark s = Inr snap"
    and "entry \<in> set (map_items ''supersedes_map'' (snap_manifest snap))"
  shows "is_str (get ''stream'' entry)" "is_str (get ''target_id'' entry)"
proof -
  have "check_supersedes_map IntegrityError (get ''supersedes_map'' (snap_manifest snap)) = Inr ()"
    using snapshotD(5)[OF assms(1)] by (simp add: validate_manifest_def Let_def)
  then have "str_in (get ''stream'' entry) STREAMS \<and> nonempty_str (get ''target_id'' entry)"
    using assms(2) by (cases "get ''supersedes_map'' (snap_manifest snap) = JNull")
      (auto simp: check_supersedes_map_def check_supersedes_entry_def map_items_def)
  then show "is_str (get ''stream'' entry)" "is_str (get ''target_id'' entry)"
    by (auto simp: str_in_iff) (cases "get ''target_id'' entry"; simp)
qed

lemma key_pairs:
  assumes "traverse (key_pair field) entries = Inr pairs"
  shows "pairs = map (\<lambda>entry. (py_str (get ''stream'' entry), py_str (get field entry))) entries"
  using assms by (rule traverse_map_image) (auto simp: key_pair_def dest!: subscript_get)

lemma universe_governance:
  assumes "snapshot_under_gate n revision use_watermark s = Inr snap"
    and "derive_universe snap chosen subject_filter = Inr uv"
  shows "(stream, digest) \<in> set (uv_refuted uv) \<longleftrightarrow>
      (stream, JStr digest) \<in> set (refuted_targets (map_items ''refutations_map'' (snap_manifest snap)))"
    and "set (uv_superseded uv) = set (entry_targets (map_items ''supersedes_map'' (snap_manifest snap)))"
proof -
  let ?R = "map_items ''refutations_map'' (snap_manifest snap)"
  let ?S = "map_items ''supersedes_map'' (snap_manifest snap)"
  obtain supersessions refutations where
    items: "items_of ''supersedes_map'' (snap_manifest snap) = Inr supersessions"
      "items_of ''refutations_map'' (snap_manifest snap) = Inr refutations"
    and t: "traverse (key_pair ''target_record_sha256'') refutations = Inr (uv_refuted uv)"
      "traverse (key_pair ''target_id'') supersessions = Inr (uv_superseded uv)"
    using assms(2) by (auto simp: derive_universe_def Let_def)
  have str: "py_str v = str_of v" if "is_str v" for v using that by (cases v) simp_all
  have r: "uv_refuted uv = map (\<lambda>entry. (py_str (get ''stream'' entry), py_str (get ''target_record_sha256'' entry))) ?R"
    using key_pairs[OF t(1)] items_ofD[OF items(2)] by simp
  have sup: "uv_superseded uv = map (\<lambda>entry. (py_str (get ''stream'' entry), py_str (get ''target_id'' entry))) ?S"
    using key_pairs[OF t(2)] items_ofD[OF items(1)] by simp
  have "JStr (py_str (get ''target_record_sha256'' entry)) = get ''target_record_sha256'' entry"
    "py_str (get ''stream'' entry) = str_of (get ''stream'' entry)" if "entry \<in> set ?R" for entry
    using snapshot_refutations[OF assms(1) that] by (cases "get ''target_record_sha256'' entry", simp_all add: str)
  then have "refuted_targets ?R = map (\<lambda>entry. (py_str (get ''stream'' entry), JStr (py_str (get ''target_record_sha256'' entry)))) ?R"
    by (simp add: refuted_targets_def)
  then have "refuted_targets ?R = map (\<lambda>(stream, digest). (stream, JStr digest)) (uv_refuted uv)" unfolding r by simp
  then show "(stream, digest) \<in> set (uv_refuted uv) \<longleftrightarrow> (stream, JStr digest) \<in> set (refuted_targets ?R)" by force
  have "map (\<lambda>entry. (py_str (get ''stream'' entry), py_str (get ''target_id'' entry))) ?S = entry_targets ?S"
    unfolding entry_targets_def using snapshot_supersessions[OF assms(1)] by (simp add: str)
  then show "set (uv_superseded uv) = set (entry_targets ?S)" unfolding sup by simp
qed

lemma physical_active: "fst (physical_state raw) = ''active'' \<longleftrightarrow> is_active raw"
  by (auto simp: physical_state_def is_active_iff vigency_value_def Let_def not_has_key_get)

lemma project_record_state:
  assumes "project_record vi uv (stream, raw) = Inr item"
  shows "get ''state'' item =
    JStr (case governed_state uv stream raw of Some state \<Rightarrow> state | None \<Rightarrow> fst (physical_state raw))"
proof -
  obtain claimed physical where c: "physical_state raw = (claimed, physical)" by (cases "physical_state raw")
  obtain freshness where f: "view_freshness vi (get ''verified_at'' raw) = Inr freshness"
    using assms c by (auto simp: project_record_def Let_def)
  then have "map_of (rev freshness) ''state'' = None"
    by (auto simp: view_freshness_def split: option.splits prod.splits)
  then show ?thesis using assms c f by (auto simp: project_record_def Let_def map_add_def split: option.split)
qed

lemma project_record_digest:
  assumes "project_record vi uv (stream, raw) = Inr item"
  shows "get ''record_sha256'' item = JStr (digest_json raw)"
proof -
  obtain claimed physical where c: "physical_state raw = (claimed, physical)" by (cases "physical_state raw")
  obtain freshness where f: "view_freshness vi (get ''verified_at'' raw) = Inr freshness"
    using assms c by (auto simp: project_record_def Let_def)
  then have "map_of (rev freshness) ''record_sha256'' = None"
    by (auto simp: view_freshness_def split: option.splits prod.splits)
  then show ?thesis using assms c f by (auto simp: project_record_def Let_def map_add_def)
qed

text \<open>Is a stored record active for a reader of the snapshot, under the overlays of its manifest?\<close>

definition reads_active :: "json \<Rightarrow> string \<times> json \<Rightarrow> bool" where
  "reads_active manifest = (\<lambda>(stream, raw). is_active
     (overlay_row (superseded_targets (map_items ''supersedes_map'' manifest))
       (refuted_targets (map_items ''refutations_map'' manifest)) stream raw))"

lemma project_record_active:
  assumes "snapshot_under_gate n revision use_watermark s = Inr snap"
    and "derive_universe snap chosen subject_filter = Inr uv"
    and "project_record vi uv (stream, raw) = Inr item" and "is_obj raw"
  shows "get ''state'' item = JStr ''active'' \<longleftrightarrow> reads_active (snap_manifest snap) (stream, raw)"
  unfolding project_record_state[OF assms(3)] reads_active_def prod.case is_active_overlay[OF assms(4)]
    snapshotD(3)[OF assms(1)] governed_state_def universe_governance(1)[OF assms(1,2)]
    universe_governance(2)[OF assms(1,2)]
  by (simp add: physical_active)

lemma universe_rows:
  assumes "snapshot_under_gate n revision use_watermark s = Inr snap"
    and "derive_universe snap chosen subject_filter = Inr uv" and "(stream, raw) \<in> set (uv_rows uv ref)"
  shows "is_obj raw"
proof -
  have "(stream, raw) \<in> set (stream_rows snap chosen)"
    using assms(2,3) by (auto simp: derive_universe_def Let_def viewed_rows_def)
  then have "raw \<in> set (snap_raw snap stream)" by (auto simp: stream_rows_def)
  then show ?thesis using snapshotD(1)[OF assms(1)] rows_objects by blast
qed

lemma active_items:
  assumes "list_all2 (\<lambda>row item. (get ''state'' item = JStr ''active'') = P row \<and> get ''record_sha256'' item = JStr (g row)) rows items"
  shows "map (get ''record_sha256'') (filter (\<lambda>item. get ''state'' item = JStr ''active'') items) =
    map (JStr \<circ> g) (filter P rows)"
  using assms by (induction rule: list_all2_induct) auto

lemma project_subject_fields:
  assumes "project_subject vi uv ref = Inr subject_out"
  obtains items where "traverse (project_record vi uv) (uv_rows uv ref) = Inr items"
    "list_items (get ''alternatives'' subject_out) = sort_key item_key (filter (\<lambda>item. get ''state'' item = JStr ''active'') items)"
    "list_items (get ''history'' subject_out) =
       newest_first (sort_key item_key (filter (\<lambda>item. get ''state'' item \<noteq> JStr ''active'') items))"
    "get ''data_conflict'' subject_out = JBool (length (list_items (get ''alternatives'' subject_out)) \<ge> 2)"
proof -
  obtain items where "traverse (project_record vi uv) (uv_rows uv ref) = Inr items"
    using assms by (auto simp: project_subject_def)
  then show ?thesis using that assms by (auto simp: project_subject_def Let_def)
qed


section \<open>Pages\<close>

lemma context_view_cases:
  obtains (refused) "\<forall>cursor. is_refusal (context_view n vr cursor s)"
  | (paged) vi limit budget snap uv where "normalize_inputs vr = Inr (vi, limit, budget)"
      "snapshot_under_gate n (Some (vi_revision vi)) True s = Inr snap"
      "derive_universe snap (vi_streams vi) (vi_subject_filter vi) = Inr uv"
      "\<forall>cursor. context_view n vr cursor s = view_page vi uv limit budget cursor"
proof (cases "normalize_inputs vr")
  case (Inl e)
  then show ?thesis using refused by (simp add: context_view_def)
next
  case inputs: (Inr r)
  obtain vi limit budget where r: "r = (vi, limit, budget)" by (cases r) auto
  show ?thesis
  proof (cases "snapshot_under_gate n (Some (vi_revision vi)) True s")
    case (Inl e)
    then show ?thesis using refused inputs r by (simp add: context_view_def)
  next
    case snap: (Inr snap)
    show ?thesis
    proof (cases "derive_universe snap (vi_streams vi) (vi_subject_filter vi)")
      case (Inl e)
      then show ?thesis using refused inputs r snap by (simp add: context_view_def)
    next
      case (Inr uv)
      then show ?thesis using paged[of vi limit budget snap uv] inputs r snap by (simp add: context_view_def)
    qed
  qed
qed

text \<open>C36: Every answer of the view is a refusal or a page that states its exact size, fits the byte budget
  and the limit of the request, and serves, in the order of their references, the subjects that begin
  where its cursor points, at least one unless none is left; its next cursor is the cursor of the
  first subject it did not serve.\<close>

theorem view_page_fits:
  "is_refusal (context_view n vr cursor s) \<or>
   (\<exists>vi limit budget snap uv start served. normalize_inputs vr = Inr (vi, limit, budget) \<and>
      vr_limit vr = JInt (int limit) \<and> vr_budget vr = JInt (int budget) \<and>
      snapshot_under_gate n (Some (vi_revision vi)) True s = Inr snap \<and>
      derive_universe snap (vi_streams vi) (vi_subject_filter vi) = Inr uv \<and>
      decode_cursor cursor (vi_revision vi) (identity_digest vi) (uv_refs uv) = Some start \<and>
      get ''subjects'' (context_view n vr cursor s) = JArr served \<and>
      map (get ''subject_ref'') served = map JStr (take (length served) (drop start (uv_refs uv))) \<and>
      length served \<le> limit \<and> (start = length (uv_refs uv) \<or> 0 < length served) \<and>
      length (canonical_json (context_view n vr cursor s)) \<le> budget \<and>
      get ''budget_used_bytes'' (get ''pagination'' (context_view n vr cursor s)) =
        JInt (int (length (canonical_json (context_view n vr cursor s)))) \<and>
      get ''next_cursor'' (get ''pagination'' (context_view n vr cursor s)) = next_cursor vi uv (start + length served))"
proof (cases rule: context_view_cases[of n vr s])
  case refused
  then show ?thesis by blast
next
  case (paged vi limit budget snap uv)
  consider "is_refusal (context_view n vr cursor s)"
    | start served where "decode_cursor cursor (vi_revision vi) (identity_digest vi) (uv_refs uv) = Some start"
        "is_page vi uv limit budget start served (context_view n vr cursor s)"
    using view_page_spec paged(4) by metis
  then show ?thesis
  proof cases
    case (2 start served)
    note fields = page_fields[OF 2(2)]
    have page: "length (canonical_json (context_view n vr cursor s)) \<le> budget" "length served \<le> limit"
      "map (get ''subject_ref'') served = map JStr (take (length served) (drop start (uv_refs uv)))"
      "start = length (uv_refs uv) \<or> 0 < length served"
      using 2(2) by (auto simp: is_page_def)
    show ?thesis
      by (rule disjI2, intro exI conjI) (fact paged(1-3) normalize_inputsD(5,6)[OF paged(1)] 2(1) fields page)+
  qed blast
qed

text \<open>A reader that follows the cursors: the references served until a page has no next one, or the
  first answer that is not a page.\<close>

fun follow :: "(json \<Rightarrow> json) \<Rightarrow> nat \<Rightarrow> json \<Rightarrow> json + string list" where
  "follow view 0 cursor = Inl JNull"
| "follow view (Suc fuel) cursor =
     (let page = view cursor; served = map (\<lambda>subject_out. str_of (get ''subject_ref'' subject_out)) (list_items (get ''subjects'' page));
          onwards = get ''next_cursor'' (get ''pagination'' page) in
      if get ''schema'' page \<noteq> JStr ''an-kla/context-view-v1'' then Inl page
      else if onwards = JNull then Inr served
      else case follow view fuel onwards of Inl page' \<Rightarrow> Inl page' | Inr others \<Rightarrow> Inr (served @ others))"

lemma follow_spec:
  assumes "digest_shape (vi_revision vi)" and refs: "distinct (uv_refs uv)"
    "\<forall>ref\<in>set (uv_refs uv). valid_utf8 ref \<and> length ref \<le> 200"
  shows "decode_cursor cursor (vi_revision vi) (identity_digest vi) (uv_refs uv) = Some start \<Longrightarrow>
    length (uv_refs uv) - start < fuel \<Longrightarrow>
    (case follow (view_page vi uv limit budget) fuel cursor of
       Inl page \<Rightarrow> is_refusal page | Inr served \<Rightarrow> served = drop start (uv_refs uv))"
proof (induction fuel arbitrary: cursor start)
  case (Suc fuel)
  let ?page = "view_page vi uv limit budget cursor"
  consider (refused) "is_refusal ?page" | (page) served where "is_page vi uv limit budget start served ?page"
    using view_page_spec[of vi uv limit budget cursor] Suc.prems(1) by auto
  then show ?case
  proof cases
    case refused
    then show ?thesis by (simp add: is_refusal_def Let_def)
  next
    case (page served)
    note fields = page_fields[OF page]
    let ?next = "start + length served"
    have "map str_of (map (get ''subject_ref'') served) = map str_of (map JStr (take (length served) (drop start (uv_refs uv))))"
      using page by (simp add: is_page_def)
    then have refs_served: "map (\<lambda>subject_out. str_of (get ''subject_ref'' subject_out)) served =
        take (length served) (drop start (uv_refs uv))" by (simp add: comp_def)
    have progress: "served = [] \<longrightarrow> start = length (uv_refs uv)" and bound: "?next \<le> length (uv_refs uv)"
      using page by (simp_all add: is_page_def)
    show ?thesis
    proof (cases "?next \<ge> length (uv_refs uv)")
      case True
      then have "take (length served) (drop start (uv_refs uv)) = drop start (uv_refs uv)" by simp
      then show ?thesis using fields refs_served True by (simp add: Let_def next_cursor_def)
    next
      case False
      let ?cursor = "JStr (encode_cursor (vi_revision vi) (identity_digest vi) (uv_refs uv ! ?next))"
      have cur: "next_cursor vi uv ?next = ?cursor" using False by (simp add: next_cursor_def)
      have "decode_cursor ?cursor (vi_revision vi) (identity_digest vi) (uv_refs uv) = Some ?next"
        using False refs(2) nth_mem[of ?next "uv_refs uv"]
        by (intro decode_encode_cursor assms(1) refs(1)) (auto simp: identity_digest_def)
      moreover have "length (uv_refs uv) - ?next < fuel" using Suc.prems(2) progress False by (cases served) auto
      ultimately have IH: "case follow (view_page vi uv limit budget) fuel ?cursor of
          Inl page \<Rightarrow> is_refusal page | Inr others \<Rightarrow> others = drop ?next (uv_refs uv)" by (rule Suc.IH)
      have "take (length served) (drop start (uv_refs uv)) @ drop ?next (uv_refs uv) = drop start (uv_refs uv)"
        by (metis add.commute append_take_drop_id drop_drop)
      then show ?thesis
        using IH fields refs_served cur by (auto simp: Let_def split: sum.splits)
    qed
  qed
qed simp

text \<open>C35: Following the cursors of a view serves every subject exactly once: a reader that starts without
  a cursor and asks again with the cursor of each page either meets a refusal or ends, and has then
  received the references of all subjects of the snapshot that the request selects, each once, in order.\<close>

theorem view_pages_complete:
  "\<exists>fuel. case follow (\<lambda>cursor. context_view n vr cursor s) fuel JNull of
     Inl page \<Rightarrow> is_refusal page
   | Inr served \<Rightarrow> \<exists>vi limit budget snap. normalize_inputs vr = Inr (vi, limit, budget) \<and>
       snapshot_under_gate n (Some (vi_revision vi)) True s = Inr snap \<and> distinct served \<and>
       served = sorted_set (map (subject_text \<circ> snd) (viewed_rows snap (vi_streams vi) (vi_subject_filter vi)))"
proof (cases rule: context_view_cases[of n vr s])
  case refused
  then have "get ''schema'' (context_view n vr JNull s) \<noteq> JStr ''an-kla/context-view-v1''" by (simp add: is_refusal_def)
  then show ?thesis using refused by (intro exI[of _ "Suc 0"]) (simp add: Let_def)
next
  case (paged vi limit budget snap uv)
  note uv = derive_universeD[OF paged(3)]
  have start: "decode_cursor JNull (vi_revision vi) (identity_digest vi) (uv_refs uv) = Some 0" by (simp add: decode_cursor_def)
  have view: "(\<lambda>cursor. context_view n vr cursor s) = view_page vi uv limit budget" using paged(4) by blast
  have spec: "case follow (view_page vi uv limit budget) (Suc (length (uv_refs uv))) JNull of
      Inl page \<Rightarrow> is_refusal page | Inr served \<Rightarrow> served = drop 0 (uv_refs uv)"
    by (rule follow_spec[OF normalize_inputsD(1)[OF paged(1)] uv(2,3) start]) simp
  show ?thesis unfolding view
    by (rule exI[of _ "Suc (length (uv_refs uv))"], cases "follow (view_page vi uv limit budget) (Suc (length (uv_refs uv))) JNull")
      (use spec paged(1,2) uv(1,2) in auto)
qed

end
