(* ===== verification/Spec2Isabelle.thy ===== *)
theory Spec2Isabelle
  imports SnapshotDepth PlanLifecycle ChildManifest CheckpointCommit RefuteCommit RefuteInspect IdentityLife Assembly ContextView
begin

text \<open>
  AN-KLA Memory: a local store of immutable, content-addressed revisions for agent projects.

  \<^bold>\<open>The program.\<close> A store lives in \<^verbatim>\<open>.an-kla/\<close> of a project. Records (facts, events, episodes) are
  JSON objects in JSONL segments; a revision is a manifest that lists segments, a checkpoint, the
  supersessions and the refutations, and names its parent; \<^verbatim>\<open>refs/CURRENT\<close> names the live revision and is
  the only authority. Every object is named by the SHA-256 of its canonical JSON. A change is planned
  by a pure policy from a proposal and an authority, planned again and compared under the write lock, and
  committed by writing segments, checkpoint, manifest, log entries, a stage and durability receipts
  before \<^verbatim>\<open>CURRENT\<close> is replaced atomically; a journal per transaction lets an interrupted change be
  inspected and repaired. A store is bound to an identity that every manifest links.

  \<^bold>\<open>Conventions.\<close> A Python exception is a value \<open>Exn cls code detail\<close>, a fallible function returns
  \<open>exn + 'a\<close> (\<open>Inl\<close> is the exception). JSON values are the datatype \<open>json\<close> with dicts as association
  lists in their order; strings are their UTF-8 bytes; integers are unbounded, floats are the text
  \<^verbatim>\<open>repr\<close> gives. The state \<open>os\<close> of an effectful operation holds the files (paths are relative to
  \<^verbatim>\<open>.an-kla/memory\<close>, a path that starts with \<^verbatim>\<open>../\<close> is below the custody root), the random identifiers and an
  oracle that decides the fate of every operating-system call: it works, fails, or writes fewer bytes.
  A theorem about an operation so holds for every sequence of failures and short writes. An
  operation that may wait for a lock for ever returns an option. Where Python recursion is
  bounded by the interpreter the bound is an argument.

  \<^bold>\<open>Foundations.\<close> Prelude (exceptions, results), PyValue (values, equality, dict updates), JsonText and
  JsonRoundtrip (\<^verbatim>\<open>json.dumps\<close>, \<^verbatim>\<open>json.loads\<close> and their inverse law), Sha256, Canonical (\<^verbatim>\<open>canonical.py\<close>,
  with the locale \<open>content_address\<close>), Temporal (\<^verbatim>\<open>temporal.py\<close>), Records (\<^verbatim>\<open>vigency.py\<close>, \<^verbatim>\<open>record_text.py\<close>,
  \<^verbatim>\<open>subject_ref.py\<close>, \<^verbatim>\<open>subject_binding.py\<close>).

  \<^bold>\<open>Policies\<close>, pure functions of a proposal, an authority and a base: WritePolicy, WriteBatch and PlanVerify
  (\<^verbatim>\<open>write_policy.py\<close>, \<^verbatim>\<open>write_batch.py\<close>), CheckpointPolicy (\<^verbatim>\<open>checkpoint_policy.py\<close>), RefuteContracts and
  RefutePolicy (\<^verbatim>\<open>refute_contracts.py\<close>, \<^verbatim>\<open>refute_policy.py\<close>), CompactionContracts (\<^verbatim>\<open>compaction_contracts.py\<close>).
  Their lemmas say that an accepted decision was authorised, that a plan verifies against what it was built from, and
  where the code deviates from that.

  \<^bold>\<open>Storage.\<close> Storage and Immutable (\<^verbatim>\<open>storage_primitives.py\<close>, call by call; the locale
  \<open>step_relation\<close> turns a relation that every call respects into frame rules for every operation), ObjectStore (the
  objects, segments, journals and \<^verbatim>\<open>CURRENT\<close> of \<^verbatim>\<open>store.py\<close>, with the locale \<open>content_store\<close>), Frames, WriteOnce.

  \<^bold>\<open>Revisions.\<close> Manifest and Chain (\<^verbatim>\<open>revision_validation.py\<close>, \<^verbatim>\<open>revision_builder.py\<close>), RevisionWalk
  (\<^verbatim>\<open>revision_walk.py\<close>, \<^verbatim>\<open>watermark.py\<close>), Snapshot and SnapshotDepth (the read of a revision in \<^verbatim>\<open>store.py\<close> and
  \<^verbatim>\<open>refutations.py\<close>), Lifecycle (\<^verbatim>\<open>plan_guard.py\<close>, \<^verbatim>\<open>supersede.py\<close>, \<^verbatim>\<open>compaction_projection.py\<close>). The lemmas: a valid
  chain only grows, a watermark gives the same answer as long as the ancestors are intact, a snapshot is consistent,
  reading ends.

  \<^bold>\<open>Transactions.\<close> Attempts (\<^verbatim>\<open>transaction_attempts.py\<close> and the outcome of \<^verbatim>\<open>transactions.py\<close>), Evidence and Receipts
  (\<^verbatim>\<open>transactions.py\<close>, \<^verbatim>\<open>receipt_validation.py\<close>, \<^verbatim>\<open>audit_validation.py\<close>, \<^verbatim>\<open>transaction_reconcile.py\<close>), Commit, Append and
  ChildManifest (\<open>commit_locked\<close>), Repair (\<^verbatim>\<open>transaction_repair.py\<close>), Initialize (\<^verbatim>\<open>initialization.py\<close>). The lemmas: what a commit appends,
  what its validator can still reject,
  that an outcome is true of the files whatever failed, that repair keeps the evidence.

  \<^bold>\<open>Governed changes.\<close> Mutation (the preflight and the locked section shared by them, as the locale \<open>locked_section\<close>),
  WriteCommit, PlanLifecycle, CheckpointCommit, RefuteCommit, RefuteInspect (\<^verbatim>\<open>write_commit.py\<close>, \<^verbatim>\<open>checkpoints.py\<close>, \<^verbatim>\<open>refutations.py\<close>,
  \<^verbatim>\<open>refute_inspect.py\<close>, \<^verbatim>\<open>store.py\<close>): \<^verbatim>\<open>CURRENT\<close> only moves for a plan that was verified again under the lock,
  and what is planned keeps the lifecycle of supersessions.
  Gates (\<^verbatim>\<open>store_locks.py\<close>, \<^verbatim>\<open>reader_gate.py\<close>; the gate is a step relation of threads), Attest (\<^verbatim>\<open>attest.py\<close>).

  \<^bold>\<open>Identity.\<close> Identity (\<^verbatim>\<open>identity.py\<close>, \<^verbatim>\<open>identity_evidence.py\<close>, the pointer of \<^verbatim>\<open>custody.py\<close>), Relocation
  (\<^verbatim>\<open>relocation_receipts.py\<close>), Bootstrap and Adoption (\<^verbatim>\<open>identity.py\<close>, \<^verbatim>\<open>identity_relocation.py\<close>), IdentityLife (their theorems:
  identity files are written once, the first root is bound to the identity on disk).

  \<^bold>\<open>Reading.\<close> Index (\<^verbatim>\<open>index.py\<close>: the derived full-text index, rebuilt from a snapshot),
  Retrieval (\<^verbatim>\<open>retrieval.py\<close>: the candidates the index offers, the verdict on each record, ranking and budget), Assembly
  (\<^verbatim>\<open>context.py\<close>: the payload and its size), Resume (\<^verbatim>\<open>resume.py\<close>: the checkpoint in full
  and the evidence that fits, with the minimum budget of a refusal), ContextView
  (\<^verbatim>\<open>context_view.py\<close>: the records of a revision by subject, served in pages with a cursor). Their theorems: an index never changes the answer of a retrieval, every record is
  either a hit or excluded under a named reason, and an assembled payload, a resume and a page of the view
  state their size and fit their budget, following
  the cursors of a view serves every subject once, and the view calls active exactly the records that retrieval reads as active.

  \<^bold>\<open>Bounds and fuel.\<close> \<open>json_loads\<close> parses with fuel \<open>2 * length + 1\<close>, which JsonRoundtrip shows to be enough for every
  text the program prints. The audit of a chain has as many rounds as the revision number plus two, since every step
  lowers the number. The nesting of snapshots is bounded by the recursion limit, an argument; SnapshotDepth shows that
  any number above the revision number gives the same answer. The catalogue chain has the 1024 pages of the code, a relocation chain its 10000
  receipts, and the polling of a lock ends after the number of attempts that fit before the deadline (Gates). The sizes of payloads
  settle within the 16 or 32 rounds of the code, and the search for a minimum budget has its 64 rounds for each number of digits; to run out of
  them is an error of the code that the model keeps. Nothing else is fuelled.

  \<^bold>\<open>Parameters.\<close> \<^verbatim>\<open>uuid4\<close>, the clock, \<^verbatim>\<open>flock\<close>, the version string, the project root, the authority resolver
  of a refutation, the process that a receipt attests and its environment, the
  SQLite database behind the derived index, the word characters and case folding of Unicode. SHA-256 and HMAC are computed, not assumed; a statement
  about digests names the collision it excludes.

  \<^bold>\<open>Not modelled.\<close> Reads that fail for another reason than a missing file where the code does not wrap them, symbolic links and directories in
  the place of files, concurrent writers outside the gate. The command line and the MCP server (argument
  parsing and printing), the sealed bundles (third-party cryptography), export, restore and the moving of directory trees, the context block in the
  documents of a host, host integration and upgrade checks, and the evaluation and benchmark code. The
  manifest of the development lists every part with its reason.
\<close>

text \<open>C9: Whatever the program stores as canonical JSON reads back as the value that was written:
  for a value in normal form, with UTF-8 strings and finite floats, \<open>json.loads\<close> of
  \<open>canonical_json(v)\<close>, alone or followed by the newline of a JSONL line, is \<open>v\<close>.\<close>

theorem canonical_json_roundtrip:
  "storable v \<Longrightarrow>
   json_loads (canonical_json v) = Inr v \<and>
   json_loads (canonical_json v @ [CHR 0x0A]) = Inr v \<and> valid_utf8 (canonical_json v)"
  by (simp add: canonical_json_loads canonical_json_line_loads)
     (simp add: storable_def canonical_json_wf valid_utf8_emit)

definition sample_record :: json where
  "sample_record =
     mk_obj [(''id'', JStr ''urn:uuid:1''), (''text'', JStr ''a b''), (''n'', JInt (-12)),
             (''nested'', JArr [JNull, JBool True, JObj []])]"

lemma canonical_json_roundtrip_witness:
  "storable sample_record \<and> json_loads (canonical_json sample_record) = Inr sample_record"
proof -
  have s: "storable sample_record"
    by (simp add: storable_def sample_record_def mk_obj_def sorted_keys_def valid_utf8_ascii)
  show ?thesis using s canonical_json_roundtrip[OF s] by simp
qed

text \<open>Content addresses identify content: two storable values have the same
  \<open>digest_json\<close> exactly when they are equal or their canonical texts are an explicit SHA-256
  collision. Every
  digest the program computes is an identifier that \<open>bare_digest\<close> accepts, and \<open>bare_digest\<close>
  accepts exactly the texts \<open>sha256:\<close> followed by 64 lower-case hexadecimal digits.\<close>

theorem digest_json_identifies:
  assumes "storable v" "storable w"
  shows "(digest_json v = digest_json w) = (v = w \<or> collision (canonical_json v) (canonical_json w)) \<and>
   bare_digest (digest_json v) = Inr (drop 7 (digest_json v)) \<and>
   (\<exists>h. bare_digest s = Inr h)
     = (prefix ''sha256:'' s \<and> length s = 71 \<and> list_all is_lower_hex (drop 7 s))"
proof -
  have "digest_json v = digest_json w \<longleftrightarrow> v = w \<or> collision (canonical_json v) (canonical_json w)"
    using canonical_json_inject[OF assms] by (auto simp: digest_json_def digest_bytes_eq)
  moreover have "(\<exists>h. bare_digest s = Inr h) = digest_shape s"
    by (simp add: bare_digest_Inr_iff)
  ultimately show ?thesis by (simp add: digest_shape_def[of s])
qed

lemma digest_json_identifies_witness:
  "(digest_json (JInt 1) = digest_json (JInt 2))
     = (JInt 1 = JInt 2 \<or> collision (canonical_json (JInt 1)) (canonical_json (JInt 2)))"
proof -
  have s: "storable (JInt 1)" "storable (JInt 2)" by simp_all
  show ?thesis using digest_json_identifies[OF s] by blast
qed

text \<open>A payload that states its own size is exact: when \<open>exact_sized_payload\<close> returns, the
  payload is the one built for the returned size and that size is the length of its canonical
  text.\<close>

theorem exact_sized_payload_exact:
  "exact_sized_payload build n = Inr (payload, measured) \<Longrightarrow>
   payload = build measured \<and> measured = length (canonical_json payload)"
  unfolding exact_sized_payload_def by (rule exact_sized_loop_correct)

definition sized_sample :: "nat \<Rightarrow> json" where
  "sized_sample n = mk_obj [(''used'', JInt (int n))]"

lemma exact_sized_payload_exact_witness:
  "\<exists>payload. exact_sized_payload sized_sample 4 = Inr (payload, 11) \<and>
     length (canonical_json payload) = 11"
proof -
  have e: "exact_sized_payload sized_sample 4 = Inr (sized_sample 11, 11)"
    by code_simp
  show ?thesis using exact_sized_payload_exact[OF e] e by auto
qed

end
